(* ===== verification/JS_Base.thy ===== *)
theory JS_Base
  imports Complex_Main
begin

text \<open>
  The prelude: what the control plane uses of JavaScript and of Nest's exceptions
  (strings, numbers, dynamically typed values, objects with spread), and the generic
  list and option facts that every component shares.

  Strings are Isabelle strings, one \<open>char\<close> per UTF-16 unit, and case conversion acts
  on the letters A to Z only: the model covers the Latin-1 range with ASCII case
  folding. Numbers are exact rationals plus NaN and the infinities; rounding of
  doubles is not modelled. Times are milliseconds since the epoch, as \<open>int\<close>.
\<close>

named_theorems js_eval \<open>equations that evaluate the string and number primitives\<close>
named_theorems tbl \<open>laws of the table operations\<close>
named_theorems frame \<open>what an operation leaves unchanged\<close>

type_synonym ms = int
type_synonym id = string

section \<open>Exceptions\<close>

datatype exn =
    BadRequestException string
  | UnauthorizedException string
  | ForbiddenException string
  | NotFoundException string
  | ConflictException string
  | TooManyRequestsException string int
  | ServiceUnavailableException string
  | GatewayTimeoutException string
  | BadGatewayException string
  | Error string

type_synonym 'a res = "exn + 'a"

section \<open>Characters and strings\<close>

definition code :: "char \<Rightarrow> nat" where
  "code c = of_char c"

definition is_ws :: "char \<Rightarrow> bool" where
  "is_ws c = (code c \<in> {9, 10, 11, 12, 13, 32, 160})"

definition is_digit :: "char \<Rightarrow> bool" where
  "is_digit c = (48 \<le> code c \<and> code c \<le> 57)"

definition is_upper :: "char \<Rightarrow> bool" where
  "is_upper c = (65 \<le> code c \<and> code c \<le> 90)"

definition is_lower :: "char \<Rightarrow> bool" where
  "is_lower c = (97 \<le> code c \<and> code c \<le> 122)"

definition is_alpha :: "char \<Rightarrow> bool" where
  "is_alpha c = (is_upper c \<or> is_lower c)"

definition is_alnum :: "char \<Rightarrow> bool" where
  "is_alnum c = (is_alpha c \<or> is_digit c)"

definition is_hex :: "char \<Rightarrow> bool" where
  "is_hex c = (is_digit c \<or> (65 \<le> code c \<and> code c \<le> 70) \<or> (97 \<le> code c \<and> code c \<le> 102))"

definition lower_char :: "char \<Rightarrow> char" where
  "lower_char c = (if is_upper c then char_of (code c + 32) else c)"

definition upper_char :: "char \<Rightarrow> char" where
  "upper_char c = (if is_lower c then char_of (code c - 32) else c)"

definition toLowerCase :: "string \<Rightarrow> string" where
  "toLowerCase s = map lower_char s"

definition toUpperCase :: "string \<Rightarrow> string" where
  "toUpperCase s = map upper_char s"

definition trim :: "string \<Rightarrow> string" where
  "trim s = rev (dropWhile is_ws (rev (dropWhile is_ws s)))"

definition startsWith :: "string \<Rightarrow> string \<Rightarrow> bool" where
  "startsWith s p = (take (length p) s = p)"

definition last_n :: "nat \<Rightarrow> string \<Rightarrow> string" where
  \<comment> \<open>\<open>s.slice(-n)\<close>\<close>
  "last_n n s = drop (length s - n) s"

fun split :: "char \<Rightarrow> string \<Rightarrow> string list" where
  "split d [] = [[]]"
| "split d (c # s) =
     (if c = d then [] # split d s
      else (case split d s of [] \<Rightarrow> [[c]] | p # ps \<Rightarrow> (c # p) # ps))"

fun join :: "string \<Rightarrow> string list \<Rightarrow> string" where
  "join sep [] = []"
| "join sep [s] = s"
| "join sep (s # t # ss) = s @ sep @ join sep (t # ss)"

fun contains :: "string \<Rightarrow> string \<Rightarrow> bool" where
  "contains [] p = (p = [])"
| "contains (c # s) p = (startsWith (c # s) p \<or> contains s p)"

text \<open>\<open>a || b\<close> on strings: the empty string is falsy.\<close>

definition or_str :: "string \<Rightarrow> string \<Rightarrow> string" where
  "or_str a b = (if a = [] then b else a)"

text \<open>\<open>s || null\<close> for a string.\<close>

definition or_null :: "string \<Rightarrow> string option" where
  "or_null s = (if s = [] then None else Some s)"

definition opt_or :: "'a option \<Rightarrow> 'a \<Rightarrow> 'a" where
  "opt_or x d = (case x of None \<Rightarrow> d | Some v \<Rightarrow> v)"

definition opt_orelse :: "'a option \<Rightarrow> 'a option \<Rightarrow> 'a option" where
  "opt_orelse x y = (case x of None \<Rightarrow> y | Some _ \<Rightarrow> x)"

section \<open>Numbers\<close>

datatype jsnum = NaN | Infinite bool | Fin rat

definition isInteger :: "jsnum \<Rightarrow> bool" where
  "isInteger n = (case n of Fin q \<Rightarrow> of_int \<lfloor>q\<rfloor> = q | _ \<Rightarrow> False)"

definition num_int :: "jsnum \<Rightarrow> int" where
  "num_int n = (case n of Fin q \<Rightarrow> \<lfloor>q\<rfloor> | _ \<Rightarrow> 0)"

definition int_num :: "int \<Rightarrow> jsnum" where
  "int_num i = Fin (of_int i)"

definition digit_val :: "char \<Rightarrow> nat" where
  "digit_val c =
     (if is_digit c then code c - 48
      else if is_lower c then code c - 87
      else if is_upper c then code c - 55 else 0)"

definition radix_val :: "nat \<Rightarrow> string \<Rightarrow> nat" where
  "radix_val r ds = foldl (\<lambda>n c. r * n + digit_val c) 0 ds"

definition expo :: "nat \<Rightarrow> nat \<Rightarrow> string \<Rightarrow> jsnum" where
  "expo m k r =
     (case r of [] \<Rightarrow> Fin (of_nat m / 10 ^ k)
      | c # r' \<Rightarrow>
          if c \<noteq> CHR ''e'' \<and> c \<noteq> CHR ''E'' then NaN
          else (let neg = (r' \<noteq> [] \<and> hd r' = CHR ''-'');
                    ds = (if r' \<noteq> [] \<and> (hd r' = CHR ''-'' \<or> hd r' = CHR ''+'') then tl r' else r')
                in if ds = [] \<or> \<not> list_all is_digit ds then NaN
                   else if neg then Fin (of_nat m / 10 ^ k / 10 ^ radix_val 10 ds)
                   else Fin (of_nat m / 10 ^ k * 10 ^ radix_val 10 ds)))"

definition unsigned_dec :: "string \<Rightarrow> jsnum" where
  "unsigned_dec s =
     (if s = ''Infinity'' then Infinite True
      else let ip = takeWhile is_digit s; r = dropWhile is_digit s in
        (case r of
           CHR ''.'' # r' \<Rightarrow>
             (let fp = takeWhile is_digit r'; r2 = dropWhile is_digit r' in
              if ip = [] \<and> fp = [] then NaN else expo (radix_val 10 (ip @ fp)) (length fp) r2)
         | _ \<Rightarrow> if ip = [] then NaN else expo (radix_val 10 ip) 0 r))"

definition num_neg :: "jsnum \<Rightarrow> jsnum" where
  "num_neg n = (case n of NaN \<Rightarrow> NaN | Infinite b \<Rightarrow> Infinite (\<not> b) | Fin q \<Rightarrow> Fin (- q))"

text \<open>\<open>Number(s)\<close>: decimal literals with sign, fraction and exponent, and the unsigned
  hexadecimal, octal and binary forms; the empty string is 0.\<close>

definition toNumber :: "string \<Rightarrow> jsnum" where
  "toNumber s0 =
     (let s = trim s0 in
      if s = [] then Fin 0
      else if hd s = CHR ''-'' then num_neg (unsigned_dec (tl s))
      else if hd s = CHR ''+'' then unsigned_dec (tl s)
      else if length s > 2 \<and> take 2 s \<in> {''0x'', ''0X''} \<and> list_all is_hex (drop 2 s)
        then Fin (of_nat (radix_val 16 (drop 2 s)))
      else if length s > 2 \<and> take 2 s \<in> {''0o'', ''0O''} \<and>
              list_all (\<lambda>c. is_digit c \<and> digit_val c < 8) (drop 2 s)
        then Fin (of_nat (radix_val 8 (drop 2 s)))
      else if length s > 2 \<and> take 2 s \<in> {''0b'', ''0B''} \<and>
              list_all (\<lambda>c. is_digit c \<and> digit_val c < 2) (drop 2 s)
        then Fin (of_nat (radix_val 2 (drop 2 s)))
      else unsigned_dec s)"

text \<open>\<open>parseInt(s, 10)\<close>: leading white space, a sign, then as many digits as there are;
  None is NaN.\<close>

definition parseInt10 :: "string \<Rightarrow> int option" where
  "parseInt10 s0 =
     (let s = dropWhile is_ws s0;
          neg = (s \<noteq> [] \<and> hd s = CHR ''-'');
          r = (if s \<noteq> [] \<and> (hd s = CHR ''-'' \<or> hd s = CHR ''+'') then tl s else s);
          ds = takeWhile is_digit r
      in if ds = [] then None
         else Some (if neg then - int (radix_val 10 ds) else int (radix_val 10 ds)))"

text \<open>\<open>String(n)\<close> for an integer.\<close>

fun nat_str :: "nat \<Rightarrow> string" where
  "nat_str n = (if n < 10 then [char_of (48 + n)] else nat_str (n div 10) @ [char_of (48 + n mod 10)])"

declare nat_str.simps [simp del]

definition int_str :: "int \<Rightarrow> string" where
  "int_str i = (if i < 0 then CHR ''-'' # nat_str (nat (- i)) else nat_str (nat i))"

section \<open>Dynamically typed values\<close>

datatype js =
    Undefined
  | Null
  | Bool bool
  | Num jsnum
  | Str string
  | Arr "js list"
  | Obj "(string \<times> js) list"

type_synonym obj = "(string \<times> js) list"

abbreviation JInt :: "int \<Rightarrow> js" where
  "JInt i \<equiv> Num (int_num i)"

definition truthy :: "js \<Rightarrow> bool" where
  "truthy v = (case v of
      Undefined \<Rightarrow> False | Null \<Rightarrow> False | Bool b \<Rightarrow> b
    | Num NaN \<Rightarrow> False | Num (Fin q) \<Rightarrow> q \<noteq> 0 | Num (Infinite b) \<Rightarrow> True
    | Str s \<Rightarrow> s \<noteq> [] | Arr _ \<Rightarrow> True | Obj _ \<Rightarrow> True)"

definition nullish :: "js \<Rightarrow> bool" where
  "nullish v = (v = Undefined \<or> v = Null)"

definition is_object :: "js \<Rightarrow> bool" where
  "is_object v = (case v of Obj _ \<Rightarrow> True | Arr _ \<Rightarrow> True | _ \<Rightarrow> False)"

definition coalesce :: "js \<Rightarrow> js \<Rightarrow> js" where
  "coalesce a b = (if nullish a then b else a)"

definition get :: "obj \<Rightarrow> string \<Rightarrow> js" where
  "get o' k = (case map_of o' k of None \<Rightarrow> Undefined | Some v \<Rightarrow> v)"

text \<open>Property access on a value that \<open>typeof\<close> calls an object; arrays have none of the
  named properties the code reads.\<close>

definition field :: "js \<Rightarrow> string \<Rightarrow> js" where
  "field v k = (case v of Obj o' \<Rightarrow> get o' k | _ \<Rightarrow> Undefined)"

fun put :: "string \<Rightarrow> js \<Rightarrow> obj \<Rightarrow> obj" where
  "put k v [] = [(k, v)]"
| "put k v ((k', v') # o') = (if k' = k then (k, v) # o' else (k', v') # put k v o')"

text \<open>Object spread \<open>{...a, ...b}\<close>: the keys of \<open>b\<close> win.\<close>

definition spread :: "obj \<Rightarrow> obj \<Rightarrow> obj" where
  "spread a b = foldl (\<lambda>o' (k, v). put k v o') a b"

definition del :: "string \<Rightarrow> obj \<Rightarrow> obj" where
  "del k o' = filter (\<lambda>(k', _). k' \<noteq> k) o'"

definition js_opt :: "string option \<Rightarrow> js" where
  "js_opt x = (case x of None \<Rightarrow> Undefined | Some s \<Rightarrow> Str s)"

text \<open>A nullable column read back as a value.\<close>

definition js_null :: "string option \<Rightarrow> js" where
  "js_null x = (case x of None \<Rightarrow> Null | Some s \<Rightarrow> Str s)"

definition str_of :: "js \<Rightarrow> string" where
  "str_of v = (case v of Str s \<Rightarrow> s | _ \<Rightarrow> [])"

fun to_num :: "js \<Rightarrow> jsnum" where
  \<comment> \<open>\<open>Number(v)\<close>; an array goes through its string, the elements joined by commas\<close>
  "to_num Undefined = NaN"
| "to_num Null = Fin 0"
| "to_num (Bool b) = Fin (if b then 1 else 0)"
| "to_num (Num n) = n"
| "to_num (Str s) = toNumber s"
| "to_num (Obj o') = NaN"
| "to_num (Arr xs) =
     (case xs of [] \<Rightarrow> Fin 0
      | [x] \<Rightarrow> (if nullish x then Fin 0 else if x = Bool True \<or> x = Bool False then NaN else to_num x)
      | _ \<Rightarrow> NaN)"

text \<open>\<open>String(v).trim() === ''\<close>.\<close>

fun js_blank :: "js \<Rightarrow> bool" where
  "js_blank (Str s) = (trim s = [])"
| "js_blank (Arr xs) =
     (case xs of [] \<Rightarrow> True | [x] \<Rightarrow> nullish x \<or> js_blank x | _ \<Rightarrow> False)"
| "js_blank _ = False"

text \<open>\<open>String(v)\<close>. A number prints as its decimal expansion, cut after 30 digits; the
  exponent form of very large and very small numbers is left out.\<close>

fun frac_digits :: "nat \<Rightarrow> rat \<Rightarrow> string" where
  "frac_digits 0 r = []"
| "frac_digits (Suc n) r =
     (if r = 0 then [] else char_of (48 + nat \<lfloor>10 * r\<rfloor>) # frac_digits n (10 * r - of_int \<lfloor>10 * r\<rfloor>))"

definition num_str :: "jsnum \<Rightarrow> string" where
  "num_str n = (case n of NaN \<Rightarrow> ''NaN'' | Infinite b \<Rightarrow> (if b then ''Infinity'' else ''-Infinity'')
     | Fin q \<Rightarrow>
         if isInteger n then int_str \<lfloor>q\<rfloor>
         else (if q < 0 then ''-'' else []) @ int_str \<lfloor>\<bar>q\<bar>\<rfloor> @ ''.'' @
              frac_digits 30 (\<bar>q\<bar> - of_int \<lfloor>\<bar>q\<bar>\<rfloor>))"

fun js_string :: "js \<Rightarrow> string" where
  "js_string Undefined = ''undefined''"
| "js_string Null = ''null''"
| "js_string (Bool b) = (if b then ''true'' else ''false'')"
| "js_string (Num n) = num_str n"
| "js_string (Str s) = s"
| "js_string (Arr xs) = join '','' (map (\<lambda>x. if nullish x then [] else js_string x) xs)"
| "js_string (Obj o') = ''[object Object]''"

section \<open>Maps\<close>

text \<open>A JavaScript \<open>Map\<close> is the list of its entries in insertion order.\<close>

fun map_put :: "'k \<Rightarrow> 'v \<Rightarrow> ('k \<times> 'v) list \<Rightarrow> ('k \<times> 'v) list" where
  "map_put k v [] = [(k, v)]"
| "map_put k v ((k', v') # m) = (if k' = k then (k, v) # m else (k', v') # map_put k v m)"

definition map_del :: "'k \<Rightarrow> ('k \<times> 'v) list \<Rightarrow> ('k \<times> 'v) list" where
  "map_del k m = filter (\<lambda>e. fst e \<noteq> k) m"

text \<open>\<open>common/ttl-map.ts\<close>: the entries that are still fresh, and how many were removed.\<close>

definition pruneMap :: "('v \<Rightarrow> 'k \<Rightarrow> bool) \<Rightarrow> ('k \<times> 'v) list \<Rightarrow> ('k \<times> 'v) list \<times> nat" where
  "pruneMap isFresh m =
     (let kept = filter (\<lambda>(k, v). isFresh v k) m in (kept, length m - length kept))"

lemma map_of_map_put [simp]: "map_of (map_put k v m) = (map_of m)(k \<mapsto> v)"
  by (induction m) (auto simp: fun_eq_iff)

lemma set_map_put_keys: "fst ` set (map_put k v m) = insert k (fst ` set m)"
proof (induction m)
  case (Cons e m)
  then show ?case by (cases e) (simp add: insert_commute)
qed simp

lemma distinct_map_put: "distinct (map fst m) \<Longrightarrow> distinct (map fst (map_put k v m))"
proof (induction m)
  case (Cons e m)
  then show ?case by (cases e) (use set_map_put_keys [of k v m] in auto)
qed simp

lemma map_of_prune:
  assumes "distinct (map fst m)"
  shows "map_of (fst (pruneMap isFresh m)) k =
    (case map_of m k of Some v \<Rightarrow> if isFresh v k then Some v else None | None \<Rightarrow> None)"
  using assms
proof (induction m)
  case (Cons e m)
  obtain k1 v1 where e: "e = (k1, v1)" by (cases e)
  have "map_of (fst (pruneMap isFresh m)) k1 = None"
    using Cons.prems e by (auto simp: map_of_eq_None_iff pruneMap_def Let_def)
  with Cons e show ?case by (auto simp: pruneMap_def Let_def split: option.splits)
qed (simp add: pruneMap_def)

lemma distinct_prune: "distinct (map fst m) \<Longrightarrow> distinct (map fst (fst (pruneMap f m)))"
  by (simp add: pruneMap_def Let_def distinct_map_filter)

section \<open>Facts on strings\<close>

lemma startsWith_append [simp]: "startsWith (p @ s) p"
  by (simp add: startsWith_def)

lemma startsWith_iff: "startsWith s p \<longleftrightarrow> (\<exists>t. s = p @ t)"
  by (metis append_take_drop_id startsWith_append startsWith_def)

lemma trim_Nil [simp]: "trim [] = []"
  by (simp add: trim_def)

lemma set_trim: "set (trim s) \<subseteq> set s"
  by (auto simp: trim_def dest!: set_dropWhileD)

lemma length_trim: "length (trim s) \<le> length s"
proof -
  have "length (trim s) \<le> length (dropWhile is_ws s)"
    unfolding trim_def by (metis length_dropWhile_le length_rev)
  then show ?thesis using length_dropWhile_le [of is_ws s] by linarith
qed

lemma trim_no_ws: "list_all (\<lambda>c. \<not> is_ws c) s \<Longrightarrow> trim s = s"
proof -
  assume a: "list_all (\<lambda>c. \<not> is_ws c) s"
  have d: "dropWhile is_ws t = t" if "list_all (\<lambda>c. \<not> is_ws c) t" for t
    using that by (cases t) auto
  from a have "list_all (\<lambda>c. \<not> is_ws c) (rev s)"
    by (simp add: list_all_iff)
  with a show "trim s = s" by (simp add: trim_def d)
qed

lemma dropWhile_idem: "dropWhile P (dropWhile P xs) = dropWhile P xs"
  by (induction xs) auto

lemma dropWhile_hd_not:
  "t \<noteq> [] \<Longrightarrow> \<not> P (hd t) \<Longrightarrow> dropWhile P t = t"
  by (cases t) auto

lemma trim_hd: "trim s \<noteq> [] \<Longrightarrow> \<not> is_ws (hd (trim s))"
proof -
  let ?d = "dropWhile is_ws s"
  assume "trim s \<noteq> []"
  then have ne: "dropWhile is_ws (rev ?d) \<noteq> []" by (simp add: trim_def)
  obtain pre where pre: "rev ?d = pre @ dropWhile is_ws (rev ?d)"
    by (metis takeWhile_dropWhile_id)
  have "?d = rev (rev ?d)" by simp
  also have "\<dots> = trim s @ rev pre"
    unfolding trim_def by (subst pre) simp
  finally have "hd (trim s) = hd ?d" and "?d \<noteq> []"
    using \<open>trim s \<noteq> []\<close> by (metis hd_append2, auto)
  then show ?thesis by (simp add: hd_dropWhile)
qed

lemma trim_idem [simp]: "trim (trim s) = trim s"
proof (cases "trim s = []")
  case False
  let ?t = "trim s"
  have "dropWhile is_ws ?t = ?t"
    using False trim_hd dropWhile_hd_not by blast
  moreover have "dropWhile is_ws (rev ?t) = rev ?t"
    unfolding trim_def by (simp add: dropWhile_idem)
  ultimately show ?thesis
    by (simp add: trim_def [of "trim s"])
qed simp

lemma split_nonempty [simp]: "split d s \<noteq> []"
  by (induction s) (auto split: list.splits)

lemma split_no_delim: "p \<in> set (split d s) \<Longrightarrow> d \<notin> set p"
  by (induction s arbitrary: p) (auto split: list.splits if_splits)

lemma join_split: "join [d] (split d s) = s"
proof (induction s)
  case (Cons c s)
  obtain p ps where ps: "split d s = p # ps"
    by (metis split_nonempty neq_Nil_conv)
  then show ?case
    using Cons by (cases ps) auto
qed simp

lemma split_append: "d \<notin> set s \<Longrightarrow> split d (s @ d # t) = s # split d t"
  by (induction s) auto

lemma split_no: "d \<notin> set s \<Longrightarrow> split d s = [s]"
  by (induction s) auto

lemma split_join:
  "ss \<noteq> [] \<Longrightarrow> list_all (\<lambda>s. d \<notin> set s) ss \<Longrightarrow> split d (join [d] ss) = ss"
proof (induction "[d]" ss rule: join.induct)
  case (3 s t ss)
  then show ?case by (simp add: split_append)
qed (auto simp: split_no)

section \<open>Facts on digits\<close>

lemma code_char_of [simp]: "n < 256 \<Longrightarrow> code (char_of n) = n"
  by (simp add: code_def)

lemma is_digit_char_of: "(n::nat) < 10 \<Longrightarrow> is_digit (char_of (48 + n))"
  by (simp add: is_digit_def)

lemma digit_val_char_of: "(n::nat) < 10 \<Longrightarrow> digit_val (char_of (48 + n)) = n"
  by (simp add: digit_val_def is_digit_def)

lemma nat_str_nonempty: "nat_str n \<noteq> []"
  by (subst nat_str.simps) simp

lemma nat_str_digits: "list_all is_digit (nat_str n)"
proof (induction n rule: nat_str.induct)
  case (1 n)
  show ?case
  proof (cases "n < 10")
    case True
    then show ?thesis by (subst nat_str.simps) (simp add: is_digit_char_of)
  next
    case False
    then show ?thesis
      using 1 by (subst nat_str.simps) (simp add: is_digit_char_of)
  qed
qed

lemma radix_val_snoc: "radix_val r (ds @ [c]) = r * radix_val r ds + digit_val c"
  by (simp add: radix_val_def)

lemma radix_val_nat_str: "radix_val 10 (nat_str n) = n"
proof (induction n rule: nat_str.induct)
  case (1 n)
  show ?case
  proof (cases "n < 10")
    case True
    then show ?thesis
      by (subst nat_str.simps) (simp add: radix_val_def digit_val_char_of)
  next
    case False
    then have "nat_str n = nat_str (n div 10) @ [char_of (48 + n mod 10)]"
      by (subst nat_str.simps) simp
    then show ?thesis
      using 1 False by (simp add: radix_val_snoc digit_val_char_of)
  qed
qed

lemma nat_str_inj: "nat_str m = nat_str n \<Longrightarrow> m = n"
  by (metis radix_val_nat_str)

lemma nat_str_hd: "hd (nat_str n) \<noteq> CHR ''-''"
proof -
  have "is_digit (hd (nat_str n))"
    using nat_str_digits [of n] nat_str_nonempty [of n] by (cases "nat_str n") auto
  then show ?thesis by (auto simp: is_digit_def code_def)
qed

lemma int_str_inj: "int_str i = int_str j \<Longrightarrow> i = j"
  unfolding int_str_def
  using nat_str_hd nat_str_inj
  by (auto split: if_splits dest: nat_str_inj) (metis list.sel(1))+

section \<open>Facts on objects\<close>

lemma get_put [simp]: "get (put k v o') k' = (if k' = k then v else get o' k')"
  by (induction o') (auto simp: get_def)

lemma get_Nil [simp]: "get [] k = Undefined"
  by (simp add: get_def)

lemma spread_Nil [simp]: "spread a [] = a"
  by (simp add: spread_def)

lemma spread_Cons [simp]: "spread a ((k, v) # b) = spread (put k v a) b"
  by (simp add: spread_def)

lemma get_spread_notin: "k \<notin> fst ` set b \<Longrightarrow> get (spread a b) k = get a k"
  by (induction b arbitrary: a) auto

lemma get_spread_in:
  "distinct (map fst b) \<Longrightarrow> k \<in> fst ` set b \<Longrightarrow> get (spread a b) k = get b k"
proof (induction b arbitrary: a)
  case (Cons e b)
  obtain k1 v1 where e: "e = (k1, v1)" by (cases e)
  show ?case
  proof (cases "k = k1")
    case True
    with Cons.prems e have "k \<notin> fst ` set b" by auto
    with True e show ?thesis by (simp add: get_spread_notin) (simp add: get_def)
  next
    case False
    with Cons e show ?thesis by (auto simp: get_def)
  qed
qed simp

lemma put_map_put: "put k v o' = map_put k v o'"
  by (induction o') auto

lemma set_put_keys: "fst ` set (put k v o') = insert k (fst ` set o')"
  unfolding put_map_put by (rule set_map_put_keys)

lemma distinct_put: "distinct (map fst o') \<Longrightarrow> distinct (map fst (put k v o'))"
  unfolding put_map_put by (rule distinct_map_put)

end
