(* ===== verification/Tables.thy ===== *)
theory Tables
  imports JS_Base
begin

text \<open>
  Tables are lists of rows in insertion order. The operations are those the services
  call through the Prisma client, on one table: \<open>findUnique\<close> by a unique column,
  \<open>findFirst\<close> by a predicate, \<open>update\<close>, \<open>updateMany\<close>, \<open>deleteMany\<close> and \<open>count\<close>.
  A query without \<open>orderBy\<close> lists rows in insertion order; \<open>orderBy\<close> is a stable
  sort. The lemmas relate an update to later lookups and counts.
\<close>

definition findUnique :: "('r \<Rightarrow> 'k) \<Rightarrow> 'k \<Rightarrow> 'r list \<Rightarrow> 'r option" where
  "findUnique key k rows = List.find (\<lambda>r. key r = k) rows"

definition updateMany :: "('r \<Rightarrow> bool) \<Rightarrow> ('r \<Rightarrow> 'r) \<Rightarrow> 'r list \<Rightarrow> 'r list" where
  "updateMany p f rows = map (\<lambda>r. if p r then f r else r) rows"

definition updateRow :: "('r \<Rightarrow> 'k) \<Rightarrow> 'k \<Rightarrow> ('r \<Rightarrow> 'r) \<Rightarrow> 'r list \<Rightarrow> 'r list" where
  "updateRow key k f rows = updateMany (\<lambda>r. key r = k) f rows"

definition deleteMany :: "('r \<Rightarrow> bool) \<Rightarrow> 'r list \<Rightarrow> 'r list" where
  "deleteMany p rows = filter (\<lambda>r. \<not> p r) rows"

definition countRows :: "('r \<Rightarrow> bool) \<Rightarrow> 'r list \<Rightarrow> int" where
  "countRows p rows = int (length (filter p rows))"

definition orderAsc :: "('r \<Rightarrow> int) \<Rightarrow> 'r list \<Rightarrow> 'r list" where
  "orderAsc f rows = sort_key f rows"

definition orderDesc :: "('r \<Rightarrow> int) \<Rightarrow> 'r list \<Rightarrow> 'r list" where
  "orderDesc f rows = sort_key (\<lambda>r. - f r) rows"

section \<open>Lookups\<close>

lemma findUnique_Nil [simp]: "findUnique key k [] = None"
  by (simp add: findUnique_def)

lemma findUnique_Cons:
  "findUnique key k (r # rs) = (if key r = k then Some r else findUnique key k rs)"
  by (simp add: findUnique_def)

lemma findUnique_Some:
  "findUnique key k rs = Some r \<Longrightarrow> r \<in> set rs \<and> key r = k"
  by (induction rs) (auto simp: findUnique_Cons split: if_splits)

lemma findUnique_None: "findUnique key k rs = None \<longleftrightarrow> k \<notin> key ` set rs"
  by (induction rs) (auto simp: findUnique_Cons)

lemma findUnique_unique:
  "distinct (map key rs) \<Longrightarrow> r \<in> set rs \<Longrightarrow> findUnique key (key r) rs = Some r"
  by (induction rs) (auto simp: findUnique_Cons)

lemma findUnique_append:
  "findUnique key k (rs @ ss) =
     (case findUnique key k rs of None \<Rightarrow> findUnique key k ss | Some r \<Rightarrow> Some r)"
  by (induction rs) (auto simp: findUnique_Cons)

lemma find_Some_set: "List.find P rs = Some r \<Longrightarrow> r \<in> set rs \<and> P r"
  by (auto simp: find_Some_iff)

lemma find_None_set: "List.find P rs = None \<longleftrightarrow> (\<forall>r \<in> set rs. \<not> P r)"
  by (auto simp: find_None_iff)

section \<open>Updates\<close>

lemma updateMany_Nil [simp]: "updateMany p f [] = []"
  by (simp add: updateMany_def)

lemma updateMany_Cons [simp]:
  "updateMany p f (r # rs) = (if p r then f r else r) # updateMany p f rs"
  by (simp add: updateMany_def)

lemma updateRow_Nil [simp]: "updateRow key k f [] = []"
  by (simp add: updateRow_def)

lemma updateRow_Cons [simp]:
  "updateRow key k f (r # rs) = (if key r = k then f r else r) # updateRow key k f rs"
  by (simp add: updateRow_def)

lemma updateRow_append:
  "updateRow key k f (rs @ ss) = updateRow key k f rs @ updateRow key k f ss"
  by (induction rs) auto

lemma length_updateMany [simp]: "length (updateMany p f rs) = length rs"
  by (simp add: updateMany_def)

lemma length_updateRow [simp]: "length (updateRow key k f rs) = length rs"
  by (simp add: updateRow_def)

lemma map_updateMany [tbl]:
  "(\<And>r. g (f r) = g r) \<Longrightarrow> map g (updateMany p f rs) = map g rs"
  by (induction rs) auto

lemma map_updateRow [tbl]:
  "(\<And>r. g (f r) = g r) \<Longrightarrow> map g (updateRow key k f rs) = map g rs"
  by (induction rs) auto

lemma image_updateRow:
  "(\<And>r. g (f r) = g r) \<Longrightarrow> g ` set (updateRow key k f rs) = g ` set rs"
  by (metis map_updateRow set_map)

lemma findUnique_updateRow:
  assumes "\<And>r. key (f r) = key r"
  shows "findUnique key k (updateRow key k' f rs) =
    (if k = k' then map_option f (findUnique key k rs) else findUnique key k rs)"
  by (induction rs) (auto simp: findUnique_Cons assms)

lemma findUnique_updateMany:
  assumes "\<And>r. key (f r) = key r"
  shows "findUnique key k (updateMany p f rs) =
    map_option (\<lambda>r. if p r then f r else r) (findUnique key k rs)"
  by (induction rs) (auto simp: findUnique_Cons assms)

lemma updateRow_notin: "k \<notin> key ` set rs \<Longrightarrow> updateRow key k f rs = rs"
  by (induction rs) auto

lemma in_updateRow:
  "r \<in> set (updateRow key k f rs) \<Longrightarrow>
     (r \<in> set rs \<and> key r \<noteq> k) \<or> (\<exists>r0 \<in> set rs. key r0 = k \<and> r = f r0)"
  by (induction rs) (auto split: if_splits)

lemma in_updateMany:
  "r \<in> set (updateMany p f rs) \<longleftrightarrow>
     (r \<in> set rs \<and> \<not> p r) \<or> (\<exists>r0 \<in> set rs. p r0 \<and> r = f r0)"
  by (induction rs) auto

section \<open>Counts\<close>

lemma countRows_Nil [simp]: "countRows p [] = 0"
  by (simp add: countRows_def)

lemma countRows_Cons [simp]: "countRows p (r # rs) = (if p r then 1 else 0) + countRows p rs"
  by (simp add: countRows_def)

lemma countRows_append [simp]: "countRows p (rs @ ss) = countRows p rs + countRows p ss"
  by (simp add: countRows_def)

lemma countRows_nonneg [simp]: "0 \<le> countRows p rs"
  by (simp add: countRows_def)

lemma countRows_cong: "(\<And>r. r \<in> set rs \<Longrightarrow> p r = q r) \<Longrightarrow> countRows p rs = countRows q rs"
  by (induction rs) auto

lemma countRows_0_iff: "countRows p rs = 0 \<longleftrightarrow> (\<forall>r \<in> set rs. \<not> p r)"
  by (auto simp: countRows_def filter_empty_conv)

text \<open>Updating the one row with a given unique key moves it from one count to another.\<close>

lemma countRows_updateRow:
  assumes "distinct (map key rs)" and "findUnique key k rs = Some r"
  shows "countRows p (updateRow key k f rs) =
    countRows p rs - (if p r then 1 else 0) + (if p (f r) then 1 else 0)"
  using assms
proof (induction rs)
  case (Cons a rs)
  show ?case
  proof (cases "key a = k")
    case True
    with Cons.prems have "r = a" and "k \<notin> key ` set rs"
      by (auto simp: findUnique_Cons)
    with True show ?thesis by (simp add: updateRow_notin)
  next
    case False
    with Cons show ?thesis by (simp add: findUnique_Cons)
  qed
qed simp

lemma countRows_updateMany:
  "countRows q (updateMany p f rs) =
     countRows (\<lambda>r. \<not> p r \<and> q r) rs + countRows (\<lambda>r. p r \<and> q (f r)) rs"
  by (induction rs) auto

section \<open>Ordering\<close>

lemma set_orderAsc [simp]: "set (orderAsc f rs) = set rs"
  by (simp add: orderAsc_def)

lemma set_orderDesc [simp]: "set (orderDesc f rs) = set rs"
  by (simp add: orderDesc_def)

lemma sort_key_find_least:
  "List.find P (sort_key f rs) = Some r \<Longrightarrow> r' \<in> set rs \<Longrightarrow> P r' \<Longrightarrow> f r \<le> f r'"
proof -
  assume "List.find P (sort_key f rs) = Some r" and r': "r' \<in> set rs" "P r'"
  then obtain i where i: "i < length (sort_key f rs)" "sort_key f rs ! i = r"
    and first: "\<And>j. j < i \<Longrightarrow> \<not> P (sort_key f rs ! j)"
    by (auto simp: find_Some_iff)
  from r' obtain j where j: "j < length (sort_key f rs)" "sort_key f rs ! j = r'"
    by (metis in_set_conv_nth set_sort)
  with first r' have "i \<le> j" by (metis not_le_imp_less)
  have "sorted (map f (sort_key f rs))" by simp
  then have "map f (sort_key f rs) ! i \<le> map f (sort_key f rs) ! j"
    using \<open>i \<le> j\<close> j(1) by (intro sorted_nth_mono) auto
  with i j show "f r \<le> f r'" by (simp add: nth_map)
qed

lemma orderAsc_find_least:
  "List.find P (orderAsc f rs) = Some r \<Longrightarrow> r' \<in> set rs \<Longrightarrow> P r' \<Longrightarrow> f r \<le> f r'"
  unfolding orderAsc_def by (rule sort_key_find_least)

end
