(* ===== verification/Db.thy ===== *)
theory Db
  imports Tables
begin

text \<open>
  The data model: one record per Prisma model (control-plane/prisma/schema.prisma) with
  the columns the modelled services read or write, the job queues, the in-memory maps of
  the services, and the \<open>world\<close> that holds them all. A relation the code joins through
  an \<open>include\<close> of one scalar (a membership's role name, a server's game type slug) is
  stored as that scalar.

  New rows get their primary key from \<open>cuid()\<close>. The generator is a field of the world
  (\<open>idgen\<close>, with the count of ids drawn so far); what the code relies on, that it never
  repeats, is the hypothesis \<open>inj (idgen w)\<close> of the theorems that need it.
\<close>

section \<open>Rows\<close>

datatype run_status = Pending | Running | Success | Failed | Cancelled

record org =
  o_id :: id
  o_name :: string
  o_slug :: string
  o_discordWebhookUrl :: "string option"
  o_logRetentionDays :: int
  o_healthIntervalSec :: int
  o_stabilityRestartEnabled :: bool
  o_stabilityRestartMemoryGiB :: int
  o_stabilityRestartCooldownMinutes :: int
  o_mailgunApiKeyEncrypted :: "string option"
  o_mailgunDomain :: "string option"
  o_mailgunFromEmail :: "string option"
  o_mailgunRegion :: string
  o_recaptchaSiteKey :: "string option"
  o_recaptchaSecretEncrypted :: "string option"
  o_stripeSecretKeyEncrypted :: "string option"
  o_stripeWebhookSecretEncrypted :: "string option"
  o_maintenancePasswordEncrypted :: "string option"
  o_openaiApiKeyEncrypted :: "string option"
  o_openaiModel :: string
  o_modAiProvider :: string
  o_kimiApiKeyEncrypted :: "string option"
  o_kimiModel :: string
  o_cloudflareApiTokenEncrypted :: "string option"
  o_digitalOceanApiTokenEncrypted :: "string option"
  o_createdAt :: ms

text \<open>A new organization has the defaults of the schema.\<close>

definition new_org :: "id \<Rightarrow> string \<Rightarrow> string \<Rightarrow> ms \<Rightarrow> org" where
  "new_org i name slug now =
     \<lparr>o_id = i, o_name = name, o_slug = slug, o_discordWebhookUrl = None, o_logRetentionDays = 7, o_healthIntervalSec = 10,
      o_stabilityRestartEnabled = True, o_stabilityRestartMemoryGiB = 12, o_stabilityRestartCooldownMinutes = 240,
      o_mailgunApiKeyEncrypted = None, o_mailgunDomain = None, o_mailgunFromEmail = None, o_mailgunRegion = ''us'',
      o_recaptchaSiteKey = None, o_recaptchaSecretEncrypted = None, o_stripeSecretKeyEncrypted = None,
      o_stripeWebhookSecretEncrypted = None, o_maintenancePasswordEncrypted = None,
      o_openaiApiKeyEncrypted = None, o_openaiModel = ''gpt-5.3-codex'', o_modAiProvider = ''codex'', o_kimiApiKeyEncrypted = None,
      o_kimiModel = ''kimi-for-coding'', o_cloudflareApiTokenEncrypted = None, o_digitalOceanApiTokenEncrypted = None, o_createdAt = now\<rparr>"

record user =
  u_id :: id
  u_email :: string
  u_name :: "string option"
  u_passwordHash :: "string option"
  u_emailVerifiedAt :: "ms option"
  u_emailVerificationSentAt :: "ms option"
  u_approvedAt :: "ms option"
  u_approvedById :: "id option"
  u_authVersion :: int
  u_createdAt :: ms

record userOrg =
  uo_userId :: id
  uo_orgId :: id
  uo_role :: string
  uo_createdAt :: ms

record host =
  h_id :: id
  h_orgId :: id
  h_name :: string
  h_lastHeartbeatAt :: "ms option"
  h_agentVersion :: "string option"
  h_agentKeyVersion :: int
  h_status :: "string option"
  h_lastMetrics :: js
  h_createdAt :: ms

record pairingToken =
  pt_id :: id
  pt_orgId :: id
  pt_tokenHash :: string
  pt_expiresAt :: ms
  pt_usedAt :: "ms option"
  pt_createdById :: id
  pt_usedByHostId :: "id option"

record serverInstance =
  si_id :: id
  si_orgId :: id
  si_hostId :: id
  si_gameType :: string
  si_name :: string
  si_installPath :: "string option"
  si_startCommand :: "string option"
  si_rconHost :: "string option"
  si_rconPort :: "int option"
  si_rconPassword :: "string option"
  si_maintenanceMode :: bool
  si_rebootIfDown :: bool
  si_mapEmbedUrl :: "string option"
  si_config :: js
  si_createdAt :: ms

record protection =
  pr_serverInstanceId :: id
  pr_highPingEnabled :: bool
  pr_highPingThresholdMs :: int
  pr_highPingSamples :: int
  pr_highPingReason :: string
  pr_countryBanEnabled :: bool
  pr_blockedCountryCodes :: "string list"
  pr_countryAction :: string
  pr_countryBanDuration :: string
  pr_countryReason :: string

record player =
  p_id :: id
  p_orgId :: id
  p_serverInstanceId :: id
  p_identityKey :: string
  p_steamId :: "string option"
  p_ipAddress :: "string option"
  p_name :: string
  p_online :: bool
  p_currentSessionStartedAt :: "ms option"
  p_lifetimeSeconds :: int
  p_lastPos :: "(rat \<times> rat \<times> rat) option"
  p_lastLogoutAt :: "ms option"
  p_supporter :: bool
  p_supporterSince :: "ms option"
  p_totalDonatedCents :: int
  p_portalPasswordHash :: "string option"
  p_firstSeenAt :: ms
  p_lastSeenAt :: ms

record playerSession =
  ps_id :: id
  ps_playerId :: id
  ps_startedAt :: ms
  ps_endedAt :: "ms option"
  ps_durationSeconds :: "int option"

record donation =
  d_id :: id
  d_orgId :: id
  d_serverInstanceId :: id
  d_playerId :: id
  d_steamId :: string
  d_amountCents :: int
  d_currency :: string
  d_refundedCents :: int
  d_status :: string
  d_stripeCheckoutSessionId :: string
  d_stripePaymentIntentId :: "string option"
  d_shopItemId :: "id option"
  d_completedAt :: "ms option"
  d_refundedAt :: "ms option"
  d_createdAt :: ms

record donationLine =
  l_id :: id
  l_donationId :: id
  l_shopItemId :: "id option"
  l_itemName :: string
  l_amountCents :: int
  l_quantity :: int
  l_grantItemName :: "string option"
  l_grantQuantity :: "int option"
  l_grantItems :: js
  l_grantStatus :: string
  l_grantQueuedAt :: "ms option"
  l_grantedAt :: "ms option"
  l_grantError :: "string option"

record shopItem =
  sh_id :: id
  sh_orgId :: id
  sh_name :: string
  sh_description :: string
  sh_priceCents :: int
  sh_imageExt :: "string option"
  sh_imageMime :: "string option"
  sh_grantItemName :: "string option"
  sh_grantQuantity :: int
  sh_grantItems :: js
  sh_active :: bool
  sh_sortOrder :: int
  sh_createdAt :: ms

record schedule =
  sc_id :: id
  sc_orgId :: id
  sc_serverInstanceId :: id
  sc_name :: string
  sc_cronExpression :: string
  sc_jobType :: string
  sc_payload :: js
  sc_enabled :: bool
  sc_executionWindowStart :: "string option"
  sc_executionWindowEnd :: "string option"
  sc_lastRunAt :: "ms option"
  sc_nextRunAt :: "ms option"
  sc_lastRunStatus :: "string option"
  sc_lastRunJobId :: "id option"
  sc_skipNextRun :: bool
  sc_skipNextRunReason :: "string option"
  sc_skipNextRunRequestedAt :: "ms option"
  sc_runCount :: int
  sc_failureCount :: int
  sc_retryMax :: "int option"
  sc_retryBackoffMs :: "int option"
  sc_createdById :: "id option"
  sc_createdAt :: ms

record jobBatch =
  b_id :: id
  b_orgId :: id
  b_type :: string
  b_status :: string
  b_totalCount :: int
  b_pendingCount :: int
  b_runningCount :: int
  b_successCount :: int
  b_failedCount :: int
  b_cancelledCount :: int
  b_createdById :: "id option"
  b_createdAt :: ms
  b_completedAt :: "ms option"

record job =
  j_id :: id
  j_orgId :: id
  j_batchId :: "id option"
  j_serverInstanceId :: "id option"
  j_type :: string
  j_payload :: obj
  j_createdById :: "id option"
  j_createdAt :: ms

record jobRun =
  jr_id :: id
  jr_jobId :: id
  jr_hostId :: id
  jr_status :: run_status
  jr_startedAt :: "ms option"
  jr_finishedAt :: "ms option"
  jr_result :: obj
  jr_createdAt :: ms

record trigger =
  t_id :: id
  t_orgId :: id
  t_serverInstanceId :: id
  t_name :: string
  t_enabled :: bool
  t_eventType :: string
  t_eventConfig :: js
  t_actionType :: string
  t_actionConfig :: js
  t_applyToExisting :: bool
  t_lastFiredAt :: "ms option"
  t_fireCount :: int
  t_createdById :: "id option"
  t_createdAt :: ms

record triggerFire =
  tf_id :: id
  tf_triggerId :: id
  tf_playerId :: id
  tf_eventKey :: string
  tf_jobId :: "id option"
  tf_status :: string
  tf_attempts :: int
  tf_lastError :: "string option"
  tf_createdAt :: ms

record auditLog =
  a_orgId :: id
  a_actorId :: "id option"
  a_action :: string
  a_resourceType :: string
  a_resourceId :: id
  a_details :: obj

record alertRule =
  ar_id :: id
  ar_orgId :: id
  ar_name :: string
  ar_condition :: js
  ar_channel :: js
  ar_enabled :: bool
  ar_createdAt :: ms

record authRateLimit =
  al_keyHash :: string
  al_failures :: int
  al_windowStartedAt :: ms
  al_blockedUntil :: "ms option"
  al_lockoutLevel :: int
  al_updatedAt :: ms

record healthSample =
  hs_orgId :: id
  hs_hostId :: id
  hs_cpuPercent :: rat
  hs_ramUsedMb :: rat
  hs_ramTotalMb :: rat
  hs_diskUsedGb :: rat
  hs_latencyMs :: rat
  hs_gameReachable :: bool
  hs_createdAt :: ms

record serverLog =
  sl_id :: id
  sl_orgId :: id
  sl_serverInstanceId :: id
  sl_content :: string
  sl_createdAt :: ms

record event =
  ev_id :: id
  ev_orgId :: id
  ev_sourceType :: string
  ev_sourceId :: id
  ev_eventType :: string
  ev_payload :: obj
  ev_createdAt :: ms

section \<open>Queues\<close>

text \<open>The data of one entry of an organization's queue (\<open>QueueJobData\<close>) with the options
  it was added with.\<close>

datatype backoff = Exponential int | Fixed int

record queueJob =
  q_jobId :: id
  q_jobRunId :: id
  q_hostId :: id
  q_serverInstanceId :: "id option"
  q_type :: string
  q_payload :: obj
  q_scheduleId :: "id option"
  q_attempts :: int
  q_backoff :: backoff

text \<open>An entry of the scheduler's delayed queue; its job id is the string
  \<open>schedule:<id>:<next run>\<close>.\<close>

record fireEntry =
  fe_jobId :: string
  fe_scheduleId :: id
  fe_delay :: ms

text \<open>Messages that leave the process.\<close>

datatype effect =
    EmitToOrg id string obj
  | DiscordPost string obj
  | Unlink string
  | WriteFile string
  | SendMail id string string

section \<open>The world\<close>

record world =
  idgen :: "nat \<Rightarrow> id"
  idctr :: nat
  orgs :: "org list"
  users :: "user list"
  userOrgs :: "userOrg list"
  hosts :: "host list"
  pairingTokens :: "pairingToken list"
  serverInstances :: "serverInstance list"
  protections :: "protection list"
  players :: "player list"
  playerSessions :: "playerSession list"
  donations :: "donation list"
  donationLines :: "donationLine list"
  shopItems :: "shopItem list"
  schedules :: "schedule list"
  jobBatches :: "jobBatch list"
  jobs :: "job list"
  jobRuns :: "jobRun list"
  triggers :: "trigger list"
  triggerFires :: "triggerFire list"
  auditLogs :: "auditLog list"
  orgQueues :: "id \<Rightarrow> queueJob list"
  schedulerQueue :: "fireEntry list"
  alertRules :: "alertRule list"
  badPingSamples :: "(string \<times> int) list"
  protectionCooldown :: "(string \<times> ms) list"
  countryCache :: "(string \<times> string \<times> ms) list"
  recentPlayerLifecycleAlerts :: "(string \<times> ms) list"
  rateLimitMap :: "(string \<times> int \<times> ms) list"
  authRateLimits :: "authRateLimit list"
  healthSamples :: "healthSample list"
  lastHealthSample :: "(id \<times> ms) list"
  lastHealthPrune :: ms
  gameTypes :: "(string \<times> js) list"
  registrationIpQuotas :: "(string \<times> int) list"
  serverLogs :: "serverLog list"
  events :: "event list"
  lastPrune :: "(id \<times> ms) list"
  scanTails :: "(id \<times> string) list"
  lineBuffers :: "(id \<times> string) list"
  chatLineBuffers :: "(id \<times> string) list"
  chatSamples :: "(string \<times> ms list) list"
  moderationCooldown :: "(string \<times> ms) list"
  lastMapPrune :: ms
  effects :: "effect list"

definition empty_world :: "(nat \<Rightarrow> id) \<Rightarrow> world" where
  "empty_world g =
     \<lparr>idgen = g, idctr = 0, orgs = [], users = [], userOrgs = [], hosts = [], pairingTokens = [],
      serverInstances = [], protections = [], players = [], playerSessions = [],
      donations = [], donationLines = [], shopItems = [], schedules = [], jobBatches = [],
      jobs = [], jobRuns = [], triggers = [], triggerFires = [], auditLogs = [],
      orgQueues = (\<lambda>_. []), schedulerQueue = [], alertRules = [],
      badPingSamples = [], protectionCooldown = [], countryCache = [],
      recentPlayerLifecycleAlerts = [], rateLimitMap = [], authRateLimits = [], healthSamples = [],
      lastHealthSample = [], lastHealthPrune = 0, gameTypes = [], registrationIpQuotas = [],
      serverLogs = [], events = [], lastPrune = [], scanTails = [], lineBuffers = [],
      chatLineBuffers = [], chatSamples = [], moderationCooldown = [], lastMapPrune = 0, effects = []\<rparr>"

section \<open>The surroundings\<close>

text \<open>What the control plane calls and cannot see: the zone of the process, the secret store,
  \<open>JSON.parse\<close>, \<open>gunzipSync\<close>, the locale's order of names, the answer of the country
  service, the answer to the n-th post to a webhook, and whether BullMQ can still remove an
  entry. Nothing is assumed of them but what a theorem names.\<close>

datatype post_result = PostOk | PostError "int option" string

record env =
  e_tz :: int
  e_decrypt :: "string \<Rightarrow> string option"
  e_parseJson :: "string \<Rightarrow> js option"
  e_gunzip :: "string \<Rightarrow> string option"
  e_sortNames :: "string list \<Rightarrow> string list"
  e_country :: "string \<Rightarrow> js option"
  e_post :: "string \<Rightarrow> obj \<Rightarrow> nat \<Rightarrow> post_result"
  e_getJobs :: "queueJob list \<Rightarrow> queueJob list"
  e_removable :: "queueJob \<Rightarrow> bool"

section \<open>Fresh ids\<close>

definition next_id :: "world \<Rightarrow> id" where
  "next_id w = idgen w (idctr w)"

definition draw :: "world \<Rightarrow> world" where
  "draw w = w\<lparr>idctr := Suc (idctr w)\<rparr>"

definition drawn :: "world \<Rightarrow> id \<Rightarrow> bool" where
  "drawn w i = (\<exists>n < idctr w. i = idgen w n)"

lemma drawn_draw: "drawn (draw w) i \<longleftrightarrow> drawn w i \<or> i = next_id w"
  by (auto simp: drawn_def draw_def next_id_def less_Suc_eq)

lemma next_id_fresh: "inj (idgen w) \<Longrightarrow> \<not> drawn w (next_id w)"
  by (auto simp: drawn_def next_id_def dest: injD)

lemma draw_sel [simp]:
  "idgen (draw w) = idgen w" "idctr (draw w) = Suc (idctr w)" "jobs (draw w) = jobs w"
  "jobRuns (draw w) = jobRuns w" "jobBatches (draw w) = jobBatches w"
  "orgQueues (draw w) = orgQueues w" "players (draw w) = players w"
  by (simp_all add: draw_def)

section \<open>Lookups the services share\<close>

definition find_run :: "id \<Rightarrow> world \<Rightarrow> jobRun option" where
  "find_run i w = findUnique jr_id i (jobRuns w)"

definition find_job :: "id \<Rightarrow> world \<Rightarrow> job option" where
  "find_job i w = findUnique j_id i (jobs w)"

definition find_batch :: "id \<Rightarrow> world \<Rightarrow> jobBatch option" where
  "find_batch i w = findUnique b_id i (jobBatches w)"

definition find_server :: "id \<Rightarrow> id \<Rightarrow> world \<Rightarrow> serverInstance option" where
  "find_server i orgId w = List.find (\<lambda>s. si_id s = i \<and> si_orgId s = orgId) (serverInstances w)"

definition find_member :: "id \<Rightarrow> id \<Rightarrow> world \<Rightarrow> userOrg option" where
  "find_member userId orgId w =
     List.find (\<lambda>m. uo_userId m = userId \<and> uo_orgId m = orgId) (userOrgs w)"

definition first_member :: "id \<Rightarrow> world \<Rightarrow> userOrg option" where
  "first_member orgId w =
     List.find (\<lambda>m. uo_orgId m = orgId) (orderAsc uo_createdAt (userOrgs w))"

definition find_schedule :: "id \<Rightarrow> world \<Rightarrow> schedule option" where
  "find_schedule i w = findUnique sc_id i (schedules w)"

end
