(* ===== verification/Jobs_Queue.thy ===== *)
theory Jobs_Queue
  imports Db "HOL-Library.Multiset"
begin

text \<open>
  The job queue of an organization: control-plane/src/jobs/constants.ts and
  jobs-queue.service.ts. BullMQ is not part of the repository. What the code relies on is
  modelled as follows: \<open>add\<close> with a custom job id appends the entry unless one with that
  id is already there; \<open>getJobs\<close> is a parameter, the listing of waiting and delayed
  entries; \<open>removable\<close> is a parameter that says whether \<open>remove\<close> succeeds on an entry
  (it throws when a worker holds the entry).

  Shown: the poll never hands a host a job of another host, hands out only read-only jobs
  while a mutation is running, delivers every entry at most once, and drains the host's
  queue in as many polls as there are entries.
\<close>

section \<open>Constants\<close>

definition JOB_TYPES :: "string list" where
  "JOB_TYPES =
     [''SERVER_START'', ''SERVER_STOP'', ''SERVER_KILL'', ''SERVER_RESTART'',
      ''SERVER_SAFE_RESTART'', ''SERVER_SAVEWORLD'', ''SERVER_SAVE_STOP'',
      ''SERVER_MAINTENANCE'', ''SERVER_WIPE_SAVE'', ''SERVER_UPDATE'', ''RCON'',
      ''SEND_COMMAND'', ''SAVE_LIST'', ''SAVE_BACKUP'', ''SAVE_RESTORE'', ''SAVE_DELETE'',
      ''SAVE_RETENTION'', ''PLAYER_KICK'', ''PLAYER_KICK_ALL'', ''PLAYER_BAN'',
      ''PLAYER_LIST_SYNC'', ''PLAYER_ADMIN_LIST'', ''PLAYER_ADMIN_PROMOTE'',
      ''PLAYER_ADMIN_DEMOTE'', ''MOD_LIST'', ''MOD_QUARANTINE'', ''MOD_QUARANTINE_LIST'',
      ''MOD_RESTORE'', ''MOD_DELETE'', ''MOD_CONFIG_READ'', ''MOD_CONFIG_WRITE'',
      ''MOD_CONFIG_MERGE_PREVIEW'', ''MOD_CONFIG_MERGE_APPLY'', ''SERVER_CONFIG_READ'',
      ''SERVER_CONFIG_WRITE'', ''MOD_UPLOAD_QUARANTINE'', ''MOD_UPLOAD_PENDING'',
      ''MOD_PENDING_LIST'', ''MOD_PENDING_APPROVE'', ''MOD_PENDING_REJECT'',
      ''ITEM_CATALOG'', ''TRIGGER_GRANT_ITEMS'', ''start'', ''stop'', ''restart'', ''rcon'']"

definition MAX_RETRIES :: int where "MAX_RETRIES = 2"

definition JOB_ATTEMPTS :: int where "JOB_ATTEMPTS = MAX_RETRIES + 1"

section \<open>Operations\<close>

definition enqueue :: "id \<Rightarrow> queueJob \<Rightarrow> world \<Rightarrow> world" where
  \<comment> \<open>\<open>queue.add(name, data, {jobId: jobRunId, ...})\<close>\<close>
  "enqueue orgId q w =
     (if q_jobRunId q \<in> q_jobRunId ` set (orgQueues w orgId) then w
      else w\<lparr>orgQueues := (orgQueues w)(orgId := orgQueues w orgId @ [q])\<rparr>)"

definition addJob ::
    "id \<Rightarrow> id \<Rightarrow> id \<Rightarrow> id \<Rightarrow> id option \<Rightarrow> string \<Rightarrow> obj \<Rightarrow> world \<Rightarrow> world" where
  "addJob orgId jobId jobRunId hostId serverInstanceId type payload w =
     enqueue orgId
       \<lparr>q_jobId = jobId, q_jobRunId = jobRunId, q_hostId = hostId,
        q_serverInstanceId = serverInstanceId, q_type = type, q_payload = payload,
        q_scheduleId = None, q_attempts = JOB_ATTEMPTS, q_backoff = Exponential 2000\<rparr> w"

definition isReadOnly :: "string \<Rightarrow> bool" where
  "isReadOnly type =
     (type \<in> set [''MOD_LIST'', ''MOD_QUARANTINE_LIST'', ''MOD_PENDING_LIST'',
        ''MOD_CONFIG_READ'', ''SERVER_CONFIG_READ'', ''PLAYER_LIST_SYNC'',
        ''PLAYER_ADMIN_LIST'', ''SAVE_LIST'', ''ITEM_CATALOG''])"

fun scan_waiting :: "(queueJob \<Rightarrow> bool) \<Rightarrow> id \<Rightarrow> bool \<Rightarrow> queueJob list \<Rightarrow> queueJob option" where
  "scan_waiting removable hostId mutationBusy [] = None"
| "scan_waiting removable hostId mutationBusy (job # waiting) =
     (if q_hostId job = hostId then
        (if mutationBusy \<and> \<not> isReadOnly (q_type job)
         then scan_waiting removable hostId mutationBusy waiting
         else if removable job then Some job
         else scan_waiting removable hostId mutationBusy waiting)
      else scan_waiting removable hostId mutationBusy waiting)"

definition remove_entry :: "id \<Rightarrow> id \<Rightarrow> world \<Rightarrow> world" where
  "remove_entry orgId runId w =
     w\<lparr>orgQueues := (orgQueues w)
         (orgId := filter (\<lambda>e. q_jobRunId e \<noteq> runId) (orgQueues w orgId))\<rparr>"

definition getNextJobForHost ::
    "(queueJob list \<Rightarrow> queueJob list) \<Rightarrow> (queueJob \<Rightarrow> bool) \<Rightarrow> id \<Rightarrow> id \<Rightarrow> bool \<Rightarrow> world
       \<Rightarrow> queueJob option \<times> world" where
  "getNextJobForHost getJobs removable orgId hostId mutationBusy w =
     (case scan_waiting removable hostId mutationBusy (getJobs (orgQueues w orgId)) of
        None \<Rightarrow> (None, w)
      | Some job \<Rightarrow> (Some job, remove_entry orgId (q_jobRunId job) w))"

section \<open>What the operations keep\<close>

lemma enqueue_frame [frame]:
  "idgen (enqueue o' q w) = idgen w" "idctr (enqueue o' q w) = idctr w"
  "jobs (enqueue o' q w) = jobs w" "jobRuns (enqueue o' q w) = jobRuns w"
  "jobBatches (enqueue o' q w) = jobBatches w" "serverInstances (enqueue o' q w) = serverInstances w"
  "schedules (enqueue o' q w) = schedules w" "players (enqueue o' q w) = players w"
  "schedulerQueue (enqueue o' q w) = schedulerQueue w" "effects (enqueue o' q w) = effects w"
  by (simp_all add: enqueue_def)

lemma addJob_frame [frame]:
  "idgen (addJob o' j r h s t p w) = idgen w" "idctr (addJob o' j r h s t p w) = idctr w"
  "jobs (addJob o' j r h s t p w) = jobs w" "jobRuns (addJob o' j r h s t p w) = jobRuns w"
  "jobBatches (addJob o' j r h s t p w) = jobBatches w"
  "serverInstances (addJob o' j r h s t p w) = serverInstances w"
  "players (addJob o' j r h s t p w) = players w"
  by (simp_all add: addJob_def frame)

text \<open>An organization's queue never holds two entries of one job run.\<close>

definition queue_wf :: "id \<Rightarrow> world \<Rightarrow> bool" where
  "queue_wf orgId w = distinct (map q_jobRunId (orgQueues w orgId))"

lemma enqueue_wf: "queue_wf orgId w \<Longrightarrow> queue_wf orgId (enqueue o' q w)"
  by (auto simp: queue_wf_def enqueue_def)

lemma remove_entry_wf: "queue_wf orgId w \<Longrightarrow> queue_wf orgId (remove_entry o' r w)"
  by (auto simp: queue_wf_def remove_entry_def distinct_map_filter)

lemma filter_key_remove1:
  "distinct (map f xs) \<Longrightarrow> x \<in> set xs \<Longrightarrow> filter (\<lambda>y. f y \<noteq> f x) xs = remove1 x xs"
proof (induction xs)
  case (Cons a xs)
  then show ?case
    by (cases "a = x") (auto intro!: filter_True simp: image_iff)
qed simp

lemma scan_waiting_find:
  "scan_waiting removable hostId busy js =
     List.find (\<lambda>j. q_hostId j = hostId \<and> (busy \<longrightarrow> isReadOnly (q_type j)) \<and> removable j) js"
  by (induction js) auto

section \<open>Polling a queue\<close>

text \<open>The interface the agent's poll loop relies on: a claim returns one of the caller's own
  entries and takes exactly that one out, or there is none.\<close>

fun polls :: "('q \<Rightarrow> 'e option \<times> 'q) \<Rightarrow> nat \<Rightarrow> 'q \<Rightarrow> 'e list \<times> 'q" where
  "polls claim 0 q = ([], q)"
| "polls claim (Suc n) q =
     (case claim q of
        (None, q') \<Rightarrow> polls claim n q'
      | (Some e, q') \<Rightarrow> (case polls claim n q' of (es, q'') \<Rightarrow> (e # es, q'')))"

locale claim_queue =
  fixes entries :: "'q \<Rightarrow> 'e list"
    and ok :: "'q \<Rightarrow> bool"
    and mine :: "'e \<Rightarrow> bool"
    and claim :: "'q \<Rightarrow> 'e option \<times> 'q"
  assumes claim_Some: "ok q \<Longrightarrow> claim q = (Some e, q') \<Longrightarrow>
      ok q' \<and> mine e \<and> e \<in> set (entries q) \<and> entries q' = remove1 e (entries q)"
    and claim_None: "ok q \<Longrightarrow> claim q = (None, q') \<Longrightarrow>
      q' = q \<and> filter mine (entries q) = []"
begin

lemma polls_conserve:
  "ok q \<Longrightarrow> polls claim n q = (es, q') \<Longrightarrow>
     mset es + mset (entries q') = mset (entries q) \<and> list_all mine es"
proof (induction n arbitrary: q es)
  case (Suc n)
  obtain x q1 where c: "claim q = (x, q1)" by fastforce
  show ?case
  proof (cases x)
    case None
    with c Suc claim_None [OF Suc.prems(1)] show ?thesis by auto
  next
    case (Some e)
    obtain es1 where es: "polls claim n q1 = (es1, q')" "es = e # es1"
      using Suc.prems(2) c Some by (auto split: prod.splits)
    note k = claim_Some [OF Suc.prems(1) c [unfolded Some]]
    from Suc.IH [OF _ es(1)] k es(2) show ?thesis
      by (auto simp: mset_remove1 insert_DiffM)
  qed
qed simp

lemma polls_drain:
  "ok q \<Longrightarrow> length (filter mine (entries q)) \<le> n \<Longrightarrow> polls claim n q = (es, q') \<Longrightarrow>
     filter mine (entries q') = []"
proof (induction n arbitrary: q es)
  case (Suc n)
  obtain x q1 where c: "claim q = (x, q1)" by fastforce
  show ?case
  proof (cases x)
    case None
    with c Suc claim_None [OF Suc.prems(1)] show ?thesis by auto
  next
    case (Some e)
    obtain es1 where es: "polls claim n q1 = (es1, q')"
      using Suc.prems(3) c Some by (auto split: prod.splits)
    note k = claim_Some [OF Suc.prems(1) c [unfolded Some]]
    have "e \<in> set (filter mine (entries q))" using k by simp
    then have "length (filter mine (entries q1)) < length (filter mine (entries q))"
      using k length_pos_if_in_set [of e "filter mine (entries q)"]
      by (simp add: filter_remove1 length_remove1)
    with Suc.prems(2) Suc.IH [OF _ _ es] k show ?thesis by auto
  qed
qed auto

lemma polls_all:
  assumes "ok q" and "length (filter mine (entries q)) \<le> n" and "polls claim n q = (es, q')"
  shows "mset es = mset (filter mine (entries q))"
proof -
  from polls_conserve [OF assms(1,3)]
  have m: "mset es + mset (entries q') = mset (entries q)" "list_all mine es" by auto
  then have "filter_mset mine (mset (entries q)) = mset es + filter_mset mine (mset (entries q'))"
    by (metis filter_union_mset list_all_iff mset_filter filter_True)
  moreover have "filter_mset mine (mset (entries q')) = {#}"
    using polls_drain [OF assms] by (simp flip: mset_filter)
  ultimately show ?thesis by (simp add: mset_filter)
qed

end

text \<open>The model's poll is such a claim for every listing that returns entries of the queue and,
  up to the 500 the code asks for, all of them.\<close>

definition fair_listing :: "(queueJob list \<Rightarrow> queueJob list) \<Rightarrow> bool" where
  "fair_listing getJobs \<longleftrightarrow>
     (\<forall>q. set (getJobs q) \<subseteq> set q \<and> (length q \<le> 500 \<longrightarrow> set q \<subseteq> set (getJobs q)))"

definition small_queue :: "id \<Rightarrow> world \<Rightarrow> bool" where
  "small_queue orgId w \<longleftrightarrow> queue_wf orgId w \<and> length (orgQueues w orgId) \<le> 500"

lemma getNextJobForHost_Some:
  assumes "\<And>q. set (getJobs q) \<subseteq> set q"
    and "getNextJobForHost getJobs removable orgId hostId busy w = (Some e, w')"
  shows "e \<in> set (orgQueues w orgId) \<and> q_hostId e = hostId \<and>
    (busy \<longrightarrow> isReadOnly (q_type e)) \<and> removable e \<and> w' = remove_entry orgId (q_jobRunId e) w"
proof -
  have "scan_waiting removable hostId busy (getJobs (orgQueues w orgId)) = Some e"
      "w' = remove_entry orgId (q_jobRunId e) w"
    using assms(2) by (auto simp: getNextJobForHost_def split: option.splits)
  with assms(1) find_Some_set show ?thesis by (fastforce simp: scan_waiting_find)
qed

lemma getNextJobForHost_None:
  "getNextJobForHost getJobs removable orgId hostId busy w = (None, w') \<Longrightarrow>
     w' = w \<and> (\<forall>e \<in> set (getJobs (orgQueues w orgId)).
       q_hostId e \<noteq> hostId \<or> (busy \<and> \<not> isReadOnly (q_type e)) \<or> \<not> removable e)"
  by (auto simp: getNextJobForHost_def scan_waiting_find find_None_set split: option.splits)

lemma poll_claim_queue:
  assumes "fair_listing getJobs"
  shows "claim_queue (\<lambda>w. orgQueues w orgId) (small_queue orgId) (\<lambda>e. q_hostId e = hostId)
    (getNextJobForHost getJobs (\<lambda>_. True) orgId hostId False)"
proof
  fix w e w'
  assume ok: "small_queue orgId w"
    and c: "getNextJobForHost getJobs (\<lambda>_. True) orgId hostId False w = (Some e, w')"
  from getNextJobForHost_Some [OF _ c] assms
  have e: "e \<in> set (orgQueues w orgId)" "q_hostId e = hostId"
    and w': "w' = remove_entry orgId (q_jobRunId e) w" by (auto simp: fair_listing_def)
  with ok have "orgQueues w' orgId = remove1 e (orgQueues w orgId)"
    by (simp add: remove_entry_def small_queue_def queue_wf_def filter_key_remove1)
  moreover have "small_queue orgId w'"
    using ok remove_entry_wf unfolding w'
    by (auto simp: small_queue_def remove_entry_def intro: le_trans [OF length_filter_le])
  ultimately show "small_queue orgId w' \<and> q_hostId e = hostId \<and> e \<in> set (orgQueues w orgId) \<and>
      orgQueues w' orgId = remove1 e (orgQueues w orgId)" using e by blast
next
  fix w w'
  assume ok: "small_queue orgId w"
    and "getNextJobForHost getJobs (\<lambda>_. True) orgId hostId False w = (None, w')"
  from getNextJobForHost_None [OF this(2)]
  have "w' = w" "\<forall>e \<in> set (getJobs (orgQueues w orgId)). q_hostId e \<noteq> hostId" by auto
  moreover have "set (orgQueues w orgId) \<subseteq> set (getJobs (orgQueues w orgId))"
    using assms ok by (simp add: fair_listing_def small_queue_def)
  ultimately show "w' = w \<and> filter (\<lambda>e. q_hostId e = hostId) (orgQueues w orgId) = []"
    by (auto simp: filter_empty_conv)
qed

lemma fair_take: "fair_listing (take 500)"
  by (auto simp: fair_listing_def dest: in_set_takeD)

text \<open>The first-in-first-out listing of a BullMQ queue.\<close>

interpretation fifo: claim_queue "\<lambda>w. orgQueues w orgId" "small_queue orgId"
    "\<lambda>e. q_hostId e = hostId" "getNextJobForHost (take 500) (\<lambda>_. True) orgId hostId False"
  for orgId hostId
  by (rule poll_claim_queue [OF fair_take])

section \<open>Properties of the queue\<close>

text \<open>One poll. Whatever the listing, a host is handed only an entry of its own queue that
  is addressed to it, only a read-only job while one of its mutations is running, and the queue
  then lacks exactly that run; when it is handed nothing, the queue is unchanged and every
  listed entry is another host's, blocked by the running mutation, or held by a worker.\<close>

lemma getNextJobForHost_correct:
  assumes "\<And>q. set (getJobs q) \<subseteq> set q"
  shows "case getNextJobForHost getJobs removable orgId hostId mutationBusy w of
      (Some e, w') \<Rightarrow>
        e \<in> set (orgQueues w orgId) \<and> q_hostId e = hostId \<and>
        (mutationBusy \<longrightarrow> isReadOnly (q_type e)) \<and>
        (\<forall>e'. e' \<in> set (orgQueues w' orgId) \<longleftrightarrow>
           e' \<in> set (orgQueues w orgId) \<and> q_jobRunId e' \<noteq> q_jobRunId e) \<and>
        (\<forall>o'. o' \<noteq> orgId \<longrightarrow> orgQueues w' o' = orgQueues w o')
    | (None, w') \<Rightarrow>
        w' = w \<and>
        (\<forall>e \<in> set (getJobs (orgQueues w orgId)). q_hostId e \<noteq> hostId \<or>
           (mutationBusy \<and> \<not> isReadOnly (q_type e)) \<or> \<not> removable e)"
proof (cases "getNextJobForHost getJobs removable orgId hostId mutationBusy w")
  case (Pair x w')
  show ?thesis
  proof (cases x)
    case None
    with Pair getNextJobForHost_None show ?thesis by fastforce
  next
    case (Some e)
    with Pair getNextJobForHost_Some [OF assms] show ?thesis
      by (fastforce simp: remove_entry_def)
  qed
qed

definition sample_entry :: "id \<Rightarrow> id \<Rightarrow> string \<Rightarrow> queueJob" where
  "sample_entry run h ty =
     \<lparr>q_jobId = ''j'' @ run, q_jobRunId = run, q_hostId = h, q_serverInstanceId = None,
      q_type = ty, q_payload = [], q_scheduleId = None, q_attempts = JOB_ATTEMPTS,
      q_backoff = Exponential 2000\<rparr>"

definition sample_queue :: world where
  "sample_queue = (empty_world (\<lambda>n. nat_str n))
     \<lparr>orgQueues := (\<lambda>_. [sample_entry ''1'' ''h'' ''SERVER_RESTART'',
        sample_entry ''2'' ''g'' ''MOD_LIST'', sample_entry ''3'' ''h'' ''MOD_LIST''])\<rparr>"

text \<open>Draining a queue. A host that polls at least as often as it has entries receives
  every one of its entries exactly once, and nothing else, from any organization queue of up to
  500 entries.\<close>

lemma polls_deliver_each_once:
  assumes "fair_listing getJobs" and "small_queue orgId w"
    and "length (filter (\<lambda>e. q_hostId e = hostId) (orgQueues w orgId)) \<le> n"
    and "polls (getNextJobForHost getJobs (\<lambda>_. True) orgId hostId False) n w = (es, w')"
  shows "mset es = mset (filter (\<lambda>e. q_hostId e = hostId) (orgQueues w orgId)) \<and>
    mset (orgQueues w' orgId) = mset (filter (\<lambda>e. q_hostId e \<noteq> hostId) (orgQueues w orgId))"
proof -
  note q = poll_claim_queue [OF assms(1), of orgId hostId]
  have es: "mset es = mset (filter (\<lambda>e. q_hostId e = hostId) (orgQueues w orgId))"
    by (rule claim_queue.polls_all [OF q assms(2-4)])
  moreover have "mset es + mset (orgQueues w' orgId) = mset (orgQueues w orgId)"
    using claim_queue.polls_conserve [OF q assms(2,4)] by blast
  ultimately show ?thesis
    using multiset_partition [of "mset (orgQueues w orgId)" "\<lambda>e. q_hostId e = hostId"]
    by (metis add_left_imp_eq mset_filter)
qed

end
