(* ===== verification/Framework.thy ===== *)
theory Framework
  imports Main
begin

text \<open>
  The interfaces the component proofs share. A component's state changes are related by a
  preorder (what every operation of it keeps, and how its tables may grow); a handler that
  loops or composes other handlers is related by the same preorder. A transition system has
  an invariant of its reachable states, and a monotone one relates any state to every state
  it leads to.
\<close>

locale state_preorder =
  fixes R :: "'s \<Rightarrow> 's \<Rightarrow> bool"
  assumes refl_R: "R s s"
    and trans_R: "R s t \<Longrightarrow> R t u \<Longrightarrow> R s u"
begin

lemma foldl_R: "(\<And>x t. x \<in> set xs \<Longrightarrow> R t (f t x)) \<Longrightarrow> R s (foldl f s xs)"
proof (induction xs arbitrary: s)
  case (Cons x xs)
  have "R s (f s x)" using Cons.prems by simp
  moreover have "R (f s x) (foldl f (f s x) xs)" using Cons by simp
  ultimately show ?case using trans_R by simp
qed (simp add: refl_R)

lemma foldl_via:
  fixes g :: "'a \<Rightarrow> 's"
  shows "(\<And>x t. x \<in> set xs \<Longrightarrow> R (g t) (g (f t x))) \<Longrightarrow> R (g s) (g (foldl f s xs))"
proof (induction xs arbitrary: s)
  case (Cons x xs)
  have "R (g s) (g (f s x))" using Cons.prems by simp
  moreover have "R (g (f s x)) (g (foldl f (f s x) xs))" using Cons by simp
  ultimately show ?case using trans_R by simp
qed (simp add: refl_R)

lemma if_R: "(c \<Longrightarrow> R s t) \<Longrightarrow> (\<not> c \<Longrightarrow> R s u) \<Longrightarrow> R s (if c then t else u)"
  by simp

lemma option_R:
  "(x = None \<Longrightarrow> R s t) \<Longrightarrow> (\<And>y. x = Some y \<Longrightarrow> R s (f y)) \<Longrightarrow>
     R s (case x of None \<Rightarrow> t | Some y \<Rightarrow> f y)"
  by (cases x) auto

end

inductive reach :: "('s \<Rightarrow> bool) \<Rightarrow> ('s \<Rightarrow> 's \<Rightarrow> bool) \<Rightarrow> 's \<Rightarrow> bool"
  for init :: "'s \<Rightarrow> bool" and step :: "'s \<Rightarrow> 's \<Rightarrow> bool" where
  start: "init s \<Longrightarrow> reach init step s"
| move: "reach init step s \<Longrightarrow> step s t \<Longrightarrow> reach init step t"

locale transition_system =
  fixes init :: "'s \<Rightarrow> bool" and step :: "'s \<Rightarrow> 's \<Rightarrow> bool" and inv :: "'s \<Rightarrow> bool"
  assumes init_inv: "init s \<Longrightarrow> inv s"
    and step_inv: "inv s \<Longrightarrow> step s t \<Longrightarrow> inv t"
begin

lemma reach_inv: "reach init step s \<Longrightarrow> inv s"
  by (induction rule: reach.induct) (auto intro: init_inv step_inv)

lemma steps_inv: "step\<^sup>*\<^sup>* s t \<Longrightarrow> inv s \<Longrightarrow> inv t"
  by (induction rule: rtranclp_induct) (auto intro: step_inv)

end

locale monotone_system = transition_system init step inv + state_preorder R
  for init :: "'s \<Rightarrow> bool" and step :: "'s \<Rightarrow> 's \<Rightarrow> bool" and inv :: "'s \<Rightarrow> bool"
    and R :: "'s \<Rightarrow> 's \<Rightarrow> bool" +
  assumes step_R: "inv s \<Longrightarrow> step s t \<Longrightarrow> R s t"
begin

lemma steps_R: "step\<^sup>*\<^sup>* s t \<Longrightarrow> inv s \<Longrightarrow> R s t"
proof (induction rule: rtranclp_induct)
  case (step t u)
  then have "inv t" using steps_inv by blast
  with step show ?case using step_R trans_R by blast
qed (rule refl_R)

lemma reach_steps_R: "reach init step s \<Longrightarrow> step\<^sup>*\<^sup>* s t \<Longrightarrow> R s t"
  using reach_inv steps_R by blast

end

text \<open>
  A fixed-window rate limiter: per key a count of the requests accepted since the window
  began. \<open>accepted\<close> is the number of requests of a list of times that pass.
\<close>

fun accepted :: "('t \<Rightarrow> 's \<Rightarrow> bool \<times> 's) \<Rightarrow> 't list \<Rightarrow> 's \<Rightarrow> nat" where
  "accepted consume [] s = 0"
| "accepted consume (t # ts) s =
     (case consume t s of (ok, s') \<Rightarrow> (if ok then 1 else 0) + accepted consume ts s')"

locale window_limiter =
  fixes consume :: "int \<Rightarrow> 's \<Rightarrow> bool \<times> 's"
    and level :: "'s \<Rightarrow> (int \<times> int) option"
    and ok :: "'s \<Rightarrow> bool"
    and limit :: int
    and window :: int
  assumes limit_pos: "1 \<le> limit"
    and keeps_ok: "ok s \<Longrightarrow> consume now s = (b, s') \<Longrightarrow> ok s'"
    and bounded: "ok s \<Longrightarrow> level s = Some (c, ws) \<Longrightarrow> 1 \<le> c \<and> c \<le> limit"
    and fresh: "ok s \<Longrightarrow> (case level s of None \<Rightarrow> True | Some (c, ws) \<Rightarrow> window \<le> now - ws) \<Longrightarrow>
      consume now s = (b, s') \<Longrightarrow> b \<and> level s' = Some (1, now)"
    and counted: "ok s \<Longrightarrow> level s = Some (c, ws) \<Longrightarrow> now - ws < window \<Longrightarrow>
      consume now s = (b, s') \<Longrightarrow>
      (if c < limit then b \<and> level s' = Some (c + 1, ws) else \<not> b \<and> level s' = Some (c, ws))"
begin

text \<open>Inside one window the limit is exact.\<close>

lemma accepted_window:
  "ok s \<Longrightarrow> level s = Some (c, ws) \<Longrightarrow> list_all (\<lambda>t. t - ws < window) ts \<Longrightarrow>
     int (accepted consume ts s) = min (int (length ts)) (limit - c)"
proof (induction ts arbitrary: s c)
  case Nil
  then show ?case using bounded by auto
next
  case (Cons t ts)
  obtain b s' where st: "consume t s = (b, s')" by fastforce
  note k = counted [OF Cons.prems(1,2) _ st] and o' = keeps_ok [OF Cons.prems(1) st]
  show ?case
  proof (cases "c < limit")
    case True
    with k Cons.prems have "b" "level s' = Some (c + 1, ws)" by auto
    with Cons.IH [OF o', of "c + 1"] Cons.prems st True show ?thesis by auto
  next
    case False
    with k Cons.prems have "\<not> b" "level s' = Some (c, ws)" by auto
    with Cons.IH [OF o', of c] Cons.prems st False bounded [OF Cons.prems(1,2)] show ?thesis by auto
  qed
qed

text \<open>Any stretch of time as long as a window touches at most two windows.\<close>

lemma accepted_fresh:
  assumes "ok s" and "case level s of None \<Rightarrow> True | Some (c, ws) \<Rightarrow> window \<le> t - ws"
    and "list_all (\<lambda>x. x - t < window) ts"
  shows "int (accepted consume (t # ts) s) \<le> limit"
proof -
  obtain b s' where st: "consume t s = (b, s')" by fastforce
  from fresh [OF assms(1,2) st] have b: b "level s' = Some (1, t)" by auto
  from accepted_window [OF keeps_ok [OF assms(1) st] b(2) assms(3)] st b(1) limit_pos
  show ?thesis by simp
qed

lemma accepted_stretch:
  "ok s \<Longrightarrow> sorted ts \<Longrightarrow> list_all (\<lambda>x. T \<le> x \<and> x < T + window) ts \<Longrightarrow>
     int (accepted consume ts s) \<le> (case level s of None \<Rightarrow> limit | Some (c, ws) \<Rightarrow> 2 * limit - c)"
proof (induction ts arbitrary: s)
  case Nil
  then show ?case using bounded [OF Nil(1)] limit_pos by (fastforce split: option.split)
next
  case (Cons t ts)
  show ?case
  proof (cases "case level s of None \<Rightarrow> True | Some (c, ws) \<Rightarrow> window \<le> t - ws")
    case True
    have "list_all (\<lambda>x. x - t < window) ts" using Cons.prems by (auto simp: list_all_iff)
    from accepted_fresh [OF Cons.prems(1) True this] bounded [OF Cons.prems(1)] show ?thesis
      by (fastforce split: option.split)
  next
    case False
    then obtain c ws where l: "level s = Some (c, ws)" "t - ws < window"
      by (auto split: option.splits)
    obtain b s' where st: "consume t s = (b, s')" by fastforce
    note k = counted [OF Cons.prems(1) l st] and o' = keeps_ok [OF Cons.prems(1) st]
    from Cons.IH [OF o'] Cons.prems k st l show ?thesis by (auto split: if_splits)
  qed
qed

end

end
