(* ===== verification/Job_Store.thy ===== *)
theory Job_Store
  imports Jobs_Queue Framework
begin

text \<open>
  The tables of jobs, job runs and batches, and what every component relies on about them.
  \<open>create_job\<close> and \<open>create_run\<close> are the two Prisma inserts every producer of jobs makes.

  \<open>store_wf\<close>: primary keys are unique and drawn from the id generator, every run belongs
  to a job, no job has two runs, every batch a job names exists. \<open>jobs_ext\<close>: an
  operation only appends jobs outside any batch, each with one pending run. \<open>runs_le\<close>: a
  run only moves along its life cycle, keeps its job and host, and is frozen once finished.
\<close>

section \<open>Inserts\<close>

definition create_job ::
    "id \<Rightarrow> id option \<Rightarrow> id option \<Rightarrow> string \<Rightarrow> obj \<Rightarrow> id option \<Rightarrow> ms \<Rightarrow> world \<Rightarrow> id \<times> world" where
  "create_job orgId batchId serverInstanceId type payload createdById now w =
     (next_id w, (draw w)\<lparr>jobs := jobs w @
        [\<lparr>j_id = next_id w, j_orgId = orgId, j_batchId = batchId,
          j_serverInstanceId = serverInstanceId, j_type = type, j_payload = payload,
          j_createdById = createdById, j_createdAt = now\<rparr>]\<rparr>)"

definition create_run :: "id \<Rightarrow> id \<Rightarrow> ms \<Rightarrow> world \<Rightarrow> id \<times> world" where
  "create_run jobId hostId now w =
     (next_id w, (draw w)\<lparr>jobRuns := jobRuns w @
        [\<lparr>jr_id = next_id w, jr_jobId = jobId, jr_hostId = hostId, jr_status = Pending,
          jr_startedAt = None, jr_finishedAt = None, jr_result = [], jr_createdAt = now\<rparr>]\<rparr>)"

definition set_run :: "id \<Rightarrow> (jobRun \<Rightarrow> jobRun) \<Rightarrow> world \<Rightarrow> world" where
  "set_run i f w = w\<lparr>jobRuns := updateRow jr_id i f (jobRuns w)\<rparr>"

definition set_batch :: "id \<Rightarrow> (jobBatch \<Rightarrow> jobBatch) \<Rightarrow> world \<Rightarrow> world" where
  "set_batch i f w = w\<lparr>jobBatches := updateRow b_id i f (jobBatches w)\<rparr>"

section \<open>Well-formed tables\<close>

definition run_batch :: "world \<Rightarrow> jobRun \<Rightarrow> id option" where
  "run_batch w r = (case find_job (jr_jobId r) w of None \<Rightarrow> None | Some j \<Rightarrow> j_batchId j)"

definition store_wf :: "world \<Rightarrow> bool" where
  "store_wf w \<longleftrightarrow>
     inj (idgen w) \<and>
     distinct (map j_id (jobs w)) \<and> distinct (map jr_id (jobRuns w)) \<and>
     distinct (map b_id (jobBatches w)) \<and> distinct (map jr_jobId (jobRuns w)) \<and>
     list_all (drawn w) (map j_id (jobs w)) \<and> list_all (drawn w) (map jr_id (jobRuns w)) \<and>
     list_all (drawn w) (map b_id (jobBatches w)) \<and>
     set (map jr_jobId (jobRuns w)) \<subseteq> set (map j_id (jobs w)) \<and>
     (\<forall>j \<in> set (jobs w). \<forall>b. j_batchId j = Some b \<longrightarrow> b \<in> b_id ` set (jobBatches w))"

lemma store_wfD:
  assumes "store_wf w"
  shows "inj (idgen w)" "distinct (map j_id (jobs w))" "distinct (map jr_id (jobRuns w))"
    "distinct (map b_id (jobBatches w))" "distinct (map jr_jobId (jobRuns w))"
  using assms by (simp_all add: store_wf_def)

section \<open>The life cycle of a run\<close>

inductive run_step :: "run_status \<Rightarrow> run_status \<Rightarrow> bool" where
  started: "run_step Pending Running"
| cancelled: "run_step Pending Cancelled"
| succeeded: "run_step Running Success"
| failed: "run_step Running Failed"

inductive_simps run_step_simps [simp]:
  "run_step Success s" "run_step Failed s" "run_step Cancelled s" "run_step Running s"
  "run_step Pending s"

definition terminal :: "run_status \<Rightarrow> bool" where
  "terminal s = (s \<in> {Success, Failed, Cancelled})"

lemma terminal_run_step: "terminal s \<Longrightarrow> run_step\<^sup>*\<^sup>* s t \<Longrightarrow> t = s"
  by (erule converse_rtranclpE) (auto simp: terminal_def)

definition run_le :: "jobRun \<Rightarrow> jobRun \<Rightarrow> bool" where
  "run_le r r' \<longleftrightarrow>
     run_step\<^sup>*\<^sup>* (jr_status r) (jr_status r') \<and> jr_id r' = jr_id r \<and>
     jr_jobId r' = jr_jobId r \<and> jr_hostId r' = jr_hostId r \<and> (terminal (jr_status r) \<longrightarrow> r' = r)"

lemma run_le_refl: "run_le r r"
  by (simp add: run_le_def)

lemma run_le_trans: "run_le r s \<Longrightarrow> run_le s t \<Longrightarrow> run_le r t"
  unfolding run_le_def by (metis rtranclp_trans)

definition runs_le :: "world \<Rightarrow> world \<Rightarrow> bool" where
  "runs_le w w' \<longleftrightarrow>
     (\<forall>i r. find_run i w = Some r \<longrightarrow> (\<exists>r'. find_run i w' = Some r' \<and> run_le r r'))"

interpretation lifecycle: state_preorder runs_le
proof
  show "runs_le w w" for w by (simp add: runs_le_def run_le_refl)
next
  fix w1 w2 w3 assume "runs_le w1 w2" "runs_le w2 w3"
  then show "runs_le w1 w3" unfolding runs_le_def by (meson run_le_trans)
qed

lemma find_run_set_run:
  "(\<And>r. jr_id (f r) = jr_id r) \<Longrightarrow>
     find_run k (set_run i f w) = (if k = i then map_option f (find_run k w) else find_run k w)"
  by (simp add: find_run_def set_run_def findUnique_updateRow)

lemma set_run_le:
  assumes "\<And>r. jr_id (f r) = jr_id r"
    and "\<And>r. find_run i w = Some r \<Longrightarrow> run_le r (f r)"
  shows "runs_le w (set_run i f w)"
  using assms by (auto simp: runs_le_def find_run_set_run run_le_refl)

lemma runs_le_same: "jobRuns w' = jobRuns w \<Longrightarrow> runs_le w w'"
  by (simp add: runs_le_def find_run_def run_le_refl)

section \<open>Appending jobs\<close>

definition jobs_ext :: "world \<Rightarrow> world \<Rightarrow> bool" where
  "jobs_ext w w' \<longleftrightarrow>
     idgen w' = idgen w \<and> idctr w \<le> idctr w' \<and> jobBatches w' = jobBatches w \<and>
     (\<exists>js rs. jobs w' = jobs w @ js \<and> jobRuns w' = jobRuns w @ rs \<and>
        map jr_jobId rs = map j_id js \<and>
        list_all (\<lambda>j. j_batchId j = None) js \<and> list_all (\<lambda>r. jr_status r = Pending) rs \<and>
        (inj (idgen w) \<longrightarrow> distinct (map j_id js) \<and> distinct (map jr_id rs)) \<and>
        list_all (\<lambda>i. \<exists>n. idctr w \<le> n \<and> n < idctr w' \<and> i = idgen w n)
          (map j_id js @ map jr_id rs))"

lemma fresh_mono:
  fixes a :: nat
  shows "list_all (\<lambda>i. \<exists>n. a \<le> n \<and> n < b \<and> i = g n) is \<Longrightarrow> a' \<le> a \<Longrightarrow> b \<le> b' \<Longrightarrow>
     list_all (\<lambda>i. \<exists>n. a' \<le> n \<and> n < b' \<and> i = g n) is"
proof (erule list.pred_mono_strong)
  fix i assume le: "a' \<le> a" "b \<le> b'" and "\<exists>n. a \<le> n \<and> n < b \<and> i = g n"
  then obtain n where n: "a \<le> n" "n < b" "i = g n" by blast
  with le have "a' \<le> n" "n < b'" by linarith+
  with n show "\<exists>n. a' \<le> n \<and> n < b' \<and> i = g n" by blast
qed

lemma fresh_disjoint:
  fixes g :: "nat \<Rightarrow> id"
  assumes "inj g" and "list_all (\<lambda>i. \<exists>n. a \<le> n \<and> n < b \<and> i = g n) is"
    and "list_all (\<lambda>i. \<exists>n. b \<le> n \<and> n < c \<and> i = g n) js"
  shows "set is \<inter> set js = {}"
proof (rule ccontr)
  assume "set is \<inter> set js \<noteq> {}"
  then obtain i where "i \<in> set is" "i \<in> set js" by auto
  with assms obtain m n where "m < b" "b \<le> n" "i = g m" "i = g n"
    unfolding list_all_iff by metis
  then show False using injD [OF assms(1), of m n] by simp
qed

interpretation appending: state_preorder jobs_ext
proof
  show "jobs_ext w w" for w by (simp add: jobs_ext_def)
next
  fix w1 w2 w3 assume a: "jobs_ext w1 w2" and b: "jobs_ext w2 w3"
  from a obtain js rs where 1: "jobs w2 = jobs w1 @ js" "jobRuns w2 = jobRuns w1 @ rs"
      "map jr_jobId rs = map j_id js" "list_all (\<lambda>j. j_batchId j = None) js"
      "list_all (\<lambda>r. jr_status r = Pending) rs"
      "inj (idgen w1) \<Longrightarrow> distinct (map j_id js) \<and> distinct (map jr_id rs)"
      "list_all (\<lambda>i. \<exists>n. idctr w1 \<le> n \<and> n < idctr w2 \<and> i = idgen w1 n) (map j_id js @ map jr_id rs)"
      "idgen w2 = idgen w1" "idctr w1 \<le> idctr w2" "jobBatches w2 = jobBatches w1"
    unfolding jobs_ext_def by blast
  from b obtain js' rs' where 2: "jobs w3 = jobs w2 @ js'" "jobRuns w3 = jobRuns w2 @ rs'"
      "map jr_jobId rs' = map j_id js'" "list_all (\<lambda>j. j_batchId j = None) js'"
      "list_all (\<lambda>r. jr_status r = Pending) rs'"
      "inj (idgen w2) \<Longrightarrow> distinct (map j_id js') \<and> distinct (map jr_id rs')"
      "list_all (\<lambda>i. \<exists>n. idctr w2 \<le> n \<and> n < idctr w3 \<and> i = idgen w2 n) (map j_id js' @ map jr_id rs')"
      "idgen w3 = idgen w2" "idctr w2 \<le> idctr w3" "jobBatches w3 = jobBatches w2"
    unfolding jobs_ext_def by blast
  let ?F = "\<lambda>is. list_all (\<lambda>i. \<exists>n. idctr w1 \<le> n \<and> n < idctr w3 \<and> i = idgen w1 n) is"
  have "?F (map j_id js @ map jr_id rs)" using 1(7) 2(9) fresh_mono by blast
  moreover have "?F (map j_id js' @ map jr_id rs')"
    using fresh_mono [OF 2(7) 1(9) order_refl] 1(8) by simp
  moreover have "set (map j_id js @ map jr_id rs) \<inter> set (map j_id js' @ map jr_id rs') = {}"
    if "inj (idgen w1)" by (rule fresh_disjoint [OF that 1(7) 2(7) [unfolded 1(8)]])
  ultimately show "jobs_ext w1 w3"
    using 1 2 unfolding jobs_ext_def
    by (intro conjI exI [of _ "js @ js'"] exI [of _ "rs @ rs'"]) auto
qed

text \<open>Operations that leave the job tables alone.\<close>

definition same_jobs :: "world \<Rightarrow> world \<Rightarrow> bool" where
  "same_jobs w w' \<longleftrightarrow> jobs w' = jobs w \<and> jobRuns w' = jobRuns w \<and> jobBatches w' = jobBatches w \<and>
     idgen w' = idgen w \<and> idctr w \<le> idctr w'"

lemma same_jobs_ext: "same_jobs w w' \<Longrightarrow> jobs_ext w w'"
  by (simp add: same_jobs_def jobs_ext_def)

interpretation same_jobs: state_preorder same_jobs
  by unfold_locales (auto simp: same_jobs_def)

lemma create_job_run_ext:
  assumes "create_job orgId None si ty p u now w = (j, w1)" and "create_run j h now w1 = (r, w2)"
  shows "jobs_ext w w2"
proof -
  have "jobs w2 = jobs w @ [\<lparr>j_id = next_id w, j_orgId = orgId, j_batchId = None,
        j_serverInstanceId = si, j_type = ty, j_payload = p, j_createdById = u, j_createdAt = now\<rparr>]"
    and "jobRuns w2 = jobRuns w @ [\<lparr>jr_id = idgen w (Suc (idctr w)), jr_jobId = next_id w,
        jr_hostId = h, jr_status = Pending, jr_startedAt = None, jr_finishedAt = None,
        jr_result = [], jr_createdAt = now\<rparr>]"
    and "idgen w2 = idgen w" "idctr w2 = Suc (Suc (idctr w))" "jobBatches w2 = jobBatches w"
    using assms by (auto simp: create_job_def create_run_def next_id_def draw_def)
  then show ?thesis
    unfolding jobs_ext_def by (auto simp: next_id_def less_Suc_eq intro: le_SucI)
qed

lemma find_run_append: "find_run i w = Some r \<Longrightarrow> jobRuns w' = jobRuns w @ rs \<Longrightarrow> find_run i w' = Some r"
  by (simp add: find_run_def findUnique_append)

lemma jobs_ext_runs_le: "jobs_ext w w' \<Longrightarrow> runs_le w w'"
  unfolding jobs_ext_def runs_le_def using find_run_append run_le_refl by metis

lemma drawn_mono: "idgen w' = idgen w \<Longrightarrow> idctr w \<le> idctr w' \<Longrightarrow> drawn w i \<Longrightarrow> drawn w' i"
  unfolding drawn_def by (metis less_le_trans)

lemma fresh_not_drawn:
  assumes "inj (idgen w)" "list_all (drawn w) xs"
    and "list_all (\<lambda>i. \<exists>n. idctr w \<le> n \<and> n < m \<and> i = idgen w n) ys"
  shows "set xs \<inter> set ys = {}"
  using fresh_disjoint [of "idgen w" 0 "idctr w" xs m ys] assms
  by (simp add: drawn_def list_all_iff)

lemma jobs_ext_wf: "store_wf w \<Longrightarrow> jobs_ext w w' \<Longrightarrow> store_wf w'"
proof -
  assume wf: "store_wf w" and "jobs_ext w w'"
  then obtain js rs where e: "jobs w' = jobs w @ js" "jobRuns w' = jobRuns w @ rs"
      "map jr_jobId rs = map j_id js" "list_all (\<lambda>j. j_batchId j = None) js"
      "distinct (map j_id js)" "distinct (map jr_id rs)"
      "list_all (\<lambda>i. \<exists>n. idctr w \<le> n \<and> n < idctr w' \<and> i = idgen w n) (map j_id js @ map jr_id rs)"
      "idgen w' = idgen w" "idctr w \<le> idctr w'" "jobBatches w' = jobBatches w"
    unfolding jobs_ext_def store_wf_def by blast
  note fresh = fresh_not_drawn [OF store_wfD(1) [OF wf] _ e(7)]
  have fj: "set (map j_id (jobs w)) \<inter> set (map j_id js @ map jr_id rs) = {}"
    and fr: "set (map jr_id (jobRuns w)) \<inter> set (map j_id js @ map jr_id rs) = {}"
    using wf by (intro fresh; simp add: store_wf_def)+
  have jobsub: "set (map jr_jobId (jobRuns w)) \<subseteq> set (map j_id (jobs w))"
    using wf by (simp add: store_wf_def)
  have new: "list_all (drawn w') (map j_id js @ map jr_id rs)"
    using e(7,8) by (auto simp: list_all_iff drawn_def)
  note old = drawn_mono [OF e(8,9)]
  have "map jr_jobId (jobRuns w') = map jr_jobId (jobRuns w) @ map j_id js" using e by simp
  then have "distinct (map jr_jobId (jobRuns w'))"
    using store_wfD(5) [OF wf] e(5) fj jobsub by (simp add: distinct_append) blast
  moreover have "distinct (map j_id (jobs w'))" "distinct (map jr_id (jobRuns w'))"
    using wf e fj fr by (auto simp: store_wf_def)
  ultimately show "store_wf w'"
    using wf e(1-4,8-10) new unfolding store_wf_def by (auto simp: list_all_iff intro: old)
qed

text \<open>Ids are used once: a run that is gone never comes back, and no new run takes its id.\<close>

definition runs_fresh :: "world \<Rightarrow> world \<Rightarrow> bool" where
  "runs_fresh w w' \<longleftrightarrow>
     (\<forall>i. drawn w i \<longrightarrow> drawn w' i \<and> (find_run i w = None \<longrightarrow> find_run i w' = None))"

interpretation fresh_ids: state_preorder runs_fresh
  by unfold_locales (auto simp: runs_fresh_def)

lemma runs_freshI:
  assumes "idgen w' = idgen w" and "idctr w \<le> idctr w'"
    and "\<And>r. r \<in> set (jobRuns w') \<Longrightarrow> jr_id r \<in> jr_id ` set (jobRuns w) \<or> \<not> drawn w (jr_id r)"
  shows "runs_fresh w w'"
  unfolding runs_fresh_def
proof (intro allI impI conjI)
  fix i assume i: "drawn w i"
  show "drawn w' i" using drawn_mono [OF assms(1,2) i] .
  assume "find_run i w = None"
  then have "i \<notin> jr_id ` set (jobRuns w)" by (simp add: find_run_def findUnique_None)
  then show "find_run i w' = None" using assms(3) i by (auto simp: find_run_def findUnique_None)
qed

lemma jobs_ext_fresh:
  assumes "inj (idgen w)" and "jobs_ext w w'"
  shows "runs_fresh w w'"
proof -
  obtain js rs where e: "jobRuns w' = jobRuns w @ rs" "idgen w' = idgen w" "idctr w \<le> idctr w'" "jobs w' = jobs w @ js"
    "list_all (\<lambda>i. \<exists>n. idctr w \<le> n \<and> n < idctr w' \<and> i = idgen w n) (map j_id js @ map jr_id rs)"
    using assms(2) unfolding jobs_ext_def by blast
  have "\<not> drawn w (jr_id r)" if "r \<in> set rs" for r
    using fresh_not_drawn [OF assms(1) _ e(5), of "[jr_id r]"] that by auto
  then show ?thesis using e by (intro runs_freshI) auto
qed

lemma set_run_fresh: "(\<And>r. jr_id (f r) = jr_id r) \<Longrightarrow> runs_fresh w (set_run i f w)"
  by (rule runs_freshI) (auto simp: set_run_def updateRow_def updateMany_def)

lemma find_job_append:
  "find_job i w = Some j \<Longrightarrow> jobs w' = jobs w @ js \<Longrightarrow> find_job i w' = Some j"
  by (simp add: find_job_def findUnique_append)

lemma jobs_ext_find_job: "jobs_ext w w' \<Longrightarrow> find_job i w = Some j \<Longrightarrow> find_job i w' = Some j"
  unfolding jobs_ext_def using find_job_append by blast

end
