(* ===== verification/Batches.thy ===== *)
theory Batches
  imports Job_Store
begin

text \<open>
  Bulk operations: control-plane/src/batches/batches.service.ts. A batch row counts its runs
  by status; the service keeps the counters up to date as runs start, finish and are
  cancelled. Dates cross the wire as ISO strings; the model carries the instants.

  Shown: the counters agree with the runs after every operation, cancelling leaves no
  pending run, the batch is reported complete exactly when nothing is left.
\<close>

section \<open>Operations\<close>

definition BATCH_TYPE_TO_JOB_TYPE :: "string \<Rightarrow> string option" where
  "BATCH_TYPE_TO_JOB_TYPE =
     map_of [(''restart_wave'', ''SERVER_RESTART''), (''update_wave'', ''SERVER_UPDATE''),
             (''bulk_mod_install'', ''BULK_MOD_INSTALL''), (''custom'', ''custom'')]"

definition BATCH_PROGRESS :: string where "BATCH_PROGRESS = ''batch.progress''"

definition opt_str :: "string option \<Rightarrow> js" where
  "opt_str x = (case x of None \<Rightarrow> Null | Some s \<Rightarrow> Str s)"

definition opt_time :: "ms option \<Rightarrow> js" where
  "opt_time x = (case x of None \<Rightarrow> Null | Some t \<Rightarrow> JInt t)"

definition status_str :: "run_status \<Rightarrow> string" where
  "status_str s = (case s of Pending \<Rightarrow> ''pending'' | Running \<Rightarrow> ''running''
     | Success \<Rightarrow> ''success'' | Failed \<Rightarrow> ''failed'' | Cancelled \<Rightarrow> ''cancelled'')"

definition toSummary :: "jobBatch \<Rightarrow> obj" where
  "toSummary b =
     [(''id'', Str (b_id b)), (''orgId'', Str (b_orgId b)), (''type'', Str (b_type b)),
      (''status'', Str (b_status b)), (''totalCount'', JInt (b_totalCount b)),
      (''pendingCount'', JInt (b_pendingCount b)), (''runningCount'', JInt (b_runningCount b)),
      (''successCount'', JInt (b_successCount b)), (''failedCount'', JInt (b_failedCount b)),
      (''cancelledCount'', JInt (b_cancelledCount b)), (''createdById'', opt_str (b_createdById b)),
      (''createdAt'', JInt (b_createdAt b)), (''completedAt'', opt_time (b_completedAt b))]"

definition emitProgress :: "id \<Rightarrow> jobBatch \<Rightarrow> (id \<times> string) option \<Rightarrow> world \<Rightarrow> world" where
  "emitProgress orgId b updatedRun w =
     w\<lparr>effects := effects w @ [EmitToOrg orgId BATCH_PROGRESS
       [(''batchId'', Str (b_id b)), (''status'', Str (b_status b)),
        (''totalCount'', JInt (b_totalCount b)), (''pendingCount'', JInt (b_pendingCount b)),
        (''runningCount'', JInt (b_runningCount b)), (''successCount'', JInt (b_successCount b)),
        (''failedCount'', JInt (b_failedCount b)), (''cancelledCount'', JInt (b_cancelledCount b)),
        (''completedAt'', opt_time (b_completedAt b)),
        (''updatedRun'', case updatedRun of None \<Rightarrow> Undefined
           | Some (jobId, runStatus) \<Rightarrow> Obj [(''jobId'', Str jobId), (''runStatus'', Str runStatus)])]]\<rparr>"

definition audit_row :: "id \<Rightarrow> id option \<Rightarrow> string \<Rightarrow> string \<Rightarrow> id \<Rightarrow> obj \<Rightarrow> world \<Rightarrow> world" where
  "audit_row orgId actorId action resourceType resourceId details w =
     w\<lparr>auditLogs := auditLogs w @ [\<lparr>a_orgId = orgId, a_actorId = actorId, a_action = action,
        a_resourceType = resourceType, a_resourceId = resourceId, a_details = details\<rparr>]\<rparr>"

definition audit :: "id \<Rightarrow> id option \<Rightarrow> string \<Rightarrow> id \<Rightarrow> obj \<Rightarrow> world \<Rightarrow> world" where
  "audit orgId actorId action resourceId details w =
     audit_row orgId actorId action ''job_batch'' resourceId details w"

definition auditJob :: "id \<Rightarrow> id option \<Rightarrow> string \<Rightarrow> id \<Rightarrow> obj \<Rightarrow> world \<Rightarrow> world" where
  "auditJob orgId actorId action resourceId details w =
     audit_row orgId actorId action ''job'' resourceId details w"

text \<open>One iteration of the loop of \<open>createBatch\<close> over the instances.\<close>

definition create_batch_job ::
    "id \<Rightarrow> id option \<Rightarrow> id \<Rightarrow> string \<Rightarrow> obj option \<Rightarrow> ms \<Rightarrow> world \<Rightarrow> serverInstance \<Rightarrow> world" where
  "create_batch_job orgId userId batchId jobType payload now w si =
     (let (jobId, w1) = create_job orgId (Some batchId) (Some (si_id si)) jobType
            (opt_or payload []) userId now w;
          (runId, w2) = create_run jobId (si_hostId si) now w1;
          w3 = enqueue orgId
            \<lparr>q_jobId = jobId, q_jobRunId = runId, q_hostId = si_hostId si,
             q_serverInstanceId = Some (si_id si), q_type = jobType, q_payload = opt_or payload [],
             q_scheduleId = None, q_attempts = JOB_ATTEMPTS, q_backoff = Fixed 2000\<rparr> w2
      in auditJob orgId userId ''job_created'' jobId
           [(''batchId'', Str batchId), (''serverInstanceId'', Str (si_id si))] w3)"

definition createBatch ::
    "id \<Rightarrow> id option \<Rightarrow> string \<Rightarrow> id list \<Rightarrow> obj option \<Rightarrow> ms \<Rightarrow> world \<Rightarrow> obj res \<times> world" where
  "createBatch orgId userId type serverInstanceIds payload now w =
     (let instances = filter (\<lambda>s. si_id s \<in> set serverInstanceIds \<and> si_orgId s = orgId) (serverInstances w)
      in if length instances \<noteq> length serverInstanceIds then
           (let found = map si_id instances;
                missing = filter (\<lambda>i. i \<notin> set found) serverInstanceIds
            in (Inl (BadRequestException
                  (''Server instance(s) not found or not in org: '' @ join '', '' missing)), w))
         else
           (let jobType = opt_or (BATCH_TYPE_TO_JOB_TYPE type) type;
                n = int (length instances);
                batch = \<lparr>b_id = next_id w, b_orgId = orgId, b_type = type, b_status = ''running'',
                  b_totalCount = n, b_pendingCount = n, b_runningCount = 0, b_successCount = 0,
                  b_failedCount = 0, b_cancelledCount = 0, b_createdById = userId,
                  b_createdAt = now, b_completedAt = None\<rparr>;
                w1 = (draw w)\<lparr>jobBatches := jobBatches w @ [batch]\<rparr>;
                w2 = foldl (create_batch_job orgId userId (b_id batch) jobType payload now) w1 instances;
                w3 = audit orgId userId ''batch_created'' (b_id batch)
                  [(''type'', Str (b_type batch)), (''serverCount'', JInt (b_totalCount batch))] w2
            in (Inr (toSummary batch), w3)))"

definition find_org_batch :: "id \<Rightarrow> id \<Rightarrow> world \<Rightarrow> jobBatch option" where
  "find_org_batch batchId orgId w =
     List.find (\<lambda>b. b_id b = batchId \<and> b_orgId b = orgId) (jobBatches w)"

definition listBatches :: "id \<Rightarrow> nat \<Rightarrow> world \<Rightarrow> obj list" where
  "listBatches orgId limit w =
     map toSummary (take limit (orderDesc b_createdAt (filter (\<lambda>b. b_orgId b = orgId) (jobBatches w))))"

definition getBatch :: "id \<Rightarrow> id \<Rightarrow> world \<Rightarrow> obj res" where
  "getBatch orgId batchId w =
     (case find_org_batch batchId orgId w of
        None \<Rightarrow> Inl (NotFoundException ''Batch not found'') | Some b \<Rightarrow> Inr (toSummary b))"

text \<open>\<open>jobRuns: {orderBy: {createdAt: 'desc'}, take: 1}\<close>.\<close>

definition latest_run :: "id \<Rightarrow> world \<Rightarrow> jobRun option" where
  "latest_run jobId w =
     List.find (\<lambda>r. jr_jobId r = jobId) (orderDesc jr_createdAt (jobRuns w))"

definition batch_job_dto :: "world \<Rightarrow> job \<Rightarrow> obj" where
  "batch_job_dto w j =
     (let run = latest_run (j_id j) w in
      [(''jobId'', Str (j_id j)), (''serverInstanceId'', Str (opt_or (j_serverInstanceId j) [])),
       (''serverName'', case Option.bind (j_serverInstanceId j)
            (\<lambda>i. findUnique si_id i (serverInstances w)) of
          None \<Rightarrow> Undefined | Some si \<Rightarrow> Str (si_name si)),
       (''runId'', Str (case run of None \<Rightarrow> [] | Some r \<Rightarrow> jr_id r)),
       (''runStatus'', Str (case run of None \<Rightarrow> ''pending'' | Some r \<Rightarrow> status_str (jr_status r))),
       (''runFinishedAt'', opt_time (Option.bind run jr_finishedAt)),
       (''errorMessage'', case run of None \<Rightarrow> Undefined | Some r \<Rightarrow> get (jr_result r) ''errorMessage'')])"

definition getBatchJobs :: "id \<Rightarrow> id \<Rightarrow> world \<Rightarrow> obj list res" where
  "getBatchJobs orgId batchId w =
     (case find_org_batch batchId orgId w of
        None \<Rightarrow> Inl (NotFoundException ''Batch not found'')
      | Some b \<Rightarrow> Inr (map (batch_job_dto w) (filter (\<lambda>j. j_batchId j = Some batchId) (jobs w))))"

text \<open>The batch of a job, \<open>include: {batch: true}\<close>.\<close>

definition job_with_batch :: "id \<Rightarrow> id \<Rightarrow> world \<Rightarrow> jobBatch option" where
  "job_with_batch orgId jobId w =
     (case List.find (\<lambda>j. j_id j = jobId \<and> j_orgId j = orgId) (jobs w) of
        None \<Rightarrow> None
      | Some j \<Rightarrow> (case j_batchId j of None \<Rightarrow> None | Some b \<Rightarrow> find_batch b w))"

definition complete_counts :: "run_status \<Rightarrow> run_status \<Rightarrow> jobBatch \<Rightarrow> jobBatch" where
  "complete_counts runStatus priorRunStatus b =
     (let b1 = (if runStatus = Success then b\<lparr>b_successCount := b_successCount b + 1\<rparr>
                else if runStatus = Failed then b\<lparr>b_failedCount := b_failedCount b + 1\<rparr>
                else b\<lparr>b_cancelledCount := b_cancelledCount b + 1\<rparr>)
      in if priorRunStatus = Running then b1\<lparr>b_runningCount := b_runningCount b1 - 1\<rparr>
         else b1\<lparr>b_pendingCount := b_pendingCount b1 - 1\<rparr>)"

definition final_status :: "ms \<Rightarrow> jobBatch \<Rightarrow> jobBatch" where
  "final_status now b =
     (if b_pendingCount b \<le> 0 \<and> b_runningCount b \<le> 0
      then b\<lparr>b_status := (if b_failedCount b > 0 then ''completed_with_failures'' else ''completed''),
              b_completedAt := Some now\<rparr>
      else b)"

definition recordJobRunCompleted ::
    "id \<Rightarrow> id \<Rightarrow> run_status \<Rightarrow> run_status \<Rightarrow> ms \<Rightarrow> world \<Rightarrow> world" where
  "recordJobRunCompleted orgId jobId runStatus priorRunStatus now w =
     (case job_with_batch orgId jobId w of
        None \<Rightarrow> w
      | Some batch \<Rightarrow>
          (let final = final_status now (complete_counts runStatus priorRunStatus batch);
               w1 = set_batch (b_id batch)
                      (\<lambda>b. final_status now (complete_counts runStatus priorRunStatus b)) w
           in emitProgress orgId final (Some (jobId, status_str runStatus)) w1))"

definition recordJobRunStarted :: "id \<Rightarrow> id \<Rightarrow> world \<Rightarrow> world" where
  "recordJobRunStarted orgId jobId w =
     (case job_with_batch orgId jobId w of
        None \<Rightarrow> w
      | Some batch \<Rightarrow>
          (let w1 = set_batch (b_id batch)
                 (\<lambda>b. b\<lparr>b_pendingCount := b_pendingCount b - 1, b_runningCount := b_runningCount b + 1\<rparr>) w
           in case find_batch (b_id batch) w1 of
                None \<Rightarrow> w1
              | Some updated \<Rightarrow> emitProgress orgId updated (Some (jobId, ''running'')) w1))"

text \<open>One iteration of the loop of \<open>cancelBatch\<close>: \<open>run\<close> comes from the query made before
  the loop. Removing the queue entry may fail when a worker holds it.\<close>

definition cancel_run ::
    "(queueJob \<Rightarrow> bool) \<Rightarrow> id \<Rightarrow> ms \<Rightarrow> world \<times> int \<Rightarrow> jobRun option \<Rightarrow> world \<times> int" where
  "cancel_run removable orgId now s run =
     (case (s, run) of
        ((w, cancelled), Some r) \<Rightarrow>
          if jr_status r = Pending then
            (let w1 = set_run (jr_id r) (\<lambda>x. x\<lparr>jr_status := Cancelled, jr_finishedAt := Some now\<rparr>) w;
                 w2 = (case List.find (\<lambda>e. q_jobRunId e = jr_id r) (orgQueues w1 orgId) of
                         None \<Rightarrow> w1
                       | Some e \<Rightarrow> if removable e then remove_entry orgId (jr_id r) w1 else w1)
             in (w2, cancelled + 1))
          else (w, cancelled)
      | (_, None) \<Rightarrow> s)"

definition cancelBatch ::
    "(queueJob \<Rightarrow> bool) \<Rightarrow> id \<Rightarrow> id \<Rightarrow> ms \<Rightarrow> world \<Rightarrow> obj res \<times> world" where
  "cancelBatch removable orgId batchId now w =
     (case find_org_batch batchId orgId w of
        None \<Rightarrow> (Inl (NotFoundException ''Batch not found''), w)
      | Some batch \<Rightarrow>
          if b_status batch \<noteq> ''running'' then (Inl (BadRequestException ''Batch is not running''), w)
          else
            (let runs = map (\<lambda>j. latest_run (j_id j) w)
                   (filter (\<lambda>j. j_batchId j = Some batchId) (jobs w));
                 (w1, cancelled) = foldl (cancel_run removable orgId now) (w, 0) runs;
                 upd = (\<lambda>b. b\<lparr>b_status := ''cancelled'', b_pendingCount := b_pendingCount b - cancelled,
                       b_cancelledCount := b_cancelledCount b + cancelled, b_completedAt := Some now\<rparr>);
                 w2 = set_batch batchId upd w1;
                 w3 = audit orgId None ''batch_cancelled'' batchId
                   [(''remainingPending'', JInt (b_pendingCount batch - cancelled)),
                    (''cancelledCount'', JInt cancelled)] w2
             in (Inr (toSummary (upd batch)), emitProgress orgId (upd batch) None w3)))"

section \<open>Counting the runs of a batch\<close>

definition runs_of :: "world \<Rightarrow> id \<Rightarrow> run_status \<Rightarrow> int" where
  "runs_of w bid st = countRows (\<lambda>r. jr_status r = st \<and> run_batch w r = Some bid) (jobRuns w)"

text \<open>The counters of a batch against its runs. Releasing a stale run fails it without
  touching the batch, so only the sum of the running and failed counters is exact.\<close>

definition counters_ok :: "world \<Rightarrow> jobBatch \<Rightarrow> bool" where
  "counters_ok w b \<longleftrightarrow>
     b_pendingCount b = runs_of w (b_id b) Pending \<and>
     b_successCount b = runs_of w (b_id b) Success \<and>
     b_cancelledCount b = runs_of w (b_id b) Cancelled \<and>
     b_runningCount b + b_failedCount b = runs_of w (b_id b) Running + runs_of w (b_id b) Failed \<and>
     runs_of w (b_id b) Running \<le> b_runningCount b \<and> 0 \<le> b_failedCount b \<and>
     b_totalCount b = b_pendingCount b + b_runningCount b + b_successCount b +
       b_failedCount b + b_cancelledCount b"

definition accounted :: "world \<Rightarrow> bool" where
  "accounted w \<longleftrightarrow> list_all (counters_ok w) (jobBatches w)"

text \<open>The same when some runs of the batches are gone: \<open>lost bid st\<close> of them had that batch and that
  status. The tally has entries for existing batches only.\<close>

type_synonym tally = "id \<Rightarrow> run_status \<Rightarrow> int"

definition counters_with :: "tally \<Rightarrow> world \<Rightarrow> jobBatch \<Rightarrow> bool" where
  "counters_with lost w b \<longleftrightarrow>
     b_pendingCount b = runs_of w (b_id b) Pending + lost (b_id b) Pending \<and>
     b_successCount b = runs_of w (b_id b) Success + lost (b_id b) Success \<and>
     b_cancelledCount b = runs_of w (b_id b) Cancelled + lost (b_id b) Cancelled \<and>
     b_runningCount b + b_failedCount b =
       runs_of w (b_id b) Running + lost (b_id b) Running + (runs_of w (b_id b) Failed + lost (b_id b) Failed) \<and>
     runs_of w (b_id b) Running + lost (b_id b) Running \<le> b_runningCount b \<and> 0 \<le> b_failedCount b \<and>
     b_totalCount b = b_pendingCount b + b_runningCount b + b_successCount b + b_failedCount b + b_cancelledCount b"

definition accounted_with :: "tally \<Rightarrow> world \<Rightarrow> bool" where
  "accounted_with lost w \<longleftrightarrow>
     (\<forall>k st. lost k st \<noteq> 0 \<longrightarrow> k \<in> b_id ` set (jobBatches w)) \<and> list_all (counters_with lost w) (jobBatches w)"

definition none_lost :: tally where "none_lost = (\<lambda>_ _. 0)"

lemma accounted_none: "accounted w = accounted_with none_lost w"
proof -
  have "counters_ok w = counters_with none_lost w" by (simp add: fun_eq_iff counters_ok_def counters_with_def none_lost_def)
  then show ?thesis by (simp add: accounted_def accounted_with_def none_lost_def)
qed

lemma counters_with_cong:
  "(\<And>st. runs_of w' (b_id b) st = runs_of w (b_id b) st) \<Longrightarrow> counters_with lost w' b = counters_with lost w b"
  by (simp add: counters_with_def)

lemma run_batch_jobs: "jobs w' = jobs w \<Longrightarrow> run_batch w' r = run_batch w r"
  by (simp add: run_batch_def find_job_def)

lemma runs_of_jobs:
  "jobs w' = jobs w \<Longrightarrow> jobRuns w' = jobRuns w \<Longrightarrow> runs_of w' bid st = runs_of w bid st"
  by (simp add: runs_of_def run_batch_def find_job_def)

lemma find_job_wf:
  "store_wf w \<Longrightarrow> j \<in> set (jobs w) \<Longrightarrow> find_job (j_id j) w = Some j"
  unfolding find_job_def by (intro findUnique_unique store_wfD)

lemma find_run_wf: "store_wf w \<Longrightarrow> r \<in> set (jobRuns w) \<Longrightarrow> find_run (jr_id r) w = Some r"
  unfolding find_run_def by (intro findUnique_unique store_wfD)

lemma find_batch_wf: "store_wf w \<Longrightarrow> b \<in> set (jobBatches w) \<Longrightarrow> find_batch (b_id b) w = Some b"
  unfolding find_batch_def by (intro findUnique_unique store_wfD)

lemma find_runD: "find_run i w = Some r \<Longrightarrow> r \<in> set (jobRuns w) \<and> jr_id r = i"
  unfolding find_run_def by (rule findUnique_Some)

lemma find_jobD: "find_job i w = Some j \<Longrightarrow> j \<in> set (jobs w) \<and> j_id j = i"
  unfolding find_job_def by (rule findUnique_Some)

lemma find_batchD: "find_batch i w = Some b \<Longrightarrow> b \<in> set (jobBatches w) \<and> b_id b = i"
  unfolding find_batch_def by (rule findUnique_Some)

lemma run_job:
  assumes "store_wf w" and "r \<in> set (jobRuns w)"
  obtains j where "j \<in> set (jobs w)" "find_job (jr_jobId r) w = Some j" "j_id j = jr_jobId r"
proof -
  from assms have "jr_jobId r \<in> j_id ` set (jobs w)" by (auto simp: store_wf_def)
  then obtain j where "j \<in> set (jobs w)" "j_id j = jr_jobId r" by force
  with find_job_wf [OF assms(1)] that show ?thesis by metis
qed

lemma run_batch_job: "find_job (jr_jobId r) w = Some j \<Longrightarrow> run_batch w r = j_batchId j"
  by (simp add: run_batch_def)

lemma runs_of_ext:
  assumes "store_wf w" and "jobs_ext w w'"
  shows "runs_of w' bid st = runs_of w bid st"
proof -
  from assms(2) obtain js rs where e: "jobs w' = jobs w @ js" "jobRuns w' = jobRuns w @ rs"
      "map jr_jobId rs = map j_id js" "list_all (\<lambda>j. j_batchId j = None) js"
    unfolding jobs_ext_def by blast
  note wf' = jobs_ext_wf [OF assms]
  have old: "run_batch w' r = run_batch w r" if "r \<in> set (jobRuns w)" for r
    using run_job [OF assms(1) that] jobs_ext_find_job [OF assms(2)] run_batch_job by metis
  have new: "run_batch w' r = None" if "r \<in> set rs" for r
  proof -
    from that e(3) have "jr_jobId r \<in> j_id ` set js" by (metis image_eqI list.set_map)
    then obtain j where "j \<in> set js" "j_id j = jr_jobId r" by force
    with e find_job_wf [OF wf'] run_batch_job [of r w' j] show ?thesis
      by (auto simp: list_all_iff) force
  qed
  have "countRows (\<lambda>r. jr_status r = st \<and> run_batch w' r = Some bid) rs = 0"
    using new by (auto simp: countRows_0_iff)
  moreover have "countRows (\<lambda>r. jr_status r = st \<and> run_batch w' r = Some bid) (jobRuns w) =
      countRows (\<lambda>r. jr_status r = st \<and> run_batch w r = Some bid) (jobRuns w)"
    using old by (intro countRows_cong) simp
  ultimately show ?thesis by (simp add: runs_of_def e)
qed

lemma jobs_ext_accounted: "store_wf w \<Longrightarrow> accounted_with lost w \<Longrightarrow> jobs_ext w w' \<Longrightarrow> accounted_with lost w'"
  using runs_of_ext [of w w'] counters_with_cong [of w' _ w]
  unfolding accounted_with_def jobs_ext_def by (auto simp: list_all_iff)

lemma set_run_wf:
  "(\<And>r. jr_id (f r) = jr_id r) \<Longrightarrow> (\<And>r. jr_jobId (f r) = jr_jobId r) \<Longrightarrow>
     store_wf w \<Longrightarrow> store_wf (set_run i f w)"
  unfolding store_wf_def
  by (simp add: set_run_def map_updateRow image_updateRow drawn_def [abs_def])

lemma set_batch_wf:
  "(\<And>b. b_id (f b) = b_id b) \<Longrightarrow> store_wf w \<Longrightarrow> store_wf (set_batch i f w)"
  unfolding store_wf_def
  by (simp add: set_batch_def map_updateRow image_updateRow drawn_def [abs_def])

lemma set_run_frame [frame, simp]:
  "jobs (set_run i f w) = jobs w" "jobBatches (set_run i f w) = jobBatches w"
  "idgen (set_run i f w) = idgen w" "idctr (set_run i f w) = idctr w"
  "orgQueues (set_run i f w) = orgQueues w" "find_job k (set_run i f w) = find_job k w"
  "find_batch k (set_run i f w) = find_batch k w" "players (set_run i f w) = players w"
  by (simp_all add: set_run_def find_job_def find_batch_def)

lemma set_batch_frame [frame, simp]:
  "jobs (set_batch i f w) = jobs w" "jobRuns (set_batch i f w) = jobRuns w"
  "idgen (set_batch i f w) = idgen w" "idctr (set_batch i f w) = idctr w"
  "orgQueues (set_batch i f w) = orgQueues w"
  by (simp_all add: set_batch_def)

lemma runs_of_set_run:
  assumes "\<And>r. jr_id (f r) = jr_id r" "\<And>r. jr_jobId (f r) = jr_jobId r"
    and "store_wf w" and "find_run i w = Some r"
  shows "runs_of (set_run i f w) bid st = runs_of w bid st +
    (if run_batch w r = Some bid
     then (if jr_status (f r) = st then 1 else 0) - (if jr_status r = st then 1 else 0) else 0)"
proof -
  have rb: "run_batch (set_run i f w) x = run_batch w x" for x by (rule run_batch_jobs) simp
  have "run_batch w (f r) = run_batch w r" using assms(2) by (simp add: run_batch_def)
  with countRows_updateRow [OF store_wfD(3) [OF assms(3)], of i r
      "\<lambda>r. jr_status r = st \<and> run_batch w r = Some bid" f] assms(4)
  show ?thesis by (simp add: runs_of_def rb) (simp add: set_run_def find_run_def)
qed

lemma set_batch_accounted:
  assumes "\<And>b. b_id (f b) = b_id b" and "store_wf w" and "\<And>k st. lost k st \<noteq> 0 \<Longrightarrow> k \<in> b_id ` set (jobBatches w)"
    and "\<And>b. b \<in> set (jobBatches w) \<Longrightarrow> b_id b \<noteq> i \<Longrightarrow> counters_with lost w b"
    and "\<And>b. b \<in> set (jobBatches w) \<Longrightarrow> b_id b = i \<Longrightarrow> counters_with lost w (f b)"
  shows "accounted_with lost (set_batch i f w)"
proof -
  have "counters_with lost (set_batch i f w) b = counters_with lost w b" for b
    by (intro counters_with_cong runs_of_jobs) simp_all
  moreover have "b_id ` set (jobBatches (set_batch i f w)) = b_id ` set (jobBatches w)"
    using assms(1) by (simp add: set_batch_def image_updateRow)
  ultimately show ?thesis
    using assms(3-5) unfolding accounted_with_def list_all_iff
    by (auto simp: set_batch_def dest!: in_updateRow)
qed

section \<open>Starting and finishing a run\<close>

lemma emitProgress_frame [frame, simp]:
  "jobs (emitProgress o' b u w) = jobs w" "jobRuns (emitProgress o' b u w) = jobRuns w"
  "jobBatches (emitProgress o' b u w) = jobBatches w" "idgen (emitProgress o' b u w) = idgen w"
  "idctr (emitProgress o' b u w) = idctr w" "orgQueues (emitProgress o' b u w) = orgQueues w"
  by (simp_all add: emitProgress_def)

lemma audit_row_frame [frame, simp]:
  "jobs (audit_row o' a c t i d w) = jobs w" "jobRuns (audit_row o' a c t i d w) = jobRuns w"
  "jobBatches (audit_row o' a c t i d w) = jobBatches w" "idgen (audit_row o' a c t i d w) = idgen w"
  "idctr (audit_row o' a c t i d w) = idctr w" "orgQueues (audit_row o' a c t i d w) = orgQueues w"
  by (simp_all add: audit_row_def)

lemma same_jobs_inv:
  "same_jobs w w' \<Longrightarrow> store_wf w \<Longrightarrow> store_wf w'"
  "same_jobs w w' \<Longrightarrow> store_wf w \<Longrightarrow> accounted_with lost w \<Longrightarrow> accounted_with lost w'"
  using same_jobs_ext jobs_ext_wf jobs_ext_accounted by blast+

lemma job_with_batch_eq:
  assumes "store_wf w" and "find_job i w = Some j"
  shows "job_with_batch (j_orgId j) i w =
    (case j_batchId j of None \<Rightarrow> None | Some b \<Rightarrow> find_batch b w)"
proof -
  have "List.find (\<lambda>x. j_id x = i \<and> j_orgId x = j_orgId j) (jobs w) = Some j"
  proof (cases "List.find (\<lambda>x. j_id x = i \<and> j_orgId x = j_orgId j) (jobs w)")
    case None
    with find_jobD [OF assms(2)] show ?thesis by (auto simp: find_None_set)
  next
    case (Some k)
    then have "k \<in> set (jobs w)" "j_id k = i" using find_Some_set by fastforce+
    with find_job_wf [OF assms(1)] assms(2) have "k = j" by force
    with Some show ?thesis by simp
  qed
  then show ?thesis by (simp add: job_with_batch_def)
qed

lemma job_batch_exists:
  assumes "store_wf w" and "find_job i w = Some j" and "j_batchId j = Some b"
  obtains B where "find_batch b w = Some B"
proof -
  from assms find_jobD [OF assms(2)] have "b \<in> b_id ` set (jobBatches w)"
    by (auto simp: store_wf_def)
  then obtain B where "B \<in> set (jobBatches w)" "b_id B = b" by force
  with find_batch_wf [OF assms(1)] that show ?thesis by metis
qed

lemma counts_id [simp]:
  "b_id (complete_counts s p b) = b_id b" "b_id (final_status now b) = b_id b"
  by (simp_all add: complete_counts_def final_status_def Let_def)

lemma counters_final [simp]: "counters_with lost w (final_status now b) = counters_with lost w b"
  by (simp add: counters_with_def final_status_def)

text \<open>The row update both recorders make.\<close>

lemma recordJobRunCompleted_set:
  assumes "store_wf w" and "find_job i w = Some j" and "j_batchId j = Some bid"
  shows "same_jobs (set_batch bid (\<lambda>b. final_status now (complete_counts s p b)) w)
    (recordJobRunCompleted (j_orgId j) i s p now w)"
proof -
  obtain B where B: "find_batch bid w = Some B" using job_batch_exists [OF assms] .
  with find_batchD have "b_id B = bid" by blast
  with B assms show ?thesis
    by (simp add: recordJobRunCompleted_def job_with_batch_eq same_jobs_def Let_def)
qed

lemma recordJobRunStarted_set:
  assumes "store_wf w" and "find_job i w = Some j" and "j_batchId j = Some bid"
  shows "same_jobs (set_batch bid (\<lambda>b. b\<lparr>b_pendingCount := b_pendingCount b - 1,
      b_runningCount := b_runningCount b + 1\<rparr>) w) (recordJobRunStarted (j_orgId j) i w)"
proof -
  obtain B where B: "find_batch bid w = Some B" using job_batch_exists [OF assms] .
  with find_batchD have "b_id B = bid" by blast
  with B assms show ?thesis
    by (simp add: recordJobRunStarted_def job_with_batch_eq same_jobs_def Let_def split: option.split)
qed

lemma recordJobRun_none:
  "store_wf w \<Longrightarrow> find_job i w = Some j \<Longrightarrow> j_batchId j = None \<Longrightarrow>
     recordJobRunCompleted (j_orgId j) i s p now w = w \<and> recordJobRunStarted (j_orgId j) i w = w"
  by (simp add: recordJobRunCompleted_def recordJobRunStarted_def job_with_batch_eq)

lemma complete_counters:
  assumes "counters_with lost w b" and "s \<in> {Success, Failed}"
    and "\<And>st. runs_of w' (b_id b) st = runs_of w (b_id b) st +
      ((if st = s then 1 else 0) - (if st = Running then 1 else 0))"
  shows "counters_with lost w' (complete_counts s Running b)"
  using assms by (auto simp: counters_with_def complete_counts_def)

text \<open>Moving one run between two counters of its batch.\<close>

lemma move_accounted:
  assumes wf2: "store_wf w2" and acc: "accounted_with lost w" and B2: "jobBatches w2 = jobBatches w"
    and cnt: "\<And>k st. runs_of w2 k st = runs_of w k st + (if k = bid then d st else 0)"
    and g: "\<And>b. b_id (g b) = b_id b"
    and step: "\<And>b. counters_with lost w b \<Longrightarrow> b_id b = bid \<Longrightarrow> counters_with lost w2 (g b)"
  shows "store_wf (set_batch bid g w2) \<and> accounted_with lost (set_batch bid g w2)"
proof (intro conjI set_batch_accounted [OF g wf2] set_batch_wf g wf2)
  show "k \<in> b_id ` set (jobBatches w2)" if "lost k st \<noteq> 0" for k st
    using that acc B2 by (auto simp: accounted_with_def)
next
  fix b assume b: "b \<in> set (jobBatches w2)"
  then have ok: "counters_with lost w b" using acc B2 by (simp add: accounted_with_def list_all_iff)
  { assume "b_id b \<noteq> bid" with ok cnt show "counters_with lost w2 b"
      using counters_with_cong [of w2 b w] by simp }
  { assume "b_id b = bid" with ok show "counters_with lost w2 (g b)" by (rule step) }
qed

lemma unmoved_accounted:
  assumes "accounted_with lost w" and "jobBatches w2 = jobBatches w"
    and "\<And>k st. runs_of w2 k st = runs_of w k st"
  shows "accounted_with lost w2"
  using assms counters_with_cong [of w2 _ w] by (auto simp: accounted_with_def list_all_iff)

text \<open>A running run finishes: its row changes, other work appends jobs, and then the batch is
  told. The counters agree again at the end.\<close>

lemma finish_accounted:
  fixes now :: ms
  assumes wf: "store_wf w" and acc: "accounted_with lost w"
    and r: "find_run i w = Some r" "jr_status r = Running"
    and f: "\<And>x. jr_id (f x) = jr_id x" "\<And>x. jr_jobId (f x) = jr_jobId x" "\<And>x. jr_status (f x) = s"
    and s: "s \<in> {Success, Failed}"
    and ext: "jobs_ext (set_run i f w) w2" and j: "find_job (jr_jobId r) w = Some j"
  defines "w3 \<equiv> recordJobRunCompleted (j_orgId j) (jr_jobId r) s Running now w2"
  shows "store_wf w3 \<and> accounted_with lost w3"
proof -
  note wf1 = set_run_wf [OF f(1,2) wf, of i]
  note wf2 = jobs_ext_wf [OF wf1 ext]
  have j2: "find_job (jr_jobId r) w2 = Some j" using jobs_ext_find_job [OF ext] j by simp
  have B2: "jobBatches w2 = jobBatches w" using ext by (simp add: jobs_ext_def)
  have rb: "run_batch w r = j_batchId j" using j by (rule run_batch_job)
  have cnt: "runs_of w2 bid st = runs_of w bid st + (if run_batch w r = Some bid
      then (if st = s then 1 else 0) - (if st = Running then 1 else 0) else 0)" for bid st
    using runs_of_ext [OF wf1 ext] runs_of_set_run [OF f(1,2) wf r(1)] f(3) r(2) by auto
  show ?thesis
  proof (cases "j_batchId j")
    case None
    then have "w3 = w2" using recordJobRun_none [OF wf2 j2] w3_def by blast
    with wf2 unmoved_accounted [OF acc B2] cnt None rb show ?thesis by simp
  next
    case (Some bid)
    note sj = recordJobRunCompleted_set [OF wf2 j2 Some, of now s Running, folded w3_def]
    let ?w3 = "set_batch bid (\<lambda>b. final_status now (complete_counts s Running b)) w2"
    have "store_wf ?w3 \<and> accounted_with lost ?w3"
      using cnt rb Some s
      by (intro move_accounted [OF wf2 acc B2, where
            d = "\<lambda>st. (if st = s then 1 else 0) - (if st = Running then 1 else 0)"])
        (auto intro!: complete_counters [of _ w])
    with same_jobs_inv [OF sj] show ?thesis by blast
  qed
qed

lemma start_accounted:
  assumes wf: "store_wf w" and acc: "accounted_with lost w"
    and r: "find_run i w = Some r" "jr_status r = Pending"
    and f: "\<And>x. jr_id (f x) = jr_id x" "\<And>x. jr_jobId (f x) = jr_jobId x" "\<And>x. jr_status (f x) = Running"
    and j: "find_job (jr_jobId r) w = Some j"
  defines "w3 \<equiv> recordJobRunStarted (j_orgId j) (jr_jobId r) (set_run i f w)"
  shows "store_wf w3 \<and> accounted_with lost w3"
proof -
  let ?w2 = "set_run i f w"
  note wf2 = set_run_wf [OF f(1,2) wf, of i]
  have j2: "find_job (jr_jobId r) ?w2 = Some j" using j by simp
  have rb: "run_batch w r = j_batchId j" using j by (rule run_batch_job)
  have cnt: "runs_of ?w2 bid st = runs_of w bid st + (if run_batch w r = Some bid
      then (if st = Running then 1 else 0) - (if st = Pending then 1 else 0) else 0)" for bid st
    using runs_of_set_run [OF f(1,2) wf r(1)] f(3) r(2) by auto
  have B2: "jobBatches ?w2 = jobBatches w" by simp
  show ?thesis
  proof (cases "j_batchId j")
    case None
    then have "w3 = ?w2" using recordJobRun_none [OF wf2 j2] w3_def by blast
    with wf2 unmoved_accounted [OF acc B2] cnt None rb show ?thesis by simp
  next
    case (Some bid)
    note sj = recordJobRunStarted_set [OF wf2 j2 Some, folded w3_def]
    let ?w3 = "set_batch bid (\<lambda>b. b\<lparr>b_pendingCount := b_pendingCount b - 1,
        b_runningCount := b_runningCount b + 1\<rparr>) ?w2"
    have "store_wf ?w3 \<and> accounted_with lost ?w3"
      using cnt rb Some
      by (intro move_accounted [OF wf2 acc B2, where
            d = "\<lambda>st. (if st = Running then 1 else 0) - (if st = Pending then 1 else 0)"])
        (auto simp: counters_with_def)
    with same_jobs_inv [OF sj] show ?thesis by blast
  qed
qed

section \<open>Creating a batch\<close>

lemma enqueue_jobs [simp]:
  "jobs (enqueue o' q w) = jobs w" "jobRuns (enqueue o' q w) = jobRuns w"
  "jobBatches (enqueue o' q w) = jobBatches w" "idgen (enqueue o' q w) = idgen w"
  "idctr (enqueue o' q w) = idctr w"
  by (simp_all add: frame)

lemma create_batch_job_tables:
  assumes w'_def: "w' = create_batch_job orgId userId bid ty p now w si"
  obtains J R where "jobs w' = jobs w @ [J]" "jobRuns w' = jobRuns w @ [R]"
    "jobBatches w' = jobBatches w" "idgen w' = idgen w" "idctr w' = Suc (Suc (idctr w))"
    "j_id J = next_id w" "jr_id R = idgen w (Suc (idctr w))" "jr_jobId R = next_id w"
    "j_batchId J = Some bid" "jr_status R = Pending" "jr_hostId R = si_hostId si"
    "j_serverInstanceId J = Some (si_id si)" "j_type J = ty" "j_orgId J = orgId"
  by (rule that [of "\<lparr>j_id = next_id w, j_orgId = orgId, j_batchId = Some bid,
        j_serverInstanceId = Some (si_id si), j_type = ty, j_payload = opt_or p [],
        j_createdById = userId, j_createdAt = now\<rparr>"
      "\<lparr>jr_id = idgen w (Suc (idctr w)), jr_jobId = next_id w, jr_hostId = si_hostId si,
        jr_status = Pending, jr_startedAt = None, jr_finishedAt = None, jr_result = [],
        jr_createdAt = now\<rparr>"])
    (simp_all add: w'_def create_batch_job_def create_job_def create_run_def auditJob_def
      next_id_def draw_def)

lemma drawn_Suc2: "idgen w' = idgen w \<Longrightarrow> idctr w' = Suc (Suc (idctr w)) \<Longrightarrow>
    drawn w' i \<longleftrightarrow> drawn w i \<or> i = next_id w \<or> i = idgen w (Suc (idctr w))"
  by (auto simp: drawn_def next_id_def less_Suc_eq)

lemma run_batch_append:
  assumes "store_wf w" and "jobs w' = jobs w @ js" and "r \<in> set (jobRuns w)"
  shows "run_batch w' r = run_batch w r"
  using run_job [OF assms(1,3)] find_job_append [OF _ assms(2)] run_batch_job by metis

lemma create_batch_job_step:
  assumes wf: "store_wf w" and bid: "bid \<in> b_id ` set (jobBatches w)"
    and w'_def: "w' = create_batch_job orgId userId bid ty p now w si"
  shows "store_wf w'" "jobBatches w' = jobBatches w" "runs_le w w'" "runs_fresh w w'"
    "runs_of w' k st = runs_of w k st + (if k = bid \<and> st = Pending then 1 else 0)"
proof -
  from create_batch_job_tables [OF w'_def] obtain J R where e: "jobs w' = jobs w @ [J]"
    "jobRuns w' = jobRuns w @ [R]" "jobBatches w' = jobBatches w" "idgen w' = idgen w"
    "idctr w' = Suc (Suc (idctr w))" "j_id J = next_id w" "jr_id R = idgen w (Suc (idctr w))"
    "jr_jobId R = next_id w" "j_batchId J = Some bid" "jr_status R = Pending"
    by blast
  have inj: "inj (idgen w)" using wf by (rule store_wfD)
  have f1: "\<not> drawn w (next_id w)" using inj by (rule next_id_fresh)
  have f2: "\<not> drawn w (idgen w (Suc (idctr w)))"
    using inj by (auto simp: drawn_def dest: injD)
  have J: "next_id w \<notin> j_id ` set (jobs w)"
    using wf f1 by (auto simp: store_wf_def list_all_iff)
  moreover have "idgen w (Suc (idctr w)) \<notin> jr_id ` set (jobRuns w)"
    using wf f2 by (auto simp: store_wf_def list_all_iff)
  moreover have "next_id w \<notin> jr_jobId ` set (jobRuns w)"
    using wf J by (auto simp: store_wf_def)
  ultimately show "store_wf w'"
    using wf e bid drawn_Suc2 [OF e(4,5)] unfolding store_wf_def by (auto simp: list_all_iff)
  show "jobBatches w' = jobBatches w" by (rule e)
  show "runs_le w w'"
    unfolding runs_le_def using find_run_append [OF _ e(2)] run_le_refl by blast
  show "runs_fresh w w'" using e(2,4,5,7) f2 by (intro runs_freshI) auto
  have "findUnique j_id (next_id w) (jobs w) = None" using J by (simp add: findUnique_None)
  then have "find_job (next_id w) w' = Some J"
    using e by (simp add: find_job_def findUnique_append findUnique_Cons)
  then have "run_batch w' R = Some bid" using e by (simp add: run_batch_def)
  moreover have "countRows (\<lambda>r. jr_status r = st \<and> run_batch w' r = Some k) (jobRuns w) =
      countRows (\<lambda>r. jr_status r = st \<and> run_batch w r = Some k) (jobRuns w)"
    using run_batch_append [OF wf e(1)] by (intro countRows_cong) simp
  ultimately show "runs_of w' k st = runs_of w k st + (if k = bid \<and> st = Pending then 1 else 0)"
    using e by (auto simp: runs_of_def)
qed

lemma create_batch_jobs:
  assumes "store_wf w" and "bid \<in> b_id ` set (jobBatches w)"
    and w'_def: "w' = foldl (create_batch_job orgId userId bid ty p now) w sis"
  shows "store_wf w' \<and> jobBatches w' = jobBatches w \<and> runs_le w w' \<and> runs_fresh w w' \<and>
    (\<forall>k st. runs_of w' k st =
       runs_of w k st + (if k = bid \<and> st = Pending then int (length sis) else 0))"
  using assms(1,2) unfolding w'_def
proof (induction sis arbitrary: w)
  case (Cons si sis)
  let ?w1 = "create_batch_job orgId userId bid ty p now w si"
  note st = create_batch_job_step [OF Cons.prems refl, of orgId userId ty p now si]
  from Cons.IH [of ?w1] st(1,2) Cons.prems(2)
  have "store_wf (foldl (create_batch_job orgId userId bid ty p now) ?w1 sis) \<and>
    jobBatches (foldl (create_batch_job orgId userId bid ty p now) ?w1 sis) = jobBatches ?w1 \<and>
    runs_le ?w1 (foldl (create_batch_job orgId userId bid ty p now) ?w1 sis) \<and>
    runs_fresh ?w1 (foldl (create_batch_job orgId userId bid ty p now) ?w1 sis) \<and>
    (\<forall>k st. runs_of (foldl (create_batch_job orgId userId bid ty p now) ?w1 sis) k st =
       runs_of ?w1 k st + (if k = bid \<and> st = Pending then int (length sis) else 0))" by simp
  with st lifecycle.trans_R [OF st(3)] fresh_ids.trans_R [OF st(4)] show ?case by auto
qed (simp add: lifecycle.refl_R fresh_ids.refl_R)

definition add_batch :: "jobBatch \<Rightarrow> world \<Rightarrow> world" where
  "add_batch b w = (draw w)\<lparr>jobBatches := jobBatches w @ [b]\<rparr>"

lemma fresh_batch: "store_wf w \<Longrightarrow> next_id w \<notin> b_id ` set (jobBatches w)"
  using next_id_fresh [of w] by (auto simp: store_wf_def list_all_iff)

lemma add_batch_wf:
  assumes "store_wf w" and "b_id b = next_id w"
  shows "store_wf (add_batch b w)"
proof -
  have "next_id w \<notin> b_id ` set (jobBatches w)"
    using assms by (intro fresh_batch)
  moreover have "drawn (add_batch b w) i \<longleftrightarrow> drawn w i \<or> i = next_id w" for i
    using drawn_draw [of w i] by (simp add: add_batch_def drawn_def)
  ultimately show ?thesis
    using assms unfolding store_wf_def by (auto simp: add_batch_def list_all_iff)
qed

lemma runs_of_fresh: "store_wf w \<Longrightarrow> runs_of w (next_id w) st = 0"
proof -
  assume wf: "store_wf w"
  have "run_batch w r \<noteq> Some (next_id w)" if "r \<in> set (jobRuns w)" for r
  proof
    assume "run_batch w r = Some (next_id w)"
    with run_job [OF wf that] obtain j where "find_job (jr_jobId r) w = Some j"
      "j_batchId j = Some (next_id w)" by (metis run_batch_job)
    then have "next_id w \<in> b_id ` set (jobBatches w)"
      using wf find_jobD by (fastforce simp: store_wf_def)
    with fresh_batch [OF wf] show False by blast
  qed
  then show "runs_of w (next_id w) st = 0" by (auto simp: runs_of_def countRows_0_iff)
qed

lemma createBatch_cases:
  assumes "createBatch orgId userId ty ids p now w = (r, w')"
  obtains (error) e where "r = Inl (BadRequestException e)" "w' = w"
  | (created) sis B where "sis = filter (\<lambda>s. si_id s \<in> set ids \<and> si_orgId s = orgId) (serverInstances w)"
      "length sis = length ids" "r = Inr (toSummary B)"
      "B = \<lparr>b_id = next_id w, b_orgId = orgId, b_type = ty, b_status = ''running'',
         b_totalCount = int (length ids), b_pendingCount = int (length ids), b_runningCount = 0,
         b_successCount = 0, b_failedCount = 0, b_cancelledCount = 0, b_createdById = userId,
         b_createdAt = now, b_completedAt = None\<rparr>"
      "same_jobs (foldl (create_batch_job orgId userId (next_id w)
         (opt_or (BATCH_TYPE_TO_JOB_TYPE ty) ty) p now) (add_batch B w) sis) w'"
  using assms
  by (auto simp: createBatch_def Let_def same_jobs_def audit_def add_batch_def split: if_splits)

lemma createBatch_inv:
  assumes wf: "store_wf w" and acc: "accounted_with lost w"
    and c: "createBatch orgId userId ty ids p now w = (r, w')"
  shows "store_wf w' \<and> accounted_with lost w' \<and> runs_le w w' \<and> runs_fresh w w' \<and>
    (\<forall>x. r = Inr x \<longrightarrow> runs_of w' (next_id w) Pending = int (length ids))"
  using c
proof (cases rule: createBatch_cases)
  case error
  with wf acc show ?thesis by (simp add: lifecycle.refl_R fresh_ids.refl_R)
next
  case (created sis B)
  let ?w1 = "add_batch B w"
  let ?w2 = "foldl (create_batch_job orgId userId (next_id w)
      (opt_or (BATCH_TYPE_TO_JOB_TYPE ty) ty) p now) ?w1 sis"
  have wf1: "store_wf ?w1" using wf created(4) by (intro add_batch_wf) simp_all
  have tabs: "jobs ?w1 = jobs w" "jobRuns ?w1 = jobRuns w" "jobBatches ?w1 = jobBatches w @ [B]"
    by (simp_all add: add_batch_def)
  have bid: "next_id w \<in> b_id ` set (jobBatches ?w1)" using created(4) tabs by simp
  note w2 = create_batch_jobs [OF wf1 bid refl, of orgId userId _ p now sis]
  have cnt: "runs_of ?w2 k st = runs_of w k st +
      (if k = next_id w \<and> st = Pending then int (length ids) else 0)" for k st
    using w2 runs_of_jobs [OF tabs(1,2)] created(2) by simp
  have new: "runs_of w (next_id w) st = 0" for st using wf by (rule runs_of_fresh)
  have "counters_with lost ?w2 b" if "b \<in> set (jobBatches w)" for b
  proof -
    have "b_id b \<noteq> next_id w" using that fresh_batch [OF wf] by force
    with that acc cnt counters_with_cong [of ?w2 b w] show ?thesis
      by (simp add: accounted_with_def list_all_iff)
  qed
  moreover have "lost (next_id w) st = 0" for st
    using acc fresh_batch [OF wf] by (auto simp: accounted_with_def)
  then have "counters_with lost ?w2 B" using cnt new created(4) by (simp add: counters_with_def)
  ultimately have "accounted_with lost ?w2"
    using w2 tabs acc by (auto simp: accounted_with_def list_all_iff)
  moreover have "runs_le w ?w2"
    using w2 runs_le_same [OF tabs(2)] lifecycle.trans_R by blast
  ultimately have "store_wf w' \<and> accounted_with lost w'" "runs_le w ?w2"
    using w2 same_jobs_inv [OF created(5)] by blast+
  moreover have "runs_fresh w ?w1" by (rule runs_freshI) (simp_all add: add_batch_def draw_def)
  then have "runs_fresh w ?w2" using w2 fresh_ids.trans_R by blast
  then have "runs_fresh w w'"
    using w2 jobs_ext_fresh [OF store_wfD(1) same_jobs_ext [OF created(5)]] fresh_ids.trans_R by blast
  moreover have "runs_le ?w2 w'" "runs_of w' (next_id w) Pending = int (length ids)"
    using created(5) runs_le_same [of w' ?w2] cnt new runs_of_jobs [of w' ?w2 "next_id w" Pending]
    by (simp_all add: same_jobs_def)
  ultimately show ?thesis using lifecycle.trans_R by blast
qed

section \<open>Cancelling a batch\<close>

definition pending_of :: "jobRun option list \<Rightarrow> jobRun list" where
  "pending_of runs = filter (\<lambda>r. jr_status r = Pending) (List.map_filter (\<lambda>x. x) runs)"

definition cancel_row :: "ms \<Rightarrow> jobRun \<Rightarrow> jobRun" where
  "cancel_row now r = r\<lparr>jr_status := Cancelled, jr_finishedAt := Some now\<rparr>"

lemma cancel_row_sel [simp]:
  "jr_id (cancel_row now r) = jr_id r" "jr_jobId (cancel_row now r) = jr_jobId r"
  "jr_hostId (cancel_row now r) = jr_hostId r" "jr_status (cancel_row now r) = Cancelled"
  "cancel_row now (cancel_row now r) = cancel_row now r"
  by (simp_all add: cancel_row_def)

lemma updateMany_updateRow:
  assumes "\<And>x. key (f x) = key x" and "\<And>x. f (f x) = f x"
  shows "updateMany (\<lambda>x. key x \<in> K) f (updateRow key i f rs) = updateMany (\<lambda>x. key x \<in> insert i K) f rs"
  by (induction rs) (auto simp: assms)

lemma cancel_loop:
  "foldl (cancel_run removable orgId now) (w, c) runs = (w', c') \<Longrightarrow>
     c' = c + int (length (pending_of runs)) \<and>
     jobRuns w' = updateMany (\<lambda>x. jr_id x \<in> jr_id ` set (pending_of runs)) (cancel_row now) (jobRuns w) \<and>
     jobs w' = jobs w \<and> jobBatches w' = jobBatches w \<and> idgen w' = idgen w \<and> idctr w' = idctr w"
proof (induction runs arbitrary: w c)
  case (Cons x runs)
  show ?case
  proof (cases "\<exists>r. x = Some r \<and> jr_status r = Pending")
    case True
    then obtain r where x: "x = Some r" "jr_status r = Pending" by blast
    obtain w1 where s: "cancel_run removable orgId now (w, c) x = (w1, c + 1)"
      and w1: "jobRuns w1 = updateRow jr_id (jr_id r) (cancel_row now) (jobRuns w)"
        "jobs w1 = jobs w" "jobBatches w1 = jobBatches w" "idgen w1 = idgen w" "idctr w1 = idctr w"
      using x by (auto simp: cancel_run_def Let_def set_run_def remove_entry_def
          cancel_row_def [abs_def] split: option.split)
    from Cons.IH [of w1 "c + 1"] Cons.prems s w1 x show ?thesis
      by (simp add: pending_of_def map_filter_simps updateMany_updateRow)
  next
    case False
    then have "cancel_run removable orgId now (w, c) x = (w, c)"
      by (auto simp: cancel_run_def split: option.split)
    moreover have "pending_of (x # runs) = pending_of runs"
      using False by (cases x) (auto simp: pending_of_def map_filter_simps)
    ultimately show ?thesis using Cons by simp
  qed
qed (simp add: pending_of_def map_filter_simps updateMany_def)

lemma latest_run_eq:
  assumes "store_wf w"
  shows "latest_run i w = Some r \<longleftrightarrow> r \<in> set (jobRuns w) \<and> jr_jobId r = i"
proof
  assume "latest_run i w = Some r"
  then show "r \<in> set (jobRuns w) \<and> jr_jobId r = i"
    unfolding latest_run_def by (auto dest: find_Some_set)
next
  assume r: "r \<in> set (jobRuns w) \<and> jr_jobId r = i"
  then obtain r' where r': "latest_run i w = Some r'"
    by (cases "latest_run i w") (auto simp: latest_run_def find_None_set)
  then have "r' \<in> set (jobRuns w)" "jr_jobId r' = i"
    unfolding latest_run_def by (auto dest: find_Some_set)
  with r store_wfD(5) [OF assms] have "r' = r" by (auto simp: distinct_map dest: inj_onD)
  with r' show "latest_run i w = Some r" by simp
qed

definition batch_runs :: "id \<Rightarrow> world \<Rightarrow> jobRun option list" where
  "batch_runs bid w = map (\<lambda>j. latest_run (j_id j) w) (filter (\<lambda>j. j_batchId j = Some bid) (jobs w))"

lemma set_batch_runs:
  assumes "store_wf w"
  shows "set (pending_of (batch_runs bid w)) =
    {r \<in> set (jobRuns w). jr_status r = Pending \<and> run_batch w r = Some bid}"
proof -
  have "Some r \<in> set (batch_runs bid w) \<longleftrightarrow> r \<in> set (jobRuns w) \<and> run_batch w r = Some bid" for r
  proof
    assume "Some r \<in> set (batch_runs bid w)"
    then obtain j where j: "j \<in> set (jobs w)" "j_batchId j = Some bid" "latest_run (j_id j) w = Some r"
      by (auto simp: batch_runs_def)
    with latest_run_eq [OF assms] have "r \<in> set (jobRuns w)" "jr_jobId r = j_id j" by blast+
    with j find_job_wf [OF assms j(1)] show "r \<in> set (jobRuns w) \<and> run_batch w r = Some bid"
      by (simp add: run_batch_def)
  next
    assume r: "r \<in> set (jobRuns w) \<and> run_batch w r = Some bid"
    with run_job [OF assms] obtain j where "j \<in> set (jobs w)" "find_job (jr_jobId r) w = Some j"
      "j_id j = jr_jobId r" by blast
    with r latest_run_eq [OF assms, of "j_id j" r] run_batch_job [of r w j]
    show "Some r \<in> set (batch_runs bid w)" by (force simp: batch_runs_def)
  qed
  moreover have "r \<in> set (List.map_filter (\<lambda>x. x) xs) \<longleftrightarrow> Some r \<in> set xs" for r :: jobRun and xs
    by (auto simp: List.map_filter_def image_iff)
  ultimately show ?thesis by (auto simp: pending_of_def)
qed

lemma distinct_pending:
  assumes "store_wf w"
  shows "distinct (pending_of (batch_runs bid w))"
proof -
  let ?js = "filter (\<lambda>j. j_batchId j = Some bid) (jobs w)"
  have "distinct (List.map_filter (\<lambda>j. latest_run (j_id j) w) js)"
    if "distinct (map j_id js)" for js
    using that
  proof (induction js)
    case (Cons j js)
    have sub: "jr_jobId r \<in> j_id ` set js" if "r \<in> set (List.map_filter (\<lambda>j. latest_run (j_id j) w) js)" for r
    proof -
      from that obtain k where "k \<in> set js" "latest_run (j_id k) w = Some r"
        by (auto simp: List.map_filter_def)
      with latest_run_eq [OF assms] show ?thesis by auto
    qed
    show ?case
    proof (cases "latest_run (j_id j) w")
      case (Some r)
      then have "jr_jobId r = j_id j" using latest_run_eq [OF assms] by blast
      with Some Cons sub [of r] show ?thesis by (auto simp: map_filter_simps)
    qed (use Cons in \<open>simp add: map_filter_simps\<close>)
  qed (simp add: map_filter_simps)
  moreover have "distinct (map j_id ?js)"
    using store_wfD(2) [OF assms] by (rule distinct_map_filter)
  moreover have "List.map_filter (\<lambda>x. x) (batch_runs bid w) =
      List.map_filter (\<lambda>j. latest_run (j_id j) w) ?js"
    by (simp add: batch_runs_def List.map_filter_def filter_map comp_def)
  ultimately have "distinct (List.map_filter (\<lambda>x. x) (batch_runs bid w))" by metis
  then show ?thesis unfolding pending_of_def by (rule distinct_filter)
qed

lemma length_pending:
  assumes "store_wf w"
  shows "int (length (pending_of (batch_runs bid w))) = runs_of w bid Pending"
proof -
  let ?P = "\<lambda>r. jr_status r = Pending \<and> run_batch w r = Some bid"
  have "distinct (jobRuns w)" using store_wfD(3) [OF assms] by (simp add: distinct_map)
  then have "distinct (filter ?P (jobRuns w))" by simp
  then have "length (filter ?P (jobRuns w)) = card (set (filter ?P (jobRuns w)))"
    by (rule distinct_card [symmetric])
  also have "set (filter ?P (jobRuns w)) = set (pending_of (batch_runs bid w))"
    using set_batch_runs [OF assms] by auto
  also have "card \<dots> = length (pending_of (batch_runs bid w))"
    using distinct_pending [OF assms] by (rule distinct_card)
  finally show ?thesis by (simp add: runs_of_def countRows_def)
qed

text \<open>The state after the loop of \<open>cancelBatch\<close>.\<close>

lemma cancel_loop_runs:
  assumes wf: "store_wf w"
    and loop: "foldl (cancel_run removable orgId now) (w, 0) (batch_runs bid w) = (w', c)"
  shows "store_wf w'" "jobBatches w' = jobBatches w" "runs_le w w'" "c = runs_of w bid Pending" "runs_fresh w w'"
    "runs_of w' k st = (if k \<noteq> bid then runs_of w k st
       else case st of Pending \<Rightarrow> 0 | Cancelled \<Rightarrow> runs_of w bid Cancelled + runs_of w bid Pending
         | _ \<Rightarrow> runs_of w bid st)"
proof -
  note l = cancel_loop [OF loop]
  let ?K = "jr_id ` set (pending_of (batch_runs bid w))"
  let ?P = "\<lambda>x. jr_id x \<in> ?K"
  have P: "?P r \<longleftrightarrow> jr_status r = Pending \<and> run_batch w r = Some bid" if "r \<in> set (jobRuns w)" for r
    using that store_wfD(3) [OF wf] by (auto simp: set_batch_runs [OF wf] distinct_map dest: inj_onD)
  have runs': "jobRuns w' = updateMany ?P (cancel_row now) (jobRuns w)" using l by blast
  then show "store_wf w'" using wf l unfolding store_wf_def
    by (simp add: map_updateMany drawn_def [abs_def])
  show "jobBatches w' = jobBatches w" using l by blast
  have "map jr_id (jobRuns w') = map jr_id (jobRuns w)" using runs' by (simp add: map_updateMany)
  then have "jr_id ` set (jobRuns w') = jr_id ` set (jobRuns w)" by (metis set_map)
  then show "runs_fresh w w'" using l by (intro runs_freshI) auto
  show "c = runs_of w bid Pending" using l length_pending [OF wf] by simp
  show "runs_le w w'"
    unfolding runs_le_def find_run_def runs'
  proof (intro allI impI)
    fix i r assume r: "findUnique jr_id i (jobRuns w) = Some r"
    then have "r \<in> set (jobRuns w)" using findUnique_Some by fast
    with P r show "\<exists>r'. findUnique jr_id i (updateMany ?P (cancel_row now) (jobRuns w)) = Some r' \<and> run_le r r'"
      by (auto simp: findUnique_updateMany run_le_def terminal_def)
  qed
  have rb: "run_batch w' r = run_batch w r" "run_batch w (cancel_row now r) = run_batch w r" for r
    using l run_batch_jobs [of w' w] by (auto simp: run_batch_def)
  have "runs_of w' k st =
      countRows (\<lambda>r. \<not> ?P r \<and> jr_status r = st \<and> run_batch w r = Some k) (jobRuns w) +
      countRows (\<lambda>r. ?P r \<and> Cancelled = st \<and> run_batch w r = Some k) (jobRuns w)"
    by (simp add: runs_of_def runs' countRows_updateMany rb)
  also have "\<dots> =
      countRows (\<lambda>r. \<not> (jr_status r = Pending \<and> run_batch w r = Some bid) \<and> jr_status r = st \<and> run_batch w r = Some k) (jobRuns w) +
      countRows (\<lambda>r. (jr_status r = Pending \<and> run_batch w r = Some bid) \<and> Cancelled = st \<and> run_batch w r = Some k) (jobRuns w)"
    using P by (intro arg_cong2 [where f = "(+)"] countRows_cong) auto
  also have "\<dots> = (if k \<noteq> bid then runs_of w k st
       else case st of Pending \<Rightarrow> 0 | Cancelled \<Rightarrow> runs_of w bid Cancelled + runs_of w bid Pending
         | _ \<Rightarrow> runs_of w bid st)"
    unfolding runs_of_def
    by (cases st; cases "k = bid") (auto simp: countRows_def filter_empty_conv intro!: arg_cong [where f = length] filter_cong)
  finally show "runs_of w' k st = (if k \<noteq> bid then runs_of w k st
       else case st of Pending \<Rightarrow> 0 | Cancelled \<Rightarrow> runs_of w bid Cancelled + runs_of w bid Pending
         | _ \<Rightarrow> runs_of w bid st)" .
qed

lemma cancelled_rows:
  assumes "store_wf w" and "foldl (cancel_run removable orgId now) (w, 0) (batch_runs bid w) = (w', c)"
    and "find_run i w = Some r"
  shows "find_run i w' = Some (if jr_status r = Pending \<and> run_batch w r = Some bid then cancel_row now r else r)"
proof -
  note l = cancel_loop [OF assms(2)]
  have r: "r \<in> set (jobRuns w)" using find_runD [OF assms(3)] by blast
  have "jr_id r \<in> jr_id ` set (pending_of (batch_runs bid w)) \<longleftrightarrow> jr_status r = Pending \<and> run_batch w r = Some bid"
    using r store_wfD(3) [OF assms(1)] by (auto simp: set_batch_runs [OF assms(1)] distinct_map dest: inj_onD)
  then show ?thesis using l assms(3) by (simp add: find_run_def findUnique_updateMany)
qed

definition cancel_counts :: "ms \<Rightarrow> int \<Rightarrow> jobBatch \<Rightarrow> jobBatch" where
  "cancel_counts now c b = b\<lparr>b_status := ''cancelled'', b_pendingCount := b_pendingCount b - c,
     b_cancelledCount := b_cancelledCount b + c, b_completedAt := Some now\<rparr>"

lemma cancelBatch_cases:
  assumes "cancelBatch removable orgId bid now w = (r, w')"
  obtains (missing) "r = Inl (NotFoundException ''Batch not found'')" "w' = w"
      "find_org_batch bid orgId w = None"
  | (not_running) B where "find_org_batch bid orgId w = Some B" "b_status B \<noteq> ''running''"
      "r = Inl (BadRequestException ''Batch is not running'')" "w' = w"
  | (cancelled) B w1 c where "find_org_batch bid orgId w = Some B" "b_status B = ''running''"
      "foldl (cancel_run removable orgId now) (w, 0) (batch_runs bid w) = (w1, c)"
      "r = Inr (toSummary (cancel_counts now c B))"
      "same_jobs (set_batch bid (cancel_counts now c) w1) w'"
  using assms
  by (auto simp: cancelBatch_def Let_def batch_runs_def same_jobs_def audit_def cancel_counts_def [abs_def]
      split: option.splits if_splits prod.splits)

lemma cancelBatch_inv:
  assumes wf: "store_wf w" and acc: "accounted_with lost w"
    and c: "cancelBatch removable orgId bid now w = (r, w')"
  shows "store_wf w' \<and> accounted_with lost w' \<and> runs_le w w' \<and> runs_fresh w w' \<and>
    (\<forall>x. r = Inr x \<longrightarrow> runs_of w' bid Pending = 0)"
  using c
proof (cases rule: cancelBatch_cases)
  case (cancelled B w1 n)
  note l = cancel_loop_runs [OF wf cancelled(3)]
  have "store_wf (set_batch bid (cancel_counts now n) w1) \<and>
      accounted_with lost (set_batch bid (cancel_counts now n) w1)"
  proof (rule move_accounted [OF l(1) acc l(2), where
        d = "\<lambda>st. case st of Pending \<Rightarrow> - n | Cancelled \<Rightarrow> n | _ \<Rightarrow> 0"])
    show "runs_of w1 k st = runs_of w k st + (if k = bid then
        (case st of Pending \<Rightarrow> - n | Cancelled \<Rightarrow> n | _ \<Rightarrow> 0) else 0)" for k st
      using l(4) by (simp add: l(6) split: run_status.split)
    show "b_id (cancel_counts now n b) = b_id b" for b by (simp add: cancel_counts_def)
    fix b assume "counters_with lost w b" "b_id b = bid"
    then show "counters_with lost w1 (cancel_counts now n b)"
      by (simp add: counters_with_def cancel_counts_def l(6) l(4))
  qed
  moreover have "runs_of w' bid Pending = runs_of w1 bid Pending" "runs_le w1 w'"
    using cancelled(5) runs_of_jobs [of w' w1] runs_le_same [of w' w1] by (simp_all add: same_jobs_def)
  moreover have "store_wf (set_batch bid (cancel_counts now n) w1)" using calculation by blast
  then have "runs_fresh (set_batch bid (cancel_counts now n) w1) w'"
    using jobs_ext_fresh [OF store_wfD(1) same_jobs_ext [OF cancelled(5)]] by blast
  then have "runs_fresh w1 w'"
    by (rule fresh_ids.trans_R [rotated]) (rule runs_freshI; simp)
  ultimately show ?thesis
    using same_jobs_inv [OF cancelled(5)] l lifecycle.trans_R [OF l(3)] fresh_ids.trans_R [OF l(5)] by auto
qed (use wf acc in \<open>auto simp: lifecycle.refl_R fresh_ids.refl_R\<close>)

lemmas createBatch_counted = createBatch_inv [where lost = none_lost, folded accounted_none]
lemmas cancelBatch_counted = cancelBatch_inv [where lost = none_lost, folded accounted_none]

section \<open>Properties of batches\<close>

text \<open>A world with one organization and two servers, for the witnesses.\<close>

definition sample_server :: "id \<Rightarrow> id \<Rightarrow> serverInstance" where
  "sample_server i h =
     \<lparr>si_id = i, si_orgId = ''o'', si_hostId = h, si_gameType = ''minecraft'', si_name = ''srv'',
      si_installPath = Some ''/srv/mc'', si_startCommand = None, si_rconHost = None,
      si_rconPort = None, si_rconPassword = None, si_maintenanceMode = False,
      si_rebootIfDown = False, si_mapEmbedUrl = None, si_config = Null, si_createdAt = 0\<rparr>"

definition sample_world :: world where
  "sample_world = (empty_world nat_str)
     \<lparr>serverInstances := [sample_server ''s1'' ''h'', sample_server ''s2'' ''h''],
      userOrgs := [\<lparr>uo_userId = ''u'', uo_orgId = ''o'', uo_role = ''admin'', uo_createdAt = 0\<rparr>]\<rparr>"

lemma inj_nat_str: "inj nat_str"
  using nat_str_inj by (rule injI)

lemma empty_inv:
  "inj (idgen w) \<Longrightarrow> jobs w = [] \<Longrightarrow> jobRuns w = [] \<Longrightarrow> jobBatches w = [] \<Longrightarrow>
     store_wf w \<and> accounted w"
  by (simp add: store_wf_def accounted_def)

lemma sample_inv: "store_wf sample_world" "accounted sample_world"
proof -
  have "store_wf sample_world \<and> accounted sample_world"
    by (rule empty_inv) (simp_all add: sample_world_def empty_world_def inj_nat_str)
  then show "store_wf sample_world" "accounted sample_world" by auto
qed

definition sample_batch :: world where
  "sample_batch = snd (createBatch ''o'' None ''restart_wave'' [''s1'', ''s2''] None 5 sample_world)"

lemma sample_batch_inv: "store_wf sample_batch" "accounted sample_batch"
  using createBatch_counted [OF sample_inv prod.collapse [symmetric]]
  by (auto simp: sample_batch_def)

text \<open>Creating a batch. The request fails with nothing changed when some server is missing
  or foreign; otherwise there is a new running batch whose counters all stand at zero but the
  pending one, which equals both the number of servers asked for and the number of pending runs
  the batch has, and the counters of every batch agree with its runs.\<close>

lemma createBatch_counts_runs:
  assumes "store_wf w" and "accounted w"
    and "createBatch orgId userId ty ids p now w = (r, w')"
  shows "store_wf w' \<and> accounted w' \<and>
    (case r of
       Inl e \<Rightarrow> w' = w
     | Inr summary \<Rightarrow> (\<exists>B. find_batch (next_id w) w' = Some B \<and> summary = toSummary B \<and>
         b_status B = ''running'' \<and> b_totalCount B = int (length ids) \<and>
         b_pendingCount B = int (length ids) \<and> runs_of w' (next_id w) Pending = int (length ids)))"
  using assms(3)
proof (cases rule: createBatch_cases)
  case error
  with assms show ?thesis by simp
next
  case (created sis B)
  note inv = createBatch_counted [OF assms]
  let ?w1 = "add_batch B w"
  have wf1: "store_wf ?w1" using assms created(4) by (intro add_batch_wf) simp_all
  have bid: "next_id w \<in> b_id ` set (jobBatches ?w1)" using created(4) by (simp add: add_batch_def)
  have "jobBatches w' = jobBatches ?w1"
    using create_batch_jobs [OF wf1 bid refl] created(5) by (simp add: same_jobs_def)
  then have "B \<in> set (jobBatches w')" by (simp add: add_batch_def)
  then have "find_batch (next_id w) w' = Some B"
    using find_batch_wf [of w' B] inv created(4) by simp
  with inv created show ?thesis by simp
qed

text \<open>C11: cancelling a batch. It is refused, with nothing changed, when the batch is missing,
  foreign or no longer running. Otherwise every pending run of the batch is cancelled, with the time
  as its finish time, and every other run, of this batch or of none or another, stays exactly as it is;
  so no run of the batch is pending any more, the batch is marked cancelled with a
  pending counter of zero, and the counters of every batch agree with its runs.\<close>

theorem cancelBatch_leaves_none_pending:
  assumes "store_wf w" and "accounted w"
    and "cancelBatch removable orgId bid now w = (r, w')"
  shows "case r of
      Inl e \<Rightarrow> w' = w
    | Inr summary \<Rightarrow>
        store_wf w' \<and> accounted w' \<and> runs_of w' bid Pending = 0 \<and>
        runs_of w' bid Cancelled = runs_of w bid Cancelled + runs_of w bid Pending \<and>
        map jr_id (jobRuns w') = map jr_id (jobRuns w) \<and>
        (\<forall>i run. find_run i w = Some run \<longrightarrow>
           find_run i w' = Some (if jr_status run = Pending \<and> run_batch w run = Some bid
             then run\<lparr>jr_status := Cancelled, jr_finishedAt := Some now\<rparr> else run)) \<and>
        (\<exists>B. find_batch bid w' = Some B \<and> b_status B = ''cancelled'' \<and> b_pendingCount B = 0 \<and>
           summary = toSummary B)"
  using assms(3)
proof (cases rule: cancelBatch_cases)
  case (cancelled B w1 n)
  note inv = cancelBatch_counted [OF assms]
  note l = cancel_loop_runs [OF assms(1) cancelled(3)]
  have B: "B \<in> set (jobBatches w)" "b_id B = bid"
    using cancelled(1) find_Some_set unfolding find_org_batch_def by fastforce+
  have fb: "find_batch bid (set_batch bid (cancel_counts now n) w1) = Some (cancel_counts now n B)"
    using find_batch_wf [OF assms(1) B(1)] B(2) l(2)
    by (simp add: find_batch_def set_batch_def findUnique_updateRow cancel_counts_def)
  then have fb': "find_batch bid w' = Some (cancel_counts now n B)"
    using cancelled(5) by (simp add: same_jobs_def find_batch_def)
  have "b_pendingCount B = n"
    using assms(2) B l(4) by (auto simp: accounted_def list_all_iff counters_ok_def)
  moreover have "runs_of w' bid st = runs_of w1 bid st" for st
    using cancelled(5) by (intro runs_of_jobs) (simp_all add: same_jobs_def)
  moreover have "jobRuns w' = jobRuns w1" using cancelled(5) by (simp add: same_jobs_def)
  then have "find_run i w' = Some (if jr_status run = Pending \<and> run_batch w run = Some bid
      then run\<lparr>jr_status := Cancelled, jr_finishedAt := Some now\<rparr> else run)" if "find_run i w = Some run" for i run
    using cancelled_rows [OF assms(1) cancelled(3) that] by (simp add: find_run_def cancel_row_def)
  moreover have "map jr_id (jobRuns w') = map jr_id (jobRuns w)"
    using \<open>jobRuns w' = jobRuns w1\<close> cancel_loop [OF cancelled(3)] by (simp add: map_updateMany)
  ultimately show ?thesis
    using inv fb' l(6) cancelled(4) by (simp add: cancel_counts_def)
qed (use assms in auto)

theorem cancelBatch_leaves_none_pending_witness:
  "map_option jr_status (find_run ''2'' (snd (cancelBatch (\<lambda>_. True) ''o'' ''0'' 9 sample_batch))) = Some Cancelled"
proof -
  obtain r w' where c: "cancelBatch (\<lambda>_. True) ''o'' ''0'' 9 sample_batch = (r, w')" by fastforce
  have "case fst (cancelBatch (\<lambda>_. True) ''o'' ''0'' 9 sample_batch) of Inl e \<Rightarrow> False | Inr x \<Rightarrow> True"
    by code_simp
  with c obtain x where "r = Inr x" by (cases r) auto
  moreover have "map_option (\<lambda>r. (jr_status r, run_batch sample_batch r)) (find_run ''2'' sample_batch) = Some (Pending, Some ''0'')"
    by code_simp
  then obtain x where "find_run ''2'' sample_batch = Some x" "jr_status x = Pending" "run_batch sample_batch x = Some ''0''" by auto
  ultimately show ?thesis using cancelBatch_leaves_none_pending [OF sample_batch_inv c] c by auto
qed

text \<open>The verdict of a cancelled batch does not last. When the last running job of a batch
  that was cancelled reports its result, the batch row is marked completed (with or without
  failures), and no longer cancelled.\<close>

lemma recordJobRunCompleted_overwrites_cancelled:
  assumes "store_wf w" and "accounted w" and "find_job i w = Some j" and "j_batchId j = Some bid"
    and "find_batch bid w = Some B" and "b_status B = ''cancelled''"
    and "b_pendingCount B \<le> 0" and "b_runningCount B \<le> 1" and "s \<in> {Success, Failed}"
  shows "\<exists>B'. find_batch bid (recordJobRunCompleted (j_orgId j) i s Running now w) = Some B' \<and>
    b_status B' = (if s = Failed \<or> 0 < b_failedCount B then ''completed_with_failures'' else ''completed'')"
proof -
  note sj = recordJobRunCompleted_set [OF assms(1,3,4), of now s Running]
  have "0 \<le> b_failedCount B"
    using assms(2) find_batchD [OF assms(5)] by (auto simp: accounted_def list_all_iff counters_ok_def)
  moreover from sj have "find_batch bid (recordJobRunCompleted (j_orgId j) i s Running now w) =
      Some (final_status now (complete_counts s Running B))"
    using assms(5) by (simp add: same_jobs_def find_batch_def set_batch_def findUnique_updateRow)
  ultimately show ?thesis
    using assms(6-9) by (auto simp: final_status_def complete_counts_def)
qed

definition sample_started :: world where
  "sample_started = recordJobRunStarted ''o'' ''1''
     (set_run ''2'' (\<lambda>r. r\<lparr>jr_status := Running\<rparr>) sample_batch)"

definition sample_cancelled :: world where
  "sample_cancelled = snd (cancelBatch (\<lambda>_. True) ''o'' ''0'' 9 sample_started)"

end
