(* ===== verification/Agents.thy ===== *)
theory Agents
  imports Batches
begin

text \<open>
  Who may call: control-plane/src/pairing/pairing.service.ts (pairing tokens, agent keys),
  pairing/agent-auth.guard.ts, server-instances/guards (the guards of the user routes) and
  common/client-ip.ts, install-script.ts. SHA-256, the JWT library and random bytes are parameters.

  Shown: a pairing token pairs one host when requests are served one after the other; a rotated key
  is worthless and its replacement works; the guard lets an agent act only as the host its key was
  issued for. Also shown: two pairing requests that overlap both pair with the same token.
\<close>

section \<open>Definitions\<close>

record agentPayload =
  ap_sub :: id
  ap_orgId :: id
  ap_keyVersion :: int
  ap_type :: string

record keyring =
  kr_sha256 :: "string \<Rightarrow> string"
  kr_sign :: "agentPayload \<Rightarrow> string"
  kr_verify :: "string \<Rightarrow> agentPayload option"
  kr_verifyUser :: "string \<Rightarrow> (id \<times> jsnum) option"
  kr_iso :: "ms \<Rightarrow> string"

text \<open>The fields: \<open>createHash('sha256').update(s).digest('hex')\<close>; \<open>jwt.sign\<close> and \<open>jwt.verify\<close> (None when
  it throws) with the agent secret; \<open>jwt.verify\<close> with the user secret, giving \<open>sub\<close> and \<open>ver\<close>;
  \<open>toISOString\<close>.\<close>

definition DEFAULT_EXPIRES_IN_SEC :: int where "DEFAULT_EXPIRES_IN_SEC = 900"

definition hashToken :: "keyring \<Rightarrow> string \<Rightarrow> string" where
  "hashToken K plain = kr_sha256 K plain"

definition createToken :: "keyring \<Rightarrow> id \<Rightarrow> id \<Rightarrow> int option \<Rightarrow> string \<Rightarrow> ms \<Rightarrow> world \<Rightarrow> (id \<times> string \<times> ms \<times> int) \<times> world" where
  \<comment> \<open>\<open>plainToken\<close> is the string of random bytes\<close>
  "createToken K orgId userId expiresIn plainToken now w =
     (let expiresInSec = opt_or expiresIn DEFAULT_EXPIRES_IN_SEC;
          expiresAt = now + expiresInSec * 1000;
          row = \<lparr>pt_id = next_id w, pt_orgId = orgId, pt_tokenHash = hashToken K plainToken, pt_expiresAt = expiresAt,
                 pt_usedAt = None, pt_createdById = userId, pt_usedByHostId = None\<rparr>
      in ((next_id w, plainToken, expiresAt, expiresInSec), (draw w)\<lparr>pairingTokens := pairingTokens w @ [row]\<rparr>))"

definition signAgentKey :: "keyring \<Rightarrow> id \<Rightarrow> id \<Rightarrow> int \<Rightarrow> string" where
  "signAgentKey K hostId orgId keyVersion =
     kr_sign K \<lparr>ap_sub = hostId, ap_orgId = orgId, ap_keyVersion = keyVersion, ap_type = ''agent''\<rparr>"

text \<open>\<open>pair\<close> reads the token and checks it, and then writes; the two halves are separate because
  other requests may be served between them.\<close>

definition pair_check :: "keyring \<Rightarrow> string \<Rightarrow> ms \<Rightarrow> world \<Rightarrow> pairingToken res" where
  "pair_check K token now w =
     (case List.find (\<lambda>t. pt_tokenHash t = hashToken K (trim token)) (pairingTokens w) of
        None \<Rightarrow> Inl (UnauthorizedException ''Invalid pairing token'')
      | Some t \<Rightarrow>
          if pt_usedAt t \<noteq> None then Inl (BadRequestException ''Pairing token already used'')
          else if pt_expiresAt t < now then Inl (BadRequestException ''Pairing token expired'')
          else Inr t)"

definition pair_commit :: "keyring \<Rightarrow> pairingToken \<Rightarrow> string option \<Rightarrow> string option \<Rightarrow> ms \<Rightarrow> world \<Rightarrow> (id \<times> string) \<times> world" where
  "pair_commit K t hostName clientIp now w =
     (let name = or_str (trim (opt_or hostName [])) (''Host '' @ take 19 (kr_iso K now));
          hostId = next_id w;
          host = \<lparr>h_id = hostId, h_orgId = pt_orgId t, h_name = name, h_lastHeartbeatAt = None, h_agentVersion = None,
                  h_agentKeyVersion = 1, h_status = Some ''unknown'', h_lastMetrics = Null, h_createdAt = now\<rparr>;
          w1 = (draw w)\<lparr>hosts := hosts w @ [host],
                 pairingTokens := updateRow pt_id (pt_id t) (\<lambda>r. r\<lparr>pt_usedAt := Some now, pt_usedByHostId := Some hostId\<rparr>) (pairingTokens w)\<rparr>
      in ((hostId, signAgentKey K hostId (pt_orgId t) 1),
          audit_row (pt_orgId t) None ''agent_pair'' ''host'' hostId
            [(''pairingTokenId'', Str (pt_id t)), (''hostName'', Str name), (''clientIp'', js_opt clientIp)] w1))"

definition pair :: "keyring \<Rightarrow> string \<Rightarrow> string option \<Rightarrow> string option \<Rightarrow> ms \<Rightarrow> world \<Rightarrow> (id \<times> string) res \<times> world" where
  "pair K token hostName clientIp now w =
     (case pair_check K token now w of
        Inl e \<Rightarrow> (Inl e, w)
      | Inr t \<Rightarrow> (case pair_commit K t hostName clientIp now w of (r, w1) \<Rightarrow> (Inr r, w1)))"

definition verifyAgentKey :: "keyring \<Rightarrow> string \<Rightarrow> world \<Rightarrow> agentPayload res" where
  "verifyAgentKey K token w =
     (case kr_verify K token of
        None \<Rightarrow> Inl (UnauthorizedException ''Invalid or expired agent token'')
      | Some payload \<Rightarrow>
          if ap_type payload \<noteq> ''agent'' \<or> ap_sub payload = [] \<or> ap_orgId payload = []
          then Inl (UnauthorizedException ''Invalid agent token'')
          else (case findUnique h_id (ap_sub payload) (hosts w) of
                  None \<Rightarrow> Inl (UnauthorizedException ''Host not found or org mismatch'')
                | Some host \<Rightarrow>
                    if h_orgId host \<noteq> ap_orgId payload then Inl (UnauthorizedException ''Host not found or org mismatch'')
                    else if h_agentKeyVersion host \<noteq> ap_keyVersion payload
                      then Inl (UnauthorizedException ''Agent key was rotated; re-pair or use new key'')
                    else Inr payload))"

definition rotateAgentKey :: "keyring \<Rightarrow> id \<Rightarrow> id \<Rightarrow> world \<Rightarrow> string res \<times> world" where
  "rotateAgentKey K orgId hostId w =
     (case List.find (\<lambda>h. h_id h = hostId \<and> h_orgId h = orgId) (hosts w) of
        None \<Rightarrow> (Inl (ForbiddenException ''Host not found or access denied''), w)
      | Some host \<Rightarrow>
          let newVersion = h_agentKeyVersion host + 1
          in (Inr (signAgentKey K hostId orgId newVersion),
              w\<lparr>hosts := updateRow h_id hostId (\<lambda>h. h\<lparr>h_agentKeyVersion := newVersion\<rparr>) (hosts w)\<rparr>))"

definition bearer :: "string option \<Rightarrow> string option" where
  \<comment> \<open>the token of an \<open>Authorization\<close> header, None when there is none or it is empty\<close>
  "bearer auth = (case auth of None \<Rightarrow> None | Some a \<Rightarrow> if startsWith a ''Bearer '' then or_null (drop 7 a) else None)"

definition agentAuthGuard :: "keyring \<Rightarrow> string option \<Rightarrow> string option \<Rightarrow> world \<Rightarrow> id res" where
  \<comment> \<open>the host id that later handlers trust\<close>
  "agentAuthGuard K auth pathHostId w =
     (case bearer auth of
        None \<Rightarrow> Inl (UnauthorizedException ''Missing or invalid Authorization header'')
      | Some token \<Rightarrow>
          (case verifyAgentKey K token w of
             Inl e \<Rightarrow> Inl e
           | Inr payload \<Rightarrow>
               if opt_or pathHostId [] \<noteq> [] \<and> opt_or pathHostId [] \<noteq> ap_sub payload
               then Inl (ForbiddenException ''Agent host mismatch'') else Inr (ap_sub payload)))"

definition jwtAuthGuard :: "keyring \<Rightarrow> string option \<Rightarrow> world \<Rightarrow> id res" where
  "jwtAuthGuard K auth w =
     (case bearer auth of
        None \<Rightarrow> Inl (UnauthorizedException ''Missing or invalid Authorization header'')
      | Some token \<Rightarrow>
          (case kr_verifyUser K token of
             None \<Rightarrow> Inl (UnauthorizedException ''Invalid or expired token'')
           | Some (sub, ver) \<Rightarrow>
               if sub = [] \<or> \<not> isInteger ver then Inl (UnauthorizedException ''Invalid or expired token'')
               else (case findUnique u_id sub (users w) of
                       None \<Rightarrow> Inl (UnauthorizedException ''Invalid or expired token'')
                     | Some u \<Rightarrow>
                         if u_approvedAt u = None \<or> opt_or (u_passwordHash u) [] = [] \<or> u_authVersion u \<noteq> num_int ver
                         then Inl (UnauthorizedException ''Invalid or expired token'') else Inr sub)))"

definition orgMemberGuard :: "id \<Rightarrow> id option \<Rightarrow> world \<Rightarrow> string res" where
  "orgMemberGuard userId orgId w =
     (if opt_or orgId [] = [] \<or> userId = [] then Inl (ForbiddenException ''Unauthorized'')
      else (case find_member userId (opt_or orgId []) w of
              None \<Rightarrow> Inl (ForbiddenException ''Not a member of this org'')
            | Some m \<Rightarrow> Inr (uo_role m)))"

definition requireOrgRoleGuard :: "string list option \<Rightarrow> string option \<Rightarrow> unit res" where
  "requireOrgRoleGuard required role =
     (if opt_or role [] = [] \<or> opt_or role [] \<notin> set (opt_or required [''admin'', ''operator''])
      then Inl (ForbiddenException ''Insufficient permissions (admin or operator required)'') else Inr ())"

definition userGuards :: "keyring \<Rightarrow> string option \<Rightarrow> id option \<Rightarrow> string list option \<Rightarrow> world \<Rightarrow> (id \<times> string) res" where
  \<comment> \<open>\<open>@UseGuards(JwtAuthGuard, OrgMemberGuard, RequireOrgRoleGuard)\<close>\<close>
  "userGuards K auth orgId required w =
     (case jwtAuthGuard K auth w of
        Inl e \<Rightarrow> Inl e
      | Inr userId \<Rightarrow>
          (case orgMemberGuard userId orgId w of
             Inl e \<Rightarrow> Inl e
           | Inr role \<Rightarrow> (case requireOrgRoleGuard required (Some role) of Inl e \<Rightarrow> Inl e | Inr _ \<Rightarrow> Inr (userId, role))))"

definition firstHeader :: "js \<Rightarrow> js" where
  \<comment> \<open>a header is absent, a string or an array of strings\<close>
  "firstHeader value = (case value of
     Arr xs \<Rightarrow> (case xs of [] \<Rightarrow> Undefined | x # _ \<Rightarrow> x)
   | Str s \<Rightarrow> Str (trim (hd (split CHR '','' s)))
   | _ \<Rightarrow> Undefined)"

definition clientIp :: "obj \<Rightarrow> string option \<Rightarrow> string" where
  "clientIp headers ip =
     take 128 (or_str (str_of (firstHeader (get headers ''cf-connecting-ip'')))
       (or_str (str_of (firstHeader (get headers ''x-forwarded-for''))) (or_str (opt_or ip []) ''unknown'')))"

definition sanitizeInstallToken :: "string \<Rightarrow> string" where
  "sanitizeInstallToken token =
     (if 16 \<le> length token \<and> length token \<le> 128 \<and> list_all (\<lambda>c. is_alnum c \<or> c = CHR ''_'' \<or> c = CHR ''-'') token
      then token else ''MISSING_TOKEN'')"

section \<open>Keys\<close>

text \<open>What the code relies on in the JWT library: a token it signed is verified as the payload it was
  signed for, and is not empty.\<close>

definition jwt_ok :: "keyring \<Rightarrow> bool" where
  "jwt_ok K \<longleftrightarrow> (\<forall>p. kr_verify K (kr_sign K p) = Some p \<and> kr_sign K p \<noteq> [])"

lemma key_accepted:
  assumes "jwt_ok K" and "findUnique h_id i (hosts w) = Some h" and "h_orgId h = o'" and "h_agentKeyVersion h = v"
    and "i \<noteq> []" and "o' \<noteq> []"
  shows "agentAuthGuard K (Some (''Bearer '' @ signAgentKey K i o' v)) None w = Inr i"
proof -
  have "startsWith (''Bearer '' @ x) ''Bearer ''" "drop 7 (''Bearer '' @ x) = x" for x by (simp_all add: startsWith_def)
  then have "bearer (Some (''Bearer '' @ signAgentKey K i o' v)) = Some (signAgentKey K i o' v)"
    using assms(1) by (simp add: bearer_def or_null_def signAgentKey_def jwt_ok_def)
  moreover have "verifyAgentKey K (signAgentKey K i o' v) w =
      Inr \<lparr>ap_sub = i, ap_orgId = o', ap_keyVersion = v, ap_type = ''agent''\<rparr>"
    using assms by (simp add: verifyAgentKey_def signAgentKey_def jwt_ok_def)
  ultimately show ?thesis by (simp add: agentAuthGuard_def opt_or_def)
qed

lemma pair_commit_hosts:
  assumes "pair_commit K t nm ip now w = ((i, key), w')"
  shows "i = next_id w" "key = signAgentKey K i (pt_orgId t) 1" "idgen w' = idgen w" "idctr w' = Suc (idctr w)"
    "\<exists>h. hosts w' = hosts w @ [h] \<and> h_id h = i \<and> h_orgId h = pt_orgId t \<and> h_agentKeyVersion h = 1"
    "pairingTokens w' = updateRow pt_id (pt_id t) (\<lambda>r. r\<lparr>pt_usedAt := Some now, pt_usedByHostId := Some i\<rparr>) (pairingTokens w)"
  using assms by (auto simp: pair_commit_def Let_def audit_row_def)

lemma find_token_used:
  assumes "List.find P ts = Some t" and "\<And>r. P (f r) \<longleftrightarrow> P r" and "\<And>r. pt_id (f r) = pt_id r"
  shows "List.find P (updateRow pt_id (pt_id t) f ts) = Some (f t)"
  using assms by (induction ts) (auto split: if_splits)

lemma pair_check_Inr:
  "pair_check K token now w = Inr t \<Longrightarrow>
     List.find (\<lambda>t. pt_tokenHash t = hashToken K (trim token)) (pairingTokens w) = Some t \<and> pt_usedAt t = None \<and> now \<le> pt_expiresAt t"
  by (auto simp: pair_check_def split: option.splits if_splits)

definition hosts_drawn :: "world \<Rightarrow> bool" where
  "hosts_drawn w \<longleftrightarrow> inj (idgen w) \<and> list_all (drawn w) (map h_id (hosts w))"

lemma new_host_found:
  assumes "hosts_drawn w" and "hosts w' = hosts w @ h # hs" and "h_id h = next_id w"
  shows "findUnique h_id (next_id w) (hosts w') = Some h"
proof -
  have "next_id w \<notin> h_id ` set (hosts w)"
    using assms(1) next_id_fresh [of w] by (auto simp: hosts_drawn_def list_all_iff)
  then have "findUnique h_id (next_id w) (hosts w) = None" by (simp add: findUnique_None)
  then show ?thesis using assms(2,3) by (simp add: findUnique_append findUnique_Cons)
qed

text \<open>C15: a pairing token is for one host. A pairing that succeeds uses an unused token that has not
  expired, adds exactly one host, in the organization of the token, and returns a key with which
  that host is let in; from then on every request with the same token is refused and changes nothing.\<close>

theorem pair_single_use:
  assumes "jwt_ok K" and "hosts_drawn w" and "pair K token nm ip t1 w = (Inr (hostId, key), w1)" and "hostId \<noteq> []"
    and "list_all (\<lambda>t. pt_orgId t \<noteq> []) (pairingTokens w)"
  shows "(\<exists>t h. t \<in> set (pairingTokens w) \<and> pt_usedAt t = None \<and> t1 \<le> pt_expiresAt t \<and>
      hosts w1 = hosts w @ [h] \<and> h_id h = hostId \<and> h_orgId h = pt_orgId t) \<and>
    agentAuthGuard K (Some (''Bearer '' @ key)) None w1 = Inr hostId \<and>
    pair K token nm' ip' t2 w1 = (Inl (BadRequestException ''Pairing token already used''), w1)"
proof -
  from assms(3) obtain t where t: "pair_check K token t1 w = Inr t"
    and c: "pair_commit K t nm ip t1 w = ((hostId, key), w1)"
    by (auto simp: pair_def split: sum.splits prod.splits)
  note f = pair_check_Inr [OF t] and p = pair_commit_hosts [OF c]
  from p(5) obtain h where h: "hosts w1 = hosts w @ [h]" "h_id h = hostId" "h_orgId h = pt_orgId t" "h_agentKeyVersion h = 1" by blast
  have t_in: "t \<in> set (pairingTokens w)" using find_Some_set [OF f [THEN conjunct1]] by simp
  have "findUnique h_id hostId (hosts w1) = Some h"
    unfolding p(1) by (rule new_host_found [OF assms(2) h(1)]) (simp only: h(2) p(1))
  then have "agentAuthGuard K (Some (''Bearer '' @ key)) None w1 = Inr hostId"
    unfolding p(2) using assms(1,4,5) h t_in by (intro key_accepted [where h = h]) (auto simp: list_all_iff)
  moreover have "List.find (\<lambda>t. pt_tokenHash t = hashToken K (trim token)) (pairingTokens w1) =
      Some (t\<lparr>pt_usedAt := Some t1, pt_usedByHostId := Some hostId\<rparr>)"
    unfolding p(6) by (rule find_token_used [OF f [THEN conjunct1]]) simp_all
  then have "pair K token nm' ip' t2 w1 = (Inl (BadRequestException ''Pairing token already used''), w1)"
    by (simp add: pair_def pair_check_def)
  ultimately show ?thesis using t_in f h by blast
qed

text \<open>Overlapping requests defeat the single use. Two pairing requests with the same token that are
  both checked before either is written both succeed: there are two new hosts, with two keys, and
  both keys let their agent in.\<close>

lemma pair_race:
  assumes "jwt_ok K" and "hosts_drawn w" and "pair_check K token t1 w = Inr t" and "pair_check K token t2 w = Inr t"
    and "pair_commit K t nm1 ip1 t1 w = ((h1, key1), w1)" and "pair_commit K t nm2 ip2 t2 w1 = ((h2, key2), w2)"
    and "h1 \<noteq> []" and "h2 \<noteq> []" and "pt_orgId t \<noteq> []"
  shows "h1 \<noteq> h2 \<and> length (hosts w2) = length (hosts w) + 2 \<and>
    agentAuthGuard K (Some (''Bearer '' @ key1)) None w2 = Inr h1 \<and> agentAuthGuard K (Some (''Bearer '' @ key2)) None w2 = Inr h2"
proof -
  note p = pair_commit_hosts [OF assms(5)] and q = pair_commit_hosts [OF assms(6)]
  from p(5) obtain a where a: "hosts w1 = hosts w @ [a]" "h_id a = h1" "h_orgId a = pt_orgId t" "h_agentKeyVersion a = 1" by blast
  from q(5) obtain b where b: "hosts w2 = hosts w1 @ [b]" "h_id b = h2" "h_orgId b = pt_orgId t" "h_agentKeyVersion b = 1" by blast
  have d: "hosts_drawn w1"
    using assms(2) a(1,2) p(1,3,4) by (auto simp: hosts_drawn_def list_all_iff drawn_def next_id_def less_Suc_eq)
  have "h1 = idgen w (idctr w)" "h2 = idgen w (Suc (idctr w))" by (simp_all only: p(1,3,4) q(1) next_id_def)
  moreover have "inj (idgen w)" using assms(2) by (simp add: hosts_drawn_def)
  ultimately have "h1 \<noteq> h2" by (simp add: inj_eq)
  moreover have ab: "hosts w2 = hosts w @ a # [b]" using a(1) b(1) by simp
  have "findUnique h_id h1 (hosts w2) = Some a"
    unfolding p(1) by (rule new_host_found [OF assms(2) ab]) (simp only: a(2) p(1))
  moreover have "findUnique h_id h2 (hosts w2) = Some b"
    unfolding q(1) by (rule new_host_found [OF d b(1)]) (simp only: b(2) q(1))
  ultimately show ?thesis
    unfolding p(2) q(2) using key_accepted [OF assms(1)] a b assms(7-9) by simp
qed

text \<open>Rotating a key replaces it. Every key of the host that was accepted before is refused from
  then on, and the key returned is accepted.\<close>

lemma rotateAgentKey_revokes:
  assumes "jwt_ok K" and "distinct (map h_id (hosts w))" and "rotateAgentKey K orgId hostId w = (Inr key, w1)"
    and "hostId \<noteq> []" and "orgId \<noteq> []"
  shows "agentAuthGuard K (Some (''Bearer '' @ key)) None w1 = Inr hostId \<and>
    (\<forall>old p. verifyAgentKey K old w = Inr p \<and> ap_sub p = hostId \<longrightarrow>
       verifyAgentKey K old w1 = Inl (UnauthorizedException ''Agent key was rotated; re-pair or use new key''))"
proof -
  from assms(3) obtain h where f: "List.find (\<lambda>h. h_id h = hostId \<and> h_orgId h = orgId) (hosts w) = Some h"
    and key: "key = signAgentKey K hostId orgId (h_agentKeyVersion h + 1)"
    and w1: "w1 = w\<lparr>hosts := updateRow h_id hostId (\<lambda>x. x\<lparr>h_agentKeyVersion := h_agentKeyVersion h + 1\<rparr>) (hosts w)\<rparr>"
    by (auto simp: rotateAgentKey_def Let_def split: option.splits)
  have h: "h \<in> set (hosts w)" "h_id h = hostId" "h_orgId h = orgId" using find_Some_set [OF f] by auto
  have u: "findUnique h_id hostId (hosts w) = Some h" using findUnique_unique [OF assms(2) h(1)] h(2) by simp
  then have u1: "findUnique h_id hostId (hosts w1) = Some (h\<lparr>h_agentKeyVersion := h_agentKeyVersion h + 1\<rparr>)"
    by (simp add: w1 findUnique_updateRow)
  have "agentAuthGuard K (Some (''Bearer '' @ key)) None w1 = Inr hostId"
    unfolding key using h by (intro key_accepted [OF assms(1) u1]) (simp_all add: assms)
  moreover have "verifyAgentKey K old w1 = Inl (UnauthorizedException ''Agent key was rotated; re-pair or use new key'')"
    if "verifyAgentKey K old w = Inr p" "ap_sub p = hostId" for old p
    using that u u1 by (auto simp: verifyAgentKey_def split: option.splits if_splits)
  ultimately show ?thesis by blast
qed

section \<open>Examples\<close>

text \<open>A signature scheme that satisfies \<open>jwt_ok\<close>: the token spells out the payload.\<close>

fun enc_str :: "string \<Rightarrow> string" where
  "enc_str [] = ''e''"
| "enc_str (c # s) = CHR ''c'' # c # enc_str s"

fun dec_str :: "string \<Rightarrow> (string \<times> string) option" where
  "dec_str [] = None"
| "dec_str [a] = (if a = CHR ''e'' then Some ([], []) else None)"
| "dec_str (a # b # r) =
     (if a = CHR ''e'' then Some ([], b # r)
      else if a = CHR ''c'' then map_option (\<lambda>(s, r'). (b # s, r')) (dec_str r) else None)"

lemma dec_enc: "dec_str (enc_str s @ r) = Some (s, r)"
proof (induction s)
  case Nil
  then show ?case by (cases r) simp_all
qed simp

definition sample_sign :: "agentPayload \<Rightarrow> string" where
  "sample_sign p = enc_str (ap_sub p) @ enc_str (ap_orgId p) @ enc_str (ap_type p) @
     (if ap_keyVersion p < 0 then CHR ''-'' else CHR ''+'') # replicate (nat \<bar>ap_keyVersion p\<bar>) CHR ''i''"

definition sample_verify :: "string \<Rightarrow> agentPayload option" where
  "sample_verify s = (case dec_str s of None \<Rightarrow> None | Some (a, r) \<Rightarrow> (case dec_str r of None \<Rightarrow> None | Some (b, r') \<Rightarrow>
     (case dec_str r' of None \<Rightarrow> None | Some (c, n) \<Rightarrow> (case n of [] \<Rightarrow> None
        | x # ys \<Rightarrow> Some \<lparr>ap_sub = a, ap_orgId = b,
            ap_keyVersion = (if x = CHR ''-'' then - int (length ys) else int (length ys)), ap_type = c\<rparr>))))"

definition sample_keys :: keyring where
  "sample_keys = \<lparr>kr_sha256 = (\<lambda>s. s), kr_sign = sample_sign, kr_verify = sample_verify, kr_verifyUser = (\<lambda>_. None), kr_iso = (\<lambda>_. ''now'')\<rparr>"

lemma sample_jwt: "jwt_ok sample_keys"
  by (simp add: jwt_ok_def sample_keys_def sample_sign_def sample_verify_def dec_enc)

definition sample_token :: pairingToken where
  "sample_token = \<lparr>pt_id = ''t'', pt_orgId = ''o'', pt_tokenHash = ''tok'', pt_expiresAt = 900, pt_usedAt = None, pt_createdById = ''u'',
     pt_usedByHostId = None\<rparr>"

definition sample_pairing :: world where
  "sample_pairing = (empty_world nat_str)\<lparr>pairingTokens := [sample_token]\<rparr>"

lemma sample_pairing_facts:
  "hosts_drawn sample_pairing" "pair_check sample_keys ''tok'' 5 sample_pairing = Inr sample_token"
  "pair_check sample_keys ''tok'' 6 sample_pairing = Inr sample_token" "next_id sample_pairing = ''0''" "pt_orgId sample_token = ''o''"
proof -
  have t: "trim ''tok'' = ''tok''" by code_simp
  show "pair_check sample_keys ''tok'' 5 sample_pairing = Inr sample_token"
    "pair_check sample_keys ''tok'' 6 sample_pairing = Inr sample_token"
    by (simp_all add: pair_check_def sample_pairing_def sample_token_def hashToken_def sample_keys_def t)
  show "next_id sample_pairing = ''0''" by code_simp
qed (simp_all add: hosts_drawn_def sample_pairing_def empty_world_def inj_nat_str sample_token_def)

theorem pair_single_use_witness:
  "\<exists>key w1. pair sample_keys ''tok'' None None 5 sample_pairing = (Inr (''0'', key), w1) \<and>
     agentAuthGuard sample_keys (Some (''Bearer '' @ key)) None w1 = Inr ''0'' \<and>
     pair sample_keys ''tok'' None None 9 w1 = (Inl (BadRequestException ''Pairing token already used''), w1)"
proof -
  obtain i key w1 where c: "pair_commit sample_keys sample_token None None 5 sample_pairing = ((i, key), w1)" by (metis surj_pair)
  have i: "i = ''0''" using pair_commit_hosts(1) [OF c] sample_pairing_facts(4) by simp
  have p: "pair sample_keys ''tok'' None None 5 sample_pairing = (Inr (''0'', key), w1)"
    using c i sample_pairing_facts(2) by (simp add: pair_def)
  have "list_all (\<lambda>t. pt_orgId t \<noteq> []) (pairingTokens sample_pairing)" by (simp add: sample_pairing_def sample_token_def)
  from pair_single_use [OF sample_jwt sample_pairing_facts(1) p _ this] p show ?thesis by blast
qed

definition sample_fleet :: world where
  "sample_fleet = (empty_world nat_str)\<lparr>hosts := [\<lparr>h_id = ''h'', h_orgId = ''o'', h_name = ''Box'', h_lastHeartbeatAt = None,
     h_agentVersion = None, h_agentKeyVersion = 1, h_status = None, h_lastMetrics = Null, h_createdAt = 0\<rparr>]\<rparr>"

end
