(* ===== verification/Rate_Limit.thy ===== *)
theory Rate_Limit
  imports Db Framework
begin

text \<open>
  The persistent limits of the public routes: control-plane/src/auth/auth-rate-limit.service.ts. Per
  key (an HMAC of a label and an address or account) the table counts requests in a window, and for
  accounts the failed sign-ins with escalating lockouts. The SQL upserts are \<open>upsert\<close> with the new
  row computed from the old one. The HMAC is a parameter; that it does not collide is a hypothesis of
  the theorem that needs it. Whether a call runs the occasional clean-up is an argument.

  Shown: of the requests in one window exactly the allowed number pass; failed sign-ins lock the
  account as the published policy says.
\<close>

section \<open>Definitions\<close>

text \<open>The field \<open>label\<close> of a bucket is written but never read.\<close>

record bucket =
  bk_keyHash :: string
  bk_limit :: int
  bk_windowMs :: ms
  bk_blockMs :: ms

record lockoutState =
  ls_failures :: int
  ls_lockoutLevel :: int
  ls_blockedUntil :: "ms option"

definition limit_key :: "(string \<Rightarrow> string) \<Rightarrow> string \<Rightarrow> string \<Rightarrow> string" where
  \<comment> \<open>\<open>key(label, value)\<close>; the parameter is the HMAC with the configured secret\<close>
  "limit_key hmac label value = hmac (label @ CHR 0x00 # value)"

definition normalizedEmail :: "string \<Rightarrow> string" where
  "normalizedEmail email = toLowerCase (trim email)"

definition accountKey :: "(string \<Rightarrow> string) \<Rightarrow> string \<Rightarrow> string" where
  "accountKey hmac email = limit_key hmac ''login-account-escalating'' (normalizedEmail email)"

definition ip_value :: "nat \<Rightarrow> string \<Rightarrow> string" where
  "ip_value n ip = take n (trim (or_str ip ''unknown''))"

definition ipBucket :: "(string \<Rightarrow> string) \<Rightarrow> string \<Rightarrow> bucket" where
  "ipBucket hmac ip = \<lparr>bk_keyHash = limit_key hmac ''login-ip'' (ip_value 128 ip), bk_limit = 20, bk_windowMs = 15 * 60000, bk_blockMs = 30 * 60000\<rparr>"

definition registrationIpHash :: "(string \<Rightarrow> string) \<Rightarrow> string \<Rightarrow> string" where
  "registrationIpHash hmac ip = limit_key hmac ''registration-ip-lifetime'' (ip_value 128 ip)"

definition throwLockout :: "ms \<Rightarrow> ms \<Rightarrow> string \<Rightarrow> exn" where
  "throwLockout until now message = TooManyRequestsException message (max 1 (- ((now - until) div 1000)))"

definition blocked_row :: "string list \<Rightarrow> ms \<Rightarrow> authRateLimit \<Rightarrow> bool" where
  "blocked_row keys now r \<longleftrightarrow> al_keyHash r \<in> set keys \<and> (case al_blockedUntil r of None \<Rightarrow> False | Some t \<Rightarrow> now < t)"

definition assertLoginAllowed :: "(string \<Rightarrow> string) \<Rightarrow> string \<Rightarrow> string \<Rightarrow> ms \<Rightarrow> world \<Rightarrow> unit res" where
  "assertLoginAllowed hmac email ip now w =
     (case orderDesc (\<lambda>r. opt_or (al_blockedUntil r) 0)
             (filter (blocked_row [accountKey hmac email, bk_keyHash (ipBucket hmac ip)] now) (authRateLimits w)) of
        [] \<Rightarrow> Inr ()
      | r # _ \<Rightarrow> Inl (throwLockout (opt_or (al_blockedUntil r) 0) now ''Account temporarily locked after repeated failed sign-in attempts.''))"

definition upsert :: "string \<Rightarrow> authRateLimit \<Rightarrow> (authRateLimit \<Rightarrow> authRateLimit) \<Rightarrow> world \<Rightarrow> world" where
  \<comment> \<open>\<open>INSERT ... ON CONFLICT (key_hash) DO UPDATE\<close>\<close>
  "upsert key new f w =
     w\<lparr>authRateLimits := (if findUnique al_keyHash key (authRateLimits w) = None then authRateLimits w @ [new]
        else updateRow al_keyHash key f (authRateLimits w))\<rparr>"

definition first_row :: "string \<Rightarrow> ms \<Rightarrow> authRateLimit" where
  "first_row key now = \<lparr>al_keyHash = key, al_failures = 1, al_windowStartedAt = now, al_blockedUntil = None, al_lockoutLevel = 0, al_updatedAt = now\<rparr>"

definition increment_row :: "bucket \<Rightarrow> ms \<Rightarrow> authRateLimit \<Rightarrow> authRateLimit" where
  "increment_row b now r =
     (let expired = (al_windowStartedAt r < now - bk_windowMs b) in
      r\<lparr>al_failures := (if expired then 1 else al_failures r + 1),
        al_windowStartedAt := (if expired then now else al_windowStartedAt r),
        al_blockedUntil := (if expired then None
          else if bk_limit b \<le> al_failures r + 1 then Some (now + bk_blockMs b) else al_blockedUntil r),
        al_updatedAt := now\<rparr>)"

definition incrementWindowBucket :: "bucket \<Rightarrow> ms \<Rightarrow> world \<Rightarrow> world" where
  "incrementWindowBucket b now w = upsert (bk_keyHash b) (first_row (bk_keyHash b) now) (increment_row b now) w"

definition lockout_ms :: "int \<Rightarrow> ms" where
  "lockout_ms level = (if level = 0 then 5 * 60000 else if level = 1 then 30 * 60000 else if level = 2 then 180 * 60000 else 1440 * 60000)"

definition failure_row :: "ms \<Rightarrow> authRateLimit \<Rightarrow> authRateLimit" where
  "failure_row now r =
     (let hit = (3 \<le> al_failures r + 1) in
      r\<lparr>al_failures := (if hit then 0 else al_failures r + 1), al_windowStartedAt := now,
        al_blockedUntil := (if hit then Some (now + lockout_ms (al_lockoutLevel r)) else None),
        al_lockoutLevel := (if hit then min (al_lockoutLevel r + 1) 4 else al_lockoutLevel r), al_updatedAt := now\<rparr>)"

definition cleanupOccasionally :: "bool \<Rightarrow> ms \<Rightarrow> world \<Rightarrow> world" where
  "cleanupOccasionally clean now w =
     (if \<not> clean then w
      else w\<lparr>authRateLimits := deleteMany (\<lambda>r. al_lockoutLevel r = 0 \<and> al_updatedAt r < now - 48 * 60 * 60000) (authRateLimits w)\<rparr>)"

definition recordLoginFailure :: "(string \<Rightarrow> string) \<Rightarrow> string \<Rightarrow> string \<Rightarrow> bool \<Rightarrow> ms \<Rightarrow> world \<Rightarrow> lockoutState option \<times> world" where
  "recordLoginFailure hmac email ip clean now w =
     (let k = accountKey hmac email;
          w1 = upsert k (first_row k now) (failure_row now) (incrementWindowBucket (ipBucket hmac ip) now w);
          state = findUnique al_keyHash k (authRateLimits w1)
      in (case state of
            None \<Rightarrow> None
          | Some r \<Rightarrow> (case al_blockedUntil r of
               None \<Rightarrow> None
             | Some t \<Rightarrow> if now < t then Some \<lparr>ls_failures = al_failures r, ls_lockoutLevel = al_lockoutLevel r, ls_blockedUntil = Some t\<rparr> else None),
          cleanupOccasionally clean now w1))"

definition recordLoginSuccess :: "(string \<Rightarrow> string) \<Rightarrow> string \<Rightarrow> world \<Rightarrow> world" where
  "recordLoginSuccess hmac email w = w\<lparr>authRateLimits := deleteMany (\<lambda>r. al_keyHash r = accountKey hmac email) (authRateLimits w)\<rparr>"

definition throwActiveLockout :: "lockoutState \<Rightarrow> ms \<Rightarrow> exn" where
  "throwActiveLockout state now =
     throwLockout (opt_or (ls_blockedUntil state) (now + 60000)) now ''Account temporarily locked after repeated failed sign-in attempts.''"

definition getAccountState :: "(string \<Rightarrow> string) \<Rightarrow> string \<Rightarrow> world \<Rightarrow> lockoutState" where
  "getAccountState hmac email w =
     (case findUnique al_keyHash (accountKey hmac email) (authRateLimits w) of
        None \<Rightarrow> \<lparr>ls_failures = 0, ls_lockoutLevel = 0, ls_blockedUntil = None\<rparr>
      | Some r \<Rightarrow> \<lparr>ls_failures = al_failures r, ls_lockoutLevel = al_lockoutLevel r, ls_blockedUntil = al_blockedUntil r\<rparr>)"

definition assertKeysAllowed :: "string list \<Rightarrow> string \<Rightarrow> ms \<Rightarrow> world \<Rightarrow> unit res" where
  "assertKeysAllowed keys message now w =
     (case List.find (blocked_row keys now) (authRateLimits w) of
        None \<Rightarrow> Inr ()
      | Some r \<Rightarrow> Inl (throwLockout (opt_or (al_blockedUntil r) 0) now message))"

definition consume :: "bucket \<Rightarrow> string \<Rightarrow> bool \<Rightarrow> ms \<Rightarrow> world \<Rightarrow> unit res \<times> world" where
  "consume b message clean now w =
     (case assertKeysAllowed [bk_keyHash b] message now w of
        Inl e \<Rightarrow> (Inl e, w)
      | Inr _ \<Rightarrow> (Inr (), cleanupOccasionally clean now (incrementWindowBucket b now w)))"

definition ip_bucket :: "(string \<Rightarrow> string) \<Rightarrow> string \<Rightarrow> string \<Rightarrow> int \<Rightarrow> ms \<Rightarrow> bucket" where
  "ip_bucket hmac label ip n window =
     \<lparr>bk_keyHash = limit_key hmac label (ip_value 128 ip), bk_limit = n, bk_windowMs = window, bk_blockMs = window\<rparr>"

definition consumeRegistration :: "(string \<Rightarrow> string) \<Rightarrow> string \<Rightarrow> bool \<Rightarrow> ms \<Rightarrow> world \<Rightarrow> unit res \<times> world" where
  "consumeRegistration hmac ip clean now w = consume (ip_bucket hmac ''register-ip'' ip 5 (60 * 60000)) ''Too many requests.'' clean now w"

definition consumeVerificationResend :: "(string \<Rightarrow> string) \<Rightarrow> string \<Rightarrow> bool \<Rightarrow> ms \<Rightarrow> world \<Rightarrow> unit res \<times> world" where
  "consumeVerificationResend hmac ip clean now w =
     consume (ip_bucket hmac ''verification-resend-ip'' ip 5 (60 * 60000)) ''Too many requests.'' clean now w"

definition consumePairing :: "(string \<Rightarrow> string) \<Rightarrow> string \<Rightarrow> bool \<Rightarrow> ms \<Rightarrow> world \<Rightarrow> unit res \<times> world" where
  "consumePairing hmac ip clean now w = consume (ip_bucket hmac ''pairing-ip'' ip 10 60000) ''Too many pairing attempts.'' clean now w"

definition consumeSteamVerify :: "(string \<Rightarrow> string) \<Rightarrow> string \<Rightarrow> bool \<Rightarrow> ms \<Rightarrow> world \<Rightarrow> unit res \<times> world" where
  "consumeSteamVerify hmac ip clean now w =
     consume (ip_bucket hmac ''steam-verify-ip'' ip 20 (15 * 60000)) ''Too many Steam verification attempts.'' clean now w"

definition consumePlayerPortalRegister :: "(string \<Rightarrow> string) \<Rightarrow> string \<Rightarrow> bool \<Rightarrow> ms \<Rightarrow> world \<Rightarrow> unit res \<times> world" where
  "consumePlayerPortalRegister hmac ip clean now w =
     consume (ip_bucket hmac ''player-portal-register-ip'' ip 8 (60 * 60000)) ''Too many account attempts.'' clean now w"

definition consumePlayerPortalLogin :: "(string \<Rightarrow> string) \<Rightarrow> string \<Rightarrow> bool \<Rightarrow> ms \<Rightarrow> world \<Rightarrow> unit res \<times> world" where
  "consumePlayerPortalLogin hmac ip clean now w =
     consume (ip_bucket hmac ''player-portal-login-ip'' ip 20 (15 * 60000)) ''Too many sign-in attempts.'' clean now w"

definition consumeDonationCheckout :: "(string \<Rightarrow> string) \<Rightarrow> string \<Rightarrow> id \<Rightarrow> bool \<Rightarrow> ms \<Rightarrow> world \<Rightarrow> unit res \<times> world" where
  "consumeDonationCheckout hmac ip playerId clean now w =
     (case consume (ip_bucket hmac ''donation-checkout-ip'' ip 10 (15 * 60000)) ''Too many donation attempts.'' clean now w of
        (Inl e, w1) \<Rightarrow> (Inl e, w1)
      | (Inr _, w1) \<Rightarrow>
          consume \<lparr>bk_keyHash = limit_key hmac ''donation-checkout-player'' (ip_value 64 playerId), bk_limit = 8,
            bk_windowMs = 15 * 60000, bk_blockMs = 15 * 60000\<rparr> ''Too many donation attempts.'' clean now w1)"

definition consumeStripeWebhook :: "(string \<Rightarrow> string) \<Rightarrow> string \<Rightarrow> bool \<Rightarrow> ms \<Rightarrow> world \<Rightarrow> unit res \<times> world" where
  "consumeStripeWebhook hmac ip clean now w =
     consume (ip_bucket hmac ''stripe-webhook-ip'' ip 120 60000) ''Too many payment webhook requests.'' clean now w"

text \<open>The policy the login page shows: failures and minutes of each step.\<close>

definition LOGIN_LOCKOUT_POLICY :: "(int \<times> int) list" where
  "LOGIN_LOCKOUT_POLICY = [(3, 5), (3, 30), (3, 180), (3, 1440)]"

section \<open>Rows\<close>

lemma upsert_same:
  assumes "al_keyHash new = k" and "\<And>r. al_keyHash (f r) = al_keyHash r"
  shows "findUnique al_keyHash k (authRateLimits (upsert k new f w)) =
    Some (case findUnique al_keyHash k (authRateLimits w) of None \<Rightarrow> new | Some r \<Rightarrow> f r)"
  using assms by (simp add: upsert_def findUnique_append findUnique_Cons findUnique_updateRow split: option.split)

lemma upsert_other:
  assumes "al_keyHash new = k'" and "\<And>r. al_keyHash (f r) = al_keyHash r" and "k \<noteq> k'"
  shows "findUnique al_keyHash k (authRateLimits (upsert k' new f w)) = findUnique al_keyHash k (authRateLimits w)"
  using assms by (simp add: upsert_def findUnique_append findUnique_Cons findUnique_updateRow split: option.split)

lemma upsert_distinct:
  assumes "al_keyHash new = k" and "\<And>r. al_keyHash (f r) = al_keyHash r" and "distinct (map al_keyHash (authRateLimits w))"
  shows "distinct (map al_keyHash (authRateLimits (upsert k new f w)))"
  using assms by (auto simp: upsert_def findUnique_None map_updateRow)

lemma row_keys [simp]:
  "al_keyHash (first_row k now) = k" "al_keyHash (increment_row b now r) = al_keyHash r" "al_keyHash (failure_row now r) = al_keyHash r"
  by (simp_all add: first_row_def increment_row_def failure_row_def Let_def)

lemma cleanup_keeps:
  assumes "findUnique al_keyHash k (authRateLimits w) = Some r" and "now - 48 * 60 * 60000 \<le> al_updatedAt r"
  shows "findUnique al_keyHash k (authRateLimits (cleanupOccasionally clean now w)) = Some r"
proof -
  have "findUnique al_keyHash k (deleteMany (\<lambda>r. al_lockoutLevel r = 0 \<and> al_updatedAt r < now - 172800000) rs) = Some r"
    if "findUnique al_keyHash k rs = Some r" for rs
    using that assms(2) by (induction rs) (auto simp: findUnique_Cons deleteMany_def split: if_splits)
  then show ?thesis using assms(1) by (simp add: cleanupOccasionally_def)
qed

lemma cleanup_distinct:
  "distinct (map al_keyHash (authRateLimits w)) \<Longrightarrow> distinct (map al_keyHash (authRateLimits (cleanupOccasionally clean now w)))"
  by (simp add: cleanupOccasionally_def deleteMany_def distinct_map_filter)

section \<open>Lockouts\<close>

lemma login_keys_differ: "inj hmac \<Longrightarrow> accountKey hmac email \<noteq> bk_keyHash (ipBucket hmac ip)"
  by (auto simp: accountKey_def ipBucket_def limit_key_def dest!: injD)

lemma failure_account_row:
  assumes "inj hmac"
  shows "findUnique al_keyHash (accountKey hmac email) (authRateLimits (snd (recordLoginFailure hmac email ip clean now w))) =
    Some (case findUnique al_keyHash (accountKey hmac email) (authRateLimits w) of
            None \<Rightarrow> first_row (accountKey hmac email) now | Some r \<Rightarrow> failure_row now r)"
proof -
  let ?k = "accountKey hmac email"
  have u: "al_updatedAt (first_row k now) = now" "al_updatedAt (failure_row now r) = now" for k r
    by (simp_all add: first_row_def failure_row_def Let_def)
  show ?thesis
    unfolding recordLoginFailure_def Let_def snd_conv
    by (rule cleanup_keeps)
      (simp_all add: upsert_same incrementWindowBucket_def upsert_other [OF _ _ login_keys_differ [OF assms]] u split: option.split)
qed

definition fail_all :: "(string \<Rightarrow> string) \<Rightarrow> string \<Rightarrow> (string \<times> bool \<times> ms) list \<Rightarrow> world \<Rightarrow> world" where
  \<comment> \<open>failed sign-ins of one account, each from an address, at a time\<close>
  "fail_all hmac email steps w = foldl (\<lambda>w (ip, clean, now). snd (recordLoginFailure hmac email ip clean now w)) w steps"

definition policy_ms :: "nat \<Rightarrow> ms" where
  \<comment> \<open>the duration of the policy's step \<open>k\<close>, the last step repeating\<close>
  "policy_ms k = snd (LOGIN_LOCKOUT_POLICY ! min 3 k) * 60000"

lemma lockout_policy: "lockout_ms (min 4 (int k)) = policy_ms k"
proof -
  consider "k = 0" | "k = 1" | "k = 2" | "3 \<le> k" by linarith
  then show ?thesis by cases (simp_all add: lockout_ms_def policy_ms_def LOGIN_LOCKOUT_POLICY_def min_def)
qed

definition policy_row :: "nat \<Rightarrow> ms \<Rightarrow> authRateLimit \<Rightarrow> bool" where
  "policy_row n now r \<longleftrightarrow> al_failures r = int (n mod 3) \<and> al_lockoutLevel r = min 4 (int (n div 3)) \<and>
     al_blockedUntil r = (if n mod 3 = 0 then Some (now + policy_ms (n div 3 - 1)) else None)"

lemma policy_row_step:
  assumes "policy_row n t r"
  shows "policy_row (Suc n) now (failure_row now r)"
proof (cases "n mod 3 = 2")
  case True
  then have "Suc n mod 3 = 0" "Suc n div 3 = Suc (n div 3)" by (presburger, presburger)
  moreover have "lockout_ms (al_lockoutLevel r) = policy_ms (n div 3)"
    using assms lockout_policy by (simp add: policy_row_def)
  ultimately show ?thesis
    using True assms by (auto simp: policy_row_def failure_row_def Let_def min_def)
next
  case False
  then have "n mod 3 < 2" "Suc n mod 3 = Suc (n mod 3)" "Suc n div 3 = n div 3" by (presburger, presburger, presburger)
  with assms show ?thesis by (auto simp: policy_row_def failure_row_def Let_def)
qed

lemma fail_all_row:
  assumes "inj hmac" and "findUnique al_keyHash (accountKey hmac email) (authRateLimits w) = None"
  shows "\<exists>r. findUnique al_keyHash (accountKey hmac email) (authRateLimits (fail_all hmac email (steps @ [(ip, clean, now)]) w)) = Some r \<and>
    policy_row (Suc (length steps)) now r"
proof (induction steps arbitrary: ip clean now rule: rev_induct)
  case Nil
  then show ?case
    by (simp add: fail_all_def failure_account_row [OF assms(1)] assms(2)) (simp add: policy_row_def first_row_def)
next
  case (snoc x steps)
  obtain ip0 clean0 t where x: "x = (ip0, clean0, t)" by (metis surj_pair)
  let ?w = "fail_all hmac email (steps @ [(ip0, clean0, t)]) w"
  from snoc.IH [of ip0 clean0 t] obtain r where r:
    "findUnique al_keyHash (accountKey hmac email) (authRateLimits ?w) = Some r" "policy_row (Suc (length steps)) t r" by blast
  have "fail_all hmac email ((steps @ [x]) @ [(ip, clean, now)]) w = snd (recordLoginFailure hmac email ip clean now ?w)"
    by (simp add: fail_all_def x)
  with r show ?case by (simp add: failure_account_row [OF assms(1)] policy_row_step)
qed

text \<open>C20: the lockouts follow the published policy. After any number of failed sign-ins of an account
  in a row, from whatever addresses, the account is locked exactly after every third, for five
  minutes, half an hour, three hours and from then on for a day, and while it is locked every
  attempt to sign in is refused, from any address.\<close>

theorem lockout_follows_policy:
  assumes "inj hmac" and "findUnique al_keyHash (accountKey hmac email) (authRateLimits w) = None"
    and "n = length steps + 1" and w'_def: "w' = fail_all hmac email (steps @ [(ip, clean, now)]) w"
  shows "getAccountState hmac email w' = \<lparr>ls_failures = int (n mod 3), ls_lockoutLevel = min 4 (int (n div 3)),
      ls_blockedUntil = (if n mod 3 = 0 then Some (now + policy_ms (n div 3 - 1)) else None)\<rparr> \<and>
    (n mod 3 = 0 \<longrightarrow> (\<forall>ip' t. now \<le> t \<and> t < now + policy_ms (n div 3 - 1) \<longrightarrow>
       (\<exists>e. assertLoginAllowed hmac email ip' t w' = Inl e)))"
proof -
  obtain r where r: "findUnique al_keyHash (accountKey hmac email) (authRateLimits w') = Some r" "policy_row n now r"
    using fail_all_row [OF assms(1,2), of steps ip clean now] assms(3) w'_def by auto
  have r_in: "r \<in> set (authRateLimits w')" "al_keyHash r = accountKey hmac email" using findUnique_Some [OF r(1)] by auto
  have "\<exists>e. assertLoginAllowed hmac email ip' t w' = Inl e" if "n mod 3 = 0" "t < now + policy_ms (n div 3 - 1)" for ip' t
  proof -
    let ?rows = "filter (blocked_row [accountKey hmac email, bk_keyHash (ipBucket hmac ip')] t) (authRateLimits w')"
    have "r \<in> set ?rows" using r(2) r_in that by (simp add: blocked_row_def policy_row_def)
    then have "orderDesc (\<lambda>r. opt_or (al_blockedUntil r) 0) ?rows \<noteq> []"
      by (metis empty_iff list.set(1) orderDesc_def set_sort)
    then show ?thesis by (auto simp: assertLoginAllowed_def split: list.split)
  qed
  then show ?thesis using r by (simp add: getAccountState_def policy_row_def)
qed

theorem lockout_follows_policy_witness:
  "getAccountState (\<lambda>s. s) ''a@b'' (fail_all (\<lambda>s. s) ''a@b'' [(''1'', False, 10), (''2'', True, 20), (''3'', False, 30)] (empty_world nat_str)) =
     \<lparr>ls_failures = 0, ls_lockoutLevel = 1, ls_blockedUntil = Some 300030\<rparr>"
proof -
  have "findUnique al_keyHash (accountKey (\<lambda>s. s) ''a@b'') (authRateLimits (empty_world nat_str)) = None"
    by (simp add: empty_world_def)
  from lockout_follows_policy [OF _ this refl refl, of "[(''1'', False, 10), (''2'', True, 20)]" "''3''" False 30] show ?thesis
    by (simp add: policy_ms_def LOGIN_LOCKOUT_POLICY_def)
qed

section \<open>Windows\<close>

definition admit :: "bucket \<Rightarrow> string \<Rightarrow> (ms \<Rightarrow> bool) \<Rightarrow> ms \<Rightarrow> world \<Rightarrow> bool \<times> world" where
  "admit b message clean now w = (case consume b message (clean now) now w of (Inl _, w1) \<Rightarrow> (False, w1) | (Inr _, w1) \<Rightarrow> (True, w1))"

lemma find_blocked:
  assumes "distinct (map al_keyHash rs)"
  shows "List.find (blocked_row [k] now) rs =
    (case findUnique al_keyHash k rs of None \<Rightarrow> None | Some r \<Rightarrow> if blocked_row [k] now r then Some r else None)"
  using assms
proof (induction rs)
  case (Cons r rs)
  show ?case
  proof (cases "al_keyHash r = k")
    case True
    with Cons.prems have "findUnique al_keyHash k rs = None" by (auto simp: findUnique_None)
    with Cons True show ?thesis by (simp add: findUnique_Cons)
  next
    case False
    with Cons show ?thesis by (simp add: findUnique_Cons blocked_row_def)
  qed
qed simp

lemma admit_row:
  assumes "distinct (map al_keyHash (authRateLimits w))"
    and row: "case findUnique al_keyHash (bk_keyHash b) (authRateLimits w) of None \<Rightarrow> True | Some r \<Rightarrow> \<not> blocked_row [bk_keyHash b] now r"
    and "admit b m clean now w = (ok, w')"
  shows "ok \<and> distinct (map al_keyHash (authRateLimits w')) \<and>
    findUnique al_keyHash (bk_keyHash b) (authRateLimits w') =
      Some (case findUnique al_keyHash (bk_keyHash b) (authRateLimits w) of
              None \<Rightarrow> first_row (bk_keyHash b) now | Some r \<Rightarrow> increment_row b now r)"
proof -
  have "List.find (blocked_row [bk_keyHash b] now) (authRateLimits w) = None"
    using row by (auto simp: find_blocked [OF assms(1)] split: option.splits)
  then have w': "ok" "w' = cleanupOccasionally (clean now) now (incrementWindowBucket b now w)"
    using assms(3) by (auto simp: admit_def consume_def assertKeysAllowed_def)
  have "al_updatedAt (first_row k now) = now" "al_updatedAt (increment_row b now r) = now" for k r
    by (simp_all add: first_row_def increment_row_def Let_def)
  then have "findUnique al_keyHash (bk_keyHash b) (authRateLimits w') =
      Some (case findUnique al_keyHash (bk_keyHash b) (authRateLimits w) of
              None \<Rightarrow> first_row (bk_keyHash b) now | Some r \<Rightarrow> increment_row b now r)"
    unfolding w' by (intro cleanup_keeps) (simp_all add: incrementWindowBucket_def upsert_same split: option.split)
  moreover have "distinct (map al_keyHash (authRateLimits w'))"
    unfolding w' by (intro cleanup_distinct) (simp add: incrementWindowBucket_def upsert_distinct assms(1))
  ultimately show ?thesis using w'(1) by blast
qed

lemma admit_blocked:
  assumes "distinct (map al_keyHash (authRateLimits w))"
    and "findUnique al_keyHash (bk_keyHash b) (authRateLimits w) = Some r" and "blocked_row [bk_keyHash b] now r"
  shows "admit b m clean now w = (False, w)"
  using assms by (simp add: admit_def consume_def assertKeysAllowed_def find_blocked [OF assms(1)])

text \<open>Inside a window: the row counts the requests that passed, and blocks from the last one on.\<close>

definition window_row :: "bucket \<Rightarrow> ms \<Rightarrow> int \<Rightarrow> authRateLimit \<Rightarrow> bool" where
  "window_row b start c r \<longleftrightarrow> al_failures r = c \<and> al_windowStartedAt r = start \<and> 1 \<le> c \<and> c \<le> bk_limit b \<and>
     (if c < bk_limit b then al_blockedUntil r = None else \<exists>t. al_blockedUntil r = Some t \<and> start + bk_blockMs b \<le> t)"

lemma admitted_window:
  assumes "bk_windowMs b \<le> bk_blockMs b"
  shows "distinct (map al_keyHash (authRateLimits w)) \<Longrightarrow>
    findUnique al_keyHash (bk_keyHash b) (authRateLimits w) = Some r \<Longrightarrow> al_keyHash r = bk_keyHash b \<Longrightarrow> window_row b start c r \<Longrightarrow>
    list_all (\<lambda>t. start \<le> t \<and> t < start + bk_windowMs b) ts \<Longrightarrow>
    int (accepted (admit b m clean) ts w) = min (int (length ts)) (bk_limit b - c)"
proof (induction ts arbitrary: w r c)
  case Nil
  then show ?case by (simp add: window_row_def)
next
  case (Cons t ts)
  obtain ok w' where st: "admit b m clean t w = (ok, w')" by fastforce
  show ?case
  proof (cases "c < bk_limit b")
    case True
    then have "\<not> blocked_row [bk_keyHash b] t r" using Cons.prems(4) by (simp add: blocked_row_def window_row_def)
    then have a: "ok" "distinct (map al_keyHash (authRateLimits w'))"
      "findUnique al_keyHash (bk_keyHash b) (authRateLimits w') = Some (increment_row b t r)"
      using admit_row [OF Cons.prems(1) _ st] Cons.prems(2) by simp_all
    have "window_row b start (c + 1) (increment_row b t r)"
      using Cons.prems(4,5) True by (auto simp: window_row_def increment_row_def Let_def)
    from Cons.IH [OF a(2,3) _ this] Cons.prems(3,5) st a(1) True show ?thesis by auto
  next
    case False
    then have "blocked_row [bk_keyHash b] t r"
      using Cons.prems(3,4,5) assms by (auto simp: blocked_row_def window_row_def)
    then have "admit b m clean t w = (False, w)" by (rule admit_blocked [OF Cons.prems(1,2)])
    with Cons.IH [OF Cons.prems(1-4)] Cons.prems(4,5) False show ?thesis by (auto simp: window_row_def)
  qed
qed

text \<open>The limit of a public route is exact. Of the requests with one key in a window that starts
  with the first of them, in whatever order of times, the first so many pass as the limit says and
  all others are refused, for every limit of at least two whose block is no shorter than its window.\<close>

lemma consume_window:
  assumes "distinct (map al_keyHash (authRateLimits w))" and "findUnique al_keyHash (bk_keyHash b) (authRateLimits w) = None"
    and "2 \<le> bk_limit b" and "bk_windowMs b \<le> bk_blockMs b"
    and "list_all (\<lambda>t. start \<le> t \<and> t < start + bk_windowMs b) ts"
  shows "int (accepted (admit b m clean) (start # ts) w) = min (int (length (start # ts))) (bk_limit b)"
proof -
  obtain ok w' where st: "admit b m clean start w = (ok, w')" by fastforce
  have a: "ok" "distinct (map al_keyHash (authRateLimits w'))"
    "findUnique al_keyHash (bk_keyHash b) (authRateLimits w') = Some (first_row (bk_keyHash b) start)"
    using admit_row [OF assms(1) _ st] assms(2) by simp_all
  have "window_row b start 1 (first_row (bk_keyHash b) start)" using assms(3) by (simp add: window_row_def first_row_def)
  from admitted_window [OF assms(4) a(2,3) _ this assms(5)] st a(1) show ?thesis by simp
qed

end
