(* ===== verification/Payments.thy ===== *)
theory Payments
  imports Db "HOL-Library.Word"
begin

text \<open>
  Payments, the part without tables: control-plane/src/donations/donations.logic.ts (amounts, the
  ledger, the objects Stripe sends), donations.shop.ts (parsing of shop input) and
  donations.stripe.ts (keys, the signature of a webhook, the checkout form). SHA-256, the HTTP call
  and the URL parser of the runtime are parameters (\<open>stripe\<close>); an amount of money is an integer
  number of cents.

  Shown: an accepted webhook carries a fresh signature made with one of the configured secrets, and
  a header made with the secret is accepted; a session that was paid is read back as the checkout
  that was created; refunds of one payment add up to at most its amount.
\<close>

section \<open>The ledger\<close>

definition MIN_DONATION_CENTS :: int where "MIN_DONATION_CENTS = 500"
definition MAX_DONATION_CENTS :: int where "MAX_DONATION_CENTS = 50000"

datatype donationStatus = DonationCompleted | DonationRefunded

record ledgerDonation =
  ld_sessionId :: string
  ld_paymentIntentId :: "string option"
  ld_amountCents :: int
  ld_refundedCents :: int
  ld_status :: donationStatus

record ledgerPlayer =
  lp_supporter :: bool
  lp_supporterSince :: "ms option"
  lp_totalDonatedCents :: int

definition parseDonationAmountCents :: "js \<Rightarrow> int option" where
  "parseDonationAmountCents raw =
     (case raw of
        Num n \<Rightarrow> if \<not> isInteger n then None
                 else if num_int n < MIN_DONATION_CENTS \<or> num_int n > MAX_DONATION_CENTS then None
                 else Some (num_int n)
      | _ \<Rightarrow> None)"

definition creditCompletedSession ::
    "ledgerDonation option \<Rightarrow> string \<Rightarrow> string option \<Rightarrow> jsnum \<Rightarrow> ledgerPlayer \<Rightarrow> ms \<Rightarrow> ledgerDonation \<times> ledgerPlayer \<times> bool" where
  "creditCompletedSession existing sessionId paymentIntentId amountCents player now =
     (case existing of
        Some d \<Rightarrow> (d, player, False)
      | None \<Rightarrow>
          if \<not> isInteger amountCents \<or> num_int amountCents \<le> 0
          then (\<lparr>ld_sessionId = sessionId, ld_paymentIntentId = paymentIntentId, ld_amountCents = 0,
                 ld_refundedCents = 0, ld_status = DonationCompleted\<rparr>, player, False)
          else
            let total = lp_totalDonatedCents player + num_int amountCents
            in (\<lparr>ld_sessionId = sessionId, ld_paymentIntentId = paymentIntentId, ld_amountCents = num_int amountCents,
                 ld_refundedCents = 0, ld_status = DonationCompleted\<rparr>,
                \<lparr>lp_supporter = (0 < total),
                 lp_supporterSince = opt_orelse (lp_supporterSince player) (if 0 < total then Some now else None),
                 lp_totalDonatedCents = total\<rparr>, True))"

definition trunc_rat :: "rat \<Rightarrow> int" where
  "trunc_rat q = (if q < 0 then \<lceil>q\<rceil> else \<lfloor>q\<rfloor>)"

definition next_refunded :: "int \<Rightarrow> int \<Rightarrow> jsnum \<Rightarrow> int" where
  \<comment> \<open>\<open>Math.min(amount, Math.max(refunded, Math.trunc(n) || 0))\<close>\<close>
  "next_refunded amount refunded n =
     (case n of
        NaN \<Rightarrow> min amount (max refunded 0)
      | Infinite b \<Rightarrow> if b then amount else min amount refunded
      | Fin q \<Rightarrow> min amount (max refunded (trunc_rat q)))"

definition applyChargeRefund ::
    "ledgerDonation option \<Rightarrow> jsnum \<Rightarrow> ledgerPlayer \<Rightarrow> ledgerDonation option \<times> ledgerPlayer \<times> bool \<times> int" where
  "applyChargeRefund donation refundedCents player =
     (case donation of
        None \<Rightarrow> (None, player, False, 0)
      | Some d \<Rightarrow>
          let nextRefunded = next_refunded (ld_amountCents d) (ld_refundedCents d) refundedCents;
              delta = nextRefunded - ld_refundedCents d
          in if delta \<le> 0 then (Some d, player, False, 0)
             else
               let total = max 0 (lp_totalDonatedCents player - delta)
               in (Some (d\<lparr>ld_refundedCents := nextRefunded,
                           ld_status := (if ld_amountCents d \<le> nextRefunded then DonationRefunded else DonationCompleted)\<rparr>),
                   \<lparr>lp_supporter = (0 < total), lp_supporterSince = (if 0 < total then lp_supporterSince player else None),
                    lp_totalDonatedCents = total\<rparr>, True, delta))"

section \<open>Objects of Stripe\<close>

definition stripeObjectId :: "js \<Rightarrow> string option" where
  "stripeObjectId value =
     (case value of
        Str s \<Rightarrow> if trim s \<noteq> [] then Some (take 255 (trim s)) else None
      | Obj o' \<Rightarrow> (case get o' ''id'' of Str s \<Rightarrow> or_null (take 255 (trim s)) | _ \<Rightarrow> None)
      | _ \<Rightarrow> None)"

definition id_char :: "char \<Rightarrow> bool" where
  "id_char c = (is_alnum c \<or> c = CHR ''_'' \<or> c = CHR ''-'')"

definition id_ok :: "string \<Rightarrow> bool" where
  \<comment> \<open>\<open>/^[a-z0-9_-]{10,40}$/i\<close>\<close>
  "id_ok s \<longleftrightarrow> 10 \<le> length s \<and> length s \<le> 40 \<and> list_all id_char s"

record paidSession =
  pd_sessionId :: string
  pd_paymentIntentId :: "string option"
  pd_amountCents :: int
  pd_currency :: string
  pd_playerId :: id
  pd_steamId :: string
  pd_serverInstanceId :: id
  pd_orgId :: id
  pd_shopItemId :: "id option"
  pd_shopItemIds :: "id list"
  pd_lineAmounts :: "int list"

definition session_items :: "js \<Rightarrow> id list" where
  "session_items metadata =
     (let single = (case field metadata ''shopItemId'' of Str s \<Rightarrow> if id_ok s then [s] else [] | _ \<Rightarrow> []) in
      case field metadata ''shopItemIds'' of
        Str s \<Rightarrow> if trim s \<noteq> [] then filter id_ok (map trim (split CHR '','' s)) else single
      | _ \<Rightarrow> single)"

definition session_amounts :: "js \<Rightarrow> int list" where
  "session_amounts metadata =
     (case field metadata ''lineAmounts'' of
        Str s \<Rightarrow> if trim s \<noteq> []
          then map num_int (filter (\<lambda>n. isInteger n \<and> 0 < num_int n) (map (\<lambda>part. toNumber (trim part)) (split CHR '','' s)))
          else []
      | _ \<Rightarrow> [])"

definition parsePaidCheckoutSession :: "obj \<Rightarrow> paidSession option" where
  "parsePaidCheckoutSession object =
     (if get object ''payment_status'' \<noteq> Str ''paid'' then None
      else
        let metadata = (if is_object (get object ''metadata'') then get object ''metadata'' else Obj []);
            playerId = (case field metadata ''playerId'' of Str s \<Rightarrow> Some s | _ \<Rightarrow> stripeObjectId (get object ''client_reference_id''));
            steamId = str_of (field metadata ''steamId'');
            serverInstanceId = str_of (field metadata ''serverInstanceId'');
            orgId = str_of (field metadata ''orgId'');
            shopItemIds = session_items metadata
        in case (stripeObjectId (get object ''id''), get object ''amount_total'', playerId) of
             (Some sessionId, Num n, Some player) \<Rightarrow>
               if \<not> isInteger n \<or> num_int n \<le> 0 \<or> player = [] \<or> steamId = [] \<or> serverInstanceId = [] \<or> orgId = [] then None
               else Some \<lparr>pd_sessionId = sessionId, pd_paymentIntentId = stripeObjectId (get object ''payment_intent''),
                 pd_amountCents = num_int n,
                 pd_currency = (if str_of (get object ''currency'') \<noteq> [] then take 8 (str_of (get object ''currency'')) else ''usd''),
                 pd_playerId = player, pd_steamId = steamId, pd_serverInstanceId = serverInstanceId, pd_orgId = orgId,
                 pd_shopItemId = (case shopItemIds of [i] \<Rightarrow> Some i | _ \<Rightarrow> None), pd_shopItemIds = shopItemIds,
                 pd_lineAmounts = session_amounts metadata\<rparr>
           | _ \<Rightarrow> None)"

definition int_field :: "obj \<Rightarrow> string \<Rightarrow> int option" where
  \<comment> \<open>\<open>typeof v === 'number' && Number.isInteger(v) ? v : null\<close>\<close>
  "int_field object k = (case get object k of Num n \<Rightarrow> if isInteger n then Some (num_int n) else None | _ \<Rightarrow> None)"

definition parseChargeRefund :: "obj \<Rightarrow> (string \<times> int) option" where
  "parseChargeRefund object =
     (let refundedCents = (case int_field object ''amount_refunded'' of
            Some n \<Rightarrow> Some n
          | None \<Rightarrow> if get object ''refunded'' = Bool True then int_field object ''amount'' else None)
      in case (stripeObjectId (get object ''payment_intent''), refundedCents) of
           (Some paymentIntentId, Some n) \<Rightarrow> if n < 0 then None else Some (paymentIntentId, n)
         | _ \<Rightarrow> None)"

definition parseLostDispute :: "obj \<Rightarrow> (string \<times> int) option" where
  "parseLostDispute object =
     (if get object ''status'' \<noteq> Str ''lost'' then None
      else case (stripeObjectId (get object ''payment_intent''), int_field object ''amount'') of
             (Some paymentIntentId, Some n) \<Rightarrow> if n \<le> 0 then None else Some (paymentIntentId, n)
           | _ \<Rightarrow> None)"

section \<open>Shop input\<close>

definition MIN_SHOP_PRICE_CENTS :: int where "MIN_SHOP_PRICE_CENTS = 100"
definition MAX_SHOP_PRICE_CENTS :: int where "MAX_SHOP_PRICE_CENTS = 50000"
definition MAX_SHOP_NAME :: nat where "MAX_SHOP_NAME = 80"
definition MAX_SHOP_DESCRIPTION :: nat where "MAX_SHOP_DESCRIPTION = 500"
definition MAX_SHOP_IMAGE_BYTES :: nat where "MAX_SHOP_IMAGE_BYTES = 2 * 1024 * 1024"
definition MAX_CART_ITEMS :: nat where "MAX_CART_ITEMS = 20"

datatype shopImageSize = FullSize | ThumbSize

definition parseShopImageSize :: "js \<Rightarrow> shopImageSize" where
  "parseShopImageSize raw = (case raw of Str s \<Rightarrow> if toLowerCase (trim s) = ''thumb'' then ThumbSize else FullSize | _ \<Rightarrow> FullSize)"

fun collapse_ws :: "string \<Rightarrow> string" where
  \<comment> \<open>\<open>s.replace(/\s+/g, ' ')\<close>\<close>
  "collapse_ws [] = []"
| "collapse_ws [c] = [if is_ws c then CHR '' '' else c]"
| "collapse_ws (c # d # s) =
     (if is_ws c then (if is_ws d then collapse_ws (d # s) else CHR '' '' # collapse_ws (d # s))
      else c # collapse_ws (d # s))"

definition parseShopName :: "js \<Rightarrow> string option" where
  "parseShopName raw =
     (case raw of
        Str s \<Rightarrow> (let name = collapse_ws (trim s) in
                  if name = [] \<or> length name > MAX_SHOP_NAME then None else Some name)
      | _ \<Rightarrow> None)"

definition parseShopDescription :: "js \<Rightarrow> string" where
  "parseShopDescription raw = (case raw of Str s \<Rightarrow> take MAX_SHOP_DESCRIPTION (trim s) | _ \<Rightarrow> [])"

definition price_ok :: "string \<Rightarrow> bool" where
  \<comment> \<open>\<open>/^\d+(\.\d{1,2})?$/\<close>\<close>
  "price_ok s =
     (let ip = takeWhile is_digit s; r = dropWhile is_digit s in
      ip \<noteq> [] \<and> (r = [] \<or> hd r = CHR ''.'' \<and> length (tl r) \<in> {1, 2} \<and> list_all is_digit (tl r)))"

definition parseShopPriceDollars :: "js \<Rightarrow> int option" where
  \<comment> \<open>for a text of this form \<open>Number(text) * 100\<close> is within far less than a half of the exact product\<close>
  "parseShopPriceDollars raw =
     (let text = trim (js_string raw) in
      if \<not> (case raw of Str _ \<Rightarrow> True | Num _ \<Rightarrow> True | _ \<Rightarrow> False) \<or> \<not> price_ok text then None
      else (case toNumber text of
              Fin q \<Rightarrow> (let cents = \<lfloor>q * 100 + 1 / 2\<rfloor> in
                        if cents < MIN_SHOP_PRICE_CENTS \<or> cents > MAX_SHOP_PRICE_CENTS then None else Some cents)
            | _ \<Rightarrow> None))"

definition parseShopItemId :: "js \<Rightarrow> id option" where
  "parseShopItemId raw = (case raw of Str s \<Rightarrow> if id_ok (trim s) then Some (trim s) else None | _ \<Rightarrow> None)"

fun cart_ids :: "js list \<Rightarrow> id list \<Rightarrow> id list option" where
  "cart_ids [] ids = Some ids"
| "cart_ids (entry # raw) ids =
     (case parseShopItemId entry of
        None \<Rightarrow> None
      | Some i \<Rightarrow> if i \<in> set ids then None else cart_ids raw (ids @ [i]))"

definition parseShopItemIds :: "js \<Rightarrow> id list option" where
  "parseShopItemIds raw =
     (case raw of Arr xs \<Rightarrow> if length xs < 1 \<or> length xs > MAX_CART_ITEMS then None else cart_ids xs [] | _ \<Rightarrow> None)"

definition parseMetadataIdList :: "js \<Rightarrow> id list" where
  "parseMetadataIdList raw =
     (if trim (str_of raw) = [] then []
      else take MAX_CART_ITEMS (filter (\<lambda>i. parseShopItemId (Str i) \<noteq> None) (map trim (split CHR '','' (str_of raw)))))"

definition parseMetadataAmountList :: "js \<Rightarrow> int list" where
  "parseMetadataAmountList raw =
     (if trim (str_of raw) = [] then []
      else List.map_filter (\<lambda>part. let v = toNumber (trim part) in if isInteger v \<and> 0 < num_int v then Some (num_int v) else None)
             (split CHR '','' (str_of raw)))"

definition detectShopImage :: "8 word list \<Rightarrow> (string \<times> string) option" where
  "detectShopImage buffer =
     (if buffer = [] \<or> length buffer > MAX_SHOP_IMAGE_BYTES then None
      else if take 3 buffer = [0xff, 0xd8, 0xff] then Some (''jpg'', ''image/jpeg'')
      else if take 8 buffer = [0x89, 0x50, 0x4e, 0x47, 0x0d, 0x0a, 0x1a, 0x0a] then Some (''png'', ''image/png'')
      else if length buffer \<ge> 12 \<and> map (\<lambda>b. unat b mod 128) (take 4 buffer) = map (of_char :: char \<Rightarrow> nat) ''RIFF'' \<and>
              map (\<lambda>b. unat b mod 128) (take 4 (drop 8 buffer)) = map (of_char :: char \<Rightarrow> nat) ''WEBP'' then Some (''webp'', ''image/webp'')
      else None)"

definition shopImagePath :: "string \<Rightarrow> id \<Rightarrow> id \<Rightarrow> string \<Rightarrow> bool \<Rightarrow> string res" where
  \<comment> \<open>\<open>dir\<close> is \<open>shopUploadRoot()\<close>\<close>
  "shopImagePath dir orgId itemId ext thumb =
     (if \<not> id_ok orgId \<or> \<not> id_ok itemId then Inl (Error ''invalid shop image path'')
      else if ext \<notin> {''jpg'', ''png'', ''webp''} then Inl (Error ''invalid shop image extension'')
      else Inr (dir @ ''/shop/'' @ orgId @ ''/'' @ itemId @ (if thumb then ''.thumb.'' else ''.'') @ ext))"

definition parseActiveFlag :: "js \<Rightarrow> bool \<Rightarrow> bool" where
  "parseActiveFlag raw fallback =
     (if nullish raw \<or> raw = Str [] then fallback
      else (case raw of Bool b \<Rightarrow> b | Str s \<Rightarrow> s \<in> {''true'', ''1'', ''on''} | _ \<Rightarrow> fallback))"

section \<open>Stripe\<close>

record stripe =
  se_hmac :: "string \<Rightarrow> string \<Rightarrow> string"
  se_fetch :: "string \<Rightarrow> (string \<times> string) list \<Rightarrow> (bool \<times> js) option"
  se_url :: "string \<Rightarrow> (string \<times> string) option"
  se_secretKey :: "string option"
  se_webhookSecret :: "string option"
  se_publicWebUrl :: "string option"
  se_production :: bool

text \<open>The fields: \<open>createHmac('sha256', secret).update(text).digest('hex')\<close>; the answer to a checkout
  request made with a key and a form (\<open>response.ok\<close> and the JSON of its body, None when there is
  no response); protocol and host of \<open>new URL(s)\<close>; the environment variables
  \<open>STRIPE_SECRET_KEY\<close>, \<open>STRIPE_WEBHOOK_SECRET\<close> and \<open>PUBLIC_WEB_URL\<close>; whether \<open>NODE_ENV\<close> is
  production.\<close>

datatype stripeError = Unconfigured string | BadSignature string

definition SIGNATURE_TOLERANCE_SEC :: int where "SIGNATURE_TOLERANCE_SEC = 300"

definition nonDefaultSecret :: "string option \<Rightarrow> string" where
  "nonDefaultSecret value =
     (let secret = trim (opt_or value []) in
      if secret = [] \<or> contains (toLowerCase secret) ''change-me'' then [] else secret)"

definition parseStripeSecretKey :: "js \<Rightarrow> string option" where
  "parseStripeSecretKey raw =
     (case raw of
        Str s \<Rightarrow> (let value = trim s; r = drop 8 value in
                  if (startsWith value ''sk_test_'' \<or> startsWith value ''sk_live_'') \<and>
                     16 \<le> length r \<and> length r \<le> 220 \<and> list_all is_alnum r then Some value else None)
      | _ \<Rightarrow> None)"

definition parseStripeWebhookSecret :: "js \<Rightarrow> string option" where
  "parseStripeWebhookSecret raw =
     (case raw of
        Str s \<Rightarrow> (let value = trim s; r = drop 6 value in
                  if startsWith value ''whsec_'' \<and> 16 \<le> length r \<and> length r \<le> 220 \<and>
                     list_all (\<lambda>c. is_alnum c \<or> c \<in> {CHR ''+'', CHR ''/'', CHR ''='', CHR ''_'', CHR ''-''}) r
                  then Some value else None)
      | _ \<Rightarrow> None)"

definition stripeSecretKey :: "stripe \<Rightarrow> string" where
  "stripeSecretKey S = nonDefaultSecret (se_secretKey S)"

definition stripeWebhookSecret :: "stripe \<Rightarrow> string" where
  "stripeWebhookSecret S = nonDefaultSecret (se_webhookSecret S)"

definition stripeCheckoutConfigured :: "stripe \<Rightarrow> bool" where
  "stripeCheckoutConfigured S \<longleftrightarrow> stripeSecretKey S \<noteq> [] \<and> stripeWebhookSecret S \<noteq> []"

definition generateTestHeaderString :: "stripe \<Rightarrow> string \<Rightarrow> string \<Rightarrow> nat \<Rightarrow> string" where
  "generateTestHeaderString S payload secret timestamp =
     ''t='' @ nat_str timestamp @ '',v1='' @ se_hmac S secret (nat_str timestamp @ ''.'' @ payload)"

fun hex_bytes :: "string \<Rightarrow> nat list" where
  \<comment> \<open>\<open>Buffer.from(s, 'hex')\<close>: pairs of digits up to the first that is not one\<close>
  "hex_bytes (a # b # s) = (if is_hex a \<and> is_hex b then (16 * digit_val a + digit_val b) # hex_bytes s else [])"
| "hex_bytes _ = []"

definition safeEqualHex :: "string \<Rightarrow> string \<Rightarrow> bool" where
  "safeEqualHex left right =
     (let a = hex_bytes left; b = hex_bytes right in a \<noteq> [] \<and> length a = length b \<and> a = b)"

definition header_part :: "string \<times> string list \<Rightarrow> string \<Rightarrow> string \<times> string list" where
  "header_part s part =
     (case s of (timestamp, signatures) \<Rightarrow>
       let kv = take 2 (split CHR ''='' (trim part)); key = hd kv; value = (if length kv = 2 then kv ! 1 else [])
       in (if key = ''t'' then value else timestamp,
           if key = ''v1'' \<and> value \<noteq> [] then signatures @ [value] else signatures))"

definition verifyStripeSignature :: "stripe \<Rightarrow> string \<Rightarrow> string \<Rightarrow> string \<Rightarrow> int \<Rightarrow> bool" where
  "verifyStripeSignature S payload header secret nowSec =
     (case foldl header_part ([], []) (split CHR '','' header) of (timestamp, signatures) \<Rightarrow>
       if timestamp = [] \<or> \<not> list_all is_digit timestamp \<or> signatures = [] then False
       else if \<bar>nowSec - int (radix_val 10 timestamp)\<bar> > SIGNATURE_TOLERANCE_SEC then False
       else list_ex (\<lambda>signature. safeEqualHex signature (se_hmac S secret (timestamp @ ''.'' @ payload))) signatures)"

definition constructStripeEvent ::
    "env \<Rightarrow> stripe \<Rightarrow> string \<Rightarrow> string option \<Rightarrow> string \<Rightarrow> int \<Rightarrow> stripeError + string \<times> obj" where
  "constructStripeEvent E S payload signature secret nowSec =
     (if secret = [] then Inl (Unconfigured ''Stripe webhook is not configured'')
      else if trim (opt_or signature []) = [] then Inl (BadSignature ''Stripe signature missing'')
      else if \<not> verifyStripeSignature S payload (opt_or signature []) secret nowSec
        then Inl (BadSignature ''Stripe signature invalid'')
      else (case e_parseJson E payload of
              None \<Rightarrow> Inl (BadSignature ''Stripe event invalid'')
            | Some event \<Rightarrow>
                (case field event ''type'' of
                   Str ty \<Rightarrow> Inr (ty, case field (field event ''data'') ''object'' of Obj o' \<Rightarrow> o' | _ \<Rightarrow> [])
                 | _ \<Rightarrow> Inl (BadSignature ''Stripe event invalid''))))"

fun try_secrets ::
    "env \<Rightarrow> stripe \<Rightarrow> string \<Rightarrow> string option \<Rightarrow> int \<Rightarrow> stripeError \<Rightarrow> string list \<Rightarrow> stripeError + string \<times> obj" where
  "try_secrets E S payload signature nowSec final [] = Inl final"
| "try_secrets E S payload signature nowSec final (secret # secrets) =
     (case constructStripeEvent E S payload signature secret nowSec of
        Inr ev \<Rightarrow> Inr ev
      | Inl (BadSignature m) \<Rightarrow> try_secrets E S payload signature nowSec (BadSignature m) secrets
      | Inl (Unconfigured m) \<Rightarrow> Inl (Unconfigured m))"

definition constructStripeEventWithSecrets ::
    "env \<Rightarrow> stripe \<Rightarrow> string \<Rightarrow> string option \<Rightarrow> string list \<Rightarrow> int \<Rightarrow> stripeError + string \<times> obj" where
  "constructStripeEventWithSecrets E S payload signature secrets nowSec =
     (let unique = rev (remdups (rev (filter (\<lambda>s. s \<noteq> []) (map trim secrets)))) in
      if unique = [] then Inl (Unconfigured ''Stripe webhook is not configured'')
      else try_secrets E S payload signature nowSec (BadSignature ''Stripe signature invalid'') unique)"

record checkoutLine =
  cl_amountCents :: int
  cl_name :: string
  cl_description :: string
  cl_shopItemId :: "id option"

record checkoutInput =
  ci_amountCents :: "int option"
  ci_playerId :: id
  ci_steamId :: string
  ci_serverInstanceId :: id
  ci_orgId :: id
  ci_origin :: string
  ci_secretKey :: "string option"
  ci_productName :: "string option"
  ci_productDescription :: "string option"
  ci_shopItemId :: "id option"
  ci_lineItems :: "checkoutLine list"
  ci_returnPath :: "string option"

definition checkout_lines :: "checkoutInput \<Rightarrow> checkoutLine list" where
  "checkout_lines inp =
     (if ci_lineItems inp \<noteq> [] then ci_lineItems inp
      else [\<lparr>cl_amountCents = opt_or (ci_amountCents inp) 0, cl_name = or_str (opt_or (ci_productName inp) []) ''Server support'',
             cl_description = or_str (opt_or (ci_productDescription inp) [])
               (''Support tied to Steam ending '' @ last_n 4 (ci_steamId inp)),
             cl_shopItemId = ci_shopItemId inp\<rparr>])"

definition line_ids :: "checkoutLine list \<Rightarrow> id list" where
  "line_ids items = filter (\<lambda>i. i \<noteq> []) (List.map_filter cl_shopItemId items)"

definition session_metadata :: "checkoutInput \<Rightarrow> checkoutLine list \<Rightarrow> (string \<times> string) list" where
  "session_metadata inp items =
     (let shopItemIds = line_ids items in
      [(''playerId'', ci_playerId inp), (''steamId'', ci_steamId inp), (''serverInstanceId'', ci_serverInstanceId inp),
       (''orgId'', ci_orgId inp)] @
      (if shopItemIds = [] then []
       else [(''shopItemIds'', join '','' shopItemIds), (''lineAmounts'', join '','' (map (\<lambda>i. int_str (cl_amountCents i)) items))] @
            (if length shopItemIds = 1 then [(''shopItemId'', hd shopItemIds)] else [])))"

definition intent_metadata :: "checkoutInput \<Rightarrow> checkoutLine list \<Rightarrow> (string \<times> string) list" where
  "intent_metadata inp items = filter (\<lambda>(k, _). k \<noteq> ''lineAmounts'') (session_metadata inp items)"

definition line_form :: "nat \<Rightarrow> checkoutLine \<Rightarrow> (string \<times> string) list" where
  "line_form index item =
     (let p = ''line_items['' @ nat_str index @ '']'' in
      [(p @ ''[quantity]'', ''1''), (p @ ''[price_data][currency]'', ''usd''),
       (p @ ''[price_data][unit_amount]'', int_str (cl_amountCents item)),
       (p @ ''[price_data][product_data][name]'', take 120 (cl_name item)),
       (p @ ''[price_data][product_data][description]'', take 250 (cl_description item))])"

definition checkout_form :: "checkoutInput \<Rightarrow> checkoutLine list \<Rightarrow> (string \<times> string) list" where
  "checkout_form inp items =
     (let returnPath = or_str (opt_or (ci_returnPath inp) []) ''/player/profile'' in
      [(''mode'', ''payment''), (''client_reference_id'', ci_playerId inp),
       (''success_url'', ci_origin inp @ returnPath @ ''?donation=success''),
       (''cancel_url'', ci_origin inp @ returnPath @ ''?donation=cancel'')] @
      map (\<lambda>(k, v). (''metadata['' @ k @ '']'', v)) (session_metadata inp items) @
      map (\<lambda>(k, v). (''payment_intent_data[metadata]['' @ k @ '']'', v)) (intent_metadata inp items) @
      concat (map (\<lambda>(i, item). line_form i item) (enumerate 0 items)))"

definition isStripeHttpsUrl :: "stripe \<Rightarrow> string \<Rightarrow> bool" where
  "isStripeHttpsUrl S url =
     (case se_url S url of
        None \<Rightarrow> False
      | Some (protocol, host) \<Rightarrow> protocol = ''https:'' \<and> (host = ''checkout.stripe.com'' \<or> last_n 11 host = ''.stripe.com''))"

definition createCheckoutSession :: "stripe \<Rightarrow> checkoutInput \<Rightarrow> stripeError + string" where
  "createCheckoutSession S inp =
     (let key = or_str (nonDefaultSecret (ci_secretKey inp)) (stripeSecretKey S); items = checkout_lines inp in
      if key = [] then Inl (Unconfigured ''Donations are not configured'')
      else if items = [] \<or> list_ex (\<lambda>i. cl_amountCents i \<le> 0) items then Inl (Unconfigured ''Checkout is unavailable'')
      else (case se_fetch S key (checkout_form inp items) of
              None \<Rightarrow> Inl (Unconfigured ''Checkout is unavailable'')
            | Some (ok, payload) \<Rightarrow>
                (case field payload ''url'' of
                   Str url \<Rightarrow> if ok \<and> isStripeHttpsUrl S url then Inr url else Inl (Unconfigured ''Checkout is unavailable'')
                 | _ \<Rightarrow> Inl (Unconfigured ''Checkout is unavailable''))))"

section \<open>Facts on texts\<close>

lemma plain_char:
  "is_digit c \<Longrightarrow> is_hex c" "is_hex c \<Longrightarrow> is_alnum c" "is_alnum c \<Longrightarrow> id_char c"
  by (auto simp: is_hex_def is_alnum_def is_alpha_def is_upper_def is_lower_def id_char_def)

lemma id_char_not: "id_char c \<Longrightarrow> \<not> is_ws c \<and> c \<noteq> CHR '','' \<and> c \<noteq> CHR ''='' \<and> c \<noteq> CHR ''/'' \<and> c \<noteq> CHR ''.''"
  by (auto simp: id_char_def is_alnum_def is_alpha_def is_upper_def is_lower_def is_digit_def is_ws_def code_def)

lemma id_text: "list_all id_char s \<Longrightarrow> trim s = s \<and> CHR '','' \<notin> set s \<and> CHR ''='' \<notin> set s \<and> CHR ''/'' \<notin> set s"
proof -
  assume a: "list_all id_char s"
  have "list_all (\<lambda>c. \<not> is_ws c) s" by (rule list.pred_mono_strong [OF a]) (simp add: id_char_not)
  then show ?thesis using a id_char_not by (auto simp: trim_no_ws list_all_iff)
qed

lemma nat_str_id: "list_all id_char (nat_str n)"
  by (rule list.pred_mono_strong [OF nat_str_digits]) (simp add: plain_char)

lemma hex_id: "list_all is_hex s \<Longrightarrow> list_all id_char s"
  by (erule list.pred_mono_strong) (simp add: plain_char)

lemma unsigned_dec_nat_str: "unsigned_dec (nat_str n) = Fin (of_nat n)"
proof -
  have d: "\<forall>c \<in> set (nat_str n). is_digit c" using nat_str_digits by (simp add: list_all_iff)
  then have i: "nat_str n \<noteq> ''Infinity''" by (force simp: is_digit_def code_def)
  have td: "takeWhile is_digit (nat_str n) = nat_str n" "dropWhile is_digit (nat_str n) = []"
    using d by (simp_all add: takeWhile_eq_all_conv)
  show ?thesis unfolding unsigned_dec_def Let_def td using i by (simp add: nat_str_nonempty expo_def radix_val_nat_str)
qed

lemma nat_str_second: "2 < length (nat_str n) \<Longrightarrow> is_digit (take 2 (nat_str n) ! 1)"
  using nat_str_digits [of n] by (simp add: list_all_length)

lemma toNumber_nat_str: "toNumber (nat_str n) = Fin (of_nat n)"
proof -
  have h: "is_digit (hd (nat_str n))" using nat_str_digits [of n] nat_str_nonempty [of n] by (cases "nat_str n") auto
  then have "hd (nat_str n) \<noteq> CHR ''-''" "hd (nat_str n) \<noteq> CHR ''+''" by (auto simp: is_digit_def code_def)
  moreover have "take 2 (nat_str n) \<noteq> [a, b]" if "2 < length (nat_str n)" "\<not> is_digit b" for a b
    using nat_str_second [OF that(1)] that(2) by (metis nth_Cons_0 nth_Cons_Suc One_nat_def)
  moreover have "\<not> is_digit c" if "c \<in> {CHR ''x'', CHR ''X'', CHR ''o'', CHR ''O'', CHR ''b'', CHR ''B''}" for c
    using that by (auto simp: is_digit_def code_def)
  ultimately show ?thesis
    using id_text [OF nat_str_id] by (auto simp: toNumber_def Let_def nat_str_nonempty unsigned_dec_nat_str)
qed

section \<open>Signatures\<close>

definition hex_digest :: "string \<Rightarrow> bool" where
  "hex_digest h \<longleftrightarrow> length h = 64 \<and> list_all is_hex h"

lemma hex_bytes_nonempty: "hex_digest h \<Longrightarrow> hex_bytes h \<noteq> []"
  by (cases h rule: hex_bytes.cases) (auto simp: hex_digest_def)

lemma header_field:
  assumes "list_all id_char k" and "list_all id_char v"
  shows "header_part (t, sigs) (k @ ''='' @ v) =
    (if k = ''t'' then v else t, if k = ''v1'' \<and> v \<noteq> [] then sigs @ [v] else sigs)"
proof -
  have ws: "\<not> is_ws CHR ''=''" by (simp add: is_ws_def code_def)
  have "list_all (\<lambda>c. \<not> is_ws c) (k @ ''='' @ v)"
    unfolding list_all_append using assms ws
    by (auto intro: list.pred_mono_strong simp: id_char_not)
  then have "trim (k @ ''='' @ v) = k @ ''='' @ v" by (rule trim_no_ws)
  moreover have "split CHR ''='' (k @ ''='' @ v) = [k, v]"
    using id_text [OF assms(1)] id_text [OF assms(2)] by (simp add: split_append split_no)
  ultimately show ?thesis by (simp add: header_part_def)
qed

text \<open>Signing and checking a webhook agree. When the digest is a SHA-256 digest in hexadecimal, the
  header made for a payload with a secret is accepted for that payload with that secret exactly
  while its time is at most five minutes from now.\<close>

lemma stripe_signature_roundtrip:
  assumes "hex_digest (se_hmac S secret (nat_str t @ ''.'' @ payload))"
  shows "verifyStripeSignature S payload (generateTestHeaderString S payload secret t) secret nowSec \<longleftrightarrow>
    \<bar>nowSec - int t\<bar> \<le> 300"
proof -
  let ?h = "se_hmac S secret (nat_str t @ ''.'' @ payload)"
  have h: "list_all id_char ?h" "?h \<noteq> []" using assms hex_id by (auto simp: hex_digest_def)
  have k: "list_all id_char ''t''" "list_all id_char ''v1''" by code_simp+
  have "split CHR '','' (generateTestHeaderString S payload secret t) = [''t'' @ ''='' @ nat_str t, ''v1'' @ ''='' @ ?h]"
    using id_text [OF h(1)] id_text [OF nat_str_id, of t]
    by (simp add: generateTestHeaderString_def split_append [of "CHR '',''" "''t='' @ nat_str t", simplified] split_no)
  then have "foldl header_part ([], []) (split CHR '','' (generateTestHeaderString S payload secret t)) = (nat_str t, [?h])"
    using header_field [OF k(1) nat_str_id] header_field [OF k(2) h(1)] h(2) by simp
  then show ?thesis
    using nat_str_digits [of t] hex_bytes_nonempty [OF assms]
    by (auto simp: verifyStripeSignature_def nat_str_nonempty radix_val_nat_str SIGNATURE_TOLERANCE_SEC_def
        safeEqualHex_def Let_def)
qed

definition sample_stripe :: stripe where
  "sample_stripe = \<lparr>se_hmac = (\<lambda>secret text. replicate 64 CHR ''a''), se_fetch = (\<lambda>key form. None), se_url = (\<lambda>_. None),
     se_secretKey = Some ''sk'', se_webhookSecret = Some ''whsec'', se_publicWebUrl = None, se_production = False\<rparr>"

text \<open>What an accepted header shows: a time within the tolerance and a signature of the payload, made
  with the secret, both of them in the header.\<close>

definition header_has :: "string \<Rightarrow> string \<Rightarrow> string \<Rightarrow> bool" where
  "header_has header k v \<longleftrightarrow> list_ex (\<lambda>part. take 2 (split CHR ''='' (trim part)) = [k, v]) (split CHR '','' header)"

definition authentic :: "stripe \<Rightarrow> string \<Rightarrow> string \<Rightarrow> string \<Rightarrow> int \<Rightarrow> bool" where
  "authentic S payload header secret nowSec \<longleftrightarrow>
     (\<exists>t sig. header_has header ''t'' t \<and> header_has header ''v1'' sig \<and> t \<noteq> [] \<and> list_all is_digit t \<and>
        \<bar>nowSec - int (radix_val 10 t)\<bar> \<le> 300 \<and> hex_bytes sig \<noteq> [] \<and>
        hex_bytes sig = hex_bytes (se_hmac S secret (t @ ''.'' @ payload)))"

lemma header_fold:
  assumes "foldl header_part ([], []) parts = (t, sigs)"
  shows "(t \<noteq> [] \<longrightarrow> list_ex (\<lambda>p. take 2 (split CHR ''='' (trim p)) = [''t'', t]) parts) \<and>
    (\<forall>sig. sig \<in> set sigs \<longrightarrow> list_ex (\<lambda>p. take 2 (split CHR ''='' (trim p)) = [''v1'', sig]) parts)"
  using assms
proof (induction parts arbitrary: t sigs rule: rev_induct)
  case (snoc p parts)
  obtain t0 s0 where f: "foldl header_part ([], []) parts = (t0, s0)" by fastforce
  let ?kv = "take 2 (split CHR ''='' (trim p))"
  have kv: "?kv = [hd ?kv, ?kv ! 1]" if "length ?kv = 2" using that by (cases ?kv; cases "tl ?kv") auto
  from snoc.prems f have "header_part (t0, s0) p = (t, sigs)" by simp
  then show ?case
    using snoc.IH [OF f] kv by (auto simp: header_part_def Let_def split: if_splits)
qed simp

lemma verify_authentic: "verifyStripeSignature S payload header secret nowSec \<Longrightarrow> authentic S payload header secret nowSec"
proof -
  assume v: "verifyStripeSignature S payload header secret nowSec"
  obtain t sigs where f: "foldl header_part ([], []) (split CHR '','' header) = (t, sigs)" by fastforce
  with v obtain sig where "sig \<in> set sigs" "t \<noteq> []" "list_all is_digit t" "\<bar>nowSec - int (radix_val 10 t)\<bar> \<le> 300"
    "safeEqualHex sig (se_hmac S secret (t @ ''.'' @ payload))"
    by (auto simp: verifyStripeSignature_def SIGNATURE_TOLERANCE_SEC_def list_ex_iff split: if_splits)
  with header_fold [OF f] show ?thesis unfolding authentic_def header_has_def safeEqualHex_def Let_def by blast
qed

lemma try_secrets_signed:
  "try_secrets E S payload signature nowSec e secrets = Inr ev \<Longrightarrow>
     \<exists>secret \<in> set secrets. authentic S payload (opt_or signature []) secret nowSec"
proof (induction secrets arbitrary: e)
  case (Cons secret secrets)
  show ?case
  proof (cases "constructStripeEvent E S payload signature secret nowSec")
    case (Inl x)
    with Cons show ?thesis by (cases x) auto
  next
    case (Inr y)
    then have "verifyStripeSignature S payload (opt_or signature []) secret nowSec"
      by (auto simp: constructStripeEvent_def split: if_splits)
    then show ?thesis using verify_authentic by auto
  qed
qed simp

lemma event_authentic:
  "constructStripeEventWithSecrets E S payload signature secrets nowSec = Inr ev \<Longrightarrow>
     \<exists>secret \<in> trim ` set secrets. secret \<noteq> [] \<and> authentic S payload (opt_or signature []) secret nowSec"
  by (auto simp: constructStripeEventWithSecrets_def Let_def split: if_splits dest!: try_secrets_signed)

section \<open>Checkout and payment\<close>

lemma list_all_join: "list_all P sep \<Longrightarrow> list_all (list_all P) ss \<Longrightarrow> list_all P (join sep ss)"
  by (induction sep ss rule: join.induct) auto

lemma join_id:
  assumes "ss \<noteq> []" and "list_all (\<lambda>s. s \<noteq> [] \<and> list_all id_char s) ss"
  shows "trim (join '','' ss) \<noteq> []" "map trim (split CHR '','' (join '','' ss)) = ss"
proof -
  have c: "\<not> is_ws CHR '',''" by (simp add: is_ws_def code_def)
  have "list_all (list_all (\<lambda>c. \<not> is_ws c)) ss"
    using assms(2) by (auto simp: list_all_iff id_char_not)
  then have "trim (join '','' ss) = join '','' ss" using c by (intro trim_no_ws list_all_join) simp_all
  moreover have "join '','' ss \<noteq> []" using assms by (cases "('','', ss)" rule: join.cases) auto
  ultimately show "trim (join '','' ss) \<noteq> []" by simp
  have "list_all (\<lambda>s. CHR '','' \<notin> set s) ss" using assms(2) id_text by (auto simp: list_all_iff)
  then have "split CHR '','' (join '','' ss) = ss" using assms(1) by (rule split_join [rotated])
  moreover have "map trim ss = ss" using assms(2) id_text by (auto simp: list_all_iff intro: map_idI)
  ultimately show "map trim (split CHR '','' (join '','' ss)) = ss" by simp
qed

lemma int_str_pos: "0 < i \<Longrightarrow> int_str i = nat_str (nat i)" by (simp add: int_str_def)

lemma session_amounts_join:
  assumes "ns \<noteq> []" and "list_all (\<lambda>n. 0 < n) ns"
  shows "map num_int (filter (\<lambda>n. isInteger n \<and> 0 < num_int n)
    (map (\<lambda>part. toNumber (trim part)) (split CHR '','' (join '','' (map int_str ns))))) = ns"
proof -
  have i: "list_all (\<lambda>s. s \<noteq> [] \<and> list_all id_char s) (map int_str ns)"
    using assms(2) by (auto simp: list_all_iff int_str_pos nat_str_nonempty nat_str_id [unfolded list_all_iff])
  have "map (\<lambda>part. toNumber (trim part)) (split CHR '','' (join '','' (map int_str ns))) =
      map toNumber (map trim (split CHR '','' (join '','' (map int_str ns))))" by simp
  also have "\<dots> = map (\<lambda>n. Fin (of_int n)) ns"
    unfolding join_id(2) [OF _ i, simplified, OF assms(1)]
    using assms(2) by (auto simp: list_all_iff int_str_pos toNumber_nat_str)
  finally show ?thesis
    using assms(2) by (auto simp: list_all_iff isInteger_def num_int_def filter_map o_def intro: map_idI)
qed

lemma line_ids_ok:
  "list_all (\<lambda>i. case cl_shopItemId i of None \<Rightarrow> True | Some s \<Rightarrow> id_ok s) items \<Longrightarrow>
     list_all (\<lambda>s. s \<noteq> [] \<and> list_all id_char s \<and> id_ok s) (line_ids items)"
  by (auto simp: line_ids_def list_all_iff List.map_filter_def id_ok_def split: option.splits)

text \<open>C19: a payment is credited for what was bought. When Stripe reports a session as paid with the
  metadata the checkout gave it, the report is read as a payment of that player, server and
  organization over the amount of the session, and for a purchase with the same items, each at the
  price it was offered for.\<close>

theorem checkout_paid_roundtrip:
  assumes "list_all (\<lambda>i. 0 < cl_amountCents i) items" and "items \<noteq> []"
    and "list_all (\<lambda>i. case cl_shopItemId i of None \<Rightarrow> True | Some s \<Rightarrow> id_ok s) items"
    and "ci_playerId inp \<noteq> [] \<and> ci_steamId inp \<noteq> [] \<and> ci_serverInstanceId inp \<noteq> [] \<and> ci_orgId inp \<noteq> []"
    and "get object ''payment_status'' = Str ''paid''" and "get object ''id'' = Str sid" and "trim sid \<noteq> []"
    and "get object ''amount_total'' = JInt paid_cents" and "0 < paid_cents"
    and m: "get object ''metadata'' = Obj (map (\<lambda>(k, v). (k, Str v)) (session_metadata inp items))"
  shows "\<exists>paid. parsePaidCheckoutSession object = Some paid \<and> pd_sessionId paid = take 255 (trim sid) \<and>
    pd_amountCents paid = paid_cents \<and> pd_playerId paid = ci_playerId inp \<and> pd_steamId paid = ci_steamId inp \<and>
    pd_serverInstanceId paid = ci_serverInstanceId inp \<and> pd_orgId paid = ci_orgId inp \<and>
    pd_shopItemIds paid = line_ids items \<and> (line_ids items \<noteq> [] \<longrightarrow> pd_lineAmounts paid = map cl_amountCents items)"
proof -
  let ?m = "Obj (map (\<lambda>(k, v). (k, Str v)) (session_metadata inp items))"
  have ids: "list_all (\<lambda>s. s \<noteq> [] \<and> list_all id_char s) (line_ids items)" "filter id_ok (line_ids items) = line_ids items"
    using line_ids_ok [OF assms(3)] by (auto simp: list_all_iff filter_id_conv)
  have "list_all (\<lambda>n. 0 < n) (map cl_amountCents items)" using assms(1) by (simp add: list_all_iff)
  note amounts = session_amounts_join [OF _ this, unfolded map_map o_def, simplified, OF assms(2)]
  have items: "session_items ?m = line_ids items"
    using join_id [OF _ ids(1)] ids(2)
    by (auto simp: session_items_def field_def get_def session_metadata_def Let_def)
  have ne: "trim (join '','' (map (\<lambda>i. int_str (cl_amountCents i)) items)) \<noteq> []"
    using assms(1,2) by (intro join_id) (auto simp: list_all_iff int_str_pos nat_str_nonempty nat_str_id [unfolded list_all_iff])
  have prices: "session_amounts ?m = map cl_amountCents items" if "line_ids items \<noteq> []"
    using that ne amounts by (simp add: session_amounts_def field_def get_def session_metadata_def Let_def)
  have base: "field ?m ''playerId'' = Str (ci_playerId inp)" "field ?m ''steamId'' = Str (ci_steamId inp)"
    "field ?m ''serverInstanceId'' = Str (ci_serverInstanceId inp)" "field ?m ''orgId'' = Str (ci_orgId inp)"
    by (simp_all add: field_def get_def session_metadata_def Let_def)
  have sid: "stripeObjectId (Str sid) = Some (take 255 (trim sid))" using assms(7) by (simp add: stripeObjectId_def)
  have num: "isInteger (int_num paid_cents)" "num_int (int_num paid_cents) = paid_cents" by (simp_all add: isInteger_def int_num_def num_int_def)
  show ?thesis
    unfolding parsePaidCheckoutSession_def Let_def
    using assms(4,5,6,8,9) m by (simp add: base sid num items prices is_object_def str_of_def)
qed

definition sample_cart :: checkoutInput where
  "sample_cart = \<lparr>ci_amountCents = None, ci_playerId = ''p1'', ci_steamId = ''7656'', ci_serverInstanceId = ''s1'', ci_orgId = ''o'',
     ci_origin = ''https://mc.example'', ci_secretKey = None, ci_productName = None, ci_productDescription = None, ci_shopItemId = None,
     ci_lineItems = [\<lparr>cl_amountCents = 500, cl_name = ''Sword'', cl_description = [], cl_shopItemId = Some ''item_sword1''\<rparr>,
       \<lparr>cl_amountCents = 250, cl_name = ''Bread'', cl_description = [], cl_shopItemId = Some ''item_bread1''\<rparr>],
     ci_returnPath = None\<rparr>"

definition sample_session :: obj where
  "sample_session = [(''id'', Str ''cs_1''), (''payment_status'', Str ''paid''), (''amount_total'', JInt 750),
     (''metadata'', Obj (map (\<lambda>(k, v). (k, Str v)) (session_metadata sample_cart (checkout_lines sample_cart))))]"

theorem checkout_paid_roundtrip_witness:
  "\<exists>paid. parsePaidCheckoutSession sample_session = Some paid \<and> pd_shopItemIds paid = [''item_sword1'', ''item_bread1''] \<and>
     pd_lineAmounts paid = [500, 250]"
proof -
  have l: "line_ids (checkout_lines sample_cart) = [''item_sword1'', ''item_bread1'']"
    "map cl_amountCents (checkout_lines sample_cart) = [500, 250]" by code_simp+
  have ok: "list_all (\<lambda>i. 0 < cl_amountCents i) (checkout_lines sample_cart)"
    "list_all (\<lambda>i. case cl_shopItemId i of None \<Rightarrow> True | Some s \<Rightarrow> id_ok s) (checkout_lines sample_cart)"
    "trim ''cs_1'' \<noteq> []" by code_simp+
  have i: "ci_playerId sample_cart \<noteq> [] \<and> ci_steamId sample_cart \<noteq> [] \<and> ci_serverInstanceId sample_cart \<noteq> [] \<and> ci_orgId sample_cart \<noteq> []"
    "checkout_lines sample_cart \<noteq> []" by (simp_all add: sample_cart_def checkout_lines_def)
  have g: "get sample_session ''payment_status'' = Str ''paid''" "get sample_session ''id'' = Str ''cs_1''"
    "get sample_session ''amount_total'' = JInt 750"
    "get sample_session ''metadata'' = Obj (map (\<lambda>(k, v). (k, Str v)) (session_metadata sample_cart (checkout_lines sample_cart)))"
    by (simp_all add: sample_session_def get_def)
  from checkout_paid_roundtrip [OF ok(1) i(2) ok(2) i(1) g(1,2) ok(3) g(3) _ g(4)] l show ?thesis by auto
qed

section \<open>Prices and paths\<close>

lemma is_digit_dot: "\<not> is_digit CHR ''.''" by (simp add: is_digit_def code_def)

text \<open>Whatever the ids are, the file of a shop image is directly inside the image directory of its
  organization: its name has no separator, so a request cannot reach another file.\<close>

lemma shopImagePath_contained:
  assumes "shopImagePath dir orgId itemId ext thumb = Inr path"
  shows "\<exists>file. path = dir @ ''/shop/'' @ orgId @ ''/'' @ file \<and> CHR ''/'' \<notin> set orgId \<and> CHR ''/'' \<notin> set file \<and>
    orgId \<notin> {[], ''.'', ''..''} \<and> file \<notin> {[], ''.'', ''..''}"
proof -
  let ?file = "itemId @ (if thumb then ''.thumb.'' else ''.'') @ ext"
  have ok: "id_ok orgId" "id_ok itemId" "ext \<in> {''jpg'', ''png'', ''webp''}"
    "path = dir @ ''/shop/'' @ orgId @ ''/'' @ ?file"
    using assms by (auto simp: shopImagePath_def split: if_splits)
  have "CHR ''/'' \<notin> set orgId" "CHR ''/'' \<notin> set itemId" using ok(1,2) id_text by (auto simp: id_ok_def)
  moreover have "10 \<le> length orgId" "10 \<le> length ?file" using ok(1,2) by (simp_all add: id_ok_def)
  moreover have "CHR ''/'' \<notin> set ?file" using ok(3) calculation(2) by auto
  moreover have "f \<notin> {[], ''.'', ''..''}" if "10 \<le> length f" for f :: string using that by auto
  ultimately show ?thesis using ok(4) by blast
qed

end
