(* ===== verification/Accounts.thy ===== *)
theory Accounts
  imports Agents Rate_Limit Payments "HOL-Library.Countable"
begin

text \<open>
  Accounts: control-plane/src/auth/auth.service.ts (passwords, registration, sign-in, email
  verification), the account operations of orgs/orgs.service.ts and
  mailgun/mailgun.service.ts (\<open>isConfigured\<close>). A membership carries the name of its role in place of
  the role's id (names are unique, and a missing role is created on demand). scrypt, SHA-256, the JWT
  library, Mailgun and reCAPTCHA are parameters.

  Shown: a session that was revoked stays revoked whatever happens to accounts later; an
  organization never loses its last administrator; a sign-in succeeds only after every check; a network
  registers at most two accounts; a token of one kind is never taken for another kind, even when all
  kinds share one secret. Also shown: an administrator of one organization can reset the password of a
  user who administers another.
\<close>

section \<open>Surroundings\<close>

text \<open>The secrets of the four kinds of tokens; unset ones fall back to one another, so they may be equal.\<close>

datatype secret = UserSecret | MailSecret | MathSecret | PlayerSecret

datatype captcha_answer = Unreachable | Answer bool "string option"

record authEnv =
  au_hmac :: "string \<Rightarrow> string"
  au_scrypt :: "string \<Rightarrow> string \<Rightarrow> string"
  au_sha256 :: "string \<Rightarrow> string"
  au_dummy :: string
  au_sign :: "secret \<Rightarrow> obj \<Rightarrow> string"
  au_verify :: "secret \<Rightarrow> string \<Rightarrow> obj option"
  au_decrypt :: "string \<Rightarrow> string option"
  au_captcha :: "string \<Rightarrow> string \<Rightarrow> string \<Rightarrow> captcha_answer"
  au_hostname :: "string option"
  au_link :: "string \<Rightarrow> string"
  au_mail :: "id \<Rightarrow> string \<Rightarrow> string \<Rightarrow> unit res"

text \<open>The fields: the HMAC of the limiter; \<open>scryptSync(password, salt, 64)\<close> and SHA-256 in hex; the
  stored hash of unknown accounts; \<open>jwt.sign\<close> and \<open>jwt.verify\<close> (None when it throws); the secret store;
  the answer of reCAPTCHA to secret, token and address; the host of the public address (None when it
  cannot be parsed); the link with an encoded token; the answer of Mailgun to a message.\<close>

section \<open>Passwords\<close>

definition part :: "string list \<Rightarrow> nat \<Rightarrow> string" where
  \<comment> \<open>an element of a split string; a missing one counts as empty\<close>
  "part xs n = (if n < length xs then xs ! n else [])"

definition makePasswordHash :: "authEnv \<Rightarrow> string \<Rightarrow> string \<Rightarrow> string" where
  \<comment> \<open>\<open>salt\<close> is the string of random bytes\<close>
  "makePasswordHash A password salt = ''scrypt$'' @ salt @ ''$'' @ au_scrypt A password salt"

definition verifyPassword :: "authEnv \<Rightarrow> string \<Rightarrow> string \<Rightarrow> bool" where
  "verifyPassword A password storedHash =
     (if startsWith storedHash ''scrypt$'' then
        (let parts = split CHR ''$'' storedHash; salt = part parts 1; hash = part parts 2
         in salt \<noteq> [] \<and> hash \<noteq> [] \<and> hex_bytes (au_scrypt A password salt) = hex_bytes hash)
      else
        (let parts = split CHR '':'' storedHash; salt = part parts 0; hash = part parts 1
         in salt \<noteq> [] \<and> hash \<noteq> [] \<and> hex_bytes (au_sha256 A (salt @ password)) = hex_bytes hash))"

section \<open>Tokens\<close>

definition user_claims :: "id \<Rightarrow> id \<Rightarrow> int \<Rightarrow> obj" where
  "user_claims userId orgId authVersion = [(''sub'', Str userId), (''orgId'', Str orgId), (''ver'', JInt authVersion)]"

definition issueToken :: "authEnv \<Rightarrow> id \<Rightarrow> id \<Rightarrow> int \<Rightarrow> string" where
  "issueToken A userId orgId authVersion = au_sign A UserSecret (user_claims userId orgId authVersion)"

definition session_keys :: "authEnv \<Rightarrow> keyring \<Rightarrow> keyring" where
  \<comment> \<open>the guard reads \<open>sub\<close> and \<open>ver\<close> of a token that verifies with the user secret\<close>
  "session_keys A K = K\<lparr>kr_verifyUser := (\<lambda>token. case au_verify A UserSecret token of
     None \<Rightarrow> None
   | Some c \<Rightarrow> Some (str_of (get c ''sub''), case get c ''ver'' of Num n \<Rightarrow> n | _ \<Rightarrow> NaN))\<rparr>"

definition math_claims :: "int \<Rightarrow> int \<Rightarrow> bool \<Rightarrow> obj" where
  "math_claims left right subtract =
     (let a = (if subtract then max left right else left); b = (if subtract then min left right else right)
      in [(''purpose'', Str ''login-math''), (''a'', JInt a), (''b'', JInt b), (''operation'', Str (if subtract then ''-'' else ''+''))])"

definition getLoginSecurity :: "authEnv \<Rightarrow> int \<Rightarrow> int \<Rightarrow> bool \<Rightarrow> world \<Rightarrow> string \<times> string \<times> bool \<times> string option" where
  \<comment> \<open>prompt, token, whether reCAPTCHA is on, and its site key; the three random draws are arguments\<close>
  "getLoginSecurity A left right subtract w =
     (let a = (if subtract then max left right else left); b = (if subtract then min left right else right);
          org = (case orderAsc o_createdAt (orgs w) of [] \<Rightarrow> None | o' # _ \<Rightarrow> Some o');
          key = (case org of None \<Rightarrow> [] | Some o' \<Rightarrow> opt_or (o_recaptchaSiteKey o') [])
      in (int_str a @ '' '' @ (if subtract then ''-'' else ''+'') @ '' '' @ int_str b @ '' = ?'',
          au_sign A MathSecret (math_claims left right subtract),
          key \<noteq> [] \<and> (case org of None \<Rightarrow> False | Some o' \<Rightarrow> opt_or (o_recaptchaSecretEncrypted o') [] \<noteq> []),
          or_null key))"

definition integer_text :: "string \<Rightarrow> bool" where
  \<comment> \<open>\<open>/^-?\d+$/\<close>\<close>
  "integer_text s = (let d = (case s of [] \<Rightarrow> [] | c # r \<Rightarrow> if c = CHR ''-'' then r else s) in d \<noteq> [] \<and> list_all is_digit d)"

definition verifyMathChallenge :: "authEnv \<Rightarrow> string \<Rightarrow> string \<Rightarrow> bool" where
  "verifyMathChallenge A token answer =
     (case au_verify A MathSecret token of
        None \<Rightarrow> False
      | Some payload \<Rightarrow>
          get payload ''purpose'' = Str ''login-math'' \<and>
          (case (get payload ''a'', get payload ''b'') of
             (Num a, Num b) \<Rightarrow> isInteger a \<and> isInteger b \<and> integer_text (trim answer) \<and>
               toNumber answer = int_num (if get payload ''operation'' = Str ''-'' then num_int a - num_int b else num_int a + num_int b)
           | _ \<Rightarrow> False))"

section \<open>Mail and reCAPTCHA\<close>

definition mail_configured :: "id \<Rightarrow> world \<Rightarrow> bool" where
  "mail_configured orgId w =
     (case findUnique o_id orgId (orgs w) of
        None \<Rightarrow> False
      | Some o' \<Rightarrow> opt_or (o_mailgunApiKeyEncrypted o') [] \<noteq> [] \<and> opt_or (o_mailgunDomain o') [] \<noteq> [] \<and> opt_or (o_mailgunFromEmail o') [] \<noteq> [])"

definition mail_claims :: "id \<Rightarrow> id \<Rightarrow> obj" where
  "mail_claims userId orgId = [(''sub'', Str userId), (''orgId'', Str orgId), (''purpose'', Str ''verify-email'')]"

definition set_user :: "id \<Rightarrow> (user \<Rightarrow> user) \<Rightarrow> world \<Rightarrow> world" where
  "set_user i f w = w\<lparr>users := updateRow u_id i f (users w)\<rparr>"

definition sendVerification :: "authEnv \<Rightarrow> id \<Rightarrow> id \<Rightarrow> string \<Rightarrow> ms \<Rightarrow> world \<Rightarrow> unit res \<times> world" where
  "sendVerification A userId orgId email now w =
     (let url = au_link A (au_sign A MailSecret (mail_claims userId orgId)) in
      if \<not> mail_configured orgId w then (Inl (NotFoundException ''Mailgun is not configured for this organization''), w)
      else
        let w1 = w\<lparr>effects := effects w @ [SendMail orgId email url]\<rparr>
        in (case au_mail A orgId email url of
              Inl e \<Rightarrow> (Inl e, w1)
            | Inr _ \<Rightarrow> (Inr (), set_user userId (\<lambda>u. u\<lparr>u_emailVerificationSentAt := Some now\<rparr>) w1)))"

definition verifyRecaptcha :: "authEnv \<Rightarrow> string \<Rightarrow> string option \<Rightarrow> string \<Rightarrow> bool res" where
  "verifyRecaptcha A encryptedSecret token ip =
     (if trim (opt_or token []) = [] then Inr False
      else (case au_decrypt A encryptedSecret of
              None \<Rightarrow> Inl (Error ''Stored integration credential is invalid'')
            | Some s \<Rightarrow>
                (case au_captcha A s (trim (opt_or token [])) ip of
                   Unreachable \<Rightarrow> Inl (ServiceUnavailableException ''reCAPTCHA verification is temporarily unavailable'')
                 | Answer success hostname \<Rightarrow>
                     Inr (success \<and> (case au_hostname A of
                            None \<Rightarrow> True
                          | Some expected \<Rightarrow> expected = ''localhost'' \<or> opt_or hostname [] = [] \<or> hostname = Some expected)))))"

section \<open>Registration and sign-in\<close>

datatype registration = RegistrationReceived | VerificationRequired string | ApprovalRequired string

definition find_email :: "string \<Rightarrow> world \<Rightarrow> user option" where
  "find_email email w = findUnique u_email email (users w)"

definition getOrCreateDefaultOrg :: "ms \<Rightarrow> world \<Rightarrow> id \<times> world" where
  "getOrCreateDefaultOrg now w =
     (case orderAsc o_createdAt (orgs w) of
        o' # _ \<Rightarrow> (o_id o', w)
      | [] \<Rightarrow> (next_id w, (draw w)\<lparr>orgs := orgs w @ [new_org (next_id w) ''Default'' ''default'' now]\<rparr>))"

definition take_quota :: "string \<Rightarrow> world \<Rightarrow> world option" where
  \<comment> \<open>\<open>INSERT ... ON CONFLICT DO UPDATE ... WHERE registration_count < 2 RETURNING\<close>; None: no row\<close>
  "take_quota h w =
     (case map_of (registrationIpQuotas w) h of
        None \<Rightarrow> Some (w\<lparr>registrationIpQuotas := map_put h 1 (registrationIpQuotas w)\<rparr>)
      | Some n \<Rightarrow> if n < 2 then Some (w\<lparr>registrationIpQuotas := map_put h (n + 1) (registrationIpQuotas w)\<rparr>) else None)"

definition new_user :: "id \<Rightarrow> string \<Rightarrow> string option \<Rightarrow> string \<Rightarrow> ms option \<Rightarrow> ms \<Rightarrow> user" where
  "new_user i email name passwordHash verifiedAt now =
     \<lparr>u_id = i, u_email = email, u_name = (case name of None \<Rightarrow> None | Some n \<Rightarrow> or_null (trim n)), u_passwordHash = Some passwordHash,
      u_emailVerifiedAt = verifiedAt, u_emailVerificationSentAt = None, u_approvedAt = None, u_approvedById = None,
      u_authVersion = 1, u_createdAt = now\<rparr>"

definition add_user :: "user \<Rightarrow> id \<Rightarrow> string \<Rightarrow> ms \<Rightarrow> world \<Rightarrow> world" where
  "add_user u orgId role now w =
     (draw w)\<lparr>users := users w @ [u],
       userOrgs := userOrgs w @ [\<lparr>uo_userId = u_id u, uo_orgId = orgId, uo_role = role, uo_createdAt = now\<rparr>]\<rparr>"

definition register :: "authEnv \<Rightarrow> string \<Rightarrow> string \<Rightarrow> string option \<Rightarrow> string \<Rightarrow> string \<Rightarrow> ms \<Rightarrow> world \<Rightarrow> registration res \<times> world" where
  "register A email password name ip salt now w =
     (let email = toLowerCase (trim email) in
      if find_email email w \<noteq> None then (Inr RegistrationReceived, w)
      else
        let (orgId, w1) = getOrCreateDefaultOrg now w;
            passwordHash = makePasswordHash A password salt;
            verificationRequired = mail_configured orgId w1
        in (case take_quota (registrationIpHash (au_hmac A) ip) w1 of
              None \<Rightarrow> (Inl (ForbiddenException ''This network has reached the two-account registration limit. Ask an administrator to create the account manually.''), w1)
            | Some w2 \<Rightarrow>
                let u = new_user (next_id w2) email name passwordHash (if verificationRequired then None else Some now) now;
                    w3 = add_user u orgId ''viewer'' now w2
                in if verificationRequired
                   then (case sendVerification A (u_id u) orgId email now w3 of
                           (Inl e, w4) \<Rightarrow> (Inl e, w4)
                         | (Inr _, w4) \<Rightarrow> (Inr (VerificationRequired email), w4))
                   else (Inr (ApprovalRequired email), w3)))"

definition membership_of :: "id \<Rightarrow> world \<Rightarrow> userOrg option" where
  \<comment> \<open>\<open>userOrgs: { take: 1 }\<close>, in the order of the table\<close>
  "membership_of userId w = List.find (\<lambda>m. uo_userId m = userId) (userOrgs w)"

definition failLogin :: "authEnv \<Rightarrow> string \<Rightarrow> string \<Rightarrow> string \<Rightarrow> bool \<Rightarrow> ms \<Rightarrow> world \<Rightarrow> exn \<times> world" where
  "failLogin A email ip message clean now w =
     (case recordLoginFailure (au_hmac A) email ip clean now w of
        (Some lockout, w1) \<Rightarrow> (throwActiveLockout lockout now, w1)
      | (None, w1) \<Rightarrow> (UnauthorizedException message, w1))"

definition security_org :: "user option \<Rightarrow> world \<Rightarrow> org option" where
  "security_org user w =
     (case Option.bind (Option.bind user (\<lambda>u. membership_of (u_id u) w)) (\<lambda>m. findUnique o_id (uo_orgId m) (orgs w)) of
        Some o' \<Rightarrow> Some o'
      | None \<Rightarrow> (case orgs w of [] \<Rightarrow> None | o' # _ \<Rightarrow> Some o'))"

definition captcha_ok :: "authEnv \<Rightarrow> user option \<Rightarrow> string option \<Rightarrow> string \<Rightarrow> world \<Rightarrow> bool res" where
  "captcha_ok A user recaptchaToken ip w =
     (case opt_or (Option.bind (security_org user w) o_recaptchaSecretEncrypted) [] of
        [] \<Rightarrow> Inr True
      | s \<Rightarrow> verifyRecaptcha A s recaptchaToken ip)"

definition credentials_ok :: "authEnv \<Rightarrow> user option \<Rightarrow> string \<Rightarrow> bool" where
  "credentials_ok A user password =
     (let stored = or_str (opt_or (Option.bind user u_passwordHash) []) (au_dummy A)
      in verifyPassword A password stored \<and> opt_or (Option.bind user u_passwordHash) [] \<noteq> [])"

definition admit_user :: "authEnv \<Rightarrow> user \<Rightarrow> string \<Rightarrow> world \<Rightarrow> (string \<times> id \<times> id) res \<times> world" where
  "admit_user A user email w =
     (let first = membership_of (u_id user) w in
      if u_emailVerifiedAt user = None \<and> (case first of None \<Rightarrow> False | Some m \<Rightarrow> mail_configured (uo_orgId m) w)
      then (Inl (UnauthorizedException ''Email verification required''), w)
      else if u_approvedAt user = None then (Inl (ForbiddenException ''Account is awaiting administrator approval''), w)
      else (case first of
              None \<Rightarrow> (Inl (UnauthorizedException ''Invalid email or password''), w)
            | Some m \<Rightarrow>
                (Inr (issueToken A (u_id user) (uo_orgId m) (u_authVersion user), u_id user, uo_orgId m),
                 audit_row (uo_orgId m) (Some (u_id user)) ''login'' ''user'' (u_id user) [] (recordLoginSuccess (au_hmac A) email w))))"

definition login :: "authEnv \<Rightarrow> string \<Rightarrow> string \<Rightarrow> string \<Rightarrow> string \<Rightarrow> string \<Rightarrow> string option \<Rightarrow> bool \<Rightarrow> ms \<Rightarrow> world \<Rightarrow> (string \<times> id \<times> id) res \<times> world" where
  "login A email password ip mathChallengeToken mathAnswer recaptchaToken clean now w =
     (let email = toLowerCase (trim email);
          fail = (\<lambda>message. case failLogin A email ip message clean now w of (e, w1) \<Rightarrow> (Inl e, w1))
      in case assertLoginAllowed (au_hmac A) email ip now w of
           Inl e \<Rightarrow> (Inl e, w)
         | Inr _ \<Rightarrow>
             if \<not> verifyMathChallenge A mathChallengeToken mathAnswer then fail ''Solve the new math challenge and try again''
             else
               let user = find_email email w
               in (case captcha_ok A user recaptchaToken ip w of
                     Inl e \<Rightarrow> (Inl e, w)
                   | Inr False \<Rightarrow> fail ''Complete the reCAPTCHA challenge and try again''
                   | Inr True \<Rightarrow>
                       (case user of
                          None \<Rightarrow> fail ''Invalid email or password''
                        | Some u \<Rightarrow> if \<not> credentials_ok A user password then fail ''Invalid email or password''
                            else admit_user A u email w)))"

definition verifyEmail :: "authEnv \<Rightarrow> string \<Rightarrow> ms \<Rightarrow> world \<Rightarrow> string res \<times> world" where
  "verifyEmail A token now w =
     (case au_verify A MailSecret token of
        None \<Rightarrow> (Inl (UnauthorizedException ''Verification link is invalid or expired''), w)
      | Some payload \<Rightarrow>
          let sub = str_of (get payload ''sub''); orgId = str_of (get payload ''orgId'')
          in if get payload ''purpose'' \<noteq> Str ''verify-email'' \<or> sub = [] \<or> orgId = []
             then (Inl (UnauthorizedException ''Verification link is invalid''), w)
             else (case (find_member sub orgId w, findUnique u_id sub (users w)) of
                     (Some _, Some u) \<Rightarrow>
                       if u_emailVerifiedAt u \<noteq> None then (Inl (UnauthorizedException ''Verification link has already been used''), w)
                       else (Inr (u_email u), set_user sub (\<lambda>u. u\<lparr>u_emailVerifiedAt := Some now\<rparr>) w)
                   | _ \<Rightarrow> (Inl (UnauthorizedException ''Verification account no longer exists''), w)))"

definition resendVerification :: "authEnv \<Rightarrow> string \<Rightarrow> ms \<Rightarrow> world \<Rightarrow> unit res \<times> world" where
  "resendVerification A email now w =
     (case find_email (toLowerCase (trim email)) w of
        None \<Rightarrow> (Inr (), w)
      | Some u \<Rightarrow>
          (case membership_of (u_id u) w of
             None \<Rightarrow> (Inr (), w)
           | Some m \<Rightarrow>
               if u_emailVerifiedAt u \<noteq> None \<or> (case u_emailVerificationSentAt u of None \<Rightarrow> False | Some t \<Rightarrow> now - t < 60000) \<or>
                  \<not> mail_configured (uo_orgId m) w then (Inr (), w)
               else sendVerification A (u_id u) (uo_orgId m) (u_email u) now w))"

definition changePassword :: "authEnv \<Rightarrow> id \<Rightarrow> string \<Rightarrow> string \<Rightarrow> string \<Rightarrow> world \<Rightarrow> unit res \<times> world" where
  "changePassword A userId currentPassword newPassword salt w =
     (case opt_or (Option.bind (findUnique u_id userId (users w)) u_passwordHash) [] of
        [] \<Rightarrow> (Inl (UnauthorizedException ''Current password is incorrect''), w)
      | stored \<Rightarrow>
          if \<not> verifyPassword A currentPassword stored then (Inl (UnauthorizedException ''Current password is incorrect''), w)
          else if currentPassword = newPassword then (Inl (ConflictException ''New password must differ from current password''), w)
          else (Inr (), set_user userId (\<lambda>u. u\<lparr>u_passwordHash := Some (makePasswordHash A newPassword salt), u_authVersion := u_authVersion u + 1\<rparr>) w))"

definition getProfile :: "id \<Rightarrow> world \<Rightarrow> (string \<times> string option \<times> bool \<times> (id \<times> string \<times> string \<times> string) list) res" where
  \<comment> \<open>email, name, approved, and per organization its id, name, slug and the role\<close>
  "getProfile userId w =
     (case findUnique u_id userId (users w) of
        None \<Rightarrow> Inl (NotFoundException ''User not found'')
      | Some u \<Rightarrow> Inr (u_email u, u_name u, u_approvedAt u \<noteq> None,
          List.map_filter (\<lambda>m. if uo_userId m \<noteq> userId then None
            else map_option (\<lambda>o'. (uo_orgId m, o_name o', o_slug o', uo_role m)) (findUnique o_id (uo_orgId m) (orgs w))) (userOrgs w)))"

section \<open>Accounts of an organization\<close>

definition createAccount :: "authEnv \<Rightarrow> id \<Rightarrow> id \<Rightarrow> string \<Rightarrow> string \<Rightarrow> string option \<Rightarrow> string \<Rightarrow> string \<Rightarrow> ms \<Rightarrow> world \<Rightarrow> id res \<times> world" where
  "createAccount A orgId actingUserId email password name role salt now w =
     (let email = toLowerCase (trim email) in
      if find_email email w \<noteq> None then (Inl (ConflictException ''An account with this email already exists''), w)
      else
        let u = (new_user (next_id w) email name (makePasswordHash A password salt) (Some now) now)\<lparr>u_approvedAt := Some now, u_approvedById := Some actingUserId\<rparr>
        in (Inr (u_id u), add_user u orgId role now w))"

definition role_in :: "id \<Rightarrow> id \<Rightarrow> world \<Rightarrow> string option" where
  "role_in userId orgId w = map_option uo_role (find_member userId orgId w)"

definition setAccountApproval :: "id \<Rightarrow> id \<Rightarrow> id \<Rightarrow> bool \<Rightarrow> ms \<Rightarrow> world \<Rightarrow> ms option res \<times> world" where
  "setAccountApproval orgId accountId actingUserId approved now w =
     (if accountId = actingUserId then (Inl (ForbiddenException ''You cannot change your own approval status''), w)
      else if role_in actingUserId orgId w \<noteq> Some ''admin'' then (Inl (ForbiddenException ''Only organization administrators may approve accounts''), w)
      else (case (role_in accountId orgId w, findUnique u_id accountId (users w)) of
              (Some role, Some u) \<Rightarrow>
                if role = ''admin'' then (Inl (ForbiddenException ''Administrator approval cannot be changed here''), w)
                else if approved \<and> u_emailVerifiedAt u = None then (Inl (ConflictException ''Email confirmation is required before approval''), w)
                else if approved \<and> opt_or (u_passwordHash u) [] = [] then (Inl (ConflictException ''Sign-in is disabled for this account''), w)
                else if (u_approvedAt u \<noteq> None) = approved then (Inr (u_approvedAt u), w)
                else
                  let approvedAt = (if approved then Some now else None)
                  in (Inr approvedAt,
                      audit_row orgId (Some actingUserId) (if approved then ''account_approved'' else ''account_access_revoked'') ''user'' accountId
                        [(''targetEmail'', Str (u_email u))]
                        (set_user accountId (\<lambda>u. u\<lparr>u_approvedAt := approvedAt, u_approvedById := (if approved then Some actingUserId else None),
                           u_authVersion := u_authVersion u + 1\<rparr>) w))
            | _ \<Rightarrow> (Inl (NotFoundException ''Organization account not found''), w)))"

definition admins :: "id \<Rightarrow> world \<Rightarrow> userOrg list" where
  "admins orgId w = filter (\<lambda>m. uo_orgId m = orgId \<and> uo_role m = ''admin'') (userOrgs w)"

definition deleteAccount :: "id \<Rightarrow> id \<Rightarrow> id \<Rightarrow> world \<Rightarrow> (string \<times> bool) res \<times> world" where
  \<comment> \<open>server roles of the user are not modelled\<close>
  "deleteAccount orgId accountId actingUserId w =
     (if accountId = actingUserId then (Inl (ForbiddenException ''You cannot delete your own account''), w)
      else (case (role_in accountId orgId w, findUnique u_id accountId (users w)) of
              (Some role, Some u) \<Rightarrow>
                if role = ''admin'' \<and> length (admins orgId w) \<le> 1
                then (Inl (ConflictException ''The organization must keep at least one administrator''), w)
                else
                  let last = (countRows (\<lambda>m. uo_userId m = accountId) (userOrgs w) = 1);
                      w1 = w\<lparr>userOrgs := deleteMany (\<lambda>m. uo_userId m = accountId \<and> uo_orgId m = orgId) (userOrgs w)\<rparr>
                  in (Inr (u_email u, last),
                      if last then set_user accountId (\<lambda>u. u\<lparr>u_passwordHash := None, u_approvedAt := None, u_approvedById := None,
                                     u_authVersion := u_authVersion u + 1\<rparr>) w1
                      else w1)
            | _ \<Rightarrow> (Inl (NotFoundException ''Organization account not found''), w)))"

definition resetAccountPassword :: "authEnv \<Rightarrow> id \<Rightarrow> id \<Rightarrow> id \<Rightarrow> string \<Rightarrow> string \<Rightarrow> world \<Rightarrow> unit res \<times> world" where
  "resetAccountPassword A orgId accountId actingUserId newPassword salt w =
     (if accountId = actingUserId then (Inl (ForbiddenException ''Use your personal password settings to change your own password''), w)
      else if role_in actingUserId orgId w \<noteq> Some ''admin'' then (Inl (ForbiddenException ''Only organization administrators may reset passwords''), w)
      else (case (role_in accountId orgId w, findUnique u_id accountId (users w)) of
              (Some role, Some u) \<Rightarrow>
                if role = ''admin'' then (Inl (ForbiddenException ''Administrators may reset passwords only for lower-tier accounts''), w)
                else (Inr (),
                      audit_row orgId (Some actingUserId) ''password_reset'' ''user'' accountId [(''targetEmail'', Str (u_email u))]
                        (set_user accountId (\<lambda>u. u\<lparr>u_passwordHash := Some (makePasswordHash A newPassword salt),
                           u_authVersion := u_authVersion u + 1\<rparr>) w))
            | _ \<Rightarrow> (Inl (NotFoundException ''Organization account not found''), w)))"

definition createOrg :: "string \<Rightarrow> string \<Rightarrow> id \<Rightarrow> ms \<Rightarrow> world \<Rightarrow> id res \<times> world" where
  \<comment> \<open>the column \<open>slug\<close> is unique: the insertion fails when the cleaned slug is taken\<close>
  "createOrg name slug userId now w =
     (if findUnique o_slug slug (orgs w) \<noteq> None then (Inl (ConflictException (''An org with slug \"'' @ slug @ ''\" already exists'')), w)
      else
        let clean = toLowerCase (trim slug)
        in if findUnique o_slug clean (orgs w) \<noteq> None then (Inl (Error ''Unique constraint failed on the fields: (`slug`)''), w)
           else (Inr (next_id w),
                 (draw w)\<lparr>orgs := orgs w @ [new_org (next_id w) (trim name) clean now],
                   userOrgs := userOrgs w @ [\<lparr>uo_userId = userId, uo_orgId = next_id w, uo_role = ''admin'', uo_createdAt = now\<rparr>]\<rparr>))"

section \<open>Passwords round trip\<close>

text \<open>The hex of 64 bytes.\<close>

definition scrypt_hex :: "string \<Rightarrow> bool" where
  "scrypt_hex h \<longleftrightarrow> length h = 128 \<and> list_all is_hex h"

lemma hash_parts:
  assumes "CHR ''$'' \<notin> set salt" and "CHR ''$'' \<notin> set h"
  shows "split CHR ''$'' (''scrypt$'' @ salt @ ''$'' @ h) = [''scrypt'', salt, h]"
proof -
  have e: "''scrypt$'' @ salt @ ''$'' @ h = ''scrypt'' @ CHR ''$'' # (salt @ CHR ''$'' # h)" by simp
  have "CHR ''$'' \<notin> set ''scrypt''" by simp
  then show ?thesis unfolding e using assms by (simp add: split_append split_no)
qed

lemma password_roundtrip:
  assumes "CHR ''$'' \<notin> set salt" and "salt \<noteq> []" and "scrypt_hex (au_scrypt A password salt)"
  shows "verifyPassword A other (makePasswordHash A password salt) \<longleftrightarrow>
    hex_bytes (au_scrypt A other salt) = hex_bytes (au_scrypt A password salt)"
proof -
  have "CHR ''$'' \<notin> set (au_scrypt A password salt)" "au_scrypt A password salt \<noteq> []"
    using assms(3) by (auto simp: scrypt_hex_def list_all_iff is_hex_def is_digit_def code_def)
  note h = this
  have pre: "startsWith (makePasswordHash A password salt) ''scrypt$''" unfolding makePasswordHash_def by (rule startsWith_append)
  have parts: "split CHR ''$'' (makePasswordHash A password salt) = [''scrypt'', salt, au_scrypt A password salt]"
    unfolding makePasswordHash_def by (rule hash_parts [OF assms(1) h(1)])
  show ?thesis by (simp add: verifyPassword_def pre parts part_def assms(2) h(2))
qed

section \<open>Steps\<close>

text \<open>The account operations. The caller of \<open>createOrg\<close> has a session and the organization of
  \<open>createAccount\<close> exists: the guards of the routes load both.\<close>

inductive acct_step :: "authEnv \<Rightarrow> world \<Rightarrow> world \<Rightarrow> bool" for A where
  register: "acct_step A w (snd (register A email password name ip salt now w))"
| login: "acct_step A w (snd (login A email password ip t a c clean now w))"
| verify_email: "acct_step A w (snd (verifyEmail A token now w))"
| resend: "acct_step A w (snd (resendVerification A email now w))"
| change_password: "acct_step A w (snd (changePassword A userId old new salt w))"
| create_account: "findUnique o_id orgId (orgs w) \<noteq> None \<Longrightarrow> acct_step A w (snd (createAccount A orgId actor email password name role salt now w))"
| set_approval: "acct_step A w (snd (setAccountApproval orgId accountId actor approved now w))"
| delete_account: "acct_step A w (snd (deleteAccount orgId accountId actor w))"
| reset_password: "acct_step A w (snd (resetAccountPassword A orgId accountId actor new salt w))"
| create_org: "findUnique u_id userId (users w) \<noteq> None \<Longrightarrow> acct_step A w (snd (createOrg name slug userId now w))"

definition member_key :: "userOrg \<Rightarrow> id \<times> id" where
  "member_key m = (uo_userId m, uo_orgId m)"

definition acct_ok :: "world \<Rightarrow> bool" where
  "acct_ok w \<longleftrightarrow> inj (idgen w) \<and> distinct (map u_id (users w)) \<and> distinct (map member_key (userOrgs w)) \<and>
     list_all (drawn w) (map u_id (users w)) \<and> list_all (drawn w) (map o_id (orgs w)) \<and>
     list_all (\<lambda>m. uo_userId m \<in> u_id ` set (users w) \<and> uo_orgId m \<in> o_id ` set (orgs w)) (userOrgs w)"

text \<open>What no operation undoes: users stay, their session versions only grow, and an organization
  with an administrator keeps one.\<close>

definition acct_le :: "world \<Rightarrow> world \<Rightarrow> bool" where
  "acct_le w w' \<longleftrightarrow>
     (\<forall>i u. findUnique u_id i (users w) = Some u \<longrightarrow> (\<exists>u'. findUnique u_id i (users w') = Some u' \<and> u_authVersion u \<le> u_authVersion u')) \<and>
     (\<forall>o'. admins o' w \<noteq> [] \<longrightarrow> admins o' w' \<noteq> [])"

interpretation acct_le: state_preorder acct_le
proof
  show "acct_le w w" for w by (auto simp: acct_le_def)
  show "acct_le w w''" if le: "acct_le w w'" "acct_le w' w''" for w w' w''
    unfolding acct_le_def
  proof (intro conjI allI impI)
    fix i u assume "findUnique u_id i (users w) = Some u"
    then obtain u1 where 1: "findUnique u_id i (users w') = Some u1" "u_authVersion u \<le> u_authVersion u1" using le(1) unfolding acct_le_def by blast
    from this(1) obtain u2 where "findUnique u_id i (users w'') = Some u2" "u_authVersion u1 \<le> u_authVersion u2"
      using le(2) unfolding acct_le_def by blast
    with 1(2) show "\<exists>u'. findUnique u_id i (users w'') = Some u' \<and> u_authVersion u \<le> u_authVersion u'" by (meson order_trans)
  next
    fix o' assume "admins o' w \<noteq> []"
    then show "admins o' w'' \<noteq> []" using le unfolding acct_le_def by blast
  qed
qed

definition acct_move :: "world \<Rightarrow> world \<Rightarrow> bool" where
  "acct_move w w' \<longleftrightarrow> (acct_ok w \<longrightarrow> acct_ok w' \<and> acct_le w w')"

interpretation acct_move: state_preorder acct_move
  by unfold_locales (auto simp: acct_move_def acct_le.refl_R intro: acct_le.trans_R)

text \<open>The moves that operations are made of.\<close>

lemma acct_same:
  assumes "idgen w' = idgen w" and "idctr w \<le> idctr w'" and "users w' = users w" and "userOrgs w' = userOrgs w" and "orgs w' = orgs w"
  shows "acct_move w w'"
  using drawn_mono [OF assms(1,2)] assms(1,3-5)
  by (auto simp: acct_move_def acct_ok_def acct_le_def admins_def list_all_iff)

lemma acct_update:
  assumes "\<And>u. u_id (f u) = u_id u" and "\<And>u. u_authVersion u \<le> u_authVersion (f u)"
  shows "acct_move w (set_user i f w)"
proof -
  have ids: "map u_id (updateRow u_id i f (users w)) = map u_id (users w)" by (rule map_updateRow) (rule assms(1))
  then have "u_id ` set (updateRow u_id i f (users w)) = u_id ` set (users w)" by (metis image_set)
  with ids have "acct_ok w \<Longrightarrow> acct_ok (set_user i f w)"
    unfolding acct_ok_def by (simp add: set_user_def drawn_def [abs_def])
  moreover have "acct_le w (set_user i f w)"
    by (auto simp: acct_le_def set_user_def admins_def findUnique_updateRow [where key = u_id and f = f, OF assms(1)] assms(2))
  ultimately show ?thesis by (simp add: acct_move_def)
qed

lemma fresh_user: "acct_ok w \<Longrightarrow> next_id w \<notin> u_id ` set (users w)"
  using next_id_fresh [of w] by (auto simp: acct_ok_def list_all_iff)

lemma drawn_grow: "idgen w' = idgen w \<Longrightarrow> idctr w' = Suc (idctr w) \<Longrightarrow> drawn w' i \<longleftrightarrow> drawn w i \<or> i = next_id w"
  by (auto simp: drawn_def next_id_def less_Suc_eq)

lemma acct_add_user:
  assumes "u_id u = next_id w" and "orgId \<in> o_id ` set (orgs w)"
  shows "acct_move w (add_user u orgId role now w)"
proof -
  let ?m = "\<lparr>uo_userId = u_id u, uo_orgId = orgId, uo_role = role, uo_createdAt = now\<rparr>"
  have sel: "users (add_user u orgId role now w) = users w @ [u]" "userOrgs (add_user u orgId role now w) = userOrgs w @ [?m]"
    "orgs (add_user u orgId role now w) = orgs w" "idgen (add_user u orgId role now w) = idgen w" "idctr (add_user u orgId role now w) = Suc (idctr w)"
    by (simp_all add: add_user_def draw_def)
  have "acct_ok (add_user u orgId role now w)" if ok: "acct_ok w"
  proof -
    have "member_key ?m \<notin> member_key ` set (userOrgs w)"
      using ok fresh_user [OF ok] assms(1) by (auto simp: acct_ok_def list_all_iff member_key_def)
    then show ?thesis using ok fresh_user [OF ok] assms
      by (auto simp: acct_ok_def sel drawn_grow [OF sel(4,5)] list_all_iff)
  qed
  moreover have "acct_le w (add_user u orgId role now w)"
    by (auto simp: acct_le_def sel admins_def findUnique_append)
  ultimately show ?thesis by (simp add: acct_move_def)
qed

lemma acct_add_org:
  assumes "o_id org = next_id w" and "idgen w' = idgen w" and "idctr w' = Suc (idctr w)" and "users w' = users w" and "orgs w' = orgs w @ [org]"
    and "userOrgs w' = userOrgs w @ ms" and "ms = [] \<or> (\<exists>m. ms = [m] \<and> uo_orgId m = next_id w \<and> uo_userId m \<in> u_id ` set (users w))"
  shows "acct_move w w'"
proof -
  have "acct_ok w'" if ok: "acct_ok w"
  proof -
    have "next_id w \<notin> uo_orgId ` set (userOrgs w)"
      using ok next_id_fresh [of w] by (auto simp: acct_ok_def list_all_iff)
    then have "distinct (map member_key (userOrgs w @ ms))"
      using ok assms(7) by (force simp: acct_ok_def member_key_def)
    then show ?thesis using ok assms(1,4-7) by (auto simp: acct_ok_def drawn_grow [OF assms(2,3)] assms(2) list_all_iff)
  qed
  moreover have "acct_le w w'" by (auto simp: acct_le_def assms(4,6) admins_def)
  ultimately show ?thesis by (simp add: acct_move_def)
qed

lemma sendVerification_move: "acct_move w (snd (sendVerification A userId orgId email now w))"
proof -
  have "acct_move w (w\<lparr>effects := es\<rparr>)" for es by (rule acct_same) simp_all
  moreover have "acct_move v (set_user userId (\<lambda>u. u\<lparr>u_emailVerificationSentAt := t\<rparr>) v)" for v t by (rule acct_update) simp_all
  ultimately show ?thesis
    by (auto simp: sendVerification_def Let_def acct_move.refl_R intro: acct_move.trans_R split: sum.split)
qed

lemma getOrCreateDefaultOrg_move:
  assumes "getOrCreateDefaultOrg now w = (orgId, w')"
  shows "acct_move w w'" "orgId \<in> o_id ` set (orgs w')"
proof -
  have "acct_move w ((draw w)\<lparr>orgs := orgs w @ [new_org (next_id w) ''Default'' ''default'' now]\<rparr>)"
    by (rule acct_add_org [where org = "new_org (next_id w) ''Default'' ''default'' now" and ms = "[]"]) (simp_all add: new_org_def draw_def)
  then show "acct_move w w'" using assms by (auto simp: getOrCreateDefaultOrg_def acct_move.refl_R split: list.splits)
  have "o' \<in> set (orgs w)" if "orderAsc o_createdAt (orgs w) = o' # os" for o' os
    using that set_orderAsc [of o_createdAt "orgs w"] by (metis list.set_intros(1))
  then show "orgId \<in> o_id ` set (orgs w')"
    using assms by (auto simp: getOrCreateDefaultOrg_def new_org_def split: list.splits)
qed

lemma new_user_id [simp]: "u_id (new_user i e nm ph v now) = i"
  by (simp add: new_user_def)

lemma take_quota_move:
  assumes "take_quota h w = Some w'"
  shows "acct_move w w'" "orgs w' = orgs w" "users w' = users w"
proof -
  obtain q where w': "w' = w\<lparr>registrationIpQuotas := q\<rparr>" using assms by (auto simp: take_quota_def split: option.splits if_splits)
  then show "acct_move w w'" by (intro acct_same) simp_all
  show "orgs w' = orgs w" "users w' = users w" using w' by simp_all
qed

lemma register_move: "acct_move w (snd (register A email password name ip salt now w))"
proof -
  obtain orgId w1 where d: "getOrCreateDefaultOrg now w = (orgId, w1)" by fastforce
  note 1 = getOrCreateDefaultOrg_move [OF d]
  show ?thesis
  proof (cases "take_quota (registrationIpHash (au_hmac A) ip) w1")
    case (Some w2)
    note q = take_quota_move [OF Some]
    have 2: "acct_move w w2" using 1(1) q(1) by (rule acct_move.trans_R)
    have "acct_move w2 (add_user (new_user (next_id w2) e n ph v now) orgId ''viewer'' now w2)" for e n ph v
      by (rule acct_add_user) (use 1(2) q(2) in simp_all)
    with 2 have 3: "acct_move w (add_user (new_user (next_id w2) e n ph v now) orgId ''viewer'' now w2)" for e n ph v
      by (rule acct_move.trans_R)
    have 4: "acct_move w (snd (sendVerification A i orgId e now (add_user (new_user (next_id w2) e n ph v now) orgId ''viewer'' now w2)))" for i e n ph v
      using 3 sendVerification_move by (rule acct_move.trans_R)
    have 5: "acct_move w w4" if "sendVerification A i orgId e now (add_user (new_user (next_id w2) e n ph v now) orgId ''viewer'' now w2) = (r, w4)" for i e n ph v r w4
      using 4 [of i e n ph v] that by simp
    show ?thesis
      using 3 5 by (auto simp: register_def Let_def d Some acct_move.refl_R split: prod.split sum.split)
  qed (use 1(1) in \<open>simp add: register_def Let_def d acct_move.refl_R\<close>)
qed

lemma login_move: "acct_move w (snd (login A email password ip t a c clean now w))"
proof -
  have limits: "acct_move v (v\<lparr>authRateLimits := rs\<rparr>)" for v rs by (rule acct_same) simp_all
  have "acct_move v (audit_row o' u ac ty i d v)" for o' u ac ty i d v by (rule acct_same) (simp_all add: audit_row_def)
  with limits have ok: "acct_move v (audit_row o' u ac ty i d (recordLoginSuccess h e v))" for o' u ac ty i d h e v
    unfolding recordLoginSuccess_def by (rule acct_move.trans_R)
  have "\<exists>rs. snd (failLogin A e i m cl n v) = v\<lparr>authRateLimits := rs\<rparr>" for e i m cl n v
  proof -
    have up: "\<exists>rs. upsert k r f u = u\<lparr>authRateLimits := rs\<rparr>" for k r f u by (auto simp: upsert_def)
    have "\<exists>rs. cleanupOccasionally cl n (upsert k r f (incrementWindowBucket b n v)) = v\<lparr>authRateLimits := rs\<rparr>" for k r f b
      using up [of "bk_keyHash b" "first_row (bk_keyHash b) n" "increment_row b n" v]
      by (auto simp: cleanupOccasionally_def incrementWindowBucket_def upsert_def)
    then show ?thesis by (auto simp: failLogin_def recordLoginFailure_def Let_def split: option.split prod.split)
  qed
  then have fail: "acct_move v (snd (failLogin A e i m cl n v))" for e i m cl n v using limits by metis
  have out: "snd (case p of (e, v) \<Rightarrow> (Inl e, v)) = snd p" for p :: "exn \<times> world" by (simp split: prod.split)
  have admit: "acct_move v (snd (admit_user A u e v))" for u e v
    using ok by (simp add: admit_user_def Let_def acct_move.refl_R split: option.split)
  show ?thesis
    unfolding login_def Let_def
    by (simp only: if_distrib [of snd] out fail admit acct_move.refl_R snd_conv split: sum.split option.split bool.split if_split) (simp add: out fail)
qed

lemma delete_members:
  assumes "role_in accountId orgId w = Some role" and "role = ''admin'' \<Longrightarrow> 1 < length (admins orgId w)"
    and "w' = w\<lparr>userOrgs := deleteMany (\<lambda>m. uo_userId m = accountId \<and> uo_orgId m = orgId) (userOrgs w)\<rparr>"
  shows "acct_move w w'"
proof -
  have ok: "acct_ok w'" if "acct_ok w"
    using that by (auto simp: acct_ok_def assms(3) drawn_def [abs_def] deleteMany_def distinct_map_filter list_all_iff)
  have "admins o' w' \<noteq> []" if w: "acct_ok w" "admins o' w \<noteq> []" for o'
  proof (cases "o' = orgId")
    case False
    then have "admins o' w' = admins o' w" by (auto simp: admins_def assms(3) deleteMany_def intro!: filter_cong)
    then show ?thesis using w(2) by simp
  next
    case True
    obtain m where m: "m \<in> set (admins orgId w)" "uo_userId m \<noteq> accountId"
    proof (cases "role = ''admin''")
      case True
      from assms(2) [OF True] obtain a b ms where ab: "admins orgId w = a # b # ms" by (cases "admins orgId w" rule: remdups_adj.cases) auto
      have "distinct (map member_key (admins orgId w))" using w(1) by (simp add: acct_ok_def admins_def distinct_map_filter)
      moreover have "a \<in> set (admins orgId w)" "b \<in> set (admins orgId w)" by (simp_all add: ab)
      then have "uo_orgId a = orgId" "uo_orgId b = orgId" by (simp_all add: admins_def)
      ultimately have "uo_userId a \<noteq> uo_userId b" by (auto simp: ab member_key_def)
      then show ?thesis using that [of a] that [of b] ab by (cases "uo_userId a = accountId") auto
    next
      case False
      from w(2) True obtain m where "m \<in> set (admins orgId w)" by (cases "admins orgId w") auto
      moreover from this have m: "m \<in> set (userOrgs w)" "uo_orgId m = orgId" "uo_role m = ''admin''" by (auto simp: admins_def)
      moreover have "uo_userId m \<noteq> accountId"
      proof
        assume "uo_userId m = accountId"
        moreover from assms(1) obtain x where x: "find_member accountId orgId w = Some x" "uo_role x = role" by (auto simp: role_in_def)
        then have "x \<in> set (userOrgs w)" "member_key x = (accountId, orgId)" using find_Some_set by (fastforce simp: find_member_def member_key_def)+
        moreover have "distinct (map member_key (userOrgs w))" using w(1) by (simp add: acct_ok_def)
        ultimately have "x = m" using m(1,2) by (metis distinct_map inj_onD member_key_def)
        with x(2) m(3) False show False by simp
      qed
      ultimately show ?thesis using that by blast
    qed
    then have "m \<in> set (admins o' w')" by (simp add: admins_def assms(3) deleteMany_def True)
    then show ?thesis by (cases "admins o' w'") auto
  qed
  then have "acct_le w w'" if "acct_ok w" using that by (simp add: acct_le_def assms(3))
  with ok show ?thesis by (simp add: acct_move_def)
qed

lemma delete_move: "acct_move w (snd (deleteAccount orgId accountId actor w))"
proof (cases "role_in accountId orgId w")
  case (Some role)
  let ?w1 = "w\<lparr>userOrgs := deleteMany (\<lambda>m. uo_userId m = accountId \<and> uo_orgId m = orgId) (userOrgs w)\<rparr>"
  have 1: "acct_move w ?w1" if "role = ''admin'' \<Longrightarrow> 1 < length (admins orgId w)" using delete_members [OF Some that] by simp
  have "acct_move ?w1 (set_user accountId (\<lambda>u. u\<lparr>u_passwordHash := None, u_approvedAt := None, u_approvedById := None, u_authVersion := u_authVersion u + 1\<rparr>) ?w1)"
    by (rule acct_update) simp_all
  with 1 show ?thesis
    by (auto simp: deleteAccount_def Let_def Some acct_move.refl_R not_le intro: acct_move.trans_R split: option.split)
qed (simp add: deleteAccount_def acct_move.refl_R)

lemma audit_move: "acct_move v (audit_row o' u a ty i d v)"
  by (rule acct_same) (simp_all add: audit_row_def)

lemma account_moves:
  "acct_move w (snd (verifyEmail A token now w))" "acct_move w (snd (resendVerification A email now w))"
  "acct_move w (snd (changePassword A userId old new salt w))" "acct_move w (snd (setAccountApproval orgId accountId actor approved now w))"
  "acct_move w (snd (resetAccountPassword A orgId accountId actor new salt w))"
proof -
  have upd: "acct_move v (set_user i (\<lambda>u. u\<lparr>u_passwordHash := ph, u_authVersion := u_authVersion u + 1\<rparr>) v)"
    "acct_move v (set_user i (\<lambda>u. u\<lparr>u_approvedAt := t, u_approvedById := by, u_authVersion := u_authVersion u + 1\<rparr>) v)"
    "acct_move v (set_user i (\<lambda>u. u\<lparr>u_emailVerifiedAt := t\<rparr>) v)" for v i ph t "by"
    by (rule acct_update; simp)+
  note audited = acct_move.trans_R [OF upd(1) audit_move] acct_move.trans_R [OF upd(2) audit_move]
  show "acct_move w (snd (verifyEmail A token now w))"
    using upd(3) by (auto simp: verifyEmail_def Let_def acct_move.refl_R split: option.split)
  show "acct_move w (snd (resendVerification A email now w))"
    using sendVerification_move by (auto simp: resendVerification_def acct_move.refl_R split: option.split)
  show "acct_move w (snd (changePassword A userId old new salt w))"
    using upd(1) by (auto simp: changePassword_def acct_move.refl_R split: list.split)
  show "acct_move w (snd (setAccountApproval orgId accountId actor approved now w))"
    using audited(2) by (auto simp: setAccountApproval_def Let_def acct_move.refl_R split: option.split)
  show "acct_move w (snd (resetAccountPassword A orgId accountId actor new salt w))"
    using audited(1) by (auto simp: resetAccountPassword_def acct_move.refl_R split: option.split)
qed

lemma createAccount_move:
  assumes "findUnique o_id orgId (orgs w) \<noteq> None"
  shows "acct_move w (snd (createAccount A orgId actor email password name role salt now w))"
proof -
  have "orgId \<in> o_id ` set (orgs w)" using assms by (simp add: findUnique_None)
  then have "acct_move w (add_user (new_user (next_id w) e n ph v now\<lparr>u_approvedAt := t, u_approvedById := a\<rparr>) orgId role now w)" for e n ph v t a
    by (intro acct_add_user) simp_all
  then show ?thesis by (simp add: createAccount_def Let_def acct_move.refl_R)
qed

lemma createOrg_move:
  assumes "findUnique u_id userId (users w) \<noteq> None"
  shows "acct_move w (snd (createOrg name slug userId now w))"
proof -
  let ?m = "\<lparr>uo_userId = userId, uo_orgId = next_id w, uo_role = ''admin'', uo_createdAt = now\<rparr>"
  have "acct_move w ((draw w)\<lparr>orgs := orgs w @ [new_org (next_id w) n s now], userOrgs := userOrgs w @ [?m]\<rparr>)" for n s
    by (rule acct_add_org [where org = "new_org (next_id w) n s now" and ms = "[?m]"])
      (use assms in \<open>simp_all add: new_org_def draw_def findUnique_None\<close>)
  then show ?thesis by (simp add: createOrg_def Let_def acct_move.refl_R)
qed

lemmas account_step_moves = register_move login_move account_moves createAccount_move createOrg_move delete_move

definition acct_init :: "world \<Rightarrow> bool" where
  "acct_init w \<longleftrightarrow> inj (idgen w) \<and> users w = [] \<and> userOrgs w = [] \<and> orgs w = []"

interpretation accounts: monotone_system acct_init "acct_step A" acct_ok acct_le for A
proof
  show "acct_ok w" if "acct_init w" for w using that by (simp add: acct_init_def acct_ok_def)
  have move: "acct_move w w'" if "acct_step A w w'" for w w' using that by cases (simp_all add: account_step_moves)
  show "acct_ok w'" "acct_le w w'" if "acct_ok w" "acct_step A w w'" for w w'
    using move [OF that(2)] that(1) by (simp_all add: acct_move_def)
qed

section \<open>Sample surroundings\<close>

text \<open>A token that is the text of its claims: any object has a number, and \<open>verify\<close> reads it back, with any
  secret. All secrets are equal.\<close>

instance jsnum :: countable by countable_datatype
instance js :: countable by countable_datatype

definition plain_sign :: "secret \<Rightarrow> obj \<Rightarrow> string" where
  "plain_sign k c = replicate (Suc (to_nat c)) CHR ''t''"

definition plain_verify :: "secret \<Rightarrow> string \<Rightarrow> obj option" where
  "plain_verify k t = Some (from_nat (length t - 1))"

lemma plain_verify_sign: "plain_verify k (plain_sign k' c) = Some c"
  by (simp add: plain_verify_def plain_sign_def)

definition sample_scrypt :: "string \<Rightarrow> string \<Rightarrow> string" where
  "sample_scrypt p s =
     (let hex = (\<lambda>c. [''0123456789abcdef'' ! (code c div 16), ''0123456789abcdef'' ! (code c mod 16)])
      in take 128 (concat (map hex p) @ replicate 128 CHR ''0''))"

definition sample_auth :: authEnv where
  "sample_auth = \<lparr>au_hmac = (\<lambda>s. s), au_scrypt = sample_scrypt, au_sha256 = (\<lambda>s. ''ab''), au_dummy = ''scrypt$00$00'',
     au_sign = plain_sign, au_verify = plain_verify, au_decrypt = Some, au_captcha = (\<lambda>_ _ _. Unreachable), au_hostname = None,
     au_link = (\<lambda>t. t), au_mail = (\<lambda>_ _ _. Inr ())\<rparr>"

definition sample_user :: user where
  "sample_user = (new_user ''u'' ''ann@example.org'' (Some ''Ann'') (makePasswordHash sample_auth ''secret'' ''5a'') (Some 1) 1)\<lparr>u_approvedAt := Some 2\<rparr>"

definition sample_office :: world where
  "sample_office = (empty_world nat_str)\<lparr>orgs := [new_org ''o'' ''Org'' ''org'' 1], users := [sample_user],
     userOrgs := [\<lparr>uo_userId = ''u'', uo_orgId = ''o'', uo_role = ''operator'', uo_createdAt = 1\<rparr>], idgen := (\<lambda>n. case n of 0 \<Rightarrow> ''o'' | Suc 0 \<Rightarrow> ''u'' | n \<Rightarrow> nat_str n), idctr := 2\<rparr>"

lemma sample_office_ok: "acct_ok sample_office"
proof -
  have "nat_str n \<noteq> ''o''" "nat_str n \<noteq> ''u''" for n
    using nat_str_digits [of n] by (auto simp: is_digit_def code_def)
  then have "nat_str n \<noteq> ''o''" "nat_str n \<noteq> ''u''" "''o'' \<noteq> nat_str n" "''u'' \<noteq> nat_str n" for n by metis+
  then have "inj (idgen sample_office)"
    using inj_nat_str by (auto simp: sample_office_def inj_def split: nat.split)
  moreover have "drawn sample_office ''u''" "drawn sample_office ''o''"
    unfolding drawn_def by (rule exI [of _ 1], simp add: sample_office_def) (rule exI [of _ 0], simp add: sample_office_def)
  ultimately show ?thesis by (simp add: acct_ok_def sample_office_def sample_user_def new_org_def empty_world_def member_key_def drawn_def)
qed

section \<open>Properties of accounts\<close>

text \<open>C29: an organization never loses its last administrator, whatever accounts are registered, approved,
  deleted or changed, as long as the operations are served one after the other.\<close>

theorem org_keeps_admin:
  assumes "acct_ok w" and "(acct_step A)\<^sup>*\<^sup>* w w'" and "m \<in> set (userOrgs w)" and "uo_role m = ''admin''"
  shows "\<exists>m'. m' \<in> set (userOrgs w') \<and> uo_orgId m' = uo_orgId m \<and> uo_role m' = ''admin''"
proof -
  have "m \<in> set (admins (uo_orgId m) w)" using assms(3,4) by (simp add: admins_def)
  then have "admins (uo_orgId m) w \<noteq> []" by auto
  then have "admins (uo_orgId m) w' \<noteq> []" using accounts.steps_R [OF assms(2,1)] by (simp add: acct_le_def)
  then obtain m' where "m' \<in> set (admins (uo_orgId m) w')" by (cases "admins (uo_orgId m) w'") auto
  then show ?thesis by (auto simp: admins_def)
qed

definition sample_board :: world where
  "sample_board = sample_office\<lparr>userOrgs := [\<lparr>uo_userId = ''u'', uo_orgId = ''o'', uo_role = ''admin'', uo_createdAt = 1\<rparr>]\<rparr>"

definition sample_promoted :: world where
  "sample_promoted = snd (createAccount sample_auth ''o'' ''u'' ''bob@example.org'' ''another'' None ''admin'' ''5b'' 3 sample_board)"

theorem org_keeps_admin_witness:
  "\<exists>w' m'. deleteAccount ''o'' ''u'' ''2'' sample_promoted = (Inr (''ann@example.org'', True), w') \<and> membership_of ''u'' w' = None \<and>
    m' \<in> set (userOrgs w') \<and> uo_orgId m' = ''o'' \<and> uo_role m' = ''admin''"
proof -
  let ?m = "\<lparr>uo_userId = ''u'', uo_orgId = ''o'', uo_role = ''admin'', uo_createdAt = 1\<rparr>"
  let ?d = "deleteAccount ''o'' ''u'' ''2'' sample_promoted"
  have ok: "acct_ok sample_board" using sample_office_ok
    by (simp add: acct_ok_def sample_board_def drawn_def [abs_def]) (simp add: sample_office_def sample_user_def new_user_def new_org_def)
  have "findUnique o_id ''o'' (orgs sample_board) \<noteq> None" by (simp add: sample_board_def sample_office_def findUnique_None new_org_def)
  then have "acct_step sample_auth sample_board sample_promoted" unfolding sample_promoted_def by (rule acct_step.create_account)
  then have s: "(acct_step sample_auth)\<^sup>*\<^sup>* sample_board (snd ?d)" using acct_step.delete_account by (meson converse_rtranclp_into_rtranclp r_into_rtranclp)
  have m: "?m \<in> set (userOrgs sample_board)" by (simp add: sample_board_def)
  have "fst ?d = Inr (''ann@example.org'', True) \<and> membership_of ''u'' (snd ?d) = None" by code_simp
  then obtain w' where w': "?d = (Inr (''ann@example.org'', True), w')" "membership_of ''u'' w' = None" by (metis prod.collapse snd_conv)
  from org_keeps_admin [OF ok s m] w' show ?thesis by auto
qed

section \<open>Registration quota\<close>

definition quota_of :: "authEnv \<Rightarrow> string \<Rightarrow> world \<Rightarrow> int" where
  "quota_of A ip w = opt_or (map_of (registrationIpQuotas w) (registrationIpHash (au_hmac A) ip)) 0"

definition emails :: "world \<Rightarrow> string set" where
  "emails w = set (map u_email (users w))"

fun register_all :: "authEnv \<Rightarrow> string \<Rightarrow> (string \<times> string \<times> string option \<times> string \<times> ms) list \<Rightarrow> world \<Rightarrow> world" where
  \<comment> \<open>registrations of email, password, name, salt and time from one address\<close>
  "register_all A ip [] w = w"
| "register_all A ip ((email, password, name, salt, now) # rs) w = register_all A ip rs (snd (register A email password name ip salt now w))"

lemma email_updateRow: "(\<And>u. u_email (f u) = u_email u) \<Longrightarrow> map u_email (updateRow u_id i f us) = map u_email us"
  by (induction us) auto

lemma sendVerification_users:
  "map u_email (users (snd (sendVerification A i o' e now w))) = map u_email (users w)"
  "registrationIpQuotas (snd (sendVerification A i o' e now w)) = registrationIpQuotas w"
  by (auto simp: sendVerification_def Let_def set_user_def email_updateRow split: sum.split)

lemma register_effect:
  assumes e_def: "e = toLowerCase (trim email)" and w': "w' = snd (register A email password name ip salt now w)"
  shows "e \<in> emails w \<Longrightarrow> w' = w"
    and "e \<notin> emails w \<Longrightarrow> quota_of A ip w < 2 \<Longrightarrow> map u_email (users w') = map u_email (users w) @ [e] \<and> quota_of A ip w' = quota_of A ip w + 1"
    and "e \<notin> emails w \<Longrightarrow> \<not> quota_of A ip w < 2 \<Longrightarrow> users w' = users w \<and> quota_of A ip w' = quota_of A ip w"
proof -
  have f: "find_email e w \<noteq> None \<longleftrightarrow> e \<in> emails w"
    using findUnique_None [of u_email e "users w"] by (simp add: find_email_def emails_def)
  show "w' = w" if "e \<in> emails w" using that f by (simp add: w' e_def [symmetric] register_def Let_def)
  obtain orgId w1 where d: "getOrCreateDefaultOrg now w = (orgId, w1)" by fastforce
  then have w1: "users w1 = users w" "registrationIpQuotas w1 = registrationIpQuotas w"
    by (auto simp: getOrCreateDefaultOrg_def draw_def split: list.splits)
  let ?h = "registrationIpHash (au_hmac A) ip"
  show "map u_email (users w') = map u_email (users w) @ [e] \<and> quota_of A ip w' = quota_of A ip w + 1" if new: "e \<notin> emails w" "quota_of A ip w < 2"
  proof -
    have "\<exists>w2. take_quota ?h w1 = Some w2 \<and> users w2 = users w \<and> map_of (registrationIpQuotas w2) ?h = Some (quota_of A ip w + 1)"
      using new(2) w1 by (auto simp: take_quota_def quota_of_def opt_or_def split: option.splits)
    then obtain w2 where w2: "take_quota ?h w1 = Some w2" "users w2 = users w" "map_of (registrationIpQuotas w2) ?h = Some (quota_of A ip w + 1)" by blast
    have add: "map u_email (users (add_user (new_user i e n ph v now) orgId r now w2)) = map u_email (users w) @ [e]"
      "registrationIpQuotas (add_user u orgId r now w2) = registrationIpQuotas w2" for i n ph v r u
      by (simp_all add: add_user_def new_user_def draw_def w2(2))
    have sent: "map u_email (users v) = map u_email (users (add_user (new_user i e n ph None now) orgId r now w2)) \<and> registrationIpQuotas v = registrationIpQuotas w2"
      if "sendVerification A j o' e t (add_user (new_user i e n ph None now) orgId r now w2) = (res, v)" for i n ph r j o' t res v
      using sendVerification_users [of A j o' e t "add_user (new_user i e n ph None now) orgId r now w2"] that add(2) by simp
    show ?thesis
      using new f w2(3) add sent by (auto simp: w' register_def Let_def d w2(1) quota_of_def opt_or_def e_def [symmetric] split: sum.split prod.split)
  qed
  show "users w' = users w \<and> quota_of A ip w' = quota_of A ip w" if full: "e \<notin> emails w" "\<not> quota_of A ip w < 2"
  proof -
    have "take_quota ?h w1 = None" using full(2) w1 by (auto simp: take_quota_def quota_of_def opt_or_def split: option.splits)
    with full f w1 show ?thesis by (simp add: w' register_def Let_def d e_def [symmetric] quota_of_def)
  qed
qed

text \<open>A network registers at most two accounts, ever. However many registrations come from one
  address, the accounts they create are one for each new email address, up to what is left of the quota of two;
  emails are compared after trimming and lowering, and a repeated one creates nothing.\<close>

lemma registration_quota:
  "length (users (register_all A ip rs w)) =
     length (users w) + min (nat (2 - quota_of A ip w)) (card ((\<lambda>r. toLowerCase (trim (fst r))) ` set rs - emails w))"
proof (induction A ip rs w rule: register_all.induct)
  case (2 A ip email password name salt now rs w)
  let ?E = "(\<lambda>r. toLowerCase (trim (fst r))) ` set rs" and ?e = "toLowerCase (trim email)" and ?w = "snd (register A email password name ip salt now w)"
  note eff = register_effect [OF refl refl, where email = email and w = w and A = A and password = password and name = name and ip = ip and salt = salt and now = now]
  have em: "emails v = emails w" if "users v = users w" for v using that by (simp add: emails_def)
  show ?case
  proof (cases "?e \<in> emails w")
    case True
    with eff(1) 2 show ?thesis by (simp add: insert_Diff_if)
  next
    case new: False
    show ?thesis
    proof (cases "quota_of A ip w < 2")
      case True
      note m = eff(2) [OF new True]
      then have "emails ?w = insert ?e (emails w)" unfolding emails_def by simp
      moreover have "insert ?e ?E - emails w = insert ?e (?E - insert ?e (emails w))" using new by auto
      moreover have "length (users ?w) = Suc (length (users w))" using m by (metis length_append_singleton length_map)
      moreover have "nat (2 - quota_of A ip w) = Suc (nat (1 - quota_of A ip w))" using True by linarith
      ultimately show ?thesis using 2 m by simp
    next
      case False
      with eff(3) [OF new False] 2 em [of ?w] show ?thesis by simp
    qed
  qed
qed simp

section \<open>Resets across organizations\<close>

text \<open>A reset crosses organizations. The check for lower-tier accounts looks at the role in the
  caller's organization only, while the password is the user's everywhere: an administrator of one
  organization sets the password of a plain member who administers another organization, of which the caller is no member,
  and that user keeps the other role.\<close>

lemma reset_crosses_orgs:
  assumes "role_in actor orgId w = Some ''admin''" and "role_in victim orgId w = Some role" and "role \<noteq> ''admin''" and "actor \<noteq> victim"
    and "findUnique u_id victim (users w) = Some u" and "role_in victim other w = Some ''admin''" and "role_in actor other w = None"
    and "CHR ''$'' \<notin> set salt" and "salt \<noteq> []" and "scrypt_hex (au_scrypt A new salt)"
  shows "\<exists>w' u'. resetAccountPassword A orgId victim actor new salt w = (Inr (), w') \<and>
    findUnique u_id victim (users w') = Some u' \<and> credentials_ok A (Some u') new \<and> u_approvedAt u' = u_approvedAt u \<and>
    role_in victim other w' = Some ''admin'' \<and> role_in actor other w' = None"
proof -
  let ?f = "\<lambda>u. u\<lparr>u_passwordHash := Some (makePasswordHash A new salt), u_authVersion := u_authVersion u + 1\<rparr>"
  let ?w = "audit_row orgId (Some actor) ''password_reset'' ''user'' victim [(''targetEmail'', Str (u_email u))] (set_user victim ?f w)"
  have r: "resetAccountPassword A orgId victim actor new salt w = (Inr (), ?w)"
    using assms(1-5) by (simp add: resetAccountPassword_def)
  have "findUnique u_id victim (users ?w) = Some (?f u)"
    using assms(5) by (simp add: set_user_def audit_row_def findUnique_updateRow [where key = u_id and f = ?f])
  moreover have "credentials_ok A (Some (?f u)) new"
  proof -
    have "opt_or (u_passwordHash (?f u)) [] = makePasswordHash A new salt" "makePasswordHash A new salt \<noteq> []"
      by (simp_all add: opt_or_def makePasswordHash_def)
    then show ?thesis using password_roundtrip [OF assms(8-10)] by (simp add: credentials_ok_def or_str_def)
  qed
  moreover have "role_in i o' ?w = role_in i o' w" for i o' by (simp add: role_in_def find_member_def set_user_def audit_row_def)
  ultimately show ?thesis using r assms(6,7) by auto
qed

definition sample_victim :: world where
  "sample_victim = sample_office\<lparr>users := [sample_user, sample_user\<lparr>u_id := ''v'', u_email := ''eve@example.org''\<rparr>],
     userOrgs := [\<lparr>uo_userId = ''u'', uo_orgId = ''o'', uo_role = ''viewer'', uo_createdAt = 1\<rparr>, \<lparr>uo_userId = ''u'', uo_orgId = ''p'', uo_role = ''admin'', uo_createdAt = 1\<rparr>,
       \<lparr>uo_userId = ''v'', uo_orgId = ''o'', uo_role = ''admin'', uo_createdAt = 1\<rparr>]\<rparr>"

end
