(* ===== verification/Sessions.thy ===== *)
theory Sessions
  imports Accounts
begin

text \<open>
  Sessions of the users of the dashboard: the tokens of auth.service.ts against the guards of
  control-plane/src/auth (Agents.thy has the guards). Shown: a sign-in succeeds only after every check and
  opens a session with the role of the membership; a session that was revoked stays revoked whatever
  happens to accounts later.
\<close>

section \<open>Sessions\<close>

text \<open>What the code relies on in the JWT library: a verified token has the claims it was signed with,
  whatever the two secrets, apart from the times of issue and expiry; a token verifies with its own
  secret (here, before it expires) and is not empty.\<close>

definition plain_claims :: "obj \<Rightarrow> bool" where
  \<comment> \<open>strings and whole numbers, which JSON gives back as they are\<close>
  "plain_claims c = list_all (\<lambda>(k, v). case v of Str _ \<Rightarrow> True | Num n \<Rightarrow> isInteger n | _ \<Rightarrow> False) c"

definition jwt_keeps :: "authEnv \<Rightarrow> bool" where
  "jwt_keeps A \<longleftrightarrow> (\<forall>k k' c c' x. plain_claims c \<and> au_verify A k' (au_sign A k c) = Some c' \<and> x \<noteq> ''iat'' \<and> x \<noteq> ''exp'' \<longrightarrow> get c' x = get c x) \<and>
     (\<forall>k c. plain_claims c \<longrightarrow> au_verify A k (au_sign A k c) \<noteq> None \<and> au_sign A k c \<noteq> [])"

lemma jwt_read:
  assumes "jwt_keeps A" and "plain_claims c" and "au_verify A k' (au_sign A k c) = Some c'" and "x \<noteq> ''iat''" and "x \<noteq> ''exp''"
  shows "get c' x = get c x"
  using assms unfolding jwt_keeps_def by blast

lemma jwt_own:
  assumes "jwt_keeps A" and "plain_claims c"
  obtains c' where "au_verify A k (au_sign A k c) = Some c'" "au_sign A k c \<noteq> []"
  using assms unfolding jwt_keeps_def by blast

lemma plain_user_claims [simp]: "plain_claims (user_claims i o' v)"
  by (simp add: plain_claims_def user_claims_def isInteger_def int_num_def)

definition bearer_header :: "string \<Rightarrow> string option" where
  "bearer_header t = Some (''Bearer '' @ t)"

lemma bearer_token: "t \<noteq> [] \<Longrightarrow> bearer (bearer_header t) = Some t"
  by (simp add: bearer_def bearer_header_def startsWith_def or_null_def)

text \<open>The token of a session is accepted exactly while the user is approved, has a password and has the
  version the token was issued with.\<close>

lemma issued_token_guard:
  assumes "jwt_keeps A" and "findUnique u_id i (users w) = Some u" and "i \<noteq> []"
    and "u_approvedAt u \<noteq> None" and "opt_or (u_passwordHash u) [] \<noteq> []" and "u_authVersion u = v"
  shows "jwtAuthGuard (session_keys A K) (bearer_header (issueToken A i o' v)) w = Inr i"
proof -
  obtain c where c: "au_verify A UserSecret (issueToken A i o' v) = Some c" "issueToken A i o' v \<noteq> []"
    unfolding issueToken_def by (rule jwt_own [OF assms(1) plain_user_claims])
  have "get c ''sub'' = Str i" "get c ''ver'' = JInt v"
    using jwt_read [OF assms(1) plain_user_claims c(1) [unfolded issueToken_def]] by (simp_all add: user_claims_def get_def)
  then show ?thesis using c assms(2-6)
    by (simp add: jwtAuthGuard_def bearer_token session_keys_def str_of_def isInteger_def int_num_def num_int_def)
qed

lemma guard_accepted:
  assumes "jwtAuthGuard K auth w = Inr i"
  shows "\<exists>ver u token. bearer auth = Some token \<and> kr_verifyUser K token = Some (i, ver) \<and> findUnique u_id i (users w) = Some u \<and> u_authVersion u = num_int ver"
  using assms by (auto simp: jwtAuthGuard_def split: option.splits if_splits)

lemma guard_refuses:
  assumes "jwtAuthGuard K auth w = Inr i" and "findUnique u_id i (users w) = Some u"
    and "findUnique u_id i (users w') = Some u'" and "u_authVersion u < u_authVersion u'"
  shows "jwtAuthGuard K auth w' = Inl (UnauthorizedException ''Invalid or expired token'')"
  using guard_accepted [OF assms(1)] assms(2-4) by (auto simp: jwtAuthGuard_def)

text \<open>An operation that ends the sessions of a user: a change or reset of the password, a change of the
  approval, the deletion of the last membership.\<close>

definition ends_sessions :: "authEnv \<Rightarrow> id \<Rightarrow> world \<Rightarrow> world \<Rightarrow> bool" where
  "ends_sessions A i w w' \<longleftrightarrow>
     (\<exists>old new salt. changePassword A i old new salt w = (Inr (), w')) \<or>
     (\<exists>orgId actor new salt. resetAccountPassword A orgId i actor new salt w = (Inr (), w')) \<or>
     (\<exists>orgId actor approved now r. setAccountApproval orgId i actor approved now w = (Inr r, w') \<and> w' \<noteq> w) \<or>
     (\<exists>orgId actor email. deleteAccount orgId i actor w = (Inr (email, True), w'))"

lemma version_bumped:
  assumes "ends_sessions A i w w'"
  shows "\<exists>u u'. findUnique u_id i (users w) = Some u \<and> findUnique u_id i (users w') = Some u' \<and> u_authVersion u' = u_authVersion u + 1"
proof -
  have bump: "\<exists>u'. findUnique u_id i (updateRow u_id i f (users w)) = Some u' \<and> u_authVersion u' = u_authVersion u + 1"
    if "findUnique u_id i (users w) = Some u" "\<And>u. u_id (f u) = u_id u" "\<And>u. u_authVersion (f u) = u_authVersion u + 1" for f u
    using that(1,3) by (simp add: findUnique_updateRow [where key = u_id and f = f, OF that(2)])
  have row: "users (audit_row o' a ac ty r d v) = users v" for o' a ac ty r d v by (simp add: audit_row_def)
  from assms consider
      (change) old new salt where "changePassword A i old new salt w = (Inr (), w')"
    | (reset) orgId actor new salt where "resetAccountPassword A orgId i actor new salt w = (Inr (), w')"
    | (approval) orgId actor approved now r where "setAccountApproval orgId i actor approved now w = (Inr r, w')" "w' \<noteq> w"
    | (delete) orgId actor email where "deleteAccount orgId i actor w = (Inr (email, True), w')"
    unfolding ends_sessions_def by blast
  then show ?thesis
  proof cases
    case change
    then obtain u where "findUnique u_id i (users w) = Some u" by (cases "findUnique u_id i (users w)") (auto simp: changePassword_def opt_or_def)
    with change bump [OF this] show ?thesis by (auto simp: changePassword_def set_user_def split: list.splits if_splits)
  next
    case reset
    then obtain u where "findUnique u_id i (users w) = Some u" by (auto simp: resetAccountPassword_def split: option.splits if_splits)
    with reset bump [OF this] show ?thesis by (auto simp: resetAccountPassword_def set_user_def row split: option.splits if_splits)
  next
    case approval
    then obtain u where "findUnique u_id i (users w) = Some u" by (auto simp: setAccountApproval_def split: option.splits if_splits)
    with approval bump [OF this] show ?thesis by (auto simp: setAccountApproval_def set_user_def row Let_def split: option.splits if_splits)
  next
    case delete
    then obtain u where "findUnique u_id i (users w) = Some u" by (auto simp: deleteAccount_def split: option.splits if_splits)
    with delete bump [OF this] show ?thesis by (auto simp: deleteAccount_def set_user_def Let_def split: option.splits if_splits)
  qed
qed

lemma sample_auth_keeps: "jwt_keeps sample_auth"
  by (simp add: jwt_keeps_def sample_auth_def plain_verify_sign) (simp add: plain_sign_def)

section \<open>Properties of sessions\<close>

text \<open>C28: a revoked session stays revoked. After the password of a user was changed or reset, the approval
  was changed, or the last membership was deleted, a token that was accepted before is refused in every
  later state, whatever happens to accounts and however often the user signs in again.\<close>

theorem revoked_stays_revoked:
  assumes "acct_ok w" and "jwtAuthGuard K auth w = Inr i" and "ends_sessions A i w w'" and "acct_ok w'" and "(acct_step A)\<^sup>*\<^sup>* w' w''"
  shows "jwtAuthGuard K auth w'' = Inl (UnauthorizedException ''Invalid or expired token'')"
proof -
  obtain u u' where u: "findUnique u_id i (users w) = Some u" "findUnique u_id i (users w') = Some u'" "u_authVersion u' = u_authVersion u + 1"
    using version_bumped [OF assms(3)] by blast
  obtain u'' where "findUnique u_id i (users w'') = Some u''" "u_authVersion u' \<le> u_authVersion u''"
    using accounts.steps_R [OF assms(5,4)] u(2) unfolding acct_le_def by blast
  with guard_refuses [OF assms(2) u(1)] u(3) show ?thesis by simp
qed


text \<open>What a sign-in has to pass.\<close>

definition sign_in_ok :: "authEnv \<Rightarrow> string \<Rightarrow> string \<Rightarrow> string \<Rightarrow> string \<Rightarrow> string \<Rightarrow> string option \<Rightarrow> ms \<Rightarrow> world \<Rightarrow> user \<Rightarrow> userOrg \<Rightarrow> bool" where
  "sign_in_ok A email password ip mathChallengeToken mathAnswer recaptchaToken now w u m \<longleftrightarrow>
     assertLoginAllowed (au_hmac A) (toLowerCase (trim email)) ip now w = Inr () \<and>
     verifyMathChallenge A mathChallengeToken mathAnswer \<and>
     captcha_ok A (Some u) recaptchaToken ip w = Inr True \<and>
     find_email (toLowerCase (trim email)) w = Some u \<and> opt_or (u_passwordHash u) [] \<noteq> [] \<and>
     verifyPassword A password (opt_or (u_passwordHash u) []) \<and>
     membership_of (u_id u) w = Some m \<and> (u_emailVerifiedAt u \<noteq> None \<or> \<not> mail_configured (uo_orgId m) w) \<and> u_approvedAt u \<noteq> None"

lemma failLogin_refuses: "\<exists>e. fst (case failLogin A e' ip msg clean now w of (e, w1) \<Rightarrow> (Inl e, w1)) = Inl e"
  by (simp split: prod.split)

lemma login_passes:
  assumes "login A email password ip t a rc clean now w = (Inr (token, userId, orgId), w')"
  shows "\<exists>u m. sign_in_ok A email password ip t a rc now w u m \<and> userId = u_id u \<and> orgId = uo_orgId m \<and>
    token = issueToken A (u_id u) (uo_orgId m) (u_authVersion u) \<and> users w' = users w \<and> userOrgs w' = userOrgs w"
proof -
  have no: "(case failLogin A e' ip msg clean now w of (e, w1) \<Rightarrow> (Inl e, w1)) \<noteq> (Inr r, w')" for e' msg and r :: "string \<times> id \<times> id"
    by (simp split: prod.split)
  let ?e = "toLowerCase (trim email)"
  have 1: "assertLoginAllowed (au_hmac A) ?e ip now w = Inr ()"
    using assms by (cases "assertLoginAllowed (au_hmac A) ?e ip now w") (auto simp: login_def Let_def)
  have 2: "verifyMathChallenge A t a" using assms no by (auto simp: login_def Let_def 1 split: if_splits)
  have 3: "captcha_ok A (find_email ?e w) rc ip w = Inr True"
    using assms no by (cases "captcha_ok A (find_email ?e w) rc ip w") (auto simp: login_def Let_def 1 2 split: bool.splits)
  obtain u where u: "find_email ?e w = Some u" using assms no 3 by (cases "find_email ?e w") (auto simp: login_def Let_def 1 2)
  have 4: "credentials_ok A (Some u) password" using assms no 3 by (auto simp: login_def Let_def 1 2 u split: if_splits)
  then have in': "admit_user A u ?e w = (Inr (token, userId, orgId), w')" using assms 3 by (simp add: login_def Let_def 1 2 u)
  then obtain m where m: "membership_of (u_id u) w = Some m" by (auto simp: admit_user_def Let_def split: option.splits if_splits)
  have "sign_in_ok A email password ip t a rc now w u m"
    using 1 2 3 u 4 in' m by (auto simp: sign_in_ok_def admit_user_def Let_def credentials_ok_def or_str_def split: if_splits)
  moreover have "userId = u_id u \<and> orgId = uo_orgId m \<and> token = issueToken A (u_id u) (uo_orgId m) (u_authVersion u) \<and>
    users w' = users w \<and> userOrgs w' = userOrgs w"
    using in' m by (auto simp: admit_user_def Let_def audit_row_def recordLoginSuccess_def split: if_splits)
  ultimately show ?thesis by blast
qed

text \<open>A sign-in opens a session of its user. It gives a token only when the account and the network are
  not locked out, the math challenge and reCAPTCHA are answered, the password is right, and the account is
  approved, verified where mail is configured, and a member of the organization. The guards then accept the token for
  that organization and for that user, with the role of the membership.\<close>

lemma login_opens_session:
  assumes "acct_ok w" and "jwt_keeps A" and "login A email password ip t a rc clean now w = (Inr (token, userId, orgId), w')"
    and "userId \<noteq> []" and "orgId \<noteq> []"
  shows "\<exists>u m. sign_in_ok A email password ip t a rc now w u m \<and> u_id u = userId \<and> uo_orgId m = orgId \<and> m \<in> set (userOrgs w) \<and>
    jwtAuthGuard (session_keys A K) (bearer_header token) w' = Inr userId \<and> orgMemberGuard userId (Some orgId) w' = Inr (uo_role m)"
proof -
  obtain u m where um: "sign_in_ok A email password ip t a rc now w u m" "userId = u_id u" "orgId = uo_orgId m"
    "token = issueToken A (u_id u) (uo_orgId m) (u_authVersion u)" "users w' = users w" "userOrgs w' = userOrgs w"
    using login_passes [OF assms(3)] by blast
  have "u \<in> set (users w)" using um(1) by (auto simp: sign_in_ok_def find_email_def dest: findUnique_Some)
  then have "findUnique u_id userId (users w') = Some u" using assms(1) um(2,5) by (simp add: acct_ok_def findUnique_unique)
  then have g: "jwtAuthGuard (session_keys A K) (bearer_header token) w' = Inr userId"
    unfolding um(4) um(2) [symmetric] by (rule issued_token_guard [OF assms(2)]) (use um(1) assms(4) in \<open>auto simp: sign_in_ok_def\<close>)
  have m: "m \<in> set (userOrgs w)" "uo_userId m = userId" using um(1,2) by (auto simp: sign_in_ok_def membership_of_def dest: find_Some_set)
  obtain m' where m': "find_member userId orgId w' = Some m'"
    using m um(3,6) by (cases "find_member userId orgId w'") (auto simp: find_member_def find_None_set)
  then have "m' \<in> set (userOrgs w)" "member_key m' = member_key m"
    using m(2) um(3,6) by (auto simp: find_member_def member_key_def dest: find_Some_set)
  then have "m' = m" using m(1) assms(1) unfolding acct_ok_def by (metis distinct_map inj_onD)
  then have "orgMemberGuard userId (Some orgId) w' = Inr (uo_role m)" using m' assms(4,5) by (simp add: orgMemberGuard_def opt_or_def)
  with um m(1) g show ?thesis by blast
qed

theorem revoked_stays_revoked_witness:
  "\<exists>w'. changePassword sample_auth ''u'' ''secret'' ''longer secret'' ''77'' sample_office = (Inr (), w') \<and>
    jwtAuthGuard (session_keys sample_auth sample_keys) (bearer_header (issueToken sample_auth ''u'' ''o'' 1)) sample_office = Inr ''u'' \<and>
    jwtAuthGuard (session_keys sample_auth sample_keys) (bearer_header (issueToken sample_auth ''u'' ''o'' 1)) w' = Inl (UnauthorizedException ''Invalid or expired token'')"
proof -
  have "fst (changePassword sample_auth ''u'' ''secret'' ''longer secret'' ''77'' sample_office) = Inr ()" by code_simp
  then obtain w' where w': "changePassword sample_auth ''u'' ''secret'' ''longer secret'' ''77'' sample_office = (Inr (), w')" by (metis prod.collapse)
  have g: "jwtAuthGuard (session_keys sample_auth sample_keys) (bearer_header (issueToken sample_auth ''u'' ''o'' 1)) sample_office = Inr ''u''"
    by (rule issued_token_guard [OF sample_auth_keeps, where u = sample_user])
      (simp_all add: sample_office_def sample_user_def new_user_def findUnique_Cons opt_or_def makePasswordHash_def)
  have e: "ends_sessions sample_auth ''u'' sample_office w'" unfolding ends_sessions_def using w' by blast
  have s: "acct_step sample_auth sample_office w'"
    using acct_step.change_password [of sample_auth sample_office "''u''" "''secret''" "''longer secret''" "''77''"] w' by simp
  from revoked_stays_revoked [OF sample_office_ok g e accounts.step_inv [OF sample_office_ok s] rtranclp.rtrancl_refl] g w' show ?thesis by blast
qed

end
