(* ===== verification/Discord.thy ===== *)
theory Discord
  imports Job_Store
begin

text \<open>
  Discord webhooks: control-plane/src/discord/discord.service.ts and common/ttl-map.ts. The
  answer to each post is the parameter \<open>e_post\<close>; every post made is an entry of \<open>effects\<close>.
  A handler runs at one instant, so the pauses between retries are returned, not waited.

  Shown: at most ten sends per key start in any window, at most three posts are made per
  send, and the pauses double up to their bound.
\<close>

definition DISCORD_maxPerWindow :: int where "DISCORD_maxPerWindow = 10"
definition DISCORD_windowMs :: ms where "DISCORD_windowMs = 60000"
definition DISCORD_RETRY_ATTEMPTS :: nat where "DISCORD_RETRY_ATTEMPTS = 3"
definition DISCORD_RETRY_INITIAL_MS :: ms where "DISCORD_RETRY_INITIAL_MS = 1000"
definition DISCORD_RETRY_MAX_MS :: ms where "DISCORD_RETRY_MAX_MS = 10000"

section \<open>The limiter\<close>

definition tryConsumeRateLimit ::
    "string \<Rightarrow> ms \<Rightarrow> (string \<times> int \<times> ms) list \<Rightarrow> bool \<times> (string \<times> int \<times> ms) list" where
  "tryConsumeRateLimit key now m0 =
     (let m = fst (pruneMap (\<lambda>(n, windowStart) _. now - windowStart < DISCORD_windowMs) m0) in
      case map_of m key of
        None \<Rightarrow> (True, map_put key (1, now) m)
      | Some (n, windowStart) \<Rightarrow>
          if now - windowStart \<ge> DISCORD_windowMs then (True, map_put key (1, now) m)
          else if n \<ge> DISCORD_maxPerWindow then (False, m)
          else (True, map_put key (n + 1, windowStart) m))"

section \<open>Sending\<close>

text \<open>The retry loop: the result, the number of posts made and the pauses between them.\<close>

fun post_loop ::
    "(nat \<Rightarrow> post_result) \<Rightarrow> nat \<Rightarrow> nat \<Rightarrow> ms \<Rightarrow> post_result \<Rightarrow> post_result \<times> nat \<times> ms list" where
  "post_loop post attempt 0 delay final = (final, attempt, [])"
| "post_loop post attempt (Suc left) delay final =
     (case post attempt of
        PostOk \<Rightarrow> (PostOk, Suc attempt, [])
      | PostError status err \<Rightarrow>
          if (case status of None \<Rightarrow> False | Some s \<Rightarrow> s = 429 \<or> s \<ge> 500) then
            (case post_loop post (Suc attempt) left (min (delay * 2) DISCORD_RETRY_MAX_MS)
                    (PostError status err) of
               (r, n, ds) \<Rightarrow> (r, n, delay # ds))
          else (PostError status err, Suc attempt, []))"

definition discord_send ::
    "env \<Rightarrow> string \<Rightarrow> obj \<Rightarrow> string \<Rightarrow> ms \<Rightarrow> world \<Rightarrow> post_result \<times> world" where
  "discord_send E webhookUrl payload rateLimitKey now w =
     (case tryConsumeRateLimit rateLimitKey now (rateLimitMap w) of
        (False, m) \<Rightarrow> (PostError None ''Rate limit exceeded'', w\<lparr>rateLimitMap := m\<rparr>)
      | (True, m) \<Rightarrow>
          (case post_loop (e_post E webhookUrl payload) 0 DISCORD_RETRY_ATTEMPTS DISCORD_RETRY_INITIAL_MS
                  (PostError None ''Unknown error'') of
             (r, n, _) \<Rightarrow>
               (r, w\<lparr>rateLimitMap := m,
                     effects := effects w @ replicate n (DiscordPost webhookUrl payload)\<rparr>)))"

lemma discord_send_same_jobs: "same_jobs w (snd (discord_send E u p k now w))"
  by (auto simp: discord_send_def same_jobs_def split: prod.split bool.split)

section \<open>Facts\<close>

definition limiter_ok :: "(string \<times> int \<times> ms) list \<Rightarrow> bool" where
  "limiter_ok m \<longleftrightarrow> distinct (map fst m) \<and>
     list_all (\<lambda>(k, c, ws). 1 \<le> c \<and> c \<le> DISCORD_maxPerWindow) m"

lemma limiter_level: "limiter_ok m \<Longrightarrow> map_of m k = Some (c, ws) \<Longrightarrow> 1 \<le> c \<and> c \<le> DISCORD_maxPerWindow"
  by (auto simp: limiter_ok_def list_all_iff dest!: map_of_SomeD)

lemma list_all_map_put: "list_all P m \<Longrightarrow> P (k, v) \<Longrightarrow> list_all P (map_put k v m)"
  by (induction m) auto

lemma limiter_put:
  "limiter_ok m \<Longrightarrow> 1 \<le> c \<Longrightarrow> c \<le> DISCORD_maxPerWindow \<Longrightarrow> limiter_ok (map_put k (c, ws) m)"
  by (auto simp: limiter_ok_def distinct_map_put intro!: list_all_map_put)

lemma limiter_prune: "limiter_ok m \<Longrightarrow> limiter_ok (fst (pruneMap f m))"
  unfolding limiter_ok_def by (auto simp: distinct_prune) (auto simp: pruneMap_def Let_def list_all_iff)

lemma pruned_level:
  assumes "limiter_ok m"
  shows "map_of (fst (pruneMap (\<lambda>(c, ws) _. now - ws < DISCORD_windowMs) m)) k =
    (case map_of m k of None \<Rightarrow> None
     | Some (c, ws) \<Rightarrow> if now - ws < DISCORD_windowMs then Some (c, ws) else None)"
  using assms map_of_prune [of m "\<lambda>(c, ws) _. now - ws < DISCORD_windowMs" k]
  by (auto simp: limiter_ok_def split: option.split)

interpretation discord: window_limiter "tryConsumeRateLimit key" "\<lambda>m. map_of m key" limiter_ok
    DISCORD_maxPerWindow DISCORD_windowMs
  for key
proof
  show "1 \<le> DISCORD_maxPerWindow" by (simp add: DISCORD_maxPerWindow_def)
next
  fix m now b m' assume "limiter_ok m" "tryConsumeRateLimit key now m = (b, m')"
  then show "limiter_ok m'"
    using limiter_level [OF limiter_prune]
    by (auto simp: tryConsumeRateLimit_def Let_def DISCORD_maxPerWindow_def
        intro!: limiter_put limiter_prune split: option.splits if_splits)
      (fastforce simp: DISCORD_maxPerWindow_def)+
next
  fix m c ws assume "limiter_ok m" "map_of m key = Some (c, ws)"
  then show "1 \<le> c \<and> c \<le> DISCORD_maxPerWindow" by (rule limiter_level)
next
  fix m now b m'
  assume "limiter_ok m" "case map_of m key of None \<Rightarrow> True | Some (c, ws) \<Rightarrow> DISCORD_windowMs \<le> now - ws"
    "tryConsumeRateLimit key now m = (b, m')"
  then show "b \<and> map_of m' key = Some (1, now)"
    by (auto simp: tryConsumeRateLimit_def Let_def pruned_level split: option.splits)
next
  fix m c ws now b m'
  assume "limiter_ok m" "map_of m key = Some (c, ws)" "now - ws < DISCORD_windowMs"
    "tryConsumeRateLimit key now m = (b, m')"
  then show "if c < DISCORD_maxPerWindow then b \<and> map_of m' key = Some (c + 1, ws)
      else \<not> b \<and> map_of m' key = Some (c, ws)"
    by (auto simp: tryConsumeRateLimit_def Let_def pruned_level split: if_splits)
qed

section \<open>Properties of Discord sends\<close>

text \<open>The limiter. Among any requests for one key whose times lie within one minute of each
  other, at most twenty pass (the two windows such a stretch can touch), and at most ten when
  the key had no entry before.\<close>

lemma discord_rate_limited:
  assumes "limiter_ok m" and "sorted ts" and "list_all (\<lambda>x. T \<le> x \<and> x < T + 60000) ts"
  shows "int (accepted (tryConsumeRateLimit key) ts m) \<le> 20 \<and>
    (map_of m key = None \<longrightarrow> int (accepted (tryConsumeRateLimit key) ts m) \<le> 10)"
  using discord.accepted_stretch [OF assms(1,2), of T key] assms(3) limiter_level [OF assms(1), of key]
  by (fastforce simp: DISCORD_maxPerWindow_def DISCORD_windowMs_def split: option.splits)

text \<open>Retries. One send makes between one and three posts; it stops at the first post that
  succeeds or fails for good (neither 429 nor a server error), and each pause before a retry is
  at most ten seconds.\<close>

lemma post_loop_bounded:
  assumes "post_loop post 0 DISCORD_RETRY_ATTEMPTS DISCORD_RETRY_INITIAL_MS final = (r, n, ds)"
  shows "1 \<le> n \<and> n \<le> 3 \<and> r = post (n - 1) \<and> list_all (\<lambda>d. 1000 \<le> d \<and> d \<le> 10000) ds \<and>
    (\<forall>i < n - 1. \<exists>s e. post i = PostError (Some s) e \<and> (s = 429 \<or> s \<ge> 500))"
  using assms
  by (auto simp: DISCORD_RETRY_ATTEMPTS_def DISCORD_RETRY_INITIAL_MS_def DISCORD_RETRY_MAX_MS_def
      eval_nat_numeral less_Suc_eq split: post_result.splits if_splits prod.splits option.splits)

end
