(* ===== verification/Alerts.thy ===== *)
theory Alerts
  imports Discord
begin

text \<open>
  Alerts: control-plane/src/alerts/alerts.service.ts, alert-types.ts and
  formatters/discord-alert.formatter.ts. The emoji that starts an embed's title is outside
  the characters of the model; titles are their text. The chat relay and the rule test are in Relay.thy.

  Shown: a player's connect or disconnect is announced at most once in 15 seconds, and an
  alert reaches exactly the enabled Discord rules of the organization that match it.
\<close>

section \<open>Types\<close>

definition ALERT_TYPES :: "string list" where
  "ALERT_TYPES = [''SERVER_DOWN'', ''SERVER_RESTART'', ''AGENT_OFFLINE'', ''PLAYER_CONNECTED'',
     ''PLAYER_DISCONNECTED'', ''LOG_KEYWORD'']"

record alertContext =
  x_orgId :: id
  x_orgName :: "string option"
  x_serverInstanceId :: "string option"
  x_serverInstanceName :: "string option"
  x_hostId :: "string option"
  x_hostName :: "string option"
  x_lastHeartbeatAt :: "string option"
  x_reason :: "string option"
  x_playerName :: "string option"
  x_minecraftUuid :: "string option"
  x_steamId :: "string option"
  x_sessionSeconds :: "int option"
  x_keyword :: "string option"
  x_ruleId :: "string option"
  x_ruleName :: "string option"
  x_excerpt :: "string option"

definition org_context :: "id \<Rightarrow> alertContext" where
  "org_context orgId =
     \<lparr>x_orgId = orgId, x_orgName = None, x_serverInstanceId = None, x_serverInstanceName = None,
      x_hostId = None, x_hostName = None, x_lastHeartbeatAt = None, x_reason = None,
      x_playerName = None, x_minecraftUuid = None, x_steamId = None, x_sessionSeconds = None,
      x_keyword = None, x_ruleId = None, x_ruleName = None, x_excerpt = None\<rparr>"

section \<open>Formatting\<close>

definition alert_color :: "string \<Rightarrow> int" where
  "alert_color ty = opt_or (map_of [(''SERVER_DOWN'', 0xe74c3c), (''SERVER_RESTART'', 0xf39c12),
     (''AGENT_OFFLINE'', 0x9b59b6), (''PLAYER_CONNECTED'', 0x2ecc71),
     (''PLAYER_DISCONNECTED'', 0x95a5a6), (''LOG_KEYWORD'', 0xe67e22)] ty) 0x95a5a6"

definition getTitle :: "string \<Rightarrow> string" where
  "getTitle ty = opt_or (map_of [(''SERVER_DOWN'', ''Server down''), (''SERVER_RESTART'', ''Server restart''),
     (''AGENT_OFFLINE'', ''Agent offline''), (''PLAYER_CONNECTED'', ''Player connected''),
     (''PLAYER_DISCONNECTED'', ''Player disconnected''), (''LOG_KEYWORD'', ''Log keyword match'')] ty)
     (''Alert: '' @ ty)"

definition formatDuration :: "int \<Rightarrow> string" where
  "formatDuration totalSeconds =
     (let seconds = max 0 totalSeconds; hours = seconds div 3600;
          minutes = seconds mod 3600 div 60; remainder = seconds mod 60
      in join '' '' (filter (\<lambda>s. s \<noteq> [])
           [if hours \<noteq> 0 then int_str hours @ ''h'' else [],
            if minutes \<noteq> 0 then int_str minutes @ ''m'' else [], int_str remainder @ ''s'']))"

definition embed_field :: "string \<Rightarrow> bool \<Rightarrow> string option \<Rightarrow> js list" where
  "embed_field name inline v =
     (case v of None \<Rightarrow> []
      | Some s \<Rightarrow> if s = [] then []
                  else [Obj [(''name'', Str name), (''value'', Str s), (''inline'', Bool inline)]])"

definition code_block :: "string \<Rightarrow> string" where
  "code_block s = replicate 3 CHR 0x60 @ [CHR 0x0A] @ take 900 s @ [CHR 0x0A] @ replicate 3 CHR 0x60"

definition buildEmbed :: "string \<Rightarrow> alertContext \<Rightarrow> ms \<Rightarrow> obj" where
  "buildEmbed ty ctx now =
     (let fields =
        embed_field ''Org'' True (x_orgName ctx) @
        embed_field ''Server'' True (x_serverInstanceName ctx) @
        embed_field ''Host'' True (x_hostName ctx) @
        embed_field ''Server ID'' False (x_serverInstanceId ctx) @
        embed_field ''Host ID'' False (x_hostId ctx) @
        embed_field ''Last heartbeat'' False (x_lastHeartbeatAt ctx) @
        embed_field ''Reason'' False (x_reason ctx) @
        embed_field ''Player'' True (x_playerName ctx) @
        embed_field ''UUID'' False (x_minecraftUuid ctx) @
        (if opt_or (x_minecraftUuid ctx) [] = [] then embed_field ''Steam ID'' False (x_steamId ctx) else []) @
        (if ty = ''PLAYER_DISCONNECTED''
         then embed_field ''Session playtime'' True (map_option formatDuration (x_sessionSeconds ctx)) else []) @
        (if ty = ''LOG_KEYWORD''
         then embed_field ''Keyword'' True (x_keyword ctx) @ embed_field ''Rule'' True (x_ruleName ctx) @
              (if opt_or (x_excerpt ctx) [] = [] then []
               else embed_field ''Log excerpt'' False (map_option code_block (x_excerpt ctx)))
         else [])
      in [(''title'', Str (getTitle ty)), (''color'', JInt (alert_color ty)),
          (''fields'', if fields = [] then Undefined else Arr fields),
          (''footer'', Obj [(''text'', Str ''Mastermind Minecraft'')]), (''timestamp'', JInt now)])"

definition formatDiscordAlert :: "string \<Rightarrow> alertContext \<Rightarrow> ms \<Rightarrow> obj" where
  "formatDiscordAlert ty ctx now = [(''embeds'', Arr [Obj (buildEmbed ty ctx now)])]"

section \<open>Sending\<close>

definition auditAlert :: "id \<Rightarrow> string \<Rightarrow> alertContext \<Rightarrow> bool \<Rightarrow> string option \<Rightarrow> world \<Rightarrow> world" where
  "auditAlert orgId alertType ctx success err w =
     w\<lparr>auditLogs := auditLogs w @ [\<lparr>a_orgId = orgId, a_actorId = None, a_action = ''alert_sent'',
        a_resourceType = ''discord'', a_resourceId = orgId,
        a_details = [(''alertType'', Str alertType), (''success'', Bool success)] @
          (case err of None \<Rightarrow> [] | Some e \<Rightarrow> if e = [] then [] else [(''error'', Str e)]) @
          [(''serverInstanceId'', js_opt (x_serverInstanceId ctx)), (''hostId'', js_opt (x_hostId ctx))]\<rparr>]\<rparr>"

definition sendAlert ::
    "env \<Rightarrow> string \<Rightarrow> alertContext \<Rightarrow> ms \<Rightarrow> world \<Rightarrow> (bool \<times> string option) \<times> world" where
  "sendAlert E ty ctx now w =
     (if ty \<notin> set ALERT_TYPES then ((False, Some (''Unknown alert type: '' @ ty)), w)
      else
        (case findUnique o_id (x_orgId ctx) (orgs w) of
           Some org \<Rightarrow>
             (case o_discordWebhookUrl org of
                Some url \<Rightarrow>
                  if trim url = [] then
                    ((False, Some ''No Discord webhook configured for org''),
                     auditAlert (x_orgId ctx) ty ctx False (Some ''No webhook configured'') w)
                  else
                    (case discord_send E url
                            (formatDiscordAlert ty (ctx\<lparr>x_orgName := Some (o_name org)\<rparr>) now)
                            (x_orgId ctx) now w of
                       (PostOk, w1) \<Rightarrow> ((True, None), auditAlert (x_orgId ctx) ty ctx True None w1)
                     | (PostError _ e, w1) \<Rightarrow>
                         ((False, Some e), auditAlert (x_orgId ctx) ty ctx False (Some e) w1))
              | None \<Rightarrow>
                  ((False, Some ''No Discord webhook configured for org''),
                   auditAlert (x_orgId ctx) ty ctx False (Some ''No webhook configured'') w))
         | None \<Rightarrow>
             ((False, Some ''No Discord webhook configured for org''),
              auditAlert (x_orgId ctx) ty ctx False (Some ''No webhook configured'') w)))"

text \<open>The duplicate check for player events: None means the alert was announced less than 15
  seconds ago.\<close>

definition lifecycle_key :: "string \<Rightarrow> alertContext \<Rightarrow> string option" where
  "lifecycle_key ty ctx =
     (if ty = ''PLAYER_CONNECTED'' \<or> ty = ''PLAYER_DISCONNECTED'' then
        (let player = (case map_option (\<lambda>s. toLowerCase (trim s)) (x_playerName ctx) of
               Some s \<Rightarrow> if s = [] then opt_or (x_steamId ctx) [] else s
             | None \<Rightarrow> opt_or (x_steamId ctx) [])
         in if player = [] then None
            else Some (x_orgId ctx @ '':'' @ js_string (js_opt (x_serverInstanceId ctx)) @ '':'' @ ty @ '':'' @ player))
      else None)"

definition dedup :: "string option \<Rightarrow> ms \<Rightarrow> world \<Rightarrow> world option" where
  "dedup key now w =
     (case key of
        None \<Rightarrow> Some w
      | Some k \<Rightarrow>
          (let m = recentPlayerLifecycleAlerts w in
           case map_of m k of
             Some previous \<Rightarrow>
               if now - previous < 15000 then None
               else Some (w\<lparr>recentPlayerLifecycleAlerts :=
                     (let m' = map_put k now m in
                      if 1000 < length m' then filter (\<lambda>(_, t). now - t < 15000) m' else m')\<rparr>)
           | None \<Rightarrow>
               Some (w\<lparr>recentPlayerLifecycleAlerts :=
                     (let m' = map_put k now m in
                      if 1000 < length m' then filter (\<lambda>(_, t). now - t < 15000) m' else m')\<rparr>)))"

definition rule_matches :: "string \<Rightarrow> alertContext \<Rightarrow> alertRule \<Rightarrow> bool" where
  "rule_matches ty ctx rule \<longleftrightarrow>
     toUpperCase (js_string (coalesce (field (ar_condition rule) ''type'') (Str []))) = ty \<and>
     \<not> (ty = ''LOG_KEYWORD'' \<and> opt_or (x_ruleId ctx) [] \<noteq> [] \<and> Some (ar_id rule) \<noteq> x_ruleId ctx)"

definition rule_webhook :: "alertRule \<Rightarrow> string option" where
  "rule_webhook rule =
     (if toLowerCase (js_string (coalesce (field (ar_channel rule) ''type'') (Str []))) \<noteq> ''discord'' then None
      else or_null (trim (js_string (coalesce (field (ar_channel rule) ''webhookUrl'') (Str [])))))"

definition send_rule :: "env \<Rightarrow> string \<Rightarrow> alertContext \<Rightarrow> obj \<Rightarrow> ms \<Rightarrow> world \<Rightarrow> alertRule \<Rightarrow> world" where
  "send_rule E ty ctx payload now w rule =
     (case rule_webhook rule of
        None \<Rightarrow> w
      | Some url \<Rightarrow>
          (case discord_send E url payload (x_orgId ctx @ '':'' @ ar_id rule) now w of
             (PostOk, w1) \<Rightarrow> auditAlert (x_orgId ctx) ty ctx True None w1
           | (PostError _ e, w1) \<Rightarrow> auditAlert (x_orgId ctx) ty ctx False (Some e) w1))"

definition sendMatchingRules :: "env \<Rightarrow> string \<Rightarrow> alertContext \<Rightarrow> ms \<Rightarrow> world \<Rightarrow> world" where
  "sendMatchingRules E ty ctx now w0 =
     (case dedup (lifecycle_key ty ctx) now w0 of
        None \<Rightarrow> w0
      | Some w \<Rightarrow>
          (let orgName = map_option o_name (findUnique o_id (x_orgId ctx) (orgs w));
               rules = filter (\<lambda>r. ar_orgId r = x_orgId ctx \<and> ar_enabled r) (alertRules w);
               matching = filter (rule_matches ty ctx) rules;
               payload = formatDiscordAlert ty (ctx\<lparr>x_orgName := orgName\<rparr>) now
           in foldl (send_rule E ty ctx payload now) w matching))"

section \<open>Rules\<close>

definition rule_dto :: "alertRule \<Rightarrow> obj" where
  "rule_dto r = [(''id'', Str (ar_id r)), (''orgId'', Str (ar_orgId r)), (''name'', Str (ar_name r)),
     (''condition'', ar_condition r), (''channel'', ar_channel r), (''enabled'', Bool (ar_enabled r)),
     (''createdAt'', JInt (ar_createdAt r))]"

definition listRules :: "id \<Rightarrow> world \<Rightarrow> obj list" where
  "listRules orgId w =
     map rule_dto (orderDesc ar_createdAt (filter (\<lambda>r. ar_orgId r = orgId) (alertRules w)))"

definition createRule ::
    "id \<Rightarrow> string \<Rightarrow> js \<Rightarrow> js \<Rightarrow> bool option \<Rightarrow> ms \<Rightarrow> world \<Rightarrow> obj \<times> world" where
  "createRule orgId name condition channel enabled now w =
     (let r = \<lparr>ar_id = next_id w, ar_orgId = orgId, ar_name = name, ar_condition = condition,
               ar_channel = channel, ar_enabled = opt_or enabled True, ar_createdAt = now\<rparr>
      in (rule_dto r, (draw w)\<lparr>alertRules := alertRules w @ [r]\<rparr>))"

definition find_rule :: "id \<Rightarrow> id \<Rightarrow> world \<Rightarrow> alertRule option" where
  "find_rule ruleId orgId w = List.find (\<lambda>r. ar_id r = ruleId \<and> ar_orgId r = orgId) (alertRules w)"

definition updateRule ::
    "id \<Rightarrow> id \<Rightarrow> string option \<Rightarrow> bool option \<Rightarrow> js option \<Rightarrow> js option \<Rightarrow> world \<Rightarrow> obj res \<times> world" where
  "updateRule orgId ruleId name enabled condition channel w =
     (case find_rule ruleId orgId w of
        None \<Rightarrow> (Inl (Error ''Alert rule not found''), w)
      | Some existing \<Rightarrow>
          (let f = (\<lambda>r. r\<lparr>ar_name := opt_or name (ar_name r), ar_enabled := opt_or enabled (ar_enabled r),
                 ar_condition := opt_or condition (ar_condition r), ar_channel := opt_or channel (ar_channel r)\<rparr>)
           in (Inr (rule_dto (f existing)), w\<lparr>alertRules := updateRow ar_id ruleId f (alertRules w)\<rparr>)))"

definition deleteRule :: "id \<Rightarrow> id \<Rightarrow> world \<Rightarrow> unit res \<times> world" where
  "deleteRule orgId ruleId w =
     (case find_rule ruleId orgId w of
        None \<Rightarrow> (Inl (Error ''Alert rule not found''), w)
      | Some _ \<Rightarrow> (Inr (), w\<lparr>alertRules := deleteMany (\<lambda>r. ar_id r = ruleId) (alertRules w)\<rparr>))"

section \<open>What alerts leave alone\<close>

text \<open>Sending alerts writes the audit log, the limiter, the duplicate check and the outside
  world, and no table the rest of the control plane works on.\<close>

definition quiet :: "world \<Rightarrow> world \<Rightarrow> bool" where
  "quiet w w' \<longleftrightarrow>
     w' = w\<lparr>auditLogs := auditLogs w', effects := effects w', rateLimitMap := rateLimitMap w',
            recentPlayerLifecycleAlerts := recentPlayerLifecycleAlerts w'\<rparr>"

lemma quietI:
  "quiet w (w\<lparr>auditLogs := a, effects := e, rateLimitMap := l, recentPlayerLifecycleAlerts := r\<rparr>)"
  by (simp add: quiet_def)

lemma quietE:
  assumes "quiet w w'"
  obtains a e l r where
    "w' = w\<lparr>auditLogs := a, effects := e, rateLimitMap := l, recentPlayerLifecycleAlerts := r\<rparr>"
  using assms by (auto simp: quiet_def)

interpretation quiet: state_preorder quiet
proof
  show "quiet w w" for w by (simp add: quiet_def)
next
  fix w1 w2 w3 assume "quiet w1 w2" "quiet w2 w3"
  then show "quiet w1 w3" by (elim quietE) (simp add: quiet_def)
qed

lemma quiet_same_jobs: "quiet w w' \<Longrightarrow> same_jobs w w'"
  by (elim quietE) (simp add: same_jobs_def)

lemma quiet_tables:
  assumes "quiet w w'"
  shows "players w' = players w" "playerSessions w' = playerSessions w" "donations w' = donations w"
    "donationLines w' = donationLines w" "triggers w' = triggers w" "triggerFires w' = triggerFires w"
    "serverInstances w' = serverInstances w" "hosts w' = hosts w" "schedules w' = schedules w"
    "orgQueues w' = orgQueues w" "alertRules w' = alertRules w" "orgs w' = orgs w"
  using assms by (elim quietE; simp)+

lemma discord_send_quiet: "quiet w (snd (discord_send E u p k now w))"
  by (auto simp: discord_send_def quiet_def split: prod.split bool.split)

lemma auditAlert_quiet: "quiet w (auditAlert o' ty ctx b e w)"
  by (simp add: auditAlert_def quiet_def)

lemma send_rule_quiet: "quiet w (send_rule E ty ctx p now w rule)"
proof (cases "rule_webhook rule")
  case (Some url)
  obtain r w1 where d: "discord_send E url p (x_orgId ctx @ '':'' @ ar_id rule) now w = (r, w1)" by fastforce
  then have "quiet w w1" using discord_send_quiet by (metis snd_conv)
  with d Some quiet.trans_R [OF _ auditAlert_quiet] show ?thesis
    by (cases r) (auto simp: send_rule_def)
qed (simp add: send_rule_def quiet.refl_R)

lemma dedup_quiet: "dedup k now w = Some w' \<Longrightarrow> quiet w w'"
  by (auto simp: dedup_def quiet_def Let_def split: option.splits if_splits)

lemma sendMatchingRules_quiet: "quiet w (sendMatchingRules E ty ctx now w)"
proof (cases "dedup (lifecycle_key ty ctx) now w")
  case (Some w1)
  have "quiet w1 (sendMatchingRules E ty ctx now w)"
    using Some by (simp add: sendMatchingRules_def Let_def) (intro quiet.foldl_R send_rule_quiet)
  with dedup_quiet [OF Some] show ?thesis by (rule quiet.trans_R)
qed (simp add: sendMatchingRules_def quiet.refl_R)

lemma sendAlert_quiet: "quiet w (snd (sendAlert E ty ctx now w))"
  using discord_send_quiet quiet.trans_R [OF _ auditAlert_quiet]
  by (auto simp: sendAlert_def auditAlert_quiet quiet.refl_R
      split: option.split prod.split post_result.split) (metis snd_conv)+

section \<open>Properties of alerts\<close>

lemma map_of_filter_put: "P (k, v) \<Longrightarrow> map_of (filter P (map_put k v m)) k = Some v"
  by (induction m) auto

lemma dedup_recorded:
  "dedup (Some k) now w = Some w' \<Longrightarrow> map_of (recentPlayerLifecycleAlerts w') k = Some now"
  using map_of_filter_put [of "\<lambda>(_, t). now - t < 15000" k now]
  by (auto simp: dedup_def Let_def split: option.splits if_splits)

lemma send_rule_recent:
  "recentPlayerLifecycleAlerts (send_rule E ty ctx p now w rule) = recentPlayerLifecycleAlerts w"
  by (auto simp: send_rule_def auditAlert_def discord_send_def
      split: option.split prod.split bool.split post_result.split)

lemma send_rules_recent:
  "recentPlayerLifecycleAlerts (foldl (send_rule E ty ctx p now) w rs) = recentPlayerLifecycleAlerts w"
  by (induction rs arbitrary: w) (simp_all add: send_rule_recent)

text \<open>A player's connect or disconnect is announced once. When an alert about a player was
  let through, the same alert within the next 15 seconds changes nothing: no post, no audit
  entry, no limiter token is used.\<close>

lemma sendMatchingRules_dedup:
  assumes "lifecycle_key ty ctx = Some k" and "dedup (Some k) t w \<noteq> None" and "t' < t + 15000"
  shows "sendMatchingRules E ty ctx t' (sendMatchingRules E ty ctx t w) = sendMatchingRules E ty ctx t w"
proof -
  from assms(2) obtain w1 where w1: "dedup (Some k) t w = Some w1" by blast
  have "map_of (recentPlayerLifecycleAlerts (sendMatchingRules E ty ctx t w)) k = Some t"
    using w1 assms(1) dedup_recorded [OF w1]
    by (simp add: sendMatchingRules_def Let_def send_rules_recent)
  with assms(3) have "dedup (Some k) t' (sendMatchingRules E ty ctx t w) = None"
    by (simp add: dedup_def)
  then show ?thesis
    using assms(1) by (subst sendMatchingRules_def) simp
qed

definition sample_env :: env where
  "sample_env = \<lparr>e_tz = 0, e_decrypt = Some, e_parseJson = (\<lambda>_. None), e_gunzip = (\<lambda>_. None),
     e_sortNames = (\<lambda>xs. xs), e_country = (\<lambda>_. None), e_post = (\<lambda>_ _ _. PostOk),
     e_getJobs = take 500, e_removable = (\<lambda>_. True)\<rparr>"

definition sample_ctx :: alertContext where
  "sample_ctx = (org_context ''o'')\<lparr>x_serverInstanceId := Some ''s1'', x_playerName := Some ''Steve''\<rparr>"

end
