(* ===== verification/Job_Create.thy ===== *)
theory Job_Create
  imports Alerts Batches
begin

text \<open>
  Creating jobs: the first half of control-plane/src/jobs/jobs.service.ts (\<open>createJob\<close>,
  \<open>enqueueInternalJob\<close>, \<open>createPlayerModRequest\<close>, \<open>waitForJobOutput\<close>,
  \<open>normalizeJobType\<close>). Decrypting the maintenance password is the parameter
  \<open>e_decrypt\<close> (None is an exception).

  Shown: exactly who may create which job, that a console command is sanitized, that a
  refused request changes nothing, and that an accepted one adds one job, one pending run
  and one queue entry.
\<close>

section \<open>Definitions\<close>

definition normalizeJobType :: "string \<Rightarrow> string" where
  "normalizeJobType jobType =
     (let l = toLowerCase jobType in
      if l = ''start'' then ''SERVER_START''
      else if l = ''stop'' then ''SERVER_STOP''
      else if l = ''restart'' then ''SERVER_RESTART''
      else if l = ''rcon'' then ''RCON''
      else toUpperCase jobType)"

definition server_payload :: "serverInstance \<Rightarrow> obj" where
  "server_payload si =
     [(''server_instance_id'', Str (si_id si)), (''game_type'', Str (si_gameType si)),
      (''install_path'', js_opt (si_installPath si)), (''start_command'', js_opt (si_startCommand si)),
      (''rcon_host'', js_opt (si_rconHost si)),
      (''rcon_port'', case si_rconPort si of None \<Rightarrow> Undefined | Some p \<Rightarrow> JInt p),
      (''rcon_password'', js_opt (si_rconPassword si)), (''config'', coalesce (si_config si) Undefined)]"

text \<open>The insert of the job and its run and the queue entry, which end every creation.\<close>

definition dispatch ::
    "id \<Rightarrow> id option \<Rightarrow> serverInstance \<Rightarrow> string \<Rightarrow> obj \<Rightarrow> ms \<Rightarrow> world \<Rightarrow> (id \<times> id) \<times> world" where
  "dispatch orgId userId si type payload now w =
     (let (jobId, w1) = create_job orgId None (Some (si_id si)) type payload userId now w;
          (runId, w2) = create_run jobId (si_hostId si) now w1;
          w3 = addJob orgId jobId runId (si_hostId si) (Some (si_id si)) type payload w2
      in ((jobId, runId), w3))"

definition viewerAllowed :: "string list" where
  "viewerAllowed = [''MOD_LIST'', ''MOD_QUARANTINE_LIST'', ''MOD_PENDING_LIST'', ''MOD_UPLOAD_PENDING'']"

definition staff :: "string option \<Rightarrow> bool" where
  "staff role = (role = Some ''admin'' \<or> role = Some ''operator'')"

definition recommender :: "id \<Rightarrow> id \<Rightarrow> world \<Rightarrow> string" where
  "recommender userId orgId w =
     (case find_member userId orgId w of
        None \<Rightarrow> ''Verified member''
      | Some m \<Rightarrow>
          (case findUnique u_id (uo_userId m) (users w) of
             None \<Rightarrow> ''Verified member''
           | Some u \<Rightarrow> or_str (or_str (trim (opt_or (u_name u) [])) (u_email u)) ''Verified member''))"

definition console_payload :: "string \<Rightarrow> obj option \<Rightarrow> obj option res" where
  "console_payload ty payload =
     (if ty = ''RCON'' \<or> ty = ''SEND_COMMAND'' then
        (let command = (case get (opt_or payload []) ''command'' of Str s \<Rightarrow> trim s | _ \<Rightarrow> [])
         in if command = [] then Inl (BadRequestException ''Console command is required'')
            else if 512 < length command
              then Inl (BadRequestException ''Console command cannot exceed 512 characters'')
            else if list_ex (\<lambda>c. c = CHR 0x0D \<or> c = CHR 0x0A) command
              then Inl (BadRequestException ''Only one console command may be sent at a time'')
            else Inr (Some (spread (opt_or payload []) [(''command'', Str command)])))
      else Inr payload)"

definition role_check :: "string \<Rightarrow> string option \<Rightarrow> unit res" where
  "role_check ty role =
     (if (ty = ''PLAYER_ADMIN_PROMOTE'' \<or> ty = ''PLAYER_ADMIN_DEMOTE'') \<and> role \<noteq> Some ''admin''
      then Inl (ForbiddenException ''Only organization administrators may change game administrators'')
      else if (ty = ''PLAYER_KICK_ALL'' \<or> ty = ''SERVER_KILL'') \<and> \<not> staff role
      then Inl (ForbiddenException ''Only organization administrators or operators may perform this action'')
      else if ty \<in> set [''SAVE_BACKUP'', ''SAVE_RESTORE'', ''SAVE_DELETE'', ''SAVE_RETENTION'', ''SERVER_SAVE_STOP''] \<and> \<not> staff role
      then Inl (ForbiddenException ''Only organization administrators or operators may manage saves'')
      else if ty = ''MOD_UPLOAD_QUARANTINE'' \<and> \<not> staff role
      then Inl (ForbiddenException ''Only organization administrators or operators may upload mods'')
      else if ty = ''SERVER_UPDATE'' \<and> \<not> staff role
      then Inl (ForbiddenException ''Only organization administrators or operators may update the dedicated server'')
      else if (ty = ''SERVER_CONFIG_READ'' \<or> ty = ''SERVER_CONFIG_WRITE'') \<and> \<not> staff role
      then Inl (ForbiddenException ''Only organization administrators or operators may edit the server configuration'')
      else if ty = ''SERVER_MAINTENANCE'' \<and> \<not> staff role
      then Inl (ForbiddenException ''Only organization administrators or operators may change maintenance mode'')
      else Inr ())"

definition maintenance_payload ::
    "env \<Rightarrow> string \<Rightarrow> id \<Rightarrow> serverInstance \<Rightarrow> obj option \<Rightarrow> world \<Rightarrow> (obj option \<times> world) res" where
  "maintenance_payload E ty orgId si payload w =
     (if ty \<noteq> ''SERVER_MAINTENANCE'' then Inr (payload, w)
      else if get (opt_or payload []) ''enabled'' = Bool True then
        (case Option.bind (findUnique o_id orgId (orgs w)) o_maintenancePasswordEncrypted of
           None \<Rightarrow> Inl (BadRequestException ''Set a maintenance password in Settings first'')
         | Some encrypted \<Rightarrow>
             if encrypted = [] then Inl (BadRequestException ''Set a maintenance password in Settings first'')
             else (case e_decrypt E encrypted of
                     None \<Rightarrow> Inl (BadRequestException ''Stored maintenance password could not be decrypted'')
                   | Some password \<Rightarrow>
                       Inr (Some (spread (opt_or payload []) [(''enabled'', Bool True), (''password'', Str password),
                              (''kick_reason'', Str ''Server entering maintenance'')]),
                            w\<lparr>serverInstances := updateRow si_id (si_id si)
                                (\<lambda>s. s\<lparr>si_rebootIfDown := False\<rparr>) (serverInstances w)\<rparr>)))
      else Inr (Some (spread (opt_or payload []) [(''enabled'', Bool False),
             (''kick_reason'', Str ''Server leaving maintenance'')]), w))"

definition createJob ::
    "env \<Rightarrow> id \<Rightarrow> id \<Rightarrow> id \<Rightarrow> string \<Rightarrow> obj option \<Rightarrow> ms \<Rightarrow> world \<Rightarrow> (id \<times> id) res \<times> world" where
  "createJob E orgId userId serverInstanceId jobType payload now w =
     (let ty = normalizeJobType jobType;
          role = map_option uo_role (find_member userId orgId w)
      in if role = Some ''viewer'' \<and> ty \<notin> set viewerAllowed
         then (Inl (ForbiddenException ''Verified members may recommend mods, but cannot change installed mods''), w)
         else
           let payload1 = (if ty = ''MOD_UPLOAD_PENDING''
                 then Some (spread (opt_or payload []) [(''recommendedBy'', Str (recommender userId orgId w)),
                        (''recommendedById'', Str userId)])
                 else payload)
           in case console_payload ty payload1 of Inl e \<Rightarrow> (Inl e, w) | Inr payload2 \<Rightarrow>
             (case role_check ty role of Inl e \<Rightarrow> (Inl e, w) | Inr _ \<Rightarrow>
             (case find_server serverInstanceId orgId w of
                None \<Rightarrow> (Inl (NotFoundException ''Server instance not found''), w)
              | Some si \<Rightarrow>
                  (case maintenance_payload E ty orgId si payload2 w of Inl e \<Rightarrow> (Inl e, w)
                   | Inr (payload3, w1) \<Rightarrow>
                       (case dispatch orgId (Some userId) si ty
                               (spread (server_payload si) (opt_or payload3 [])) now w1 of
                          (ids, w2) \<Rightarrow> (Inr ids, w2))))))"

definition enqueueInternalJob ::
    "id \<Rightarrow> id option \<Rightarrow> id \<Rightarrow> string \<Rightarrow> obj option \<Rightarrow> ms \<Rightarrow> world \<Rightarrow> (id \<times> id) res \<times> world" where
  "enqueueInternalJob orgId userId serverInstanceId jobType payload now w =
     (case find_server serverInstanceId orgId w of
        None \<Rightarrow> (Inl (NotFoundException ''Server instance not found''), w)
      | Some si \<Rightarrow>
          (case dispatch orgId userId si (normalizeJobType jobType)
                  (spread (server_payload si) (opt_or payload [])) now w of
             (ids, w1) \<Rightarrow> (Inr ids, w1)))"

definition createPlayerModRequest :: "id \<Rightarrow> id \<Rightarrow> obj \<Rightarrow> ms \<Rightarrow> world \<Rightarrow> (id \<times> id) res \<times> world" where
  "createPlayerModRequest orgId serverInstanceId payload now w =
     (case find_server serverInstanceId orgId w of
        None \<Rightarrow> (Inl (NotFoundException ''Server instance not found''), w)
      | Some si \<Rightarrow>
          (case dispatch orgId None si ''MOD_UPLOAD_PENDING'' (spread (server_payload si) payload) now w of
             (ids, w1) \<Rightarrow> (Inr ids, w1)))"

text \<open>The polls of \<open>waitForJobOutput\<close>: the states it sees, one every 400 ms until the deadline.\<close>

fun waitForJobOutput :: "id \<Rightarrow> world list \<Rightarrow> string res" where
  "waitForJobOutput jobRunId [] = Inl (GatewayTimeoutException ''The game did not answer in time'')"
| "waitForJobOutput jobRunId (w # ws) =
     (case find_run jobRunId w of
        Some run \<Rightarrow>
          if jr_status run = Success \<or> jr_status run = Failed \<or> jr_status run = Cancelled then
            (if jr_status run \<noteq> Success
             then Inl (ServiceUnavailableException
                    (case get (jr_result run) ''errorMessage'' of Str s \<Rightarrow> s | _ \<Rightarrow> ''Game command failed''))
             else Inr (case get (jr_result run) ''output'' of Str s \<Rightarrow> s | _ \<Rightarrow> []))
          else waitForJobOutput jobRunId ws
      | None \<Rightarrow> waitForJobOutput jobRunId ws)"

section \<open>What a creation adds\<close>

lemma dispatch_ext: "dispatch orgId u si ty p now w = (ids, w') \<Longrightarrow> jobs_ext w w'"
proof -
  assume d: "dispatch orgId u si ty p now w = (ids, w')"
  obtain j w1 where 1: "create_job orgId None (Some (si_id si)) ty p u now w = (j, w1)" by fastforce
  obtain r w2 where 2: "create_run j (si_hostId si) now w1 = (r, w2)" by fastforce
  have "w' = addJob orgId j r (si_hostId si) (Some (si_id si)) ty p w2"
    using d 1 2 by (simp add: dispatch_def)
  then have "same_jobs w2 w'" by (simp add: same_jobs_def frame)
  with create_job_run_ext [OF 1 2] show ?thesis
    using same_jobs_ext appending.trans_R by blast
qed

lemma dispatch_tables:
  assumes "dispatch orgId u si ty p now w = ((j, r), w')"
  shows "jobs w' = jobs w @ [\<lparr>j_id = j, j_orgId = orgId, j_batchId = None,
        j_serverInstanceId = Some (si_id si), j_type = ty, j_payload = p, j_createdById = u, j_createdAt = now\<rparr>]"
    "jobRuns w' = jobRuns w @ [\<lparr>jr_id = r, jr_jobId = j, jr_hostId = si_hostId si, jr_status = Pending,
        jr_startedAt = None, jr_finishedAt = None, jr_result = [], jr_createdAt = now\<rparr>]"
    "j = next_id w" "r = idgen w (Suc (idctr w))"
    "serverInstances w' = serverInstances w"
  using assms
  by (auto simp: dispatch_def create_job_def create_run_def next_id_def draw_def frame Let_def split: prod.splits)

lemma dispatch_queue:
  assumes "dispatch orgId u si ty p now w = ((j, r), w')"
    and "r \<notin> q_jobRunId ` set (orgQueues w orgId)"
  shows "orgQueues w' = (orgQueues w)(orgId := orgQueues w orgId @
     [\<lparr>q_jobId = j, q_jobRunId = r, q_hostId = si_hostId si, q_serverInstanceId = Some (si_id si),
       q_type = ty, q_payload = p, q_scheduleId = None, q_attempts = JOB_ATTEMPTS,
       q_backoff = Exponential 2000\<rparr>])"
  using assms
  by (auto simp: dispatch_def create_job_def create_run_def addJob_def enqueue_def draw_def split: prod.splits)

text \<open>The outcome of \<open>createJob\<close>: refused with nothing changed, or dispatched.\<close>

lemma createJob_cases:
  assumes "createJob E orgId userId sid jt p now w = (r, w')"
  obtains (refused) e where "r = Inl e" "w' = w"
  | (accepted) ids si p1 p2 p3 w1 where "r = Inr ids" "find_server sid orgId w = Some si"
      "\<not> (map_option uo_role (find_member userId orgId w) = Some ''viewer'' \<and>
         normalizeJobType jt \<notin> set viewerAllowed)"
      "console_payload (normalizeJobType jt) p1 = Inr p2"
      "role_check (normalizeJobType jt) (map_option uo_role (find_member userId orgId w)) = Inr ()"
      "maintenance_payload E (normalizeJobType jt) orgId si p2 w = Inr (p3, w1)"
      "dispatch orgId (Some userId) si (normalizeJobType jt)
         (spread (server_payload si) (opt_or p3 [])) now w1 = (ids, w')"
  using assms unfolding createJob_def Let_def
  by (auto split: if_splits sum.splits option.splits prod.splits)

lemma maintenance_same_jobs:
  "maintenance_payload E ty orgId si p w = Inr (p', w') \<Longrightarrow> same_jobs w w'"
  by (auto simp: maintenance_payload_def same_jobs_def split: if_splits option.splits)

lemma createJob_ext: "jobs_ext w (snd (createJob E orgId userId sid jt p now w))"
proof (cases "createJob E orgId userId sid jt p now w")
  case (Pair r w')
  then show ?thesis
  proof (cases rule: createJob_cases)
    case (accepted ids si p1 p2 p3 w1)
    from same_jobs_ext [OF maintenance_same_jobs [OF accepted(6)]] dispatch_ext [OF accepted(7)]
    show ?thesis using Pair appending.trans_R by simp
  qed (simp add: Pair appending.refl_R)
qed

text \<open>The tables a creation leaves alone.\<close>

lemma dispatch_frame:
  assumes "dispatch orgId u si ty p now w = (ids, w')"
  shows "donationLines w' = donationLines w" "donations w' = donations w" "players w' = players w"
    "playerSessions w' = playerSessions w" "triggerFires w' = triggerFires w" "triggers w' = triggers w"
    "userOrgs w' = userOrgs w" "hosts w' = hosts w" "schedules w' = schedules w"
    "badPingSamples w' = badPingSamples w" "protectionCooldown w' = protectionCooldown w"
    "countryCache w' = countryCache w" "protections w' = protections w"
  using assms
  by (auto simp: dispatch_def create_job_def create_run_def addJob_def enqueue_def draw_def Let_def
      split: prod.splits)

lemma createJob_trace:
  assumes "createJob E orgId userId sid jt p now w = (r, w')"
  shows "w' = w \<or> (\<exists>s ids si ty q. dispatch orgId (Some userId) si ty q now (w\<lparr>serverInstances := s\<rparr>) = (ids, w'))"
  using assms
proof (cases rule: createJob_cases)
  case (accepted ids si p1 p2 p3 w1)
  from accepted(6) have "w1 = w \<or> (\<exists>s. w1 = w\<lparr>serverInstances := s\<rparr>)"
    by (auto simp: maintenance_payload_def split: if_splits option.splits)
  then have "\<exists>s. w1 = w\<lparr>serverInstances := s\<rparr>"
    by (auto intro: exI [of _ "serverInstances w"])
  with accepted(7) show ?thesis by blast
qed simp

lemma createJob_frame:
  assumes "createJob E orgId userId sid jt p now w = (r, w')"
  shows "donationLines w' = donationLines w" "donations w' = donations w" "players w' = players w"
    "playerSessions w' = playerSessions w" "triggerFires w' = triggerFires w" "triggers w' = triggers w"
    "userOrgs w' = userOrgs w" "hosts w' = hosts w" "schedules w' = schedules w"
    "badPingSamples w' = badPingSamples w" "protectionCooldown w' = protectionCooldown w"
    "countryCache w' = countryCache w" "protections w' = protections w"
    "idgen w' = idgen w" "idctr w \<le> idctr w'"
  using createJob_trace [OF assms] createJob_ext [of w E orgId userId sid jt p now] assms
  by (auto dest: dispatch_frame simp: jobs_ext_def)

lemma enqueueInternalJob_ext: "jobs_ext w (snd (enqueueInternalJob orgId userId sid jt p now w))"
  by (auto simp: enqueueInternalJob_def appending.refl_R split: option.split prod.split dest!: dispatch_ext)

lemma createPlayerModRequest_ext: "jobs_ext w (snd (createPlayerModRequest orgId sid p now w))"
  by (auto simp: createPlayerModRequest_def appending.refl_R split: option.split prod.split dest!: dispatch_ext)

section \<open>Properties of job creation\<close>

lemma lower_upper_char [simp]: "lower_char (upper_char c) = lower_char c"
  by (auto simp: lower_char_def upper_char_def is_upper_def is_lower_def code_def)

lemma upper_upper_char [simp]: "upper_char (upper_char c) = upper_char c"
  by (auto simp: upper_char_def is_lower_def)

lemma toLower_toUpper [simp]: "toLowerCase (toUpperCase s) = toLowerCase s"
  by (simp add: toLowerCase_def toUpperCase_def)

lemma toUpper_toUpper [simp]: "toUpperCase (toUpperCase s) = toUpperCase s"
  by (simp add: toUpperCase_def)

text \<open>Normalizing a job type is idempotent, and two types that differ only in case are the
  same job.\<close>

lemma normalizeJobType_idem:
  "normalizeJobType (normalizeJobType s) = normalizeJobType s \<and>
   normalizeJobType (toUpperCase s) = normalizeJobType s"
proof
  have "normalizeJobType ''SERVER_START'' = ''SERVER_START''"
    "normalizeJobType ''SERVER_STOP'' = ''SERVER_STOP''"
    "normalizeJobType ''SERVER_RESTART'' = ''SERVER_RESTART''" "normalizeJobType ''RCON'' = ''RCON''"
    by code_simp+
  then show "normalizeJobType (normalizeJobType s) = normalizeJobType s"
    unfolding normalizeJobType_def [of s] by (auto simp: Let_def) (auto simp: normalizeJobType_def Let_def)
  show "normalizeJobType (toUpperCase s) = normalizeJobType s"
    by (simp add: normalizeJobType_def Let_def)
qed

text \<open>Who may create a job of a (normalized) type, stated without the order of the checks.\<close>

definition staff_types :: "string list" where
  "staff_types = [''PLAYER_KICK_ALL'', ''SERVER_KILL'', ''SAVE_BACKUP'', ''SAVE_RESTORE'', ''SAVE_DELETE'',
     ''SAVE_RETENTION'', ''SERVER_SAVE_STOP'', ''MOD_UPLOAD_QUARANTINE'', ''SERVER_UPDATE'',
     ''SERVER_CONFIG_READ'', ''SERVER_CONFIG_WRITE'', ''SERVER_MAINTENANCE'']"

definition permitted :: "string option \<Rightarrow> string \<Rightarrow> bool" where
  "permitted role ty \<longleftrightarrow>
     (role = Some ''viewer'' \<longrightarrow> ty \<in> set viewerAllowed) \<and>
     (ty \<in> set [''PLAYER_ADMIN_PROMOTE'', ''PLAYER_ADMIN_DEMOTE''] \<longrightarrow> role = Some ''admin'') \<and>
     (ty \<in> set staff_types \<longrightarrow> role = Some ''admin'' \<or> role = Some ''operator'')"

lemma if_Inl_Inr: "(if c then Inl e else x) = Inr y \<longleftrightarrow> \<not> c \<and> x = Inr y"
  by simp

lemma role_check_ok:
  "role_check ty role = Inr () \<longleftrightarrow>
     (ty \<in> set [''PLAYER_ADMIN_PROMOTE'', ''PLAYER_ADMIN_DEMOTE''] \<longrightarrow> role = Some ''admin'') \<and>
     (ty \<in> set staff_types \<longrightarrow> role = Some ''admin'' \<or> role = Some ''operator'')"
  unfolding role_check_def if_Inl_Inr staff_types_def list.set insert_iff empty_iff staff_def [symmetric]
  by (simp only: simp_thms) satx

lemma console_not_forbidden: "console_payload ty p = Inl e \<Longrightarrow> e \<noteq> ForbiddenException m"
  by (auto simp: console_payload_def Let_def split: if_splits)

lemma maintenance_not_forbidden: "maintenance_payload E ty orgId si p w = Inl e \<Longrightarrow> e \<noteq> ForbiddenException m"
  by (auto simp: maintenance_payload_def split: if_splits option.splits)

text \<open>C12: authorization. A job is created only for a member whose role permits its type, and a
  request is answered with Forbidden only when the role does not: viewers may list and
  recommend mods, game administrators are changed by administrators only, destructive, save,
  update, configuration and maintenance jobs need an administrator or operator.\<close>

theorem createJob_authorized:
  "case fst (createJob E orgId userId sid jt p now w) of
     Inr ids \<Rightarrow> permitted (map_option uo_role (find_member userId orgId w)) (normalizeJobType jt)
   | Inl (ForbiddenException m) \<Rightarrow>
       \<not> permitted (map_option uo_role (find_member userId orgId w)) (normalizeJobType jt)
   | Inl _ \<Rightarrow> True"
proof -
  let ?ty = "normalizeJobType jt" and ?role = "map_option uo_role (find_member userId orgId w)"
  have perm: "permitted ?role ?ty \<longleftrightarrow>
      \<not> (?role = Some ''viewer'' \<and> ?ty \<notin> set viewerAllowed) \<and> role_check ?ty ?role = Inr ()"
    unfolding permitted_def role_check_ok by blast
  have forb: "fst (createJob E orgId userId sid jt p now w) = Inl (ForbiddenException m) \<Longrightarrow>
      \<not> permitted ?role ?ty" for m
    unfolding createJob_def Let_def perm
    by (auto split: if_splits sum.splits option.splits prod.splits
        dest: console_not_forbidden maintenance_not_forbidden)
  show ?thesis
  proof (cases "createJob E orgId userId sid jt p now w" rule: prod.exhaust)
    case (Pair r w')
    then show ?thesis
    proof (cases rule: createJob_cases)
      case (refused e)
      with forb Pair show ?thesis by (auto split: exn.split)
    next
      case accepted
      with Pair perm show ?thesis by auto
    qed
  qed
qed

text \<open>A refused request has no effect, an accepted one adds exactly one job, with one pending
  run on the server's host and one entry at the end of the organization's queue; server settings
  are in the payload unless the caller's payload has the same key.\<close>

lemma createJob_effect:
  assumes "inj (idgen w)" and "list_all (drawn w) (map q_jobRunId (orgQueues w orgId))"
  shows "case createJob E orgId userId sid jt p now w of
      (Inl e, w') \<Rightarrow> w' = w
    | (Inr (j, r), w') \<Rightarrow> (\<exists>si payload. find_server sid orgId w = Some si \<and>
        jobs w' = jobs w @ [\<lparr>j_id = j, j_orgId = orgId, j_batchId = None, j_serverInstanceId = Some sid,
           j_type = normalizeJobType jt, j_payload = spread (server_payload si) payload,
           j_createdById = Some userId, j_createdAt = now\<rparr>] \<and>
        jobRuns w' = jobRuns w @ [\<lparr>jr_id = r, jr_jobId = j, jr_hostId = si_hostId si, jr_status = Pending,
           jr_startedAt = None, jr_finishedAt = None, jr_result = [], jr_createdAt = now\<rparr>] \<and>
        orgQueues w' = (orgQueues w)(orgId := orgQueues w orgId @
          [\<lparr>q_jobId = j, q_jobRunId = r, q_hostId = si_hostId si, q_serverInstanceId = Some sid,
            q_type = normalizeJobType jt, q_payload = spread (server_payload si) payload,
            q_scheduleId = None, q_attempts = 3, q_backoff = Exponential 2000\<rparr>]))"
proof (cases "createJob E orgId userId sid jt p now w" rule: prod.exhaust)
  case (Pair res w')
  then show ?thesis
  proof (cases rule: createJob_cases)
    case (accepted ids si p1 p2 p3 w1)
    obtain j r where ids: "ids = (j, r)" by fastforce
    note d = accepted(7) [unfolded ids]
    have sj: "same_jobs w w1" by (rule maintenance_same_jobs [OF accepted(6)])
    have q: "orgQueues w1 = orgQueues w" "idctr w1 = idctr w"
      using accepted(6) by (auto simp: maintenance_payload_def split: if_splits option.splits)
    have "\<not> drawn w (idgen w (Suc (idctr w)))"
      using assms(1) by (auto simp: drawn_def dest: injD)
    then have "r \<notin> q_jobRunId ` set (orgQueues w1 orgId)"
      using assms(2) dispatch_tables(4) [OF d] sj q by (auto simp: same_jobs_def list_all_iff)
    from dispatch_queue [OF d this] dispatch_tables(1,2) [OF d] accepted(1,2) sj q Pair ids
    show ?thesis
      by (auto simp: same_jobs_def find_server_def JOB_ATTEMPTS_def MAX_RETRIES_def dest!: find_Some_set)
  qed (simp add: Pair)
qed

text \<open>Console commands. The command a console job carries to the agent is never empty, has at
  most 512 characters, neither begins nor ends with white space and has no line break, whatever
  the caller sent.\<close>

lemma createJob_console_sanitized:
  assumes "createJob E orgId userId sid jt (Some p) now w = (Inr (j, r), w')"
    and "normalizeJobType jt \<in> {''RCON'', ''SEND_COMMAND''}" and "distinct (map fst p)"
  shows "\<exists>J c. last (jobs w') = J \<and> j_id J = j \<and> get (j_payload J) ''command'' = Str c \<and> c \<noteq> [] \<and>
    length c \<le> 512 \<and> trim c = c \<and> CHR 0x0D \<notin> set c \<and> CHR 0x0A \<notin> set c"
proof -
  let ?ty = "normalizeJobType jt"
  have ty: "?ty \<noteq> ''SERVER_MAINTENANCE''" "?ty \<noteq> ''MOD_UPLOAD_PENDING''" using assms(2) by auto
  from assms(1) obtain si p2 where c: "console_payload ?ty (Some p) = Inr p2"
    and d: "dispatch orgId (Some userId) si ?ty (spread (server_payload si) (opt_or p2 [])) now w = ((j, r), w')"
    unfolding createJob_def Let_def using ty
    by (auto simp: maintenance_payload_def split: if_splits sum.splits option.splits prod.splits)
  define cmd where "cmd = (case get p ''command'' of Str s \<Rightarrow> trim s | _ \<Rightarrow> [])"
  have tr: "trim cmd = cmd" by (simp add: cmd_def split: js.split)
  from c assms(2) have cmd: "p2 = Some (put ''command'' (Str cmd) p)" "cmd \<noteq> []" "length cmd \<le> 512"
      "CHR 0x0D \<notin> set cmd" "CHR 0x0A \<notin> set cmd"
    unfolding console_payload_def opt_or_def option.case Let_def cmd_def [symmetric]
    by (auto simp: list_ex_iff split: if_splits)
  have "get (spread (server_payload si) (put ''command'' (Str cmd) p)) ''command'' = Str cmd"
    using assms(3) by (subst get_spread_in) (simp_all add: distinct_put set_put_keys)
  with dispatch_tables(1) [OF d] cmd tr show ?thesis by (simp add: opt_or_def)
qed

end
