(* ===== verification/Shop_Grants.thy ===== *)
theory Shop_Grants
  imports JS_Base
begin

text \<open>
  Item grants: control-plane/src/donations/shop-grants.ts and item-catalog.ts. Everything
  here is pure. \<open>JSON.parse\<close>, \<open>gunzipSync\<close> and \<open>localeCompare\<close> are parameters.

  Shown: every grant that parses is well formed, a stored list of grants reads back as it
  was written, the status of a line is determined by its items, and the console command
  built for a grant is exactly four words without control characters.
\<close>

section \<open>Data\<close>

definition MAX_GRANT_QUANTITY :: int where "MAX_GRANT_QUANTITY = 9999"
definition MAX_GRANT_ATTEMPTS :: int where "MAX_GRANT_ATTEMPTS = 8"
definition MAX_GRANT_ITEMS :: nat where "MAX_GRANT_ITEMS = 8"

record grantItemSpec =
  g_name :: string
  g_quantity :: int

record lineGrantItem =
  lg_name :: string
  lg_quantity :: int
  lg_status :: string
  lg_attempts :: int
  lg_error :: "string option"

datatype grantOutcome = Delivered | Retry | FailedGrant

section \<open>Parsing\<close>

definition item_char :: "char \<Rightarrow> bool" where
  "item_char c = (is_alnum c \<or> c \<in> {CHR ''_'', CHR ''.'', CHR '':'', CHR ''-''})"

definition GRANT_ITEM_NAME :: "string \<Rightarrow> bool" where
  "GRANT_ITEM_NAME s =
     (case s of [] \<Rightarrow> False | c # cs \<Rightarrow> is_alpha c \<and> length cs \<le> 79 \<and> list_all item_char cs)"

definition parseGrantItemName :: "js \<Rightarrow> string option" where
  "parseGrantItemName raw =
     (case raw of
        Str s \<Rightarrow>
          if s = [] then None
          else (let name = trim s in
                if \<not> GRANT_ITEM_NAME name then None
                else if toLowerCase name = ''all'' then None
                else Some name)
      | _ \<Rightarrow> None)"

definition parseGrantQuantity :: "js \<Rightarrow> int \<Rightarrow> int option" where
  "parseGrantQuantity raw fallback =
     (if nullish raw \<or> raw = Str [] then Some fallback
      else let v = (case raw of Num n \<Rightarrow> n
                    | Str s \<Rightarrow> if trim s = [] then NaN else toNumber (trim s) | _ \<Rightarrow> NaN)
           in if \<not> isInteger v \<or> num_int v < 1 \<or> num_int v > MAX_GRANT_QUANTITY then None
              else Some (num_int v))"

definition player_name_ok :: "string \<Rightarrow> bool" where
  "player_name_ok s =
     (1 \<le> length s \<and> length s \<le> 16 \<and> list_all (\<lambda>c. is_alnum c \<or> c = CHR ''_'') s)"

definition uuid_ok :: "string \<Rightarrow> bool" where
  "uuid_ok s = (32 \<le> length s \<and> length s \<le> 36 \<and> list_all (\<lambda>c. is_hex c \<or> c = CHR ''-'') s)"

definition grantPlayerTarget :: "string option \<Rightarrow> string option \<Rightarrow> string option" where
  "grantPlayerTarget playerName uuid =
     (let name = trim (opt_or playerName []); i = trim (opt_or uuid []) in
      if name \<noteq> [] \<and> player_name_ok name \<and> toLowerCase name \<noteq> ''all'' then Some name
      else if uuid_ok i then Some i else None)"

definition strip_steam :: "string \<Rightarrow> string" where
  \<comment> \<open>a leading \<open>Steam_\<close>, in any case, removed\<close>
  "strip_steam s = (if startsWith (toLowerCase s) ''steam_'' then drop 6 s else s)"

definition grantSteamTarget :: "string option \<Rightarrow> string option" where
  "grantSteamTarget steamId =
     (case steamId of None \<Rightarrow> None
      | Some s \<Rightarrow>
          if s = [] then None
          else let d = strip_steam (trim s) in
               if 15 \<le> length d \<and> length d \<le> 20 \<and> list_all is_digit d then Some d else None)"

definition buildGiveCommand ::
    "string option \<Rightarrow> string option \<Rightarrow> int option \<Rightarrow> string option \<Rightarrow> string option" where
  "buildGiveCommand playerName itemName amount uuid =
     (case grantPlayerTarget playerName uuid of None \<Rightarrow> None | Some target \<Rightarrow>
     (case parseGrantItemName (js_opt itemName) of None \<Rightarrow> None | Some item \<Rightarrow>
     (case parseGrantQuantity (case amount of None \<Rightarrow> Undefined | Some n \<Rightarrow> JInt n) 1 of
        None \<Rightarrow> None
      | Some count \<Rightarrow> Some (''give '' @ target @ '' '' @ item @ '' '' @ int_str count))))"

definition buildGivePlusCommand :: "string option \<Rightarrow> string option \<Rightarrow> int option \<Rightarrow> string option" where
  "buildGivePlusCommand steamIdOrName itemName amount =
     buildGiveCommand (Some (trim (strip_steam (opt_or steamIdOrName [])))) itemName amount None"

definition name_raw :: "js \<Rightarrow> js" where
  "name_raw row = coalesce (coalesce (field row ''name'') (field row ''itemName'')) (field row ''grantItemName'')"

definition quantity_raw :: "js \<Rightarrow> js" where
  "quantity_raw row = coalesce (field row ''quantity'') (field row ''grantQuantity'')"

fun parse_rows :: "js list \<Rightarrow> grantItemSpec list option" where
  "parse_rows [] = Some []"
| "parse_rows (row # rows) =
     (if \<not> is_object row then None
      else if nullish (name_raw row) \<or> js_blank (name_raw row) then parse_rows rows
      else (case (parseGrantItemName (name_raw row), parseGrantQuantity (quantity_raw row) 1) of
              (Some name, Some quantity) \<Rightarrow>
                map_option ((#) \<lparr>g_name = name, g_quantity = quantity\<rparr>) (parse_rows rows)
            | _ \<Rightarrow> None))"

text \<open>None is the result \<open>false\<close>.\<close>

definition parseGrantItemList :: "(string \<Rightarrow> js option) \<Rightarrow> js \<Rightarrow> grantItemSpec list option" where
  "parseGrantItemList parseJson raw =
     (if nullish raw \<or> raw = Str [] then Some []
      else
        let rows = (\<lambda>v. case v of Arr xs \<Rightarrow> if MAX_GRANT_ITEMS < length xs then None else parse_rows xs
                         | _ \<Rightarrow> None)
        in case raw of
             Str s \<Rightarrow>
               (if trim s = [] \<or> trim s = ''[]'' then Some []
                else case parseJson (trim s) of None \<Rightarrow> None | Some v \<Rightarrow> rows v)
           | _ \<Rightarrow> rows raw)"

definition grantSpecsFromFields ::
    "(string \<Rightarrow> js option) \<Rightarrow> js \<Rightarrow> js \<Rightarrow> js \<Rightarrow> grantItemSpec list option" where
  "grantSpecsFromFields parseJson itemName quantity grantItems =
     (if \<not> nullish grantItems \<and> grantItems \<noteq> Str [] then parseGrantItemList parseJson grantItems
      else (case parseGrantItemName itemName of
              None \<Rightarrow> Some []
            | Some name \<Rightarrow>
                (case parseGrantQuantity quantity 1 of
                   None \<Rightarrow> None | Some count \<Rightarrow> Some [\<lparr>g_name = name, g_quantity = count\<rparr>])))"

definition snapshotLineGrants :: "grantItemSpec list \<Rightarrow> lineGrantItem list" where
  "snapshotLineGrants items =
     map (\<lambda>i. \<lparr>lg_name = g_name i, lg_quantity = g_quantity i, lg_status = ''pending'',
               lg_attempts = 0, lg_error = None\<rparr>) items"

definition line_row :: "js \<Rightarrow> lineGrantItem option" where
  "line_row row =
     (if \<not> is_object row then None
      else (case (parseGrantItemName (name_raw row), parseGrantQuantity (quantity_raw row) 1) of
              (Some name, Some quantity) \<Rightarrow>
                (let attempts = to_num (field row ''attempts'') in
                 Some \<lparr>lg_name = name, lg_quantity = quantity,
                   lg_status = (case field row ''status'' of Str s \<Rightarrow> or_str s ''pending'' | _ \<Rightarrow> ''pending''),
                   lg_attempts = (if isInteger attempts \<and> 0 \<le> num_int attempts
                                  then min (num_int attempts) 99 else 0),
                   lg_error = (case field row ''error'' of Str s \<Rightarrow> Some (take 180 s) | _ \<Rightarrow> None)\<rparr>)
            | _ \<Rightarrow> None))"

definition lineGrantItems ::
    "(string \<Rightarrow> js option) \<Rightarrow> js \<Rightarrow> string option \<Rightarrow> int option \<Rightarrow> lineGrantItem list" where
  "lineGrantItems parseJson raw grantItemName grantQuantity =
     (let v = (case raw of Str s \<Rightarrow> (case parseJson s of None \<Rightarrow> Arr [] | Some v \<Rightarrow> v) | _ \<Rightarrow> raw);
          items = (case v of Arr xs \<Rightarrow> List.map_filter line_row xs | _ \<Rightarrow> [])
      in if items \<noteq> [] then take MAX_GRANT_ITEMS items
         else snapshotLineGrants
           (opt_or (grantSpecsFromFields parseJson (js_opt grantItemName)
              (case grantQuantity of None \<Rightarrow> Undefined | Some q \<Rightarrow> JInt q) Undefined) []))"

definition aggregateGrantStatus :: "lineGrantItem list \<Rightarrow> string" where
  "aggregateGrantStatus items =
     (let statuses = map lg_status items in
      if items = [] then ''none''
      else if list_all (\<lambda>s. s = ''delivered'') statuses then ''delivered''
      else if list_all (\<lambda>s. s = ''failed'') statuses then ''failed''
      else if list_ex (\<lambda>s. s = ''pending'') statuses then ''pending''
      else if list_ex (\<lambda>s. s = ''queued'') statuses then ''queued''
      else if list_ex (\<lambda>s. s = ''delivered'') statuses \<and> list_ex (\<lambda>s. s = ''failed'') statuses
           then ''partial''
      else ''pending'')"

definition formatGrantSummary :: "grantItemSpec list \<Rightarrow> string" where
  "formatGrantSummary items =
     join '', '' (map (\<lambda>i. int_str (g_quantity i) @ [CHR 0xD7, CHR '' ''] @ g_name i) items)"

definition matches_any :: "string \<Rightarrow> string list \<Rightarrow> bool" where
  "matches_any text phrases = list_ex (contains (toLowerCase text)) phrases"

definition classifyGrantOutput :: "string \<Rightarrow> bool \<Rightarrow> grantOutcome" where
  "classifyGrantOutput text success =
     (if matches_any text [''no player was found'', ''player not found'', ''must be online'',
           ''that player cannot be found''] then Retry
      else if matches_any text [''there is no such item'', ''unknown item'', ''invalid item'',
           ''expected item''] then FailedGrant
      else if matches_any text [''incorrect argument'', ''syntax error'',
           ''unknown or incomplete command''] then FailedGrant
      else if success then Delivered else Retry)"

section \<open>The item catalog\<close>

definition MAX_ITEM_CATALOG_NAMES :: nat where "MAX_ITEM_CATALOG_NAMES = 25000"

text \<open>Adding to a JavaScript set keeps the insertion order.\<close>

definition set_add :: "'a \<Rightarrow> 'a list \<Rightarrow> 'a list" where
  "set_add x xs = (if x \<in> set xs then xs else xs @ [x])"

fun add_names :: "js list \<Rightarrow> string list \<Rightarrow> string list" where
  "add_names [] names = names"
| "add_names (row # rows) names =
     (case parseGrantItemName row of
        None \<Rightarrow> add_names rows names
      | Some name \<Rightarrow>
          (let names' = set_add name names in
           if MAX_ITEM_CATALOG_NAMES \<le> length names' then names' else add_names rows names'))"

record itemCatalogView =
  ic_items :: "string list"
  ic_count :: nat
  ic_files :: "int option"
  ic_truncated :: bool

definition catalogFromAgentResult ::
    "(string \<Rightarrow> string option) \<Rightarrow> (string list \<Rightarrow> string list) \<Rightarrow> js \<Rightarrow> itemCatalogView" where
  "catalogFromAgentResult gunzip sortNames raw =
     (let catalogGz = str_of (field raw ''catalogGz'');
          names1 = (if catalogGz \<noteq> [] \<and> length catalogGz \<le> 400000
                    then (case gunzip catalogGz of None \<Rightarrow> []
                          | Some text \<Rightarrow> add_names (map Str (split CHR 0x0A text)) [])
                    else []);
          names = (case field raw ''items'' of
                     Arr rows \<Rightarrow> if length names1 < MAX_ITEM_CATALOG_NAMES
                                 then add_names rows names1 else names1
                   | _ \<Rightarrow> names1);
          items = sortNames names;
          files = to_num (field raw ''files'')
      in \<lparr>ic_items = items, ic_count = length items,
          ic_files = (if isInteger files \<and> 0 \<le> num_int files then Some (num_int files) else None),
          ic_truncated = (field raw ''truncated'' = Bool True \<or> MAX_ITEM_CATALOG_NAMES \<le> length items)\<rparr>)"

section \<open>Well-formed grants\<close>

definition name_wf :: "string \<Rightarrow> bool" where
  "name_wf s \<longleftrightarrow> GRANT_ITEM_NAME s \<and> toLowerCase s \<noteq> ''all''"

definition spec_wf :: "grantItemSpec \<Rightarrow> bool" where
  "spec_wf i \<longleftrightarrow> name_wf (g_name i) \<and> 1 \<le> g_quantity i \<and> g_quantity i \<le> MAX_GRANT_QUANTITY"

definition line_wf :: "lineGrantItem \<Rightarrow> bool" where
  "line_wf i \<longleftrightarrow> name_wf (lg_name i) \<and> 1 \<le> lg_quantity i \<and> lg_quantity i \<le> MAX_GRANT_QUANTITY \<and>
     lg_status i \<noteq> [] \<and> 0 \<le> lg_attempts i \<and> lg_attempts i \<le> 99 \<and>
     (case lg_error i of None \<Rightarrow> True | Some e \<Rightarrow> length e \<le> 180)"

lemma not_ws_alnum: "is_alnum c \<Longrightarrow> \<not> is_ws c"
  by (auto simp: is_alnum_def is_alpha_def is_upper_def is_lower_def is_digit_def is_ws_def)

lemma not_ws_item: "item_char c \<Longrightarrow> \<not> is_ws c"
  by (auto simp: item_char_def dest: not_ws_alnum) (simp_all add: is_ws_def code_def)

lemma item_name_chars: "GRANT_ITEM_NAME s \<Longrightarrow> list_all item_char s"
  by (auto simp: GRANT_ITEM_NAME_def item_char_def is_alnum_def split: list.splits)

lemma item_name_no_ws: "GRANT_ITEM_NAME s \<Longrightarrow> list_all (\<lambda>c. \<not> is_ws c) s"
  using item_name_chars not_ws_item by (auto simp: list_all_iff)

lemma parseGrantItemName_wf: "parseGrantItemName v = Some s \<Longrightarrow> name_wf s"
  by (auto simp: parseGrantItemName_def name_wf_def Let_def split: js.splits if_splits)

lemma parseGrantItemName_id: "name_wf s \<Longrightarrow> parseGrantItemName (Str s) = Some s"
  using trim_no_ws [OF item_name_no_ws, of s]
  by (auto simp: parseGrantItemName_def name_wf_def GRANT_ITEM_NAME_def Let_def)

lemma num_int_int [simp]: "num_int (int_num i) = i" "isInteger (int_num i)"
  by (simp_all add: num_int_def int_num_def isInteger_def)

lemma parseGrantQuantity_bounds:
  "parseGrantQuantity v d = Some q \<Longrightarrow> (1 \<le> q \<and> q \<le> MAX_GRANT_QUANTITY) \<or> q = d"
  by (auto simp: parseGrantQuantity_def Let_def split: if_splits)

lemma parseGrantQuantity_id:
  "1 \<le> q \<Longrightarrow> q \<le> MAX_GRANT_QUANTITY \<Longrightarrow> parseGrantQuantity (JInt q) d = Some q"
  by (simp add: parseGrantQuantity_def nullish_def Let_def)

lemma max_quantity: "1 \<le> MAX_GRANT_QUANTITY"
  by (simp add: MAX_GRANT_QUANTITY_def)

lemma parse_rows_wf: "parse_rows rows = Some items \<Longrightarrow> list_all spec_wf items \<and> length items \<le> length rows"
proof (induction rows arbitrary: items)
  case (Cons row rows)
  show ?case
  proof (cases "nullish (name_raw row) \<or> js_blank (name_raw row)")
    case True
    with Cons.prems have "parse_rows rows = Some items" by (simp split: if_splits)
    with Cons.IH show ?thesis by fastforce
  next
    case False
    with Cons.prems obtain n q ss where p: "parseGrantItemName (name_raw row) = Some n"
      "parseGrantQuantity (quantity_raw row) 1 = Some q" "parse_rows rows = Some ss"
      "items = \<lparr>g_name = n, g_quantity = q\<rparr> # ss"
      by (auto split: if_splits option.splits)
    have "spec_wf \<lparr>g_name = n, g_quantity = q\<rparr>"
      using parseGrantItemName_wf [OF p(1)] parseGrantQuantity_bounds [OF p(2)] max_quantity
      by (auto simp: spec_wf_def)
    with Cons.IH [OF p(3)] p(4) show ?thesis by simp
  qed
qed simp

lemma parseGrantItemList_wf:
  assumes "parseGrantItemList parseJson raw = Some items"
  shows "list_all spec_wf items \<and> length items \<le> MAX_GRANT_ITEMS"
proof -
  from assms have "items = [] \<or> (\<exists>rows. length rows \<le> MAX_GRANT_ITEMS \<and> parse_rows rows = Some items)"
    by (auto simp: parseGrantItemList_def Let_def split: if_splits js.splits option.splits)
  then show ?thesis using parse_rows_wf by fastforce
qed

lemma line_row_wf:
  assumes "line_row row = Some i"
  shows "line_wf i"
proof -
  from assms obtain n q where p: "parseGrantItemName (name_raw row) = Some n"
    "parseGrantQuantity (quantity_raw row) 1 = Some q"
    by (auto simp: line_row_def Let_def split: if_splits option.splits)
  define a where "a = to_num (field row ''attempts'')"
  have i: "lg_name i = n" "lg_quantity i = q"
    "lg_attempts i = (if isInteger a \<and> 0 \<le> num_int a then min (num_int a) 99 else 0)"
    "lg_status i = (case field row ''status'' of Str s \<Rightarrow> or_str s ''pending'' | _ \<Rightarrow> ''pending'')"
    "lg_error i = (case field row ''error'' of Str s \<Rightarrow> Some (take 180 s) | _ \<Rightarrow> None)"
    using assms p by (auto simp: line_row_def Let_def a_def split: if_splits)
  have "lg_status i \<noteq> []" unfolding i by (cases "field row ''status''") (auto simp: or_str_def)
  moreover have "case lg_error i of None \<Rightarrow> True | Some e \<Rightarrow> length e \<le> 180"
    unfolding i by (cases "field row ''error''") auto
  moreover have "0 \<le> lg_attempts i \<and> lg_attempts i \<le> 99" unfolding i by simp
  ultimately show ?thesis
    using parseGrantItemName_wf [OF p(1)] parseGrantQuantity_bounds [OF p(2)] max_quantity i(1,2)
    by (auto simp: line_wf_def)
qed

lemma specs_wf:
  "grantSpecsFromFields pj n q g = Some items \<Longrightarrow> list_all spec_wf items"
  using parseGrantItemList_wf parseGrantItemName_wf parseGrantQuantity_bounds [of q 1] max_quantity
  by (fastforce simp: grantSpecsFromFields_def spec_wf_def split: if_splits option.splits)

lemma snapshot_wf: "list_all spec_wf items \<Longrightarrow> list_all line_wf (snapshotLineGrants items)"
  by (auto simp: snapshotLineGrants_def list_all_iff spec_wf_def line_wf_def)

lemma specs_short:
  "grantSpecsFromFields pj n q g = Some items \<Longrightarrow> length items \<le> MAX_GRANT_ITEMS"
  using parseGrantItemList_wf
  by (fastforce simp: grantSpecsFromFields_def MAX_GRANT_ITEMS_def split: if_splits option.splits)

text \<open>How a list of grants is stored in the JSON column.\<close>

definition lg_json :: "lineGrantItem \<Rightarrow> js" where
  "lg_json i = Obj [(''name'', Str (lg_name i)), (''quantity'', JInt (lg_quantity i)),
     (''status'', Str (lg_status i)), (''attempts'', JInt (lg_attempts i)),
     (''error'', case lg_error i of None \<Rightarrow> Null | Some e \<Rightarrow> Str e)]"

definition grants_json :: "lineGrantItem list \<Rightarrow> js" where
  "grants_json items = Arr (map lg_json items)"

lemma line_row_json: "line_wf i \<Longrightarrow> line_row (lg_json i) = Some i"
  by (auto simp: line_row_def lg_json_def line_wf_def is_object_def name_raw_def quantity_raw_def
      field_def get_def coalesce_def nullish_def parseGrantItemName_id parseGrantQuantity_id or_str_def
      split: option.splits)

lemma map_filter_Some: "list_all (\<lambda>x. f x = Some (g x)) xs \<Longrightarrow> List.map_filter f xs = map g xs"
  by (induction xs) (auto simp: map_filter_simps)

lemma lineGrantItems_json:
  assumes "list_all line_wf items" and "length items \<le> MAX_GRANT_ITEMS" and "items \<noteq> []"
  shows "lineGrantItems pj (grants_json items) n q = items"
proof -
  have "List.map_filter line_row (map lg_json items) = items"
    using assms(1) by (induction items) (auto simp: map_filter_simps line_row_json)
  with assms show ?thesis by (simp add: lineGrantItems_def grants_json_def)
qed

section \<open>Properties of grants\<close>

text \<open>Whatever is stored on a donation line, reading its grants gives at most eight well
  formed items (a Minecraft item id that is not the selector for everyone, a quantity from 1
  to 9999, a status, 0 to 99 attempts, an error text of at most 180 characters).\<close>

lemma lineGrantItems_wf:
  "list_all line_wf (lineGrantItems parseJson raw n q) \<and>
   length (lineGrantItems parseJson raw n q) \<le> MAX_GRANT_ITEMS"
proof -
  have m: "list_all line_wf (List.map_filter line_row xs)" for xs
    by (induction xs) (auto simp: map_filter_simps line_row_wf split: option.split)
  have fb: "list_all line_wf (snapshotLineGrants (opt_or (grantSpecsFromFields pj a b c) []))"
    "length (snapshotLineGrants (opt_or (grantSpecsFromFields pj a b c) [])) \<le> MAX_GRANT_ITEMS" for pj a b c
    using specs_wf specs_short snapshot_wf
    by (auto simp: opt_or_def snapshotLineGrants_def split: option.split)
  have t: "list_all P xs \<Longrightarrow> list_all P (take k xs)" for P :: "lineGrantItem \<Rightarrow> bool" and k xs
    by (auto simp: list_all_iff dest: in_set_takeD)
  show ?thesis
    unfolding lineGrantItems_def Let_def using m t fb by (auto split: js.split)
qed

text \<open>What is written to a donation line is read back unchanged: storing any non-empty
  list of at most eight well formed grants and reading it gives the same list.\<close>

lemma lineGrantItems_roundtrip:
  assumes "list_all line_wf items" and "length items \<le> MAX_GRANT_ITEMS" and "items \<noteq> []"
  shows "lineGrantItems parseJson (grants_json items) n q = items"
  using assms by (rule lineGrantItems_json)

section \<open>The give command\<close>

definition word_char :: "char \<Rightarrow> bool" where
  "word_char c = (item_char c \<or> is_digit c)"

lemma ws_space: "is_ws CHR '' ''"
  by code_simp

lemma word_char_ok: "word_char c \<Longrightarrow> \<not> is_ws c"
  using not_ws_item not_ws_alnum by (auto simp: word_char_def is_alnum_def)

lemma name_char_word: "is_alnum c \<or> c = CHR ''_'' \<Longrightarrow> word_char c"
  by (auto simp: word_char_def item_char_def)

lemma hex_alnum: "is_hex c \<Longrightarrow> is_alnum c"
  by (auto simp: is_hex_def is_alnum_def is_alpha_def is_upper_def is_lower_def)

lemma uuid_char_word: "is_hex c \<or> c = CHR ''-'' \<Longrightarrow> word_char c"
  using hex_alnum by (auto simp: word_char_def item_char_def)

lemma target_words:
  assumes "grantPlayerTarget p u = Some t"
  shows "list_all word_char t \<and> 1 \<le> length t \<and> length t \<le> 36"
proof -
  from assms have "player_name_ok t \<or> uuid_ok t"
    by (auto simp: grantPlayerTarget_def Let_def split: if_splits)
  then show ?thesis
    unfolding player_name_ok_def uuid_ok_def list_all_iff
    using name_char_word uuid_char_word by (elim disjE) simp_all
qed

lemma item_words: "name_wf n \<Longrightarrow> list_all word_char n \<and> length n \<le> 80"
  using item_name_chars [of n]
  by (auto simp: name_wf_def GRANT_ITEM_NAME_def word_char_def list_all_iff split: list.splits)

lemma nat_str_length: "n < 10 ^ k \<Longrightarrow> 0 < k \<Longrightarrow> length (nat_str n) \<le> k"
proof (induction k arbitrary: n)
  case (Suc k)
  show ?case
  proof (cases "n < 10")
    case True
    then show ?thesis by (subst nat_str.simps) simp
  next
    case False
    with Suc.prems have "0 < k" by (cases k) auto
    moreover have "n div 10 < 10 ^ k" using Suc.prems by auto
    ultimately have "length (nat_str (n div 10)) \<le> k" using Suc.IH by blast
    with False show ?thesis by (subst nat_str.simps) simp
  qed
qed simp

lemma quantity_words:
  assumes "1 \<le> q" and "q \<le> MAX_GRANT_QUANTITY"
  shows "list_all word_char (int_str q) \<and> length (int_str q) \<le> 4 \<and> int_str q \<noteq> []"
proof -
  have "nat q < 10 ^ 4" using assms by (simp add: MAX_GRANT_QUANTITY_def)
  then have "length (nat_str (nat q)) \<le> 4" using nat_str_length [of "nat q" 4] by simp
  moreover have "list_all word_char (nat_str (nat q))"
    using nat_str_digits [of "nat q"] by (auto simp: list_all_iff word_char_def)
  ultimately show ?thesis using assms nat_str_nonempty by (simp add: int_str_def)
qed

lemma words_no_space: "list_all word_char s \<Longrightarrow> CHR '' '' \<notin> set s"
  using word_char_ok ws_space by (auto simp: list_all_iff)

lemma split_four:
  "list_all word_char a \<Longrightarrow> list_all word_char b \<Longrightarrow> list_all word_char c \<Longrightarrow>
     split CHR '' '' (''give '' @ a @ '' '' @ b @ '' '' @ c) = [''give'', a, b, c]"
  using split_append [of "CHR '' ''" "''give''" "a @ '' '' @ b @ '' '' @ c"]
    split_append [of "CHR '' ''" a "b @ '' '' @ c"] split_append [of "CHR '' ''" b c]
    split_no [of "CHR '' ''" c] words_no_space by simp

lemma buildGiveCommand_parts:
  assumes "buildGiveCommand p n amount u = Some cmd"
  obtains t i q where "cmd = ''give '' @ t @ '' '' @ i @ '' '' @ int_str q"
    "grantPlayerTarget p u = Some t" "name_wf i" "1 \<le> q" "q \<le> MAX_GRANT_QUANTITY"
proof -
  from assms obtain t i q where 1: "grantPlayerTarget p u = Some t"
      "parseGrantItemName (js_opt n) = Some i"
      "parseGrantQuantity (case amount of None \<Rightarrow> Undefined | Some n \<Rightarrow> JInt n) 1 = Some q"
      "cmd = ''give '' @ t @ '' '' @ i @ '' '' @ int_str q"
    by (auto simp: buildGiveCommand_def split: option.splits)
  with that parseGrantItemName_wf [OF 1(2)] parseGrantQuantity_bounds [OF 1(3)] max_quantity
  show ?thesis by blast
qed

text \<open>C23: the console command of a grant cannot be used to inject anything. A command that is
  built consists of exactly four words: give, the target (the player's valid name or id), the
  item id and the quantity from 1 to 9999; it has no white space other than the three single
  blanks, no line break, and fits the 512 characters the console allows.\<close>

theorem buildGiveCommand_injection_free:
  assumes "buildGiveCommand playerName itemName amount uuid = Some cmd"
  shows "(\<exists>t i q. split CHR '' '' cmd = [''give'', t, i, int_str q] \<and>
      grantPlayerTarget playerName uuid = Some t \<and> name_wf i \<and> 1 \<le> q \<and> q \<le> MAX_GRANT_QUANTITY \<and>
      list_all (\<lambda>c. \<not> is_ws c) (t @ i @ int_str q)) \<and>
    list_all (\<lambda>c. is_ws c = (c = CHR '' '')) cmd \<and> trim cmd = cmd \<and> cmd \<noteq> [] \<and> length cmd \<le> 512"
  using assms
proof (cases rule: buildGiveCommand_parts)
  case (1 t i q)
  note t = target_words [OF 1(2)] and i = item_words [OF 1(3)] and q = quantity_words [OF 1(4,5)]
  have ww: "list_all word_char x \<Longrightarrow> list_all (\<lambda>c. \<not> is_ws c) x" for x
    using word_char_ok by (auto simp: list_all_iff)
  have sp: "split CHR '' '' cmd = [''give'', t, i, int_str q]"
    unfolding 1(1) using t i q by (intro split_four) auto
  have ws: "list_all (\<lambda>c. is_ws c = (c = CHR '' '')) cmd"
  proof -
    have g: "list_all (\<lambda>c. is_ws c = (c = CHR '' '')) ''give '' \<and> is_ws CHR '' ''" by code_simp
    have "list_all (\<lambda>c. is_ws c = (c = CHR '' '')) x" if "list_all word_char x" for x
      using that word_char_ok ws_space by (auto simp: list_all_iff)
    with g t i q show ?thesis unfolding 1(1) by simp
  qed
  have last: "last (int_str q) \<in> set (int_str q)" using q by (intro last_in_set) simp
  have "trim cmd = cmd"
  proof -
    have "dropWhile is_ws cmd = cmd" unfolding 1(1) by (simp add: is_ws_def code_def)
    moreover have "dropWhile is_ws (rev cmd) = rev cmd"
      using q ww [of "int_str q"] last
      by (intro dropWhile_hd_not) (auto simp: 1(1) hd_rev list_all_iff)
    ultimately show ?thesis by (simp add: trim_def)
  qed
  with sp ws 1 t i q ww show ?thesis by (auto intro!: exI [of _ t] exI [of _ i] exI [of _ q])
qed

theorem buildGiveCommand_injection_free_witness:
  "\<exists>t i q. split CHR '' '' ''give Steve minecraft:diamond 64'' = [''give'', t, i, int_str q] \<and>
     grantPlayerTarget (Some ''Steve'') None = Some t \<and> name_wf i"
proof -
  have "buildGiveCommand (Some ''Steve'') (Some ''minecraft:diamond'') (Some 64) None =
      Some ''give Steve minecraft:diamond 64''" by code_simp
  from buildGiveCommand_injection_free [OF this] show ?thesis by blast
qed

text \<open>The status of a donation line follows from the statuses of its items: none without
  items, delivered or failed when all are, partial when delivered and failed items are left and
  nothing is outstanding, and outstanding (pending or queued) as long as some item is.\<close>

lemma aggregateGrantStatus_spec:
  fixes items :: "lineGrantItem list"
  defines "S \<equiv> lg_status ` set items"
  assumes "S \<subseteq> {''pending'', ''queued'', ''delivered'', ''failed''}"
  shows "aggregateGrantStatus items =
    (if S = {} then ''none'' else if ''pending'' \<in> S then ''pending'' else if ''queued'' \<in> S then ''queued''
     else if S = {''delivered''} then ''delivered'' else if S = {''failed''} then ''failed'' else ''partial'')"
proof -
  have all: "list_all (\<lambda>s. s = x) (map lg_status items) \<longleftrightarrow> S \<subseteq> {x}" for x
    by (auto simp: S_def list_all_iff)
  have ex: "list_ex (\<lambda>s. s = x) (map lg_status items) \<longleftrightarrow> x \<in> S" for x
    by (auto simp: S_def list_ex_iff)
  have nil: "items = [] \<longleftrightarrow> S = {}" by (simp add: S_def)
  show ?thesis
    unfolding aggregateGrantStatus_def Let_def all ex nil using assms(2)
    by (auto simp: subset_singleton_iff)
qed

end
