(* ===== verification/Shop_Delivery.thy ===== *)
theory Shop_Delivery
  imports Shop_Grants Job_Create
begin

text \<open>
  Delivering shop purchases: control-plane/src/jobs/jobs.service.ts, \<open>enqueueShopGrants\<close>,
  \<open>enqueuePendingShopGrants\<close>, \<open>deliverShopGrantLines\<close>, \<open>queueShopGrantJob\<close> and
  \<open>finishShopGrant\<close>. A purchase is a donation line with a list of items, each with a status
  and a number of attempts; an item is delivered by a console job whose payload names the line
  and the index of the item, and the agent's answer is written back to that item.

  Shown: one pass queues at most eight jobs and no item is tried more than eight times; an item
  that is delivered or failed is never queued again by a pass; the answer changes only the item
  it is about. Also shown: an item whose attempts are used up stays pending for good.
\<close>

section \<open>Definitions\<close>

definition set_line :: "id \<Rightarrow> (donationLine \<Rightarrow> donationLine) \<Rightarrow> world \<Rightarrow> world" where
  "set_line i f w = w\<lparr>donationLines := updateRow l_id i f (donationLines w)\<rparr>"

definition line_items :: "env \<Rightarrow> donationLine \<Rightarrow> lineGrantItem list" where
  \<comment> \<open>\<open>lineGrantItems(line.grantItems, line)\<close>\<close>
  "line_items E l = lineGrantItems (e_parseJson E) (l_grantItems l) (l_grantItemName l) (l_grantQuantity l)"

definition grant_job_payload :: "string \<Rightarrow> id \<Rightarrow> nat \<Rightarrow> obj" where
  "grant_job_payload command lineId index =
     [(''command'', Str command), (''purpose'', Str ''shop_grant''), (''donationLineId'', Str lineId),
      (''grantKind'', Str ''item''), (''grantItemIndex'', JInt (int index))]"

definition queueShopGrantJob ::
    "env \<Rightarrow> id \<Rightarrow> id \<Rightarrow> id \<Rightarrow> id \<Rightarrow> string \<Rightarrow> lineGrantItem list \<Rightarrow> nat \<Rightarrow> ms \<Rightarrow> world \<Rightarrow> bool \<times> world" where
  "queueShopGrantJob E orgId userId serverInstanceId lineId command items index now w =
     (let w1 = set_line lineId (\<lambda>l. l\<lparr>l_grantStatus := aggregateGrantStatus items,
                 l_grantItems := grants_json items, l_grantQueuedAt := Some now, l_grantError := None\<rparr>) w
      in case createJob E orgId userId serverInstanceId ''RCON''
                (Some (grant_job_payload command lineId index)) now w1 of
           (Inr _, w2) \<Rightarrow> (True, w2)
         | (Inl _, w2) \<Rightarrow> (False, set_line lineId (\<lambda>l. l\<lparr>l_grantStatus := ''pending''\<rparr>) w2))"

definition due :: "bool \<Rightarrow> lineGrantItem \<Rightarrow> bool" where
  "due stale g \<longleftrightarrow> (lg_status g = ''pending'' \<or> lg_status g = ''queued'' \<and> stale) \<and>
     lg_attempts g < MAX_GRANT_ATTEMPTS"

text \<open>The body of the inner loop of \<open>deliverShopGrantLines\<close>; its state is the line's items, the
  number of jobs queued so far and the world. \<open>break\<close> at the limit is a body that does nothing
  from then on.\<close>

definition deliver_item ::
    "env \<Rightarrow> id \<Rightarrow> id \<Rightarrow> id \<Rightarrow> string \<Rightarrow> string option \<Rightarrow> nat \<Rightarrow> id \<Rightarrow> bool \<Rightarrow> ms \<Rightarrow>
     lineGrantItem list \<times> nat \<times> world \<Rightarrow> nat \<Rightarrow> lineGrantItem list \<times> nat \<times> world" where
  "deliver_item E orgId userId serverInstanceId playerName uuid limit lineId stale now s index =
     (case s of (grants, queued, w) \<Rightarrow>
       let grant = grants ! index in
       if limit \<le> queued \<or> \<not> due stale grant then s
       else (case buildGiveCommand (Some playerName) (Some (lg_name grant)) (Some (lg_quantity grant)) uuid of
               None \<Rightarrow>
                 (let grants' = grants[index := grant\<lparr>lg_status := ''failed'', lg_error := Some ''Invalid grant item''\<rparr>]
                  in (grants', queued, set_line lineId (\<lambda>l. l\<lparr>l_grantItems := grants_json grants',
                        l_grantStatus := aggregateGrantStatus grants', l_grantError := Some ''Invalid grant item''\<rparr>) w))
             | Some command \<Rightarrow>
                 (let grants' = grants[index := grant\<lparr>lg_status := ''queued'', lg_attempts := lg_attempts grant + 1,
                        lg_error := None\<rparr>]
                  in case queueShopGrantJob E orgId userId serverInstanceId lineId command grants' index now w of
                       (True, w') \<Rightarrow> (grants', Suc queued, w')
                     | (False, w') \<Rightarrow> (grants[index := grant\<lparr>lg_status := ''pending''\<rparr>], queued, w'))))"

definition deliver_line ::
    "env \<Rightarrow> id \<Rightarrow> id \<Rightarrow> id \<Rightarrow> string \<Rightarrow> string option \<Rightarrow> bool \<Rightarrow> nat \<Rightarrow> ms \<Rightarrow>
     nat \<times> world \<Rightarrow> donationLine \<Rightarrow> nat \<times> world" where
  "deliver_line E orgId userId serverInstanceId playerName uuid online limit now s line =
     (case s of (queued, w) \<Rightarrow>
       if limit \<le> queued \<or> \<not> online then s
       else
         let stale = (case l_grantQueuedAt line of None \<Rightarrow> True | Some t \<Rightarrow> t < now - 5 * 60000);
             grants = line_items E line
         in snd (foldl (deliver_item E orgId userId serverInstanceId playerName uuid limit (l_id line) stale now)
                   (grants, queued, w) [0..<length grants]))"

definition open_lines :: "id \<Rightarrow> id \<Rightarrow> id \<Rightarrow> world \<Rightarrow> donationLine list" where
  "open_lines orgId serverInstanceId playerId w =
     filter (\<lambda>l. (l_grantStatus l = ''pending'' \<or> l_grantStatus l = ''queued'') \<and>
       (case findUnique d_id (l_donationId l) (donations w) of
          None \<Rightarrow> False
        | Some d \<Rightarrow> d_playerId d = playerId \<and> d_orgId d = orgId \<and> d_serverInstanceId d = serverInstanceId \<and>
                    d_status d = ''completed'')) (donationLines w)"

definition uuid_key :: "string \<Rightarrow> string option" where
  "uuid_key identityKey = (if startsWith identityKey ''uuid:'' then Some (drop 5 identityKey) else None)"

definition deliverShopGrantLines ::
    "env \<Rightarrow> id \<Rightarrow> id \<Rightarrow> id \<Rightarrow> string \<Rightarrow> string \<Rightarrow> bool \<Rightarrow> nat \<Rightarrow> ms \<Rightarrow> world \<Rightarrow> world" where
  "deliverShopGrantLines E orgId serverInstanceId playerId playerName identityKey online limit now w =
     (case first_member orgId w of
        None \<Rightarrow> w
      | Some member \<Rightarrow>
          snd (foldl (deliver_line E orgId (uo_userId member) serverInstanceId playerName (uuid_key identityKey)
                 online limit now) (0, w) (take 16 (open_lines orgId serverInstanceId playerId w))))"

definition enqueueShopGrants :: "env \<Rightarrow> id \<Rightarrow> id \<Rightarrow> id \<Rightarrow> ms \<Rightarrow> world \<Rightarrow> world" where
  "enqueueShopGrants E orgId serverInstanceId playerId now w =
     (case List.find (\<lambda>p. p_id p = playerId \<and> p_orgId p = orgId \<and> p_serverInstanceId p = serverInstanceId) (players w) of
        None \<Rightarrow> w
      | Some p \<Rightarrow> deliverShopGrantLines E orgId serverInstanceId (p_id p) (p_name p) (p_identityKey p) (p_online p) 8 now w)"

definition enqueuePendingShopGrants :: "env \<Rightarrow> id \<Rightarrow> id \<Rightarrow> ms \<Rightarrow> world \<Rightarrow> world" where
  "enqueuePendingShopGrants E orgId serverInstanceId now w =
     foldl (\<lambda>w p. deliverShopGrantLines E orgId serverInstanceId (p_id p) (p_name p) (p_identityKey p) True 8 now w) w
       (take 32 (filter (\<lambda>p. p_orgId p = orgId \<and> p_serverInstanceId p = serverInstanceId \<and> p_online p) (players w)))"

fun findIndex :: "('a \<Rightarrow> bool) \<Rightarrow> 'a list \<Rightarrow> nat option" where
  \<comment> \<open>\<open>xs.findIndex(P)\<close>, None for -1\<close>
  "findIndex P [] = None"
| "findIndex P (x # xs) = (if P x then Some 0 else map_option Suc (findIndex P xs))"

definition grant_target :: "obj \<Rightarrow> lineGrantItem list \<Rightarrow> nat option" where
  "grant_target payload grants =
     (let index = to_num (get payload ''grantItemIndex'') in
      if isInteger index \<and> 0 \<le> num_int index \<and> num_int index < int (length grants)
      then Some (nat (num_int index))
      else findIndex (\<lambda>g. lg_status g = ''queued'' \<or> lg_status g = ''pending'') grants)"

definition finish_items :: "obj \<Rightarrow> bool \<Rightarrow> string \<Rightarrow> lineGrantItem list \<Rightarrow> lineGrantItem list" where
  "finish_items payload success output grants =
     (let outcome = classifyGrantOutput output success;
          next = (if outcome = Delivered then ''delivered'' else if outcome = FailedGrant then ''failed'' else ''pending'');
          error = (if outcome = Delivered then None else Some (take 180 (or_str output ''Grant command failed'')))
      in case grant_target payload grants of
           None \<Rightarrow> grants
         | Some t \<Rightarrow> grants[t := (grants ! t)\<lparr>lg_status := next, lg_error := error\<rparr>])"

definition finishShopGrant :: "env \<Rightarrow> obj \<Rightarrow> bool \<Rightarrow> string \<Rightarrow> ms \<Rightarrow> world \<Rightarrow> world" where
  "finishShopGrant E payload success output now w =
     (let lineId = (if truthy (get payload ''donationLineId'') then js_string (get payload ''donationLineId'') else []) in
      if lineId = [] then w
      else if get payload ''grantKind'' = Str ''chat_color'' then w
      else (case findUnique l_id lineId (donationLines w) of
              None \<Rightarrow> w
            | Some line \<Rightarrow>
                (let grants = finish_items payload success output (line_items E line);
                     grantStatus = aggregateGrantStatus grants;
                     errors = filter (\<lambda>e. e \<noteq> []) (List.map_filter lg_error grants)
                 in set_line lineId (\<lambda>l. l\<lparr>l_grantItems := grants_json grants, l_grantStatus := grantStatus,
                      l_grantError := or_null (take 180 (join ''; '' errors)),
                      l_grantedAt := (if grantStatus = ''delivered'' \<or> grantStatus = ''partial'' then Some now
                                      else l_grantedAt l)\<rparr>) w)))"

section \<open>What a pass does\<close>

text \<open>The item a grant job is for: its line and index, as its payload names them.\<close>

definition job_key :: "job \<Rightarrow> js \<times> js" where
  "job_key J = (get (j_payload J) ''donationLineId'', get (j_payload J) ''grantItemIndex'')"

definition tried :: "lineGrantItem \<Rightarrow> bool" where
  "tried g \<longleftrightarrow> lg_attempts g \<le> MAX_GRANT_ATTEMPTS"

definition attempts_ok :: "env \<Rightarrow> world \<Rightarrow> bool" where
  "attempts_ok E w \<longleftrightarrow> list_all (\<lambda>l. list_all tried (line_items E l)) (donationLines w)"

definition line_stale :: "ms \<Rightarrow> donationLine \<Rightarrow> bool" where
  "line_stale now l = (case l_grantQueuedAt l of None \<Rightarrow> True | Some t \<Rightarrow> t < now - 5 * 60000)"

lemma line_items_wf: "list_all line_wf (line_items E l)" "length (line_items E l) \<le> MAX_GRANT_ITEMS"
  using lineGrantItems_wf by (simp_all add: line_items_def)

lemma line_items_json:
  "list_all line_wf gs \<Longrightarrow> length gs \<le> MAX_GRANT_ITEMS \<Longrightarrow> gs \<noteq> [] \<Longrightarrow> l_grantItems l = grants_json gs \<Longrightarrow>
     line_items E l = gs"
  by (simp add: line_items_def lineGrantItems_json)

lemma set_line_attempts:
  assumes "attempts_ok E w" and "\<And>l. list_all tried (line_items E l) \<Longrightarrow> list_all tried (line_items E (f l))"
  shows "attempts_ok E (set_line i f w)"
  using assms by (auto simp: attempts_ok_def set_line_def list_all_iff dest!: in_updateRow)

lemma set_line_json_attempts:
  assumes "attempts_ok E w" "list_all line_wf gs" "list_all tried gs" "length gs \<le> MAX_GRANT_ITEMS" "gs \<noteq> []"
    and "\<And>l. l_grantItems (f l) = grants_json gs"
  shows "attempts_ok E (set_line i f w)"
  using assms by (intro set_line_attempts) (simp_all add: line_items_json [of gs])

lemma set_line_frame [simp]:
  "jobs (set_line i f w) = jobs w" "donations (set_line i f w) = donations w"
  by (simp_all add: set_line_def)

lemma set_line_same_jobs: "same_jobs w (set_line i f w)"
  by (simp add: set_line_def same_jobs_def)

text \<open>The job that \<open>queueShopGrantJob\<close> creates names its line, its index and its command.\<close>

lemma grant_job_created:
  assumes "createJob E orgId u sid ''RCON'' (Some (grant_job_payload cmd lid k)) now w = (Inr ids, w')"
  shows "\<exists>J. jobs w' = jobs w @ [J] \<and> job_key J = (Str lid, JInt (int k)) \<and>
    get (j_payload J) ''command'' = Str (trim cmd)"
proof -
  have n: "normalizeJobType ''RCON'' = ''RCON''" by code_simp
  from assms obtain si p2 where c: "console_payload ''RCON'' (Some (grant_job_payload cmd lid k)) = Inr p2"
    and d: "dispatch orgId (Some u) si ''RCON'' (spread (server_payload si) (opt_or p2 [])) now w = (ids, w')"
    by (auto simp: createJob_def Let_def n maintenance_payload_def split: if_splits sum.splits option.splits prod.splits)
  from c have p2: "p2 = Some (spread (grant_job_payload cmd lid k) [(''command'', Str (trim cmd))])"
    by (auto simp: console_payload_def Let_def grant_job_payload_def get_def opt_or_def split: if_splits)
  obtain j r where "ids = (j, r)" by fastforce
  with dispatch_tables(1) [OF d [unfolded this]] show ?thesis
    by (simp add: job_key_def p2 grant_job_payload_def opt_or_def)
qed

lemma queueShopGrantJob_cases:
  assumes "queueShopGrantJob E orgId u sid lid cmd gs k now w = (ok, w')"
  obtains (sent) J where "ok" "jobs w' = jobs w @ [J]" "job_key J = (Str lid, JInt (int k))"
      "get (j_payload J) ''command'' = Str (trim cmd)"
  | (refused) "\<not> ok" "jobs w' = jobs w"
proof -
  let ?w = "set_line lid (\<lambda>l. l\<lparr>l_grantStatus := aggregateGrantStatus gs, l_grantItems := grants_json gs,
    l_grantQueuedAt := Some now, l_grantError := None\<rparr>) w"
  obtain r w2 where c: "createJob E orgId u sid ''RCON'' (Some (grant_job_payload cmd lid k)) now ?w = (r, w2)"
    by fastforce
  show thesis
  proof (cases r)
    case (Inl e)
    with createJob_cases [OF c] have "w2 = ?w" by (metis Inl_Inr_False)
    with Inl assms c show thesis by (intro refused) (auto simp: queueShopGrantJob_def)
  next
    case (Inr ids)
    from grant_job_created [OF c [unfolded Inr]] Inr assms c sent show thesis
      by (auto simp: queueShopGrantJob_def)
  qed
qed

lemma queueShopGrantJob_attempts:
  assumes "attempts_ok E w" "list_all line_wf gs" "list_all tried gs" "length gs \<le> MAX_GRANT_ITEMS" "gs \<noteq> []"
  shows "attempts_ok E (snd (queueShopGrantJob E' orgId u sid lid cmd gs k now w))"
proof -
  let ?w = "set_line lid (\<lambda>l. l\<lparr>l_grantStatus := aggregateGrantStatus gs, l_grantItems := grants_json gs,
    l_grantQueuedAt := Some now, l_grantError := None\<rparr>) w"
  obtain r w2 where c: "createJob E' orgId u sid ''RCON'' (Some (grant_job_payload cmd lid k)) now ?w = (r, w2)"
    by fastforce
  have "attempts_ok E ?w" using assms by (intro set_line_json_attempts) simp_all
  then have a: "attempts_ok E w2" using createJob_frame(1) [OF c] by (simp add: attempts_ok_def)
  have "attempts_ok E (set_line lid (\<lambda>l. l\<lparr>l_grantStatus := ''pending''\<rparr>) w2)"
    by (rule set_line_attempts [OF a]) (simp add: line_items_def)
  with a c show ?thesis by (simp add: queueShopGrantJob_def split: sum.split)
qed

text \<open>A pass writes lines and creates jobs, nothing else: any preorder on worlds that these two steps
  keep is kept by a whole pass.\<close>

locale delivery = state_preorder R for R :: "world \<Rightarrow> world \<Rightarrow> bool" +
  assumes line_R: "R w (set_line i f w)"
    and job_R: "R w (snd (createJob E orgId u sid jt p now w))"
begin

lemma queue_R: "R w (snd (queueShopGrantJob E orgId u sid lid cmd gs k now w))"
proof -
  let ?w = "set_line lid (\<lambda>l. l\<lparr>l_grantStatus := aggregateGrantStatus gs, l_grantItems := grants_json gs,
    l_grantQueuedAt := Some now, l_grantError := None\<rparr>) w"
  obtain r w2 where c: "createJob E orgId u sid ''RCON'' (Some (grant_job_payload cmd lid k)) now ?w = (r, w2)"
    by fastforce
  have 2: "R ?w w2" using job_R [of ?w E orgId u sid "''RCON''" "Some (grant_job_payload cmd lid k)" now] c by simp
  note le = trans_R [OF line_R 2]
  from le trans_R [OF le line_R] c show ?thesis by (simp add: queueShopGrantJob_def split: sum.split)
qed

lemma item_R: "R (snd (snd s)) (snd (snd (deliver_item E orgId u sid nm uuid mx lid st now s k)))"
proof -
  have e: "R w w'" if "queueShopGrantJob E orgId u sid i c gs n now w = (b, w')" for i c gs n w b w'
    using queue_R [of w E orgId u sid i c gs n now] that by simp
  show ?thesis
    by (auto simp: deliver_item_def Let_def refl_R line_R split: prod.split option.split bool.split dest: e)
qed

lemma pass_R: "R w (deliverShopGrantLines E o' sid pid nm ik online mx now w)"
proof -
  have inner: "R (snd (snd s)) (snd (snd (foldl (deliver_item E o' u sid nm uuid mx lid st now) s ks)))"
    for u uuid lid st s ks
    using foldl_via [of ks "\<lambda>s. snd (snd s)"] item_R by blast
  have line: "R (snd s) (snd (deliver_line E o' u sid nm uuid online mx now s l))" for u uuid s l
    using inner [of "(line_items E l, fst s, snd s)" u uuid "l_id l"]
    by (auto simp: deliver_line_def Let_def refl_R split: prod.split)
  have "R (snd s) (snd (foldl (deliver_line E o' u sid nm uuid online mx now) s ls))" for u uuid s ls
    using foldl_via [of ls snd] line by blast
  from this [of "(0, w)"] show ?thesis
    by (simp add: deliverShopGrantLines_def refl_R split: option.split)
qed

lemma grants_R:
  "R w (enqueueShopGrants E o' sid pid now w)" "R w (enqueuePendingShopGrants E o' sid now w)"
  by (auto simp: enqueueShopGrants_def enqueuePendingShopGrants_def refl_R pass_R intro!: foldl_R split: option.split)

end

text \<open>A pass appends jobs, and leaves players and donations as they are.\<close>

definition same_money :: "world \<Rightarrow> world \<Rightarrow> bool" where
  "same_money w w' \<longleftrightarrow> players w' = players w \<and> donations w' = donations w \<and> idgen w' = idgen w \<and> idctr w \<le> idctr w'"

interpretation same_money: state_preorder same_money
  by unfold_locales (auto simp: same_money_def)

interpretation delivery_jobs: delivery jobs_ext
  by unfold_locales (rule same_jobs_ext [OF set_line_same_jobs], rule createJob_ext)

interpretation delivery_money: delivery same_money
proof
  show "same_money w (set_line i f w)" for w i f by (simp add: same_money_def set_line_def)
  show "same_money w (snd (createJob E orgId u sid jt p now w))" for w E orgId u sid jt p now
  proof -
    obtain r w' where "createJob E orgId u sid jt p now w = (r, w')" by fastforce
    then show ?thesis using createJob_frame [of E orgId u sid jt p now w r w'] by (simp add: same_money_def)
  qed
qed

lemmas deliver_item_ext = delivery_jobs.item_R and shop_grants_ext = delivery_jobs.grants_R

text \<open>The invariant of the inner loop: before index \<open>n\<close>, the items from \<open>n\<close> on are as they were
  read, and the jobs added are for due items below \<open>n\<close>, each for another one.\<close>

definition loop_inv ::
    "env \<Rightarrow> id \<Rightarrow> bool \<Rightarrow> nat \<Rightarrow> lineGrantItem list \<Rightarrow> nat \<Rightarrow> world \<Rightarrow> nat \<Rightarrow> lineGrantItem list \<times> nat \<times> world \<Rightarrow> bool" where
  "loop_inv E lid stale limit gs0 q0 w0 n s \<longleftrightarrow> (case s of (gs, q, w) \<Rightarrow>
     length gs = length gs0 \<and> (\<forall>k. n \<le> k \<and> k < length gs0 \<longrightarrow> gs ! k = gs0 ! k) \<and>
     list_all line_wf gs \<and> list_all tried gs \<and> attempts_ok E w \<and> q \<le> max q0 limit \<and>
     (\<exists>js. jobs w = jobs w0 @ js \<and> q = q0 + length js \<and> distinct (map job_key js) \<and>
        list_all (\<lambda>J. \<exists>k < n. due stale (gs0 ! k) \<and> job_key J = (Str lid, JInt (int k))) js))"

lemma list_all_update: "list_all P xs \<Longrightarrow> P y \<Longrightarrow> list_all P (xs[i := y])"
  using set_update_subset_insert [of xs i y] by (auto simp: list_all_iff)

lemma item_updates:
  assumes "list_all line_wf gs" "list_all tried gs" "n < length gs" "due stale (gs ! n)"
  shows "list_all line_wf (gs[n := (gs ! n)\<lparr>lg_status := ''failed'', lg_error := Some ''Invalid grant item''\<rparr>])"
    "list_all tried (gs[n := (gs ! n)\<lparr>lg_status := ''failed'', lg_error := Some ''Invalid grant item''\<rparr>])"
    "list_all line_wf (gs[n := (gs ! n)\<lparr>lg_status := ''queued'', lg_attempts := lg_attempts (gs ! n) + 1, lg_error := None\<rparr>])"
    "list_all tried (gs[n := (gs ! n)\<lparr>lg_status := ''queued'', lg_attempts := lg_attempts (gs ! n) + 1, lg_error := None\<rparr>])"
    "list_all line_wf (gs[n := (gs ! n)\<lparr>lg_status := ''pending''\<rparr>])"
    "list_all tried (gs[n := (gs ! n)\<lparr>lg_status := ''pending''\<rparr>])"
proof -
  from assms have "line_wf (gs ! n)" "lg_attempts (gs ! n) < MAX_GRANT_ATTEMPTS"
    by (simp_all add: list_all_length due_def)
  then show "list_all line_wf (gs[n := (gs ! n)\<lparr>lg_status := ''failed'', lg_error := Some ''Invalid grant item''\<rparr>])"
    "list_all tried (gs[n := (gs ! n)\<lparr>lg_status := ''failed'', lg_error := Some ''Invalid grant item''\<rparr>])"
    "list_all line_wf (gs[n := (gs ! n)\<lparr>lg_status := ''queued'', lg_attempts := lg_attempts (gs ! n) + 1, lg_error := None\<rparr>])"
    "list_all tried (gs[n := (gs ! n)\<lparr>lg_status := ''queued'', lg_attempts := lg_attempts (gs ! n) + 1, lg_error := None\<rparr>])"
    "list_all line_wf (gs[n := (gs ! n)\<lparr>lg_status := ''pending''\<rparr>])"
    "list_all tried (gs[n := (gs ! n)\<lparr>lg_status := ''pending''\<rparr>])"
    using assms(1,2) by (intro list_all_update; simp add: line_wf_def tried_def MAX_GRANT_ATTEMPTS_def)+
qed

lemma list_all_less_Suc:
  "list_all (\<lambda>J. \<exists>k < n. P k \<and> Q J k) js \<Longrightarrow> list_all (\<lambda>J. \<exists>k < Suc n. P k \<and> Q J k) js"
  by (rule list.pred_mono_strong, assumption) (auto intro: less_SucI)

lemma loop_inv_weaken: "loop_inv E lid st mx gs0 q0 w0 n s \<Longrightarrow> loop_inv E lid st mx gs0 q0 w0 (Suc n) s"
  unfolding loop_inv_def
  by (auto split: prod.splits dest: list_all_less_Suc [where P = "\<lambda>k. due st (gs0 ! k)"])

lemma deliver_item_inv:
  assumes inv: "loop_inv E lid st mx gs0 q0 w0 n s" and n: "n < length gs0" and short: "length gs0 \<le> MAX_GRANT_ITEMS"
  shows "loop_inv E lid st mx gs0 q0 w0 (Suc n) (deliver_item E orgId u sid nm uuid mx lid st now s n)"
proof -
  obtain gs q w where s: "s = (gs, q, w)" by (cases s) auto
  from inv s obtain js where
    gs: "length gs = length gs0" "\<And>k. n \<le> k \<Longrightarrow> k < length gs0 \<Longrightarrow> gs ! k = gs0 ! k"
      "list_all line_wf gs" "list_all tried gs" "attempts_ok E w" "q \<le> max q0 mx"
    and js: "jobs w = jobs w0 @ js" "q = q0 + length js" "distinct (map job_key js)"
      "list_all (\<lambda>J. \<exists>k < n. due st (gs0 ! k) \<and> job_key J = (Str lid, JInt (int k))) js"
    by (auto simp: loop_inv_def)
  have n': "n < length gs" and ne: "gs \<noteq> []" and sh: "length gs \<le> MAX_GRANT_ITEMS" using gs(1) n short by auto
  show ?thesis
  proof (cases "mx \<le> q \<or> \<not> due st (gs ! n)")
    case True
    with s have "deliver_item E orgId u sid nm uuid mx lid st now s n = s" by (simp add: deliver_item_def Let_def)
    with loop_inv_weaken [OF inv] show ?thesis by simp
  next
    case False
    then have q: "q < mx" and d: "due st (gs ! n)" by auto
    have d0: "due st (gs0 ! n)" using d gs(2) [of n] n by simp
    note up = item_updates [OF gs(3,4) n' d]
    have js': "list_all (\<lambda>J. \<exists>k < Suc n. due st (gs0 ! k) \<and> job_key J = (Str lid, JInt (int k))) js"
      using js(4) by (rule list_all_less_Suc)
    show ?thesis
    proof (cases "buildGiveCommand (Some nm) (Some (lg_name (gs ! n))) (Some (lg_quantity (gs ! n))) uuid")
      case None
      have "attempts_ok E (set_line lid (\<lambda>l. l\<lparr>l_grantItems := grants_json (gs[n := (gs ! n)\<lparr>lg_status := ''failed'',
          lg_error := Some ''Invalid grant item''\<rparr>]), l_grantStatus := S, l_grantError := e\<rparr>) w)" for S e
        using up ne sh by (intro set_line_json_attempts [OF gs(5) up(1,2)]) simp_all
      with None False s gs js js' up show ?thesis
        by (auto simp: deliver_item_def Let_def loop_inv_def nth_list_update)
    next
      case (Some cmd)
      let ?gs = "gs[n := (gs ! n)\<lparr>lg_status := ''queued'', lg_attempts := lg_attempts (gs ! n) + 1, lg_error := None\<rparr>]"
      obtain ok w' where qj: "queueShopGrantJob E orgId u sid lid cmd ?gs n now w = (ok, w')" by fastforce
      have a: "attempts_ok E w'"
        using queueShopGrantJob_attempts [OF gs(5) up(3,4), of E orgId u sid lid cmd n now] qj sh ne by simp
      from qj show ?thesis
      proof (cases rule: queueShopGrantJob_cases)
        case (sent J)
        have "job_key x \<noteq> job_key J" if x: "x \<in> set js" for x
        proof -
          from js(4) x obtain k where "k < n" "job_key x = (Str lid, JInt (int k))" by (auto simp: list_all_iff)
          with sent(3) show ?thesis by (simp add: int_num_def)
        qed
        then have "job_key J \<notin> set (map job_key js)" by fastforce
        then have "distinct (map job_key (js @ [J]))" using js(3) by simp
        moreover have "list_all (\<lambda>J. \<exists>k < Suc n. due st (gs0 ! k) \<and> job_key J = (Str lid, JInt (int k))) (js @ [J])"
          using js' sent(3) d0 by auto
        moreover have "jobs w' = jobs w0 @ (js @ [J])" "Suc q = q0 + length (js @ [J])" using sent js by auto
        ultimately have "\<exists>js. jobs w' = jobs w0 @ js \<and> Suc q = q0 + length js \<and> distinct (map job_key js) \<and>
            list_all (\<lambda>J. \<exists>k < Suc n. due st (gs0 ! k) \<and> job_key J = (Str lid, JInt (int k))) js" by blast
        with Some False s gs up a qj sent(1) q show ?thesis
          by (auto simp: deliver_item_def Let_def loop_inv_def nth_list_update simp del: list_all_append map_append)
      next
        case refused
        with Some False s gs up a qj js js' show ?thesis
          by (auto simp: deliver_item_def Let_def loop_inv_def nth_list_update)
      qed
    qed
  qed
qed

lemma deliver_items_inv:
  assumes "loop_inv E lid st mx gs0 q0 w0 0 s" and "length gs0 \<le> MAX_GRANT_ITEMS" and "n \<le> length gs0"
  shows "loop_inv E lid st mx gs0 q0 w0 n (foldl (deliver_item E orgId u sid nm uuid mx lid st now) s [0..<n])"
  using assms(3)
proof (induction n)
  case (Suc n)
  then show ?case using deliver_item_inv [of E lid st mx gs0 q0 w0 n] assms(2) by simp
qed (use assms(1) in simp)

text \<open>One line: the jobs added are for items of it that are due, at most one each.\<close>

lemma deliver_line_jobs:
  assumes "attempts_ok E w" and "list_all tried (line_items E l)"
    and "deliver_line E orgId u sid nm uuid online mx now (q, w) l = (q', w')"
  shows "attempts_ok E w' \<and> q' \<le> max q mx \<and> (\<exists>js. jobs w' = jobs w @ js \<and> q' = q + length js \<and>
    distinct (map job_key js) \<and> list_all (\<lambda>J. \<exists>k < length (line_items E l).
       due (line_stale now l) (line_items E l ! k) \<and> job_key J = (Str (l_id l), JInt (int k))) js)"
proof (cases "mx \<le> q \<or> \<not> online")
  case True
  with assms show ?thesis by (auto simp: deliver_line_def)
next
  case False
  let ?gs = "line_items E l"
  have "loop_inv E (l_id l) (line_stale now l) mx ?gs q w 0 (?gs, q, w)"
    using assms(1,2) line_items_wf by (auto simp: loop_inv_def)
  from deliver_items_inv [OF this line_items_wf(2) order_refl, of orgId u sid nm uuid now] False assms(3)
  show ?thesis
    by (auto simp: deliver_line_def loop_inv_def Let_def line_stale_def split: prod.splits)
qed

lemma disjoint_keys: "fst ` A \<subseteq> X \<Longrightarrow> fst ` B \<subseteq> Y \<Longrightarrow> X \<inter> Y = {} \<Longrightarrow> A \<inter> B = {}"
  by auto

lemma deliver_lines_jobs:
  assumes "attempts_ok E w" and "list_all (\<lambda>l. list_all tried (line_items E l)) ls" and "distinct (map l_id ls)"
    and "foldl (deliver_line E orgId u sid nm uuid online mx now) (q, w) ls = (q', w')"
  shows "attempts_ok E w' \<and> q' \<le> max q mx \<and> (\<exists>js. jobs w' = jobs w @ js \<and> q' = q + length js \<and>
    distinct (map job_key js) \<and> list_all (\<lambda>J. \<exists>l \<in> set ls. \<exists>k < length (line_items E l).
       due (line_stale now l) (line_items E l ! k) \<and> job_key J = (Str (l_id l), JInt (int k))) js)"
  using assms
proof (induction ls arbitrary: q w)
  case (Cons l ls)
  obtain q1 w1 where 1: "deliver_line E orgId u sid nm uuid online mx now (q, w) l = (q1, w1)" by fastforce
  from deliver_line_jobs [OF Cons.prems(1) _ 1] Cons.prems(2) obtain js where
    j: "attempts_ok E w1" "q1 \<le> max q mx" "jobs w1 = jobs w @ js" "q1 = q + length js" "distinct (map job_key js)"
      "list_all (\<lambda>J. \<exists>k < length (line_items E l). due (line_stale now l) (line_items E l ! k) \<and>
         job_key J = (Str (l_id l), JInt (int k))) js" by auto
  have "foldl (deliver_line E orgId u sid nm uuid online mx now) (q1, w1) ls = (q', w')" using Cons.prems(4) 1 by simp
  from Cons.IH [OF j(1) _ _ this] Cons.prems(2,3) obtain js' where
    j': "attempts_ok E w'" "q' \<le> max q1 mx" "jobs w' = jobs w1 @ js'" "q' = q1 + length js'" "distinct (map job_key js')"
      "list_all (\<lambda>J. \<exists>l \<in> set ls. \<exists>k < length (line_items E l). due (line_stale now l) (line_items E l ! k) \<and>
         job_key J = (Str (l_id l), JInt (int k))) js'" by auto
  have "fst ` job_key ` set js \<subseteq> {Str (l_id l)}" "fst ` job_key ` set js' \<subseteq> Str ` l_id ` set ls"
    using j(6) j'(6) by (auto simp: list_all_iff)
  moreover have "{Str (l_id l)} \<inter> Str ` l_id ` set ls = {}" using Cons.prems(3) by auto
  ultimately have "job_key ` set js \<inter> job_key ` set js' = {}" by (rule disjoint_keys)
  then have "distinct (map job_key (js @ js'))" using j(5) j'(5) by simp
  moreover have "list_all (\<lambda>J. \<exists>l \<in> set (l # ls). \<exists>k < length (line_items E l). due (line_stale now l) (line_items E l ! k) \<and>
         job_key J = (Str (l_id l), JInt (int k))) (js @ js')"
    unfolding list_all_append by (intro conjI; rule list.pred_mono_strong [OF j(6)] list.pred_mono_strong [OF j'(6)]) auto
  moreover have "q' \<le> max q mx" using j(2) j'(2) by simp
  moreover have "jobs w' = jobs w @ (js @ js')" "q' = q + length (js @ js')" using j(3,4) j'(3,4) by simp_all
  ultimately show ?case using j'(1) by blast
qed auto

lemma finishShopGrant_same_jobs: "same_jobs w (finishShopGrant E payload ok out now w)"
  by (simp add: finishShopGrant_def Let_def set_line_same_jobs same_jobs.refl_R split: option.split)

section \<open>Properties of deliveries\<close>

text \<open>C24: what one delivery pass queues. It adds at most \<open>limit\<close> jobs, each for an item of an
  unfinished line of one of the player's completed donations on that server that is due (pending,
  or queued more than five minutes ago, with attempts left), and no two for the same item; so an
  item already delivered or failed is never queued, and no item gets a ninth attempt.\<close>

theorem deliverShopGrantLines_owed:
  assumes "attempts_ok E w" and "distinct (map l_id (donationLines w))"
    and w'_def: "w' = deliverShopGrantLines E orgId sid pid nm ik online limit now w"
  shows "attempts_ok E w' \<and> (\<exists>js. jobs w' = jobs w @ js \<and> length js \<le> limit \<and> distinct (map job_key js) \<and>
    list_all (\<lambda>J. \<exists>l k. l \<in> set (open_lines orgId sid pid w) \<and> k < length (line_items E l) \<and>
       due (line_stale now l) (line_items E l ! k) \<and> job_key J = (Str (l_id l), JInt (int k))) js)"
proof (cases "first_member orgId w")
  case None
  with assms show ?thesis by (auto simp: deliverShopGrantLines_def)
next
  case (Some m)
  let ?ls = "take 16 (open_lines orgId sid pid w)"
  obtain q' w'' where f: "foldl (deliver_line E orgId (uo_userId m) sid nm (uuid_key ik) online limit now) (0, w) ?ls = (q', w'')"
    by fastforce
  have sub: "set ?ls \<subseteq> set (open_lines orgId sid pid w)" by (rule set_take_subset)
  have t: "list_all (\<lambda>l. list_all tried (line_items E l)) ?ls"
    using assms(1) sub by (auto simp: attempts_ok_def list_all_iff open_lines_def)
  have "distinct (map l_id (open_lines orgId sid pid w))"
    using assms(2) by (simp add: open_lines_def distinct_map_filter)
  then have "distinct (map l_id ?ls)" by (simp add: take_map [symmetric])
  from deliver_lines_jobs [OF assms(1) t this f] obtain js where j: "attempts_ok E w''" "length js \<le> limit"
    "jobs w'' = jobs w @ js" "distinct (map job_key js)"
    "list_all (\<lambda>J. \<exists>l \<in> set ?ls. \<exists>k < length (line_items E l). due (line_stale now l) (line_items E l ! k) \<and>
       job_key J = (Str (l_id l), JInt (int k))) js" by auto
  have "list_all (\<lambda>J. \<exists>l k. l \<in> set (open_lines orgId sid pid w) \<and> k < length (line_items E l) \<and>
       due (line_stale now l) (line_items E l ! k) \<and> job_key J = (Str (l_id l), JInt (int k))) js"
    by (rule list.pred_mono_strong [OF j(5)]) (use sub in blast)
  moreover have "w' = w''" using Some f by (simp add: w'_def deliverShopGrantLines_def)
  ultimately show ?thesis using j by blast
qed

lemma finish_items_nth:
  "grant_target payload gs = Some t \<Longrightarrow> t < length gs \<Longrightarrow> i < length gs \<Longrightarrow> i \<noteq> t \<Longrightarrow>
     finish_items payload ok out gs ! i = gs ! i"
  by (simp add: finish_items_def Let_def)

lemma finish_items_wf: "list_all line_wf gs \<Longrightarrow> list_all line_wf (finish_items payload ok out gs)"
proof -
  assume wf: "list_all line_wf gs"
  have "findIndex P xs = Some t \<Longrightarrow> t < length xs" for P t and xs :: "lineGrantItem list"
    by (induction xs arbitrary: t) (auto split: if_splits)
  then have "t < length gs" if "grant_target payload gs = Some t" for t
    using that by (auto simp: grant_target_def Let_def nat_less_iff split: if_splits)
  with wf have "line_wf ((gs ! t)\<lparr>lg_status := st, lg_error := e\<rparr>)"
    if "grant_target payload gs = Some t" "st \<noteq> []" "e = None \<or> (\<exists>m. e = Some (take 180 m))" for t st e
    using that by (auto simp: line_wf_def list_all_length)
  with wf show ?thesis
    by (auto simp: finish_items_def Let_def intro!: list_all_update split: option.split)
qed

text \<open>An agent's answer to a grant job is written to the item the job was for, and to no other:
  that item becomes delivered, failed or pending as the output says, with its attempts kept,
  the other items of the line and all other lines stay as they were, and the status of the line is
  the one its items have.\<close>

lemma finishShopGrant_answers_item:
  assumes "findUnique l_id lid (donationLines w) = Some l" and "lid \<noteq> []"
    and "get payload ''donationLineId'' = Str lid" and "get payload ''grantItemIndex'' = JInt (int k)"
    and "get payload ''grantKind'' = Str ''item''" and "k < length (line_items E l)"
    and w'_def: "w' = finishShopGrant E payload success output now w"
  shows "\<exists>l'. findUnique l_id lid (donationLines w') = Some l' \<and>
    length (line_items E l') = length (line_items E l) \<and>
    (\<forall>i < length (line_items E l). i \<noteq> k \<longrightarrow> line_items E l' ! i = line_items E l ! i) \<and>
    lg_attempts (line_items E l' ! k) = lg_attempts (line_items E l ! k) \<and>
    lg_status (line_items E l' ! k) = (case classifyGrantOutput output success of
       Delivered \<Rightarrow> ''delivered'' | FailedGrant \<Rightarrow> ''failed'' | Retry \<Rightarrow> ''pending'') \<and>
    l_grantStatus l' = aggregateGrantStatus (line_items E l') \<and>
    (\<forall>i. i \<noteq> lid \<longrightarrow> findUnique l_id i (donationLines w') = findUnique l_id i (donationLines w))"
proof -
  let ?gs = "line_items E l" and ?gs' = "finish_items payload success output (line_items E l)"
  have t: "grant_target payload ?gs = Some k" using assms(4,6) by (simp add: grant_target_def Let_def)
  have len: "length ?gs' = length ?gs" by (simp add: finish_items_def Let_def split: option.split)
  have items: "line_items E l' = ?gs'" if "l_grantItems l' = grants_json ?gs'" for l'
    using that assms(6) len line_items_wf(2) [of E l] by (intro line_items_json finish_items_wf line_items_wf) auto
  obtain f where f: "w' = set_line lid f w" "\<And>x. l_id (f x) = l_id x" "l_grantItems (f l) = grants_json ?gs'"
      "l_grantStatus (f l) = aggregateGrantStatus ?gs'"
    using assms(1-3,5) by (fastforce simp: w'_def finishShopGrant_def Let_def truthy_def)
  have u: "findUnique l_id i (donationLines w') =
      (if i = lid then map_option f (findUnique l_id i (donationLines w)) else findUnique l_id i (donationLines w))" for i
    using f(2) by (simp add: f(1) set_line_def findUnique_updateRow)
  have l': "findUnique l_id lid (donationLines w') = Some (f l)" using u [of lid] assms(1) by simp
  note it = items [OF f(3)]
  have st: "lg_attempts (?gs' ! k) = lg_attempts (?gs ! k)" "lg_status (?gs' ! k) = (case classifyGrantOutput output success of
       Delivered \<Rightarrow> ''delivered'' | FailedGrant \<Rightarrow> ''failed'' | Retry \<Rightarrow> ''pending'')"
    using t assms(6) by (simp_all add: finish_items_def Let_def split: grantOutcome.split)
  show ?thesis
    using l' len st f(4) finish_items_nth [OF t assms(6), of _ success "output"] u unfolding it [symmetric]
    by (intro exI [of _ "f l"]) simp
qed

text \<open>Attempts run out silently. When every item of the player's unfinished purchases has had
  eight attempts, no pass changes anything any more: the lines stay pending (or queued) for good,
  are neither delivered nor marked as failed, and no job is created for them.\<close>

lemma exhausted_grants_stay_open:
  assumes "list_all (\<lambda>l. list_all (\<lambda>g. MAX_GRANT_ATTEMPTS \<le> lg_attempts g) (line_items E l)) (open_lines orgId sid pid w)"
  shows "deliverShopGrantLines E orgId sid pid nm ik online limit now w = w"
proof -
  have item: "foldl (deliver_item E orgId u sid nm uuid limit lid st now) (gs, q, w) ks = (gs, q, w)"
    if "list_all (\<lambda>g. MAX_GRANT_ATTEMPTS \<le> lg_attempts g) gs" "set ks \<subseteq> {..<length gs}" for u uuid lid st gs q ks
    using that(2)
  proof (induction ks)
    case (Cons k ks)
    then have "\<not> due st (gs ! k)" using that(1) by (auto simp: due_def list_all_length)
    with Cons show ?case by (simp add: deliver_item_def Let_def)
  qed simp
  have line: "deliver_line E orgId u sid nm uuid online limit now (q, w) l = (q, w)"
    if "list_all (\<lambda>g. MAX_GRANT_ATTEMPTS \<le> lg_attempts g) (line_items E l)" for u uuid q l
    using item [OF that, of "[0..<length (line_items E l)]"]
    by (simp add: deliver_line_def Let_def atLeast0LessThan)
  have "foldl (deliver_line E orgId u sid nm uuid online limit now) (q, w) ls = (q, w)"
    if "set ls \<subseteq> set (open_lines orgId sid pid w)" for u uuid q ls
    using that by (induction ls) (use assms line in \<open>auto simp: list_all_iff\<close>)
  from this [OF set_take_subset] show ?thesis
    by (simp add: deliverShopGrantLines_def split: option.split)
qed

text \<open>A player with one completed donation of two items, for the witnesses.\<close>

definition sample_line :: "int \<Rightarrow> donationLine" where
  "sample_line attempts = \<lparr>l_id = ''l'', l_donationId = ''d'', l_shopItemId = None, l_itemName = ''Kit'', l_amountCents = 500,
     l_quantity = 1, l_grantItemName = None, l_grantQuantity = None,
     l_grantItems = grants_json [\<lparr>lg_name = ''diamond'', lg_quantity = 3, lg_status = ''pending'', lg_attempts = attempts, lg_error = None\<rparr>],
     l_grantStatus = ''pending'', l_grantQueuedAt = None, l_grantedAt = None, l_grantError = None\<rparr>"

definition sample_purchase :: "int \<Rightarrow> world" where
  "sample_purchase attempts = sample_world\<lparr>donationLines := [sample_line attempts],
     donations := [\<lparr>d_id = ''d'', d_orgId = ''o'', d_serverInstanceId = ''s1'', d_playerId = ''p'', d_steamId = ''mc:p'',
       d_amountCents = 500, d_currency = ''usd'', d_refundedCents = 0, d_status = ''completed'',
       d_stripeCheckoutSessionId = ''cs'', d_stripePaymentIntentId = None, d_shopItemId = None, d_completedAt = None,
       d_refundedAt = None, d_createdAt = 1\<rparr>]\<rparr>"

lemma sample_line_items:
  "line_items sample_env (sample_line a) = [\<lparr>lg_name = ''diamond'', lg_quantity = 3, lg_status = ''pending'',
     lg_attempts = (if 0 \<le> a then min a 99 else 0), lg_error = None\<rparr>]"
proof -
  have "parseGrantItemName (Str ''diamond'') = Some ''diamond''" by code_simp
  then show ?thesis
    by (simp add: line_items_def sample_line_def lineGrantItems_def grants_json_def lg_json_def line_row_def is_object_def
        name_raw_def quantity_raw_def field_def get_def coalesce_def nullish_def parseGrantQuantity_id
        MAX_GRANT_QUANTITY_def MAX_GRANT_ITEMS_def or_str_def map_filter_simps)
qed

theorem deliverShopGrantLines_owed_witness:
  "\<exists>js. jobs (deliverShopGrantLines sample_env ''o'' ''s1'' ''p'' ''Steve'' ''name:steve'' True 8 9 (sample_purchase 0)) = js \<and>
     length js = 1 \<and> distinct (map job_key js)"
proof -
  let ?w = "deliverShopGrantLines sample_env ''o'' ''s1'' ''p'' ''Steve'' ''name:steve'' True 8 9 (sample_purchase 0)"
  have a: "attempts_ok sample_env (sample_purchase 0)" "distinct (map l_id (donationLines (sample_purchase 0)))"
    by (simp_all add: attempts_ok_def sample_purchase_def sample_line_items tried_def MAX_GRANT_ATTEMPTS_def)
  have "jobs (sample_purchase 0) = []" by (simp add: sample_purchase_def sample_world_def empty_world_def)
  with deliverShopGrantLines_owed [OF a refl, of "''o''" "''s1''" "''p''" "''Steve''" "''name:steve''" True 8 9]
  have "distinct (map job_key (jobs ?w))" by auto
  moreover have "length (jobs ?w) = 1" by code_simp
  ultimately show ?thesis by blast
qed

end
