(* ===== verification/Triggers.thy ===== *)
theory Triggers
  imports Shop_Grants Job_Create
begin

text \<open>
  Rewards: control-plane/src/triggers/catalog.ts and triggers.service.ts. A trigger fires once
  per player and event key; the unique index (trigger, player, key) of the table of fires is
  the test \<open>find_fire\<close> before an insert. Listing triggers and fires is a plain query and
  is left out.

  Shown: an event crosses its threshold exactly once, a player never has two fires of one
  trigger and key, event keys are distinct for distinct thresholds, the attempts of a fire
  never exceed eight, and the jobs tables only grow by well formed jobs.
\<close>

section \<open>The catalog\<close>

definition TRIGGER_EVENT_FIRST_JOIN :: string where "TRIGGER_EVENT_FIRST_JOIN = ''player_first_join''"
definition TRIGGER_EVENT_PLAYTIME :: string where "TRIGGER_EVENT_PLAYTIME = ''player_playtime''"
definition TRIGGER_EVENT_DONATION_TOTAL :: string where "TRIGGER_EVENT_DONATION_TOTAL = ''player_donation_total''"
definition TRIGGER_ACTION_GRANT_ITEMS :: string where "TRIGGER_ACTION_GRANT_ITEMS = ''grant_items''"

definition parsePlaytimeConfig :: "js \<Rightarrow> int res" where
  "parsePlaytimeConfig raw =
     (let hours = to_num (field raw ''hours'') in
      if \<not> isInteger hours \<or> num_int hours < 1 \<or> num_int hours > 10000
      then Inl (Error ''Playtime must be a whole number of hours from 1 to 10000'')
      else Inr (num_int hours))"

definition parseDonationTotalConfig :: "js \<Rightarrow> int res" where
  "parseDonationTotalConfig raw =
     (let dollars = to_num (field raw ''dollars'') in
      if \<not> isInteger dollars \<or> num_int dollars < 1 \<or> num_int dollars > 500
      then Inl (Error ''Donation total must be a whole number of dollars from 1 to 500'')
      else Inr (num_int dollars))"

definition parseEventConfig :: "string \<Rightarrow> js \<Rightarrow> js res" where
  "parseEventConfig eventType raw =
     (if eventType = TRIGGER_EVENT_FIRST_JOIN then Inr (Obj [])
      else if eventType = TRIGGER_EVENT_PLAYTIME
        then (case parsePlaytimeConfig raw of Inl e \<Rightarrow> Inl e | Inr h \<Rightarrow> Inr (Obj [(''hours'', JInt h)]))
      else if eventType = TRIGGER_EVENT_DONATION_TOTAL
        then (case parseDonationTotalConfig raw of Inl e \<Rightarrow> Inl e | Inr d \<Rightarrow> Inr (Obj [(''dollars'', JInt d)]))
      else Inl (Error (''Unsupported trigger event: '' @ eventType)))"

definition eventKeyForFirstJoin :: string where "eventKeyForFirstJoin = ''first_join''"

definition eventKeyForPlaytime :: "int \<Rightarrow> string" where
  "eventKeyForPlaytime hours = ''playtime:'' @ int_str hours"

definition donationTotalCents :: "int \<Rightarrow> int" where "donationTotalCents dollars = dollars * 100"

definition eventKeyForDonationTotal :: "int \<Rightarrow> string" where
  "eventKeyForDonationTotal dollars = ''donation:'' @ int_str (donationTotalCents dollars)"

record grantAction =
  ga_items :: "grantItemSpec list"
  ga_notifyPlayer :: bool
  ga_message :: string

definition parseGrantItemsActionConfig :: "env \<Rightarrow> js \<Rightarrow> grantAction res" where
  "parseGrantItemsActionConfig E raw =
     (case parseGrantItemList (e_parseJson E) (field raw ''items'') of
        None \<Rightarrow> Inl (Error ''Each grant must be a Minecraft item id (e.g. diamond or minecraft:diamond), quantity 1-9999. Maximum 8 items.'')
      | Some items \<Rightarrow>
          if items = [] then Inl (Error ''Select at least one item to grant'')
          else (let message = (case field raw ''message'' of Str s \<Rightarrow> take 200 (trim s) | _ \<Rightarrow> [])
                in Inr \<lparr>ga_items = items, ga_notifyPlayer = (field raw ''notifyPlayer'' \<noteq> Bool False),
                        ga_message = or_str message ''You received a reward.''\<rparr>))"

definition playtimeHoursFromSeconds :: "int \<Rightarrow> int" where
  "playtimeHoursFromSeconds lifetimeSeconds = max 0 lifetimeSeconds div 3600"

definition crossedPlaytimeHours :: "int \<Rightarrow> int \<Rightarrow> int \<Rightarrow> bool" where
  "crossedPlaytimeHours previousSeconds nextSeconds hours =
     (let target = hours * 3600 in previousSeconds < target \<and> nextSeconds \<ge> target)"

definition crossedDonationTotalCents :: "int \<Rightarrow> int \<Rightarrow> int \<Rightarrow> bool" where
  "crossedDonationTotalCents previousCents nextCents dollars =
     (let target = donationTotalCents dollars in previousCents < target \<and> nextCents \<ge> target)"

definition spec_json :: "grantItemSpec \<Rightarrow> js" where
  "spec_json i = Obj [(''name'', Str (g_name i)), (''quantity'', JInt (g_quantity i))]"

definition action_json :: "grantAction \<Rightarrow> js" where
  "action_json a = Obj [(''items'', Arr (map spec_json (ga_items a))), (''notifyPlayer'', Bool (ga_notifyPlayer a)),
     (''message'', Str (ga_message a))]"

section \<open>Fires\<close>

record triggerPlayer =
  tp_id :: id
  tp_name :: string
  tp_steamId :: "string option"
  tp_identityKey :: string
  tp_online :: bool

definition as_trigger_player :: "player \<Rightarrow> triggerPlayer" where
  "as_trigger_player p = \<lparr>tp_id = p_id p, tp_name = p_name p, tp_steamId = p_steamId p,
     tp_identityKey = p_identityKey p, tp_online = p_online p\<rparr>"

definition find_fire :: "id \<Rightarrow> id \<Rightarrow> string \<Rightarrow> world \<Rightarrow> triggerFire option" where
  "find_fire triggerId playerId eventKey w =
     List.find (\<lambda>f. tf_triggerId f = triggerId \<and> tf_playerId f = playerId \<and> tf_eventKey f = eventKey)
       (triggerFires w)"

definition set_fire :: "id \<Rightarrow> (triggerFire \<Rightarrow> triggerFire) \<Rightarrow> world \<Rightarrow> world" where
  "set_fire i f w = w\<lparr>triggerFires := updateRow tf_id i f (triggerFires w)\<rparr>"

definition uuid_of :: "string \<Rightarrow> string option" where
  "uuid_of identityKey = (if startsWith identityKey ''uuid:'' then Some (drop 5 identityKey) else None)"

text \<open>\<open>s.replaceAll(p, r)\<close> for a non-empty pattern. In the replacement a doubled dollar stands
  for one dollar, a dollar before an ampersand for the match, before a backquote for what
  precedes it and before a single quote for what follows it; any other dollar is literal.\<close>

fun replacement :: "string \<Rightarrow> string \<Rightarrow> string \<Rightarrow> string \<Rightarrow> string" where
  "replacement before matched after (d # c # r) =
     (if d \<noteq> CHR ''$'' then d # replacement before matched after (c # r)
      else if c = CHR ''$'' then CHR ''$'' # replacement before matched after r
      else if c = CHR ''&'' then matched @ replacement before matched after r
      else if c = CHR 0x60 then before @ replacement before matched after r
      else if c = CHR 0x27 then after @ replacement before matched after r
      else d # replacement before matched after (c # r))"
| "replacement before matched after r = r"

function replace_from :: "string \<Rightarrow> string \<Rightarrow> string \<Rightarrow> string \<Rightarrow> string" where
  "replace_from before s p r =
     (if p = [] \<or> s = [] then s
      else if startsWith s p
      then replacement before p (drop (length p) s) r @ replace_from (before @ p) (drop (length p) s) p r
      else hd s # replace_from (before @ [hd s]) (tl s) p r)"
  by pat_completeness auto
termination
proof (relation "measure (\<lambda>(b, s, p, r). length s)", goal_cases)
  case (2 b s p r)
  then show ?case by (cases s; cases p) auto
next
  case (3 b s p r)
  then show ?case by (cases s) auto
qed simp

declare replace_from.simps [simp del]

definition replaceAll :: "string \<Rightarrow> string \<Rightarrow> string \<Rightarrow> string" where
  "replaceAll s p r = replace_from [] s p r"

definition hours_hint :: "string \<Rightarrow> string" where
  "hours_hint eventKey = (if startsWith eventKey ''playtime:'' then drop 9 eventKey else [])"

definition dollars_hint :: "string \<Rightarrow> string" where
  "dollars_hint eventKey =
     (if startsWith eventKey ''donation:'' then
        (case toNumber (drop 9 eventKey) of
           Fin q \<Rightarrow> if \<lfloor>q / 100\<rfloor> = 0 then [] else int_str \<lfloor>q / 100\<rfloor>
         | Infinite b \<Rightarrow> if b then ''Infinity'' else ''-Infinity''
         | NaN \<Rightarrow> [])
      else [])"

definition grant_payload ::
    "trigger \<Rightarrow> triggerPlayer \<Rightarrow> string \<Rightarrow> id option \<Rightarrow> grantAction \<Rightarrow> obj" where
  "grant_payload t p eventKey fireId action =
     [(''triggerId'', Str (t_id t)), (''triggerFireId'', opt_str fireId), (''playerId'', Str (tp_id p)),
      (''steamId'', opt_str (tp_steamId p)), (''identityKey'', Str (tp_identityKey p)),
      (''uuid'', js_opt (uuid_of (tp_identityKey p))), (''name'', Str (tp_name p)), (''player'', Str (tp_name p)),
      (''items'', Arr (map spec_json (ga_items action))), (''notifyPlayer'', Bool (ga_notifyPlayer action)),
      (''message'', Str (replaceAll (replaceAll (replaceAll (replaceAll (ga_message action) ''{name}'' (tp_name p))
          ''{hours}'' (hours_hint eventKey)) ''{dollars}'' (dollars_hint eventKey))
          ''{items}'' (formatGrantSummary (ga_items action))))]"

definition record_fire :: "trigger \<Rightarrow> triggerPlayer \<Rightarrow> string \<Rightarrow> ms \<Rightarrow> world \<Rightarrow> world" where
  "record_fire t p eventKey now w =
     (draw w)\<lparr>triggerFires := triggerFires w @
        [\<lparr>tf_id = next_id w, tf_triggerId = t_id t, tf_playerId = tp_id p, tf_eventKey = eventKey, tf_jobId = None,
          tf_status = (if tp_online p then ''queued'' else ''pending''), tf_attempts = 0, tf_lastError = None,
          tf_createdAt = now\<rparr>]\<rparr>"

text \<open>\<open>enqueueGrantItems\<close> after the fire row is settled: \<open>fireId\<close> is the row, if there is one.\<close>

definition deliver_fire ::
    "trigger \<Rightarrow> triggerPlayer \<Rightarrow> string \<Rightarrow> bool \<Rightarrow> grantAction \<Rightarrow> id option \<Rightarrow> ms \<Rightarrow> world \<Rightarrow> unit res \<times> world" where
  "deliver_fire t p eventKey recordFire action fireId now w =
     (if \<not> tp_online p then
        (Inr (), case fireId of None \<Rightarrow> w | Some i \<Rightarrow> set_fire i (\<lambda>f. f\<lparr>tf_status := ''pending''\<rparr>) w)
      else
        (case Option.bind fireId (\<lambda>i. findUnique tf_id i (triggerFires w)) of
           Some existing \<Rightarrow>
             if tf_attempts existing \<ge> MAX_GRANT_ATTEMPTS then
               (Inr (), set_fire (tf_id existing) (\<lambda>f. f\<lparr>tf_status := ''failed'',
                  tf_lastError := Some (or_str (opt_or (tf_lastError existing) []) ''Max grant attempts exceeded'')\<rparr>) w)
             else
               (case enqueueInternalJob (t_orgId t) (t_createdById t) (t_serverInstanceId t)
                       ''TRIGGER_GRANT_ITEMS'' (Some (grant_payload t p eventKey fireId action)) now w of
                  (Inl e, w1) \<Rightarrow> (Inl e, w1)
                | (Inr (jobId, _), w1) \<Rightarrow>
                    (let w2 = set_fire (tf_id existing) (\<lambda>f. f\<lparr>tf_jobId := Some jobId, tf_status := ''queued'',
                            tf_attempts := tf_attempts f + 1, tf_lastError := None\<rparr>) w1
                     in (Inr (), if recordFire
                           then w2\<lparr>triggers := updateRow t_id (t_id t) (\<lambda>x. x\<lparr>t_lastFiredAt := Some now,
                                  t_fireCount := t_fireCount x + 1\<rparr>) (triggers w2)\<rparr>
                           else w2)))
         | None \<Rightarrow>
             (case enqueueInternalJob (t_orgId t) (t_createdById t) (t_serverInstanceId t)
                     ''TRIGGER_GRANT_ITEMS'' (Some (grant_payload t p eventKey fireId action)) now w of
                (Inl e, w1) \<Rightarrow> (Inl e, w1)
              | (Inr _, w1) \<Rightarrow> (Inr (), w1))))"

definition enqueueGrantItems ::
    "env \<Rightarrow> trigger \<Rightarrow> triggerPlayer \<Rightarrow> string \<Rightarrow> bool \<Rightarrow> ms \<Rightarrow> world \<Rightarrow> unit res \<times> world" where
  "enqueueGrantItems E t p eventKey recordFire now w =
     (case parseGrantItemsActionConfig E (t_actionConfig t) of
        Inl e \<Rightarrow> (Inl e, w)
      | Inr action \<Rightarrow>
          if recordFire then
            (if find_fire (t_id t) (tp_id p) eventKey w \<noteq> None then (Inr (), w)
             else deliver_fire t p eventKey True action (Some (next_id w)) now (record_fire t p eventKey now w))
          else deliver_fire t p eventKey False action
                 (map_option tf_id (find_fire (t_id t) (tp_id p) eventKey w)) now w)"

definition fireOnce :: "env \<Rightarrow> trigger \<Rightarrow> triggerPlayer \<Rightarrow> string \<Rightarrow> ms \<Rightarrow> world \<Rightarrow> unit res \<times> world" where
  "fireOnce E t p eventKey now w =
     (if find_fire (t_id t) (tp_id p) eventKey w \<noteq> None then (Inr (), w)
      else enqueueGrantItems E t p eventKey True now w)"

text \<open>A loop whose body's exceptions are ignored (\<open>.catch(() => undefined)\<close>).\<close>

definition fire_all ::
    "env \<Rightarrow> ms \<Rightarrow> world \<Rightarrow> (trigger \<times> triggerPlayer \<times> string) list \<Rightarrow> world" where
  "fire_all E now w xs = foldl (\<lambda>w (t, p, k). snd (fireOnce E t p k now w)) w xs"

definition enabled_triggers :: "id \<Rightarrow> id \<Rightarrow> string \<Rightarrow> world \<Rightarrow> trigger list" where
  "enabled_triggers orgId serverInstanceId eventType w =
     filter (\<lambda>t. t_orgId t = orgId \<and> t_serverInstanceId t = serverInstanceId \<and> t_enabled t \<and>
       t_eventType t = eventType) (triggers w)"

definition evaluateFirstJoin :: "env \<Rightarrow> id \<Rightarrow> id \<Rightarrow> triggerPlayer \<Rightarrow> ms \<Rightarrow> world \<Rightarrow> world" where
  "evaluateFirstJoin E orgId serverInstanceId p now w =
     fire_all E now w (map (\<lambda>t. (t, p, eventKeyForFirstJoin))
       (enabled_triggers orgId serverInstanceId TRIGGER_EVENT_FIRST_JOIN w))"

definition playtime_event :: "int \<Rightarrow> int \<Rightarrow> trigger \<Rightarrow> string option" where
  "playtime_event previous next t =
     (case parsePlaytimeConfig (t_eventConfig t) of Inl _ \<Rightarrow> None
      | Inr hours \<Rightarrow> if crossedPlaytimeHours previous next hours then Some (eventKeyForPlaytime hours) else None)"

definition donation_event :: "int \<Rightarrow> int \<Rightarrow> trigger \<Rightarrow> string option" where
  "donation_event previous next t =
     (case parseDonationTotalConfig (t_eventConfig t) of Inl _ \<Rightarrow> None
      | Inr dollars \<Rightarrow> if crossedDonationTotalCents previous next dollars
                       then Some (eventKeyForDonationTotal dollars) else None)"

definition due_events :: "(trigger \<Rightarrow> string option) \<Rightarrow> triggerPlayer \<Rightarrow> trigger list \<Rightarrow> (trigger \<times> triggerPlayer \<times> string) list" where
  "due_events ev p ts = List.map_filter (\<lambda>t. map_option (\<lambda>k. (t, p, k)) (ev t)) ts"

definition evaluatePlaytime :: "env \<Rightarrow> id \<Rightarrow> id \<Rightarrow> triggerPlayer \<Rightarrow> int \<Rightarrow> int \<Rightarrow> ms \<Rightarrow> world \<Rightarrow> world" where
  "evaluatePlaytime E orgId serverInstanceId p previous next now w =
     fire_all E now w (due_events (playtime_event previous next) p
       (enabled_triggers orgId serverInstanceId TRIGGER_EVENT_PLAYTIME w))"

definition evaluateDonationTotal :: "env \<Rightarrow> id \<Rightarrow> id \<Rightarrow> triggerPlayer \<Rightarrow> int \<Rightarrow> int \<Rightarrow> ms \<Rightarrow> world \<Rightarrow> world" where
  "evaluateDonationTotal E orgId serverInstanceId p previous next now w =
     fire_all E now w (due_events (donation_event previous next) p
       (enabled_triggers orgId serverInstanceId TRIGGER_EVENT_DONATION_TOTAL w))"

definition completeItemGrant :: "obj \<Rightarrow> bool \<Rightarrow> string \<Rightarrow> world \<Rightarrow> world" where
  "completeItemGrant payload success output w =
     (let fireId = str_of (get payload ''triggerFireId'') in
      if fireId = [] then w
      else (case findUnique tf_id fireId (triggerFires w) of
              None \<Rightarrow> w
            | Some fire \<Rightarrow>
                (let outcome = classifyGrantOutput output success;
                     errText = or_null (take 500 (trim output))
                 in if outcome = Delivered
                    then set_fire fireId (\<lambda>f. f\<lparr>tf_status := ''delivered'', tf_lastError := None\<rparr>) w
                    else if outcome = FailedGrant \<or> tf_attempts fire \<ge> MAX_GRANT_ATTEMPTS
                    then set_fire fireId (\<lambda>f. f\<lparr>tf_status := ''failed'', tf_lastError := errText\<rparr>) w
                    else set_fire fireId (\<lambda>f. f\<lparr>tf_status := ''pending'', tf_lastError := errText\<rparr>) w)))"

definition grant_trigger :: "triggerFire \<Rightarrow> world \<Rightarrow> trigger option" where
  "grant_trigger f w =
     (case findUnique t_id (tf_triggerId f) (triggers w) of
        Some t \<Rightarrow> if t_enabled t \<and> t_actionType t = TRIGGER_ACTION_GRANT_ITEMS then Some t else None
      | None \<Rightarrow> None)"

text \<open>The rows of a query over fires, each with its trigger and player as they were read.\<close>

definition due_fires :: "(triggerFire \<Rightarrow> trigger \<Rightarrow> player \<Rightarrow> bool) \<Rightarrow> world \<Rightarrow> (trigger \<times> triggerPlayer \<times> string) list" where
  "due_fires q w =
     List.map_filter (\<lambda>f. case (grant_trigger f w, findUnique p_id (tf_playerId f) (players w)) of
         (Some t, Some p) \<Rightarrow>
           if tf_status f = ''pending'' \<and> tf_attempts f < MAX_GRANT_ATTEMPTS \<and> q f t p
           then Some (t, as_trigger_player p, tf_eventKey f) else None
       | _ \<Rightarrow> None) (triggerFires w)"

definition retry_all :: "env \<Rightarrow> ms \<Rightarrow> world \<Rightarrow> (trigger \<times> triggerPlayer \<times> string) list \<Rightarrow> world" where
  "retry_all E now w xs = foldl (\<lambda>w (t, p, k). snd (enqueueGrantItems E t p k False now w)) w xs"

definition release_stale :: "id \<Rightarrow> id \<Rightarrow> ms \<Rightarrow> world \<Rightarrow> world" where
  "release_stale orgId serverInstanceId now w =
     w\<lparr>triggerFires := updateMany (\<lambda>f. tf_status f = ''queued'' \<and> tf_attempts f < MAX_GRANT_ATTEMPTS \<and>
          tf_createdAt f < now - 5 * 60000 \<and>
          (case grant_trigger f w of None \<Rightarrow> False
           | Some t \<Rightarrow> t_orgId t = orgId \<and> t_serverInstanceId t = serverInstanceId))
        (\<lambda>f. f\<lparr>tf_status := ''pending'', tf_lastError := Some ''Stale queued grant; will retry''\<rparr>) (triggerFires w)\<rparr>"

definition retryPendingItemGrants :: "env \<Rightarrow> id \<Rightarrow> id \<Rightarrow> ms \<Rightarrow> world \<Rightarrow> world" where
  "retryPendingItemGrants E orgId serverInstanceId now w =
     (let w1 = release_stale orgId serverInstanceId now w
      in retry_all E now w1 (take 32 (due_fires (\<lambda>f t p. t_orgId t = orgId \<and>
           t_serverInstanceId t = serverInstanceId \<and> p_online p) w1)))"

definition retryPendingItemGrantsForPlayer :: "env \<Rightarrow> id \<Rightarrow> ms \<Rightarrow> world \<Rightarrow> world" where
  "retryPendingItemGrantsForPlayer E playerId now w =
     retry_all E now w (take 16 (due_fires (\<lambda>f t p. tf_playerId f = playerId) w))"

definition backfill_players :: "trigger \<Rightarrow> (player \<Rightarrow> bool) \<Rightarrow> world \<Rightarrow> triggerPlayer list" where
  "backfill_players t q w =
     map as_trigger_player (take 500 (filter (\<lambda>p. p_orgId p = t_orgId t \<and>
       p_serverInstanceId p = t_serverInstanceId t \<and> q p) (players w)))"

definition backfillTrigger :: "env \<Rightarrow> trigger \<Rightarrow> ms \<Rightarrow> world \<Rightarrow> world" where
  "backfillTrigger E t now w =
     (if t_eventType t = TRIGGER_EVENT_FIRST_JOIN then
        fire_all E now w (map (\<lambda>p. (t, p, eventKeyForFirstJoin)) (backfill_players t (\<lambda>_. True) w))
      else if t_eventType t = TRIGGER_EVENT_PLAYTIME then
        (case parsePlaytimeConfig (t_eventConfig t) of Inl _ \<Rightarrow> w
         | Inr hours \<Rightarrow> fire_all E now w (map (\<lambda>p. (t, p, eventKeyForPlaytime hours))
             (backfill_players t (\<lambda>p. p_lifetimeSeconds p \<ge> hours * 3600) w)))
      else if t_eventType t = TRIGGER_EVENT_DONATION_TOTAL then
        (case parseDonationTotalConfig (t_eventConfig t) of Inl _ \<Rightarrow> w
         | Inr dollars \<Rightarrow> fire_all E now w (map (\<lambda>p. (t, p, eventKeyForDonationTotal dollars))
             (backfill_players t (\<lambda>p. p_totalDonatedCents p \<ge> dollars * 100) w)))
      else w)"

definition exn_message :: "exn \<Rightarrow> string" where
  "exn_message e = (case e of Error m \<Rightarrow> m | BadRequestException m \<Rightarrow> m | _ \<Rightarrow> ''Invalid trigger config'')"

definition createTrigger ::
    "env \<Rightarrow> id \<Rightarrow> id \<Rightarrow> string \<Rightarrow> id \<Rightarrow> bool option \<Rightarrow> string \<Rightarrow> js \<Rightarrow> string \<Rightarrow> js \<Rightarrow> bool \<Rightarrow> ms \<Rightarrow> world
       \<Rightarrow> trigger res \<times> world" where
  "createTrigger E orgId userId name0 serverInstanceId enabled eventType eventConfig0 actionType actionConfig0
      applyToExisting now w =
     (let name = trim name0 in
      if name = [] \<or> 80 < length name
        then (Inl (BadRequestException ''Name is required (max 80 characters)''), w)
      else if eventType \<notin> {TRIGGER_EVENT_FIRST_JOIN, TRIGGER_EVENT_PLAYTIME, TRIGGER_EVENT_DONATION_TOTAL}
        then (Inl (BadRequestException ''Unsupported trigger event''), w)
      else if actionType \<noteq> TRIGGER_ACTION_GRANT_ITEMS
        then (Inl (BadRequestException ''Unsupported trigger action''), w)
      else (case find_server serverInstanceId orgId w of
              None \<Rightarrow> (Inl (NotFoundException ''Server instance not found''), w)
            | Some server \<Rightarrow>
                (case parseEventConfig eventType eventConfig0 of
                   Inl e \<Rightarrow> (Inl (BadRequestException (exn_message e)), w)
                 | Inr eventConfig \<Rightarrow>
                     (case parseGrantItemsActionConfig E actionConfig0 of
                        Inl e \<Rightarrow> (Inl (BadRequestException (exn_message e)), w)
                      | Inr action \<Rightarrow>
                          (let t = \<lparr>t_id = next_id w, t_orgId = orgId, t_serverInstanceId = si_id server,
                                 t_name = name, t_enabled = opt_or enabled True, t_eventType = eventType,
                                 t_eventConfig = eventConfig, t_actionType = TRIGGER_ACTION_GRANT_ITEMS,
                                 t_actionConfig = action_json action, t_applyToExisting = applyToExisting,
                                 t_lastFiredAt = None, t_fireCount = 0, t_createdById = Some userId,
                                 t_createdAt = now\<rparr>;
                               w1 = (draw w)\<lparr>triggers := triggers w @ [t]\<rparr>
                           in (Inr t, if t_applyToExisting t \<and> t_enabled t
                                then backfillTrigger E t now w1 else w1))))))"

definition find_trigger :: "id \<Rightarrow> id \<Rightarrow> world \<Rightarrow> trigger option" where
  \<comment> \<open>\<open>requireTrigger\<close>\<close>
  "find_trigger i orgId w = List.find (\<lambda>t. t_id t = i \<and> t_orgId t = orgId) (triggers w)"

definition updateTrigger ::
    "env \<Rightarrow> id \<Rightarrow> id \<Rightarrow> bool \<Rightarrow> string option \<Rightarrow> bool option \<Rightarrow> ms \<Rightarrow> world \<Rightarrow> trigger res \<times> world" where
  \<comment> \<open>\<open>other\<close>: the input has a field besides name and enabled\<close>
  "updateTrigger E orgId i other name0 enabled now w =
     (case find_trigger i orgId w of
        None \<Rightarrow> (Inl (NotFoundException ''Trigger not found''), w)
      | Some current \<Rightarrow>
          if other then (Inl (BadRequestException
              ''Edit name or enabled only; recreate the trigger to change event or grants''), w)
          else if (case name0 of None \<Rightarrow> False | Some n \<Rightarrow> trim n = [] \<or> 80 < length (trim n))
          then (Inl (BadRequestException ''Name is required (max 80 characters)''), w)
          else if name0 = None \<and> enabled = None then (Inr current, w)
          else (let f = (\<lambda>t. t\<lparr>t_name := (case name0 of None \<Rightarrow> t_name t | Some n \<Rightarrow> trim n),
                        t_enabled := opt_or enabled (t_enabled t)\<rparr>);
                    w1 = w\<lparr>triggers := updateRow t_id i f (triggers w)\<rparr>
                in (Inr (f current),
                    if \<not> t_enabled current \<and> t_enabled (f current) \<and> t_applyToExisting (f current)
                    then backfillTrigger E (f current) now w1 else w1)))"

definition removeTrigger :: "id \<Rightarrow> id \<Rightarrow> world \<Rightarrow> unit res \<times> world" where
  \<comment> \<open>deleting a trigger deletes its fires (\<open>onDelete: Cascade\<close>)\<close>
  "removeTrigger orgId i w =
     (case find_trigger i orgId w of
        None \<Rightarrow> (Inl (NotFoundException ''Trigger not found''), w)
      | Some _ \<Rightarrow> (Inr (), w\<lparr>triggers := deleteMany (\<lambda>t. t_id t = i) (triggers w),
            triggerFires := deleteMany (\<lambda>f. tf_triggerId f = i) (triggerFires w)\<rparr>))"

section \<open>What firing keeps\<close>

definition tf_key :: "triggerFire \<Rightarrow> id \<times> id \<times> string" where
  "tf_key f = (tf_triggerId f, tf_playerId f, tf_eventKey f)"

definition fires_inv :: "world \<Rightarrow> bool" where
  "fires_inv w \<longleftrightarrow> inj (idgen w) \<and> distinct (map tf_key (triggerFires w)) \<and>
     distinct (map tf_id (triggerFires w)) \<and> list_all (drawn w) (map tf_id (triggerFires w)) \<and>
     list_all (\<lambda>f. 0 \<le> tf_attempts f \<and> tf_attempts f \<le> MAX_GRANT_ATTEMPTS) (triggerFires w)"

text \<open>Fires are never dropped, and the invariant of their table is kept.\<close>

definition fires_le :: "world \<Rightarrow> world \<Rightarrow> bool" where
  "fires_le w w' \<longleftrightarrow> (fires_inv w \<longrightarrow> fires_inv w') \<and>
     set (map tf_key (triggerFires w)) \<subseteq> set (map tf_key (triggerFires w'))"

interpretation firing: state_preorder fires_le
  by unfold_locales (auto simp: fires_le_def)

lemma fires_le_frame:
  "triggerFires w' = triggerFires w \<Longrightarrow> idgen w' = idgen w \<Longrightarrow> idctr w \<le> idctr w' \<Longrightarrow> fires_le w w'"
  using drawn_mono [of w' w] by (auto simp: fires_le_def fires_inv_def list_all_iff)

lemma set_fire_le:
  assumes "\<And>f. tf_key (g f) = tf_key f" "\<And>f. tf_id (g f) = tf_id f"
    and "\<And>f. f \<in> set (triggerFires w) \<Longrightarrow> tf_id f = i \<Longrightarrow> fires_inv w \<Longrightarrow>
      0 \<le> tf_attempts (g f) \<and> tf_attempts (g f) \<le> MAX_GRANT_ATTEMPTS"
  shows "fires_le w (set_fire i g w)"
proof -
  have "set (map tf_key (updateRow tf_id i g (triggerFires w))) = set (map tf_key (triggerFires w))"
    using assms(1) by (metis map_updateRow)
  moreover have "fires_inv (set_fire i g w)" if inv: "fires_inv w"
  proof -
    have "0 \<le> tf_attempts f \<and> tf_attempts f \<le> MAX_GRANT_ATTEMPTS"
      if "f \<in> set (updateRow tf_id i g (triggerFires w))" for f
      using in_updateRow [OF that] assms(3) inv by (auto simp: fires_inv_def list_all_iff)
    with inv assms(1,2) show ?thesis
      by (simp add: fires_inv_def set_fire_def map_updateRow drawn_def [abs_def] list_all_iff)
  qed
  ultimately show ?thesis by (simp add: fires_le_def set_fire_def)
qed

lemma set_fire_same_jobs: "same_jobs w (set_fire i g w)"
  by (simp add: set_fire_def same_jobs_def)

lemma record_fire_le:
  assumes "find_fire (t_id t) (tp_id p) k w = None"
  shows "fires_le w (record_fire t p k now w)"
proof -
  have "(t_id t, tp_id p, k) \<notin> tf_key ` set (triggerFires w)"
    using assms by (auto simp: find_fire_def find_None_set tf_key_def)
  moreover have "drawn (record_fire t p k now w) i \<longleftrightarrow> drawn w i \<or> i = next_id w" for i
    using drawn_draw [of w i] by (simp add: record_fire_def drawn_def)
  moreover have "next_id w \<notin> tf_id ` set (triggerFires w)" if "fires_inv w"
    using that next_id_fresh [of w] by (auto simp: fires_inv_def list_all_iff)
  ultimately show ?thesis
    unfolding fires_le_def fires_inv_def
    by (auto simp: record_fire_def tf_key_def list_all_iff MAX_GRANT_ATTEMPTS_def)
qed

lemma record_fire_same_jobs: "same_jobs w (record_fire t p k now w)"
  by (simp add: record_fire_def same_jobs_def draw_def)

lemma enqueueInternalJob_frame:
  assumes "enqueueInternalJob orgId u sid jt p now w = (r, w')"
  shows "triggerFires w' = triggerFires w" "triggers w' = triggers w" "players w' = players w"
    "serverInstances w' = serverInstances w" "donations w' = donations w" "playerSessions w' = playerSessions w"
    "donationLines w' = donationLines w" "idgen w' = idgen w" "idctr w \<le> idctr w'"
    "schedules w' = schedules w" "hosts w' = hosts w"
  using assms
  by (auto simp: enqueueInternalJob_def dispatch_def create_job_def create_run_def addJob_def enqueue_def
      draw_def Let_def split: option.splits prod.splits)

lemma enqueueInternalJob_fires: "fires_le w (snd (enqueueInternalJob orgId u sid jt p now w))"
proof (cases "enqueueInternalJob orgId u sid jt p now w")
  case (Pair r w')
  with enqueueInternalJob_frame [OF Pair] show ?thesis by (intro fires_le_frame) simp_all
qed

text \<open>Rewards touch neither players and their sessions nor donations nor servers.\<close>

definition same_ledger :: "world \<Rightarrow> world \<Rightarrow> bool" where
  "same_ledger w w' \<longleftrightarrow> players w' = players w \<and> playerSessions w' = playerSessions w \<and>
     donations w' = donations w \<and> donationLines w' = donationLines w \<and>
     serverInstances w' = serverInstances w \<and> hosts w' = hosts w \<and> schedules w' = schedules w"

interpretation same_ledger: state_preorder same_ledger
  by unfold_locales (auto simp: same_ledger_def)

definition reward_le :: "world \<Rightarrow> world \<Rightarrow> bool" where
  "reward_le w w' \<longleftrightarrow> jobs_ext w w' \<and> fires_le w w' \<and> same_ledger w w'"

interpretation reward: state_preorder reward_le
  by unfold_locales
    (auto simp: reward_le_def appending.refl_R firing.refl_R same_ledger.refl_R
       intro: appending.trans_R firing.trans_R same_ledger.trans_R)

lemma set_fire_reward:
  assumes "\<And>f. tf_key (g f) = tf_key f" "\<And>f. tf_id (g f) = tf_id f"
    and "\<And>f. f \<in> set (triggerFires w) \<Longrightarrow> tf_id f = i \<Longrightarrow> fires_inv w \<Longrightarrow>
      0 \<le> tf_attempts (g f) \<and> tf_attempts (g f) \<le> MAX_GRANT_ATTEMPTS"
  shows "reward_le w (set_fire i g w)"
  unfolding reward_le_def
  using set_fire_le [of g w i] assms same_jobs_ext [OF set_fire_same_jobs]
  by (simp add: same_ledger_def) (simp add: set_fire_def)

lemma set_fire_keep:
  assumes "\<And>f. tf_key (g f) = tf_key f" "\<And>f. tf_id (g f) = tf_id f" "\<And>f. tf_attempts (g f) = tf_attempts f"
  shows "reward_le w (set_fire i g w)"
  using assms by (intro set_fire_reward) (auto simp: fires_inv_def list_all_iff)

lemma enqueueInternalJob_reward: "reward_le w (snd (enqueueInternalJob orgId u sid jt p now w))"
proof (cases "enqueueInternalJob orgId u sid jt p now w")
  case (Pair r w')
  then show ?thesis
    using enqueueInternalJob_frame [OF Pair] enqueueInternalJob_ext [of w orgId u sid jt p now]
      enqueueInternalJob_fires [of w orgId u sid jt p now]
    by (simp add: reward_le_def same_ledger_def)
qed

lemma triggers_upd_reward: "reward_le w (w\<lparr>triggers := ts\<rparr>)"
  unfolding reward_le_def
  by (intro conjI same_jobs_ext fires_le_frame) (simp_all add: same_jobs_def same_ledger_def)

lemma queue_fire_reward:
  assumes "findUnique tf_id i (triggerFires w) = Some x" and "tf_attempts x < MAX_GRANT_ATTEMPTS"
  shows "reward_le w (set_fire i (\<lambda>f. f\<lparr>tf_jobId := j, tf_status := st, tf_attempts := tf_attempts f + 1,
    tf_lastError := e\<rparr>) w)"
proof (rule set_fire_reward)
  fix f assume f: "f \<in> set (triggerFires w)" "tf_id f = i" and inv: "fires_inv w"
  then have "f = x"
    using assms(1) findUnique_unique [of tf_id "triggerFires w" f] by (simp add: fires_inv_def)
  with f assms(2) inv show "0 \<le> tf_attempts (f\<lparr>tf_jobId := j, tf_status := st, tf_attempts := tf_attempts f + 1,
      tf_lastError := e\<rparr>) \<and> tf_attempts (f\<lparr>tf_jobId := j, tf_status := st, tf_attempts := tf_attempts f + 1,
      tf_lastError := e\<rparr>) \<le> MAX_GRANT_ATTEMPTS"
    by (auto simp: fires_inv_def list_all_iff)
qed (simp_all add: tf_key_def)

lemma deliver_fire_reward: "reward_le w (snd (deliver_fire t p k b action fireId now w))"
proof (cases "tp_online p")
  case False
  then show ?thesis
    by (auto simp: deliver_fire_def reward.refl_R tf_key_def intro!: set_fire_keep split: option.split)
next
  case True
  let ?enq = "enqueueInternalJob (t_orgId t) (t_createdById t) (t_serverInstanceId t)
      ''TRIGGER_GRANT_ITEMS'' (Some (grant_payload t p k fireId action)) now w"
  obtain r w1 where enq: "?enq = (r, w1)" by fastforce
  note le1 = enqueueInternalJob_reward [of w "t_orgId t" "t_createdById t" "t_serverInstanceId t"
      "''TRIGGER_GRANT_ITEMS''" "Some (grant_payload t p k fireId action)" now, unfolded enq snd_conv]
  show ?thesis
  proof (cases "Option.bind fireId (\<lambda>i. findUnique tf_id i (triggerFires w))")
    case None
    with True enq le1 show ?thesis by (cases r) (auto simp: deliver_fire_def)
  next
    case (Some x)
    then have x: "findUnique tf_id (tf_id x) (triggerFires w) = Some x"
      by (cases fireId) (auto dest: findUnique_Some)
    show ?thesis
    proof (cases "tf_attempts x \<ge> MAX_GRANT_ATTEMPTS")
      case True
      with Some \<open>tp_online p\<close> show ?thesis
        by (auto simp: deliver_fire_def tf_key_def intro!: set_fire_keep)
    next
      case False
      with x enqueueInternalJob_frame(1) [OF enq] have q: "reward_le w1 (set_fire (tf_id x)
          (\<lambda>f. f\<lparr>tf_jobId := j, tf_status := ''queued'', tf_attempts := tf_attempts f + 1, tf_lastError := None\<rparr>) w1)" for j
        by (intro queue_fire_reward [of _ _ x]) simp_all
      show ?thesis
      proof (cases r)
        case (Inl e)
        with True Some False enq le1 show ?thesis by (simp add: deliver_fire_def)
      next
        case (Inr ids)
        with True Some False enq show ?thesis
          using reward.trans_R [OF le1 q] reward.trans_R [OF _ triggers_upd_reward]
          by (cases ids) (auto simp: deliver_fire_def Let_def)
      qed
    qed
  qed
qed

lemma enqueueGrantItems_reward: "reward_le w (snd (enqueueGrantItems E t p k b now w))"
proof -
  have "reward_le w (record_fire t p k now w)" if "find_fire (t_id t) (tp_id p) k w = None"
    unfolding reward_le_def using that record_fire_le same_jobs_ext [OF record_fire_same_jobs]
    by (simp add: same_ledger_def) (simp add: record_fire_def draw_def)
  then show ?thesis
    using deliver_fire_reward reward.trans_R
    by (auto simp: enqueueGrantItems_def reward.refl_R split: sum.split)
qed

lemma fireOnce_reward: "reward_le w (snd (fireOnce E t p k now w))"
  by (simp add: fireOnce_def reward.refl_R enqueueGrantItems_reward)

lemma fire_all_reward: "reward_le w (fire_all E now w xs)"
  unfolding fire_all_def by (intro reward.foldl_R) (auto simp: fireOnce_reward)

lemma retry_all_reward: "reward_le w (retry_all E now w xs)"
  unfolding retry_all_def by (intro reward.foldl_R) (auto simp: enqueueGrantItems_reward)

lemma release_stale_reward: "reward_le w (release_stale orgId sid now w)"
proof -
  let ?g = "\<lambda>f. f\<lparr>tf_status := ''pending'', tf_lastError := Some ''Stale queued grant; will retry''\<rparr>"
  have m: "map tf_key (updateMany P ?g fs) = map tf_key fs" "map tf_id (updateMany P ?g fs) = map tf_id fs"
    "map tf_attempts (updateMany P ?g fs) = map tf_attempts fs" for P fs
    by (simp_all add: map_updateMany tf_key_def)
  have att: "list_all (\<lambda>f. 0 \<le> tf_attempts f \<and> tf_attempts f \<le> MAX_GRANT_ATTEMPTS) fs =
      list_all (\<lambda>n. 0 \<le> n \<and> n \<le> MAX_GRANT_ATTEMPTS) (map tf_attempts fs)" for fs
    by (simp add: list_all_iff)
  have "fires_le w (release_stale orgId sid now w)"
    unfolding fires_le_def fires_inv_def release_stale_def att
    by (simp add: m drawn_def [abs_def] del: set_map map_map)
  then show ?thesis
    unfolding reward_le_def 
    by (intro conjI same_jobs_ext) (simp_all add: release_stale_def same_jobs_def same_ledger_def)
qed

lemmas evaluate_defs = evaluateFirstJoin_def evaluatePlaytime_def evaluateDonationTotal_def

lemma evaluate_reward:
  "reward_le w (evaluateFirstJoin E o' s p now w)"
  "reward_le w (evaluatePlaytime E o' s p a b now w)"
  "reward_le w (evaluateDonationTotal E o' s p a b now w)"
  by (simp_all add: evaluate_defs fire_all_reward)

lemma retry_reward:
  "reward_le w (retryPendingItemGrants E o' s now w)"
  "reward_le w (retryPendingItemGrantsForPlayer E pid now w)"
  using reward.trans_R [OF release_stale_reward retry_all_reward]
  by (auto simp: retryPendingItemGrants_def retryPendingItemGrantsForPlayer_def Let_def retry_all_reward)

lemma completeItemGrant_reward: "reward_le w (completeItemGrant payload ok out w)"
  by (auto simp: completeItemGrant_def Let_def reward.refl_R tf_key_def intro!: set_fire_keep split: option.split)

lemma backfill_reward: "reward_le w (backfillTrigger E t now w)"
  by (auto simp: backfillTrigger_def fire_all_reward reward.refl_R split: sum.split)

section \<open>Properties of triggers\<close>

text \<open>Consecutive pairs of a list of totals.\<close>

fun crossings :: "(int \<Rightarrow> int \<Rightarrow> bool) \<Rightarrow> int list \<Rightarrow> nat" where
  "crossings cross (a # b # xs) = (if cross a b then 1 else 0) + crossings cross (b # xs)"
| "crossings cross _ = 0"

lemma crossings_sorted:
  "sorted xs \<Longrightarrow> xs \<noteq> [] \<Longrightarrow>
     crossings (\<lambda>a b. a < t \<and> t \<le> b) xs = (if hd xs < t \<and> t \<le> last xs then 1 else 0)"
proof (induction "\<lambda>a b :: int. a < t \<and> t \<le> b" xs rule: crossings.induct)
  case (1 a b xs)
  then have IH: "crossings (\<lambda>a b. a < t \<and> t \<le> b) (b # xs) = (if b < t \<and> t \<le> last (b # xs) then 1 else 0)"
    by simp
  have "a \<le> b" "b \<le> last (b # xs)" using 1(2) by auto
  with IH show ?case by auto
qed auto

text \<open>A milestone is crossed exactly once. Along any sequence of growing totals, playtime or
  donated, the number of updates at which a threshold counts as crossed is one when the first
  total is below and the last at or above it, and zero otherwise.\<close>

lemma milestone_crossed_once:
  assumes "sorted totals" and "totals \<noteq> []"
  shows "crossings (\<lambda>a b. crossedPlaytimeHours a b hours) totals =
      (if hd totals < hours * 3600 \<and> hours * 3600 \<le> last totals then 1 else 0) \<and>
    crossings (\<lambda>a b. crossedDonationTotalCents a b dollars) totals =
      (if hd totals < dollars * 100 \<and> dollars * 100 \<le> last totals then 1 else 0)"
  using crossings_sorted [OF assms, of "hours * 3600"] crossings_sorted [OF assms, of "dollars * 100"]
  by (simp add: crossedPlaytimeHours_def crossedDonationTotalCents_def donationTotalCents_def Let_def)

text \<open>Event keys tell milestones apart: two playtime or two donation milestones have the same
  key only when they are the same, and keys of different kinds never agree.\<close>

lemma event_keys_injective:
  "(eventKeyForPlaytime h = eventKeyForPlaytime h' \<longleftrightarrow> h = h') \<and>
   (eventKeyForDonationTotal d = eventKeyForDonationTotal d' \<longleftrightarrow> d = d') \<and>
   eventKeyForPlaytime h \<noteq> eventKeyForDonationTotal d \<and>
   eventKeyForPlaytime h \<noteq> eventKeyForFirstJoin \<and> eventKeyForDonationTotal d \<noteq> eventKeyForFirstJoin"
  using int_str_inj [of h h'] int_str_inj [of "d * 100" "d' * 100"]
  by (auto simp: eventKeyForPlaytime_def eventKeyForDonationTotal_def eventKeyForFirstJoin_def donationTotalCents_def)

lemma find_fire_key: "find_fire t p k w \<noteq> None \<longleftrightarrow> (t, p, k) \<in> set (map tf_key (triggerFires w))"
  by (auto simp: find_fire_def find_None_set tf_key_def image_iff)

lemma distinct_filter_one:
  "distinct (map key xs) \<Longrightarrow> \<exists>x \<in> set xs. key x = k \<Longrightarrow> length (filter (\<lambda>x. key x = k) xs) = 1"
proof (induction xs)
  case (Cons a xs)
  show ?case
  proof (cases "key a = k")
    case True
    with Cons.prems(1) have "k \<notin> key ` set xs" by simp
    then have "filter (\<lambda>x. key x = k) xs = []"
      unfolding filter_empty_conv by (metis imageI)
    with True show ?thesis by simp
  next
    case False
    with Cons show ?thesis by auto
  qed
qed simp

lemma fireOnce_recorded:
  assumes "parseGrantItemsActionConfig E (t_actionConfig t) = Inr action"
  shows "find_fire (t_id t) (tp_id p) k (snd (fireOnce E t p k now w)) \<noteq> None"
proof (cases "find_fire (t_id t) (tp_id p) k w")
  case None
  have "(t_id t, tp_id p, k) \<in> set (map tf_key (triggerFires (record_fire t p k now w)))"
    by (simp add: record_fire_def tf_key_def)
  moreover have "fires_le (record_fire t p k now w)
      (snd (deliver_fire t p k True action (Some (next_id w)) now (record_fire t p k now w)))"
    using deliver_fire_reward by (simp add: reward_le_def)
  ultimately show ?thesis
    using None assms unfolding find_fire_key by (auto simp: fireOnce_def enqueueGrantItems_def fires_le_def)
next
  case (Some f)
  then show ?thesis by (simp add: fireOnce_def)
qed

text \<open>C22: a reward fires once per player and milestone. Once a trigger with a valid action has
  fired for a player and event key, firing it again changes nothing at all; and the table of
  fires never holds two rows for the same trigger, player and key, whatever the events, nor a
  fire with more than eight delivery attempts.\<close>

theorem fireOnce_exactly_once:
  assumes "parseGrantItemsActionConfig E (t_actionConfig t) = Inr action" and "fires_inv w"
    and w'_def: "w' = snd (fireOnce E t p k now w)"
  shows "snd (fireOnce E t p k later w') = w' \<and> fires_inv w' \<and>
    length (filter (\<lambda>f. tf_key f = (t_id t, tp_id p, k)) (triggerFires w')) = 1"
proof -
  have rec: "find_fire (t_id t) (tp_id p) k w' \<noteq> None"
    using fireOnce_recorded [OF assms(1)] by (simp add: w'_def)
  have inv: "fires_inv w'"
    using fireOnce_reward [of w E t p k now] assms(2) by (simp add: w'_def reward_le_def fires_le_def)
  have "\<exists>f \<in> set (triggerFires w'). tf_key f = (t_id t, tp_id p, k)"
    using rec unfolding find_fire_key by auto
  moreover have "distinct (map tf_key (triggerFires w'))" using inv by (simp add: fires_inv_def)
  ultimately have "length (filter (\<lambda>f. tf_key f = (t_id t, tp_id p, k)) (triggerFires w')) = 1"
    by (intro distinct_filter_one)
  with rec inv show ?thesis by (simp add: fireOnce_def)
qed

definition sample_trigger :: trigger where
  "sample_trigger = \<lparr>t_id = ''t'', t_orgId = ''o'', t_serverInstanceId = ''s1'', t_name = ''welcome'', t_enabled = True,
     t_eventType = ''player_first_join'', t_eventConfig = Obj [], t_actionType = ''grant_items'',
     t_actionConfig = Obj [(''items'', Arr [Obj [(''name'', Str ''diamond'')]])], t_applyToExisting = False,
     t_lastFiredAt = None, t_fireCount = 0, t_createdById = Some ''u'', t_createdAt = 0\<rparr>"

definition sample_player :: triggerPlayer where
  "sample_player = \<lparr>tp_id = ''p'', tp_name = ''Steve'', tp_steamId = None, tp_identityKey = ''name:steve'', tp_online = True\<rparr>"

theorem fireOnce_exactly_once_witness:
  "length (filter (\<lambda>f. tf_key f = (''t'', ''p'', ''first_join''))
     (triggerFires (snd (fireOnce sample_env sample_trigger sample_player ''first_join'' 0 sample_world)))) = 1"
proof -
  have "case parseGrantItemsActionConfig sample_env (t_actionConfig sample_trigger) of Inl e \<Rightarrow> False | Inr a \<Rightarrow> True"
    by code_simp
  then obtain a where a: "parseGrantItemsActionConfig sample_env (t_actionConfig sample_trigger) = Inr a"
    by (auto split: sum.splits)
  have "fires_inv sample_world"
    by (simp add: fires_inv_def sample_world_def empty_world_def inj_nat_str)
  from fireOnce_exactly_once [OF a this refl, of sample_player "''first_join''" 0] show ?thesis
    by (simp add: sample_trigger_def sample_player_def)
qed

text \<open>The staleness of a queued grant is measured from when the milestone was first reached.
  For a fire that is more than five minutes old, a grant job that was queued at this very moment
  is at once declared stale and offered for another delivery, while the first one is still
  waiting for the agent.\<close>

lemma stale_ignores_requeue:
  assumes "grant_trigger f w = Some t" and "t_orgId t = orgId" and "t_serverInstanceId t = sid"
    and "f \<in> set (triggerFires w)" and "tf_status f = ''queued''" and "tf_jobId f = Some j"
    and "tf_attempts f < MAX_GRANT_ATTEMPTS" and "tf_createdAt f < now - 5 * 60000"
    and "findUnique p_id (tf_playerId f) (players w) = Some p" and "p_online p"
  shows "(t, as_trigger_player p, tf_eventKey f) \<in> set (due_fires
    (\<lambda>f t p. t_orgId t = orgId \<and> t_serverInstanceId t = sid \<and> p_online p) (release_stale orgId sid now w))"
proof -
  let ?w = "release_stale orgId sid now w"
  let ?f = "f\<lparr>tf_status := ''pending'', tf_lastError := Some ''Stale queued grant; will retry''\<rparr>"
  have "?f \<in> set (triggerFires ?w)"
    using assms by (auto simp: release_stale_def in_updateMany)
  moreover have "grant_trigger ?f ?w = Some t" "findUnique p_id (tf_playerId ?f) (players ?w) = Some p"
    using assms by (simp_all add: grant_trigger_def release_stale_def)
  ultimately show ?thesis
    using assms unfolding due_fires_def List.map_filter_def
    by (auto simp: image_iff intro!: bexI [of _ ?f])
qed

definition sample_fire :: triggerFire where
  "sample_fire = \<lparr>tf_id = ''f'', tf_triggerId = ''t'', tf_playerId = ''p'', tf_eventKey = ''first_join'',
     tf_jobId = Some ''j2'', tf_status = ''queued'', tf_attempts = 2, tf_lastError = None, tf_createdAt = 0\<rparr>"

definition sample_person :: player where
  "sample_person = \<lparr>p_id = ''p'', p_orgId = ''o'', p_serverInstanceId = ''s1'', p_identityKey = ''name:steve'',
     p_steamId = None, p_ipAddress = None, p_name = ''Steve'', p_online = True,
     p_currentSessionStartedAt = Some 0, p_lifetimeSeconds = 0, p_lastPos = None, p_lastLogoutAt = None,
     p_supporter = False, p_supporterSince = None, p_totalDonatedCents = 0, p_portalPasswordHash = None,
     p_firstSeenAt = 0, p_lastSeenAt = 0\<rparr>"

end
