(* ===== verification/Donations.thy ===== *)
theory Donations
  imports Payments Shop_Delivery Triggers
begin

text \<open>
  Donations: control-plane/src/donations/donations.service.ts (checkout, the webhook, crediting a
  paid session, refunds) and donations.credentials.ts. A webhook that passes the signature check
  credits a paid session once, with its lines and their items, and sets off the announcement, the
  delivery and the rewards; a refund or a lost dispute is taken off the ledger.

  Shown: the total of every player is what was paid less what was refunded, in every state the
  webhook can lead to; a session is credited once however often Stripe repeats it; without a valid
  signature nothing changes. Also shown: the payments of players who signed in by name are dropped.
\<close>

section \<open>Credentials\<close>

definition decryptSecret :: "env \<Rightarrow> string option \<Rightarrow> string" where
  "decryptSecret E value =
     (case value of None \<Rightarrow> []
      | Some v \<Rightarrow> if trim v = [] then [] else (case e_decrypt E v of None \<Rightarrow> [] | Some s \<Rightarrow> trim s))"

definition stripeCredentialsForOrg :: "env \<Rightarrow> stripe \<Rightarrow> id \<Rightarrow> world \<Rightarrow> (string \<times> string) option" where
  "stripeCredentialsForOrg E S orgId w =
     (let org = findUnique o_id orgId (orgs w);
          secretKey = or_str (decryptSecret E (Option.bind org o_stripeSecretKeyEncrypted)) (stripeSecretKey S);
          webhookSecret = or_str (decryptSecret E (Option.bind org o_stripeWebhookSecretEncrypted)) (stripeWebhookSecret S)
      in if secretKey = [] \<or> webhookSecret = [] then None else Some (secretKey, webhookSecret))"

definition stripeCheckoutEnabledForOrg :: "stripe \<Rightarrow> id \<Rightarrow> world \<Rightarrow> bool" where
  "stripeCheckoutEnabledForOrg S orgId w =
     (stripeCheckoutConfigured S \<or>
      (case findUnique o_id orgId (orgs w) of None \<Rightarrow> False
       | Some org \<Rightarrow> opt_or (o_stripeSecretKeyEncrypted org) [] \<noteq> [] \<and> opt_or (o_stripeWebhookSecretEncrypted org) [] \<noteq> []))"

definition stripeWebhookSecrets :: "env \<Rightarrow> stripe \<Rightarrow> world \<Rightarrow> string list" where
  "stripeWebhookSecrets E S w =
     (let stored = map (\<lambda>org. decryptSecret E (o_stripeWebhookSecretEncrypted org))
                     (take 25 (filter (\<lambda>org. o_stripeWebhookSecretEncrypted org \<noteq> None) (orgs w)))
      in rev (remdups (rev (filter (\<lambda>s. s \<noteq> []) (stripeWebhookSecret S # stored)))))"

section \<open>Checkout\<close>

record checkoutPlayer =
  cp_id :: id
  cp_steamId :: "string option"
  cp_serverInstanceId :: id
  cp_orgId :: id
  cp_name :: "string option"
  cp_sessionAuth :: "string option"

definition syntheticSteam :: "checkoutPlayer \<Rightarrow> string" where
  "syntheticSteam player = or_str (opt_or (cp_steamId player) []) (''mc:'' @ cp_id player)"

definition checkoutOrigin :: "stripe \<Rightarrow> string res" where
  "checkoutOrigin S =
     (let url = opt_or (se_publicWebUrl S) [];
          origin = (if url \<noteq> [] \<and> last url = CHR ''/'' then butlast url else url)
      in if (\<not> startsWith origin ''https://'' \<and> se_production S) \<or>
            \<not> (startsWith (toLowerCase origin) ''http://'' \<or> startsWith (toLowerCase origin) ''https://'')
         then Inl (ServiceUnavailableException ''Donations are not configured'') else Inr origin)"

definition by_name :: "checkoutPlayer \<Rightarrow> bool" where
  "by_name player \<longleftrightarrow> cp_sessionAuth player = Some ''name'' \<and> opt_or (cp_name player) [] \<noteq> []"

definition cart_description :: "checkoutPlayer \<Rightarrow> string \<Rightarrow> string" where
  "cart_description player steamId =
     (if by_name player then ''Support tied to Minecraft name '' @ opt_or (cp_name player) []
      else ''Support tied to account '' @
        (if startsWith steamId ''mc:'' then or_str (opt_or (cp_name player) []) (cp_id player)
         else ''Steam ending '' @ last_n 4 steamId))"

definition checkout_result :: "stripe \<Rightarrow> checkoutInput \<Rightarrow> string res" where
  "checkout_result S inp =
     (case createCheckoutSession S inp of
        Inl _ \<Rightarrow> Inl (ServiceUnavailableException ''Checkout is unavailable'')
      | Inr url \<Rightarrow> Inr url)"

definition createCartCheckout :: "stripe \<Rightarrow> checkoutPlayer \<Rightarrow> string \<Rightarrow> id list \<Rightarrow> string \<Rightarrow> world \<Rightarrow> string res" where
  "createCartCheckout S player steamId ids secretKey w =
     (let rows = filter (\<lambda>i. sh_orgId i = cp_orgId player \<and> sh_active i \<and> sh_id i \<in> set ids) (shopItems w) in
      if length rows \<noteq> length ids then Inl (BadRequestException ''One or more shop items are not available'')
      else (case checkoutOrigin S of
              Inl e \<Rightarrow> Inl e
            | Inr origin \<Rightarrow>
                checkout_result S \<lparr>ci_amountCents = None, ci_playerId = cp_id player, ci_steamId = steamId,
                  ci_serverInstanceId = cp_serverInstanceId player, ci_orgId = cp_orgId player, ci_origin = origin,
                  ci_secretKey = Some secretKey, ci_productName = None, ci_productDescription = None, ci_shopItemId = None,
                  ci_lineItems = map (\<lambda>item. \<lparr>cl_amountCents = sh_priceCents item, cl_name = sh_name item,
                      cl_description = or_str (sh_description item) (cart_description player steamId),
                      cl_shopItemId = Some (sh_id item)\<rparr>) (List.map_filter (\<lambda>i. List.find (\<lambda>r. sh_id r = i) rows) ids),
                  ci_returnPath = Some ''/player/shop/cart''\<rparr>))"

definition createCheckout :: "env \<Rightarrow> stripe \<Rightarrow> checkoutPlayer \<Rightarrow> js \<Rightarrow> js \<Rightarrow> js \<Rightarrow> world \<Rightarrow> string res" where
  "createCheckout E S player amountCents shopItemId shopItemIds w =
     (if opt_or (cp_steamId player) [] = [] \<and> cp_sessionAuth player \<noteq> Some ''name''
      then Inl (BadRequestException ''Sign in with your Minecraft name or Steam to donate.'')
      else (case stripeCredentialsForOrg E S (cp_orgId player) w of
        None \<Rightarrow> Inl (ServiceUnavailableException ''Donations are not configured'')
      | Some (secretKey, _) \<Rightarrow>
          let steam = syntheticSteam player;
              tiedTo = (if by_name player then ''Support tied to Minecraft name '' @ opt_or (cp_name player) []
                        else ''Support tied to Steam ending '' @ last_n 4 steam);
              pay = (\<lambda>amount nm desc item path.
                case amount of
                  None \<Rightarrow> Inl (BadRequestException ''Choose an amount between $5 and $500'')
                | Some n \<Rightarrow>
                    (case checkoutOrigin S of
                       Inl e \<Rightarrow> Inl e
                     | Inr origin \<Rightarrow>
                         checkout_result S \<lparr>ci_amountCents = Some n, ci_playerId = cp_id player, ci_steamId = steam,
                           ci_serverInstanceId = cp_serverInstanceId player, ci_orgId = cp_orgId player, ci_origin = origin,
                           ci_secretKey = Some secretKey, ci_productName = Some nm, ci_productDescription = Some desc,
                           ci_shopItemId = item, ci_lineItems = [], ci_returnPath = Some path\<rparr>))
          in case parseShopItemIds shopItemIds of
               Some ids \<Rightarrow> createCartCheckout S player steam ids secretKey w
             | None \<Rightarrow>
                 (case parseShopItemId shopItemId of
                    None \<Rightarrow> pay (parseDonationAmountCents amountCents) ''Server support'' tiedTo None ''/player/profile''
                  | Some itemId \<Rightarrow>
                      (case List.find (\<lambda>i. sh_id i = itemId \<and> sh_orgId i = cp_orgId player \<and> sh_active i) (shopItems w) of
                         None \<Rightarrow> Inl (BadRequestException ''That shop item is not available'')
                       | Some item \<Rightarrow> pay (Some (sh_priceCents item)) (sh_name item) (or_str (sh_description item) tiedTo)
                                        (Some itemId) (''/player/shop/'' @ itemId)))))"

section \<open>The webhook\<close>

text \<open>The rows of a donation's lines, before they have an id.\<close>

definition shop_grants :: "env \<Rightarrow> shopItem option \<Rightarrow> lineGrantItem list" where
  "shop_grants E item =
     (let parsed = parseGrantItemList (e_parseJson E) (case item of None \<Rightarrow> Undefined | Some i \<Rightarrow> sh_grantItems i);
          legacy = (case item of
              None \<Rightarrow> Arr []
            | Some i \<Rightarrow> if opt_or (sh_grantItemName i) [] = [] then Arr []
                        else Arr [Obj [(''name'', js_opt (sh_grantItemName i)), (''quantity'', JInt (sh_grantQuantity i))]])
      in snapshotLineGrants
           (if opt_or parsed [] \<noteq> [] then opt_or parsed [] else opt_or (parseGrantItemList (e_parseJson E) legacy) []))"

definition draft_line :: "env \<Rightarrow> shopItem list \<Rightarrow> int list \<Rightarrow> nat \<times> id \<Rightarrow> donationLine" where
  "draft_line E items lineAmounts e =
     (case e of (index, i) \<Rightarrow>
       let item = List.find (\<lambda>r. sh_id r = i) items; grants = shop_grants E item
       in \<lparr>l_id = [], l_donationId = [], l_shopItemId = map_option sh_id item,
           l_itemName = (case item of None \<Rightarrow> ''Shop item'' | Some r \<Rightarrow> sh_name r),
           l_amountCents = (if index < length lineAmounts then lineAmounts ! index
                            else case item of None \<Rightarrow> 0 | Some r \<Rightarrow> sh_priceCents r),
           l_quantity = 1, l_grantItemName = (case grants of [] \<Rightarrow> None | g # _ \<Rightarrow> Some (lg_name g)),
           l_grantQuantity = (case grants of [] \<Rightarrow> None | g # _ \<Rightarrow> Some (lg_quantity g)),
           l_grantItems = grants_json grants, l_grantStatus = aggregateGrantStatus grants,
           l_grantQueuedAt = None, l_grantedAt = None, l_grantError = None\<rparr>)"

definition buildDonationLines :: "env \<Rightarrow> paidSession \<Rightarrow> world \<Rightarrow> donationLine list" where
  "buildDonationLines E paid w =
     (let items = filter (\<lambda>i. sh_orgId i = pd_orgId paid \<and> sh_id i \<in> set (pd_shopItemIds paid)) (shopItems w)
      in filter (\<lambda>l. 0 < l_amountCents l)
           (map (draft_line E items (pd_lineAmounts paid)) (enumerate 0 (pd_shopItemIds paid))))"

definition add_line :: "id \<Rightarrow> world \<Rightarrow> donationLine \<Rightarrow> world" where
  "add_line donationId w l =
     (draw w)\<lparr>donationLines := donationLines w @ [l\<lparr>l_id := next_id w, l_donationId := donationId\<rparr>]\<rparr>"

definition ledger_of :: "player \<Rightarrow> ledgerPlayer" where
  "ledger_of p = \<lparr>lp_supporter = p_supporter p, lp_supporterSince = p_supporterSince p,
     lp_totalDonatedCents = p_totalDonatedCents p\<rparr>"

definition set_ledger :: "id \<Rightarrow> ledgerPlayer \<Rightarrow> world \<Rightarrow> world" where
  "set_ledger pid l w = w\<lparr>players := updateRow p_id pid (\<lambda>p. p\<lparr>p_supporter := lp_supporter l,
     p_supporterSince := lp_supporterSince l, p_totalDonatedCents := lp_totalDonatedCents l\<rparr>) (players w)\<rparr>"

definition cents_fixed :: "int \<Rightarrow> string" where
  \<comment> \<open>\<open>(cents / 100).toFixed(2)\<close> for a non-negative number of cents\<close>
  "cents_fixed c = int_str (c div 100) @ ''.'' @ (if c mod 100 < 10 then ''0'' else []) @ int_str (c mod 100)"

definition notifyDiscord :: "env \<Rightarrow> id \<Rightarrow> string \<Rightarrow> int \<Rightarrow> string list \<Rightarrow> ms \<Rightarrow> world \<Rightarrow> world" where
  \<comment> \<open>the dash and the ellipsis in UTF-8\<close>
  "notifyDiscord E orgId nm amountCents itemNames now w =
     (case Option.bind (findUnique o_id orgId (orgs w)) o_discordWebhookUrl of
        None \<Rightarrow> w
      | Some url \<Rightarrow>
          if trim url = [] then w
          else
            let suffix = (if itemNames = [] then []
                  else '' '' @ [CHR 0xE2, CHR 0x80, CHR 0x94] @ '' '' @ join '', '' (take 5 itemNames) @
                       (if length itemNames > 5 then [CHR 0xE2, CHR 0x80, CHR 0xA6] else []))
            in snd (discord_send E (trim url)
                 [(''content'', Str (nm @ '' supported the server'' @ suffix @ '' ($'' @ cents_fixed amountCents @ '').''))]
                 (orgId @ '':donation'') now w))"

definition store_donation :: "paidSession \<Rightarrow> id \<Rightarrow> id option \<Rightarrow> donationLine list \<Rightarrow> ledgerPlayer \<Rightarrow> ms \<Rightarrow> world \<Rightarrow> world" where
  "store_donation paid playerId shopItemId rows l now w =
     (let did = next_id w;
          d = \<lparr>d_id = did, d_orgId = pd_orgId paid, d_serverInstanceId = pd_serverInstanceId paid, d_playerId = playerId,
               d_steamId = pd_steamId paid, d_amountCents = pd_amountCents paid, d_currency = pd_currency paid,
               d_refundedCents = 0, d_status = ''completed'', d_stripeCheckoutSessionId = pd_sessionId paid,
               d_stripePaymentIntentId = pd_paymentIntentId paid, d_shopItemId = shopItemId,
               d_completedAt = Some now, d_refundedAt = None, d_createdAt = now\<rparr>
      in set_ledger playerId l (foldl (add_line did) ((draw w)\<lparr>donations := donations w @ [d]\<rparr>) rows))"

definition creditPaidSession :: "env \<Rightarrow> obj \<Rightarrow> ms \<Rightarrow> world \<Rightarrow> world" where
  "creditPaidSession E object now w =
     (case parsePaidCheckoutSession object of
        None \<Rightarrow> w
      | Some paid \<Rightarrow>
          (case List.find (\<lambda>p. p_id p = pd_playerId paid \<and> p_steamId p = Some (pd_steamId paid) \<and>
                  p_serverInstanceId p = pd_serverInstanceId paid \<and> p_orgId p = pd_orgId paid) (players w) of
             None \<Rightarrow> w
           | Some player \<Rightarrow>
               if findUnique d_stripeCheckoutSessionId (pd_sessionId paid) (donations w) \<noteq> None then w
               else
                 let rows = buildDonationLines E paid w;
                     primary = (case pd_shopItemIds paid of [i] \<Rightarrow> Some i | _ \<Rightarrow> pd_shopItemId paid);
                     shopItem = (case primary of None \<Rightarrow> None
                       | Some i \<Rightarrow> List.find (\<lambda>r. sh_id r = i \<and> sh_orgId r = pd_orgId paid) (shopItems w))
                 in (case creditCompletedSession None (pd_sessionId paid) (pd_paymentIntentId paid)
                            (int_num (pd_amountCents paid)) (ledger_of player) now of
                       (_, l, applied) \<Rightarrow>
                         if \<not> applied then w
                         else
                           let w1 = store_donation paid (p_id player) (map_option sh_id shopItem) rows l now w;
                               w2 = notifyDiscord E (p_orgId player) (p_name player) (pd_amountCents paid)
                                      (map l_itemName rows) now w1;
                               w3 = enqueueShopGrants E (pd_orgId paid) (pd_serverInstanceId paid) (p_id player) now w2
                           in evaluateDonationTotal E (pd_orgId paid) (pd_serverInstanceId paid) (as_trigger_player player)
                                (p_totalDonatedCents player) (lp_totalDonatedCents l) now w3)))"

definition refundPaymentIntent :: "string \<Rightarrow> int \<Rightarrow> ms \<Rightarrow> world \<Rightarrow> world" where
  \<comment> \<open>a donation always has its player (a foreign key)\<close>
  "refundPaymentIntent paymentIntentId refundedCents now w =
     (case List.find (\<lambda>d. d_stripePaymentIntentId d = Some paymentIntentId) (donations w) of
        None \<Rightarrow> w
      | Some d \<Rightarrow>
          (case findUnique p_id (d_playerId d) (players w) of
             None \<Rightarrow> w
           | Some player \<Rightarrow>
               (case applyChargeRefund (Some \<lparr>ld_sessionId = d_stripeCheckoutSessionId d,
                        ld_paymentIntentId = d_stripePaymentIntentId d, ld_amountCents = d_amountCents d,
                        ld_refundedCents = d_refundedCents d,
                        ld_status = (if d_status d = ''refunded'' then DonationRefunded else DonationCompleted)\<rparr>)
                      (int_num refundedCents) (ledger_of player) of
                  (Some next, l, True, _) \<Rightarrow>
                    set_ledger (p_id player) l
                      (w\<lparr>donations := updateRow d_id (d_id d) (\<lambda>r. r\<lparr>d_refundedCents := ld_refundedCents next,
                          d_status := (if ld_status next = DonationRefunded then ''refunded'' else ''completed''),
                          d_refundedAt := (if ld_status next = DonationRefunded then Some now else d_refundedAt d)\<rparr>) (donations w)\<rparr>)
                | _ \<Rightarrow> w)))"

definition handleWebhook :: "env \<Rightarrow> stripe \<Rightarrow> string \<Rightarrow> string option \<Rightarrow> ms \<Rightarrow> world \<Rightarrow> unit res \<times> world" where
  "handleWebhook E S rawBody signature now w =
     (case constructStripeEventWithSecrets E S rawBody signature (stripeWebhookSecrets E S w) (now div 1000) of
        Inl (Unconfigured _) \<Rightarrow> (Inl (ForbiddenException ''Stripe webhook is not configured''), w)
      | Inl (BadSignature _) \<Rightarrow> (Inl (BadRequestException ''Invalid Stripe signature''), w)
      | Inr (ty, object) \<Rightarrow>
          (Inr (),
           if ty = ''checkout.session.completed'' then creditPaidSession E object now w
           else if ty = ''charge.refunded'' then
             (case parseChargeRefund object of None \<Rightarrow> w | Some (pid, n) \<Rightarrow> refundPaymentIntent pid n now w)
           else if ty = ''charge.dispute.closed'' then
             (case parseLostDispute object of None \<Rightarrow> w | Some (pid, n) \<Rightarrow> refundPaymentIntent pid n now w)
           else w))"

section \<open>What crediting and refunding do\<close>

lemma add_lines_frame:
  "same_money w (foldl (add_line did) w rows)" "same_jobs w (foldl (add_line did) w rows)"
  by (intro same_money.foldl_R same_jobs.foldl_R; simp add: add_line_def same_money_def same_jobs_def draw_def)+

lemma set_ledger_frame: "donations (set_ledger i l w) = donations w" "same_jobs w (set_ledger i l w)"
  by (simp_all add: set_ledger_def same_jobs_def)

lemma notify_frame: "same_money w (notifyDiscord E o' nm c ns now w)" "same_jobs w (notifyDiscord E o' nm c ns now w)"
proof -
  have "same_money v (snd (discord_send E u p k now v))" for u p k v
    by (auto simp: discord_send_def same_money_def split: prod.split bool.split)
  then show "same_money w (notifyDiscord E o' nm c ns now w)"
    by (simp add: notifyDiscord_def Let_def same_money.refl_R split: option.split)
  show "same_jobs w (notifyDiscord E o' nm c ns now w)"
    by (simp add: notifyDiscord_def Let_def same_jobs.refl_R discord_send_same_jobs split: option.split)
qed

lemma reward_money: "reward_le w w' \<Longrightarrow> same_money w w'"
  by (simp add: reward_le_def same_ledger_def same_money_def jobs_ext_def)

definition paid_ledger :: "paidSession \<Rightarrow> player \<Rightarrow> ms \<Rightarrow> ledgerPlayer" where
  "paid_ledger paid player now =
     \<lparr>lp_supporter = (0 < p_totalDonatedCents player + pd_amountCents paid),
      lp_supporterSince = opt_orelse (p_supporterSince player)
        (if 0 < p_totalDonatedCents player + pd_amountCents paid then Some now else None),
      lp_totalDonatedCents = p_totalDonatedCents player + pd_amountCents paid\<rparr>"

lemma paid_positive: "parsePaidCheckoutSession object = Some paid \<Longrightarrow> 0 < pd_amountCents paid"
  by (auto simp: parsePaidCheckoutSession_def Let_def split: if_splits option.splits js.splits)

lemma credit_applied:
  "0 < pd_amountCents paid \<Longrightarrow>
     \<exists>d. creditCompletedSession None s intent (int_num (pd_amountCents paid)) (ledger_of player) now = (d, paid_ledger paid player now, True)"
  by (simp add: creditCompletedSession_def paid_ledger_def ledger_of_def Let_def isInteger_def num_int_def int_num_def)

text \<open>The two outcomes of crediting a session.\<close>

lemma creditPaidSession_cases:
  assumes "creditPaidSession E object now w = w'"
  obtains (ignored) "w' = w"
    "\<And>paid. parsePaidCheckoutSession object = Some paid \<Longrightarrow>
       pd_sessionId paid \<in> d_stripeCheckoutSessionId ` set (donations w) \<or>
       (\<forall>p \<in> set (players w). \<not> (p_id p = pd_playerId paid \<and> p_steamId p = Some (pd_steamId paid) \<and>
          p_serverInstanceId p = pd_serverInstanceId paid \<and> p_orgId p = pd_orgId paid))"
  | (credited) paid player item rows w1 where
      "parsePaidCheckoutSession object = Some paid" "player \<in> set (players w)" "0 < pd_amountCents paid"
      "pd_sessionId paid \<notin> d_stripeCheckoutSessionId ` set (donations w)"
      "w1 = store_donation paid (p_id player) item rows (paid_ledger paid player now) now w"
      "same_money w1 w'" "jobs_ext w1 w'"
proof (cases "parsePaidCheckoutSession object")
  case None
  with assms ignored show thesis by (simp add: creditPaidSession_def)
next
  case (Some paid)
  let ?P = "\<lambda>p. p_id p = pd_playerId paid \<and> p_steamId p = Some (pd_steamId paid) \<and>
    p_serverInstanceId p = pd_serverInstanceId paid \<and> p_orgId p = pd_orgId paid"
  show thesis
  proof (cases "List.find ?P (players w) = None \<or> pd_sessionId paid \<in> d_stripeCheckoutSessionId ` set (donations w)")
    case True
    have "w' = w" using assms Some True by (auto simp: creditPaidSession_def findUnique_None split: option.splits)
    then show thesis using Some True by (intro ignored) (auto simp: find_None_set)
  next
    case False
    then have "List.find ?P (players w) \<noteq> None" by simp
    then obtain player where p1: "List.find ?P (players w) = Some player" by blast
    note p = p1 find_Some_set [OF p1, THEN conjunct1]
    note pos = paid_positive [OF Some]
    define item where "item = map_option sh_id (case (case pd_shopItemIds paid of [i] \<Rightarrow> Some i | _ \<Rightarrow> pd_shopItemId paid) of
      None \<Rightarrow> None | Some i \<Rightarrow> List.find (\<lambda>r. sh_id r = i \<and> sh_orgId r = pd_orgId paid) (shopItems w))"
    define w1 where "w1 = store_donation paid (p_id player) item (buildDonationLines E paid w) (paid_ledger paid player now) now w"
    let ?w2 = "notifyDiscord E (p_orgId player) (p_name player) (pd_amountCents paid) (map l_itemName (buildDonationLines E paid w)) now w1"
    let ?w3 = "enqueueShopGrants E (pd_orgId paid) (pd_serverInstanceId paid) (p_id player) now ?w2"
    obtain d0 where cr: "creditCompletedSession None (pd_sessionId paid) (pd_paymentIntentId paid) (int_num (pd_amountCents paid))
        (ledger_of player) now = (d0, paid_ledger paid player now, True)"
      using credit_applied [OF pos] by blast
    have w': "w' = evaluateDonationTotal E (pd_orgId paid) (pd_serverInstanceId paid) (as_trigger_player player)
        (p_totalDonatedCents player) (lp_totalDonatedCents (paid_ledger paid player now)) now ?w3"
      using assms Some p(1) False cr by (simp add: creditPaidSession_def findUnique_None Let_def w1_def item_def)
    have "same_money w1 w'" unfolding w'
      by (rule same_money.trans_R [OF notify_frame(1) same_money.trans_R [OF delivery_money.grants_R(1) reward_money [OF evaluate_reward(3)]]])
    moreover have "jobs_ext w1 w'" unfolding w'
      using appending.trans_R [OF same_jobs_ext [OF notify_frame(2)] appending.trans_R [OF shop_grants_ext(1)]] evaluate_reward(3)
      by (metis reward_le_def)
    ultimately show thesis using credited [OF Some p(2) pos _ w1_def] False by blast
  qed
qed

lemma store_donation_jobs: "same_jobs w (store_donation paid pid item rows l now w)"
proof -
  have "same_jobs w ((draw w)\<lparr>donations := ds\<rparr>)" for ds by (simp add: same_jobs_def)
  from same_jobs.trans_R [OF this same_jobs.trans_R [OF add_lines_frame(2) set_ledger_frame(2)]]
  show ?thesis by (simp add: store_donation_def Let_def)
qed

lemma refund_jobs: "same_jobs w (refundPaymentIntent pid n now w)"
  by (auto simp: refundPaymentIntent_def set_ledger_def same_jobs_def split: option.split prod.split bool.split)

lemma handleWebhook_ext: "jobs_ext w (snd (handleWebhook E S body sig now w))"
proof -
  have c: "jobs_ext w (creditPaidSession E object now w)" for object
  proof -
    obtain w' where "creditPaidSession E object now w = w'" by simp
    then show ?thesis
    proof (cases rule: creditPaidSession_cases)
      case ignored
      then show ?thesis using \<open>creditPaidSession E object now w = w'\<close> by (simp add: appending.refl_R)
    next
      case (credited paid player item rows w1)
      then show ?thesis
        using \<open>creditPaidSession E object now w = w'\<close> appending.trans_R [OF same_jobs_ext [OF store_donation_jobs]] by simp
    qed
  qed
  show ?thesis
    by (auto simp: handleWebhook_def c appending.refl_R same_jobs_ext [OF refund_jobs] split: sum.split stripeError.split prod.split option.split)
qed

section \<open>The ledger of the tables\<close>

definition net :: "donation \<Rightarrow> int" where
  "net d = d_amountCents d - d_refundedCents d"

definition paid_total :: "donation list \<Rightarrow> id \<Rightarrow> int" where
  "paid_total ds pid = sum_list (map net (filter (\<lambda>d. d_playerId d = pid) ds))"

definition donation_ok :: "donation \<Rightarrow> bool" where
  "donation_ok d \<longleftrightarrow> 0 \<le> d_refundedCents d \<and> d_refundedCents d \<le> d_amountCents d \<and> 0 < d_amountCents d \<and>
     d_status d = (if d_refundedCents d = d_amountCents d then ''refunded'' else ''completed'')"

definition player_ok :: "donation list \<Rightarrow> player \<Rightarrow> bool" where
  "player_ok ds p \<longleftrightarrow> p_totalDonatedCents p = paid_total ds (p_id p) \<and> (p_supporter p \<longleftrightarrow> 0 < p_totalDonatedCents p)"

definition ledger_ok :: "world \<Rightarrow> bool" where
  "ledger_ok w \<longleftrightarrow> inj (idgen w) \<and> distinct (map p_id (players w)) \<and> distinct (map d_id (donations w)) \<and>
     distinct (map d_stripeCheckoutSessionId (donations w)) \<and> list_all (drawn w) (map d_id (donations w)) \<and>
     list_all donation_ok (donations w) \<and> list_all (player_ok (donations w)) (players w)"

lemma paid_total_append: "paid_total (ds @ [d]) pid = paid_total ds pid + (if d_playerId d = pid then net d else 0)"
  by (simp add: paid_total_def)

lemma paid_total_nonneg: "list_all donation_ok ds \<Longrightarrow> 0 \<le> paid_total ds pid"
  by (induction ds) (auto simp: paid_total_def donation_ok_def net_def)

lemma paid_total_update:
  assumes "distinct (map d_id ds)" and "d \<in> set ds" and "\<And>x. d_playerId (f x) = d_playerId x"
  shows "paid_total (updateRow d_id (d_id d) f ds) pid = paid_total ds pid + (if d_playerId d = pid then net (f d) - net d else 0)"
  using assms
proof (induction ds)
  case (Cons x ds)
  show ?case
  proof (cases "d_id x = d_id d")
    case True
    with Cons.prems have "x = d" "d_id d \<notin> d_id ` set ds" by (auto simp: inj_on_def)
    with Cons.prems(3) show ?thesis by (simp add: updateRow_notin paid_total_def)
  next
    case False
    with Cons show ?thesis by (auto simp: paid_total_def)
  qed
qed simp

lemma ledger_same: "ledger_ok w \<Longrightarrow> same_money w w' \<Longrightarrow> ledger_ok w'"
  by (auto simp: ledger_ok_def same_money_def drawn_def list_all_iff) (meson less_le_trans)

lemma set_ledger_players:
  assumes "distinct (map p_id (players w))" and "player \<in> set (players w)"
    and "list_all (player_ok ds) (filter (\<lambda>p. p_id p \<noteq> p_id player) (players w))"
    and "lp_totalDonatedCents l = paid_total ds (p_id player)" and "lp_supporter l \<longleftrightarrow> 0 < lp_totalDonatedCents l"
  shows "list_all (player_ok ds) (players (set_ledger (p_id player) l w))"
  using assms by (auto simp: set_ledger_def list_all_iff player_ok_def dest!: in_updateRow)

lemma store_donation_ledger:
  assumes "ledger_ok w" and "player \<in> set (players w)" and "0 < pd_amountCents paid"
    and "pd_sessionId paid \<notin> d_stripeCheckoutSessionId ` set (donations w)"
  shows "ledger_ok (store_donation paid (p_id player) item rows (paid_ledger paid player now) now w)"
proof -
  define d where "d = \<lparr>d_id = next_id w, d_orgId = pd_orgId paid, d_serverInstanceId = pd_serverInstanceId paid, d_playerId = p_id player,
    d_steamId = pd_steamId paid, d_amountCents = pd_amountCents paid, d_currency = pd_currency paid,
    d_refundedCents = 0, d_status = ''completed'', d_stripeCheckoutSessionId = pd_sessionId paid,
    d_stripePaymentIntentId = pd_paymentIntentId paid, d_shopItemId = item, d_completedAt = Some now, d_refundedAt = None, d_createdAt = now\<rparr>"
  let ?w1 = "foldl (add_line (next_id w)) ((draw w)\<lparr>donations := donations w @ [d]\<rparr>) rows"
  let ?w' = "set_ledger (p_id player) (paid_ledger paid player now) ?w1"
  have w': "store_donation paid (p_id player) item rows (paid_ledger paid player now) now w = ?w'"
    by (simp add: store_donation_def Let_def d_def)
  have w1: "players ?w1 = players w" "donations ?w1 = donations w @ [d]" "idgen ?w1 = idgen w" "Suc (idctr w) \<le> idctr ?w1"
    using add_lines_frame(1) [of "(draw w)\<lparr>donations := donations w @ [d]\<rparr>" "next_id w" rows] by (simp_all add: same_money_def)
  note ok = assms(1) [unfolded ledger_ok_def]
  have pt: "p_totalDonatedCents player = paid_total (donations w) (p_id player)"
    using ok assms(2) by (simp add: list_all_iff player_ok_def)
  have d: "donation_ok d" "d_playerId d = p_id player" "net d = pd_amountCents paid" "d_id d = next_id w"
    "d_stripeCheckoutSessionId d = pd_sessionId paid"
    using assms(3) by (simp_all add: donation_ok_def d_def net_def)
  have "list_all (player_ok (donations w @ [d])) (players ?w')"
  proof (rule set_ledger_players)
    show "list_all (player_ok (donations w @ [d])) (filter (\<lambda>p. p_id p \<noteq> p_id player) (players ?w1))"
      using ok d(2) by (auto simp: w1 list_all_iff player_ok_def paid_total_append)
  qed (use ok assms(2) pt d in \<open>simp_all add: w1 paid_ledger_def paid_total_append\<close>)
  moreover have "\<not> drawn w (next_id w)" using ok next_id_fresh by blast
  then have "next_id w \<notin> d_id ` set (donations w)" using ok by (auto simp: list_all_iff)
  moreover have "list_all (drawn (draw w)) (map d_id (donations w @ [d]))"
    using ok d(4) by (simp add: list_all_iff drawn_draw)
  then have "list_all (drawn ?w') (map d_id (donations w @ [d]))"
    by (rule list.pred_mono_strong) (use w1(3,4) in \<open>auto simp: drawn_def set_ledger_def intro: less_le_trans\<close>)
  moreover have "map p_id (players ?w') = map p_id (players w)" by (simp add: set_ledger_def w1 map_updateRow)
  moreover have "donations ?w' = donations w @ [d]" "idgen ?w' = idgen w" by (simp_all add: set_ledger_def w1)
  ultimately show ?thesis
    unfolding w' ledger_ok_def using ok assms(4) d by simp
qed

lemma net_le_total: "list_all donation_ok ds \<Longrightarrow> d \<in> set ds \<Longrightarrow> net d \<le> paid_total ds (d_playerId d)"
proof (induction ds)
  case (Cons x ds)
  have "0 \<le> paid_total ds (d_playerId d)" using Cons.prems(1) by (intro paid_total_nonneg) simp
  moreover have "0 \<le> net x" using Cons.prems(1) by (simp add: donation_ok_def net_def)
  ultimately have "0 \<le> paid_total ds (d_playerId d)" "0 \<le> net x" by auto
  with Cons show ?case by (fastforce simp: paid_total_def)
qed simp

text \<open>The row of a donation after a refund, and the player it is taken from.\<close>

definition refunded_row :: "int \<Rightarrow> ms \<Rightarrow> donation \<Rightarrow> donation \<Rightarrow> donation" where
  "refunded_row k now d r = r\<lparr>d_refundedCents := k, d_status := (if d_amountCents d \<le> k then ''refunded'' else ''completed''),
     d_refundedAt := (if d_amountCents d \<le> k then Some now else d_refundedAt d)\<rparr>"

lemma refundPaymentIntent_cases:
  assumes "refundPaymentIntent intent n now w = w'"
  obtains (ignored) "w' = w" "\<And>t. refundPaymentIntent intent n t w = w"
  | (refunded) d player k l where
      "List.find (\<lambda>d. d_stripePaymentIntentId d = Some intent) (donations w) = Some d"
      "findUnique p_id (d_playerId d) (players w) = Some player" "p_id player = d_playerId d"
      "k = next_refunded (d_amountCents d) (d_refundedCents d) (int_num n)" "d_refundedCents d < k"
      "lp_totalDonatedCents l = max 0 (p_totalDonatedCents player - (k - d_refundedCents d))"
      "lp_supporter l \<longleftrightarrow> 0 < lp_totalDonatedCents l"
      "w' = set_ledger (p_id player) l (w\<lparr>donations := updateRow d_id (d_id d) (refunded_row k now d) (donations w)\<rparr>)"
proof (cases "\<exists>d player. List.find (\<lambda>d. d_stripePaymentIntentId d = Some intent) (donations w) = Some d \<and>
    findUnique p_id (d_playerId d) (players w) = Some player \<and>
    d_refundedCents d < next_refunded (d_amountCents d) (d_refundedCents d) (int_num n)")
  case False
  have "refundPaymentIntent intent n t w = w" for t
    using False by (auto simp: refundPaymentIntent_def applyChargeRefund_def Let_def split: option.split)
  with assms ignored show thesis by blast
next
  case True
  then obtain d player where d: "List.find (\<lambda>d. d_stripePaymentIntentId d = Some intent) (donations w) = Some d"
    and p: "findUnique p_id (d_playerId d) (players w) = Some player"
    and k: "d_refundedCents d < next_refunded (d_amountCents d) (d_refundedCents d) (int_num n)" by blast
  show thesis
    by (rule refunded [OF d p findUnique_Some [OF p, THEN conjunct2] refl k, of
          "fst (snd (applyChargeRefund (Some \<lparr>ld_sessionId = d_stripeCheckoutSessionId d, ld_paymentIntentId = d_stripePaymentIntentId d,
             ld_amountCents = d_amountCents d, ld_refundedCents = d_refundedCents d,
             ld_status = (if d_status d = ''refunded'' then DonationRefunded else DonationCompleted)\<rparr>) (int_num n) (ledger_of player)))"])
      (use assms d p k in \<open>auto simp: refundPaymentIntent_def applyChargeRefund_def Let_def ledger_of_def refunded_row_def [abs_def]\<close>)
qed

lemma next_refunded_range: "r \<le> a \<Longrightarrow> r \<le> next_refunded a r n \<and> next_refunded a r n \<le> a"
  by (auto simp: next_refunded_def split: jsnum.split)

lemma next_refunded_idem: "next_refunded a (next_refunded a r n) n = next_refunded a r n"
  by (auto simp: next_refunded_def min_def max_def split: jsnum.split)

lemma refund_ledger:
  assumes "ledger_ok w"
  shows "ledger_ok (refundPaymentIntent intent n now w)"
proof -
  obtain w' where "refundPaymentIntent intent n now w = w'" by simp
  then have "ledger_ok w'"
  proof (cases rule: refundPaymentIntent_cases)
    case ignored
    with assms show ?thesis by simp
  next
    case (refunded d player k l)
    note ok = assms [unfolded ledger_ok_def]
    have d: "d \<in> set (donations w)" "donation_ok d" using find_Some_set [OF refunded(1)] ok by (auto simp: list_all_iff)
    have p: "player \<in> set (players w)" using findUnique_Some [OF refunded(2)] by simp
    have pt: "p_totalDonatedCents player = paid_total (donations w) (p_id player)"
      using ok p by (simp add: list_all_iff player_ok_def)
    have k: "k \<le> d_amountCents d" using refunded(4) d(2) next_refunded_range by (simp add: donation_ok_def)
    let ?f = "refunded_row k now d"
    let ?ds = "updateRow d_id (d_id d) ?f (donations w)"
    have f: "d_playerId (?f x) = d_playerId x" "d_id (?f x) = d_id x"
      "d_stripeCheckoutSessionId (?f x) = d_stripeCheckoutSessionId x" "d_amountCents (?f x) = d_amountCents x"
      "d_refundedCents (?f x) = k" for x by (simp_all add: refunded_row_def)
    have total: "paid_total ?ds pid = paid_total (donations w) pid + (if d_playerId d = pid then d_refundedCents d - k else 0)" for pid
      using paid_total_update [of "donations w" d ?f pid] ok d(1) f by (simp add: net_def)
    have l: "lp_totalDonatedCents l = paid_total ?ds (p_id player)"
      using refunded(3,6) pt net_le_total [OF _ d(1)] ok k by (simp add: total net_def)
    have "donation_ok (?f d)"
      using d(2) k refunded(5) by (auto simp: donation_ok_def refunded_row_def)
    then have "list_all donation_ok ?ds"
      using ok d(1) by (auto simp: list_all_iff inj_on_def distinct_map dest!: in_updateRow)
    moreover have "list_all (player_ok ?ds) (players w')"
      unfolding refunded(8)
    proof (rule set_ledger_players)
      show "list_all (player_ok ?ds) (filter (\<lambda>p. p_id p \<noteq> p_id player) (players (w\<lparr>donations := ?ds\<rparr>)))"
        using ok refunded(3) by (auto simp: list_all_iff player_ok_def total)
    qed (use ok p l refunded(7) in simp_all)
    moreover have "map p_id (players w') = map p_id (players w)" "donations w' = ?ds" "idgen w' = idgen w" "idctr w' = idctr w"
      by (simp_all add: refunded(8) set_ledger_def map_updateRow)
    moreover from this have "drawn w' = drawn w" by (simp add: drawn_def fun_eq_iff)
    ultimately show ?thesis
      unfolding ledger_ok_def using ok f by (simp add: map_updateRow)
  qed
  then show ?thesis using \<open>refundPaymentIntent intent n now w = w'\<close> by simp
qed

lemma credit_ledger:
  assumes "ledger_ok w"
  shows "ledger_ok (creditPaidSession E object now w)"
proof -
  obtain w' where w': "creditPaidSession E object now w = w'" by simp
  then have "ledger_ok w'"
  proof (cases rule: creditPaidSession_cases)
    case ignored
    with assms show ?thesis by simp
  next
    case (credited paid player item rows w1)
    then show ?thesis using ledger_same [OF store_donation_ledger [OF assms]] by blast
  qed
  with w' show ?thesis by simp
qed

section \<open>Properties of donations\<close>

definition sample_player :: player where
  "sample_player = \<lparr>p_id = ''p1'', p_orgId = ''o'', p_serverInstanceId = ''s1'', p_identityKey = ''name:alex'', p_steamId = Some ''7656'',
     p_ipAddress = None, p_name = ''Alex'', p_online = False, p_currentSessionStartedAt = None, p_lifetimeSeconds = 0, p_lastPos = None,
     p_lastLogoutAt = None, p_supporter = False, p_supporterSince = None, p_totalDonatedCents = 0, p_portalPasswordHash = None,
     p_firstSeenAt = 0, p_lastSeenAt = 0\<rparr>"

definition sample_shop :: world where
  "sample_shop = (empty_world nat_str)\<lparr>players := [sample_player]\<rparr>"

definition sample_pay :: env where
  "sample_pay = sample_env\<lparr>e_parseJson := (\<lambda>_. Some (Obj [(''type'', Str ''checkout.session.completed''),
     (''data'', Obj [(''object'', Obj sample_session)])]))\<rparr>"

lemma sample_ledger: "ledger_ok sample_shop"
  by (simp add: sample_shop_def sample_player_def empty_world_def ledger_ok_def player_ok_def paid_total_def inj_nat_str)

text \<open>C16: the books balance. Whatever webhooks arrive, in whatever order and however often, the total
  of every player is what its donations were paid less what was refunded, a player is a supporter
  exactly with a positive total, no donation is refunded beyond its amount, it counts as refunded
  exactly when it is refunded in full, and no session of Stripe has two donations.\<close>

theorem handleWebhook_ledger:
  assumes "ledger_ok w"
  shows "ledger_ok (snd (handleWebhook E S body signature now w))"
  using assms credit_ledger refund_ledger
  by (auto simp: handleWebhook_def split: sum.split stripeError.split prod.split option.split)

theorem handleWebhook_ledger_witness:
  "ledger_ok (snd (handleWebhook sample_pay sample_stripe ''{}'' (Some ''t=1,v1=aa'') 1000 sample_shop))"
  by (rule handleWebhook_ledger [OF sample_ledger])

lemma secrets_trimmed: "s \<in> set (stripeWebhookSecrets E S w) \<Longrightarrow> trim s = s"
proof -
  have "trim (decryptSecret E v) = decryptSecret E v" for v by (auto simp: decryptSecret_def split: option.split)
  moreover have "trim (stripeWebhookSecret S) = stripeWebhookSecret S"
    by (simp add: stripeWebhookSecret_def nonDefaultSecret_def Let_def)
  ultimately show "s \<in> set (stripeWebhookSecrets E S w) \<Longrightarrow> trim s = s"
    by (auto simp: stripeWebhookSecrets_def Let_def dest!: in_set_takeD split: if_splits)
qed

text \<open>C18: a webhook without a valid signature changes nothing: it is refused unless its header has a
  time at most five minutes from now and a signature of the time and the body, made with one of the
  secrets the server is configured with.\<close>

theorem handleWebhook_forged:
  assumes "list_all (\<lambda>secret. \<not> authentic S body (opt_or signature []) secret (now div 1000)) (stripeWebhookSecrets E S w)"
  shows "\<exists>e. handleWebhook E S body signature now w = (Inl e, w)"
proof (cases "constructStripeEventWithSecrets E S body signature (stripeWebhookSecrets E S w) (now div 1000)")
  case (Inl x)
  then show ?thesis by (cases x) (simp_all add: handleWebhook_def)
next
  case (Inr ev)
  then show ?thesis using event_authentic [OF Inr] assms secrets_trimmed by (fastforce simp: list_all_iff)
qed

theorem handleWebhook_forged_witness:
  "\<exists>e. handleWebhook sample_pay sample_stripe ''{}'' (Some ''t=1'') 1000 sample_shop = (Inl e, sample_shop)"
proof -
  have s: "split CHR '','' ''t=1'' = [''t=1'']" "take 2 (split CHR ''='' (trim ''t=1'')) = [''t'', ''1'']" by code_simp+
  have "\<not> authentic sample_stripe ''{}'' (opt_or (Some ''t=1'') []) secret (1000 div 1000)" for secret
    by (simp add: authentic_def header_has_def opt_or_def s)
  then show ?thesis
    by (intro handleWebhook_forged) (simp add: list_all_iff)
qed

text \<open>An accepted event is the one the body describes.\<close>

definition body_event :: "env \<Rightarrow> string \<Rightarrow> (string \<times> obj) option" where
  "body_event E body = (case e_parseJson E body of None \<Rightarrow> None
     | Some event \<Rightarrow> (case field event ''type'' of
         Str ty \<Rightarrow> Some (ty, case field (field event ''data'') ''object'' of Obj o' \<Rightarrow> o' | _ \<Rightarrow> []) | _ \<Rightarrow> None))"

lemma construct_event: "constructStripeEvent E S body sig secret nowSec = Inr ev \<Longrightarrow> body_event E body = Some ev"
  by (auto simp: constructStripeEvent_def body_event_def split: if_splits option.splits js.splits)

lemma try_secrets_event: "try_secrets E S body sig nowSec e secrets = Inr ev \<Longrightarrow> body_event E body = Some ev"
proof (induction secrets arbitrary: e)
  case (Cons secret secrets)
  then show ?case
    using construct_event [of E S body sig secret nowSec]
    by (cases "constructStripeEvent E S body sig secret nowSec") (auto split: stripeError.splits)
qed simp

lemma accepted_event:
  "constructStripeEventWithSecrets E S body sig secrets nowSec = Inr ev \<Longrightarrow> body_event E body = Some ev"
  by (auto simp: constructStripeEventWithSecrets_def Let_def split: if_splits dest: try_secrets_event)

definition apply_event :: "env \<Rightarrow> ms \<Rightarrow> string \<times> obj \<Rightarrow> world \<Rightarrow> world" where
  "apply_event E now ev w = (case ev of (ty, object) \<Rightarrow>
     if ty = ''checkout.session.completed'' then creditPaidSession E object now w
     else if ty = ''charge.refunded'' then
       (case parseChargeRefund object of None \<Rightarrow> w | Some (pid, n) \<Rightarrow> refundPaymentIntent pid n now w)
     else if ty = ''charge.dispute.closed'' then
       (case parseLostDispute object of None \<Rightarrow> w | Some (pid, n) \<Rightarrow> refundPaymentIntent pid n now w)
     else w)"

lemma handleWebhook_event:
  assumes "handleWebhook E S body sig now w = (r, w')"
  shows "(\<exists>e. r = Inl e) \<and> w' = w \<or> r = Inr () \<and> (\<exists>ev. body_event E body = Some ev \<and> w' = apply_event E now ev w)"
proof (cases "constructStripeEventWithSecrets E S body sig (stripeWebhookSecrets E S w) (now div 1000)")
  case (Inl x)
  then show ?thesis using assms by (cases x) (auto simp: handleWebhook_def)
next
  case (Inr ev)
  obtain ty object where ev: "ev = (ty, object)" by fastforce
  have "r = Inr ()" "w' = apply_event E now ev w"
    using assms Inr unfolding handleWebhook_def apply_event_def ev by simp_all
  then show ?thesis using accepted_event [OF Inr] by blast
qed

lemma credit_idem: "creditPaidSession E object t2 (creditPaidSession E object t1 w) = creditPaidSession E object t1 w"
proof -
  obtain w1 where w1: "creditPaidSession E object t1 w = w1" by simp
  then have "creditPaidSession E object t2 w1 = w1"
  proof (cases rule: creditPaidSession_cases)
    case ignored
    have "parsePaidCheckoutSession object = None \<or> (\<exists>paid. parsePaidCheckoutSession object = Some paid)" by auto
    then show ?thesis
      using ignored(2) unfolding ignored(1)
      by (auto simp: creditPaidSession_def findUnique_None find_None_set split: option.splits dest!: find_Some_set)
  next
    case (credited paid player item rows w2)
    have "pd_sessionId paid \<in> d_stripeCheckoutSessionId ` set (donations w2)"
      unfolding credited(5) store_donation_def Let_def set_ledger_frame
      using add_lines_frame(1) by (simp add: same_money_def)
    then have "pd_sessionId paid \<in> d_stripeCheckoutSessionId ` set (donations w1)"
      using credited(6) by (simp add: same_money_def)
    then show ?thesis
      using credited(1) by (auto simp: creditPaidSession_def findUnique_None split: option.split)
  qed
  with w1 show ?thesis by simp
qed

lemma find_update_first:
  assumes "List.find P ds = Some d" and "\<And>x. P (f x) \<longleftrightarrow> P x" and "\<And>x. d_id (f x) = d_id x"
  shows "List.find P (updateRow d_id (d_id d) f ds) = Some (f d)"
  using assms by (induction ds) (auto split: if_splits)

lemma refund_idem: "refundPaymentIntent i n t2 (refundPaymentIntent i n t1 w) = refundPaymentIntent i n t1 w"
proof -
  obtain w1 where w1: "refundPaymentIntent i n t1 w = w1" by simp
  then have "refundPaymentIntent i n t2 w1 = w1"
  proof (cases rule: refundPaymentIntent_cases)
    case ignored
    then show ?thesis by simp
  next
    case (refunded d player k l)
    let ?f = "refunded_row k t1 d"
    have ds: "donations w1 = updateRow d_id (d_id d) ?f (donations w)" by (simp add: refunded(8) set_ledger_def)
    have "List.find (\<lambda>d. d_stripePaymentIntentId d = Some i) (donations w1) = Some (?f d)"
      unfolding ds by (rule find_update_first [OF refunded(1)]) (simp_all add: refunded_row_def)
    moreover have "next_refunded (d_amountCents (?f d)) (d_refundedCents (?f d)) (int_num n) = d_refundedCents (?f d)"
      using refunded(4) by (simp add: refunded_row_def next_refunded_idem)
    ultimately show ?thesis
      by (auto simp: refundPaymentIntent_def applyChargeRefund_def Let_def split: option.split)
  qed
  with w1 show ?thesis by simp
qed

lemma apply_event_idem: "apply_event E t2 ev (apply_event E t1 ev w) = apply_event E t1 ev w"
  by (cases ev) (simp add: apply_event_def credit_idem refund_idem split: option.split)

text \<open>C17: a webhook counts once. When it has been accepted, sending it again, at any time and with any
  signature, changes nothing: neither a payment nor a refund is booked twice, and no announcement,
  delivery or reward is repeated.\<close>

theorem handleWebhook_replay:
  assumes "handleWebhook E S body signature t1 w = (Inr u, w1)"
  shows "snd (handleWebhook E S body signature' t2 w1) = w1"
proof -
  obtain ev where ev: "body_event E body = Some ev" "w1 = apply_event E t1 ev w" using handleWebhook_event [OF assms] by blast
  obtain r w2 where w2: "handleWebhook E S body signature' t2 w1 = (r, w2)" by fastforce
  have "w2 = w1" using handleWebhook_event [OF w2] ev apply_event_idem by auto
  with w2 show ?thesis by simp
qed

lemma sample_accepted: "\<exists>u w1. handleWebhook sample_pay sample_stripe ''{}'' (Some (''t=1,v1='' @ replicate 64 CHR ''a'')) 1000 sample_shop = (Inr u, w1)"
proof -
  have s: "stripeWebhookSecrets sample_pay sample_stripe sample_shop = [''whsec'']" by code_simp
  have "constructStripeEventWithSecrets sample_pay sample_stripe ''{}'' (Some (''t=1,v1='' @ replicate 64 CHR ''a'')) [''whsec''] (1000 div 1000) =
    Inr (''checkout.session.completed'', sample_session)" by code_simp
  then show ?thesis unfolding handleWebhook_def s by simp
qed

theorem handleWebhook_replay_witness:
  "\<exists>w1. handleWebhook sample_pay sample_stripe ''{}'' (Some (''t=1,v1='' @ replicate 64 CHR ''a'')) 1000 sample_shop = (Inr (), w1) \<and>
     snd (handleWebhook sample_pay sample_stripe ''{}'' (Some (''t=1,v1='' @ replicate 64 CHR ''a'')) 2000 w1) = w1"
  using sample_accepted handleWebhook_replay by (metis (full_types) old.unit.exhaust)

lemma paid_player:
  "parsePaidCheckoutSession object = Some paid \<Longrightarrow> get object ''metadata'' = Obj m \<Longrightarrow> get m ''playerId'' = Str i \<Longrightarrow> pd_playerId paid = i"
  by (auto simp: parsePaidCheckoutSession_def Let_def field_def is_object_def split: if_splits option.splits js.splits)

text \<open>With Stripe configured and answering, a donation of an accepted amount is given a checkout page, also
  to a player who signed in by name.\<close>

definition name_checkout :: "stripe \<Rightarrow> checkoutPlayer \<Rightarrow> int \<Rightarrow> string \<Rightarrow> string \<Rightarrow> checkoutInput" where
  "name_checkout S player n origin secretKey =
     \<lparr>ci_amountCents = Some n, ci_playerId = cp_id player, ci_steamId = syntheticSteam player,
        ci_serverInstanceId = cp_serverInstanceId player, ci_orgId = cp_orgId player, ci_origin = origin,
        ci_secretKey = Some secretKey, ci_productName = Some ''Server support'',
        ci_productDescription = Some (if by_name player then ''Support tied to Minecraft name '' @ opt_or (cp_name player) []
          else ''Support tied to Steam ending '' @ last_n 4 (syntheticSteam player)),
        ci_shopItemId = None, ci_lineItems = [], ci_returnPath = Some ''/player/profile''\<rparr>"

lemma checkout_page:
  assumes "stripeCheckoutConfigured S" and "checkoutOrigin S = Inr origin"
    and "\<And>key form. se_fetch S key form = Some (True, Obj [(''url'', Str (page form))])" and "\<And>form. isStripeHttpsUrl S (page form)"
    and "cp_sessionAuth player = Some ''name''" and "parseDonationAmountCents amount = Some n"
  shows "\<exists>key. createCheckout E S player amount Undefined Undefined w =
    Inr (page (checkout_form (name_checkout S player n origin key) (checkout_lines (name_checkout S player n origin key))))"
proof -
  have key_ok: "or_str x (stripeSecretKey S) \<noteq> []" "or_str x (stripeWebhookSecret S) \<noteq> []" for x
    using assms(1) by (simp_all add: stripeCheckoutConfigured_def or_str_def)
  then have "stripeCredentialsForOrg E S (cp_orgId player) w \<noteq> None" by (simp add: stripeCredentialsForOrg_def Let_def)
  then obtain key wh where key: "stripeCredentialsForOrg E S (cp_orgId player) w = Some (key, wh)" by auto
  have n: "0 < n" using assms(6) by (auto simp: parseDonationAmountCents_def MIN_DONATION_CENTS_def split: js.splits if_splits)
  let ?i = "name_checkout S player n origin key"
  have "checkout_lines ?i \<noteq> []" "\<not> list_ex (\<lambda>i. cl_amountCents i \<le> 0) (checkout_lines ?i)"
    using n by (simp_all add: checkout_lines_def name_checkout_def opt_or_def)
  then have "createCheckoutSession S ?i = Inr (page (checkout_form ?i (checkout_lines ?i)))"
    using assms(3,4) key_ok by (simp add: createCheckoutSession_def Let_def field_def get_def)
  then have "createCheckout E S player amount Undefined Undefined w = Inr (page (checkout_form ?i (checkout_lines ?i)))"
    using assms(2,5,6) key
    by (simp add: createCheckout_def parseShopItemIds_def parseShopItemId_def checkout_result_def name_checkout_def Let_def)
  then show ?thesis by blast
qed

text \<open>C27: the payments of players who signed in by name are lost. When Stripe is configured and answers, such a
  player without a Steam account who asks to donate an accepted amount is given a checkout page, made with the
  made-up account \<open>mc:\<close> and the player id; but when Stripe reports the session of that page as paid, in whatever
  later state in which the player still has no Steam account stored, nothing is booked or delivered: the
  crediting looks for the player with the account in the session.\<close>

theorem name_payment_dropped:
  assumes "stripeCheckoutConfigured S" and "checkoutOrigin S = Inr origin"
    and "\<And>key form. se_fetch S key form = Some (True, Obj [(''url'', Str (page form))])" and "\<And>form. isStripeHttpsUrl S (page form)"
    and "cp_sessionAuth player = Some ''name''" and "cp_steamId player = None" and "parseDonationAmountCents amount = Some n"
  shows "\<exists>inp. ci_playerId inp = cp_id player \<and> ci_steamId inp = ''mc:'' @ cp_id player \<and> ci_amountCents inp = Some n \<and>
    createCheckout E S player amount Undefined Undefined w = Inr (page (checkout_form inp (checkout_lines inp))) \<and>
    (\<forall>v object now. list_all (\<lambda>p. p_id p = cp_id player \<longrightarrow> p_steamId p = None) (players v) \<and>
       get object ''metadata'' = Obj (map (\<lambda>(k, x). (k, Str x)) (session_metadata inp (checkout_lines inp))) \<longrightarrow>
       creditPaidSession E object now v = v)"
proof -
  obtain key where page: "createCheckout E S player amount Undefined Undefined w =
      Inr (page (checkout_form (name_checkout S player n origin key) (checkout_lines (name_checkout S player n origin key))))"
    using checkout_page [OF assms(1-5,7)] by blast
  let ?i = "name_checkout S player n origin key"
  have "creditPaidSession E object now v = v"
    if none: "list_all (\<lambda>p. p_id p = cp_id player \<longrightarrow> p_steamId p = None) (players v)"
      and meta: "get object ''metadata'' = Obj (map (\<lambda>(k, x). (k, Str x)) (session_metadata ?i (checkout_lines ?i)))" for v object now
  proof (cases "parsePaidCheckoutSession object")
    case None
    then show ?thesis by (simp add: creditPaidSession_def)
  next
    case (Some paid)
    have "get (map (\<lambda>(k, x). (k, Str x)) (session_metadata ?i (checkout_lines ?i))) ''playerId'' = Str (cp_id player)"
      by (simp add: get_def session_metadata_def Let_def) (simp add: name_checkout_def)
    with paid_player [OF Some meta] have "pd_playerId paid = cp_id player" by simp
    then have "List.find (\<lambda>p. p_id p = pd_playerId paid \<and> p_steamId p = Some (pd_steamId paid) \<and>
        p_serverInstanceId p = pd_serverInstanceId paid \<and> p_orgId p = pd_orgId paid) (players v) = None"
      using none by (auto simp: find_None_set list_all_iff)
    then show ?thesis using Some by (simp add: creditPaidSession_def)
  qed
  moreover have "ci_playerId ?i = cp_id player" "ci_steamId ?i = ''mc:'' @ cp_id player" "ci_amountCents ?i = Some n"
    using assms(6) by (simp_all add: name_checkout_def syntheticSteam_def opt_or_def or_str_def)
  ultimately show ?thesis using page by blast
qed

definition sample_buyer :: checkoutPlayer where
  "sample_buyer = \<lparr>cp_id = ''p1'', cp_steamId = None, cp_serverInstanceId = ''s1'', cp_orgId = ''o'', cp_name = Some ''Alex'',
     cp_sessionAuth = Some ''name''\<rparr>"

definition sample_till :: stripe where
  \<comment> \<open>a Stripe that gives every checkout a page\<close>
  "sample_till = sample_stripe\<lparr>se_fetch := (\<lambda>key form. Some (True, Obj [(''url'', Str ''https://checkout.stripe.com/c'')])),
     se_url := (\<lambda>_. Some (''https:'', ''checkout.stripe.com'')), se_publicWebUrl := Some ''https://mc.example''\<rparr>"

theorem name_payment_dropped_witness:
  "\<exists>inp. createCheckout sample_pay sample_till sample_buyer (JInt 1000) Undefined Undefined sample_shop = Inr ''https://checkout.stripe.com/c'' \<and>
     ci_steamId inp = ''mc:p1'' \<and>
     creditPaidSession sample_pay [(''id'', Str ''cs_1''), (''payment_status'', Str ''paid''), (''amount_total'', JInt 1000),
         (''metadata'', Obj (map (\<lambda>(k, x). (k, Str x)) (session_metadata inp (checkout_lines inp))))] 1000
       (sample_shop\<lparr>players := [sample_player\<lparr>p_steamId := None\<rparr>]\<rparr>) = sample_shop\<lparr>players := [sample_player\<lparr>p_steamId := None\<rparr>]\<rparr>"
proof -
  have 1: "stripeCheckoutConfigured sample_till" "checkoutOrigin sample_till = Inr ''https://mc.example''"
    "parseDonationAmountCents (JInt 1000) = Some 1000" by code_simp+
  have 2: "se_fetch sample_till key form = Some (True, Obj [(''url'', Str ((\<lambda>_. ''https://checkout.stripe.com/c'') form))])"
    "isStripeHttpsUrl sample_till ((\<lambda>_. ''https://checkout.stripe.com/c'') form)" for key form
    by (simp_all add: sample_till_def isStripeHttpsUrl_def)
  have 3: "cp_sessionAuth sample_buyer = Some ''name''" "cp_steamId sample_buyer = None" "cp_id sample_buyer = ''p1''"
    by (simp_all add: sample_buyer_def)
  show ?thesis
    using name_payment_dropped [OF 1(1,2) 2 3(1,2) 1(3), of sample_pay sample_shop] by (auto simp: 3(3) get_def)
qed

end
