(* ===== verification/Portal.thy ===== *)
theory Portal
  imports Sessions Job_Create Donations
begin

text \<open>
  The player portal: control-plane/src/player-auth/player-auth.service.ts and player-auth.names.ts. Players
  sign in with Steam or with the name they have on the server and a password they chose; the portal shows them
  their profile, the map and the mods. The answer of Steam, the URL class and the two orders of
  strings (of the database and of \<open>localeCompare\<close>) are parameters.

  Shown: a registered name can sign in again and its session reads the registered player; a token of one kind is
  accepted only as that kind even when all secrets are equal; a return path never leaves the portal. Also shown:
  whoever registers the name of an administrator first gets what is kept for administrators.
\<close>

section \<open>Names, passwords and paths\<close>

definition MAX_PORTAL_PLAYER_NAME :: nat where "MAX_PORTAL_PLAYER_NAME = 64"
definition MIN_PORTAL_PASSWORD :: nat where "MIN_PORTAL_PASSWORD = 8"
definition MAX_PORTAL_PASSWORD :: nat where "MAX_PORTAL_PASSWORD = 128"

definition name_char :: "char \<Rightarrow> bool" where
  "name_char c \<longleftrightarrow> is_alnum c \<or> c = CHR ''_''"

definition parsePortalPlayerName :: "js \<Rightarrow> string option" where
  "parsePortalPlayerName raw = (case raw of
     Str s \<Rightarrow> (let name = trim s in if name \<noteq> [] \<and> length name \<le> 16 \<and> list_all name_char name then Some name else None)
   | _ \<Rightarrow> None)"

definition parsePortalPassword :: "js \<Rightarrow> string option" where
  "parsePortalPassword raw = (case raw of
     Str s \<Rightarrow> if length s < MIN_PORTAL_PASSWORD \<or> length s > MAX_PORTAL_PASSWORD then None
       else if list_ex (\<lambda>c. code c \<le> 31 \<or> code c = 127) s then None else Some s
   | _ \<Rightarrow> None)"

definition portal_paths :: "string list" where
  "portal_paths = [''/player'', ''/player/shop'', ''/player/shop/cart'', ''/player/map'']"

definition shop_item_path :: "string \<Rightarrow> bool" where
  \<comment> \<open>\<open>/^\/player\/shop\/[a-zA-Z0-9_-]{10,40}$/\<close>\<close>
  "shop_item_path path \<longleftrightarrow> startsWith path ''/player/shop/'' \<and>
     (let i = drop 13 path in 10 \<le> length i \<and> length i \<le> 40 \<and> list_all (\<lambda>c. name_char c \<or> c = CHR ''-'') i)"

definition parseShopReturnPath :: "js \<Rightarrow> string" where
  "parseShopReturnPath raw = (case raw of
     Str s \<Rightarrow> (let path = trim s in if path \<in> set portal_paths then path else if shop_item_path path then path else ''/player/shop'')
   | _ \<Rightarrow> ''/player/shop'')"

text \<open>Where a sign-in goes on is always a page of the portal.\<close>

lemma return_path_inside: "startsWith (parseShopReturnPath raw) ''/player''"
proof -
  have "startsWith p ''/player''" if "p \<in> set portal_paths \<or> shop_item_path p" for p
    using that by (auto simp: portal_paths_def shop_item_path_def startsWith_iff)
  moreover have "''/player/shop'' \<in> set portal_paths" by (simp add: portal_paths_def)
  ultimately show ?thesis by (auto simp: parseShopReturnPath_def Let_def split: js.split)
qed

section \<open>Surroundings\<close>

record portalEnv =
  po_configured :: string
  po_url :: "string \<Rightarrow> (string \<times> string) option"
  po_steam :: "(string \<times> string) list \<Rightarrow> (bool \<times> string) option"
  po_dbRank :: "string \<Rightarrow> rat"
  po_localeRank :: "string \<Rightarrow> rat"
  po_iso :: "ms \<Rightarrow> string"

text \<open>The fields: \<open>PLAYER_PORTAL_SERVER_ID\<close>; protocol and normal form of \<open>new URL\<close> (None when it throws); the
  answer of Steam (None when it cannot be reached) with its text; the place of a string in the order of the
  database and of \<open>localeCompare\<close>; \<open>toISOString\<close>.\<close>

definition portalText :: "js \<Rightarrow> nat \<Rightarrow> string" where
  "portalText value n = (case value of Str s \<Rightarrow> take n (trim s) | _ \<Rightarrow> [])"

definition publicDownloadUrl :: "portalEnv \<Rightarrow> js \<Rightarrow> string option" where
  "publicDownloadUrl P value =
     (let text = portalText value 2048 in
      if text = [] then None
      else (case po_url P text of
              None \<Rightarrow> None
            | Some (protocol, href) \<Rightarrow> if protocol = ''https:'' \<or> protocol = ''http:'' then Some href else None))"

definition hostLooksOnline :: "host \<Rightarrow> ms \<Rightarrow> bool" where
  "hostLooksOnline h now =
     (if h_status h = Some ''online'' then True
      else if h_status h = Some ''offline'' then False
      else (case h_lastHeartbeatAt h of None \<Rightarrow> False | Some t \<Rightarrow> now - t < 120000))"

definition portal_id :: "string \<Rightarrow> bool" where
  \<comment> \<open>\<open>/^c[a-z0-9]{10,40}$/i\<close>\<close>
  "portal_id s = (case s of [] \<Rightarrow> False
     | c # r \<Rightarrow> lower_char c = CHR ''c'' \<and> 10 \<le> length r \<and> length r \<le> 40 \<and> list_all is_alnum r)"

definition hex_digit :: "nat \<Rightarrow> char" where
  "hex_digit n = ''0123456789ABCDEF'' ! n"

definition encodeURIComponent :: "string \<Rightarrow> string" where
  "encodeURIComponent s = concat (map (\<lambda>c.
     if is_alnum c \<or> c \<in> set ''-_.!~*()'' \<or> code c = 39 then [c]
     else [CHR ''%'', hex_digit (code c div 16), hex_digit (code c mod 16)]) s)"

section \<open>Tokens of players\<close>

definition name_claims :: "id \<Rightarrow> id \<Rightarrow> obj" where
  "name_claims playerId serverInstanceId =
     [(''sub'', Str playerId), (''kind'', Str ''player''), (''auth'', Str ''name''), (''serverInstanceId'', Str serverInstanceId)]"

definition steam_claims :: "id \<Rightarrow> string \<Rightarrow> id \<Rightarrow> obj" where
  "steam_claims playerId steamId serverInstanceId =
     [(''sub'', Str playerId), (''kind'', Str ''player''), (''auth'', Str ''steam''), (''steamId'', Str steamId), (''serverInstanceId'', Str serverInstanceId)]"

datatype sessionAuth = Steam | Name

definition requirePlayer :: "authEnv \<Rightarrow> string \<Rightarrow> world \<Rightarrow> (player \<times> sessionAuth) res" where
  "requirePlayer A token w =
     (case au_verify A PlayerSecret token of
        None \<Rightarrow> Inl (UnauthorizedException ''Player session expired'')
      | Some payload \<Rightarrow>
          let sub = str_of (get payload ''sub''); serverInstanceId = str_of (get payload ''serverInstanceId'');
              steamId = str_of (get payload ''steamId''); auth = (if get payload ''auth'' = Str ''name'' then Name else Steam)
          in if get payload ''kind'' \<noteq> Str ''player'' \<or> sub = [] \<or> serverInstanceId = [] \<or> (auth = Steam \<and> steamId = [])
             then Inl (UnauthorizedException ''Player session invalid'')
             else (case List.find (\<lambda>p. p_id p = sub \<and> p_serverInstanceId p = serverInstanceId \<and> (auth = Steam \<longrightarrow> p_steamId p = Some steamId)) (players w) of
                     None \<Rightarrow> Inl (UnauthorizedException ''Player no longer registered'')
                   | Some player \<Rightarrow>
                       if auth = Steam \<and> opt_or (p_steamId player) [] = [] then Inl (UnauthorizedException ''Player no longer registered'')
                       else if auth = Name \<and> opt_or (p_portalPasswordHash player) [] = [] then Inl (UnauthorizedException ''Player session invalid'')
                       else Inr (player, auth)))"

section \<open>Steam\<close>

definition steam_params :: "obj \<Rightarrow> (string \<times> string) list" where
  "steam_params openid = foldl (\<lambda>params (key, v). case v of
      Str s \<Rightarrow> if startsWith key ''openid.'' \<and> length s \<le> 4096 then map_put key s params else params
    | _ \<Rightarrow> params) [] openid"

definition claimed_steam :: "string \<Rightarrow> string option" where
  \<comment> \<open>\<open>CLAIMED_ID\<close>\<close>
  "claimed_steam s =
     (let rest = (if startsWith s ''https://steamcommunity.com/openid/id/'' then Some (drop 37 s)
                  else if startsWith s ''http://steamcommunity.com/openid/id/'' then Some (drop 36 s) else None)
      in case rest of None \<Rightarrow> None
         | Some d \<Rightarrow> if startsWith d ''7656119'' \<and> length d = 17 \<and> list_all is_digit d then Some d else None)"

definition drop_slash :: "string \<Rightarrow> string" where
  "drop_slash s = (if s \<noteq> [] \<and> last s = CHR ''/'' then butlast s else s)"

definition line_breaks :: "string \<Rightarrow> string" where
  "line_breaks s = map (\<lambda>c. if c = CHR 0x0D then CHR 0x0A else c) s"

definition steam_valid :: "string \<Rightarrow> bool" where
  \<comment> \<open>\<open>/(?:^|\n)is_valid:true(?:\r?$|\n)/m\<close>: some line is that text\<close>
  "steam_valid verification = list_ex (\<lambda>l. l = ''is_valid:true'') (split CHR 0x0A (line_breaks verification))"

definition server_name :: "id \<Rightarrow> world \<Rightarrow> string" where
  "server_name i w = (case findUnique si_id i (serverInstances w) of None \<Rightarrow> [] | Some s \<Rightarrow> si_name s)"

definition verifySteam :: "authEnv \<Rightarrow> portalEnv \<Rightarrow> id \<Rightarrow> string \<Rightarrow> obj \<Rightarrow> world \<Rightarrow> (string \<times> obj) res" where
  "verifySteam A P serverInstanceId returnTo openid w =
     (let params = steam_params openid; param = (\<lambda>k. opt_or (map_of params k) []);
          bad = Inl (UnauthorizedException ''Steam identity response is invalid'')
      in if \<not> portal_id serverInstanceId then Inl (BadRequestException ''Valid server required'')
         else if (case po_url P returnTo of None \<Rightarrow> True | Some (protocol, _) \<Rightarrow> protocol \<noteq> ''http:'' \<and> protocol \<noteq> ''https:'')
         then Inl (BadRequestException ''Invalid Steam return URL'')
         else if 32 < length openid then Inl (BadRequestException ''Steam identity response is too large'')
         else (case claimed_steam (param ''openid.claimed_id'') of
           None \<Rightarrow> bad
         | Some steam \<Rightarrow>
             if param ''openid.identity'' \<noteq> param ''openid.claimed_id'' \<or> map_of params ''openid.mode'' \<noteq> Some ''id_res'' then bad
             else if drop_slash (param ''openid.op_endpoint'') \<notin> {''https://steamcommunity.com/openid'', ''https://steamcommunity.com/openid/login''}
             then Inl (UnauthorizedException ''Unexpected Steam identity provider'')
             else if map_of params ''openid.return_to'' \<noteq> Some returnTo then Inl (UnauthorizedException ''Steam return URL did not match'')
             else (case po_steam P (map_put ''openid.mode'' ''check_authentication'' params) of
               Some (True, verification) \<Rightarrow>
                 if \<not> steam_valid verification then Inl (UnauthorizedException ''Steam could not verify this login'')
                 else (case List.find (\<lambda>p. p_serverInstanceId p = serverInstanceId \<and> p_steamId p = Some steam) (players w) of
                   None \<Rightarrow> Inl (UnauthorizedException ''This Steam account has not played on this server'')
                 | Some player \<Rightarrow>
                     Inr (au_sign A PlayerSecret (steam_claims (p_id player) steam serverInstanceId),
                       [(''name'', Str (p_name player)), (''steamId'', Str steam), (''serverInstanceId'', Str serverInstanceId),
                        (''serverName'', Str (server_name serverInstanceId w)), (''auth'', Str ''steam'')]))
             | _ \<Rightarrow> Inl (BadGatewayException ''Steam verification is unavailable''))))"

section \<open>The server of the portal\<close>

definition choose_server :: "string \<Rightarrow> serverInstance list \<Rightarrow> serverInstance option" where
  \<comment> \<open>the configured server, else the only Minecraft server, else the only server\<close>
  "choose_server configured rows =
     (case (if portal_id configured then findUnique si_id configured rows else None) of
        Some s \<Rightarrow> Some s
      | None \<Rightarrow>
          (case orderAsc si_createdAt (filter (\<lambda>s. si_gameType s = ''minecraft'') rows) of
             [s] \<Rightarrow> Some s
           | _ # _ # _ \<Rightarrow> None
           | [] \<Rightarrow> (case orderAsc si_createdAt rows of [s] \<Rightarrow> Some s | _ \<Rightarrow> None)))"

definition portalServer :: "portalEnv \<Rightarrow> world \<Rightarrow> serverInstance res" where
  "portalServer P w =
     (case choose_server (trim (po_configured P)) (serverInstances w) of
        Some s \<Rightarrow> Inr s
      | None \<Rightarrow> Inl (ServiceUnavailableException ''Player portal server is not configured''))"

definition publicMap :: "portalEnv \<Rightarrow> world \<Rightarrow> obj res" where
  "publicMap P w =
     (case portalServer P w of
        Inl e \<Rightarrow> Inl e
      | Inr s \<Rightarrow>
          let url = trim (opt_or (si_mapEmbedUrl s) [])
          in Inr [(''ok'', Bool True), (''serverId'', Str (si_id s)), (''serverName'', Str (si_name s)),
                  (''mapEmbedUrl'', js_null (or_null url)), (''configured'', Bool (url \<noteq> []))])"

definition shopStatus :: "portalEnv \<Rightarrow> stripe \<Rightarrow> ms \<Rightarrow> world \<Rightarrow> obj res" where
  "shopStatus P S now w =
     (case portalServer P w of
        Inl e \<Rightarrow> Inl e
      | Inr s \<Rightarrow>
          Inr [(''serverName'', Str (si_name s)), (''checkoutEnabled'', Bool (stripeCheckoutEnabledForOrg S (si_orgId s) w)),
               (''serverReachable'', Bool (case findUnique h_id (si_hostId s) (hosts w) of None \<Rightarrow> False | Some h \<Rightarrow> hostLooksOnline h now)),
               (''playersOnline'', JInt (countRows (\<lambda>p. p_serverInstanceId p = si_id s \<and> p_online p) (players w)))])"

definition landing_row :: "id \<Rightarrow> serverInstance \<Rightarrow> host \<Rightarrow> world \<Rightarrow> obj" where
  "landing_row orgId s h w =
     [(''id'', Str (si_id s)), (''name'', Str (si_name s)), (''hostName'', Str (h_name h)),
      (''playersOnline'', JInt (countRows (\<lambda>p. p_orgId p = orgId \<and> p_serverInstanceId p = si_id s \<and> p_online p \<and>
         \<not> startsWith (p_identityKey p) ''name:'') (players w))),
      (''shopPath'', Str (''/player/shop?server='' @ encodeURIComponent (si_id s))),
      (''mapPath'', Str (''/player/map?server='' @ encodeURIComponent (si_id s)))]"

definition em_dash :: string where
  "em_dash = [CHR 0xE2, CHR 0x80, CHR 0x94]"

definition publicLanding :: "portalEnv \<Rightarrow> ms \<Rightarrow> world \<Rightarrow> bool \<times> string option \<times> string \<times> obj list" where
  \<comment> \<open>\<open>ok\<close>, \<open>orgName\<close>, \<open>headline\<close> and the servers that are online\<close>
  "publicLanding P now w =
     (let orgId = (case portalServer P w of Inr s \<Rightarrow> Some (si_orgId s)
                   | Inl _ \<Rightarrow> (case orderAsc o_createdAt (orgs w) of [] \<Rightarrow> None | o' # _ \<Rightarrow> Some (o_id o')))
      in if opt_or orgId [] = [] then (False, None, ''Mastermind'', [])
         else
           let orgId = opt_or orgId [];
               orgName = or_str (case findUnique o_id orgId (orgs w) of None \<Rightarrow> [] | Some o' \<Rightarrow> trim (o_name o')) ''Mastermind'';
               instances = sort_key (\<lambda>s. po_dbRank P (si_name s)) (filter (\<lambda>s. si_orgId s = orgId) (serverInstances w));
               servers = List.map_filter (\<lambda>s. case findUnique h_id (si_hostId s) (hosts w) of
                   Some h \<Rightarrow> if hostLooksOnline h now then Some (landing_row orgId s h w) else None | None \<Rightarrow> None) instances;
               headline = (case servers of
                   [r] \<Rightarrow> orgName @ '' is Currently Hosting '' @ em_dash @ '' '' @ str_of (get r ''name'')
                 | _ # _ # _ \<Rightarrow> orgName @ '' is Currently Hosting''
                 | [] \<Rightarrow> orgName @ '' '' @ em_dash @ '' no servers online'')
           in (True, Some orgName, headline, servers))"

section \<open>Sign-in with a name\<close>

definition the_only :: "'a list \<Rightarrow> 'a option" where
  "the_only xs = (case xs of [x] \<Rightarrow> Some x | _ \<Rightarrow> None)"

definition pickPortalPlayerMatch :: "player list \<Rightarrow> player option" where
  "pickPortalPlayerMatch matches =
     (case matches of [] \<Rightarrow> None | [m] \<Rightarrow> Some m
      | _ \<Rightarrow> opt_orelse (the_only (filter (\<lambda>p. startsWith (toLowerCase (p_identityKey p)) ''uuid:'') matches))
          (opt_orelse (the_only (filter (\<lambda>p. opt_or (p_steamId p) [] \<noteq> []) matches))
          (opt_orelse (the_only (filter (\<lambda>p. opt_or (p_portalPasswordHash p) [] \<noteq> []) matches))
             (the_only (filter (\<lambda>p. \<not> startsWith (toLowerCase (p_identityKey p)) ''name:'') matches)))))"

definition named_players :: "id \<Rightarrow> string \<Rightarrow> world \<Rightarrow> player list" where
  "named_players serverInstanceId name w =
     take 8 (filter (\<lambda>p. p_serverInstanceId p = serverInstanceId \<and> toLowerCase (p_name p) = toLowerCase name) (players w))"

definition issueNameSession :: "authEnv \<Rightarrow> player \<Rightarrow> serverInstance \<Rightarrow> js \<Rightarrow> string \<times> string \<times> obj" where
  \<comment> \<open>the token, the path to go on with, and the player\<close>
  "issueNameSession A player s nextRaw =
     (au_sign A PlayerSecret (name_claims (p_id player) (si_id s)), parseShopReturnPath nextRaw,
      [(''name'', Str (p_name player)), (''steamId'', js_null (p_steamId player)), (''serverInstanceId'', Str (si_id s)),
       (''serverName'', Str (si_name s)), (''auth'', Str ''name'')])"

definition registerName :: "authEnv \<Rightarrow> portalEnv \<Rightarrow> js \<Rightarrow> js \<Rightarrow> js \<Rightarrow> string \<Rightarrow> world \<Rightarrow> (string \<times> string \<times> obj) res \<times> world" where
  "registerName A P name password nextRaw salt w =
     (case parsePortalPlayerName name of
        None \<Rightarrow> (Inl (BadRequestException ''Enter your in-game name exactly as it appears on the server''), w)
      | Some name \<Rightarrow>
          (case parsePortalPassword password of
             None \<Rightarrow> (Inl (BadRequestException ''Choose a password of at least 8 characters''), w)
           | Some password \<Rightarrow>
               (case portalServer P w of
                  Inl e \<Rightarrow> (Inl e, w)
                | Inr s \<Rightarrow>
                    let matches = named_players (si_id s) name w
                    in if matches = [] then (Inl (ConflictException ''That Minecraft name has not been seen on this server yet. Join the game once, then create an account.''), w)
                       else (case pickPortalPlayerMatch matches of
                               None \<Rightarrow> (Inl (ConflictException ''That name matches more than one player record. Contact staff for help.''), w)
                             | Some player \<Rightarrow>
                                 if opt_or (p_portalPasswordHash player) [] \<noteq> []
                                 then (Inl (ConflictException ''An account already exists for that name. Sign in instead.''), w)
                                 else (Inr (issueNameSession A player s nextRaw),
                                       w\<lparr>players := updateRow p_id (p_id player) (\<lambda>p. p\<lparr>p_portalPasswordHash := Some (makePasswordHash A password salt)\<rparr>) (players w)\<rparr>)))))"

definition loginName :: "authEnv \<Rightarrow> portalEnv \<Rightarrow> js \<Rightarrow> js \<Rightarrow> js \<Rightarrow> world \<Rightarrow> (string \<times> string \<times> obj) res" where
  "loginName A P name password nextRaw w =
     (case (parsePortalPlayerName name, parsePortalPassword password) of
        (Some name, Some password) \<Rightarrow>
          (case portalServer P w of
             Inl e \<Rightarrow> Inl e
           | Inr s \<Rightarrow>
               let player = pickPortalPlayerMatch (named_players (si_id s) name w);
                   hash = opt_or (Option.bind player p_portalPasswordHash) [];
                   valid = verifyPassword A password (or_str hash (au_dummy A))
               in (case player of
                     Some p \<Rightarrow> if hash = [] \<or> \<not> valid then Inl (UnauthorizedException ''In-game name or password is incorrect'')
                       else Inr (issueNameSession A p s nextRaw)
                   | None \<Rightarrow> Inl (UnauthorizedException ''In-game name or password is incorrect'')))
      | _ \<Rightarrow> Inl (UnauthorizedException ''In-game name or password is incorrect''))"

section \<open>Profile, mods and requests\<close>

definition isPortalAdmin :: "id \<Rightarrow> string \<Rightarrow> world \<Rightarrow> bool" where
  "isPortalAdmin orgId playerName w = list_ex (\<lambda>m. uo_orgId m = orgId \<and> uo_role m = ''admin'' \<and>
     (case Option.bind (findUnique u_id (uo_userId m) (users w)) u_name of None \<Rightarrow> False
      | Some n \<Rightarrow> toLowerCase (trim n) = toLowerCase (trim playerName))) (userOrgs w)"

definition portal_seconds :: "player \<Rightarrow> ms \<Rightarrow> int" where
  "portal_seconds p now =
     (case p_currentSessionStartedAt p of Some t \<Rightarrow> if p_online p then max 0 ((now - t) div 1000) else 0 | None \<Rightarrow> 0)"

definition last4 :: "string \<Rightarrow> string" where
  "last4 s = drop (length s - 4) s"

definition iso_js :: "portalEnv \<Rightarrow> ms option \<Rightarrow> js" where
  "iso_js P t = (case t of None \<Rightarrow> Null | Some t \<Rightarrow> Str (po_iso P t))"

definition donation_part :: "portalEnv \<Rightarrow> stripe \<Rightarrow> player \<Rightarrow> string \<Rightarrow> js list \<Rightarrow> world \<Rightarrow> js" where
  "donation_part P S p tiedTo recent w =
     Obj [(''status'', Str (if p_supporter p then ''supporter'' else ''ready'')), (''tiedTo'', Str tiedTo),
       (''steamLast4'', Str (last4 (opt_or (p_steamId p) []))), (''checkoutEnabled'', Bool (stripeCheckoutEnabledForOrg S (p_orgId p) w)),
       (''supporter'', Bool (p_supporter p)), (''supporterSince'', iso_js P (p_supporterSince p)),
       (''totalDonatedCents'', JInt (p_totalDonatedCents p)), (''recent'', Arr recent)]"

definition recent_donations :: "portalEnv \<Rightarrow> player \<Rightarrow> world \<Rightarrow> js list" where
  "recent_donations P p w =
     map (\<lambda>d. Obj [(''amountCents'', JInt (d_amountCents d)), (''at'', Str (po_iso P (d_createdAt d)))])
       (take 10 (orderDesc d_createdAt (filter (\<lambda>d. d_playerId d = p_id p \<and> d_status d = ''completed'') (donations w))))"

definition location_part :: "portalEnv \<Rightarrow> player \<Rightarrow> js" where
  "location_part P p = (case p_lastPos p of None \<Rightarrow> Null
     | Some (x, y, z) \<Rightarrow> Obj [(''x'', Num (Fin x)), (''y'', Num (Fin y)), (''z'', Num (Fin z)), (''lastLogoutAt'', iso_js P (p_lastLogoutAt p)),
         (''source'', Str (if p_online p then ''last_reported'' else ''last_logout''))])"

definition profile :: "authEnv \<Rightarrow> portalEnv \<Rightarrow> stripe \<Rightarrow> string \<Rightarrow> ms \<Rightarrow> world \<Rightarrow> obj res" where
  "profile A P S token now w =
     (case requirePlayer A token w of
        Inl e \<Rightarrow> Inl e
      | Inr (p, auth) \<Rightarrow>
          let isAdmin = isPortalAdmin (p_orgId p) (p_name p) w;
              secs = portal_seconds p now;
              mapUrl = js_null (Option.bind (findUnique si_id (p_serverInstanceId p) (serverInstances w)) si_mapEmbedUrl);
              common = [(''playerId'', Str (p_id p)), (''steamId'', js_null (p_steamId p)), (''name'', Str (p_name p)), (''online'', Bool (p_online p)),
                (''isAdmin'', Bool isAdmin), (''serverInstanceId'', Str (p_serverInstanceId p)), (''serverName'', Str (server_name (p_serverInstanceId p) w)),
                (''mapEmbedUrl'', mapUrl)];
              played = [(''sessionSeconds'', JInt secs), (''lifetimeSeconds'', JInt (p_lifetimeSeconds p + secs))]
          in (case auth of
                Name \<Rightarrow> Inr (common @ [(''auth'', Str ''name''),
                  (''uuid'', if startsWith (p_identityKey p) ''uuid:'' then Str (drop 5 (p_identityKey p)) else Null),
                  (''stats'', Obj played), (''donation'', donation_part P S p ''name'' [] w)])
              | Steam \<Rightarrow> Inr (common @ [(''auth'', Str ''steam''),
                  (''stats'', Obj (played @ [(''firstSeenAt'', Str (po_iso P (p_firstSeenAt p))), (''lastSeenAt'', Str (po_iso P (p_lastSeenAt p)))])),
                  (''location'', location_part P p), (''donation'', donation_part P S p ''steam'' (recent_donations P p w) w)])))"

fun waitForPortalJobData :: "id \<Rightarrow> world list \<Rightarrow> js res" where
  \<comment> \<open>the states that the polls see, one every 400 ms until the deadline\<close>
  "waitForPortalJobData jobRunId [] = Inl (GatewayTimeoutException ''The game did not answer in time'')"
| "waitForPortalJobData jobRunId (w # ws) =
     (case find_run jobRunId w of
        Some run \<Rightarrow>
          if jr_status run = Success then Inr (get (jr_result run) ''data'')
          else if jr_status run = Failed \<or> jr_status run = Cancelled
          then Inl (ServiceUnavailableException (case get (jr_result run) ''errorMessage'' of Str s \<Rightarrow> s | _ \<Rightarrow> ''The game could not list mods''))
          else waitForPortalJobData jobRunId ws
      | None \<Rightarrow> waitForPortalJobData jobRunId ws)"

definition mod_row :: "portalEnv \<Rightarrow> js \<Rightarrow> obj" where
  "mod_row P row =
     [(''name'', Str (or_str (portalText (field row ''name'') 160) ''Unnamed mod'')), (''author'', js_null (or_null (portalText (field row ''author'') 120))),
      (''version'', js_null (or_null (portalText (field row ''version'') 80))), (''description'', js_null (or_null (portalText (field row ''description'') 500))),
      (''website'', js_null (publicDownloadUrl P (field row ''website'')))]"

definition portalMods_queue :: "authEnv \<Rightarrow> string \<Rightarrow> ms \<Rightarrow> world \<Rightarrow> (player \<times> id) res \<times> world" where
  \<comment> \<open>\<open>portalMods\<close> up to the wait: the player and the run to wait for\<close>
  "portalMods_queue A token now w =
     (case requirePlayer A token w of
        Inl e \<Rightarrow> (Inl e, w)
      | Inr (p, _) \<Rightarrow>
          if \<not> p_supporter p \<and> \<not> isPortalAdmin (p_orgId p) (p_name p) w
          then (Inl (ForbiddenException ''Mod downloads are available to supporters and administrators''), w)
          else (case enqueueInternalJob (p_orgId p) None (p_serverInstanceId p) ''MOD_LIST'' None now w of
                  (Inl e, w1) \<Rightarrow> (Inl e, w1)
                | (Inr (_, run), w1) \<Rightarrow> (Inr (p, run), w1)))"

definition portalMods :: "authEnv \<Rightarrow> portalEnv \<Rightarrow> string \<Rightarrow> ms \<Rightarrow> world \<Rightarrow> (world \<Rightarrow> world list) \<Rightarrow> (string \<times> obj list) res" where
  \<comment> \<open>\<open>seen\<close> gives the states the polls see after the job was queued\<close>
  "portalMods A P token now w seen =
     (case portalMods_queue A token now w of
        (Inl e, _) \<Rightarrow> Inl e
      | (Inr (p, run), w1) \<Rightarrow>
          (case waitForPortalJobData run (seen w1) of
             Inl e \<Rightarrow> Inl e
           | Inr d \<Rightarrow>
               let source = (case field d ''mods'' of Arr rows \<Rightarrow> rows | _ \<Rightarrow> [])
               in Inr (server_name (p_serverInstanceId p) w,
                    sort_key (\<lambda>m. po_localeRank P (str_of (get m ''name''))) (map (mod_row P) source))))"

record uploadFile =
  uf_originalname :: string
  uf_size :: int
  uf_buffer :: string

definition zip_name :: "string \<Rightarrow> bool" where
  "zip_name s \<longleftrightarrow> 4 \<le> length s \<and> toLowerCase (drop (length s - 4) s) = ''.zip''"

definition zip_signature :: "string \<Rightarrow> bool" where
  "zip_signature bytes \<longleftrightarrow> take 4 bytes \<in> {[CHR 0x50, CHR 0x4B, CHR 0x03, CHR 0x04], [CHR 0x50, CHR 0x4B, CHR 0x05, CHR 0x06], [CHR 0x50, CHR 0x4B, CHR 0x07, CHR 0x08]}"

definition requestMod :: "authEnv \<Rightarrow> string \<Rightarrow> uploadFile option \<Rightarrow> js \<Rightarrow> string \<Rightarrow> ms \<Rightarrow> world \<Rightarrow> (id \<times> id) res \<times> world" where
  \<comment> \<open>\<open>uploadId\<close> is the random id; the directory of uploads is the default one\<close>
  "requestMod A token file description uploadId now w =
     (case requirePlayer A token w of
        Inl e \<Rightarrow> (Inl e, w)
      | Inr (p, _) \<Rightarrow>
          let text = (case description of Str s \<Rightarrow> trim s | _ \<Rightarrow> []); refuse = (\<lambda>m. (Inl (BadRequestException m), w)) in
          if text = [] then refuse ''Add a short description of the mod''
          else if 500 < length text then refuse ''Mod description cannot exceed 500 characters''
          else (case file of
            None \<Rightarrow> refuse ''Choose a non-empty ZIP archive''
          | Some f \<Rightarrow>
              if uf_buffer f = [] then refuse ''Choose a non-empty ZIP archive''
              else if \<not> zip_name (uf_originalname f) then refuse ''Only .zip mod archives are supported''
              else if 256 * 1024 * 1024 < uf_size f then refuse ''ZIP exceeds the 256 MiB upload limit''
              else if \<not> zip_signature (uf_buffer f) then refuse ''The uploaded file is not a valid ZIP archive''
              else
                let path = ''/var/lib/mastermind/uploads/'' @ uploadId @ ''.zip'';
                    w1 = w\<lparr>effects := effects w @ [WriteFile path]\<rparr>;
                    payload = [(''uploadId'', Str uploadId), (''originalName'', Str (uf_originalname f)), (''sizeBytes'', JInt (uf_size f)),
                      (''description'', Str text), (''recommendedBy'', Str (p_name p)), (''recommendedById'', Str (p_id p))]
                in (case createPlayerModRequest (p_orgId p) (p_serverInstanceId p) payload now w1 of
                      (Inl e, w2) \<Rightarrow> (Inl e, w2\<lparr>effects := effects w2 @ [Unlink path]\<rparr>)
                    | (Inr ids, w2) \<Rightarrow> (Inr ids, w2))))"

section \<open>Kinds of tokens\<close>

datatype issued =
    UserToken id id int
  | MailToken id id
  | MathToken int int bool
  | NameToken id id
  | SteamToken id string id

fun claims_of :: "issued \<Rightarrow> obj" where
  "claims_of (UserToken userId orgId ver) = user_claims userId orgId ver"
| "claims_of (MailToken userId orgId) = mail_claims userId orgId"
| "claims_of (MathToken left right subtract) = math_claims left right subtract"
| "claims_of (NameToken playerId serverId) = name_claims playerId serverId"
| "claims_of (SteamToken playerId steamId serverId) = steam_claims playerId steamId serverId"

fun kind_of :: "issued \<Rightarrow> secret" where
  "kind_of (UserToken _ _ _) = UserSecret"
| "kind_of (MailToken _ _) = MailSecret"
| "kind_of (MathToken _ _ _) = MathSecret"
| "kind_of _ = PlayerSecret"

fun accepted_as :: "authEnv \<Rightarrow> keyring \<Rightarrow> ms \<Rightarrow> world \<Rightarrow> secret \<Rightarrow> string \<Rightarrow> bool" where
  "accepted_as A K now w UserSecret t = (\<exists>i. jwtAuthGuard (session_keys A K) (bearer_header t) w = Inr i)"
| "accepted_as A K now w MailSecret t = (\<exists>email w'. verifyEmail A t now w = (Inr email, w'))"
| "accepted_as A K now w MathSecret t = (\<exists>answer. verifyMathChallenge A t answer)"
| "accepted_as A K now w PlayerSecret t = (\<exists>p. requirePlayer A t w = Inr p)"

lemmas all_claims = user_claims_def mail_claims_def math_claims_def name_claims_def steam_claims_def

lemma plain_claims_of: "plain_claims (claims_of tk)"
  by (cases tk) (simp_all add: plain_claims_def all_claims Let_def isInteger_def int_num_def)

text \<open>What each check reads of a token it accepts.\<close>

lemma accepted_reads:
  "accepted_as A K now w UserSecret t \<Longrightarrow> t \<noteq> [] \<Longrightarrow> \<exists>c n. au_verify A UserSecret t = Some c \<and> get c ''ver'' = Num n"
  "accepted_as A K now w MailSecret t \<Longrightarrow> \<exists>c. au_verify A MailSecret t = Some c \<and> get c ''purpose'' = Str ''verify-email''"
  "accepted_as A K now w MathSecret t \<Longrightarrow> \<exists>c. au_verify A MathSecret t = Some c \<and> get c ''purpose'' = Str ''login-math''"
  "accepted_as A K now w PlayerSecret t \<Longrightarrow> \<exists>c. au_verify A PlayerSecret t = Some c \<and> get c ''kind'' = Str ''player''"
proof -
  show "\<exists>c n. au_verify A UserSecret t = Some c \<and> get c ''ver'' = Num n" if t: "accepted_as A K now w UserSecret t" "t \<noteq> []"
  proof -
    from t(1) obtain i where "jwtAuthGuard (session_keys A K) (bearer_header t) w = Inr i" by auto
    then obtain c where c: "au_verify A UserSecret t = Some c" "isInteger (case get c ''ver'' of Num n \<Rightarrow> n | _ \<Rightarrow> NaN)"
      by (auto simp: jwtAuthGuard_def bearer_token [OF t(2)] session_keys_def split: option.splits if_splits)
    then show ?thesis by (cases "get c ''ver''") (auto simp: isInteger_def)
  qed
  show "accepted_as A K now w MailSecret t \<Longrightarrow> \<exists>c. au_verify A MailSecret t = Some c \<and> get c ''purpose'' = Str ''verify-email''"
    by (auto simp: verifyEmail_def Let_def split: option.splits if_splits)
  show "accepted_as A K now w MathSecret t \<Longrightarrow> \<exists>c. au_verify A MathSecret t = Some c \<and> get c ''purpose'' = Str ''login-math''"
    by (auto simp: verifyMathChallenge_def split: option.splits)
  show "accepted_as A K now w PlayerSecret t \<Longrightarrow> \<exists>c. au_verify A PlayerSecret t = Some c \<and> get c ''kind'' = Str ''player''"
    by (auto simp: requirePlayer_def Let_def split: option.splits if_splits)
qed

text \<open>C31: a token is good for its own use only. The code signs five kinds of tokens, with secrets that fall back to one
  another and may all be equal. Even then a token is accepted only by the check of its kind: a session of a
  player opens no session of a user, a verification link no session, and the answer to the math challenge neither.\<close>

theorem tokens_typed:
  assumes "jwt_keeps A" and "accepted_as A K now w k (au_sign A s (claims_of tk))"
  shows "k = kind_of tk"
proof -
  let ?t = "au_sign A s (claims_of tk)"
  have ne: "?t \<noteq> []" by (rule jwt_own [OF assms(1) plain_claims_of])
  have read: "get c x = get (claims_of tk) x" if "au_verify A k' ?t = Some c" "x \<noteq> ''iat''" "x \<noteq> ''exp''" for k' c x
    by (rule jwt_read [OF assms(1) plain_claims_of that])
  show ?thesis
  proof (cases k)
    case UserSecret
    with accepted_reads(1) [OF _ ne] assms(2) read obtain n where "get (claims_of tk) ''ver'' = Num n" by fastforce
    with UserSecret show ?thesis by (cases tk) (auto simp: all_claims get_def Let_def)
  next
    case MailSecret
    with accepted_reads(2) assms(2) read have "get (claims_of tk) ''purpose'' = Str ''verify-email''" by fastforce
    with MailSecret show ?thesis by (cases tk) (auto simp: all_claims get_def Let_def)
  next
    case MathSecret
    with accepted_reads(3) assms(2) read have "get (claims_of tk) ''purpose'' = Str ''login-math''" by fastforce
    with MathSecret show ?thesis by (cases tk) (auto simp: all_claims get_def Let_def)
  next
    case PlayerSecret
    with accepted_reads(4) assms(2) read have "get (claims_of tk) ''kind'' = Str ''player''" by fastforce
    with PlayerSecret show ?thesis by (cases tk) (auto simp: all_claims get_def Let_def)
  qed
qed

theorem tokens_typed_witness:
  "\<not> accepted_as sample_auth sample_keys 5 sample_office UserSecret (au_sign sample_auth PlayerSecret (claims_of (NameToken ''u'' ''s''))) \<and>
   accepted_as sample_auth sample_keys 5 sample_office UserSecret (au_sign sample_auth UserSecret (claims_of (UserToken ''u'' ''o'' 1)))"
proof -
  have "jwtAuthGuard (session_keys sample_auth sample_keys) (bearer_header (issueToken sample_auth ''u'' ''o'' 1)) sample_office = Inr ''u''"
    by (rule issued_token_guard [OF sample_auth_keeps, where u = sample_user])
      (simp_all add: sample_office_def sample_user_def new_user_def findUnique_Cons opt_or_def makePasswordHash_def)
  then show ?thesis using tokens_typed [OF sample_auth_keeps, of sample_keys 5 sample_office UserSecret PlayerSecret "NameToken ''u'' ''s''"]
    by (auto simp: issueToken_def)
qed

section \<open>Registered names\<close>

definition portal_ok :: "world \<Rightarrow> bool" where
  "portal_ok w \<longleftrightarrow> distinct (map p_id (players w)) \<and> distinct (map si_id (serverInstances w)) \<and> list_all (\<lambda>p. p_id p \<noteq> [] \<and> p_serverInstanceId p \<noteq> [] \<and>
     (case findUnique si_id (p_serverInstanceId p) (serverInstances w) of None \<Rightarrow> False | Some s \<Rightarrow> si_orgId s = p_orgId p)) (players w)"

lemma the_only_map: "the_only (map g xs) = map_option g (the_only xs)"
  by (auto simp: the_only_def split: list.split)

lemma the_only_in: "the_only xs = Some x \<Longrightarrow> xs = [x]"
  by (auto simp: the_only_def split: list.splits)

lemma updateRow_map: "updateRow key k f rows = map (\<lambda>r. if key r = k then f r else r) rows"
  by (induction rows) auto

lemma only_stable:
  assumes "\<And>r. Q (g r) = Q r"
  shows "the_only (filter Q (map g ms)) = map_option g (the_only (filter Q ms))"
  by (simp add: filter_map o_def assms the_only_map)

lemma the_only_None: "the_only xs = None \<longleftrightarrow> xs = [] \<or> 2 \<le> length xs"
  by (auto simp: the_only_def split: list.split)

definition has_uuid :: "player \<Rightarrow> bool" where "has_uuid p = startsWith (toLowerCase (p_identityKey p)) ''uuid:''"
definition has_steam :: "player \<Rightarrow> bool" where "has_steam p \<longleftrightarrow> opt_or (p_steamId p) [] \<noteq> []"
definition has_password :: "player \<Rightarrow> bool" where "has_password p \<longleftrightarrow> opt_or (p_portalPasswordHash p) [] \<noteq> []"
definition no_stub :: "player \<Rightarrow> bool" where "no_stub p \<longleftrightarrow> \<not> startsWith (toLowerCase (p_identityKey p)) ''name:''"

lemma pick_many:
  "2 \<le> length ms \<Longrightarrow> pickPortalPlayerMatch ms = opt_orelse (the_only (filter has_uuid ms))
     (opt_orelse (the_only (filter has_steam ms)) (opt_orelse (the_only (filter has_password ms)) (the_only (filter no_stub ms))))"
  by (cases ms rule: remdups_adj.cases)
    (simp_all add: pickPortalPlayerMatch_def has_uuid_def [abs_def] has_steam_def [abs_def] has_password_def [abs_def] no_stub_def [abs_def])

lemma pick_in: "pickPortalPlayerMatch ms = Some p \<Longrightarrow> p \<in> set ms"
proof (cases "2 \<le> length ms")
  case True
  assume "pickPortalPlayerMatch ms = Some p"
  with pick_many [OF True] obtain Q where "the_only (filter Q ms) = Some p" by (auto simp: opt_orelse_def split: option.splits)
  then have "p \<in> set (filter Q ms)" by (metis list.set_intros(1) the_only_in)
  then show ?thesis by simp
qed (cases ms rule: remdups_adj.cases; simp add: pickPortalPlayerMatch_def)

text \<open>Setting the password of the match does not change which player matches.\<close>

lemma pick_stable:
  assumes "distinct (map p_id ms)" and "pickPortalPlayerMatch ms = Some p" and "\<not> has_password p" and "h \<noteq> []"
    and g: "g = (\<lambda>r. if p_id r = p_id p then r\<lparr>p_portalPasswordHash := Some h\<rparr> else r)"
  shows "pickPortalPlayerMatch (map g ms) = Some (g p)"
proof (cases "2 \<le> length ms")
  case False
  with assms(2) show ?thesis by (cases ms rule: remdups_adj.cases) (simp_all add: pickPortalPlayerMatch_def)
next
  case True
  have stable: "the_only (filter has_uuid (map g ms)) = map_option g (the_only (filter has_uuid ms))"
    "the_only (filter has_steam (map g ms)) = map_option g (the_only (filter has_steam ms))"
    "the_only (filter no_stub (map g ms)) = map_option g (the_only (filter no_stub ms))"
    by (rule only_stable; simp add: g has_uuid_def has_steam_def no_stub_def)+
  show ?thesis
  proof (cases "the_only (filter has_uuid ms) = None \<and> the_only (filter has_steam ms) = None")
    case False
    then show ?thesis using assms(2) True by (auto simp: pick_many stable opt_orelse_def split: option.splits)
  next
    case none: True
    have "the_only (filter has_password ms) = None"
    proof (rule ccontr)
      assume "the_only (filter has_password ms) \<noteq> None"
      then have "the_only (filter has_password ms) = Some p" using assms(2) True none by (auto simp: pick_many opt_orelse_def)
      then have "p \<in> set (filter has_password ms)" by (metis list.set_intros(1) the_only_in)
      with assms(3) show False by simp
    qed
    with assms(2) True none have n: "the_only (filter no_stub ms) = Some p" and w: "filter has_password ms = [] \<or> 2 \<le> length (filter has_password ms)"
      by (simp_all add: pick_many opt_orelse_def the_only_None)
    have p: "p \<in> set ms" by (rule pick_in [OF assms(2)])
    have "filter has_password (map g ms) = map g (filter (\<lambda>r. p_id r = p_id p \<or> has_password r) ms)"
      using assms(4) by (auto simp: filter_map o_def g has_password_def opt_or_def intro!: arg_cong [where f = "map _"] filter_cong)
    moreover have "the_only (filter (\<lambda>r. p_id r = p_id p \<or> has_password r) ms) \<in> {None, Some p}"
      using w
    proof
      assume "filter has_password ms = []"
      then have "filter (\<lambda>r. p_id r = p_id p \<or> has_password r) ms = filter (\<lambda>r. p_id r = p_id p) ms"
        by (auto simp: filter_empty_conv intro: filter_cong)
      also have "\<dots> = [p]" using assms(1) p
        by (induction ms) (auto simp: filter_empty_conv image_iff)
      finally show ?thesis by (simp add: the_only_def)
    next
      assume "2 \<le> length (filter has_password ms)"
      also have "\<dots> \<le> length (filter (\<lambda>r. p_id r = p_id p \<or> has_password r) ms)" by (induction ms) auto
      finally show ?thesis by (simp add: the_only_None)
    qed
    ultimately show ?thesis using True n none by (auto simp: pick_many stable opt_orelse_def the_only_map)
  qed
qed

lemma register_cases:
  assumes "registerName A P name password nextRaw salt w = (Inr (token, path, row), w')"
  obtains n pw s p where "parsePortalPlayerName name = Some n" "parsePortalPassword password = Some pw" "portalServer P w = Inr s"
    "pickPortalPlayerMatch (named_players (si_id s) n w) = Some p" "\<not> has_password p" "(token, path, row) = issueNameSession A p s nextRaw"
    "w' = w\<lparr>players := updateRow p_id (p_id p) (\<lambda>p. p\<lparr>p_portalPasswordHash := Some (makePasswordHash A pw salt)\<rparr>) (players w)\<rparr>"
  using assms that by (auto simp: registerName_def Let_def has_password_def split: option.splits sum.splits if_splits)

lemma find_distinct:
  assumes "distinct (map key xs)" and "x \<in> set xs" and "Q x" and "\<And>y. y \<in> set xs \<Longrightarrow> Q y \<Longrightarrow> key y = key x"
  shows "List.find Q xs = Some x"
proof (cases "List.find Q xs")
  case None
  with assms(2,3) show ?thesis by (auto simp: find_None_set)
next
  case (Some y)
  with find_Some_set [OF Some] assms have "y \<in> set xs" "key y = key x" by blast+
  with assms(1,2) Some show ?thesis by (metis distinct_map inj_onD)
qed

lemma portalServer_cong: "serverInstances w' = serverInstances w \<Longrightarrow> portalServer P w' = portalServer P w"
  by (simp add: portalServer_def)

lemma register_state:
  assumes "portal_ok w" and "jwt_keeps A" and "registerName A P name password nextRaw salt w = (Inr (token, path, row), w')"
  obtains n pw s p q where "parsePortalPlayerName name = Some n" "parsePortalPassword password = Some pw" "portalServer P w' = Inr s"
    "p \<in> set (players w)" "p_serverInstanceId p = si_id s" "toLowerCase (p_name p) = toLowerCase n"
    "q = p\<lparr>p_portalPasswordHash := Some (makePasswordHash A pw salt)\<rparr>"
    "pickPortalPlayerMatch (named_players (si_id s) n w') = Some q" "(token, path, row) = issueNameSession A q s nextRaw"
    "requirePlayer A token w' = Inr (q, Name)" "userOrgs w' = userOrgs w" "users w' = users w" "serverInstances w' = serverInstances w"
proof -
  from assms(3) obtain n pw s p where r: "parsePortalPlayerName name = Some n" "parsePortalPassword password = Some pw" "portalServer P w = Inr s"
    "pickPortalPlayerMatch (named_players (si_id s) n w) = Some p" "\<not> has_password p" "(token, path, row) = issueNameSession A p s nextRaw"
    "w' = w\<lparr>players := updateRow p_id (p_id p) (\<lambda>p. p\<lparr>p_portalPasswordHash := Some (makePasswordHash A pw salt)\<rparr>) (players w)\<rparr>"
    by (rule register_cases)
  define h where "h = makePasswordHash A pw salt"
  define g :: "player \<Rightarrow> player" where "g = (\<lambda>r. if p_id r = p_id p then r\<lparr>p_portalPasswordHash := Some h\<rparr> else r)"
  have h: "h \<noteq> []" by (simp add: h_def makePasswordHash_def)
  have ps: "players w' = map g (players w)" by (simp add: r(7) updateRow_map g_def h_def)
  have g: "p_id (g r) = p_id r" "p_serverInstanceId (g r) = p_serverInstanceId r" "p_name (g r) = p_name r" for r by (simp_all add: g_def)
  have named: "named_players (si_id s) n w' = map g (named_players (si_id s) n w)"
    by (simp add: named_players_def ps filter_map o_def g take_map)
  have d: "distinct (map p_id (players w))" using assms(1) by (simp add: portal_ok_def)
  then have "distinct (map p_id (named_players (si_id s) n w))" by (simp add: named_players_def distinct_map_filter flip: take_map)
  from pick_stable [OF this r(4,5) h g_def] have pick: "pickPortalPlayerMatch (named_players (si_id s) n w') = Some (g p)" by (simp add: named)
  have "p \<in> set (named_players (si_id s) n w)" by (rule pick_in [OF r(4)])
  then have p: "p \<in> set (players w)" "p_serverInstanceId p = si_id s" "toLowerCase (p_name p) = toLowerCase n"
    by (auto simp: named_players_def dest!: in_set_takeD)
  have ids: "p_id p \<noteq> []" "si_id s \<noteq> []" using assms(1) p by (auto simp: portal_ok_def list_all_iff)
  have tok: "token = au_sign A PlayerSecret (name_claims (p_id p) (si_id s))" using r(6) by (simp add: issueNameSession_def)
  have "plain_claims (name_claims (p_id p) (si_id s))" by (simp add: plain_claims_def name_claims_def)
  from jwt_own [OF assms(2) this] obtain c where c: "au_verify A PlayerSecret token = Some c" unfolding tok by blast
  have "get c x = get (name_claims (p_id p) (si_id s)) x" if "x \<noteq> ''iat''" "x \<noteq> ''exp''" for x
    using jwt_read [OF assms(2) \<open>plain_claims _\<close> c [unfolded tok] that] .
  then have gets: "get c ''sub'' = Str (p_id p)" "get c ''kind'' = Str ''player''" "get c ''auth'' = Str ''name''" "get c ''serverInstanceId'' = Str (si_id s)"
    by (simp_all add: name_claims_def get_def)
  have "List.find (\<lambda>q. p_id q = p_id p \<and> p_serverInstanceId q = si_id s) (players w') = Some (g p)"
    by (rule find_distinct [where key = p_id]) (use d p in \<open>auto simp: ps g o_def\<close>)
  then have "requirePlayer A token w' = Inr (g p, Name)"
    using h by (simp add: requirePlayer_def c gets str_of_def ids Let_def) (simp add: g_def opt_or_def)
  moreover have "(token, path, row) = issueNameSession A (g p) s nextRaw" using r(6) by (simp add: issueNameSession_def g_def)
  moreover have "g p = p\<lparr>p_portalPasswordHash := Some (makePasswordHash A pw salt)\<rparr>" by (simp add: g_def h_def)
  moreover have "portalServer P w' = Inr s" using r(3) portalServer_cong [of w' w P] by (simp add: r(7))
  ultimately show thesis using that r(1,2,7) p pick by simp
qed

text \<open>A registered name signs in. After a player registered a name and a password, signing in with the same two gives
  the session of the registration again (registering does not change which of several rows with the name is
  meant), and the session reads a player of that name who has the password.\<close>

lemma register_then_login:
  assumes "portal_ok w" and "jwt_keeps A" and "registerName A P name password nextRaw salt w = (Inr session, w')"
    and "CHR ''$'' \<notin> set salt" and "salt \<noteq> []" and "\<And>pw. scrypt_hex (au_scrypt A pw salt)"
  shows "loginName A P name password nextRaw w' = Inr session \<and>
    (\<exists>p n. requirePlayer A (fst session) w' = Inr (p, Name) \<and> parsePortalPlayerName name = Some n \<and> toLowerCase (p_name p) = toLowerCase n)"
proof -
  obtain token path row where session: "session = (token, path, row)" by (cases session)
  obtain n pw s p q where r: "parsePortalPlayerName name = Some n" "parsePortalPassword password = Some pw" "portalServer P w' = Inr s"
    "p \<in> set (players w)" "p_serverInstanceId p = si_id s" "toLowerCase (p_name p) = toLowerCase n"
    "q = p\<lparr>p_portalPasswordHash := Some (makePasswordHash A pw salt)\<rparr>"
    "pickPortalPlayerMatch (named_players (si_id s) n w') = Some q" "(token, path, row) = issueNameSession A q s nextRaw"
    "requirePlayer A token w' = Inr (q, Name)"
    by (rule register_state [OF assms(1,2) assms(3) [unfolded session]])
  have "opt_or (p_portalPasswordHash q) [] = makePasswordHash A pw salt" "makePasswordHash A pw salt \<noteq> []"
    by (simp_all add: r(7) opt_or_def makePasswordHash_def)
  then have "loginName A P name password nextRaw w' = Inr session"
    using password_roundtrip [OF assms(4,5,6), of pw] by (simp add: loginName_def r(1-3,8) Let_def or_str_def r(9) [symmetric] session)
  moreover have "toLowerCase (p_name q) = toLowerCase n" using r(6,7) by simp
  ultimately show ?thesis using r(1,10) session by auto
qed

lemma lower_ws: "is_ws c \<Longrightarrow> lower_char c = c"
  by (auto simp: lower_char_def is_ws_def is_upper_def)

lemma name_char_lower: "name_char c \<Longrightarrow> \<not> is_ws (lower_char c)"
proof
  assume n: "name_char c" and w: "is_ws (lower_char c)"
  have "48 \<le> code (lower_char c) \<and> code (lower_char c) \<le> 122"
    using n by (auto simp: name_char_def is_alnum_def is_alpha_def is_digit_def is_lower_def is_upper_def lower_char_def code_def)
  with w show False by (auto simp: is_ws_def)
qed

lemma trim_same_name:
  assumes "toLowerCase s = toLowerCase n" and "list_all name_char n"
  shows "trim s = s"
proof (rule trim_no_ws)
  have "\<not> is_ws c" if "c \<in> set s" for c
  proof
    assume "is_ws c"
    then have "lower_char c = c" by (rule lower_ws)
    moreover have "lower_char c \<in> lower_char ` set n"
      using that assms(1) by (metis image_eqI image_set toLowerCase_def)
    ultimately show False using \<open>is_ws c\<close> assms(2) name_char_lower by (auto simp: list_all_iff)
  qed
  then show "list_all (\<lambda>c. \<not> is_ws c) s" by (simp add: list_all_iff)
qed

lemma enqueueInternalJob_run:
  assumes "find_server i orgId w = Some s"
  shows "\<exists>job run w'. enqueueInternalJob orgId u i ty p now w = (Inr (job, run), w') \<and> find_run run w' \<noteq> None"
proof -
  obtain job run w' where d: "dispatch orgId u s (normalizeJobType ty) (spread (server_payload s) (opt_or p [])) now w = ((job, run), w')"
    by (metis prod.collapse)
  have "find_run run w' \<noteq> None" by (simp add: find_run_def findUnique_None dispatch_tables(2) [OF d])
  then show ?thesis using assms d by (auto simp: enqueueInternalJob_def)
qed

lemma portalServer_in: "portalServer P w = Inr s \<Longrightarrow> s \<in> set (serverInstances w)"
proof -
  have o': "x \<in> set xs" if "orderAsc f xs = [x]" for f and x :: serverInstance and xs
    using that by (metis list.set_intros(1) set_orderAsc)
  show "portalServer P w = Inr s \<Longrightarrow> s \<in> set (serverInstances w)"
    by (auto simp: portalServer_def choose_server_def split: option.splits list.splits if_splits dest!: o' findUnique_Some)
qed

lemma sample_scrypt_hex: "scrypt_hex (au_scrypt sample_auth pw salt)"
proof -
  let ?d = "''0123456789abcdef''"
  have d: "is_hex (?d ! n)" if "n < 16" for n
  proof -
    have "\<forall>n < 16. is_hex (?d ! n)" by code_simp
    with that show ?thesis by blast
  qed
  have "code c div 16 < 16 \<and> code c mod 16 < 16" for c using nat_of_char_less_256 [of c] by (simp_all add: code_def less_mult_imp_div_less)
  then have "is_hex (?d ! (code c div 16))" "is_hex (?d ! (code c mod 16))" for c by (simp_all add: d del: nth_Cons_numeral)
  moreover have "is_hex (CHR ''0'')" by code_simp
  moreover have "(\<exists>x. c = ?d ! (code x div 16) \<or> c = ?d ! (code x mod 16)) \<or> c = CHR ''0''" if "c \<in> set (sample_scrypt pw salt)" for c
    using that by (auto simp: sample_scrypt_def Let_def dest!: in_set_takeD)
  ultimately have "is_hex c" if "c \<in> set (sample_scrypt pw salt)" for c using that by blast
  then show ?thesis by (simp add: scrypt_hex_def sample_auth_def list_all_iff) (simp add: sample_scrypt_def Let_def)
qed

definition sample_portal :: portalEnv where
  "sample_portal = \<lparr>po_configured = [], po_url = (\<lambda>_. None), po_steam = (\<lambda>_. None), po_dbRank = (\<lambda>_. 0), po_localeRank = (\<lambda>_. 0), po_iso = int_str\<rparr>"

definition sample_visitor :: player where
  "sample_visitor = sample_player\<lparr>p_id := ''p'', p_serverInstanceId := ''s'', p_name := ''Ann''\<rparr>"

definition sample_visit :: world where
  "sample_visit = sample_board\<lparr>serverInstances := [sample_server ''s'' ''h''], players := [sample_visitor]\<rparr>"

definition sample_registration :: "(string \<times> string \<times> obj) res \<times> world" where
  "sample_registration = registerName sample_auth sample_portal (Str ''ann'') (Str ''12345678'') Undefined ''5c'' sample_visit"

lemma sample_visit_ok: "portal_ok sample_visit"
  by (simp add: portal_ok_def sample_visit_def findUnique_Cons sample_visitor_def sample_server_def sample_player_def)

lemma sample_visit_parts:
  "parsePortalPlayerName (Str ''ann'') = Some ''ann''" "parsePortalPassword (Str ''12345678'') = Some ''12345678''"
  "portalServer sample_portal sample_visit = Inr (sample_server ''s'' ''h'')" "named_players ''s'' ''ann'' sample_visit = [sample_visitor]"
  by code_simp+

lemma sample_registration_ok: "\<exists>session w'. sample_registration = (Inr session, w')"
proof -
  have "si_id (sample_server ''s'' ''h'') = ''s''" "p_portalPasswordHash sample_visitor = None"
    by (simp_all add: sample_server_def sample_visitor_def sample_player_def)
  then show ?thesis by (simp add: sample_registration_def registerName_def sample_visit_parts pickPortalPlayerMatch_def opt_or_def issueNameSession_def)
qed

text \<open>The first to claim a name has its rights. Registering a name asks for nothing but the name, and the mods that
  are kept for supporters and administrators go to any player with the display name of an administrator: whoever registers
  the name of an administrator (seen on the server once, with no portal password yet) gets the list.\<close>

lemma claimed_name_is_admin:
  assumes "portal_ok w" and "jwt_keeps A" and "registerName A P name password nextRaw salt w = (Inr session, w')"
    and "parsePortalPlayerName name = Some n" and "portalServer P w = Inr s"
    and "m \<in> set (userOrgs w)" and "uo_orgId m = si_orgId s" and "uo_role m = ''admin''"
    and "findUnique u_id (uo_userId m) (users w) = Some u" and "u_name u = Some display" and "toLowerCase (trim display) = toLowerCase n"
  shows "\<exists>p run w2. portalMods_queue A (fst session) now w' = (Inr (p, run), w2) \<and> find_run run w2 \<noteq> None"
proof -
  obtain token path row where session: "session = (token, path, row)" by (cases session)
  obtain n' pw s' p q where r: "parsePortalPlayerName name = Some n'" "parsePortalPassword password = Some pw" "portalServer P w' = Inr s'"
    "p \<in> set (players w)" "p_serverInstanceId p = si_id s'" "toLowerCase (p_name p) = toLowerCase n'"
    "q = p\<lparr>p_portalPasswordHash := Some (makePasswordHash A pw salt)\<rparr>"
    "pickPortalPlayerMatch (named_players (si_id s') n' w') = Some q" "(token, path, row) = issueNameSession A q s' nextRaw"
    "requirePlayer A token w' = Inr (q, Name)" "userOrgs w' = userOrgs w" "users w' = users w" "serverInstances w' = serverInstances w"
    by (rule register_state [OF assms(1,2) assms(3) [unfolded session]])
  have q: "p_name q = p_name p" "p_orgId q = p_orgId p" "p_serverInstanceId q = p_serverInstanceId p" by (simp_all add: r(7))
  have "portalServer P w' = portalServer P w" by (rule portalServer_cong) (rule r(13))
  with r(1,3) assms(4,5) have eq: "n' = n" "s' = s" by simp_all
  have "list_all name_char n" using assms(4) by (auto simp: parsePortalPlayerName_def Let_def split: js.splits if_splits)
  with r(6) eq have "trim (p_name p) = p_name p" by (blast intro: trim_same_name)
  moreover obtain t where t: "findUnique si_id (p_serverInstanceId p) (serverInstances w) = Some t" "si_orgId t = p_orgId p"
    using assms(1) r(4) by (auto simp: portal_ok_def list_all_iff split: option.splits)
  moreover have "t = s"
    using assms(1) t(1) r(5) eq findUnique_unique [OF _ portalServer_in [OF assms(5)], of si_id] by (simp add: portal_ok_def)
  ultimately have admin: "isPortalAdmin (p_orgId p) (p_name p) w"
    using assms(6-11) r(6) eq by (auto simp: isPortalAdmin_def list_ex_iff intro!: bexI [of _ m])
  obtain s1 where "find_server (p_serverInstanceId p) (p_orgId p) w' = Some s1"
    using t findUnique_Some [OF t(1)] r(13) by (cases "find_server (p_serverInstanceId p) (p_orgId p) w'") (auto simp: find_server_def find_None_set)
  from enqueueInternalJob_run [OF this] obtain job run w2
    where "enqueueInternalJob (p_orgId p) None (p_serverInstanceId p) ''MOD_LIST'' None now w' = (Inr (job, run), w2)" "find_run run w2 \<noteq> None" by blast
  moreover have "isPortalAdmin (p_orgId p) (p_name p) w'" using admin r(11,12) by (simp add: isPortalAdmin_def)
  ultimately show ?thesis using r(10) q by (simp add: portalMods_queue_def session)
qed


end
