(* ===== verification/Shop_Items.thy ===== *)
theory Shop_Items
  imports Portal
begin

text \<open>
  The shop as administrators keep it: control-plane/src/donations/shop-items.service.ts and
  shop-image-process.ts, and the item catalog of the game. Pictures are files: the operations take and
  return the files by their paths. The image library is a parameter.

  Shown: after any sequence of operations every item on sale is well formed, its picture can be read in
  both sizes, and what the shop shows is what a purchase grants.
\<close>

section \<open>Pictures\<close>

type_synonym bytes = "8 word list"
type_synonym disk = "string \<Rightarrow> bytes option"

definition SHOP_IMAGE_MASTER_MAX_PX :: nat where "SHOP_IMAGE_MASTER_MAX_PX = 1920"
definition SHOP_IMAGE_THUMB_MAX_PX :: nat where "SHOP_IMAGE_THUMB_MAX_PX = 400"
definition MAX_SHOP_ITEMS :: int where "MAX_SHOP_ITEMS = 50"
definition ITEM_CATALOG_CACHE_MS :: int where "ITEM_CATALOG_CACHE_MS = 24 * 60 * 60 * 1000"

text \<open>The surroundings: those of every handler, the configured server and the texts of dates of the portal,
  the directory of uploads, and \<open>sharp\<close>, which turns a picture to WebP within a number of pixels (None
  when it rejects the picture).\<close>

record shopEnv =
  sv_env :: env
  sv_portal :: portalEnv
  sv_root :: string
  sv_sharp :: "bytes \<Rightarrow> nat \<Rightarrow> bytes option"

record processedImage =
  pi_master :: bytes
  pi_thumb :: bytes
  pi_ext :: string
  pi_mime :: string

definition normalizeShopImage :: "shopEnv \<Rightarrow> bytes \<Rightarrow> processedImage res" where
  "normalizeShopImage V buffer =
     (case (sv_sharp V buffer SHOP_IMAGE_MASTER_MAX_PX, sv_sharp V buffer SHOP_IMAGE_THUMB_MAX_PX) of
        (Some master, Some thumb) \<Rightarrow> Inr \<lparr>pi_master = master, pi_thumb = thumb, pi_ext = ''webp'', pi_mime = ''image/webp''\<rparr>
      | _ \<Rightarrow> Inl (Error ''Input buffer contains unsupported image format''))"

definition requireProcessedImage :: "shopEnv \<Rightarrow> bytes option \<Rightarrow> processedImage res" where
  \<comment> \<open>a missing file counts as an empty one\<close>
  "requireProcessedImage V file =
     (let buffer = opt_or file [] in
      if buffer = [] then Inl (ConflictException ''Upload a JPEG, PNG, or WebP picture'')
      else if length buffer > MAX_SHOP_IMAGE_BYTES then Inl (ConflictException ''Pictures must be 2 MB or smaller'')
      else if detectShopImage buffer = None then Inl (ConflictException ''Upload a JPEG, PNG, or WebP picture'')
      else normalizeShopImage V buffer)"

definition writeImage :: "shopEnv \<Rightarrow> id \<Rightarrow> id \<Rightarrow> processedImage \<Rightarrow> disk \<Rightarrow> unit res \<times> disk" where
  "writeImage V orgId itemId pic disk =
     (case (shopImagePath (sv_root V) orgId itemId ''webp'' False, shopImagePath (sv_root V) orgId itemId ''webp'' True) of
        (Inr masterPath, Inr thumbPath) \<Rightarrow>
          (Inr (), disk(masterPath \<mapsto> pi_master pic, thumbPath \<mapsto> pi_thumb pic))
      | (Inl e, _) \<Rightarrow> (Inl e, disk)
      | (_, Inl e) \<Rightarrow> (Inl e, disk))"

definition unlinkImages :: "shopEnv \<Rightarrow> id \<Rightarrow> id \<Rightarrow> string option \<Rightarrow> disk \<Rightarrow> unit res \<times> disk" where
  \<comment> \<open>both sizes of the picture with that extension, if the item has one\<close>
  "unlinkImages V orgId itemId imageExt disk =
     (case opt_or imageExt [] of
        [] \<Rightarrow> (Inr (), disk)
      | ext \<Rightarrow>
          (case (shopImagePath (sv_root V) orgId itemId ext False, shopImagePath (sv_root V) orgId itemId ext True) of
             (Inr masterPath, Inr thumbPath) \<Rightarrow> (Inr (), disk(masterPath := None, thumbPath := None))
           | (Inl e, _) \<Rightarrow> (Inl e, disk)
           | (_, Inl e) \<Rightarrow> (Inl e, disk)))"

section \<open>Views and grants\<close>

record shopItemView =
  iv_id :: id
  iv_name :: string
  iv_description :: string
  iv_priceCents :: int
  iv_active :: bool
  iv_hasImage :: bool
  iv_sortOrder :: int
  iv_createdAt :: string
  iv_grantItemName :: "string option"
  iv_grantQuantity :: int
  iv_grantItems :: "grantItemSpec list"

definition legacy_rows :: "string option \<Rightarrow> int \<Rightarrow> js" where
  \<comment> \<open>the one grant of the columns that came before the list\<close>
  "legacy_rows grantItemName grantQuantity =
     (if opt_or grantItemName [] = [] then Arr []
      else Arr [Obj [(''name'', js_opt grantItemName), (''quantity'', JInt grantQuantity)]])"

definition viewGrantItems :: "shopEnv \<Rightarrow> shopItem \<Rightarrow> grantItemSpec list" where
  "viewGrantItems V item =
     (case parseGrantItemList (e_parseJson (sv_env V)) (sh_grantItems item) of
        Some (g # gs) \<Rightarrow> g # gs
      | _ \<Rightarrow> opt_or (parseGrantItemList (e_parseJson (sv_env V)) (legacy_rows (sh_grantItemName item) (sh_grantQuantity item))) [])"

definition toView :: "shopEnv \<Rightarrow> shopItem \<Rightarrow> shopItemView" where
  "toView V item =
     (let grantItems = viewGrantItems V item in
      \<lparr>iv_id = sh_id item, iv_name = sh_name item, iv_description = sh_description item, iv_priceCents = sh_priceCents item,
       iv_active = sh_active item, iv_hasImage = (opt_or (sh_imageExt item) [] \<noteq> []), iv_sortOrder = sh_sortOrder item,
       iv_createdAt = po_iso (sv_portal V) (sh_createdAt item),
       iv_grantItemName = (case grantItems of [] \<Rightarrow> None | g # _ \<Rightarrow> Some (g_name g)),
       iv_grantQuantity = (case grantItems of [] \<Rightarrow> 1 | g # _ \<Rightarrow> g_quantity g),
       iv_grantItems = grantItems\<rparr>)"

record shopInput =
  in_name :: js
  in_description :: js
  in_price :: js
  in_active :: js
  in_grantItemName :: js
  in_grantQuantity :: js
  in_grantItems :: js

definition kept_grants :: "shopEnv \<Rightarrow> shopItem option \<Rightarrow> grantItemSpec list option" where
  \<comment> \<open>the grants of an item whose request names none\<close>
  "kept_grants V existing =
     (let parse = parseGrantItemList (e_parseJson (sv_env V));
          legacy = (case existing of None \<Rightarrow> Arr [] | Some i \<Rightarrow> legacy_rows (sh_grantItemName i) (sh_grantQuantity i));
          stored = parse (case existing of None \<Rightarrow> Undefined | Some i \<Rightarrow> sh_grantItems i);
          grantItems = (if stored = None then parse legacy else stored)
      in if opt_or grantItems [] = [] \<and> (case existing of None \<Rightarrow> False | Some i \<Rightarrow> opt_or (sh_grantItemName i) [] \<noteq> [])
         then parse legacy else grantItems)"

definition parseShopGrantFields :: "shopEnv \<Rightarrow> shopInput \<Rightarrow> shopItem option \<Rightarrow> grantItemSpec list res" where
  \<comment> \<open>the cleaned list; the two older columns are those of its first element\<close>
  "parseShopGrantFields V input existing =
     (let parse = parseGrantItemList (e_parseJson (sv_env V));
          grantItems =
            (if \<not> nullish (in_grantItems input) \<and> in_grantItems input \<noteq> Str [] then parse (in_grantItems input)
             else if \<not> nullish (in_grantItemName input) then
               parse (if js_blank (in_grantItemName input) then Arr []
                      else Arr [Obj [(''name'', in_grantItemName input), (''quantity'', in_grantQuantity input)]])
             else kept_grants V existing)
      in case grantItems of
           None \<Rightarrow> Inl (ConflictException ''Each grant must be a Minecraft item id (e.g. diamond or minecraft:diamond), quantity 1-9999. Maximum 8 items per listing.'')
         | Some items \<Rightarrow> Inr items)"

definition grants_column :: "grantItemSpec list \<Rightarrow> js" where
  "grants_column items = Arr (map spec_json items)"

section \<open>Operations\<close>

definition item_of_org :: "id \<Rightarrow> id \<Rightarrow> world \<Rightarrow> shopItem option" where
  "item_of_org orgId itemId w = List.find (\<lambda>i. sh_id i = itemId \<and> sh_orgId i = orgId) (shopItems w)"

definition by_place :: "shopItem list \<Rightarrow> shopItem list" where
  \<comment> \<open>\<open>orderBy: [{ sortOrder: 'asc' }, { createdAt: 'desc' }]\<close>\<close>
  "by_place rows = orderAsc sh_sortOrder (orderDesc sh_createdAt rows)"

definition listAdmin :: "shopEnv \<Rightarrow> id \<Rightarrow> world \<Rightarrow> shopItemView list" where
  "listAdmin V orgId w = map (toView V) (by_place (filter (\<lambda>i. sh_orgId i = orgId) (shopItems w)))"

definition listCatalog :: "shopEnv \<Rightarrow> id \<Rightarrow> world \<Rightarrow> shopItemView list" where
  "listCatalog V orgId w = map (toView V) (by_place (filter (\<lambda>i. sh_orgId i = orgId \<and> sh_active i) (shopItems w)))"

definition getCatalogItem :: "shopEnv \<Rightarrow> id \<Rightarrow> id \<Rightarrow> world \<Rightarrow> shopItemView res" where
  "getCatalogItem V orgId itemId w =
     (case List.find (\<lambda>i. sh_id i = itemId \<and> sh_orgId i = orgId \<and> sh_active i) (shopItems w) of
        None \<Rightarrow> Inl (NotFoundException ''Shop item not found'')
      | Some item \<Rightarrow> Inr (toView V item))"

definition audit_item :: "id \<Rightarrow> id \<Rightarrow> string \<Rightarrow> id \<Rightarrow> obj \<Rightarrow> world \<Rightarrow> world" where
  "audit_item orgId userId action resourceId details w =
     audit_row orgId (Some userId) action ''shop_item'' resourceId details w"

definition first_name :: "grantItemSpec list \<Rightarrow> string option" where
  "first_name items = (case items of [] \<Rightarrow> None | g # _ \<Rightarrow> Some (g_name g))"

definition first_quantity :: "grantItemSpec list \<Rightarrow> int" where
  "first_quantity items = (case items of [] \<Rightarrow> 1 | g # _ \<Rightarrow> g_quantity g)"

definition create_checks :: "shopEnv \<Rightarrow> id \<Rightarrow> shopInput \<Rightarrow> bytes option \<Rightarrow> world \<Rightarrow> (string \<times> int \<times> grantItemSpec list \<times> processedImage) res" where
  \<comment> \<open>\<open>create\<close> up to the insertion: name, price, grants and picture\<close>
  "create_checks V orgId input file w =
     (if countRows (\<lambda>i. sh_orgId i = orgId) (shopItems w) \<ge> MAX_SHOP_ITEMS then Inl (ConflictException ''Shop is limited to 50 items'')
      else (case parseShopName (in_name input) of
        None \<Rightarrow> Inl (ConflictException ''Enter a name up to 80 characters'')
      | Some name \<Rightarrow>
          (case parseShopPriceDollars (in_price input) of
             None \<Rightarrow> Inl (ConflictException ''Enter a price between $1.00 and $500.00'')
           | Some priceCents \<Rightarrow>
               (case parseShopGrantFields V input None of
                  Inl e \<Rightarrow> Inl e
                | Inr grants \<Rightarrow>
                    (case requireProcessedImage V file of
                       Inl e \<Rightarrow> Inl e
                     | Inr pic \<Rightarrow> Inr (name, priceCents, grants, pic))))))"

definition create_item :: "shopEnv \<Rightarrow> id \<Rightarrow> id \<Rightarrow> shopInput \<Rightarrow> bytes option \<Rightarrow> ms \<Rightarrow> world \<times> disk \<Rightarrow> shopItemView res \<times> world \<times> disk" where
  "create_item V orgId userId input file now s =
     (case s of (w, disk) \<Rightarrow>
      (case create_checks V orgId input file w of
         Inl e \<Rightarrow> (Inl e, w, disk)
       | Inr (name, priceCents, grants, pic) \<Rightarrow>
           let item = \<lparr>sh_id = next_id w, sh_orgId = orgId, sh_name = name, sh_description = parseShopDescription (in_description input),
                 sh_priceCents = priceCents, sh_imageExt = Some (pi_ext pic), sh_imageMime = Some (pi_mime pic),
                 sh_grantItemName = first_name grants, sh_grantQuantity = first_quantity grants, sh_grantItems = grants_column grants,
                 sh_active = parseActiveFlag (in_active input) True,
                 sh_sortOrder = countRows (\<lambda>i. sh_orgId i = orgId) (shopItems w), sh_createdAt = now\<rparr>;
               w1 = (draw w)\<lparr>shopItems := shopItems w @ [item]\<rparr>
           in (case writeImage V orgId (sh_id item) pic disk of
                 (Inl e, disk1) \<Rightarrow> (Inl e, w1, disk1)
               | (Inr _, disk1) \<Rightarrow>
                   (Inr (toView V item),
                    audit_item orgId userId ''shop_item_created'' (sh_id item) [(''name'', Str name), (''priceCents'', JInt priceCents)] w1, disk1))))"

definition given_or :: "js \<Rightarrow> 'a \<Rightarrow> 'a option \<Rightarrow> 'a option" where
  \<comment> \<open>\<open>raw == null || raw === '' ? old : parsed\<close>\<close>
  "given_or raw old parsed = (if nullish raw \<or> raw = Str [] then Some old else parsed)"

definition update_item_checks :: "shopEnv \<Rightarrow> shopInput \<Rightarrow> bytes option \<Rightarrow> shopItem \<Rightarrow> (string \<times> int \<times> grantItemSpec list \<times> processedImage option) res" where
  "update_item_checks V input file existing =
     (case given_or (in_name input) (sh_name existing) (parseShopName (in_name input)) of
        None \<Rightarrow> Inl (ConflictException ''Enter a name up to 80 characters'')
      | Some name \<Rightarrow>
          if name = [] then Inl (ConflictException ''Enter a name up to 80 characters'')
          else (case given_or (in_price input) (sh_priceCents existing) (parseShopPriceDollars (in_price input)) of
             None \<Rightarrow> Inl (ConflictException ''Enter a price between $1.00 and $500.00'')
           | Some priceCents \<Rightarrow>
               (case parseShopGrantFields V input (Some existing) of
                  Inl e \<Rightarrow> Inl e
                | Inr grants \<Rightarrow>
                    if opt_or file [] = [] then Inr (name, priceCents, grants, None)
                    else (case requireProcessedImage V file of
                            Inl e \<Rightarrow> Inl e
                          | Inr pic \<Rightarrow> Inr (name, priceCents, grants, Some pic)))))"

definition edited :: "shopInput \<Rightarrow> string \<Rightarrow> int \<Rightarrow> grantItemSpec list \<Rightarrow> processedImage option \<Rightarrow> shopItem \<Rightarrow> shopItem" where
  "edited input name priceCents grants pic i =
     i\<lparr>sh_name := name,
       sh_description := (if nullish (in_description input) then sh_description i else parseShopDescription (in_description input)),
       sh_priceCents := priceCents, sh_active := parseActiveFlag (in_active input) (sh_active i),
       sh_grantItemName := first_name grants, sh_grantQuantity := first_quantity grants, sh_grantItems := grants_column grants,
       sh_imageExt := (case pic of None \<Rightarrow> sh_imageExt i | Some m \<Rightarrow> Some (pi_ext m)),
       sh_imageMime := (case pic of None \<Rightarrow> sh_imageMime i | Some m \<Rightarrow> Some (pi_mime m))\<rparr>"

definition replaceImage :: "shopEnv \<Rightarrow> id \<Rightarrow> shopItem \<Rightarrow> processedImage option \<Rightarrow> disk \<Rightarrow> unit res \<times> disk" where
  \<comment> \<open>the files after an update: the old picture is removed, then the new one is written\<close>
  "replaceImage V orgId existing pic disk =
     (case pic of
        None \<Rightarrow> (Inr (), disk)
      | Some m \<Rightarrow>
          (case unlinkImages V orgId (sh_id existing) (sh_imageExt existing) disk of
             (Inl e, disk1) \<Rightarrow> (Inl e, disk1)
           | (Inr _, disk1) \<Rightarrow> writeImage V orgId (sh_id existing) m disk1))"

definition update_item :: "shopEnv \<Rightarrow> id \<Rightarrow> id \<Rightarrow> id \<Rightarrow> shopInput \<Rightarrow> bytes option \<Rightarrow> world \<times> disk \<Rightarrow> shopItemView res \<times> world \<times> disk" where
  "update_item V orgId userId itemId input file s =
     (case s of (w, disk) \<Rightarrow>
      (case item_of_org orgId itemId w of
         None \<Rightarrow> (Inl (NotFoundException ''Shop item not found''), w, disk)
       | Some existing \<Rightarrow>
           (case update_item_checks V input file existing of
              Inl e \<Rightarrow> (Inl e, w, disk)
            | Inr (name, priceCents, grants, pic) \<Rightarrow>
                let w1 = w\<lparr>shopItems := updateRow sh_id itemId (edited input name priceCents grants pic) (shopItems w)\<rparr>
                in (case replaceImage V orgId existing pic disk of
                      (Inl e, disk1) \<Rightarrow> (Inl e, w1, disk1)
                    | (Inr _, disk1) \<Rightarrow>
                        (Inr (toView V (edited input name priceCents grants pic existing)),
                         audit_item orgId userId ''shop_item_updated'' itemId
                           [(''name'', Str name), (''priceCents'', JInt priceCents), (''imageReplaced'', Bool (pic \<noteq> None))] w1, disk1)))))"

text \<open>Deleting an item clears the reference of the donations and lines that name it (\<open>SetNull\<close>).\<close>

definition delete_item :: "id \<Rightarrow> world \<Rightarrow> world" where
  "delete_item i w =
     w\<lparr>shopItems := deleteMany (\<lambda>r. sh_id r = i) (shopItems w),
       donations := updateMany (\<lambda>d. d_shopItemId d = Some i) (\<lambda>d. d\<lparr>d_shopItemId := None\<rparr>) (donations w),
       donationLines := updateMany (\<lambda>l. l_shopItemId l = Some i) (\<lambda>l. l\<lparr>l_shopItemId := None\<rparr>) (donationLines w)\<rparr>"

definition remove_item :: "shopEnv \<Rightarrow> id \<Rightarrow> id \<Rightarrow> id \<Rightarrow> world \<times> disk \<Rightarrow> unit res \<times> world \<times> disk" where
  "remove_item V orgId userId itemId s =
     (case s of (w, disk) \<Rightarrow>
      (case item_of_org orgId itemId w of
         None \<Rightarrow> (Inl (NotFoundException ''Shop item not found''), w, disk)
       | Some existing \<Rightarrow>
           (case unlinkImages V orgId itemId (sh_imageExt existing) disk of
              (Inl e, disk1) \<Rightarrow> (Inl e, delete_item itemId w, disk1)
            | (Inr _, disk1) \<Rightarrow>
                (Inr (), audit_item orgId userId ''shop_item_deleted'' itemId [(''name'', Str (sh_name existing))] (delete_item itemId w), disk1))))"

definition thumbOf :: "shopEnv \<Rightarrow> string \<Rightarrow> string \<Rightarrow> disk \<Rightarrow> bytes res \<times> disk" where
  \<comment> \<open>\<open>resolveImagePath\<close> for a thumb: made from the master when the file is missing; then its bytes\<close>
  "thumbOf V path masterPath disk =
     (case disk path of
        Some bytes \<Rightarrow> (Inr bytes, disk)
      | None \<Rightarrow>
          (case disk masterPath of
             None \<Rightarrow> (Inl (Error ''ENOENT: no such file or directory''), disk)
           | Some master \<Rightarrow>
               (case sv_sharp V master SHOP_IMAGE_THUMB_MAX_PX of
                  None \<Rightarrow> (Inl (Error ''Input buffer contains unsupported image format''), disk)
                | Some thumb \<Rightarrow> (Inr thumb, disk(path \<mapsto> thumb)))))"

definition shop_image :: "shopEnv \<Rightarrow> id \<Rightarrow> id \<Rightarrow> bool \<Rightarrow> shopImageSize \<Rightarrow> world \<times> disk \<Rightarrow> (string \<times> bytes) res \<times> disk" where
  \<comment> \<open>the type and the bytes that the stream yields; opening a missing file ends the stream with an error\<close>
  "shop_image V orgId itemId activeOnly sz s =
     (case s of (w, disk) \<Rightarrow>
      (case List.find (\<lambda>i. sh_id i = itemId \<and> sh_orgId i = orgId \<and> (activeOnly \<longrightarrow> sh_active i)) (shopItems w) of
         None \<Rightarrow> (Inl (NotFoundException ''Image not found''), disk)
       | Some item \<Rightarrow>
           let ext = opt_or (sh_imageExt item) []; mime = opt_or (sh_imageMime item) [] in
           if ext = [] \<or> mime = [] then (Inl (NotFoundException ''Image not found''), disk)
           else (case (shopImagePath (sv_root V) orgId itemId ext False, shopImagePath (sv_root V) orgId itemId ext True) of
                   (Inr masterPath, Inr thumbPath) \<Rightarrow>
                     (if sz = ThumbSize then (case thumbOf V thumbPath masterPath disk of (r, disk1) \<Rightarrow> (map_sum id (Pair mime) r, disk1))
                      else (case disk masterPath of
                              None \<Rightarrow> (Inl (Error ''ENOENT: no such file or directory''), disk)
                            | Some bytes \<Rightarrow> (Inr (mime, bytes), disk)))
                 | (Inl e, _) \<Rightarrow> (Inl e, disk)
                 | (_, Inl e) \<Rightarrow> (Inl e, disk))))"

section \<open>Pictures made anew\<close>

record reprocessed =
  rp_processed :: int
  rp_skipped :: int
  rp_failed :: int

definition reprocess_row :: "shopEnv \<Rightarrow> reprocessed \<times> world \<times> disk \<Rightarrow> shopItem \<Rightarrow> reprocessed \<times> world \<times> disk" where
  "reprocess_row V s row =
     (case s of (r, w, disk) \<Rightarrow>
        let fail = (r\<lparr>rp_failed := rp_failed r + 1\<rparr>, w, disk); ext = opt_or (sh_imageExt row) [] in
        if ext = [] then (r\<lparr>rp_skipped := rp_skipped r + 1\<rparr>, w, disk)
        else (case shopImagePath (sv_root V) (sh_orgId row) (sh_id row) ext False of
          Inl _ \<Rightarrow> fail
        | Inr masterPath \<Rightarrow>
            (case disk masterPath of
               None \<Rightarrow> fail
             | Some buffer \<Rightarrow>
                 (case normalizeShopImage V buffer of
                    Inl _ \<Rightarrow> fail
                  | Inr normalized \<Rightarrow>
                      (case writeImage V (sh_orgId row) (sh_id row) normalized disk of
                         (Inl _, disk1) \<Rightarrow> (r\<lparr>rp_failed := rp_failed r + 1\<rparr>, w, disk1)
                       | (Inr _, disk1) \<Rightarrow>
                           if ext = pi_ext normalized then (r\<lparr>rp_processed := rp_processed r + 1\<rparr>, w, disk1)
                           else (case unlinkImages V (sh_orgId row) (sh_id row) (Some ext) disk1 of
                                   (Inl _, disk2) \<Rightarrow> (r\<lparr>rp_failed := rp_failed r + 1\<rparr>, w, disk2)
                                 | (Inr _, disk2) \<Rightarrow>
                                     (r\<lparr>rp_processed := rp_processed r + 1\<rparr>,
                                      w\<lparr>shopItems := updateRow sh_id (sh_id row)
                                          (\<lambda>i. i\<lparr>sh_imageExt := Some (pi_ext normalized), sh_imageMime := Some (pi_mime normalized)\<rparr>) (shopItems w)\<rparr>,
                                      disk2)))))))"

definition reprocessAllImages :: "shopEnv \<Rightarrow> world \<times> disk \<Rightarrow> reprocessed \<times> world \<times> disk" where
  "reprocessAllImages V s =
     (case s of (w, disk) \<Rightarrow>
        foldl (reprocess_row V) (\<lparr>rp_processed = 0, rp_skipped = 0, rp_failed = 0\<rparr>, w, disk)
          (filter (\<lambda>i. sh_imageExt i \<noteq> None) (shopItems w)))"

section \<open>The catalog of the game\<close>

definition grantCatalogServer :: "shopEnv \<Rightarrow> id \<Rightarrow> world \<Rightarrow> id res" where
  "grantCatalogServer V orgId w =
     (let configured = trim (po_configured (sv_portal V));
          chosen = (if portal_id configured then find_server configured orgId w else None)
      in case opt_orelse chosen (List.find (\<lambda>s. si_orgId s = orgId \<and> si_gameType s = ''minecraft'') (serverInstances w)) of
           Some s \<Rightarrow> Inr (si_id s)
         | None \<Rightarrow> Inl (ServiceUnavailableException ''No Minecraft server is available for the item catalog''))"

definition scanned_before :: "id \<Rightarrow> jobRun \<Rightarrow> world \<Rightarrow> bool" where
  "scanned_before serverInstanceId run w \<longleftrightarrow> jr_status run = Success \<and>
     list_ex (\<lambda>j. j_id j = jr_jobId run \<and> j_type j = ''ITEM_CATALOG'' \<and> j_serverInstanceId j = Some serverInstanceId) (jobs w)"

definition latest_scan :: "id \<Rightarrow> world \<Rightarrow> jobRun option" where
  \<comment> \<open>a descending order puts rows without the date first\<close>
  "latest_scan serverInstanceId w =
     (let runs = filter (\<lambda>r. scanned_before serverInstanceId r w) (jobRuns w) in
      case filter (\<lambda>r. jr_finishedAt r = None) runs @ orderDesc (\<lambda>r. opt_or (jr_finishedAt r) 0) (filter (\<lambda>r. jr_finishedAt r \<noteq> None) runs) of
        [] \<Rightarrow> None | r # _ \<Rightarrow> Some r)"

definition run_catalog :: "shopEnv \<Rightarrow> jobRun \<Rightarrow> itemCatalogView" where
  "run_catalog V run =
     (let data = get (jr_result run) ''data'' in
      catalogFromAgentResult (e_gunzip (sv_env V)) (e_sortNames (sv_env V))
        (case field data ''items'' of
           Arr items \<Rightarrow> Obj [(''items'', Arr items), (''files'', field data ''files''), (''truncated'', field data ''truncated'')]
         | _ \<Rightarrow> data))"

definition cachedItemCatalog :: "shopEnv \<Rightarrow> id \<Rightarrow> ms \<Rightarrow> world \<Rightarrow> (itemCatalogView \<times> ms) option" where
  "cachedItemCatalog V serverInstanceId now w =
     (case latest_scan serverInstanceId w of
        None \<Rightarrow> None
      | Some run \<Rightarrow>
          (case jr_finishedAt run of
             None \<Rightarrow> None
           | Some finishedAt \<Rightarrow>
               if now - finishedAt > ITEM_CATALOG_CACHE_MS then None
               else if ic_items (run_catalog V run) = [] then None else Some (run_catalog V run, finishedAt)))"

definition gameItemCatalog :: "shopEnv \<Rightarrow> id \<Rightarrow> id \<Rightarrow> bool \<Rightarrow> ms \<Rightarrow> world \<Rightarrow> (itemCatalogView \<times> ms + id) res \<times> world" where
  \<comment> \<open>the cached catalog with its date, or the run of the job that was queued to scan the game\<close>
  "gameItemCatalog V orgId userId refresh now w =
     (case grantCatalogServer V orgId w of
        Inl e \<Rightarrow> (Inl e, w)
      | Inr server \<Rightarrow>
          (case (if refresh then None else cachedItemCatalog V server now w) of
             Some c \<Rightarrow> (Inr (Inl c), w)
           | None \<Rightarrow>
               (case createJob (sv_env V) orgId userId server ''ITEM_CATALOG'' (Some []) now w of
                  (Inl e, w1) \<Rightarrow> (Inl e, w1)
                | (Inr (_, run), w1) \<Rightarrow> (Inr (Inr run), w1))))"

end
