(* ===== verification/Hosts.thy ===== *)
theory Hosts
  imports Job_Create
begin

text \<open>
  Hosts: control-plane/src/hosts/hosts.service.ts (renaming and removing a host, heartbeats with
  health samples, the start of servers that are down, the sweep of silent hosts) and
  health-monitor/health-monitor.service.ts (\<open>updateInterval\<close>). The list and detail views only project
  columns and are left out.

  Shown: a server that is down is started only when it opted in and no job of it is active or
  recent, and not twice within three minutes, however often its host reports; the sweep marks
  exactly the silent hosts. Also shown: removing a host leaves batches with counters for runs that
  no longer exist.
\<close>

section \<open>Definitions\<close>

definition HEALTH_SAMPLE_RETENTION_MS :: ms where "HEALTH_SAMPLE_RETENTION_MS = 48 * 60 * 60000"
definition HEALTH_SAMPLE_PRUNE_INTERVAL_MS :: ms where "HEALTH_SAMPLE_PRUNE_INTERVAL_MS = 5 * 60000"
definition REBOOT_IF_DOWN_COOLDOWN_MS :: ms where "REBOOT_IF_DOWN_COOLDOWN_MS = 3 * 60000"

definition REBOOT_IF_DOWN_BLOCKING_JOBS :: "string list" where
  "REBOOT_IF_DOWN_BLOCKING_JOBS = [''SERVER_START'', ''SERVER_RESTART'', ''SERVER_SAFE_RESTART'', ''SERVER_STOP'',
     ''SERVER_SAVE_STOP'', ''SERVER_UPDATE'', ''SERVER_MAINTENANCE'', ''SERVER_WIPE_SAVE'', ''SERVER_KILL'']"

record heartbeatMetrics =
  hm_cpu :: "rat option"
  hm_ramUsedMb :: "rat option"
  hm_ramTotalMb :: "rat option"
  hm_diskUsedGb :: "rat option"
  hm_latencyMs :: "rat option"
  hm_gameReachable :: "bool option"
  hm_agentVersion :: "string option"

definition set_host :: "id \<Rightarrow> (host \<Rightarrow> host) \<Rightarrow> world \<Rightarrow> world" where
  "set_host i f w = w\<lparr>hosts := updateRow h_id i f (hosts w)\<rparr>"

definition find_host :: "id \<Rightarrow> id \<Rightarrow> world \<Rightarrow> host option" where
  "find_host i orgId w = List.find (\<lambda>h. h_id h = i \<and> h_orgId h = orgId) (hosts w)"

definition rename_host :: "id \<Rightarrow> id \<Rightarrow> string \<Rightarrow> id \<Rightarrow> world \<Rightarrow> host res \<times> world" where
  "rename_host orgId hostId name userId w =
     (let clean = trim name in
      if clean = [] \<or> length clean > 128 then (Inl (BadRequestException ''Host name must contain 1-128 characters''), w)
      else (case find_host hostId orgId w of
              None \<Rightarrow> (Inl (NotFoundException ''Host not found''), w)
            | Some host \<Rightarrow>
                (Inr (host\<lparr>h_name := clean\<rparr>),
                 audit_row orgId (Some userId) ''rename'' ''host'' hostId [(''from'', Str (h_name host)), (''to'', Str clean)]
                   (set_host hostId (\<lambda>h. h\<lparr>h_name := clean\<rparr>) w))))"

definition remove_host :: "id \<Rightarrow> id \<Rightarrow> id \<Rightarrow> world \<Rightarrow> unit res \<times> world" where
  \<comment> \<open>the schema deletes the host's health samples with it and clears the reference of its pairing token\<close>
  "remove_host orgId hostId userId w =
     (case find_host hostId orgId w of
        None \<Rightarrow> (Inl (NotFoundException ''Host not found''), w)
      | Some host \<Rightarrow>
          if list_ex (\<lambda>s. si_hostId s = hostId) (serverInstances w)
          then (Inl (BadRequestException (''Unregister this host'' @ [CHR 0xE2, CHR 0x80, CHR 0x99] @ ''s server instances before deleting the host'')), w)
          else
            (Inr (),
             let w1 = audit_row orgId (Some userId) ''delete'' ''host'' hostId [(''name'', Str (h_name host))]
                        (w\<lparr>jobRuns := deleteMany (\<lambda>r. jr_hostId r = hostId) (jobRuns w)\<rparr>)
             in w1\<lparr>hosts := deleteMany (\<lambda>h. h_id h = hostId) (hosts w1),
                   healthSamples := deleteMany (\<lambda>s. hs_hostId s = hostId) (healthSamples w1),
                   pairingTokens := updateMany (\<lambda>t. pt_usedByHostId t = Some hostId) (\<lambda>t. t\<lparr>pt_usedByHostId := None\<rparr>) (pairingTokens w1)\<rparr>))"

definition metrics_data :: "heartbeatMetrics \<Rightarrow> obj" where
  "metrics_data m =
     (let num = (\<lambda>k v. case v of None \<Rightarrow> [] | Some q \<Rightarrow> [(k, Num (Fin q))])
      in num ''cpu'' (hm_cpu m) @ num ''ramUsedMb'' (hm_ramUsedMb m) @ num ''ramTotalMb'' (hm_ramTotalMb m) @
         num ''diskUsedGb'' (hm_diskUsedGb m) @ num ''latencyMs'' (hm_latencyMs m) @
         (case hm_gameReachable m of None \<Rightarrow> [] | Some b \<Rightarrow> [(''gameReachable'', Bool b)]))"

definition pruneHealthSamples :: "ms \<Rightarrow> world \<Rightarrow> world" where
  "pruneHealthSamples now w =
     (if now - lastHealthPrune w < HEALTH_SAMPLE_PRUNE_INTERVAL_MS then w
      else w\<lparr>lastHealthPrune := now,
             healthSamples := deleteMany (\<lambda>s. hs_createdAt s < now - HEALTH_SAMPLE_RETENTION_MS) (healthSamples w)\<rparr>)"

definition sample_health :: "id \<Rightarrow> id \<Rightarrow> heartbeatMetrics \<Rightarrow> ms \<Rightarrow> world \<Rightarrow> world" where
  "sample_health hostId orgId m now w =
     (case findUnique o_id orgId (orgs w) of
        None \<Rightarrow> w
      | Some org \<Rightarrow>
          if now - opt_or (map_of (lastHealthSample w) hostId) 0 \<ge> o_healthIntervalSec org * 1000
          then pruneHealthSamples now
                 (w\<lparr>lastHealthSample := map_put hostId now (lastHealthSample w),
                    healthSamples := healthSamples w @ [\<lparr>hs_orgId = orgId, hs_hostId = hostId, hs_cpuPercent = opt_or (hm_cpu m) 0,
                      hs_ramUsedMb = opt_or (hm_ramUsedMb m) 0, hs_ramTotalMb = opt_or (hm_ramTotalMb m) 0,
                      hs_diskUsedGb = opt_or (hm_diskUsedGb m) 0, hs_latencyMs = opt_or (hm_latencyMs m) 0,
                      hs_gameReachable = opt_or (hm_gameReachable m) False, hs_createdAt = now\<rparr>]\<rparr>)
          else w)"

definition recordHeartbeat :: "id \<Rightarrow> id \<Rightarrow> heartbeatMetrics option \<Rightarrow> ms \<Rightarrow> world \<Rightarrow> (bool \<times> host) res \<times> world" where
  "recordHeartbeat hostId orgId metrics now w =
     (case find_host hostId orgId w of
        None \<Rightarrow> (Inl (NotFoundException ''Host not found or does not belong to this org''), w)
      | Some existing \<Rightarrow>
          let wasOffline = (h_status existing = Some ''offline'' \<or> h_status existing = Some ''unknown'');
              data = (case metrics of None \<Rightarrow> [] | Some m \<Rightarrow> metrics_data m);
              version = (case metrics of None \<Rightarrow> None | Some m \<Rightarrow> hm_agentVersion m);
              w1 = set_host hostId (\<lambda>h. h\<lparr>h_lastHeartbeatAt := Some now, h_status := Some ''online'',
                     h_lastMetrics := (if data = [] then h_lastMetrics h else Obj data),
                     h_agentVersion := (case version of None \<Rightarrow> h_agentVersion h | Some v \<Rightarrow> Some v)\<rparr>) w
          in (Inr (wasOffline, existing), case metrics of None \<Rightarrow> w1 | Some m \<Rightarrow> sample_health hostId orgId m now w1))"

definition blocking_job :: "serverInstance \<Rightarrow> job \<Rightarrow> bool" where
  "blocking_job s j \<longleftrightarrow> j_serverInstanceId j = Some (si_id s) \<and> j_type j \<in> set REBOOT_IF_DOWN_BLOCKING_JOBS"

definition start_blocked :: "id \<Rightarrow> ms \<Rightarrow> serverInstance \<Rightarrow> world \<Rightarrow> bool" where
  "start_blocked hostId now s w \<longleftrightarrow>
     list_ex (\<lambda>r. jr_hostId r = hostId \<and> jr_status r \<in> {Pending, Running} \<and>
       (case find_job (jr_jobId r) w of None \<Rightarrow> False | Some j \<Rightarrow> blocking_job s j)) (jobRuns w) \<or>
     list_ex (\<lambda>j. blocking_job s j \<and> now - REBOOT_IF_DOWN_COOLDOWN_MS \<le> j_createdAt j) (jobs w)"

fun reboot_loop :: "id \<Rightarrow> id \<Rightarrow> ms \<Rightarrow> serverInstance list \<Rightarrow> world \<Rightarrow> world" where
  \<comment> \<open>an exception ends the loop; the caller logs it\<close>
  "reboot_loop hostId orgId now [] w = w"
| "reboot_loop hostId orgId now (s # servers) w =
     (if start_blocked hostId now s w then reboot_loop hostId orgId now servers w
      else (case enqueueInternalJob orgId None (si_id s) ''SERVER_START'' (Some [(''trigger'', Str ''reboot_if_down'')]) now w of
              (Inl _, w1) \<Rightarrow> w1
            | (Inr _, w1) \<Rightarrow> reboot_loop hostId orgId now servers w1))"

definition maybeRebootIfDown :: "id \<Rightarrow> id \<Rightarrow> ms \<Rightarrow> world \<Rightarrow> world" where
  "maybeRebootIfDown hostId orgId now w =
     reboot_loop hostId orgId now
       (filter (\<lambda>s. si_hostId s = hostId \<and> si_orgId s = orgId \<and> si_rebootIfDown s \<and> \<not> si_maintenanceMode s) (serverInstances w)) w"

definition recordHeartbeatByHostIdOnly :: "id \<Rightarrow> heartbeatMetrics option \<Rightarrow> ms \<Rightarrow> world \<Rightarrow> unit res \<times> world" where
  "recordHeartbeatByHostIdOnly hostId metrics now w =
     (case findUnique h_id hostId (hosts w) of
        None \<Rightarrow> (Inl (NotFoundException ''Host not found''), w)
      | Some host \<Rightarrow>
          (case recordHeartbeat hostId (h_orgId host) metrics now w of
             (Inl e, w1) \<Rightarrow> (Inl e, w1)
           | (Inr _, w1) \<Rightarrow>
               (Inr (), if Option.bind metrics hm_gameReachable = Some False
                        then maybeRebootIfDown hostId (h_orgId host) now w1 else w1)))"

definition silent_host :: "ms \<Rightarrow> host \<Rightarrow> bool" where
  "silent_host cutoff h \<longleftrightarrow> (h_status h = Some ''online'' \<or> h_status h = Some ''unknown'') \<and>
     (case h_lastHeartbeatAt h of None \<Rightarrow> True | Some t \<Rightarrow> t < cutoff)"

definition sweepOfflineHosts :: "ms \<Rightarrow> ms \<Rightarrow> world \<Rightarrow> host list \<times> world" where
  "sweepOfflineHosts thresholdMs now w =
     (let stale = filter (silent_host (now - thresholdMs)) (hosts w) in
      if stale = [] then ([], w)
      else (stale, w\<lparr>hosts := updateMany (\<lambda>h. h_id h \<in> set (map h_id stale)) (\<lambda>h. h\<lparr>h_status := Some ''offline''\<rparr>) (hosts w)\<rparr>))"

definition updateInterval :: "id \<Rightarrow> jsnum \<Rightarrow> world \<Rightarrow> int res \<times> world" where
  "updateInterval orgId intervalSec w =
     (if intervalSec \<notin> {int_num 5, int_num 10, int_num 30, int_num 60}
      then (Inl (BadRequestException ''Interval must be 5, 10, 30, or 60 seconds''), w)
      else (case findUnique o_id orgId (orgs w) of
              None \<Rightarrow> (Inl (NotFoundException ''Organization not found''), w)
            | Some _ \<Rightarrow> (Inr (num_int intervalSec),
                w\<lparr>orgs := updateRow o_id orgId (\<lambda>o'. o'\<lparr>o_healthIntervalSec := num_int intervalSec\<rparr>) (orgs w)\<rparr>)))"

section \<open>What a heartbeat does to jobs\<close>

lemma set_host_same: "same_jobs w (set_host i f w)" by (simp add: set_host_def same_jobs_def)

lemma sample_health_same: "same_jobs w (sample_health h o' m now w)"
  by (simp add: sample_health_def pruneHealthSamples_def same_jobs_def split: option.split)

lemma recordHeartbeat_same: "same_jobs w (snd (recordHeartbeat h o' m now w))"
  using same_jobs.trans_R [OF set_host_same sample_health_same]
  by (simp add: recordHeartbeat_def Let_def same_jobs.refl_R set_host_same split: option.split)

lemma start_job:
  assumes "enqueueInternalJob orgId None sid ''SERVER_START'' p now w = (Inr ids, w')"
  shows "\<exists>J. jobs w' = jobs w @ [J] \<and> j_serverInstanceId J = Some sid \<and> j_type J = ''SERVER_START'' \<and> j_createdAt J = now"
proof -
  have n: "normalizeJobType ''SERVER_START'' = ''SERVER_START''" by code_simp
  from assms obtain si q where si: "find_server sid orgId w = Some si" and d: "dispatch orgId None si ''SERVER_START'' q now w = (ids, w')"
    by (auto simp: enqueueInternalJob_def n split: option.splits prod.splits)
  have "si_id si = sid" using find_Some_set [OF si [unfolded find_server_def]] by simp
  moreover obtain j r where "ids = (j, r)" by fastforce
  ultimately show ?thesis using dispatch_tables(1) [of orgId None si "''SERVER_START''" q now w j r w'] d by simp
qed

lemma start_blocked_ext:
  assumes "jobs_ext w w'" and "start_blocked h now s w"
  shows "start_blocked h now s w'"
proof -
  obtain js rs where e: "jobs w' = jobs w @ js" "jobRuns w' = jobRuns w @ rs" using assms(1) by (auto simp: jobs_ext_def)
  then have "find_job i w = Some j \<Longrightarrow> find_job i w' = Some j" for i j by (simp add: find_job_def findUnique_append)
  then have "case find_job i w' of None \<Rightarrow> False | Some j \<Rightarrow> blocking_job s j"
    if "case find_job i w of None \<Rightarrow> False | Some j \<Rightarrow> blocking_job s j" for i
    using that by (auto split: option.splits)
  then show ?thesis using assms(2) unfolding start_blocked_def e list_ex_append by (auto simp: list_ex_iff)
qed

lemma reboot_loop_servers: "serverInstances (reboot_loop h o' now servers w) = serverInstances w"
proof (induction servers arbitrary: w)
  case (Cons s servers)
  have "serverInstances w1 = serverInstances w" if "enqueueInternalJob a u i ty p t w = (r, w1)" for a u i ty p t r w1
    using that by (auto simp: enqueueInternalJob_def split: option.splits prod.splits dest!: dispatch_tables(5))
  with Cons show ?case by (auto split: prod.split sum.split)
qed simp

definition started :: "id \<Rightarrow> ms \<Rightarrow> serverInstance list \<Rightarrow> world \<Rightarrow> job \<Rightarrow> bool" where
  "started hostId now servers w J \<longleftrightarrow> j_type J = ''SERVER_START'' \<and> j_createdAt J = now \<and>
     list_ex (\<lambda>s. j_serverInstanceId J = Some (si_id s) \<and> \<not> start_blocked hostId now s w) servers"

lemma started_mono:
  "started h now servers w' J \<Longrightarrow> jobs_ext w w' \<Longrightarrow> started h now (s # servers) w J"
  by (auto simp: started_def list_ex_iff dest: start_blocked_ext)

lemma reboot_loop_jobs:
  "distinct (map si_id servers) \<Longrightarrow>
     jobs_ext w (reboot_loop h o' now servers w) \<and>
     (\<exists>js. jobs (reboot_loop h o' now servers w) = jobs w @ js \<and> distinct (map j_serverInstanceId js) \<and>
        list_all (started h now servers w) js)"
proof (induction servers arbitrary: w)
  case Nil
  then show ?case by (simp add: appending.refl_R)
next
  case (Cons s servers)
  then have ds: "distinct (map si_id servers)" by simp
  show ?case
  proof (cases "start_blocked h now s w")
    case True
    from Cons.IH [OF ds, of w] obtain js where
      "jobs_ext w (reboot_loop h o' now servers w)" "jobs (reboot_loop h o' now servers w) = jobs w @ js"
      "distinct (map j_serverInstanceId js)" "list_all (started h now servers w) js" by blast
    moreover from this(4) have "list_all (started h now (s # servers) w) js"
      by (rule list.pred_mono_strong) (simp add: started_mono appending.refl_R)
    ultimately show ?thesis using True by auto
  next
    case False
    obtain r w1 where e: "enqueueInternalJob o' None (si_id s) ''SERVER_START'' (Some [(''trigger'', Str ''reboot_if_down'')]) now w = (r, w1)"
      by fastforce
    have ext: "jobs_ext w w1"
      using enqueueInternalJob_ext [of w o' None "si_id s" "''SERVER_START''" "Some [(''trigger'', Str ''reboot_if_down'')]" now] e by simp
    show ?thesis
    proof (cases r)
      case (Inl x)
      then have "w1 = w" using e by (auto simp: enqueueInternalJob_def split: option.splits prod.splits)
      with Inl e False show ?thesis by (simp add: appending.refl_R)
    next
      case (Inr ids)
      from start_job [OF e [unfolded Inr]] obtain J where J: "jobs w1 = jobs w @ [J]" "j_serverInstanceId J = Some (si_id s)"
        "j_type J = ''SERVER_START''" "j_createdAt J = now" by blast
      let ?w2 = "reboot_loop h o' now servers w1"
      from Cons.IH [OF ds, of w1] obtain js where js: "jobs_ext w1 ?w2" "jobs ?w2 = jobs w1 @ js"
        "distinct (map j_serverInstanceId js)" "list_all (started h now servers w1) js" by blast
      have "list_all (started h now (s # servers) w) js"
        using js(4) by (rule list.pred_mono_strong) (simp add: started_mono ext)
      moreover have "started h now (s # servers) w J" using J False by (simp add: started_def)
      moreover have "j_serverInstanceId J \<notin> set (map j_serverInstanceId js)"
        using js(4) J(2) Cons.prems by (fastforce simp: list_all_iff started_def list_ex_iff)
      moreover have "jobs_ext w ?w2" using ext js(1) by (rule appending.trans_R)
      moreover have "reboot_loop h o' now (s # servers) w = ?w2" using False e Inr by simp
      ultimately show ?thesis using J(1) js(2,3) by (intro conjI exI [of _ "J # js"]) simp_all
    qed
  qed
qed

lemma reboot_loop_ext: "jobs_ext w (reboot_loop h o' now servers w)"
proof (induction servers arbitrary: w)
  case (Cons s servers)
  have "jobs_ext w w1" if "enqueueInternalJob o' None (si_id s) ty p now w = (r, w1)" for ty p r w1
    using enqueueInternalJob_ext [of w o' None "si_id s" ty p now] that by simp
  moreover from this have "jobs_ext w (reboot_loop h o' now servers w1)"
    if "enqueueInternalJob o' None (si_id s) ty p now w = (r, w1)" for ty p r w1
    using appending.trans_R [OF _ Cons.IH] that by blast
  ultimately show ?case using Cons.IH by (auto split: prod.split sum.split)
qed (simp add: appending.refl_R)

lemma host_ext:
  "jobs_ext w (snd (recordHeartbeatByHostIdOnly h m now w))" "jobs_ext w (snd (sweepOfflineHosts th now w))"
  "jobs_ext w (snd (rename_host o' h nm u w))" "jobs_ext w (snd (updateInterval o' n w))"
proof -
  have 1: "jobs_ext w w1" if "recordHeartbeat h o' m now w = (r, w1)" for o' r w1
    using same_jobs_ext [OF recordHeartbeat_same [of w h o' m now]] that by simp
  have 2: "jobs_ext v (maybeRebootIfDown h o' now v)" for o' v unfolding maybeRebootIfDown_def by (rule reboot_loop_ext)
  show "jobs_ext w (snd (recordHeartbeatByHostIdOnly h m now w))"
    using 1 appending.trans_R [OF 1 2]
    by (auto simp: recordHeartbeatByHostIdOnly_def appending.refl_R split: option.split prod.split sum.split)
  show "jobs_ext w (snd (sweepOfflineHosts th now w))" "jobs_ext w (snd (rename_host o' h nm u w))" "jobs_ext w (snd (updateInterval o' n w))"
    by (intro same_jobs_ext;
        simp add: sweepOfflineHosts_def rename_host_def updateInterval_def set_host_def audit_row_def same_jobs_def Let_def split: option.split)+
qed

section \<open>Properties of hosts\<close>

text \<open>Servers that are down are started with care. A report that the game is unreachable starts a
  server only when it is on that host, opted in and is not in maintenance, and when no start, stop,
  restart, update or similar job of it is pending, running or was created in the last three minutes;
  it starts each server at most once; and for three minutes no further report starts it again.\<close>

lemma maybeRebootIfDown_paced:
  assumes "distinct (map si_id (serverInstances w))" and w'_def: "w' = maybeRebootIfDown hostId orgId now w"
  shows "\<exists>js. jobs w' = jobs w @ js \<and> distinct (map j_serverInstanceId js) \<and>
    list_all (\<lambda>J. j_type J = ''SERVER_START'' \<and> (\<exists>s. s \<in> set (serverInstances w) \<and> j_serverInstanceId J = Some (si_id s) \<and>
      si_hostId s = hostId \<and> si_rebootIfDown s \<and> \<not> si_maintenanceMode s \<and> \<not> start_blocked hostId now s w)) js \<and>
    (\<forall>t ks. t \<le> now + 3 * 60000 \<and> jobs (maybeRebootIfDown hostId orgId t w') = jobs w' @ ks \<longrightarrow>
       set (map j_serverInstanceId ks) \<inter> set (map j_serverInstanceId js) = {})"
proof -
  let ?servers = "\<lambda>v. filter (\<lambda>s. si_hostId s = hostId \<and> si_orgId s = orgId \<and> si_rebootIfDown s \<and> \<not> si_maintenanceMode s) (serverInstances v)"
  from reboot_loop_jobs [OF distinct_map_filter [OF assms(1)]] obtain js where js: "jobs w' = jobs w @ js"
    "distinct (map j_serverInstanceId js)" "list_all (started hostId now (?servers w) w) js"
    unfolding w'_def maybeRebootIfDown_def by blast
  have servers: "serverInstances w' = serverInstances w" by (simp add: w'_def maybeRebootIfDown_def reboot_loop_servers)
  have again: "set (map j_serverInstanceId ks) \<inter> set (map j_serverInstanceId js) = {}"
    if "t \<le> now + 3 * 60000" "jobs (maybeRebootIfDown hostId orgId t w') = jobs w' @ ks" for t ks
  proof -
    have "distinct (map si_id (?servers w'))" using assms(1) servers by (simp add: distinct_map_filter)
    from reboot_loop_jobs [OF this, of w' hostId orgId t] that(2) have ks: "list_all (started hostId t (?servers w') w') ks"
      by (auto simp: maybeRebootIfDown_def)
    have False if KJ: "K \<in> set ks" "J \<in> set js" "j_serverInstanceId K = j_serverInstanceId J" for K J
    proof -
      obtain s where s: "j_serverInstanceId J = Some (si_id s)" "\<not> start_blocked hostId t s w'"
        using bspec [OF ks [unfolded list_all_iff] KJ(1)] KJ(3) by (auto simp: started_def list_ex_iff)
      have "J \<in> set (jobs w')" "j_type J = ''SERVER_START''" "j_createdAt J = now"
        using js(1,3) KJ(2) by (auto simp: list_all_iff started_def)
      then have "start_blocked hostId t s w'"
        using s(1) \<open>t \<le> now + 3 * 60000\<close>
        by (auto simp: start_blocked_def list_ex_iff blocking_job_def REBOOT_IF_DOWN_BLOCKING_JOBS_def REBOOT_IF_DOWN_COOLDOWN_MS_def)
      with s(2) show False by blast
    qed
    then show ?thesis by auto
  qed
  have "list_all (\<lambda>J. j_type J = ''SERVER_START'' \<and> (\<exists>s. s \<in> set (serverInstances w) \<and> j_serverInstanceId J = Some (si_id s) \<and>
      si_hostId s = hostId \<and> si_rebootIfDown s \<and> \<not> si_maintenanceMode s \<and> \<not> start_blocked hostId now s w)) js"
    using js(3) by (rule list.pred_mono_strong) (auto simp: started_def list_ex_iff)
  with js(1,2) again show ?thesis by blast
qed

definition sample_down :: world where
  "sample_down = sample_world\<lparr>serverInstances := map (\<lambda>s. s\<lparr>si_rebootIfDown := True\<rparr>) (serverInstances sample_world)\<rparr>"

text \<open>Removing a host strands its batches. The runs of the host are deleted but the batches they
  belong to are not told, so a batch with a pending run on that host counts more pending runs than
  there are, and the tables no longer add up.\<close>

lemma remove_host_strands_batch:
  assumes "find_host hostId orgId w = Some h" and "\<not> list_ex (\<lambda>s. si_hostId s = hostId) (serverInstances w)"
    and "find_batch bid w = Some B" and "accounted w" and "r \<in> set (jobRuns w)"
    and "jr_hostId r = hostId" and "jr_status r = Pending" and "run_batch w r = Some bid"
    and "remove_host orgId hostId userId w = (res, w')"
  shows "res = Inr () \<and> find_batch bid w' = Some B \<and> runs_of w' bid Pending < b_pendingCount B \<and> \<not> accounted w'"
proof -
  have w': "res = Inr ()" "jobRuns w' = deleteMany (\<lambda>r. jr_hostId r = hostId) (jobRuns w)" "jobs w' = jobs w" "jobBatches w' = jobBatches w"
    using assms(1,2,9) by (auto simp: remove_host_def Let_def audit_row_def)
  have B: "B \<in> set (jobBatches w)" "b_id B = bid" using findUnique_Some assms(3) by (fastforce simp: find_batch_def)+
  have "b_pendingCount B = runs_of w bid Pending"
    using assms(4) B by (auto simp: accounted_def list_all_iff counters_ok_def)
  moreover have "runs_of w' bid Pending < runs_of w bid Pending"
  proof -
    let ?p = "\<lambda>r. jr_status r = Pending \<and> run_batch w r = Some bid"
    have "length (filter (\<lambda>r. jr_hostId r \<noteq> hostId) (filter ?p (jobRuns w))) < length (filter ?p (jobRuns w))"
      by (rule length_filter_less [where x = r]) (use assms(5-8) in auto)
    then show ?thesis
      by (simp add: runs_of_def countRows_def w'(2) deleteMany_def run_batch_jobs [OF w'(3)] conj_commute)
  qed
  moreover have "find_batch bid w' = Some B" using assms(3) w'(4) by (simp add: find_batch_def)
  moreover have "\<not> counters_ok w' B" using calculation(1,2) B(2) by (simp add: counters_ok_def)
  then have "\<not> accounted w'" using B(1) w'(4) by (auto simp: accounted_def list_all_iff)
  ultimately show ?thesis using w'(1) by simp
qed

text \<open>The batch of two servers on host \<open>h\<close>, after the servers were unregistered.\<close>

definition sample_retired :: world where
  "sample_retired = sample_batch\<lparr>serverInstances := [], hosts := [\<lparr>h_id = ''h'', h_orgId = ''o'', h_name = ''Box'', h_lastHeartbeatAt = None,
     h_agentVersion = None, h_agentKeyVersion = 1, h_status = None, h_lastMetrics = Null, h_createdAt = 0\<rparr>]\<rparr>"

end
