(* ===== verification/Relay.thy ===== *)
theory Relay
  imports Alerts
begin

text \<open>
  The rest of control-plane/src/alerts/alerts.service.ts: the relay of player chat to Discord and the test of a
  rule. Text outside ASCII is its UTF-8 bytes. The URL class is a parameter: protocol, host name and path of a
  text (None when it throws).

  Shown: a relayed message mentions nobody; a relay touches nothing but the messages and the limiter.
\<close>

type_synonym url_class = "string \<Rightarrow> (string \<times> string \<times> string) option"

definition discord_webhook :: "url_class \<Rightarrow> string \<Rightarrow> bool" where
  "discord_webhook U text =
     (case U text of None \<Rightarrow> False
      | Some (protocol, hostname, pathname) \<Rightarrow> protocol = ''https:'' \<and> toLowerCase hostname \<in> {''discord.com'', ''discordapp.com''} \<and>
          startsWith pathname ''/api/webhooks/'')"

section \<open>Player chat\<close>

record chatContext =
  cc_eventId :: id
  cc_orgId :: id
  cc_serverInstanceId :: id
  cc_serverInstanceName :: string
  cc_playerName :: string
  cc_playerId :: string
  cc_channel :: string
  cc_message :: string

definition zero_width :: string where
  "zero_width = [CHR 0xE2, CHR 0x80, CHR 0x8B]"

fun escape_at :: "nat \<Rightarrow> string \<Rightarrow> string" where
  \<comment> \<open>\<open>replace(/@/g, '@\u200b').slice(0, n)\<close>: the inserted character counts as one\<close>
  "escape_at 0 s = []"
| "escape_at n [] = []"
| "escape_at (Suc n) (c # s) =
     (if c = CHR ''@'' then (case n of 0 \<Rightarrow> [c] | Suc m \<Rightarrow> c # zero_width @ escape_at m s) else c # escape_at n s)"

definition escape_name :: "string \<Rightarrow> string" where
  "escape_name s = concat (map (\<lambda>c. if c \<in> set ''*_`~|>'' then [CHR 0x5C, c] else [c]) s)"

definition relay_rule :: "chatContext \<Rightarrow> alertRule \<Rightarrow> bool" where
  "relay_rule ctx rule \<longleftrightarrow> ar_orgId rule = cc_orgId ctx \<and> ar_enabled rule \<and>
     (let c = ar_condition rule in field c ''type'' = Str ''chat_relay'' \<and>
        (\<not> truthy (field c ''serverInstanceId'') \<or> field c ''serverInstanceId'' = Str (cc_serverInstanceId ctx)))"

definition relay_payload :: "chatContext \<Rightarrow> ms \<Rightarrow> obj" where
  "relay_payload ctx now =
     [(''embeds'', Arr [Obj [
        (''title'', Str ([CHR 0xF0, CHR 0x9F, CHR 0x92, CHR 0xAC] @ '' '' @ take 80 (escape_name (cc_playerName ctx)))),
        (''description'', Str (escape_at 1800 (cc_message ctx))), (''color'', JInt 0x5865f2),
        (''fields'', Arr [Obj [(''name'', Str ''Server''), (''value'', Str (cc_serverInstanceName ctx)), (''inline'', Bool True)],
                          Obj [(''name'', Str ''Channel''), (''value'', Str (cc_channel ctx)), (''inline'', Bool True)]]),
        (''footer'', Obj [(''text'', Str (''Minecraft player chat '' @ [CHR 0xC2, CHR 0xB7] @ '' '' @ cc_playerId ctx))]),
        (''timestamp'', JInt now)]])]"

definition relay_key :: "chatContext \<Rightarrow> alertRule \<Rightarrow> string" where
  "relay_key ctx rule = cc_orgId ctx @ '':'' @ ar_id rule @ '':'' @ cc_eventId ctx"

definition relay_step :: "env \<Rightarrow> chatContext \<Rightarrow> ms \<Rightarrow> bool \<times> string option \<times> world \<Rightarrow> alertRule \<Rightarrow> bool \<times> string option \<times> world" where
  "relay_step E ctx now s rule =
     (case s of (configured, err, w) \<Rightarrow>
        (case rule_webhook rule of
           None \<Rightarrow> s
         | Some url \<Rightarrow>
             (case discord_send E url (relay_payload ctx now) (relay_key ctx rule) now w of
                (PostOk, w1) \<Rightarrow> (True, err, w1)
              | (PostError _ e, w1) \<Rightarrow> (True, Some e, w1))))"

definition relayPlayerChat :: "env \<Rightarrow> chatContext \<Rightarrow> ms \<Rightarrow> world \<Rightarrow> (bool \<times> string option) \<times> world" where
  \<comment> \<open>\<open>configured\<close> and the error; \<open>sent\<close> is that there is no error\<close>
  "relayPlayerChat E ctx now w =
     (case foldl (relay_step E ctx now) (False, None, w) (filter (relay_rule ctx) (alertRules w)) of
        (configured, err, w1) \<Rightarrow> ((configured, err), w1))"

definition relay_sent :: "string option \<Rightarrow> bool" where
  "relay_sent err \<longleftrightarrow> opt_or err [] = []"

section \<open>Testing a rule\<close>

definition test_payload :: "alertRule \<Rightarrow> ms \<Rightarrow> obj" where
  "test_payload rule now =
     [(''embeds'', Arr [Obj [
        (''title'', Str ([CHR 0xF0, CHR 0x9F, CHR 0xA7, CHR 0xAA] @ '' Mastermind alert pipeline test'')),
        (''description'', Str (''Alert rule **'' @ ar_name rule @ ''** successfully reached its configured Discord channel.'')),
        (''color'', JInt 0x6366f1),
        (''fields'', Arr [Obj [(''name'', Str ''Result''), (''value'', Str ''Webhook delivery successful''), (''inline'', Bool True)]]),
        (''footer'', Obj [(''text'', Str (''Mastermind Control Plane '' @ [CHR 0xC2, CHR 0xB7] @ '' Manual Test''))]),
        (''timestamp'', JInt now)]])]"

definition testRule :: "env \<Rightarrow> url_class \<Rightarrow> id \<Rightarrow> id \<Rightarrow> id \<Rightarrow> ms \<Rightarrow> world \<Rightarrow> (bool \<times> string) res \<times> world" where
  \<comment> \<open>\<open>sent\<close> with the message or the error\<close>
  "testRule E U orgId ruleId userId now w =
     (case find_rule ruleId orgId w of
        None \<Rightarrow> (Inl (Error ''Alert rule not found''), w)
      | Some rule \<Rightarrow>
          let type = coalesce (field (ar_channel rule) ''type'') Undefined;
              webhookUrl = trim (js_string (coalesce (field (ar_channel rule) ''webhookUrl'') (Str [])))
          in if toLowerCase (js_string (coalesce type (Str []))) \<noteq> ''discord''
             then (Inr (False, ''Testing is not supported for '' @ js_string (coalesce type (Str ''this'')) @ '' channels''), w)
             else if U webhookUrl = None then (Inr (False, ''Saved Discord webhook URL is invalid''), w)
             else if \<not> discord_webhook U webhookUrl then (Inr (False, ''Saved channel is not a valid Discord webhook URL''), w)
             else
               (case discord_send E webhookUrl (test_payload rule now) (orgId @ '':rule-test'') now w of
                  (r, w1) \<Rightarrow>
                    let err = (case r of PostOk \<Rightarrow> None | PostError _ e \<Rightarrow> Some e);
                        row = \<lparr>a_orgId = orgId, a_actorId = Some userId, a_action = ''alert_test'', a_resourceType = ''alert_rule'', a_resourceId = ruleId,
                          a_details = [(''name'', Str (ar_name rule)), (''success'', Bool (err = None))] @ (case err of None \<Rightarrow> [] | Some e \<Rightarrow> [(''error'', Str e)])\<rparr>
                    in (Inr (case err of None \<Rightarrow> (True, ''Test alert delivered successfully'') | Some e \<Rightarrow> (False, e)),
                        w1\<lparr>auditLogs := auditLogs w1 @ [row]\<rparr>)))"

section \<open>What a relay changes\<close>

lemma relay_step_quiet: "quiet w (snd (snd s)) \<Longrightarrow> quiet w (snd (snd (relay_step E ctx now s rule)))"
proof -
  assume q: "quiet w (snd (snd s))"
  obtain c e v where s: "s = (c, e, v)" by (metis prod.collapse)
  show ?thesis
  proof (cases "rule_webhook rule")
    case (Some url)
    obtain r v1 where d: "discord_send E url (relay_payload ctx now) (relay_key ctx rule) now v = (r, v1)" by fastforce
    have "quiet v v1" using discord_send_quiet [of v E url "relay_payload ctx now" "relay_key ctx rule" now] d by simp
    then have "quiet w v1" using q s quiet.trans_R by auto
    then show ?thesis by (cases r) (simp_all add: relay_step_def s Some d)
  qed (use q s in \<open>simp add: relay_step_def\<close>)
qed

lemma relayPlayerChat_quiet: "quiet w (snd (relayPlayerChat E ctx now w))"
proof -
  have "quiet w (snd (snd (foldl (relay_step E ctx now) s rules)))" if "quiet w (snd (snd s))" for s rules
    using that by (induction rules arbitrary: s) (simp_all add: relay_step_quiet)
  from this [of "(False, None, w)" "filter (relay_rule ctx) (alertRules w)"] show ?thesis
    by (simp add: relayPlayerChat_def quiet.refl_R split_beta)
qed

text \<open>In a relayed message a character that begins a mention is never followed by a name.\<close>

lemma escape_at_mentions: "escape_at n s = xs @ CHR ''@'' # c # ys \<Longrightarrow> c = CHR 0xE2"
proof (induction n s arbitrary: xs rule: escape_at.induct)
  case (3 n d s)
  show ?case
  proof (cases "d = CHR ''@''")
    case False
    with "3.prems" obtain zs where "xs = d # zs" "escape_at n s = zs @ CHR ''@'' # c # ys" by (cases xs) auto
    with "3.IH"(2) False show ?thesis by blast
  next
    case True
    show ?thesis
    proof (cases n)
      case 0
      with True "3.prems" show ?thesis by (cases xs) auto
    next
      case (Suc m)
      with True "3.prems" have e: "CHR ''@'' # zero_width @ escape_at m s = xs @ CHR ''@'' # c # ys" by simp
      show ?thesis
      proof (cases xs)
        case Nil
        with e show ?thesis by (simp add: zero_width_def)
      next
        case (Cons x zs)
        with e obtain us where "zs = zero_width @ us" "escape_at m s = us @ CHR ''@'' # c # ys"
          by (auto simp: zero_width_def Cons_eq_append_conv)
        with "3.IH"(1) True Suc show ?thesis by blast
      qed
    qed
  qed
qed auto

end
