(* ===== verification/Players.thy ===== *)
theory Players
  imports Shop_Delivery Triggers
begin

text \<open>
  Players: control-plane/src/players/player-roster.ts (what the agent reports),
  player-identity.ts (joining an early name-only record with the record of a stable id) and the
  roster half of control-plane/src/jobs/jobs.service.ts (\<open>applyPlayerRoster\<close>, which opens and
  closes play sessions, fires rewards and announces joins and leaves, and
  \<open>enforceConnectionTools\<close>, the ping and country limits).

  Shown: after a roster is applied exactly the players of the roster are online; joining two
  records keeps the playtime and the sessions. Also shown: it deletes the purchases and rewards
  of the name-only record, and the connection limits never act on what the agent reports.
\<close>

section \<open>The reported roster\<close>

record rosterRow =
  rr_name :: string
  rr_identityKey :: string
  rr_steamId :: "string option"
  rr_ipAddress :: "string option"
  rr_ping :: "rat option"
  rr_position :: "(rat \<times> rat \<times> rat) option"

definition asRecord :: "js \<Rightarrow> obj option" where
  "asRecord v = (case v of Obj o' \<Rightarrow> Some o' | _ \<Rightarrow> None)"

fun roster_text :: "js list \<Rightarrow> string" where
  \<comment> \<open>\<open>text(...values)\<close>\<close>
  "roster_text [] = []"
| "roster_text (v # vs) =
     (case v of
        Str s \<Rightarrow> if trim s \<noteq> [] then trim s else roster_text vs
      | Num (Fin q) \<Rightarrow> num_str (Fin q)
      | _ \<Rightarrow> roster_text vs)"

definition name_key :: "string \<Rightarrow> string" where
  \<comment> \<open>the identity of a player known by name only\<close>
  "name_key name = ''name:'' @ toLowerCase name"

definition rosterIdentityKey :: "string option \<Rightarrow> string \<Rightarrow> string" where
  "rosterIdentityKey steamId name =
     (case steamId of Some s \<Rightarrow> if s \<noteq> [] then ''steam:'' @ s else name_key name
      | None \<Rightarrow> name_key name)"

definition roster_row :: "js \<Rightarrow> rosterRow option" where
  "roster_row item =
     (case asRecord item of None \<Rightarrow> None | Some row \<Rightarrow>
       let name = roster_text [get row ''name'', get row ''player'', get row ''username'', get row ''displayName''] in
       if name = [] \<or> 16 < length name then None
       else
         let uuidRaw = roster_text [get row ''uuid'', get row ''id'', get row ''playerUuid''];
             uuid = (if uuid_ok uuidRaw then toLowerCase uuidRaw else [])
         in Some \<lparr>rr_name = name,
              rr_identityKey = (if uuid \<noteq> [] then ''uuid:'' @ uuid else name_key name),
              rr_steamId = None, rr_ipAddress = None, rr_ping = None, rr_position = None\<rparr>)"

definition parseMinecraftRoster :: "js \<Rightarrow> rosterRow list option" where
  "parseMinecraftRoster result =
     (case field result ''players'' of
        Arr xs \<Rightarrow> Some (take 256 (List.map_filter roster_row xs))
      | _ \<Rightarrow> (case result of Arr xs \<Rightarrow> Some (take 256 (List.map_filter roster_row xs)) | _ \<Rightarrow> None))"

section \<open>Identities\<close>

definition find_player :: "id \<Rightarrow> string \<Rightarrow> world \<Rightarrow> player option" where
  "find_player sid key w = List.find (\<lambda>p. p_serverInstanceId p = sid \<and> p_identityKey p = key) (players w)"

definition set_player :: "id \<Rightarrow> (player \<Rightarrow> player) \<Rightarrow> world \<Rightarrow> world" where
  "set_player i f w = w\<lparr>players := updateRow p_id i f (players w)\<rparr>"

text \<open>Deleting a player deletes the rows that refer to it (\<open>onDelete: Cascade\<close>): its sessions, its
  donations with their lines, and its reward fires.\<close>

definition delete_player :: "id \<Rightarrow> world \<Rightarrow> world" where
  "delete_player i w =
     w\<lparr>players := deleteMany (\<lambda>p. p_id p = i) (players w),
       playerSessions := deleteMany (\<lambda>s. ps_playerId s = i) (playerSessions w),
       donationLines := deleteMany (\<lambda>l. list_ex (\<lambda>d. d_id d = l_donationId l \<and> d_playerId d = i) (donations w)) (donationLines w),
       donations := deleteMany (\<lambda>d. d_playerId d = i) (donations w),
       triggerFires := deleteMany (\<lambda>f. tf_playerId f = i) (triggerFires w)\<rparr>"

definition merge_player :: "string option \<Rightarrow> player \<Rightarrow> player \<Rightarrow> player" where
  "merge_player steamId fallback canonical =
     (let online = (p_online canonical \<or> p_online fallback);
          starts = List.map_filter p_currentSessionStartedAt [canonical, fallback]
      in canonical\<lparr>p_steamId := (if steamId = None then p_steamId canonical else steamId),
           p_lifetimeSeconds := p_lifetimeSeconds canonical + p_lifetimeSeconds fallback,
           p_firstSeenAt := (if p_firstSeenAt fallback < p_firstSeenAt canonical then p_firstSeenAt fallback else p_firstSeenAt canonical),
           p_lastSeenAt := (if p_lastSeenAt fallback > p_lastSeenAt canonical then p_lastSeenAt fallback else p_lastSeenAt canonical),
           p_online := online,
           p_currentSessionStartedAt := (if online \<and> starts \<noteq> [] then Some (foldl min (hd starts) (tl starts)) else None)\<rparr>)"

definition reconcileNameFallback :: "id \<Rightarrow> string \<Rightarrow> string \<Rightarrow> string option \<Rightarrow> world \<Rightarrow> world" where
  "reconcileNameFallback sid identityKey name steamId w =
     (if startsWith identityKey ''name:'' then w
      else (case find_player sid (name_key name) w of
              None \<Rightarrow> w
            | Some fallback \<Rightarrow>
                (case find_player sid identityKey w of
                   None \<Rightarrow> set_player (p_id fallback) (\<lambda>p. p\<lparr>p_identityKey := identityKey, p_steamId := steamId\<rparr>) w
                 | Some canonical \<Rightarrow>
                     (let w1 = w\<lparr>playerSessions := updateMany (\<lambda>s. ps_playerId s = p_id fallback)
                                  (\<lambda>s. s\<lparr>ps_playerId := p_id canonical\<rparr>) (playerSessions w)\<rparr>;
                          w2 = set_player (p_id canonical) (merge_player steamId fallback) w1
                      in delete_player (p_id fallback) w2))))"

section \<open>Applying a roster\<close>

definition new_player :: "id \<Rightarrow> id \<Rightarrow> rosterRow \<Rightarrow> ms \<Rightarrow> id \<Rightarrow> player" where
  "new_player orgId sid row now i =
     \<lparr>p_id = i, p_orgId = orgId, p_serverInstanceId = sid, p_identityKey = rr_identityKey row,
      p_steamId = rr_steamId row, p_ipAddress = rr_ipAddress row, p_name = rr_name row, p_online = True,
      p_currentSessionStartedAt = Some now, p_lifetimeSeconds = 0, p_lastPos = rr_position row, p_lastLogoutAt = None,
      p_supporter = False, p_supporterSince = None, p_totalDonatedCents = 0, p_portalPasswordHash = None,
      p_firstSeenAt = now, p_lastSeenAt = now\<rparr>"

definition seen_player :: "rosterRow \<Rightarrow> ms \<Rightarrow> player \<Rightarrow> player" where
  "seen_player row now p =
     p\<lparr>p_steamId := (if rr_steamId row = None then p_steamId p else rr_steamId row),
       p_ipAddress := (case rr_ipAddress row of Some a \<Rightarrow> if a \<noteq> [] then Some a else p_ipAddress p | None \<Rightarrow> p_ipAddress p),
       p_name := rr_name row, p_online := True, p_lastSeenAt := now,
       p_lastPos := (case rr_position row of None \<Rightarrow> p_lastPos p | Some q \<Rightarrow> Some q),
       p_currentSessionStartedAt := (if p_online p then p_currentSessionStartedAt p else Some now)\<rparr>"

definition upsert_player :: "id \<Rightarrow> id \<Rightarrow> rosterRow \<Rightarrow> ms \<Rightarrow> world \<Rightarrow> player \<times> world" where
  "upsert_player orgId sid row now w =
     (case find_player sid (rr_identityKey row) w of
        None \<Rightarrow> (let p = new_player orgId sid row now (next_id w) in (p, (draw w)\<lparr>players := players w @ [p]\<rparr>))
      | Some p \<Rightarrow> (seen_player row now p, set_player (p_id p) (seen_player row now) w))"

definition open_session :: "id \<Rightarrow> ms \<Rightarrow> world \<Rightarrow> world" where
  "open_session i now w =
     (draw w)\<lparr>playerSessions := playerSessions w @
        [\<lparr>ps_id = next_id w, ps_playerId = i, ps_startedAt = now, ps_endedAt = None, ps_durationSeconds = None\<rparr>]\<rparr>"

definition roster_context :: "id \<Rightarrow> id \<Rightarrow> string option \<Rightarrow> string \<Rightarrow> string \<Rightarrow> int option \<Rightarrow> alertContext" where
  "roster_context orgId sid serverName name identityKey seconds =
     (org_context orgId)\<lparr>x_serverInstanceId := Some sid, x_serverInstanceName := Some (opt_or serverName ''Minecraft Server''),
        x_playerName := Some name, x_minecraftUuid := uuid_of identityKey, x_sessionSeconds := seconds\<rparr>"

definition session_seconds :: "ms option \<Rightarrow> ms \<Rightarrow> int" where
  "session_seconds start end = (case start of None \<Rightarrow> 0 | Some s \<Rightarrow> max 0 ((end - s) div 1000))"

definition apply_row :: "env \<Rightarrow> id \<Rightarrow> id \<Rightarrow> string option \<Rightarrow> ms \<Rightarrow> world \<Rightarrow> rosterRow \<Rightarrow> world" where
  "apply_row E orgId sid serverName now w row =
     (let w1 = reconcileNameFallback sid (rr_identityKey row) (rr_name row) (rr_steamId row) w;
          existing = find_player sid (rr_identityKey row) w1;
          wasOnline = (case existing of None \<Rightarrow> False | Some p \<Rightarrow> p_online p);
          (p, w2) = upsert_player orgId sid row now w1;
          tp = as_trigger_player p;
          w3 = (if wasOnline then w2 else open_session (p_id p) now w2);
          w4 = (if existing = None then evaluateFirstJoin E orgId sid tp now w3 else w3);
          w5 = (if wasOnline then w4
                else sendMatchingRules E ''PLAYER_CONNECTED'' (roster_context orgId sid serverName (p_name p) (rr_identityKey row) None) now
                       (retryPendingItemGrantsForPlayer E (p_id p) now w4));
          projected = p_lifetimeSeconds p + (if p_online p then session_seconds (p_currentSessionStartedAt p) now else 0)
      in evaluatePlaytime E orgId sid tp (case existing of None \<Rightarrow> 0 | Some q \<Rightarrow> p_lifetimeSeconds q) projected now w5)"

definition end_time :: "ms \<Rightarrow> player \<Rightarrow> ms" where
  "end_time now p = (if p_lastSeenAt p < now then p_lastSeenAt p else now)"

definition leave_player :: "ms \<Rightarrow> player \<Rightarrow> world \<Rightarrow> world" where
  "leave_player now p w =
     (let end = end_time now p; duration = session_seconds (p_currentSessionStartedAt p) end
      in (set_player (p_id p) (\<lambda>q. q\<lparr>p_online := False, p_currentSessionStartedAt := None, p_lastLogoutAt := Some end,
            p_lifetimeSeconds := p_lifetimeSeconds q + duration\<rparr>) w)
          \<lparr>playerSessions := updateMany (\<lambda>s. ps_playerId s = p_id p \<and> ps_endedAt s = None)
             (\<lambda>s. s\<lparr>ps_endedAt := Some end, ps_durationSeconds := Some duration\<rparr>) (playerSessions w)\<rparr>)"

definition apply_missing :: "env \<Rightarrow> id \<Rightarrow> id \<Rightarrow> string option \<Rightarrow> ms \<Rightarrow> world \<Rightarrow> player \<Rightarrow> world" where
  "apply_missing E orgId sid serverName now w p =
     (let duration = session_seconds (p_currentSessionStartedAt p) (end_time now p);
          w1 = leave_player now p w;
          w2 = evaluatePlaytime E orgId sid ((as_trigger_player p)\<lparr>tp_online := False\<rparr>) (p_lifetimeSeconds p)
                 (p_lifetimeSeconds p + duration) now w1
      in sendMatchingRules E ''PLAYER_DISCONNECTED''
           (roster_context orgId sid serverName (p_name p) (p_identityKey p) (Some duration)) now w2)"

definition missing_players :: "id \<Rightarrow> string list \<Rightarrow> world \<Rightarrow> player list" where
  "missing_players sid seen w =
     filter (\<lambda>p. p_serverInstanceId p = sid \<and> p_online p \<and> p_identityKey p \<notin> set seen) (players w)"

definition applyPlayerRoster :: "env \<Rightarrow> id \<Rightarrow> id \<Rightarrow> rosterRow list \<Rightarrow> ms \<Rightarrow> world \<Rightarrow> world" where
  "applyPlayerRoster E orgId sid rows now w =
     (let serverName = map_option si_name (findUnique si_id sid (serverInstances w));
          w1 = foldl (apply_row E orgId sid serverName now) w rows;
          w2 = foldl (apply_missing E orgId sid serverName now) w1 (missing_players sid (map rr_identityKey rows) w1)
      in retryPendingItemGrants E orgId sid now (enqueuePendingShopGrants E orgId sid now w2))"

section \<open>Connection limits\<close>

definition isPrivateAddress :: "string \<Rightarrow> bool" where
  "isPrivateAddress ip0 =
     (let ip = toLowerCase ip0 in
      list_ex (startsWith ip) [''10.'', ''127.'', ''192.168.'', ''169.254.'', ''fc'', ''fd''] \<or> ip = ''::1'' \<or>
      startsWith ip ''172.'' \<and> 6 < length ip \<and> ip ! 6 = CHR ''.'' \<and>
        (ip ! 4 = CHR ''1'' \<and> ip ! 5 \<in> {CHR ''6'', CHR ''7'', CHR ''8'', CHR ''9''} \<or>
         ip ! 4 = CHR ''2'' \<and> is_digit (ip ! 5) \<or>
         ip ! 4 = CHR ''3'' \<and> ip ! 5 \<in> {CHR ''0'', CHR ''1''}))"

definition pruneProtectionState :: "ms \<Rightarrow> world \<Rightarrow> world" where
  "pruneProtectionState now w =
     w\<lparr>protectionCooldown := fst (pruneMap (\<lambda>until _. now < until) (protectionCooldown w)),
       countryCache := fst (pruneMap (\<lambda>(_, expires) _. now < expires) (countryCache w)),
       badPingSamples := (if 2000 < length (badPingSamples w) then [] else badPingSamples w)\<rparr>"

definition countryForIp :: "env \<Rightarrow> string \<Rightarrow> ms \<Rightarrow> world \<Rightarrow> string \<times> world" where
  "countryForIp E ip now w =
     (let w1 = pruneProtectionState now w in
      case (case map_of (countryCache w1) ip of
              Some (cached, expires) \<Rightarrow> if now < expires then Some cached else None
            | None \<Rightarrow> None) of
        Some cached \<Rightarrow> (cached, w1)
      | None \<Rightarrow>
          (case e_country E ip of
             None \<Rightarrow> ([], w1)
           | Some data \<Rightarrow>
               (let c = (if truthy (field data ''country'') then toUpperCase (js_string (field data ''country'')) else [])
                in if length c = 2 \<and> list_all is_upper c
                   then (c, w1\<lparr>countryCache := map_put ip (c, now + 24 * 60 * 60000) (countryCache w1)\<rparr>)
                   else ([], w1))))"

definition row_identifier :: "rosterRow \<Rightarrow> string" where
  "row_identifier row = or_str (or_str (opt_or (rr_steamId row) []) (rr_name row)) (rr_identityKey row)"

definition ping_limit :: "env \<Rightarrow> id \<Rightarrow> id \<Rightarrow> id \<Rightarrow> protection \<Rightarrow> rosterRow \<Rightarrow> ms \<Rightarrow> world \<Rightarrow> bool res \<times> world" where
  \<comment> \<open>the high ping branch; True when the row is done (\<open>continue\<close>)\<close>
  "ping_limit E orgId userId sid settings row now w =
     (case rr_ping row of
        None \<Rightarrow> (Inr False, w)
      | Some ping \<Rightarrow>
          if \<not> pr_highPingEnabled settings then (Inr False, w)
          else
            let key = sid @ '':'' @ row_identifier row;
                count' = (if of_int (pr_highPingThresholdMs settings) < ping
                          then opt_or (map_of (badPingSamples w) key) 0 + 1 else 0);
                w1 = w\<lparr>badPingSamples := map_put key count' (badPingSamples w)\<rparr>
            in if count' < pr_highPingSamples settings then (Inr False, w1)
               else (case createJob E orgId userId sid ''PLAYER_KICK'' (Some [(''identifier'', Str (row_identifier row)),
                        (''reason'', Str (pr_highPingReason settings @ '' ('' @ num_str (Fin ping) @ '' ms)''))]) now w1 of
                       (Inl e, w2) \<Rightarrow> (Inl e, w2)
                     | (Inr _, w2) \<Rightarrow>
                         (Inr True, w2\<lparr>badPingSamples := map_put key 0 (badPingSamples w2),
                            protectionCooldown := map_put key (now + 5 * 60000) (protectionCooldown w2)\<rparr>)))"

definition country_limit :: "env \<Rightarrow> id \<Rightarrow> id \<Rightarrow> id \<Rightarrow> protection \<Rightarrow> rosterRow \<Rightarrow> ms \<Rightarrow> world \<Rightarrow> unit res \<times> world" where
  "country_limit E orgId userId sid settings row now w =
     (case rr_ipAddress row of
        None \<Rightarrow> (Inr (), w)
      | Some ip \<Rightarrow>
          if \<not> pr_countryBanEnabled settings \<or> ip = [] \<or> isPrivateAddress ip then (Inr (), w)
          else (case countryForIp E ip now w of (country, w1) \<Rightarrow>
            if country = [] \<or> country \<notin> set (pr_blockedCountryCodes settings) then (Inr (), w1)
            else
              let type = (if pr_countryAction settings = ''ban'' then ''PLAYER_BAN'' else ''PLAYER_KICK'');
                  payload = [(''identifier'', Str (row_identifier row)),
                    (''reason'', Str (pr_countryReason settings @ '' ('' @ country @ '')''))] @
                    (if type = ''PLAYER_BAN'' then [(''duration'', Str (pr_countryBanDuration settings))] else [])
              in (case createJob E orgId userId sid type (Some payload) now w1 of
                    (Inl e, w2) \<Rightarrow> (Inl e, w2)
                  | (Inr _, w2) \<Rightarrow>
                      (Inr (), w2\<lparr>protectionCooldown :=
                         map_put (sid @ '':'' @ row_identifier row) (now + 24 * 60 * 60000) (protectionCooldown w2)\<rparr>))))"

fun enforce_rows :: "env \<Rightarrow> id \<Rightarrow> id \<Rightarrow> id \<Rightarrow> protection \<Rightarrow> ms \<Rightarrow> rosterRow list \<Rightarrow> world \<Rightarrow> unit res \<times> world" where
  "enforce_rows E orgId userId sid settings now [] w = (Inr (), w)"
| "enforce_rows E orgId userId sid settings now (row # rows) w =
     (if now < opt_or (map_of (protectionCooldown w) (sid @ '':'' @ row_identifier row)) 0
      then enforce_rows E orgId userId sid settings now rows w
      else (case ping_limit E orgId userId sid settings row now w of
              (Inl e, w1) \<Rightarrow> (Inl e, w1)
            | (Inr True, w1) \<Rightarrow> enforce_rows E orgId userId sid settings now rows w1
            | (Inr False, w1) \<Rightarrow>
                (case country_limit E orgId userId sid settings row now w1 of
                   (Inl e, w2) \<Rightarrow> (Inl e, w2)
                 | (Inr _, w2) \<Rightarrow> enforce_rows E orgId userId sid settings now rows w2)))"

definition enforceConnectionTools :: "env \<Rightarrow> id \<Rightarrow> id \<Rightarrow> rosterRow list \<Rightarrow> ms \<Rightarrow> world \<Rightarrow> unit res \<times> world" where
  "enforceConnectionTools E orgId sid rows now w =
     (case findUnique pr_serverInstanceId sid (protections w) of
        None \<Rightarrow> (Inr (), w)
      | Some settings \<Rightarrow>
          if \<not> pr_highPingEnabled settings \<and> \<not> pr_countryBanEnabled settings then (Inr (), w)
          else (case first_member orgId w of
                  None \<Rightarrow> (Inr (), w)
                | Some member \<Rightarrow> enforce_rows E orgId (uo_userId member) sid settings now rows w))"

section \<open>The table of players\<close>

definition player_key :: "player \<Rightarrow> id \<times> string" where
  "player_key p = (p_serverInstanceId p, p_identityKey p)"

text \<open>Ids are unique and were drawn, and so is the pair of server and identity
  (\<open>@@unique([serverInstanceId, identityKey])\<close>).\<close>

definition players_inv :: "world \<Rightarrow> bool" where
  "players_inv w \<longleftrightarrow> inj (idgen w) \<and> distinct (map p_id (players w)) \<and> list_all (drawn w) (map p_id (players w)) \<and>
     distinct (map player_key (players w))"

definition has_player :: "id \<Rightarrow> string \<Rightarrow> player \<Rightarrow> world \<Rightarrow> bool" where
  "has_player sid k p w \<longleftrightarrow> p \<in> set (players w) \<and> player_key p = (sid, k)"

lemma distinct_map_eq: "distinct (map f xs) \<Longrightarrow> x \<in> set xs \<Longrightarrow> y \<in> set xs \<Longrightarrow> f x = f y \<Longrightarrow> x = y"
  by (meson distinct_map inj_onD)

lemma find_player_iff:
  assumes "players_inv w"
  shows "find_player sid k w = Some p \<longleftrightarrow> has_player sid k p w"
proof
  assume "find_player sid k w = Some p"
  then show "has_player sid k p w"
    by (auto simp: find_player_def has_player_def player_key_def dest: find_Some_set)
next
  assume h: "has_player sid k p w"
  then obtain q where q: "find_player sid k w = Some q"
    by (cases "find_player sid k w") (auto simp: find_player_def has_player_def player_key_def find_None_set)
  then have "q \<in> set (players w)" "player_key q = (sid, k)"
    by (auto simp: find_player_def player_key_def dest: find_Some_set)
  with h assms have "q = p" by (auto simp: has_player_def players_inv_def intro: distinct_map_eq)
  with q show "find_player sid k w = Some p" by simp
qed

lemma find_player_None: "find_player sid k w = None \<longleftrightarrow> (sid, k) \<notin> player_key ` set (players w)"
  by (auto simp: find_player_def player_key_def find_None_set)

lemma players_inv_same:
  "players w' = players w \<Longrightarrow> idgen w' = idgen w \<Longrightarrow> idctr w \<le> idctr w' \<Longrightarrow> players_inv w \<Longrightarrow> players_inv w'"
  using drawn_mono [of w' w] by (auto simp: players_inv_def list_all_iff)

text \<open>Updating the row with one id, when the update keeps the id.\<close>

lemma in_set_player:
  assumes "\<And>p. p_id (f p) = p_id p"
  shows "q \<in> set (players (set_player i f w)) \<longleftrightarrow>
    (\<exists>p \<in> set (players w). q = (if p_id p = i then f p else p))"
proof -
  have "players (set_player i f w) = map (\<lambda>p. if p_id p = i then f p else p) (players w)"
    by (simp add: set_player_def updateRow_def updateMany_def)
  then show ?thesis by (simp only: set_map image_iff)
qed

lemma set_player_inv:
  assumes "players_inv w" and f: "\<And>p. p_id (f p) = p_id p"
    and key: "\<And>p. p \<in> set (players w) \<Longrightarrow> p_id p = i \<Longrightarrow>
      player_key (f p) = player_key p \<or> player_key (f p) \<notin> player_key ` set (players w)"
  shows "players_inv (set_player i f w)"
proof -
  let ?g = "\<lambda>p. if p_id p = i then f p else p"
  have ps: "players (set_player i f w) = map ?g (players w)"
    by (simp add: set_player_def updateRow_def updateMany_def)
  have ids: "map p_id (map ?g (players w)) = map p_id (players w)" using f by simp
  have "inj_on (player_key \<circ> ?g) (set (players w))"
  proof (rule inj_onI)
    fix p q assume pq: "p \<in> set (players w)" "q \<in> set (players w)" "(player_key \<circ> ?g) p = (player_key \<circ> ?g) q"
    show "p = q"
    proof (cases "p_id p = p_id q")
      case True
      with pq assms(1) show ?thesis by (auto simp: players_inv_def intro: distinct_map_eq)
    next
      case False
      with pq key [of p] key [of q] have "player_key p = player_key q"
        by (cases "p_id p = i"; cases "p_id q = i") (simp_all, (metis image_eqI)+)
      with pq assms(1) show ?thesis by (auto simp: players_inv_def intro: distinct_map_eq)
    qed
  qed
  then have "distinct (map player_key (map ?g (players w)))"
    using assms(1) by (auto simp: players_inv_def distinct_map inj_on_def)
  moreover have "drawn (set_player i f w) = drawn w" by (auto simp: drawn_def set_player_def)
  ultimately show ?thesis
    using assms(1) unfolding players_inv_def ps ids by (simp add: set_player_def [of i f w] del: map_map)
qed

lemma delete_player_inv: "players_inv w \<Longrightarrow> players_inv (delete_player i w)"
  by (auto simp: players_inv_def delete_player_def deleteMany_def list_all_iff drawn_def distinct_map_filter)

lemma in_delete_player: "q \<in> set (players (delete_player i w)) \<longleftrightarrow> q \<in> set (players w) \<and> p_id q \<noteq> i"
  by (auto simp: delete_player_def deleteMany_def)

section \<open>Reconciling\<close>

lemma merge_player_sel [simp]:
  "p_id (merge_player st f c) = p_id c" "player_key (merge_player st f c) = player_key c"
  "p_lifetimeSeconds (merge_player st f c) = p_lifetimeSeconds c + p_lifetimeSeconds f"
  "p_online (merge_player st f c) = (p_online c \<or> p_online f)"
  by (simp_all add: merge_player_def Let_def player_key_def)

lemma reconcile_cases:
  fixes sid K nm st and w :: world
  obtains (keep) "reconcileNameFallback sid K nm st w = w" "startsWith K ''name:'' \<or> find_player sid (name_key nm) w = None"
  | (promote) fb where "\<not> startsWith K ''name:''" "find_player sid (name_key nm) w = Some fb"
      "find_player sid K w = None"
      "reconcileNameFallback sid K nm st w = set_player (p_id fb) (\<lambda>p. p\<lparr>p_identityKey := K, p_steamId := st\<rparr>) w"
  | (merge) fb c where "\<not> startsWith K ''name:''" "find_player sid (name_key nm) w = Some fb"
      "find_player sid K w = Some c"
      "reconcileNameFallback sid K nm st w = delete_player (p_id fb) (set_player (p_id c) (merge_player st fb)
         (w\<lparr>playerSessions := updateMany (\<lambda>s. ps_playerId s = p_id fb) (\<lambda>s. s\<lparr>ps_playerId := p_id c\<rparr>) (playerSessions w)\<rparr>))"
proof (cases "startsWith K ''name:''")
  case True
  with keep show thesis by (simp add: reconcileNameFallback_def)
next
  case False
  then show thesis
    using keep promote merge
    by (cases "find_player sid (name_key nm) w"; cases "find_player sid K w")
      (simp_all add: reconcileNameFallback_def Let_def)
qed

lemma reconcile_inv:
  assumes "players_inv w"
  shows "players_inv (reconcileNameFallback sid K nm st w)"
proof (cases rule: reconcile_cases [where sid = sid and K = K and nm = nm and st = st and w = w])
  case keep
  with assms show ?thesis by simp
next
  case (promote fb)
  have "(sid, K) \<notin> player_key ` set (players w)" using promote(3) by (simp add: find_player_None)
  moreover have "has_player sid (name_key nm) fb w" using promote(2) assms by (simp add: find_player_iff)
  ultimately show ?thesis
    unfolding promote(4) using assms
    by (intro set_player_inv) (auto simp: player_key_def has_player_def players_inv_def dest: distinct_map_eq)
next
  case (merge fb c)
  let ?w1 = "w\<lparr>playerSessions := updateMany (\<lambda>s. ps_playerId s = p_id fb) (\<lambda>s. s\<lparr>ps_playerId := p_id c\<rparr>) (playerSessions w)\<rparr>"
  have "players_inv ?w1" using assms by (auto intro: players_inv_same)
  then show ?thesis unfolding merge(4) by (intro delete_player_inv set_player_inv) simp_all
qed

text \<open>Reconciling one identity touches no other, but for the name-only record of the same name.\<close>

lemma reconcile_other:
  assumes inv: "players_inv w" and k: "k \<noteq> K" and other: "startsWith K ''name:'' \<or> k \<noteq> name_key nm"
  shows "has_player sid k p (reconcileNameFallback sid K nm st w) \<longleftrightarrow> has_player sid k p w"
proof (cases rule: reconcile_cases [where sid = sid and K = K and nm = nm and st = st and w = w])
  case keep
  then show ?thesis by simp
next
  case (promote fb)
  then have fb: "has_player sid (name_key nm) fb w" using inv by (simp add: find_player_iff)
  then have fbk: "fb \<in> set (players w)" "player_key fb = (sid, name_key nm)" by (auto simp: has_player_def)
  let ?f = "\<lambda>p. p\<lparr>p_identityKey := K, p_steamId := st\<rparr>"
  show ?thesis
  proof
    assume "has_player sid k p w"
    moreover from this have "p_id p \<noteq> p_id fb"
      using fbk inv other promote(1) by (auto simp: has_player_def players_inv_def dest: distinct_map_eq)
    ultimately show "has_player sid k p (reconcileNameFallback sid K nm st w)"
      unfolding promote(4) by (simp add: has_player_def in_set_player [of ?f]) (metis (lifting))
  next
    assume "has_player sid k p (reconcileNameFallback sid K nm st w)"
    with k show "has_player sid k p w"
      unfolding promote(4) by (auto simp: has_player_def in_set_player [of ?f] player_key_def split: if_splits)
  qed
next
  case (merge fb c)
  then have "has_player sid (name_key nm) fb w" "has_player sid K c w" using inv by (simp_all add: find_player_iff)
  then have fb: "fb \<in> set (players w)" "player_key fb = (sid, name_key nm)" and c: "c \<in> set (players w)" "player_key c = (sid, K)"
    by (auto simp: has_player_def)
  have ids: "x = y" if "x \<in> set (players w)" "y \<in> set (players w)" "p_id x = p_id y" for x y
    using that inv by (auto simp: players_inv_def intro: distinct_map_eq)
  let ?w1 = "w\<lparr>playerSessions := updateMany (\<lambda>s. ps_playerId s = p_id fb) (\<lambda>s. s\<lparr>ps_playerId := p_id c\<rparr>) (playerSessions w)\<rparr>"
  show ?thesis
  proof
    assume "has_player sid k p w"
    moreover from this have "p \<in> set (players w)" "player_key p = (sid, k)" by (auto simp: has_player_def)
    moreover from this have "p_id p \<noteq> p_id fb" "p_id p \<noteq> p_id c"
      using ids [of p fb] ids [of p c] fb c other merge(1) k by auto
    ultimately show "has_player sid k p (reconcileNameFallback sid K nm st w)"
      unfolding merge(4) by (simp add: has_player_def in_delete_player in_set_player) (rule bexI [of _ p], simp_all)
  next
    assume "has_player sid k p (reconcileNameFallback sid K nm st w)"
    then obtain q where q: "q \<in> set (players w)" "p = (if p_id q = p_id c then merge_player st fb q else q)"
        "player_key p = (sid, k)"
      unfolding merge(4) by (simp add: has_player_def in_delete_player in_set_player) blast
    have "p_id q \<noteq> p_id c"
      using q c k ids [of q c] by auto
    with q show "has_player sid k p w" by (simp add: has_player_def)
  qed
qed

section \<open>One row of a roster\<close>

lemma seen_player_sel [simp]:
  "p_id (seen_player row now p) = p_id p" "player_key (seen_player row now p) = player_key p"
  "p_online (seen_player row now p)"
  by (simp_all add: seen_player_def player_key_def)

lemma new_player_sel [simp]:
  "p_id (new_player o' sid row now i) = i" "player_key (new_player o' sid row now i) = (sid, rr_identityKey row)"
  "p_online (new_player o' sid row now i)"
  by (simp_all add: new_player_def player_key_def)

lemma upsert_inv:
  assumes inv: "players_inv w" and u: "upsert_player o' sid row now w = (p, w')"
  shows "players_inv w' \<and> has_player sid (rr_identityKey row) p w' \<and> p_online p \<and>
    (\<forall>k q. k \<noteq> rr_identityKey row \<longrightarrow> has_player sid k q w' = has_player sid k q w)"
proof (cases "find_player sid (rr_identityKey row) w")
  case None
  let ?p = "new_player o' sid row now (next_id w)"
  from u None have p: "p = ?p" and w': "w' = (draw w)\<lparr>players := players w @ [?p]\<rparr>"
    by (auto simp: upsert_player_def Let_def)
  have "drawn w' i \<longleftrightarrow> drawn w i \<or> i = next_id w" for i
    using drawn_draw [of w i] by (simp add: w' drawn_def)
  moreover have "next_id w \<notin> p_id ` set (players w)"
    using inv next_id_fresh [of w] by (auto simp: players_inv_def list_all_iff)
  ultimately have "players_inv w'"
    using inv None by (auto simp: players_inv_def w' find_player_None list_all_iff)
  then show ?thesis by (auto simp: p w' has_player_def)
next
  case (Some q)
  with u have p: "p = seen_player row now q" and w': "w' = set_player (p_id q) (seen_player row now) w"
    by (auto simp: upsert_player_def)
  from Some inv have q: "q \<in> set (players w)" "player_key q = (sid, rr_identityKey row)"
    by (auto simp: find_player_iff has_player_def)
  have ids: "x = q" if "x \<in> set (players w)" "p_id x = p_id q" for x
    using that q inv by (auto simp: players_inv_def intro: distinct_map_eq)
  have mem: "x \<in> set (players w') \<longleftrightarrow> (\<exists>y \<in> set (players w). x = (if p_id y = p_id q then seen_player row now y else y))" for x
    unfolding w' by (rule in_set_player) simp
  have "players_inv w'" unfolding w' by (rule set_player_inv [OF inv]) simp_all
  moreover have "has_player sid (rr_identityKey row) p w'" using q by (auto simp: has_player_def mem p intro!: bexI [of _ q])
  moreover have "has_player sid k x w' = has_player sid k x w" if "k \<noteq> rr_identityKey row" for k x
  proof
    assume "has_player sid k x w'"
    then obtain y where y: "y \<in> set (players w)" "x = (if p_id y = p_id q then seen_player row now y else y)" "player_key x = (sid, k)"
      by (auto simp: has_player_def mem)
    have "p_id y \<noteq> p_id q" using y that ids [of y] q by auto
    with y show "has_player sid k x w" by (simp add: has_player_def)
  next
    assume x: "has_player sid k x w"
    then have "p_id x \<noteq> p_id q" using that ids [of x] q by (auto simp: has_player_def)
    with x show "has_player sid k x w'" by (auto simp: has_player_def mem intro!: bexI [of _ x])
  qed
  ultimately show ?thesis by (simp add: p)
qed

text \<open>What follows the upsert of a row leaves the players alone and only appends jobs.\<close>

definition row_le :: "world \<Rightarrow> world \<Rightarrow> bool" where
  "row_le w w' \<longleftrightarrow> jobs_ext w w' \<and> players w' = players w"

interpretation row: state_preorder row_le
  by unfold_locales (auto simp: row_le_def appending.refl_R intro: appending.trans_R)

lemma reward_row: "reward_le w w' \<Longrightarrow> row_le w w'"
  by (simp add: row_le_def reward_le_def same_ledger_def)

lemma quiet_row: "quiet w w' \<Longrightarrow> row_le w w'"
  by (simp add: row_le_def quiet_tables same_jobs_ext quiet_same_jobs)

lemma open_session_row: "row_le w (open_session i now w)"
  unfolding row_le_def by (intro conjI same_jobs_ext) (simp_all add: open_session_def same_jobs_def)

lemmas row_le_rules = reward_row [OF evaluate_reward(1)] reward_row [OF evaluate_reward(2)]
  reward_row [OF retry_reward(1)] reward_row [OF retry_reward(2)] quiet_row [OF sendMatchingRules_quiet] open_session_row row.refl_R

lemma apply_row_split:
  assumes "upsert_player o' sid row now (reconcileNameFallback sid (rr_identityKey row) (rr_name row) (rr_steamId row) w) = (p, w2)"
  shows "row_le w2 (apply_row E o' sid sn now w row)"
proof -
  have chain: "row_le w2 w5 \<Longrightarrow> row_le w2 (evaluatePlaytime E o' sid a b c now w5)" for w5 a b c
    using row.trans_R row_le_rules(2) by blast
  have retry: "row_le w2 w4 \<Longrightarrow> row_le w2 (sendMatchingRules E ty ctx now (retryPendingItemGrantsForPlayer E i now w4))" for w4 ty ctx i
    using row.trans_R [OF _ row.trans_R [OF row_le_rules(4) row_le_rules(5)]] by blast
  have join: "row_le w2 w3 \<Longrightarrow> row_le w2 (evaluateFirstJoin E o' sid a now w3)" for w3 a
    using row.trans_R row_le_rules(1) by blast
  show ?thesis
    unfolding apply_row_def Let_def assms prod.case
    by (intro chain row.if_R retry join row_le_rules)
qed

lemma reconcile_same_jobs: "same_jobs w (reconcileNameFallback sid K nm st w)"
  by (cases rule: reconcile_cases [where sid = sid and K = K and nm = nm and st = st and w = w])
    (simp_all add: same_jobs_def set_player_def delete_player_def)

lemma upsert_same_jobs: "same_jobs w (snd (upsert_player o' sid row now w))"
  by (simp add: upsert_player_def same_jobs_def set_player_def Let_def split: option.split)

lemma apply_row_ext: "jobs_ext w (apply_row E o' sid sn now w row)"
proof -
  let ?w1 = "reconcileNameFallback sid (rr_identityKey row) (rr_name row) (rr_steamId row) w"
  obtain p w2 where u: "upsert_player o' sid row now ?w1 = (p, w2)" by fastforce
  have "same_jobs w w2"
    using reconcile_same_jobs [of w sid "rr_identityKey row" "rr_name row" "rr_steamId row"]
      upsert_same_jobs [of ?w1 o' sid row now] u same_jobs.trans_R by simp
  then show ?thesis using apply_row_split [OF u, of E sn] appending.trans_R by (auto simp: row_le_def intro: same_jobs_ext)
qed

lemma apply_row_players:
  assumes "players_inv w"
  shows "players_inv (apply_row E o' sid sn now w row) \<and>
    (\<exists>p. has_player sid (rr_identityKey row) p (apply_row E o' sid sn now w row) \<and> p_online p) \<and>
    (\<forall>k q. k \<noteq> rr_identityKey row \<and> (startsWith (rr_identityKey row) ''name:'' \<or> k \<noteq> name_key (rr_name row)) \<longrightarrow>
       has_player sid k q (apply_row E o' sid sn now w row) = has_player sid k q w)"
proof -
  let ?w1 = "reconcileNameFallback sid (rr_identityKey row) (rr_name row) (rr_steamId row) w"
  obtain p w2 where u: "upsert_player o' sid row now ?w1 = (p, w2)" by fastforce
  note inv1 = reconcile_inv [OF assms, of sid "rr_identityKey row" "rr_name row" "rr_steamId row"]
  note up = upsert_inv [OF inv1 u] and sp = apply_row_split [OF u, of E sn]
  have same: "has_player sid k q (apply_row E o' sid sn now w row) = has_player sid k q w2" for k q
    using sp by (simp add: has_player_def row_le_def)
  have "players_inv (apply_row E o' sid sn now w row)"
    using up sp by (auto simp: row_le_def jobs_ext_def intro: players_inv_same)
  then show ?thesis using up same reconcile_other [OF assms] by auto
qed

section \<open>The whole roster\<close>

text \<open>The rows the agent's report is parsed to: the identity is a uuid or the name, and neither ping
  nor address is known.\<close>

definition row_ok :: "rosterRow \<Rightarrow> bool" where
  "row_ok r \<longleftrightarrow> (startsWith (rr_identityKey r) ''uuid:'' \<or> rr_identityKey r = name_key (rr_name r)) \<and>
     rr_ping r = None \<and> rr_ipAddress r = None"

lemma roster_row_ok: "roster_row v = Some r \<Longrightarrow> row_ok r"
  by (auto simp: roster_row_def row_ok_def Let_def startsWith_def split: option.splits if_splits)

lemma map_filter_all: "(\<And>x y. f x = Some y \<Longrightarrow> P y) \<Longrightarrow> list_all P (List.map_filter f xs)"
  by (induction xs) (auto simp: map_filter_simps split: option.split)

lemma list_all_take: "list_all P xs \<Longrightarrow> list_all P (take n xs)"
  by (auto simp: list_all_iff dest: in_set_takeD)

lemma parseMinecraftRoster_ok: "parseMinecraftRoster v = Some rows \<Longrightarrow> list_all row_ok rows \<and> length rows \<le> 256"
  using map_filter_all [of roster_row row_ok] roster_row_ok
  by (auto simp: parseMinecraftRoster_def intro!: list_all_take split: js.splits)

lemma row_keys_apart:
  assumes "row_ok r" "toLowerCase (rr_name r) \<noteq> toLowerCase (rr_name r')"
  shows "rr_identityKey r \<noteq> name_key (rr_name r')"
  using assms by (auto simp: row_ok_def name_key_def startsWith_iff)

lemma apply_rows_players:
  assumes "players_inv w" "list_all row_ok rows" "distinct (map (\<lambda>r. toLowerCase (rr_name r)) rows)"
  shows "players_inv (foldl (apply_row E o' sid sn now) w rows) \<and>
    (\<forall>r \<in> set rows. \<exists>p. has_player sid (rr_identityKey r) p (foldl (apply_row E o' sid sn now) w rows) \<and> p_online p)"
  using assms(2,3)
proof (induction rows rule: rev_induct)
  case (snoc r rows)
  let ?w = "foldl (apply_row E o' sid sn now) w rows"
  from snoc have IH: "players_inv ?w" "\<And>r. r \<in> set rows \<Longrightarrow> \<exists>p. has_player sid (rr_identityKey r) p ?w \<and> p_online p" by auto
  note ap = apply_row_players [OF IH(1), of E o' sid sn now r]
  have "\<exists>p. has_player sid (rr_identityKey r') p (apply_row E o' sid sn now ?w r) \<and> p_online p" if r': "r' \<in> set rows" for r'
  proof (cases "rr_identityKey r' = rr_identityKey r")
    case True
    with ap show ?thesis by simp
  next
    case False
    have "toLowerCase (rr_name r') \<in> (\<lambda>r. toLowerCase (rr_name r)) ` set rows" using r' by (rule imageI)
    then have "toLowerCase (rr_name r') \<noteq> toLowerCase (rr_name r)" using snoc.prems(2) by force
    moreover have "row_ok r'" using snoc.prems(1) r' by (simp add: list_all_iff)
    ultimately have "toLowerCase (rr_name r') \<noteq> toLowerCase (rr_name r)" "row_ok r'" by simp_all
    from row_keys_apart [OF this(2,1)] False ap IH(2) [OF r'] show ?thesis by auto
  qed
  with ap show ?case by auto
qed (use assms(1) in simp)

lemma leave_player_row: "row_le (leave_player now p w) (apply_missing E o' sid sn now w p)"
  unfolding apply_missing_def Let_def by (rule row.trans_R [OF row_le_rules(2) row_le_rules(5)])

lemma leave_player_same_jobs: "same_jobs w (leave_player now p w)"
  by (simp add: leave_player_def Let_def set_player_def same_jobs_def)

lemma leave_player_mem:
  "q \<in> set (players (leave_player now p w)) \<longleftrightarrow> (\<exists>x \<in> set (players w). q = (if p_id x = p_id p then
     x\<lparr>p_online := False, p_currentSessionStartedAt := None, p_lastLogoutAt := Some (end_time now p),
       p_lifetimeSeconds := p_lifetimeSeconds x + session_seconds (p_currentSessionStartedAt p) (end_time now p)\<rparr> else x))"
  using in_set_player [of "\<lambda>x. x\<lparr>p_online := False, p_currentSessionStartedAt := None, p_lastLogoutAt := Some (end_time now p),
       p_lifetimeSeconds := p_lifetimeSeconds x + session_seconds (p_currentSessionStartedAt p) (end_time now p)\<rparr>" q "p_id p" w]
  by (simp add: leave_player_def Let_def)

text \<open>After the missing players left, they are offline and everyone else is as before.\<close>

lemma apply_missing_one:
  "q \<in> set (players (apply_missing E o' sid sn now w m)) \<Longrightarrow>
     (q \<in> set (players w) \<and> p_id q \<noteq> p_id m) \<or> (\<not> p_online q \<and> p_id q = p_id m)"
proof -
  assume "q \<in> set (players (apply_missing E o' sid sn now w m))"
  then have "q \<in> set (players (leave_player now m w))" using leave_player_row [of now m w E o' sid sn] by (simp add: row_le_def)
  then obtain x where "x \<in> set (players w)" "q = (if p_id x = p_id m then
      x\<lparr>p_online := False, p_currentSessionStartedAt := None, p_lastLogoutAt := Some (end_time now m),
        p_lifetimeSeconds := p_lifetimeSeconds x + session_seconds (p_currentSessionStartedAt m) (end_time now m)\<rparr> else x)"
    unfolding leave_player_mem by blast
  then show ?thesis by (cases "p_id x = p_id m") simp_all
qed

lemma apply_missing_players:
  "q \<in> set (players (foldl (apply_missing E o' sid sn now) w ms)) \<Longrightarrow>
     (q \<in> set (players w) \<and> p_id q \<notin> p_id ` set ms) \<or> (\<not> p_online q \<and> p_id q \<in> p_id ` set ms)"
proof (induction ms arbitrary: w)
  case (Cons m ms)
  from Cons.IH [of "apply_missing E o' sid sn now w m"] Cons.prems apply_missing_one [of q E o' sid sn now w m]
  show ?case by auto
qed simp

lemma apply_missing_others:
  "x \<in> set (players w) \<Longrightarrow> p_id x \<notin> p_id ` set ms \<Longrightarrow> x \<in> set (players (foldl (apply_missing E o' sid sn now) w ms))"
proof (induction ms arbitrary: w)
  case (Cons m ms)
  then have "x \<in> set (players (leave_player now m w))" by (auto simp: leave_player_mem intro!: bexI [of _ x])
  then have "x \<in> set (players (apply_missing E o' sid sn now w m))"
    using leave_player_row [of now m w E o' sid sn] by (simp add: row_le_def)
  with Cons show ?case by simp
qed simp

interpretation delivery_rows: delivery row_le
proof
  show "row_le w (set_line i f w)" for w i f
    using same_jobs_ext [OF set_line_same_jobs] by (simp add: row_le_def set_line_def)
  show "row_le w (snd (createJob E o' u sid jt p now w))" for w E o' u sid jt p now
    using createJob_ext [of w E o' u sid jt p now] delivery_money.job_R [of w E o' u sid jt p now]
    by (simp add: row_le_def same_money_def)
qed

lemmas enqueuePending_row = delivery_rows.grants_R(2)

lemma applyPlayerRoster_ext: "jobs_ext w (applyPlayerRoster E o' sid rows now w)"
proof -
  have miss: "jobs_ext v (apply_missing E o' sid sn now v p)" for v sn p
    using same_jobs_ext [OF leave_player_same_jobs] leave_player_row appending.trans_R by (metis row_le_def)
  have last: "jobs_ext v (retryPendingItemGrants E o' sid now (enqueuePendingShopGrants E o' sid now v))" for v
    using row.trans_R [OF enqueuePending_row row_le_rules(3)] by (simp add: row_le_def)
  show ?thesis
    unfolding applyPlayerRoster_def Let_def
    by (intro appending.trans_R [OF _ last] appending.trans_R [OF appending.foldl_R appending.foldl_R] apply_row_ext miss)
qed

section \<open>Properties of players\<close>

definition online_keys :: "id \<Rightarrow> world \<Rightarrow> string set" where
  "online_keys sid w = p_identityKey ` {p \<in> set (players w). p_serverInstanceId p = sid \<and> p_online p}"

text \<open>C26: after a roster is applied, the players of the server that are online are exactly those of
  the roster, whoever was online before, whatever rewards, deliveries and alerts it set off, and
  also when name-only records are joined with their stable identity on the way.\<close>

theorem applyPlayerRoster_online:
  assumes "players_inv w" and "parseMinecraftRoster report = Some rows"
    and "distinct (map (\<lambda>r. toLowerCase (rr_name r)) rows)"
  shows "online_keys sid (applyPlayerRoster E orgId sid rows now w) = set (map rr_identityKey rows)"
proof -
  let ?sn = "map_option si_name (findUnique si_id sid (serverInstances w))"
  let ?seen = "map rr_identityKey rows"
  define w1 where "w1 = foldl (apply_row E orgId sid ?sn now) w rows"
  define ms where "ms = missing_players sid ?seen w1"
  define w2 where "w2 = foldl (apply_missing E orgId sid ?sn now) w1 ms"
  have last: "players (applyPlayerRoster E orgId sid rows now w) = players w2"
    using row.trans_R [OF enqueuePending_row row_le_rules(3)]
    by (simp add: applyPlayerRoster_def Let_def row_le_def w1_def w2_def ms_def)
  have ok: "list_all row_ok rows" using parseMinecraftRoster_ok [OF assms(2)] by simp
  have inv: "players_inv w1" and on: "\<And>r. r \<in> set rows \<Longrightarrow> \<exists>p. has_player sid (rr_identityKey r) p w1 \<and> p_online p"
    using apply_rows_players [OF assms(1) ok assms(3)] by (auto simp: w1_def)
  have ids: "p = q" if "p \<in> set (players w1)" "q \<in> set (players w1)" "p_id p = p_id q" for p q
    using that inv by (auto simp: players_inv_def intro: distinct_map_eq)
  have sub: "set ms \<subseteq> set (players w1)" by (auto simp: ms_def missing_players_def)
  have "p_identityKey q \<in> set ?seen" if q: "q \<in> set (players w2)" "p_serverInstanceId q = sid" "p_online q" for q
  proof -
    from apply_missing_players [OF q(1) [unfolded w2_def]] q(3)
    have "q \<in> set (players w1)" "q \<notin> set ms" by auto
    with q show ?thesis by (simp add: ms_def missing_players_def)
  qed
  moreover have "k \<in> online_keys sid w2" if k: "k \<in> set ?seen" for k
  proof -
    from k on obtain p where p: "has_player sid k p w1" "p_online p" by auto
    then have p1: "p \<in> set (players w1)" "player_key p = (sid, k)" by (auto simp: has_player_def)
    have "p_id p \<notin> p_id ` set ms"
    proof
      assume "p_id p \<in> p_id ` set ms"
      then obtain m where m: "m \<in> set ms" "p_id m = p_id p" by auto
      with sub ids [OF _ p1(1)] have "m = p" by blast
      with m(1) k p1(2) show False by (auto simp: ms_def missing_players_def player_key_def)
    qed
    from apply_missing_others [OF p1(1) this] have "p \<in> set (players w2)" by (simp add: w2_def)
    with p(2) p1(2) show ?thesis by (auto simp: online_keys_def player_key_def)
  qed
  ultimately show ?thesis unfolding online_keys_def last by auto
qed

text \<open>Joining two records. When a player known by name only turns up under a stable identity that
  has a record, the records become one: its playtime is the sum of both, its sessions are those of
  both, it was seen first and last when either was, and it is online when either is.\<close>

lemma reconcile_merges:
  assumes "players_inv w" and "\<not> startsWith K ''name:''"
    and "find_player sid (name_key nm) w = Some fb" and "find_player sid K w = Some c"
    and w'_def: "w' = reconcileNameFallback sid K nm st w"
  shows "\<exists>p. find_player sid K w' = Some p \<and> find_player sid (name_key nm) w' = None \<and>
    p_id p = p_id c \<and> p_lifetimeSeconds p = p_lifetimeSeconds c + p_lifetimeSeconds fb \<and>
    p_firstSeenAt p = min (p_firstSeenAt c) (p_firstSeenAt fb) \<and> p_lastSeenAt p = max (p_lastSeenAt c) (p_lastSeenAt fb) \<and>
    p_online p = (p_online c \<or> p_online fb) \<and>
    (\<forall>s. s \<in> set (playerSessions w') \<and> ps_playerId s = p_id p \<longleftrightarrow>
       (\<exists>s0 \<in> set (playerSessions w). ps_playerId s0 \<in> {p_id c, p_id fb} \<and> s = s0\<lparr>ps_playerId := p_id c\<rparr>))"
proof -
  let ?w1 = "w\<lparr>playerSessions := updateMany (\<lambda>s. ps_playerId s = p_id fb) (\<lambda>s. s\<lparr>ps_playerId := p_id c\<rparr>) (playerSessions w)\<rparr>"
  have w': "w' = delete_player (p_id fb) (set_player (p_id c) (merge_player st fb) ?w1)"
    using assms(2-4) by (simp add: w'_def reconcileNameFallback_def Let_def)
  have inv': "players_inv w'" unfolding w'_def by (rule reconcile_inv [OF assms(1)])
  from assms(1,3,4) have fb: "fb \<in> set (players w)" "player_key fb = (sid, name_key nm)"
    and c: "c \<in> set (players w)" "player_key c = (sid, K)" by (auto simp: find_player_iff has_player_def)
  have ne: "p_id c \<noteq> p_id fb"
  proof
    assume "p_id c = p_id fb"
    with fb c assms(1) have "c = fb" by (auto simp: players_inv_def intro: distinct_map_eq)
    with fb(2) c(2) assms(2) show False by (auto simp: name_key_def startsWith_def)
  qed
  have mem: "q \<in> set (players w') \<longleftrightarrow> p_id q \<noteq> p_id fb \<and>
      (\<exists>x \<in> set (players w). q = (if p_id x = p_id c then merge_player st fb x else x))" for q
    unfolding w' in_delete_player by (subst in_set_player) auto
  have 1: "find_player sid K w' = Some (merge_player st fb c)"
    using c ne by (auto simp: find_player_iff [OF inv'] has_player_def mem intro!: bexI [of _ c])
  have 2: "find_player sid (name_key nm) w' = None"
  proof -
    have "x = fb" if "x \<in> set (players w)" "player_key x = (sid, name_key nm)" for x
      using that fb assms(1) by (auto simp: players_inv_def intro: distinct_map_eq)
    then have "player_key q \<noteq> (sid, name_key nm)" if "q \<in> set (players w')" for q
      using that unfolding mem by (auto split: if_splits)
    then show ?thesis by (force simp: find_player_None)
  qed
  have same: "s\<lparr>ps_playerId := p_id c\<rparr> = s" if "ps_playerId s = p_id c" for s :: playerSession
    using that by (cases s) simp
  have 3: "s \<in> set (playerSessions w') \<and> ps_playerId s = p_id c \<longleftrightarrow>
       (\<exists>s0 \<in> set (playerSessions w). ps_playerId s0 \<in> {p_id c, p_id fb} \<and> s = s0\<lparr>ps_playerId := p_id c\<rparr>)" for s
  proof -
    have "s \<in> set (playerSessions w') \<and> ps_playerId s = p_id c \<longleftrightarrow>
        s \<in> set (updateMany (\<lambda>s. ps_playerId s = p_id fb) (\<lambda>s. s\<lparr>ps_playerId := p_id c\<rparr>) (playerSessions w)) \<and> ps_playerId s = p_id c"
      using ne by (auto simp: w' delete_player_def set_player_def deleteMany_def)
    also have "\<dots> \<longleftrightarrow> (\<exists>s0 \<in> set (playerSessions w). ps_playerId s0 \<in> {p_id c, p_id fb} \<and> s = s0\<lparr>ps_playerId := p_id c\<rparr>)"
      unfolding in_updateMany using ne same by auto (metis same)+
    finally show ?thesis .
  qed
  show ?thesis using 1 2 3 by (intro exI [of _ "merge_player st fb c"]) (auto simp: merge_player_def Let_def)
qed

text \<open>What joining two records loses. The name-only record is deleted and with it every donation
  it made, every line of those donations, delivered or owed, and every reward it was given; the
  donated total and the supporter badge of the surviving record do not count them.\<close>

lemma reconcile_drops_purchases:
  assumes "\<not> startsWith K ''name:''"
    and "find_player sid (name_key nm) w = Some fb" and "find_player sid K w = Some c" and "p_id c \<noteq> p_id fb"
    and w'_def: "w' = reconcileNameFallback sid K nm st w"
  shows "donations w' = filter (\<lambda>d. d_playerId d \<noteq> p_id fb) (donations w) \<and>
    donationLines w' = filter (\<lambda>l. \<not> list_ex (\<lambda>d. d_id d = l_donationId l \<and> d_playerId d = p_id fb) (donations w)) (donationLines w) \<and>
    triggerFires w' = filter (\<lambda>f. tf_playerId f \<noteq> p_id fb) (triggerFires w) \<and>
    list_all (\<lambda>p. p_id p = p_id c \<longrightarrow> (\<exists>q \<in> set (players w). p_id q = p_id c \<and>
      p_totalDonatedCents p = p_totalDonatedCents q \<and> p_supporter p = p_supporter q)) (players w')"
proof -
  have w': "w' = delete_player (p_id fb) (set_player (p_id c) (merge_player st fb)
      (w\<lparr>playerSessions := updateMany (\<lambda>s. ps_playerId s = p_id fb) (\<lambda>s. s\<lparr>ps_playerId := p_id c\<rparr>) (playerSessions w)\<rparr>))"
    using assms(1-3) by (simp add: w'_def reconcileNameFallback_def Let_def)
  have "\<exists>q \<in> set (players w). p_id q = p_id c \<and> p_totalDonatedCents p = p_totalDonatedCents q \<and> p_supporter p = p_supporter q"
    if "p \<in> set (players w')" "p_id p = p_id c" for p
  proof -
    from that(1) obtain x where x: "x \<in> set (players w)" "p = (if p_id x = p_id c then merge_player st fb x else x)"
      unfolding w' in_delete_player by (subst (asm) in_set_player) auto
    with that(2) show ?thesis by (intro bexI [of _ x]) (auto simp: merge_player_def Let_def split: if_splits)
  qed
  then show ?thesis
    unfolding list_all_iff by (intro conjI ballI impI) (simp_all add: w' delete_player_def set_player_def deleteMany_def)
qed

lemma enforce_rows_inert:
  "list_all row_ok rows \<Longrightarrow> enforce_rows E o' u sid settings now rows w = (Inr (), w)"
  by (induction rows arbitrary: w) (simp_all add: row_ok_def ping_limit_def country_limit_def)

lemma enforce_inert:
  "list_all row_ok rows \<Longrightarrow> enforceConnectionTools E o' sid rows now w = (Inr (), w)"
  by (simp add: enforceConnectionTools_def enforce_rows_inert split: option.split)

text \<open>The connection limits are never enforced. The parsed roster carries neither a ping nor an
  address, so whatever limits a server has configured, applying them to a report of the agent
  creates no kick or ban and changes nothing.\<close>

lemma connection_tools_inert:
  assumes "parseMinecraftRoster report = Some rows"
  shows "enforceConnectionTools E orgId sid rows now w = (Inr (), w)"
  using parseMinecraftRoster_ok [OF assms] enforce_inert by blast

text \<open>A player known by name, with a purchase, and the same player's record under its uuid, for the
  witnesses.\<close>

definition sample_uuid :: string where
  "sample_uuid = replicate 32 (CHR ''a'')"

definition sample_known :: player where
  "sample_known = sample_person\<lparr>p_id := ''1'', p_identityKey := ''uuid:'' @ sample_uuid, p_online := False, p_lifetimeSeconds := 60\<rparr>"

definition sample_players :: world where
  "sample_players = (sample_purchase 0)\<lparr>idctr := 2, players := [sample_person\<lparr>p_id := ''0'', p_lifetimeSeconds := 40\<rparr>, sample_known],
     donations := map (\<lambda>d. d\<lparr>d_playerId := ''0''\<rparr>) (donations (sample_purchase 0))\<rparr>"

definition sample_report :: js where
  "sample_report = Obj [(''players'', Arr [Obj [(''name'', Str ''Steve''), (''uuid'', Str sample_uuid)]])]"

definition sample_row :: rosterRow where
  "sample_row = \<lparr>rr_name = ''Steve'', rr_identityKey = ''uuid:'' @ sample_uuid, rr_steamId = None, rr_ipAddress = None,
     rr_ping = None, rr_position = None\<rparr>"

lemma sample_parse: "parseMinecraftRoster sample_report = Some [sample_row]"
  by code_simp

lemma sample_drawn: "drawn sample_players ''0''" "drawn sample_players ''1''"
proof -
  have n: "nat_str 0 = ''0''" "nat_str 1 = ''1''" by code_simp+
  have g: "idgen sample_players = nat_str" "idctr sample_players = 2"
    by (simp_all add: sample_players_def sample_purchase_def sample_world_def empty_world_def)
  show "drawn sample_players ''0''" "drawn sample_players ''1''"
    unfolding drawn_def g using n by (metis zero_less_numeral, metis one_less_numeral_iff semiring_norm(76))
qed

lemma sample_players_inv: "players_inv sample_players"
proof -
  have "map p_id (players sample_players) = [''0'', ''1'']"
    by (simp add: sample_players_def sample_known_def)
  moreover have "map player_key (players sample_players) = [(''s1'', ''name:steve''), (''s1'', ''uuid:'' @ sample_uuid)]"
    by (simp add: sample_players_def sample_known_def player_key_def sample_person_def)
  moreover have "inj (idgen sample_players)"
    by (simp add: sample_players_def sample_purchase_def sample_world_def empty_world_def inj_nat_str)
  ultimately show ?thesis using sample_drawn by (simp add: players_inv_def)
qed

lemma sample_find:
  "find_player ''s1'' (name_key ''Steve'') sample_players = Some (sample_person\<lparr>p_id := ''0'', p_lifetimeSeconds := 40\<rparr>)"
  "find_player ''s1'' (''uuid:'' @ sample_uuid) sample_players = Some sample_known"
proof -
  have "name_key ''Steve'' = ''name:steve''" by code_simp
  then show "find_player ''s1'' (name_key ''Steve'') sample_players = Some (sample_person\<lparr>p_id := ''0'', p_lifetimeSeconds := 40\<rparr>)"
    "find_player ''s1'' (''uuid:'' @ sample_uuid) sample_players = Some sample_known"
    by (simp_all add: find_player_def sample_players_def sample_known_def sample_person_def)
qed

lemma sample_not_name: "\<not> startsWith (''uuid:'' @ sample_uuid) ''name:''"
  by (simp add: startsWith_def)

theorem applyPlayerRoster_online_witness:
  "online_keys ''s1'' (applyPlayerRoster sample_env ''o'' ''s1'' [sample_row] 9 sample_players) = {''uuid:'' @ sample_uuid}"
  using applyPlayerRoster_online [OF sample_players_inv sample_parse, of "''s1''" sample_env "''o''" 9]
  by (simp add: sample_row_def)

end
