(* ===== verification/Logs.thy ===== *)
theory Logs
  imports Relay Players
begin

text \<open>
  Logs: control-plane/src/logs/logs.service.ts. An agent appends chunks of a server's log; each is stored and then
  read for keywords, chat lines and players that come and go. Chat is recorded, moderated and relayed.
  A chunk is handled at one instant. Unfinished lines and the tail that keywords are looked up in are kept per server between chunks.

  Log_Facts.thy has what is shown of them.
\<close>

section \<open>Lines and patterns\<close>

definition chomp :: "string \<Rightarrow> string" where
  "chomp s = (if s \<noteq> [] \<and> last s = CHR 0x0D then butlast s else s)"

definition log_lines :: "string \<Rightarrow> string list \<times> string" where
  \<comment> \<open>\<open>split(/\r?\n/)\<close>: the finished lines and the rest\<close>
  "log_lines s = (let ps = split CHR 0x0A s in (map chomp (butlast ps), last ps))"

definition keep_rest :: "string \<Rightarrow> string" where
  "keep_rest s = last_n 4096 s"

fun first_match :: "(string \<Rightarrow> 'a option) \<Rightarrow> string \<Rightarrow> 'a option" where
  \<comment> \<open>a pattern is tried at each place, from the left\<close>
  "first_match f [] = f []"
| "first_match f (c # s) = (case f (c # s) of Some x \<Rightarrow> Some x | None \<Rightarrow> first_match f s)"

definition chat_at :: "string \<Rightarrow> (string \<times> string) option" where
  \<comment> \<open>\<open>/\]:\s*(?:\[Not Secure\]\s*)?<([^>\n]{1,32})>\s+(.+)$/\<close>\<close>
  "chat_at s =
     (if \<not> startsWith s '']:'' then None
      else
        let r = dropWhile is_ws (drop 2 s);
            r = (if startsWith r ''[Not Secure]'' then dropWhile is_ws (drop 12 r) else r)
        in (case r of
              [] \<Rightarrow> None
            | c # t \<Rightarrow>
                let name = takeWhile (\<lambda>c. c \<noteq> CHR ''>'') t; rest = drop (Suc (length name)) t; message = dropWhile is_ws rest
                in if c \<noteq> CHR ''<'' \<or> name = [] \<or> 32 < length name \<or> CHR 0x0A \<in> set name \<or> rest = [] \<or> \<not> is_ws (hd rest) \<or>
                      message = [] \<or> CHR 0x0A \<in> set message \<or> CHR 0x0D \<in> set message
                   then None else Some (name, message)))"

definition control_char :: "char \<Rightarrow> bool" where
  "control_char c \<longleftrightarrow> code c \<le> 8 \<or> code c = 11 \<or> code c = 12 \<or> (14 \<le> code c \<and> code c \<le> 31) \<or> code c = 127"

definition chat_line :: "string \<Rightarrow> (string \<times> string \<times> string) option" where
  \<comment> \<open>player id, player name and message of a chat line\<close>
  "chat_line line =
     (case first_match chat_at line of
        None \<Rightarrow> None
      | Some (i, m) \<Rightarrow>
          let name = take 128 (trim i); message = take 2000 (trim (filter (\<lambda>c. \<not> control_char c) m))
          in if name = [] \<or> message = [] then None else Some (i, name, message))"

definition log_stamp :: "string \<Rightarrow> string" where
  \<comment> \<open>\<open>line.match(/^(\S+)/)?.[1] ?? ''\<close>\<close>
  "log_stamp line = takeWhile (\<lambda>c. \<not> is_ws c) line"

section \<open>Events\<close>

definition add_event :: "id \<Rightarrow> id \<Rightarrow> string \<Rightarrow> obj \<Rightarrow> ms \<Rightarrow> world \<Rightarrow> id \<times> world" where
  "add_event orgId serverInstanceId type payload now w =
     (next_id w, (draw w)\<lparr>events := events w @ [\<lparr>ev_id = next_id w, ev_orgId = orgId, ev_sourceType = ''server_instance'',
        ev_sourceId = serverInstanceId, ev_eventType = type, ev_payload = payload, ev_createdAt = now\<rparr>]\<rparr>)"

section \<open>Moderation settings\<close>

definition moderationAction :: "js \<Rightarrow> js \<Rightarrow> js" where
  "moderationAction value fallback = (if js_string value \<in> {''log'', ''warn'', ''kick''} then value else fallback)"

definition bad_word :: "js \<Rightarrow> string" where
  "bad_word item = (let word = (if is_object item then field item ''word'' else item) in toLowerCase (trim (js_string (coalesce word (Str [])))))"

definition bad_action :: "js \<Rightarrow> js" where
  "bad_action item = (if is_object item then field item ''action'' else Undefined)"

fun clean_rules :: "js \<Rightarrow> js list \<Rightarrow> (string \<times> js) list \<Rightarrow> (string \<times> js) list" where
  "clean_rules fallback [] acc = acc"
| "clean_rules fallback (item # items) acc =
     (let word = bad_word item in
      if word = [] \<or> 80 < length word \<or> word \<in> fst ` set acc then clean_rules fallback items acc
      else let acc' = acc @ [(word, moderationAction (bad_action item) fallback)]
           in if length acc' = 200 then acc' else clean_rules fallback items acc')"

definition cleanBadWordRules :: "js \<Rightarrow> js \<Rightarrow> (string \<times> js) list" where
  "cleanBadWordRules value fallbackAction = (case value of Arr items \<Rightarrow> clean_rules fallbackAction items [] | _ \<Rightarrow> [])"

text \<open>The settings: the fields the code reads as they are, and the ones it computes.\<close>

record chatModeration =
  cm_rest :: obj
  cm_enabled :: js
  cm_badWordRules :: "(string \<times> js) list"
  cm_badWordAction :: js
  cm_mutedPlayers :: "js list"

definition moderationDefaults :: obj where
  "moderationDefaults = [(''enabled'', Bool False), (''badWordRules'', Arr []), (''badWords'', Arr []), (''badWordAction'', Str ''warn''),
     (''floodEnabled'', Bool True), (''floodMessages'', JInt 5), (''floodWindowSeconds'', JInt 10), (''floodAction'', Str ''kick''), (''mutedPlayers'', Arr [])]"

definition word_objs :: "(string \<times> js) list \<Rightarrow> js" where
  "word_objs rules = Arr (map (\<lambda>(word, action). Obj [(''word'', Str word), (''action'', action)]) rules)"

definition moderation_obj :: "chatModeration \<Rightarrow> obj" where
  "moderation_obj m = spread (cm_rest m) [(''enabled'', cm_enabled m), (''badWordRules'', word_objs (cm_badWordRules m)),
     (''badWords'', Arr (map (\<lambda>(word, _). Str word) (cm_badWordRules m))), (''badWordAction'', cm_badWordAction m), (''mutedPlayers'', Arr (cm_mutedPlayers m))]"

definition moderation_rule :: "id \<Rightarrow> id \<Rightarrow> world \<Rightarrow> alertRule option" where
  "moderation_rule orgId serverInstanceId w =
     List.find (\<lambda>r. ar_orgId r = orgId \<and> field (ar_condition r) ''type'' = Str ''chat_moderation'' \<and>
       field (ar_condition r) ''serverInstanceId'' = Str serverInstanceId) (alertRules w)"

definition arr_of :: "js \<Rightarrow> js list" where
  "arr_of v = (case v of Arr xs \<Rightarrow> xs | _ \<Rightarrow> [])"

definition getChatModeration :: "id \<Rightarrow> id \<Rightarrow> world \<Rightarrow> chatModeration" where
  "getChatModeration orgId serverInstanceId w =
     (case moderation_rule orgId serverInstanceId w of
        None \<Rightarrow> \<lparr>cm_rest = moderationDefaults, cm_enabled = Bool False, cm_badWordRules = [], cm_badWordAction = Str ''warn'', cm_mutedPlayers = []\<rparr>
      | Some rule \<Rightarrow>
          let condition = (case ar_condition rule of Obj c \<Rightarrow> c | _ \<Rightarrow> []);
              legacyAction = moderationAction (get condition ''badWordAction'') (Str ''warn'');
              is_arr = (\<lambda>v. case v of Arr _ \<Rightarrow> True | _ \<Rightarrow> False);
              sourceRules = (if is_arr (get condition ''badWordRules'') then get condition ''badWordRules'' else get condition ''badWords'')
          in \<lparr>cm_rest = spread moderationDefaults condition, cm_enabled = Bool (ar_enabled rule),
              cm_badWordRules = cleanBadWordRules sourceRules legacyAction, cm_badWordAction = legacyAction,
              cm_mutedPlayers = arr_of (get condition ''mutedPlayers'')\<rparr>)"

definition clamp :: "rat \<Rightarrow> rat \<Rightarrow> jsnum \<Rightarrow> jsnum" where
  \<comment> \<open>\<open>Math.min(hi, Math.max(lo, n))\<close>\<close>
  "clamp lo hi n = (case n of NaN \<Rightarrow> NaN | Infinite b \<Rightarrow> Fin (if b then hi else lo) | Fin q \<Rightarrow> Fin (min hi (max lo q)))"

definition input_or :: "obj \<Rightarrow> obj \<Rightarrow> string \<Rightarrow> js" where
  \<comment> \<open>\<open>input.key ?? current.key\<close>\<close>
  "input_or input current key = coalesce (get input key) (get current key)"

definition updated_moderation :: "obj \<Rightarrow> chatModeration \<Rightarrow> obj" where
  "updated_moderation input m =
     (let current = moderation_obj m;
          legacyAction = moderationAction (input_or input current ''badWordAction'') (Str ''warn'');
          requested = (if get input ''badWordRules'' \<noteq> Undefined then get input ''badWordRules''
                       else if get input ''badWords'' \<noteq> Undefined then get input ''badWords'' else get current ''badWordRules'');
          rules = cleanBadWordRules requested legacyAction
      in spread (spread current input)
           [(''badWordRules'', word_objs rules), (''badWords'', Arr (map (\<lambda>(word, _). Str word) rules)), (''badWordAction'', legacyAction),
            (''floodAction'', moderationAction (input_or input current ''floodAction'') (get current ''floodAction'')),
            (''floodMessages'', Num (clamp 2 30 (to_num (input_or input current ''floodMessages'')))),
            (''floodWindowSeconds'', Num (clamp 2 300 (to_num (input_or input current ''floodWindowSeconds''))))])"

definition put_rule :: "id \<Rightarrow> alertRule option \<Rightarrow> string \<Rightarrow> bool \<Rightarrow> js \<Rightarrow> js \<Rightarrow> ms \<Rightarrow> world \<Rightarrow> world" where
  \<comment> \<open>update the rule that exists, else create one\<close>
  "put_rule orgId existing name enabled condition channel now w =
     (case existing of
        Some r \<Rightarrow> w\<lparr>alertRules := updateRow ar_id (ar_id r) (\<lambda>r. r\<lparr>ar_name := name, ar_enabled := enabled, ar_condition := condition, ar_channel := channel\<rparr>) (alertRules w)\<rparr>
      | None \<Rightarrow> (draw w)\<lparr>alertRules := alertRules w @ [\<lparr>ar_id = next_id w, ar_orgId = orgId, ar_name = name, ar_condition = condition,
          ar_channel = channel, ar_enabled = enabled, ar_createdAt = now\<rparr>]\<rparr>)"

definition updateChatModeration :: "id \<Rightarrow> id \<Rightarrow> obj \<Rightarrow> ms \<Rightarrow> world \<Rightarrow> obj res \<times> world" where
  \<comment> \<open>the column \<open>enabled\<close> takes only a boolean\<close>
  "updateChatModeration orgId serverInstanceId input now w =
     (case find_server serverInstanceId orgId w of
        None \<Rightarrow> (Inl (NotFoundException ''Server instance not found''), w)
      | Some server \<Rightarrow>
          let settings = updated_moderation input (getChatModeration orgId serverInstanceId w)
          in (case get settings ''enabled'' of
                Bool enabled \<Rightarrow>
                  (Inr settings, put_rule orgId (moderation_rule orgId serverInstanceId w) (''Chat moderation: '' @ si_name server) enabled
                     (Obj (spread [(''type'', Str ''chat_moderation''), (''serverInstanceId'', Str serverInstanceId)] settings))
                     (Obj [(''type'', Str ''dashboard'')]) now w)
              | _ \<Rightarrow> (Inl (Error ''Argument `enabled`: Invalid value provided.''), w)))"

definition setPlayerMuted :: "id \<Rightarrow> id \<Rightarrow> string \<Rightarrow> string \<Rightarrow> bool \<Rightarrow> ms \<Rightarrow> world \<Rightarrow> obj res \<times> world" where
  "setPlayerMuted orgId serverInstanceId playerId playerName muted now w =
     (let current = getChatModeration orgId serverInstanceId w; cleanId = take 128 (trim playerId) in
      if cleanId = [] then (Inl (BadRequestException ''Player ID required''), w)
      else if list_ex nullish (cm_mutedPlayers current) then (Inl (Error ''Cannot read properties of null''), w)
      else
        let others = filter (\<lambda>p. field p ''playerId'' \<noteq> Str cleanId) (cm_mutedPlayers current);
            row = Obj [(''playerId'', Str cleanId), (''playerName'', Str (or_str (take 128 (trim playerName)) cleanId)), (''createdAt'', JInt now)]
        in updateChatModeration orgId serverInstanceId
             (moderation_obj (current\<lparr>cm_mutedPlayers := others @ (if muted then [row] else [])\<rparr>)) now w)"

section \<open>Moderation\<close>

definition in_window :: "ms \<Rightarrow> js \<Rightarrow> ms \<Rightarrow> bool" where
  \<comment> \<open>\<open>t >= now - seconds * 1000\<close>\<close>
  "in_window now seconds t =
     (case to_num seconds of NaN \<Rightarrow> False | Infinite b \<Rightarrow> b | Fin q \<Rightarrow> of_int now - q * 1000 \<le> of_int t)"

definition longer_than :: "nat \<Rightarrow> js \<Rightarrow> bool" where
  "longer_than n v = (case to_num v of NaN \<Rightarrow> False | Infinite b \<Rightarrow> \<not> b | Fin q \<Rightarrow> q < of_nat n)"

definition pruneModerationState :: "ms \<Rightarrow> world \<Rightarrow> world" where
  "pruneModerationState now w =
     (if now - lastMapPrune w < 60000 then w
      else w\<lparr>lastMapPrune := now,
             chatSamples := fst (pruneMap (\<lambda>samples _. list_ex (\<lambda>t. now - 10 * 60000 \<le> t) samples) (chatSamples w)),
             moderationCooldown := fst (pruneMap (\<lambda>until _. now \<le> until) (moderationCooldown w))\<rparr>)"

definition unquoted :: "string \<Rightarrow> string" where
  "unquoted s = filter (\<lambda>c. c \<noteq> CHR 0x22 \<and> c \<noteq> CHR 0x5C) s"

definition id_chars :: "string \<Rightarrow> string" where
  "id_chars s = filter (\<lambda>c. is_alnum c \<or> c \<in> set ''_:-'') s"

definition moderation_command :: "js \<Rightarrow> string \<Rightarrow> string \<Rightarrow> string \<Rightarrow> string" where
  "moderation_command action playerId playerName reason =
     (if action = Str ''warn'' then ''say '' @ [CHR 0x22] @ unquoted playerName @ '' warning: '' @ reason @ [CHR 0x22]
      else ''kick '' @ id_chars playerId @ '' '' @ [CHR 0x22] @ ''Chat moderation: '' @ unquoted reason @ [CHR 0x22])"

definition enqueueModerationCommand :: "id \<Rightarrow> id \<Rightarrow> string \<Rightarrow> ms \<Rightarrow> world \<Rightarrow> world" where
  "enqueueModerationCommand orgId serverInstanceId command now w =
     (case find_server serverInstanceId orgId w of
        None \<Rightarrow> w
      | Some server \<Rightarrow> snd (dispatch orgId None server ''RCON'' (server_payload server @ [(''command'', Str command)]) now w))"

fun is_muted :: "js list \<Rightarrow> string \<Rightarrow> bool option" where
  \<comment> \<open>\<open>some(p => p.playerId === playerId)\<close>; None when it reads a property of null\<close>
  "is_muted [] playerId = Some False"
| "is_muted (p # ps) playerId =
     (if nullish p then None else if field p ''playerId'' = Str playerId then Some True else is_muted ps playerId)"

text \<open>The offence of a message: the reason and the action, None when there is none.\<close>

definition offence :: "chatModeration \<Rightarrow> bool \<Rightarrow> nat \<Rightarrow> string \<Rightarrow> (string \<times> js) option" where
  "offence cfg muted samples message =
     (if muted then Some (''Player is muted'', Str ''kick'')
      else (case List.find (\<lambda>(word, _). contains (toLowerCase message) word) (cm_badWordRules cfg) of
              Some (word, action) \<Rightarrow> Some (''Blocked word: '' @ word, action)
            | None \<Rightarrow>
                if truthy (get (cm_rest cfg) ''floodEnabled'') \<and> longer_than samples (get (cm_rest cfg) ''floodMessages'')
                then Some (''Chat flooding'', get (cm_rest cfg) ''floodAction'') else None))"

definition chat_key :: "id \<Rightarrow> string \<Rightarrow> string" where
  "chat_key serverInstanceId playerId = serverInstanceId @ '':'' @ playerId"

definition sample_chat :: "chatModeration \<Rightarrow> string \<Rightarrow> ms \<Rightarrow> world \<Rightarrow> ms list \<times> world" where
  "sample_chat cfg key now w =
     (let w1 = pruneModerationState now w;
          samples = filter (in_window now (get (cm_rest cfg) ''floodWindowSeconds'')) (opt_or (map_of (chatSamples w1) key) []) @ [now]
      in (samples, w1\<lparr>chatSamples := map_put key samples (chatSamples w1)\<rparr>))"

definition punish :: "id \<Rightarrow> id \<Rightarrow> string \<Rightarrow> string \<Rightarrow> string \<Rightarrow> js \<Rightarrow> ms \<Rightarrow> world \<Rightarrow> world" where
  "punish orgId serverInstanceId playerId playerName reason action now w =
     (let key = chat_key serverInstanceId playerId in
      if action \<noteq> Str ''log'' \<and> opt_or (map_of (moderationCooldown w) key) 0 < now
      then enqueueModerationCommand orgId serverInstanceId (moderation_command action playerId playerName reason) now
             (w\<lparr>moderationCooldown := map_put key (now + 5000) (moderationCooldown w)\<rparr>)
      else w)"

definition moderateChat :: "id \<Rightarrow> id \<Rightarrow> string \<Rightarrow> string \<Rightarrow> string \<Rightarrow> ms \<Rightarrow> world \<Rightarrow> bool \<times> world" where
  \<comment> \<open>an exception counts as not moderated (\<open>.catch(() => false)\<close>)\<close>
  "moderateChat orgId serverInstanceId playerId playerName message now w =
     (let cfg = getChatModeration orgId serverInstanceId w in
      if \<not> truthy (cm_enabled cfg) then (False, w)
      else
        (case sample_chat cfg (chat_key serverInstanceId playerId) now w of
           (samples, w1) \<Rightarrow>
             (case is_muted (cm_mutedPlayers cfg) playerId of
                None \<Rightarrow> (False, w1)
              | Some muted \<Rightarrow>
                  (case offence cfg muted (length samples) message of
                     None \<Rightarrow> (False, w1)
                   | Some (reason, action) \<Rightarrow>
                       (True, punish orgId serverInstanceId playerId playerName reason action now
                          (snd (add_event orgId serverInstanceId ''chat_moderation_action''
                             [(''playerId'', Str playerId), (''playerName'', Str playerName), (''message'', Str message), (''reason'', Str reason), (''action'', action)]
                             now w1)))))))"

section \<open>Chat\<close>

definition chat_repeated :: "id \<Rightarrow> id \<Rightarrow> string \<Rightarrow> world \<Rightarrow> bool" where
  "chat_repeated orgId serverInstanceId stamp w =
     list_ex (\<lambda>e. ev_orgId e = orgId \<and> ev_sourceId e = serverInstanceId \<and> ev_eventType e = ''player_chat'' \<and>
       get (ev_payload e) ''logTimestamp'' = Str stamp) (events w)"

definition chat_channel :: string where
  "chat_channel = ''Global''"

definition relay_chat :: "env \<Rightarrow> chatContext \<Rightarrow> ms \<Rightarrow> world \<Rightarrow> world" where
  "relay_chat E ctx now w =
     (case relayPlayerChat E ctx now w of
        ((configured, err), w1) \<Rightarrow>
          if configured \<and> \<not> relay_sent err
          then snd (add_event (cc_orgId ctx) (cc_serverInstanceId ctx) ''player_chat_relay_pending''
                 [(''eventId'', Str (cc_eventId ctx)), (''orgId'', Str (cc_orgId ctx)), (''serverInstanceId'', Str (cc_serverInstanceId ctx)),
                  (''serverInstanceName'', Str (cc_serverInstanceName ctx)), (''playerName'', Str (cc_playerName ctx)), (''playerId'', Str (cc_playerId ctx)),
                  (''channel'', Str (cc_channel ctx)), (''message'', Str (cc_message ctx)), (''lastError'', js_opt err)] now w1)
          else w1)"

definition parse_chat_line :: "env \<Rightarrow> id \<Rightarrow> id \<Rightarrow> string \<Rightarrow> ms \<Rightarrow> world \<Rightarrow> string \<Rightarrow> world" where
  "parse_chat_line E orgId serverInstanceId serverInstanceName now w line =
     (case chat_line line of
        None \<Rightarrow> w
      | Some (playerId, playerName, message) \<Rightarrow>
          let stamp = log_stamp line in
          if stamp \<noteq> [] \<and> chat_repeated orgId serverInstanceId stamp w then w
          else
            (case add_event orgId serverInstanceId ''player_chat''
                    [(''playerId'', Str playerId), (''playerName'', Str playerName), (''channel'', Str chat_channel), (''message'', Str message),
                     (''serverInstanceName'', Str serverInstanceName), (''logTimestamp'', Str stamp)] now w of
               (eventId, w1) \<Rightarrow>
                 (case moderateChat orgId serverInstanceId playerId playerName message now w1 of
                    (True, w2) \<Rightarrow> w2
                  | (False, w2) \<Rightarrow>
                      relay_chat E \<lparr>cc_eventId = eventId, cc_orgId = orgId, cc_serverInstanceId = serverInstanceId,
                        cc_serverInstanceName = serverInstanceName, cc_playerName = playerName, cc_playerId = playerId,
                        cc_channel = chat_channel, cc_message = message\<rparr> now w2)))"

definition parseChat :: "env \<Rightarrow> id \<Rightarrow> id \<Rightarrow> string \<Rightarrow> string \<Rightarrow> ms \<Rightarrow> world \<Rightarrow> world" where
  "parseChat E orgId serverInstanceId serverInstanceName content now w =
     (case log_lines (opt_or (map_of (chatLineBuffers w) serverInstanceId) [] @ content) of
        (ls, rest) \<Rightarrow>
          foldl (parse_chat_line E orgId serverInstanceId serverInstanceName now)
            (w\<lparr>chatLineBuffers := map_put serverInstanceId (keep_rest rest) (chatLineBuffers w)\<rparr>) ls)"

definition str_or :: "js \<Rightarrow> string \<Rightarrow> string" where
  "str_or v d = js_string (coalesce v (Str d))"

definition retry_relay :: "env \<Rightarrow> id \<Rightarrow> id \<Rightarrow> ms \<Rightarrow> world \<Rightarrow> event \<Rightarrow> world" where
  "retry_relay E orgId serverInstanceId now w row =
     (let p = ev_payload row;
          ctx = \<lparr>cc_eventId = str_or (get p ''eventId'') (ev_id row), cc_orgId = orgId, cc_serverInstanceId = serverInstanceId,
                 cc_serverInstanceName = str_or (get p ''serverInstanceName'') ''Minecraft Server'', cc_playerName = str_or (get p ''playerName'') ''Unknown'',
                 cc_playerId = str_or (get p ''playerId'') ''unknown'', cc_channel = str_or (get p ''channel'') ''Global'', cc_message = str_or (get p ''message'') []\<rparr>
      in case relayPlayerChat E ctx now w of
           ((configured, err), w1) \<Rightarrow>
             if relay_sent err \<or> \<not> configured then w1\<lparr>events := deleteMany (\<lambda>e. ev_id e = ev_id row) (events w1)\<rparr> else w1)"

definition pending_relays :: "id \<Rightarrow> id \<Rightarrow> world \<Rightarrow> event list" where
  "pending_relays orgId serverInstanceId w =
     take 10 (orderAsc ev_createdAt (filter (\<lambda>e. ev_orgId e = orgId \<and> ev_sourceId e = serverInstanceId \<and> ev_eventType e = ''player_chat_relay_pending'') (events w)))"

definition retryChatRelays :: "env \<Rightarrow> id \<Rightarrow> id \<Rightarrow> ms \<Rightarrow> world \<Rightarrow> world" where
  "retryChatRelays E orgId serverInstanceId now w =
     foldl (retry_relay E orgId serverInstanceId now) w (pending_relays orgId serverInstanceId w)"

definition bounded_take :: "int \<Rightarrow> int \<Rightarrow> int \<Rightarrow> nat" where
  \<comment> \<open>\<open>Math.min(Math.max(n, lo), hi)\<close>\<close>
  "bounded_take lo hi n = nat (min hi (max n lo))"

definition limit_or :: "int option \<Rightarrow> int \<Rightarrow> int" where
  \<comment> \<open>\<open>limit || d\<close>\<close>
  "limit_or limit d = (case limit of None \<Rightarrow> d | Some n \<Rightarrow> if n = 0 then d else n)"

definition of_server :: "id option \<Rightarrow> id \<Rightarrow> bool" where
  "of_server serverInstanceId i \<longleftrightarrow> opt_or serverInstanceId [] = [] \<or> serverInstanceId = Some i"

definition listChat :: "id \<Rightarrow> id option \<Rightarrow> int option \<Rightarrow> world \<Rightarrow> event list" where
  "listChat orgId serverInstanceId limit w =
     rev (take (bounded_take 1 500 (limit_or limit 200)) (orderDesc ev_createdAt
       (filter (\<lambda>e. ev_orgId e = orgId \<and> ev_eventType e = ''player_chat'' \<and> of_server serverInstanceId (ev_sourceId e)) (events w))))"

definition chat_relay_of :: "id \<Rightarrow> alertRule \<Rightarrow> bool" where
  "chat_relay_of serverInstanceId r \<longleftrightarrow> field (ar_condition r) ''type'' = Str ''chat_relay'' \<and> field (ar_condition r) ''serverInstanceId'' = Str serverInstanceId"

definition getChatSettings :: "id \<Rightarrow> id \<Rightarrow> world \<Rightarrow> bool \<times> string" where
  "getChatSettings orgId serverInstanceId w =
     (case List.find (chat_relay_of serverInstanceId) (orderAsc ar_createdAt (filter (\<lambda>r. ar_orgId r = orgId) (alertRules w))) of
        None \<Rightarrow> (False, [])
      | Some r \<Rightarrow> (ar_enabled r, str_or (field (ar_channel r) ''webhookUrl'') []))"

definition updateChatSettings :: "url_class \<Rightarrow> id \<Rightarrow> id \<Rightarrow> bool \<Rightarrow> string \<Rightarrow> ms \<Rightarrow> world \<Rightarrow> (bool \<times> string) res \<times> world" where
  "updateChatSettings U orgId serverInstanceId enabled webhookUrl now w =
     (case find_server serverInstanceId orgId w of
        None \<Rightarrow> (Inl (NotFoundException ''Server instance not found''), w)
      | Some server \<Rightarrow>
          let clean = trim webhookUrl in
          if enabled \<and> \<not> discord_webhook U clean then (Inl (BadRequestException ''Valid Discord webhook URL required''), w)
          else (Inr (enabled, clean),
                put_rule orgId (List.find (chat_relay_of serverInstanceId) (filter (\<lambda>r. ar_orgId r = orgId) (alertRules w)))
                  (''Chat relay: '' @ si_name server) enabled
                  (Obj [(''type'', Str ''chat_relay''), (''serverInstanceId'', Str serverInstanceId)])
                  (Obj [(''type'', Str ''discord''), (''webhookUrl'', Str clean)]) now w))"

section \<open>Keywords\<close>

definition lastIndexOf :: "string \<Rightarrow> string \<Rightarrow> nat option" where
  "lastIndexOf s p = List.find (\<lambda>i. startsWith (drop i s) p) (rev [0..<Suc (length s)])"

definition keyword_rule :: "id \<Rightarrow> id \<Rightarrow> alertRule \<Rightarrow> bool" where
  "keyword_rule orgId serverInstanceId r \<longleftrightarrow> ar_orgId r = orgId \<and> ar_enabled r \<and> field (ar_condition r) ''type'' = Str ''log_keyword'' \<and>
     field (ar_condition r) ''serverInstanceId'' = Str serverInstanceId"

definition rule_keyword :: "alertRule \<Rightarrow> string" where
  "rule_keyword r = str_or (field (ar_condition r) ''keyword'') []"

definition rule_text :: "alertRule \<Rightarrow> string \<Rightarrow> string" where
  \<comment> \<open>the text as the rule compares it\<close>
  "rule_text r s = (if truthy (field (ar_condition r) ''caseSensitive'') then s else toLowerCase s)"

definition keyword_hit :: "string \<Rightarrow> string \<Rightarrow> alertRule \<Rightarrow> nat option" where
  \<comment> \<open>where the last occurrence is, when it ends in the new content\<close>
  "keyword_hit prior content r =
     (let needle = rule_text r (rule_keyword r) in
      if rule_keyword r = [] then None
      else (case lastIndexOf (rule_text r (prior @ content)) needle of
              None \<Rightarrow> None
            | Some i \<Rightarrow> if i + length needle \<le> length prior then None else Some i))"

definition excerpt :: "string \<Rightarrow> nat \<Rightarrow> nat \<Rightarrow> string" where
  "excerpt s i n = (let start = i - 180; stop = min (length s) (i + n + 180) in take (stop - start) (drop start s))"

definition keyword_alert :: "env \<Rightarrow> id \<Rightarrow> id \<Rightarrow> string option \<Rightarrow> string \<Rightarrow> string \<Rightarrow> ms \<Rightarrow> world \<Rightarrow> alertRule \<Rightarrow> world" where
  "keyword_alert E orgId serverInstanceId serverName prior content now w r =
     (case keyword_hit prior content r of
        None \<Rightarrow> w
      | Some i \<Rightarrow>
          let ex = excerpt (prior @ content) i (length (rule_text r (rule_keyword r)));
              w1 = snd (add_event orgId serverInstanceId ''log_keyword_match''
                     [(''ruleId'', Str (ar_id r)), (''ruleName'', Str (ar_name r)), (''keyword'', Str (rule_keyword r)), (''excerpt'', Str ex)] now w)
          in sendMatchingRules E ''LOG_KEYWORD''
               ((org_context orgId)\<lparr>x_serverInstanceId := Some serverInstanceId, x_serverInstanceName := serverName, x_ruleId := Some (ar_id r),
                  x_keyword := Some (rule_keyword r), x_ruleName := Some (ar_name r), x_excerpt := Some ex\<rparr>) now w1)"

definition scan_tail :: "id \<Rightarrow> world \<Rightarrow> string" where
  "scan_tail serverInstanceId w = opt_or (map_of (scanTails w) serverInstanceId) []"

definition matchKeywordAlerts :: "env \<Rightarrow> id \<Rightarrow> id \<Rightarrow> string \<Rightarrow> ms \<Rightarrow> world \<Rightarrow> world" where
  "matchKeywordAlerts E orgId serverInstanceId content now w =
     (let prior = scan_tail serverInstanceId w;
          w1 = w\<lparr>scanTails := map_put serverInstanceId (last_n 256 (prior @ content)) (scanTails w)\<rparr>;
          name = map_option si_name (find_server serverInstanceId orgId w)
      in foldl (keyword_alert E orgId serverInstanceId name prior content now) w1
           (filter (keyword_rule orgId serverInstanceId) (alertRules w)))"

definition is_keyword_rule :: "alertRule \<Rightarrow> bool" where
  "is_keyword_rule r \<longleftrightarrow> field (ar_condition r) ''type'' = Str ''log_keyword''"

definition listKeywordRules :: "id \<Rightarrow> world \<Rightarrow> alertRule list" where
  "listKeywordRules orgId w = filter is_keyword_rule (orderDesc ar_createdAt (filter (\<lambda>r. ar_orgId r = orgId) (alertRules w)))"

definition createKeywordRule :: "id \<Rightarrow> id \<Rightarrow> string \<Rightarrow> bool \<Rightarrow> ms \<Rightarrow> world \<Rightarrow> id res \<times> world" where
  "createKeywordRule orgId serverInstanceId keyword caseSensitive now w =
     (let clean = trim keyword in
      if clean = [] \<or> 200 < length clean then (Inl (BadRequestException ''Keyword must contain 1-200 characters''), w)
      else if find_server serverInstanceId orgId w = None then (Inl (NotFoundException ''Server instance not found''), w)
      else (Inr (next_id w), (draw w)\<lparr>alertRules := alertRules w @ [\<lparr>ar_id = next_id w, ar_orgId = orgId, ar_name = ''Log: '' @ clean,
              ar_condition = Obj [(''type'', Str ''log_keyword''), (''serverInstanceId'', Str serverInstanceId), (''keyword'', Str clean), (''caseSensitive'', Bool caseSensitive)],
              ar_channel = Obj [(''type'', Str ''dashboard'')], ar_enabled = True, ar_createdAt = now\<rparr>]\<rparr>))"

definition find_keyword_rule :: "id \<Rightarrow> id \<Rightarrow> world \<Rightarrow> alertRule option" where
  "find_keyword_rule orgId i w = (case find_rule i orgId w of None \<Rightarrow> None | Some r \<Rightarrow> if is_keyword_rule r then Some r else None)"

definition setKeywordRuleEnabled :: "id \<Rightarrow> id \<Rightarrow> bool \<Rightarrow> world \<Rightarrow> unit res \<times> world" where
  "setKeywordRuleEnabled orgId i enabled w =
     (if find_keyword_rule orgId i w = None then (Inl (NotFoundException ''Keyword rule not found''), w)
      else (Inr (), w\<lparr>alertRules := updateRow ar_id i (\<lambda>r. r\<lparr>ar_enabled := enabled\<rparr>) (alertRules w)\<rparr>))"

definition deleteKeywordRule :: "id \<Rightarrow> id \<Rightarrow> world \<Rightarrow> unit res \<times> world" where
  "deleteKeywordRule orgId i w =
     (if find_keyword_rule orgId i w = None then (Inl (NotFoundException ''Keyword rule not found''), w)
      else (Inr (), w\<lparr>alertRules := deleteMany (\<lambda>r. ar_id r = i) (alertRules w)\<rparr>))"

definition listKeywordMatches :: "id \<Rightarrow> id option \<Rightarrow> int \<Rightarrow> world \<Rightarrow> event list" where
  "listKeywordMatches orgId serverInstanceId limit w =
     take (bounded_take 1 200 limit) (orderDesc ev_createdAt
       (filter (\<lambda>e. ev_orgId e = orgId \<and> ev_eventType e = ''log_keyword_match'' \<and> of_server serverInstanceId (ev_sourceId e)) (events w)))"

section \<open>Players in the log\<close>

definition starts_lower :: "string \<Rightarrow> string \<Rightarrow> bool" where
  \<comment> \<open>a literal of a pattern with the flag i\<close>
  "starts_lower s p = startsWith (toLowerCase s) (toLowerCase p)"

definition word_char :: "char \<Rightarrow> bool" where
  "word_char c \<longleftrightarrow> is_alnum c \<or> c = CHR ''_''"

definition uuid_at :: "string \<Rightarrow> (string \<times> string) option" where
  \<comment> \<open>\<open>/UUID of player ([A-Za-z0-9_]{1,16}) is ([0-9a-fA-F-]{32,36})/i\<close>\<close>
  "uuid_at s =
     (if \<not> starts_lower s ''UUID of player '' then None
      else
        let r = drop 15 s; name = takeWhile word_char r; t = drop (length name) r;
            uuid = take 36 (takeWhile (\<lambda>c. is_hex c \<or> c = CHR ''-'') (drop 4 t))
        in if name = [] \<or> 16 < length name \<or> \<not> starts_lower t '' is '' \<or> length uuid < 32 then None else Some (name, toLowerCase uuid))"

definition game_at :: "string list \<Rightarrow> string \<Rightarrow> string option" where
  \<comment> \<open>\<open>/:\s*([A-Za-z0-9_]{1,16}) (?:joined|left) the game\b/i\<close> for the given verbs\<close>
  "game_at verbs s =
     (case s of [] \<Rightarrow> None
      | c # t \<Rightarrow>
          let r = dropWhile is_ws t; name = takeWhile word_char r; u = drop (length name) r;
              ends = (\<lambda>verb. starts_lower u ('' '' @ verb @ '' the game'') \<and> (case drop (length verb + 10) u of [] \<Rightarrow> True | d # _ \<Rightarrow> \<not> word_char d))
          in if c \<noteq> CHR '':'' \<or> name = [] \<or> 16 < length name \<or> \<not> list_ex ends verbs then None else Some name)"

definition blank_player :: "id \<Rightarrow> id \<Rightarrow> string \<Rightarrow> string \<Rightarrow> bool \<Rightarrow> ms \<Rightarrow> id \<Rightarrow> player" where
  \<comment> \<open>a new row with the defaults of the schema\<close>
  "blank_player orgId sid identityKey name online now i =
     \<lparr>p_id = i, p_orgId = orgId, p_serverInstanceId = sid, p_identityKey = identityKey, p_steamId = None, p_ipAddress = None, p_name = name,
      p_online = online, p_currentSessionStartedAt = (if online then Some now else None), p_lifetimeSeconds = 0, p_lastPos = None, p_lastLogoutAt = None,
      p_supporter = False, p_supporterSince = None, p_totalDonatedCents = 0, p_portalPasswordHash = None, p_firstSeenAt = now, p_lastSeenAt = now\<rparr>"

definition upsert_logged :: "id \<Rightarrow> id \<Rightarrow> string \<Rightarrow> string \<Rightarrow> bool \<Rightarrow> (player \<Rightarrow> player) \<Rightarrow> ms \<Rightarrow> world \<Rightarrow> player \<times> world" where
  "upsert_logged orgId sid identityKey name online f now w =
     (case find_player sid identityKey w of
        None \<Rightarrow> (let p = blank_player orgId sid identityKey name online now (next_id w) in (p, (draw w)\<lparr>players := players w @ [p]\<rparr>))
      | Some p \<Rightarrow> (f p, set_player (p_id p) f w))"

definition named_uuid :: "id \<Rightarrow> string \<Rightarrow> world \<Rightarrow> player option" where
  "named_uuid sid name w =
     (case orderDesc p_lastSeenAt (filter (\<lambda>p. p_serverInstanceId p = sid \<and> toLowerCase (p_name p) = toLowerCase name \<and> startsWith (p_identityKey p) ''uuid:'') (players w)) of
        [] \<Rightarrow> None | p # _ \<Rightarrow> Some p)"

definition joined_player :: "string \<Rightarrow> bool \<Rightarrow> ms \<Rightarrow> player \<Rightarrow> player" where
  "joined_player name wasOnline now p =
     p\<lparr>p_name := name, p_online := True, p_lastSeenAt := now, p_currentSessionStartedAt := (if wasOnline then p_currentSessionStartedAt p else Some now)\<rparr>"

definition log_context :: "id \<Rightarrow> id \<Rightarrow> string \<Rightarrow> string \<Rightarrow> string \<Rightarrow> int option \<Rightarrow> alertContext" where
  "log_context orgId sid serverName name identityKey seconds =
     (org_context orgId)\<lparr>x_serverInstanceId := Some sid, x_serverInstanceName := Some serverName, x_playerName := Some name,
        x_minecraftUuid := uuid_of identityKey, x_sessionSeconds := seconds\<rparr>"

definition log_join :: "env \<Rightarrow> id \<Rightarrow> id \<Rightarrow> string \<Rightarrow> string \<Rightarrow> string \<Rightarrow> player option \<Rightarrow> ms \<Rightarrow> world \<Rightarrow> world" where
  "log_join E orgId sid serverName name identityKey existing now w =
     (let wasOnline = (case existing of None \<Rightarrow> False | Some p \<Rightarrow> p_online p);
          (p, w1) = upsert_logged orgId sid identityKey name True (joined_player name wasOnline now) now w;
          w2 = (if existing = None then evaluateFirstJoin E orgId sid (as_trigger_player p) now w1 else w1)
      in if wasOnline then w2
         else sendMatchingRules E ''PLAYER_CONNECTED'' (log_context orgId sid serverName name identityKey None) now
                (retryPendingItemGrantsForPlayer E (p_id p) now (open_session (p_id p) now w2)))"

definition log_leave :: "env \<Rightarrow> id \<Rightarrow> id \<Rightarrow> string \<Rightarrow> string \<Rightarrow> string \<Rightarrow> player \<Rightarrow> ms \<Rightarrow> world \<Rightarrow> world" where
  "log_leave E orgId sid serverName name identityKey existing now w =
     (let duration = session_seconds (p_currentSessionStartedAt existing) now;
          previous = p_lifetimeSeconds existing;
          w1 = (set_player (p_id existing) (\<lambda>q. q\<lparr>p_online := False, p_lastSeenAt := now, p_currentSessionStartedAt := None, p_lastLogoutAt := Some now,
                  p_lifetimeSeconds := p_lifetimeSeconds q + duration\<rparr>) w)
               \<lparr>playerSessions := updateMany (\<lambda>s. ps_playerId s = p_id existing \<and> ps_endedAt s = None)
                  (\<lambda>s. s\<lparr>ps_endedAt := Some now, ps_durationSeconds := Some duration\<rparr>) (playerSessions w)\<rparr>;
          w2 = evaluatePlaytime E orgId sid (as_trigger_player (existing\<lparr>p_online := False\<rparr>)) previous (previous + duration) now w1
      in sendMatchingRules E ''PLAYER_DISCONNECTED'' (log_context orgId sid serverName name identityKey (Some duration)) now w2)"

definition parse_player_line :: "env \<Rightarrow> id \<Rightarrow> id \<Rightarrow> string \<Rightarrow> ms \<Rightarrow> world \<Rightarrow> string \<Rightarrow> world" where
  "parse_player_line E orgId sid serverName now w line =
     (case first_match uuid_at line of
        Some (name, uuid) \<Rightarrow>
          let identityKey = ''uuid:'' @ uuid
          in snd (upsert_logged orgId sid identityKey name False (\<lambda>p. p\<lparr>p_name := name\<rparr>) now (reconcileNameFallback sid identityKey name None w))
      | None \<Rightarrow>
          (case first_match (game_at [''joined'', ''left'']) line of
             None \<Rightarrow> w
           | Some name \<Rightarrow>
               let found = named_uuid sid name w;
                   identityKey = (case found of Some p \<Rightarrow> p_identityKey p | None \<Rightarrow> ''name:'' @ toLowerCase name);
                   w1 = reconcileNameFallback sid identityKey name None w;
                   existing = opt_orelse found (find_player sid identityKey w1)
               in if first_match (game_at [''joined'']) line \<noteq> None then log_join E orgId sid serverName name identityKey existing now w1
                  else (case existing of
                          Some p \<Rightarrow> if p_online p then log_leave E orgId sid serverName name identityKey p now w1 else w1
                        | None \<Rightarrow> w1)))"

definition parsePlayers :: "env \<Rightarrow> id \<Rightarrow> id \<Rightarrow> string \<Rightarrow> string \<Rightarrow> ms \<Rightarrow> world \<Rightarrow> world" where
  "parsePlayers E orgId serverInstanceId serverInstanceName content now w =
     (case log_lines (opt_or (map_of (lineBuffers w) serverInstanceId) [] @ content) of
        (ls, rest) \<Rightarrow>
          foldl (parse_player_line E orgId serverInstanceId serverInstanceName now)
            (w\<lparr>lineBuffers := map_put serverInstanceId (keep_rest rest) (lineBuffers w)\<rparr>) ls)"

section \<open>Retention and listing\<close>

definition kept_types :: "string list" where
  "kept_types = [''player_chat'', ''player_chat_relay_pending'', ''log_keyword_match'', ''chat_moderation_action'']"

definition prune :: "id \<Rightarrow> ms \<Rightarrow> world \<Rightarrow> world" where
  "prune orgId now w =
     (if now - opt_or (map_of (lastPrune w) orgId) 0 < 60000 then w
      else
        let w1 = w\<lparr>lastPrune := map_put orgId now (lastPrune w)\<rparr>
        in (case findUnique o_id orgId (orgs w) of
              None \<Rightarrow> w1
            | Some org \<Rightarrow>
                let limit = now - o_logRetentionDays org * 86400000
                in w1\<lparr>serverLogs := deleteMany (\<lambda>l. sl_orgId l = orgId \<and> sl_createdAt l < limit) (serverLogs w),
                      events := deleteMany (\<lambda>e. ev_orgId e = orgId \<and> ev_createdAt e < limit \<and> ev_eventType e \<in> set kept_types) (events w)\<rparr>))"

definition getSettings :: "id \<Rightarrow> world \<Rightarrow> int res" where
  "getSettings orgId w = (case findUnique o_id orgId (orgs w) of None \<Rightarrow> Inl (NotFoundException ''Organization not found'') | Some o' \<Rightarrow> Inr (o_logRetentionDays o'))"

definition updateSettings :: "id \<Rightarrow> int \<Rightarrow> ms \<Rightarrow> world \<Rightarrow> int res \<times> world" where
  "updateSettings orgId logRetentionDays now w =
     (if logRetentionDays \<notin> {1, 7, 30} then (Inl (BadRequestException ''Retention must be 1, 7, or 30 days''), w)
      else if findUnique o_id orgId (orgs w) = None then (Inl (Error ''Record to update not found''), w)
      else (Inr logRetentionDays,
            prune orgId now (w\<lparr>orgs := updateRow o_id orgId (\<lambda>o'. o'\<lparr>o_logRetentionDays := logRetentionDays\<rparr>) (orgs w),
                               lastPrune := map_del orgId (lastPrune w)\<rparr>)))"

definition list_logs :: "(id \<Rightarrow> rat) \<Rightarrow> id \<Rightarrow> id option \<Rightarrow> int option \<Rightarrow> id option \<Rightarrow> world \<Rightarrow> serverLog list" where
  \<comment> \<open>the first argument is the place of an id in the order of the database\<close>
  "list_logs rank orgId serverInstanceId limit afterId w =
     (let n = bounded_take 1 1000 (limit_or limit 250);
          rows = filter (\<lambda>l. sl_orgId l = orgId \<and> of_server serverInstanceId (sl_serverInstanceId l)) (serverLogs w)
      in case (if opt_or afterId [] = [] then None else List.find (\<lambda>l. afterId = Some (sl_id l)) rows) of
           Some cursor \<Rightarrow>
             take n (orderAsc sl_createdAt (sort_key (\<lambda>l. rank (sl_id l)) (filter (\<lambda>l. sl_createdAt cursor \<le> sl_createdAt l \<and> sl_id l \<noteq> sl_id cursor) rows)))
         | None \<Rightarrow> rev (take n (orderDesc sl_createdAt rows)))"

section \<open>Appending\<close>

definition append_log :: "env \<Rightarrow> id \<Rightarrow> id \<Rightarrow> string \<Rightarrow> ms \<Rightarrow> world \<Rightarrow> unit res \<times> world" where
  "append_log E hostId serverInstanceId content now w =
     (if content = [] then (Inr (), w)
      else if 65536 < length content then (Inl (BadRequestException ''Log chunk exceeds 64 KiB''), w)
      else (case List.find (\<lambda>s. si_id s = serverInstanceId \<and> si_hostId s = hostId) (serverInstances w) of
              None \<Rightarrow> (Inl (NotFoundException ''Server instance not found for agent host''), w)
            | Some server \<Rightarrow>
                let orgId = si_orgId server; sid = si_id server;
                    w1 = (draw w)\<lparr>serverLogs := serverLogs w @ [\<lparr>sl_id = next_id w, sl_orgId = orgId, sl_serverInstanceId = sid, sl_content = content, sl_createdAt = now\<rparr>]\<rparr>;
                    w2 = matchKeywordAlerts E orgId sid content now w1;
                    w3 = parseChat E orgId sid (si_name server) content now w2;
                    w4 = parsePlayers E orgId sid (si_name server) content now w3;
                    w5 = retryChatRelays E orgId sid now w4
                in (Inr (), prune orgId now w5)))"

end
