(* ===== verification/Views.thy ===== *)
theory Views
  imports Shop_Items Donations Hosts Logs Relay
begin

text \<open>
  The players of the dashboard (control-plane/src/players/players.service.ts: the poll for rosters, the
  protection settings, the list) and the list views of hosts, health, triggers and purchases
  (hosts.service.ts, health-monitor.service.ts, triggers.service.ts, donations.service.ts).

  Shown: one organization whose oldest member is a viewer ends the poll of the servers after its own; protection
  settings that are accepted stay within their ranges, whatever a body holds.
\<close>

section \<open>Polling for rosters\<close>

definition game_reachable :: "serverInstance \<Rightarrow> world \<Rightarrow> bool" where
  "game_reachable s w =
     (case findUnique h_id (si_hostId s) (hosts w) of
        None \<Rightarrow> False
      | Some h \<Rightarrow> field (coalesce (h_lastMetrics h) (Obj [])) ''gameReachable'' = Bool True)"

definition poll_targets :: "world \<Rightarrow> serverInstance list" where
  \<comment> \<open>the servers of the query, with the metrics it read, that the loop does not skip\<close>
  "poll_targets w = filter (\<lambda>s. game_reachable s w) (filter (\<lambda>s. si_gameType s = ''minecraft'') (serverInstances w))"

definition recently_synced :: "id \<Rightarrow> ms \<Rightarrow> world \<Rightarrow> bool" where
  "recently_synced sid now w =
     list_ex (\<lambda>j. j_serverInstanceId j = Some sid \<and> j_type j = ''PLAYER_LIST_SYNC'' \<and> now - 45000 \<le> j_createdAt j) (jobs w)"

fun poll_rosters :: "env \<Rightarrow> ms \<Rightarrow> serverInstance list \<Rightarrow> world \<Rightarrow> unit res \<times> world" where
  "poll_rosters E now [] w = (Inr (), w)"
| "poll_rosters E now (s # servers) w =
     (case first_member (si_orgId s) w of
        None \<Rightarrow> poll_rosters E now servers w
      | Some member \<Rightarrow>
          if recently_synced (si_id s) now w then poll_rosters E now servers w
          else (case createJob E (si_orgId s) (uo_userId member) (si_id s) ''PLAYER_LIST_SYNC'' (Some []) now w of
                  (Inl e, w1) \<Rightarrow> (Inl e, w1)
                | (Inr _, w1) \<Rightarrow> poll_rosters E now servers w1))"

definition pollPlayers :: "env \<Rightarrow> ms \<Rightarrow> world \<Rightarrow> unit res \<times> world" where
  \<comment> \<open>one run of the timer; the flag \<open>polling\<close> keeps runs from overlapping\<close>
  "pollPlayers E now w = poll_rosters E now (poll_targets w) w"

section \<open>Protection settings\<close>

definition default_protection :: "id \<Rightarrow> protection" where
  "default_protection sid =
     \<lparr>pr_serverInstanceId = sid, pr_highPingEnabled = False, pr_highPingThresholdMs = 250, pr_highPingSamples = 3,
      pr_highPingReason = ''Connection latency remained too high'', pr_countryBanEnabled = False, pr_blockedCountryCodes = [],
      pr_countryAction = ''kick'', pr_countryBanDuration = ''365 days'',
      pr_countryReason = ''Connections from your country are not allowed''\<rparr>"

definition upsert_protection :: "id \<Rightarrow> protection \<Rightarrow> (protection \<Rightarrow> protection) \<Rightarrow> world \<Rightarrow> protection \<times> world" where
  "upsert_protection sid created f w =
     (case findUnique pr_serverInstanceId sid (protections w) of
        None \<Rightarrow> (created, w\<lparr>protections := protections w @ [created]\<rparr>)
      | Some p \<Rightarrow> (f p, w\<lparr>protections := updateRow pr_serverInstanceId sid f (protections w)\<rparr>))"

definition getProtectionSettings :: "id \<Rightarrow> id \<Rightarrow> world \<Rightarrow> protection res \<times> world" where
  "getProtectionSettings orgId sid w =
     (case find_server sid orgId w of
        None \<Rightarrow> (Inl (NotFoundException ''Server instance not found''), w)
      | Some _ \<Rightarrow> (case upsert_protection sid (default_protection sid) id w of (p, w1) \<Rightarrow> (Inr p, w1)))"

definition clean_reason :: "js \<Rightarrow> string \<Rightarrow> nat \<Rightarrow> string" where
  "clean_reason value fallback most =
     or_str (take most (trim (map (\<lambda>c. if c = CHR 0x0D \<or> c = CHR 0x0A then CHR '' '' else c) (js_string (coalesce value (Str fallback)))))) fallback"

definition country_codes :: "js \<Rightarrow> string list" where
  \<comment> \<open>\<open>[...new Set(...)]\<close> keeps the first of equal codes\<close>
  "country_codes v =
     (case v of
        Arr xs \<Rightarrow> rev (remdups (rev (filter (\<lambda>x. length x = 2 \<and> list_all is_upper x) (map (\<lambda>x. toUpperCase (trim (js_string x))) xs))))
      | _ \<Rightarrow> [])"

definition setting_in :: "obj \<Rightarrow> string \<Rightarrow> int \<Rightarrow> int \<Rightarrow> int \<Rightarrow> int option" where
  "setting_in body k dflt lo hi =
     (let n = to_num (coalesce (get body k) (JInt dflt)) in
      if isInteger n \<and> lo \<le> num_int n \<and> num_int n \<le> hi then Some (num_int n) else None)"

definition protection_of :: "id \<Rightarrow> obj \<Rightarrow> int \<Rightarrow> int \<Rightarrow> protection" where
  "protection_of sid body threshold samples =
     \<lparr>pr_serverInstanceId = sid, pr_highPingEnabled = truthy (get body ''highPingEnabled''), pr_highPingThresholdMs = threshold,
      pr_highPingSamples = samples, pr_highPingReason = clean_reason (get body ''highPingReason'') ''Connection latency remained too high'' 200,
      pr_countryBanEnabled = truthy (get body ''countryBanEnabled''), pr_blockedCountryCodes = country_codes (get body ''blockedCountryCodes''),
      pr_countryAction = (if get body ''countryAction'' = Str ''ban'' then ''ban'' else ''kick''),
      pr_countryBanDuration = clean_reason (get body ''countryBanDuration'') ''365 days'' 40,
      pr_countryReason = clean_reason (get body ''countryReason'') ''Connections from your country are not allowed'' 200\<rparr>"

definition updateProtectionSettings :: "id \<Rightarrow> id \<Rightarrow> obj \<Rightarrow> world \<Rightarrow> protection res \<times> world" where
  "updateProtectionSettings orgId sid body w =
     (case find_server sid orgId w of
        None \<Rightarrow> (Inl (NotFoundException ''Server instance not found''), w)
      | Some _ \<Rightarrow>
          (case setting_in body ''highPingThresholdMs'' 250 50 5000 of
             None \<Rightarrow> (Inl (BadRequestException ''Ping threshold must be 50-5000 ms''), w)
           | Some threshold \<Rightarrow>
               (case setting_in body ''highPingSamples'' 3 2 20 of
                  None \<Rightarrow> (Inl (BadRequestException ''Bad sample count must be 2-20''), w)
                | Some samples \<Rightarrow>
                    let row = protection_of sid body threshold samples
                    in (case upsert_protection sid row (\<lambda>_. row) w of (p, w1) \<Rightarrow> (Inr p, w1)))))"

section \<open>Lists\<close>

definition of_org_server :: "id \<Rightarrow> id option \<Rightarrow> player \<Rightarrow> bool" where
  \<comment> \<open>an empty server id selects every server\<close>
  "of_org_server orgId sid p \<longleftrightarrow> p_orgId p = orgId \<and> (opt_or sid [] \<noteq> [] \<longrightarrow> Some (p_serverInstanceId p) = sid)"

definition shown_seconds :: "ms \<Rightarrow> player \<Rightarrow> int" where
  "shown_seconds now p =
     (case p_currentSessionStartedAt p of
        Some t \<Rightarrow> if p_online p then max 0 ((now - t) div 1000) else 0
      | None \<Rightarrow> 0)"

definition list_players :: "id \<Rightarrow> id option \<Rightarrow> ms \<Rightarrow> world \<Rightarrow> (player \<times> int \<times> int) list \<times> world" where
  \<comment> \<open>a row with its \<open>sessionSeconds\<close> and \<open>lifetimeSeconds\<close>\<close>
  "list_players orgId sid now w =
     (let stable = filter (\<lambda>p. of_org_server orgId sid p \<and> \<not> startsWith (p_identityKey p) ''name:'') (players w);
          w1 = foldl (\<lambda>v p. reconcileNameFallback (p_serverInstanceId p) (p_identityKey p) (p_name p) (p_steamId p) v) w stable
      in (map (\<lambda>p. (p, shown_seconds now p, p_lifetimeSeconds p + shown_seconds now p))
            (orderDesc (\<lambda>p. if p_online p then 1 else 0) (orderDesc p_lastSeenAt (filter (of_org_server orgId sid) (players w1)))), w1))"

definition host_response :: "host \<Rightarrow> world \<Rightarrow> obj" where
  \<comment> \<open>the model keeps no \<open>labels\<close>; of the servers of a host the identity is shown\<close>
  "host_response h w =
     (let servers = filter (\<lambda>s. si_hostId s = h_id h) (serverInstances w)
      in [(''id'', Str (h_id h)), (''orgId'', Str (h_orgId h)), (''name'', Str (h_name h)), (''status'', Str (opt_or (h_status h) ''unknown'')),
          (''lastHeartbeatAt'', case h_lastHeartbeatAt h of None \<Rightarrow> Null | Some t \<Rightarrow> JInt t), (''agentVersion'', js_null (h_agentVersion h)),
          (''agentKeyVersion'', JInt (h_agentKeyVersion h)), (''lastMetrics'', coalesce (h_lastMetrics h) Null),
          (''serverInstanceCount'', JInt (int (length servers))),
          (''serverInstances'', Arr (map (\<lambda>s. Obj [(''id'', Str (si_id s)), (''name'', Str (si_name s))]) servers)),
          (''createdAt'', JInt (h_createdAt h))])"

definition list_hosts :: "id \<Rightarrow> world \<Rightarrow> obj list" where
  "list_hosts orgId w = map (\<lambda>h. host_response h w) (orderDesc h_createdAt (filter (\<lambda>h. h_orgId h = orgId) (hosts w)))"

definition find_one_host :: "id \<Rightarrow> id \<Rightarrow> world \<Rightarrow> obj res" where
  "find_one_host orgId hostId w =
     (case find_host hostId orgId w of None \<Rightarrow> Inl (NotFoundException ''Host not found'') | Some h \<Rightarrow> Inr (host_response h w))"

definition dashboard :: "id \<Rightarrow> int option \<Rightarrow> ms \<Rightarrow> world \<Rightarrow> host list \<times> healthSample list \<times> int" where
  "dashboard orgId minutes now w =
     (let since = now - min (max (opt_or minutes 60) 5) 1440 * 60000
      in (filter (\<lambda>h. h_orgId h = orgId) (hosts w),
          take 5000 (orderAsc hs_createdAt (filter (\<lambda>s. hs_orgId s = orgId \<and> since \<le> hs_createdAt s) (healthSamples w))),
          case findUnique o_id orgId (orgs w) of None \<Rightarrow> 10 | Some o' \<Rightarrow> o_healthIntervalSec o'))"

definition list_triggers :: "id \<Rightarrow> id option \<Rightarrow> world \<Rightarrow> trigger list" where
  "list_triggers orgId sid w =
     orderDesc t_createdAt (filter (\<lambda>t. t_orgId t = orgId \<and> (opt_or sid [] \<noteq> [] \<longrightarrow> Some (t_serverInstanceId t) = sid)) (triggers w))"

definition listFires :: "id \<Rightarrow> id \<Rightarrow> world \<Rightarrow> (triggerFire \<times> player option) list res" where
  \<comment> \<open>a fire with the player it shows\<close>
  "listFires orgId triggerId w =
     (case find_trigger triggerId orgId w of
        None \<Rightarrow> Inl (NotFoundException ''Trigger not found'')
      | Some t \<Rightarrow> Inr (map (\<lambda>f. (f, findUnique p_id (tf_playerId f) (players w)))
                   (take 50 (orderDesc tf_createdAt (filter (\<lambda>f. tf_triggerId f = t_id t) (triggerFires w))))))"

definition webhookConfigured :: "env \<Rightarrow> stripe \<Rightarrow> world \<Rightarrow> bool" where
  "webhookConfigured E S w = (stripeWebhookSecrets E S w \<noteq> [])"

definition closed_purchases :: "id \<Rightarrow> world \<Rightarrow> donation list" where
  \<comment> \<open>newest first; PostgreSQL puts rows without \<open>completedAt\<close> first\<close>
  "closed_purchases orgId w =
     (let rows = orderDesc d_createdAt (filter (\<lambda>d. d_orgId d = orgId \<and> d_status d \<in> {''completed'', ''refunded''}) (donations w))
      in filter (\<lambda>d. d_completedAt d = None) rows @ orderDesc (\<lambda>d. opt_or (d_completedAt d) 0) (filter (\<lambda>d. d_completedAt d \<noteq> None) rows))"

definition line_view :: "donationLine \<Rightarrow> obj" where
  "line_view l =
     [(''id'', Str (l_id l)), (''shopItemId'', js_null (l_shopItemId l)), (''itemName'', Str (l_itemName l)), (''amountCents'', JInt (l_amountCents l)),
      (''quantity'', JInt (l_quantity l)), (''grantStatus'', Str (l_grantStatus l)), (''grantError'', js_null (l_grantError l)), (''grantItems'', l_grantItems l),
      (''grantItemName'', js_null (l_grantItemName l)), (''grantQuantity'', case l_grantQuantity l of None \<Rightarrow> Null | Some n \<Rightarrow> JInt n)]"

definition bare_line :: "donation \<Rightarrow> js \<Rightarrow> string \<Rightarrow> obj" where
  "bare_line d itemId name =
     [(''id'', Str (d_id d)), (''shopItemId'', itemId), (''itemName'', Str name), (''amountCents'', JInt (d_amountCents d)), (''quantity'', JInt 1),
      (''grantStatus'', Str ''none''), (''grantError'', Null)]"

definition purchase_lines :: "(string \<Rightarrow> int) \<Rightarrow> donation \<Rightarrow> world \<Rightarrow> obj list" where
  \<comment> \<open>\<open>rank\<close> is the collation of the database\<close>
  "purchase_lines rank d w =
     (case orderAsc (\<lambda>l. rank (l_itemName l)) (filter (\<lambda>l. l_donationId l = d_id d) (donationLines w)) of
        [] \<Rightarrow> (case Option.bind (d_shopItemId d) (\<lambda>i. findUnique sh_id i (shopItems w)) of
                 Some item \<Rightarrow> [bare_line d (js_null (d_shopItemId d)) (sh_name item)]
               | None \<Rightarrow> [bare_line d Null ''Custom support''])
      | ls \<Rightarrow> map line_view ls)"

definition listCompleted :: "(string \<Rightarrow> int) \<Rightarrow> id \<Rightarrow> int option \<Rightarrow> world \<Rightarrow> (donation \<times> string \<times> obj list) list" where
  \<comment> \<open>a purchase with the name of its player and its lines; \<open>limit\<close> is \<open>Number(limitRaw)\<close>, None for NaN\<close>
  "listCompleted rank orgId limit w =
     map (\<lambda>d. (d, (case findUnique p_id (d_playerId d) (players w) of None \<Rightarrow> [] | Some p \<Rightarrow> p_name p), purchase_lines rank d w))
       (take (bounded_take 1 200 (limit_or limit 100)) (closed_purchases orgId w))"

section \<open>What ends a poll\<close>

definition skipped :: "ms \<Rightarrow> world \<Rightarrow> serverInstance \<Rightarrow> bool" where
  "skipped now w s \<longleftrightarrow> first_member (si_orgId s) w = None \<or> recently_synced (si_id s) now w"

lemma poll_skipped: "list_all (skipped now w) xs \<Longrightarrow> poll_rosters E now (xs @ ys) w = poll_rosters E now ys w"
  by (induction xs) (auto simp: skipped_def split: option.split)

lemma find_in: "List.find P xs = Some x \<Longrightarrow> x \<in> set xs \<and> P x"
  by (induction xs) (auto split: if_splits)

definition one_seat :: "world \<Rightarrow> bool" where
  \<comment> \<open>the primary key of the memberships\<close>
  "one_seat w \<longleftrightarrow> distinct (map (\<lambda>m. (uo_userId m, uo_orgId m)) (userOrgs w))"

lemma first_member_found:
  assumes "first_member orgId w = Some m" and "one_seat w"
  shows "find_member (uo_userId m) orgId w = Some m"
proof -
  have m: "m \<in> set (userOrgs w)" "uo_orgId m = orgId"
    using find_in [OF assms(1) [unfolded first_member_def]] by auto
  then have "find_member (uo_userId m) orgId w \<noteq> None" by (auto simp: find_member_def find_None_iff)
  then obtain n where n: "find_member (uo_userId m) orgId w = Some n" by auto
  then have "n \<in> set (userOrgs w)" "uo_userId n = uo_userId m" "uo_orgId n = orgId"
    using find_in [OF n [unfolded find_member_def]] by auto
  with m have "n = m" using assms(2) by (auto simp: one_seat_def distinct_map inj_on_def)
  with n show ?thesis by simp
qed

lemma viewer_list_refused:
  assumes "find_member u orgId w = Some m" and "uo_role m = ''viewer''"
  shows "createJob E orgId u sid ''PLAYER_LIST_SYNC'' p now w =
    (Inl (ForbiddenException ''Verified members may recommend mods, but cannot change installed mods''), w)"
proof -
  have "normalizeJobType ''PLAYER_LIST_SYNC'' = ''PLAYER_LIST_SYNC''" by code_simp
  then show ?thesis using assms by (simp add: createJob_def viewerAllowed_def)
qed

text \<open>C39: one organization can end the poll for rosters of all later ones. When the oldest member of the
  organization of the next server to be asked is a viewer, the poll stops there with an error: nothing is
  queued for that server nor for any server after it, whatever organizations they belong to, and so it does on every run.\<close>

theorem viewer_ends_poll:
  assumes "one_seat w" and "poll_targets w = xs @ s # ys" and "list_all (skipped now w) xs" and "\<not> skipped now w s"
    and "first_member (si_orgId s) w = Some m" and "uo_role m = ''viewer''"
  shows "pollPlayers E now w = (Inl (ForbiddenException ''Verified members may recommend mods, but cannot change installed mods''), w)"
  using viewer_list_refused [OF first_member_found [OF assms(5,1)] assms(6)] assms(4,5)
  by (simp add: pollPlayers_def assms(2) poll_skipped [OF assms(3)] skipped_def)

text \<open>The server of a viewer comes before that of an administrator, and both games are up.\<close>

definition sample_two_orgs :: world where
  "sample_two_orgs = (empty_world nat_str)
     \<lparr>hosts := [\<lparr>h_id = ''h'', h_orgId = ''o'', h_name = ''h'', h_lastHeartbeatAt = None, h_agentVersion = None,
        h_agentKeyVersion = 1, h_status = Some ''online'', h_lastMetrics = Obj [(''gameReachable'', Bool True)], h_createdAt = 0\<rparr>],
      serverInstances := [sample_server ''s1'' ''h'', (sample_server ''s2'' ''h'')\<lparr>si_orgId := ''p''\<rparr>],
      userOrgs := [\<lparr>uo_userId = ''v'', uo_orgId = ''o'', uo_role = ''viewer'', uo_createdAt = 0\<rparr>,
        \<lparr>uo_userId = ''a'', uo_orgId = ''p'', uo_role = ''admin'', uo_createdAt = 1\<rparr>]\<rparr>"

theorem viewer_ends_poll_witness:
  "length (poll_targets sample_two_orgs) = 2 \<and> snd (pollPlayers sample_env 5 sample_two_orgs) = sample_two_orgs"
proof -
  have t: "poll_targets sample_two_orgs = [] @ sample_server ''s1'' ''h'' # [(sample_server ''s2'' ''h'')\<lparr>si_orgId := ''p''\<rparr>]"
    by (simp add: poll_targets_def sample_two_orgs_def sample_server_def game_reachable_def findUnique_Cons field_def coalesce_def nullish_def get_def)
  have m: "first_member (si_orgId (sample_server ''s1'' ''h'')) sample_two_orgs =
      Some \<lparr>uo_userId = ''v'', uo_orgId = ''o'', uo_role = ''viewer'', uo_createdAt = 0\<rparr>"
    by (simp add: first_member_def sample_two_orgs_def sample_server_def orderAsc_def)
  have "pollPlayers sample_env 5 sample_two_orgs =
      (Inl (ForbiddenException ''Verified members may recommend mods, but cannot change installed mods''), sample_two_orgs)"
    by (rule viewer_ends_poll [OF _ t _ _ m])
      (simp_all add: one_seat_def skipped_def m, simp_all add: sample_two_orgs_def recently_synced_def empty_world_def)
  with t show ?thesis by simp
qed

section \<open>Settings in range\<close>

lemma clean_reason_ok:
  assumes "length fallback \<le> most" and "fallback \<noteq> []" and "list_all (\<lambda>c. c \<noteq> CHR 0x0D \<and> c \<noteq> CHR 0x0A) fallback"
  shows "clean_reason v fallback most \<noteq> [] \<and> length (clean_reason v fallback most) \<le> most \<and>
    list_all (\<lambda>c. c \<noteq> CHR 0x0D \<and> c \<noteq> CHR 0x0A) (clean_reason v fallback most)"
proof -
  let ?f = "\<lambda>c. if c = CHR 0x0D \<or> c = CHR 0x0A then CHR '' '' else c"
  have "set (take most (trim (map ?f s))) \<subseteq> ?f ` set s" for s
    using set_trim [of "map ?f s"] set_take_subset [of most "trim (map ?f s)"] by auto
  moreover have "CHR 0x0D \<notin> ?f ` A \<and> CHR 0x0A \<notin> ?f ` A" for A by (auto split: if_splits)
  ultimately have "list_all (\<lambda>c. c \<noteq> CHR 0x0D \<and> c \<noteq> CHR 0x0A) (take most (trim (map ?f s)))" for s
    unfolding list_all_iff by blast
  then show ?thesis using assms by (simp add: clean_reason_def or_str_def)
qed

lemma country_codes_ok: "distinct (country_codes v) \<and> list_all (\<lambda>c. length c = 2 \<and> list_all is_upper c) (country_codes v)"
  by (auto simp: country_codes_def list_all_iff split: js.split)

definition in_range :: "protection \<Rightarrow> bool" where
  "in_range p \<longleftrightarrow>
     50 \<le> pr_highPingThresholdMs p \<and> pr_highPingThresholdMs p \<le> 5000 \<and> 2 \<le> pr_highPingSamples p \<and> pr_highPingSamples p \<le> 20 \<and>
     pr_countryAction p \<in> {''kick'', ''ban''} \<and> distinct (pr_blockedCountryCodes p) \<and>
     list_all (\<lambda>c. length c = 2 \<and> list_all is_upper c) (pr_blockedCountryCodes p) \<and>
     length (pr_highPingReason p) \<le> 200 \<and> length (pr_countryReason p) \<le> 200 \<and> length (pr_countryBanDuration p) \<le> 40 \<and>
     list_all (list_all (\<lambda>c. c \<noteq> CHR 0x0D \<and> c \<noteq> CHR 0x0A)) [pr_highPingReason p, pr_countryReason p, pr_countryBanDuration p]"

lemma default_in_range: "in_range (default_protection sid)"
  by (simp add: in_range_def default_protection_def)

lemma protection_of_in_range:
  assumes "setting_in body ''highPingThresholdMs'' 250 50 5000 = Some t" and "setting_in body ''highPingSamples'' 3 2 20 = Some n"
  shows "in_range (protection_of sid body t n)"
proof -
  have "50 \<le> t \<and> t \<le> 5000 \<and> 2 \<le> n \<and> n \<le> 20"
    using assms by (auto simp: setting_in_def Let_def split: if_splits)
  moreover have "length (clean_reason v ''Connection latency remained too high'' 200) \<le> 200 \<and>
      list_all (\<lambda>c. c \<noteq> CHR 0x0D \<and> c \<noteq> CHR 0x0A) (clean_reason v ''Connection latency remained too high'' 200)" for v
    using clean_reason_ok [of "''Connection latency remained too high''" 200 v] by simp
  moreover have "length (clean_reason v ''Connections from your country are not allowed'' 200) \<le> 200 \<and>
      list_all (\<lambda>c. c \<noteq> CHR 0x0D \<and> c \<noteq> CHR 0x0A) (clean_reason v ''Connections from your country are not allowed'' 200)" for v
    using clean_reason_ok [of "''Connections from your country are not allowed''" 200 v] by simp
  moreover have "length (clean_reason v ''365 days'' 40) \<le> 40 \<and>
      list_all (\<lambda>c. c \<noteq> CHR 0x0D \<and> c \<noteq> CHR 0x0A) (clean_reason v ''365 days'' 40)" for v
    using clean_reason_ok [of "''365 days''" 40 v] by simp
  ultimately show ?thesis using country_codes_ok [of "get body ''blockedCountryCodes''"]
    by (simp add: in_range_def protection_of_def)
qed

text \<open>The settings the connection tools act on are in range whatever bodies were sent.\<close>

lemma protection_settings_in_range:
  assumes "\<forall>p \<in> set (protections w). in_range p"
  shows "\<forall>p \<in> set (protections (snd (updateProtectionSettings orgId sid body w))). in_range p"
    and "\<forall>p \<in> set (protections (snd (getProtectionSettings orgId sid w))). in_range p"
proof -
  have upd: "r \<in> set (updateRow pr_serverInstanceId sid f rows) \<Longrightarrow> r \<in> set rows \<or> (\<exists>q. r = f q)" for r f rows
    by (induction rows) (auto simp: updateRow_def split: if_splits)
  show "\<forall>p \<in> set (protections (snd (updateProtectionSettings orgId sid body w))). in_range p"
    using assms by (auto simp: updateProtectionSettings_def upsert_protection_def protection_of_in_range Let_def dest!: upd split: option.split)
  show "\<forall>p \<in> set (protections (snd (getProtectionSettings orgId sid w))). in_range p"
    using assms by (auto simp: getProtectionSettings_def upsert_protection_def default_in_range updateRow_def updateMany_def split: option.split)
qed

end
