(* ===== verification/Orgs.thy ===== *)
theory Orgs
  imports Portal
begin

text \<open>
  Settings of an organization: control-plane/src/orgs/orgs.service.ts (without the accounts, which are in
  Accounts) and orgs/integration-crypto.ts. The cipher is a parameter; the format of a stored
  secret is the code's.

  Shown: what is saved as a Stripe key or a maintenance password is what later payments and maintenance
  jobs use; no view of an organization depends on a stored secret, nor on the webhook
  address unless an administrator asks.
\<close>

section \<open>Stored secrets\<close>

text \<open>\<open>oc_seal iv value\<close> gives the tag and the data of AES-GCM, \<open>oc_open iv tag data\<close> the text again (None
  when it is rejected), all in Base64.\<close>

record orgEnv =
  oc_seal :: "string \<Rightarrow> string \<Rightarrow> string \<times> string"
  oc_open :: "string \<Rightarrow> string \<Rightarrow> string \<Rightarrow> string option"
  oc_publicWebUrl :: "string option"

definition encryptIntegrationSecret :: "orgEnv \<Rightarrow> string \<Rightarrow> string \<Rightarrow> string" where
  "encryptIntegrationSecret C iv value =
     (case oc_seal C iv value of (tag, data) \<Rightarrow> join '':'' [''v1'', iv, tag, data])"

definition decryptIntegrationSecret :: "orgEnv \<Rightarrow> string \<Rightarrow> string option" where
  \<comment> \<open>None when it throws\<close>
  "decryptIntegrationSecret C value =
     (let parts = split CHR '':'' value in
      if part parts 0 \<noteq> ''v1'' \<or> part parts 1 = [] \<or> part parts 2 = [] \<or> part parts 3 = [] then None
      else oc_open C (part parts 1) (part parts 2) (part parts 3))"

section \<open>Changes\<close>

definition set_org :: "id \<Rightarrow> (org \<Rightarrow> org) \<Rightarrow> world \<Rightarrow> world" where
  "set_org orgId f w = w\<lparr>orgs := updateRow o_id orgId f (orgs w)\<rparr>"

definition audit_org :: "id \<Rightarrow> id \<Rightarrow> string \<Rightarrow> obj \<Rightarrow> world \<Rightarrow> world" where
  "audit_org orgId userId action details w = audit_row orgId (Some userId) action ''org'' orgId details w"

definition clear_org :: "id \<Rightarrow> (org \<Rightarrow> org) \<Rightarrow> (world \<Rightarrow> world) \<Rightarrow> world \<Rightarrow> unit res \<times> world" where
  \<comment> \<open>an update without a check before it: the database rejects an unknown id\<close>
  "clear_org orgId f audited w =
     (case findUnique o_id orgId (orgs w) of
        None \<Rightarrow> (Inl (Error ''Record to update not found.''), w)
      | Some _ \<Rightarrow> (Inr (), audited (set_org orgId f w)))"

definition missing :: "string option \<Rightarrow> bool" where
  \<comment> \<open>\<open>!value\<close> for a text that may be null\<close>
  "missing x = (opt_or x [] = [])"

definition site_char :: "char \<Rightarrow> bool" where
  "site_char c \<longleftrightarrow> is_alnum c \<or> c = CHR ''_'' \<or> c = CHR ''-''"

definition saveRecaptchaSettings :: "orgEnv \<Rightarrow> string \<Rightarrow> id \<Rightarrow> id \<Rightarrow> string \<Rightarrow> string option \<Rightarrow> world \<Rightarrow> string res \<times> world" where
  \<comment> \<open>\<open>iv\<close> is the random nonce; the result is the site key\<close>
  "saveRecaptchaSettings C iv orgId userId siteKeyRaw secretRaw w =
     (case findUnique o_id orgId (orgs w) of
        None \<Rightarrow> (Inl (NotFoundException ''Organization not found''), w)
      | Some existing \<Rightarrow>
          let siteKey = trim siteKeyRaw; s = trim (opt_or secretRaw []) in
          if \<not> (20 \<le> length siteKey \<and> length siteKey \<le> 256 \<and> list_all site_char siteKey)
          then (Inl (ConflictException ''Enter a valid reCAPTCHA site key''), w)
          else if s = [] \<and> missing (o_recaptchaSecretEncrypted existing) then (Inl (ConflictException ''reCAPTCHA secret key is required''), w)
          else if s \<noteq> [] \<and> \<not> (10 \<le> length s \<and> length s \<le> 512 \<and> list_all site_char s)
          then (Inl (ConflictException ''Enter a valid reCAPTCHA secret key''), w)
          else (Inr siteKey,
                audit_org orgId userId ''recaptcha_settings_updated'' [(''siteKeyReplaced'', Bool True), (''secretReplaced'', Bool (s \<noteq> []))]
                  (set_org orgId (\<lambda>o'. o'\<lparr>o_recaptchaSiteKey := Some siteKey,
                     o_recaptchaSecretEncrypted := (if s = [] then o_recaptchaSecretEncrypted o' else Some (encryptIntegrationSecret C iv s))\<rparr>) w)))"

definition clearRecaptchaSettings :: "id \<Rightarrow> id \<Rightarrow> world \<Rightarrow> unit res \<times> world" where
  "clearRecaptchaSettings orgId userId w =
     clear_org orgId (\<lambda>o'. o'\<lparr>o_recaptchaSiteKey := None, o_recaptchaSecretEncrypted := None\<rparr>)
       (audit_org orgId userId ''recaptcha_settings_cleared'' []) w"

definition model_name :: "(char \<Rightarrow> bool) \<Rightarrow> string \<Rightarrow> bool" where
  "model_name extra m \<longleftrightarrow> m \<noteq> [] \<and> list_all (\<lambda>c. is_alnum c \<or> c = CHR ''.'' \<or> c = CHR ''_'' \<or> c = CHR ''-'' \<or> extra c) m"

definition ai_key :: "orgEnv \<Rightarrow> string \<Rightarrow> string option \<Rightarrow> string option \<Rightarrow> string option" where
  \<comment> \<open>the column after a request with that key, if any\<close>
  "ai_key C iv apiKey old = (if missing apiKey then old else Some (encryptIntegrationSecret C iv (trim (opt_or apiKey []))))"

definition saveOpenAiSettings :: "orgEnv \<Rightarrow> string \<Rightarrow> id \<Rightarrow> id \<Rightarrow> string option \<Rightarrow> string \<Rightarrow> world \<Rightarrow> string res \<times> world" where
  "saveOpenAiSettings C iv orgId userId apiKey modelRaw w =
     (case findUnique o_id orgId (orgs w) of
        None \<Rightarrow> (Inl (NotFoundException ''Organization not found''), w)
      | Some existing \<Rightarrow>
          let model = trim modelRaw in
          if missing apiKey \<and> missing (o_openaiApiKeyEncrypted existing) then (Inl (ConflictException ''OpenAI API key is required''), w)
          else if \<not> model_name (\<lambda>_. False) model then (Inl (ConflictException ''Invalid OpenAI model name''), w)
          else (Inr model,
                audit_org orgId userId ''openai_settings_updated'' [(''model'', Str model), (''keyReplaced'', Bool (\<not> missing apiKey))]
                  (set_org orgId (\<lambda>o'. o'\<lparr>o_openaiModel := model, o_openaiApiKeyEncrypted := ai_key C iv apiKey (o_openaiApiKeyEncrypted o')\<rparr>) w)))"

definition clearOpenAiSettings :: "id \<Rightarrow> world \<Rightarrow> unit res \<times> world" where
  "clearOpenAiSettings orgId w = clear_org orgId (\<lambda>o'. o'\<lparr>o_openaiApiKeyEncrypted := None\<rparr>) id w"

definition saveKimiSettings :: "orgEnv \<Rightarrow> string \<Rightarrow> id \<Rightarrow> id \<Rightarrow> string option \<Rightarrow> string \<Rightarrow> world \<Rightarrow> string res \<times> world" where
  "saveKimiSettings C iv orgId userId apiKey modelRaw w =
     (case findUnique o_id orgId (orgs w) of
        None \<Rightarrow> (Inl (NotFoundException ''Organization not found''), w)
      | Some existing \<Rightarrow>
          let model = trim modelRaw in
          if missing apiKey \<and> missing (o_kimiApiKeyEncrypted existing) then (Inl (ConflictException ''Moonshot API key is required''), w)
          else if \<not> model_name (\<lambda>c. c = CHR ''/'') model then (Inl (ConflictException ''Invalid Kimi model name''), w)
          else (Inr model,
                audit_org orgId userId ''kimi_settings_updated'' [(''model'', Str model), (''keyReplaced'', Bool (\<not> missing apiKey))]
                  (set_org orgId (\<lambda>o'. o'\<lparr>o_kimiModel := model, o_kimiApiKeyEncrypted := ai_key C iv apiKey (o_kimiApiKeyEncrypted o')\<rparr>) w)))"

definition clearKimiSettings :: "id \<Rightarrow> world \<Rightarrow> unit res \<times> world" where
  "clearKimiSettings orgId w = clear_org orgId (\<lambda>o'. o'\<lparr>o_kimiApiKeyEncrypted := None, o_modAiProvider := ''codex''\<rparr>) id w"

definition selectModAiProvider :: "id \<Rightarrow> id \<Rightarrow> string \<Rightarrow> world \<Rightarrow> unit res \<times> world" where
  "selectModAiProvider orgId userId provider w =
     (case findUnique o_id orgId (orgs w) of
        None \<Rightarrow> (Inl (NotFoundException ''Organization not found''), w)
      | Some org \<Rightarrow>
          if provider = ''codex'' \<and> missing (o_openaiApiKeyEncrypted org) then (Inl (ConflictException ''Configure an OpenAI API key before selecting Codex''), w)
          else if provider = ''kimi'' \<and> missing (o_kimiApiKeyEncrypted org)
          then (Inl (ConflictException ''Configure a Moonshot API key before selecting Kimi Code''), w)
          else (Inr (), audit_org orgId userId ''mod_ai_provider_selected'' [(''provider'', Str provider)]
                  (set_org orgId (\<lambda>o'. o'\<lparr>o_modAiProvider := provider\<rparr>) w)))"

definition saveCloudflareSettings :: "orgEnv \<Rightarrow> string \<Rightarrow> id \<Rightarrow> id \<Rightarrow> string \<Rightarrow> world \<Rightarrow> unit res \<times> world" where
  "saveCloudflareSettings C iv orgId userId apiToken w =
     (let token = trim apiToken in
      if token = [] then (Inl (ConflictException ''Cloudflare API token is required''), w)
      else (case findUnique o_id orgId (orgs w) of
              None \<Rightarrow> (Inl (NotFoundException ''Organization not found''), w)
            | Some existing \<Rightarrow>
                (Inr (), audit_org orgId userId ''cloudflare_settings_updated'' [(''tokenReplaced'', Bool (\<not> missing (o_cloudflareApiTokenEncrypted existing)))]
                   (set_org orgId (\<lambda>o'. o'\<lparr>o_cloudflareApiTokenEncrypted := Some (encryptIntegrationSecret C iv token)\<rparr>) w))))"

definition clearCloudflareSettings :: "id \<Rightarrow> id \<Rightarrow> world \<Rightarrow> unit res \<times> world" where
  "clearCloudflareSettings orgId userId w =
     clear_org orgId (\<lambda>o'. o'\<lparr>o_cloudflareApiTokenEncrypted := None\<rparr>) (audit_org orgId userId ''cloudflare_settings_cleared'' []) w"

definition saveDigitalOceanSettings :: "orgEnv \<Rightarrow> string \<Rightarrow> id \<Rightarrow> id \<Rightarrow> string \<Rightarrow> world \<Rightarrow> unit res \<times> world" where
  "saveDigitalOceanSettings C iv orgId userId apiToken w =
     (let token = trim apiToken in
      if token = [] then (Inl (ConflictException ''DigitalOcean API token is required''), w)
      else (case findUnique o_id orgId (orgs w) of
              None \<Rightarrow> (Inl (NotFoundException ''Organization not found''), w)
            | Some existing \<Rightarrow>
                (Inr (), audit_org orgId userId ''digitalocean_settings_updated'' [(''tokenReplaced'', Bool (\<not> missing (o_digitalOceanApiTokenEncrypted existing)))]
                   (set_org orgId (\<lambda>o'. o'\<lparr>o_digitalOceanApiTokenEncrypted := Some (encryptIntegrationSecret C iv token)\<rparr>) w))))"

definition clearDigitalOceanSettings :: "id \<Rightarrow> id \<Rightarrow> world \<Rightarrow> unit res \<times> world" where
  "clearDigitalOceanSettings orgId userId w =
     clear_org orgId (\<lambda>o'. o'\<lparr>o_digitalOceanApiTokenEncrypted := None\<rparr>) (audit_org orgId userId ''digitalocean_settings_cleared'' []) w"

definition mail_domain :: "string \<Rightarrow> bool" where
  \<comment> \<open>\<open>/^[a-z0-9.-]+\.[a-z]{2,}$/i\<close>: letters after the last dot\<close>
  "mail_domain d =
     (let top = rev (takeWhile (\<lambda>c. c \<noteq> CHR ''.'') (rev d)); rest = dropWhile (\<lambda>c. c \<noteq> CHR ''.'') (rev d)
      in 2 \<le> length top \<and> list_all is_alpha top \<and> 2 \<le> length rest \<and>
         list_all (\<lambda>c. is_alnum c \<or> c = CHR ''.'' \<or> c = CHR ''-'') rest)"

definition saveMailgunSettings :: "orgEnv \<Rightarrow> string \<Rightarrow> id \<Rightarrow> id \<Rightarrow> string option \<Rightarrow> string \<Rightarrow> string \<Rightarrow> string \<Rightarrow> world \<Rightarrow> (string \<times> string) res \<times> world" where
  "saveMailgunSettings C iv orgId userId apiKey domainRaw fromRaw region w =
     (case findUnique o_id orgId (orgs w) of
        None \<Rightarrow> (Inl (NotFoundException ''Organization not found''), w)
      | Some existing \<Rightarrow>
          let domain = toLowerCase (trim domainRaw); fromEmail = toLowerCase (trim fromRaw) in
          if missing apiKey \<and> missing (o_mailgunApiKeyEncrypted existing) then (Inl (ConflictException ''Mailgun API key is required''), w)
          else if \<not> mail_domain domain then (Inl (ConflictException ''Enter a valid Mailgun sending domain''), w)
          else (Inr (domain, fromEmail),
                audit_org orgId userId ''mailgun_settings_updated''
                  [(''domain'', Str domain), (''fromEmail'', Str fromEmail), (''region'', Str region), (''keyReplaced'', Bool (\<not> missing apiKey))]
                  (set_org orgId (\<lambda>o'. o'\<lparr>o_mailgunDomain := Some domain, o_mailgunFromEmail := Some fromEmail, o_mailgunRegion := region,
                     o_mailgunApiKeyEncrypted := ai_key C iv apiKey (o_mailgunApiKeyEncrypted o')\<rparr>) w)))"

definition clearMailgunSettings :: "id \<Rightarrow> id \<Rightarrow> world \<Rightarrow> unit res \<times> world" where
  "clearMailgunSettings orgId userId w =
     clear_org orgId (\<lambda>o'. o'\<lparr>o_mailgunApiKeyEncrypted := None, o_mailgunDomain := None, o_mailgunFromEmail := None\<rparr>)
       (audit_org orgId userId ''mailgun_settings_cleared'' []) w"

definition publicStripeWebhookUrl :: "orgEnv \<Rightarrow> string" where
  "publicStripeWebhookUrl C = drop_slash (opt_or (oc_publicWebUrl C) []) @ ''/api/donations/stripe/webhook''"

definition stripe_input :: "(js \<Rightarrow> string option) \<Rightarrow> string option \<Rightarrow> string option" where
  \<comment> \<open>a blank text counts as absent\<close>
  "stripe_input parse raw = (if trim (opt_or raw []) = [] then None else parse (Str (opt_or raw [])))"

definition saveStripeSettings :: "orgEnv \<Rightarrow> string \<Rightarrow> string \<Rightarrow> id \<Rightarrow> id \<Rightarrow> string option \<Rightarrow> string option \<Rightarrow> world \<Rightarrow> (bool \<times> string) res \<times> world" where
  \<comment> \<open>the nonces of the two secrets; the result is \<open>webhookConfigured\<close> and \<open>webhookUrl\<close>\<close>
  "saveStripeSettings C iv iv2 orgId userId secretRaw webhookRaw w =
     (case findUnique o_id orgId (orgs w) of
        None \<Rightarrow> (Inl (NotFoundException ''Organization not found''), w)
      | Some existing \<Rightarrow>
          let secretKey = stripe_input parseStripeSecretKey secretRaw; webhookSecret = stripe_input parseStripeWebhookSecret webhookRaw in
          if trim (opt_or secretRaw []) \<noteq> [] \<and> secretKey = None then (Inl (ConflictException ''Enter a valid Stripe secret key (sk_test_ or sk_live_)''), w)
          else if trim (opt_or webhookRaw []) \<noteq> [] \<and> webhookSecret = None
          then (Inl (ConflictException ''Enter a valid Stripe webhook signing secret (whsec_)''), w)
          else if secretKey = None \<and> webhookSecret = None then (Inl (ConflictException ''Enter a Stripe secret key or webhook signing secret''), w)
          else if secretKey = None \<and> missing (o_stripeSecretKeyEncrypted existing) then (Inl (ConflictException ''Stripe secret key is required''), w)
          else (Inr (webhookSecret \<noteq> None \<or> \<not> missing (o_stripeWebhookSecretEncrypted existing), publicStripeWebhookUrl C),
                audit_org orgId userId ''stripe_settings_updated''
                  [(''secretKeyReplaced'', Bool (secretKey \<noteq> None)), (''webhookSecretReplaced'', Bool (webhookSecret \<noteq> None))]
                  (set_org orgId (\<lambda>o'. o'\<lparr>
                     o_stripeSecretKeyEncrypted := (case secretKey of None \<Rightarrow> o_stripeSecretKeyEncrypted o' | Some s \<Rightarrow> Some (encryptIntegrationSecret C iv s)),
                     o_stripeWebhookSecretEncrypted := (case webhookSecret of None \<Rightarrow> o_stripeWebhookSecretEncrypted o' | Some s \<Rightarrow> Some (encryptIntegrationSecret C iv2 s))\<rparr>) w)))"

definition clearStripeSettings :: "id \<Rightarrow> id \<Rightarrow> world \<Rightarrow> unit res \<times> world" where
  "clearStripeSettings orgId userId w =
     clear_org orgId (\<lambda>o'. o'\<lparr>o_stripeSecretKeyEncrypted := None, o_stripeWebhookSecretEncrypted := None\<rparr>)
       (audit_org orgId userId ''stripe_settings_cleared'' []) w"

definition normalizeMaintenancePassword :: "string \<Rightarrow> string res" where
  "normalizeMaintenancePassword password =
     (let value = trim password in
      if length value < 4 \<or> length value > 32 then Inl (BadRequestException ''Maintenance password must be 4 to 32 characters'')
      else if \<not> list_all (\<lambda>c. 33 \<le> code c \<and> code c \<le> 126) value \<or> list_ex (\<lambda>c. c \<in> set ''<>&'' \<or> code c = 34 \<or> code c = 39) value
      then Inl (BadRequestException (''Maintenance password cannot contain spaces or XML characters < > & '' @ [CHR 0x22, CHR '' '', CHR 0x27]))
      else Inr value)"

definition saveMaintenancePassword :: "orgEnv \<Rightarrow> string \<Rightarrow> id \<Rightarrow> id \<Rightarrow> string \<Rightarrow> world \<Rightarrow> unit res \<times> world" where
  "saveMaintenancePassword C iv orgId userId password w =
     (case normalizeMaintenancePassword password of
        Inl e \<Rightarrow> (Inl e, w)
      | Inr value \<Rightarrow>
          clear_org orgId (\<lambda>o'. o'\<lparr>o_maintenancePasswordEncrypted := Some (encryptIntegrationSecret C iv value)\<rparr>)
            (audit_org orgId userId ''maintenance_password_updated'' []) w)"

definition clearMaintenancePassword :: "id \<Rightarrow> id \<Rightarrow> world \<Rightarrow> unit res \<times> world" where
  "clearMaintenancePassword orgId userId w =
     clear_org orgId (\<lambda>o'. o'\<lparr>o_maintenancePasswordEncrypted := None\<rparr>) (audit_org orgId userId ''maintenance_password_cleared'' []) w"

record orgUpdates =
  ou_discordWebhookUrl :: "string option"
  ou_stabilityRestartEnabled :: "bool option"
  ou_stabilityRestartMemoryGiB :: "int option"
  ou_stabilityRestartCooldownMinutes :: "int option"

definition updated_org :: "orgUpdates \<Rightarrow> org \<Rightarrow> org" where
  "updated_org u o' =
     o'\<lparr>o_discordWebhookUrl := (case ou_discordWebhookUrl u of None \<Rightarrow> o_discordWebhookUrl o' | Some url \<Rightarrow> or_null url),
        o_stabilityRestartEnabled := opt_or (ou_stabilityRestartEnabled u) (o_stabilityRestartEnabled o'),
        o_stabilityRestartMemoryGiB := opt_or (ou_stabilityRestartMemoryGiB u) (o_stabilityRestartMemoryGiB o'),
        o_stabilityRestartCooldownMinutes := opt_or (ou_stabilityRestartCooldownMinutes u) (o_stabilityRestartCooldownMinutes o')\<rparr>"

definition updateOrg :: "id \<Rightarrow> id \<Rightarrow> orgUpdates \<Rightarrow> world \<Rightarrow> unit res \<times> world" where
  "updateOrg orgId userId u w =
     (case role_in userId orgId w of
        None \<Rightarrow> (Inl (ForbiddenException ''Not a member of this org''), w)
      | Some role \<Rightarrow>
          if (ou_stabilityRestartEnabled u \<noteq> None \<or> ou_stabilityRestartMemoryGiB u \<noteq> None \<or> ou_stabilityRestartCooldownMinutes u \<noteq> None) \<and> role \<noteq> ''admin''
          then (Inl (ForbiddenException ''Only organization administrators may change restart protection''), w)
          else clear_org orgId (updated_org u) id w)"

section \<open>Views\<close>

definition org_fields :: "orgEnv \<Rightarrow> org \<Rightarrow> world \<Rightarrow> obj" where
  \<comment> \<open>what both views show; \<open>updatedAt\<close>, which the database itself keeps, is left out\<close>
  "org_fields C o' w =
     [(''id'', Str (o_id o')), (''name'', Str (o_name o')), (''slug'', Str (o_slug o')),
      (''discordWebhookConfigured'', Bool (\<not> missing (o_discordWebhookUrl o'))),
      (''stabilityRestartEnabled'', Bool (o_stabilityRestartEnabled o')), (''stabilityRestartMemoryGiB'', JInt (o_stabilityRestartMemoryGiB o')),
      (''stabilityRestartCooldownMinutes'', JInt (o_stabilityRestartCooldownMinutes o')),
      (''openaiConfigured'', Bool (\<not> missing (o_openaiApiKeyEncrypted o'))), (''openaiModel'', Str (o_openaiModel o')),
      (''modAiProvider'', Str (o_modAiProvider o')), (''kimiConfigured'', Bool (\<not> missing (o_kimiApiKeyEncrypted o'))), (''kimiModel'', Str (o_kimiModel o')),
      (''cloudflareConfigured'', Bool (\<not> missing (o_cloudflareApiTokenEncrypted o'))),
      (''digitalOceanConfigured'', Bool (\<not> missing (o_digitalOceanApiTokenEncrypted o'))),
      (''mailgunConfigured'', Bool (\<not> missing (o_mailgunApiKeyEncrypted o') \<and> \<not> missing (o_mailgunDomain o') \<and> \<not> missing (o_mailgunFromEmail o'))),
      (''mailgunDomain'', js_null (o_mailgunDomain o')), (''mailgunFromEmail'', js_null (o_mailgunFromEmail o')), (''mailgunRegion'', Str (o_mailgunRegion o')),
      (''stripeConfigured'', Bool (\<not> missing (o_stripeSecretKeyEncrypted o'))),
      (''stripeWebhookConfigured'', Bool (\<not> missing (o_stripeWebhookSecretEncrypted o'))), (''stripeWebhookUrl'', Str (publicStripeWebhookUrl C)),
      (''maintenancePasswordConfigured'', Bool (\<not> missing (o_maintenancePasswordEncrypted o'))), (''createdAt'', JInt (o_createdAt o')),
      (''memberCount'', JInt (countRows (\<lambda>m. uo_orgId m = o_id o') (userOrgs w))), (''hostCount'', JInt (countRows (\<lambda>h. h_orgId h = o_id o') (hosts w))),
      (''serverInstanceCount'', JInt (countRows (\<lambda>s. si_orgId s = o_id o') (serverInstances w)))]"

definition getOrg :: "orgEnv \<Rightarrow> id \<Rightarrow> id \<Rightarrow> world \<Rightarrow> obj res" where
  "getOrg C orgId userId w =
     (case (role_in userId orgId w, findUnique o_id orgId (orgs w)) of
        (Some role, Some o') \<Rightarrow>
          Inr ((''discordWebhookUrl'', if role = ''admin'' then js_null (o_discordWebhookUrl o') else Undefined) # org_fields C o' w @ [(''userRole'', Str role)])
      | _ \<Rightarrow> Inl (ForbiddenException ''Not a member of this org''))"

definition getUserOrgs :: "orgEnv \<Rightarrow> id \<Rightarrow> world \<Rightarrow> obj list" where
  "getUserOrgs C userId w =
     List.map_filter (\<lambda>m. map_option (\<lambda>o'. org_fields C o' w @ [(''role'', Str (uo_role m))]) (findUnique o_id (uo_orgId m) (orgs w)))
       (orderAsc uo_createdAt (filter (\<lambda>m. uo_userId m = userId) (userOrgs w)))"

definition steam_names :: "id \<Rightarrow> world \<Rightarrow> (string \<times> string) list" where
  \<comment> \<open>\<open>steamByName\<close>: a later player of the same name replaces an earlier one\<close>
  "steam_names orgId w =
     foldl (\<lambda>m p. map_put (toLowerCase (trim (p_name p))) (opt_or (p_steamId p) []) m) []
       (filter (\<lambda>p. p_orgId p = orgId \<and> \<not> missing (p_steamId p)) (players w))"

definition account_row :: "(string \<times> string) list \<Rightarrow> user \<Rightarrow> string \<Rightarrow> obj" where
  "account_row steamByName u role =
     (let key = toLowerCase (trim (opt_or (u_name u) [])); steam = (if missing (u_name u) then None else map_of steamByName key) in
      [(''id'', Str (u_id u)), (''email'', Str (u_email u)), (''name'', js_null (u_name u)), (''role'', Str role), (''createdAt'', JInt (u_createdAt u)),
       (''approvedAt'', case u_approvedAt u of None \<Rightarrow> Null | Some t \<Rightarrow> JInt t), (''emailVerifiedAt'', case u_emailVerifiedAt u of None \<Rightarrow> Null | Some t \<Rightarrow> JInt t),
       (''signInEnabled'', Bool (\<not> missing (u_passwordHash u))), (''steamLinked'', Bool (steam \<noteq> None)),
       (''steamIdLast4'', js_null (or_null (last4 (opt_or steam []))))])"

definition members_of :: "id \<Rightarrow> world \<Rightarrow> (user \<times> string) list" where
  "members_of orgId w =
     List.map_filter (\<lambda>m. map_option (\<lambda>u. (u, uo_role m)) (findUnique u_id (uo_userId m) (users w)))
       (orderAsc uo_createdAt (filter (\<lambda>m. uo_orgId m = orgId) (userOrgs w)))"

definition getAccounts :: "id \<Rightarrow> world \<Rightarrow> obj list" where
  "getAccounts orgId w = map (\<lambda>(u, role). account_row (steam_names orgId w) u role) (members_of orgId w)"

definition security_row :: "(string \<Rightarrow> string) \<Rightarrow> ms \<Rightarrow> world \<Rightarrow> user \<Rightarrow> string \<Rightarrow> obj" where
  "security_row hmac now w u role =
     (let state = getAccountState hmac (u_email u) w in
      [(''id'', Str (u_id u)), (''email'', Str (u_email u)), (''name'', js_null (u_name u)), (''role'', Str role),
       (''failedAttempts'', JInt (ls_failures state)), (''lockoutLevel'', JInt (ls_lockoutLevel state)),
       (''blockedUntil'', case ls_blockedUntil state of None \<Rightarrow> Null | Some t \<Rightarrow> JInt t),
       (''locked'', Bool (case ls_blockedUntil state of None \<Rightarrow> False | Some t \<Rightarrow> now < t)),
       (''attemptsRemaining'', JInt (max 0 (3 - ls_failures state)))])"

definition getSecuritySettings :: "(string \<Rightarrow> string) \<Rightarrow> id \<Rightarrow> ms \<Rightarrow> world \<Rightarrow> obj res" where
  \<comment> \<open>without the constants of the policy\<close>
  "getSecuritySettings hmac orgId now w =
     (case findUnique o_id orgId (orgs w) of
        None \<Rightarrow> Inl (NotFoundException ''Organization not found'')
      | Some org \<Rightarrow>
          Inr [(''recaptchaConfigured'', Bool (\<not> missing (o_recaptchaSiteKey org) \<and> \<not> missing (o_recaptchaSecretEncrypted org))),
               (''recaptchaSiteKey'', Str (opt_or (o_recaptchaSiteKey org) [])),
               (''accounts'', Arr (map (\<lambda>(u, role). Obj (security_row hmac now w u role)) (members_of orgId w)))])"

section \<open>Saved secrets\<close>

text \<open>What the code relies on in the cipher: a sealed text opens again, with a tag, and Base64 has no colon.\<close>

definition cipher_ok :: "orgEnv \<Rightarrow> bool" where
  "cipher_ok C \<longleftrightarrow> (\<forall>iv v tag data. oc_seal C iv v = (tag, data) \<longrightarrow> CHR '':'' \<notin> set tag \<and> CHR '':'' \<notin> set data \<and>
     tag \<noteq> [] \<and> (v \<noteq> [] \<longrightarrow> data \<noteq> []) \<and> oc_open C iv tag data = Some v)"

definition nonce :: "string \<Rightarrow> bool" where
  "nonce iv \<longleftrightarrow> iv \<noteq> [] \<and> CHR '':'' \<notin> set iv"

lemma decrypt_encrypt:
  assumes "cipher_ok C" and "nonce iv" and "v \<noteq> []"
  shows "decryptIntegrationSecret C (encryptIntegrationSecret C iv v) = Some v"
proof -
  obtain tag data where s: "oc_seal C iv v = (tag, data)" by (cases "oc_seal C iv v")
  have t: "CHR '':'' \<notin> set tag" "CHR '':'' \<notin> set data" "tag \<noteq> []" "data \<noteq> []" "oc_open C iv tag data = Some v"
    using assms(1,3) s unfolding cipher_ok_def by blast+
  have "split CHR '':'' (join '':'' [''v1'', iv, tag, data]) = [''v1'', iv, tag, data]"
    using assms(2) t by (intro split_join) (auto simp: nonce_def)
  then show ?thesis using assms(2) t by (simp add: encryptIntegrationSecret_def decryptIntegrationSecret_def s part_def nonce_def)
qed

lemma set_org_found:
  assumes "findUnique o_id orgId (orgs w) = Some o'" and "\<And>r. o_id (f r) = o_id r"
  shows "findUnique o_id orgId (orgs (set_org orgId f w)) = Some (f o')"
  using assms by (simp add: set_org_def findUnique_updateRow)

lemma orgs_audit [simp]: "orgs (audit_org orgId userId a d w) = orgs w"
  by (simp add: audit_org_def audit_row_def)

lemma not_blank: "c \<in> set s \<Longrightarrow> \<not> is_ws c \<Longrightarrow> trim s \<noteq> []"
  unfolding trim_def by (simp add: dropWhile_eq_Nil_conv) (metis Un_iff set_append set_dropWhileD set_takeWhileD takeWhile_dropWhile_id)

lemma decrypt_saved:
  assumes "cipher_ok C" and "nonce iv" and "e_decrypt E = decryptIntegrationSecret C" and "v \<noteq> []" and "trim v = v"
  shows "decryptSecret E (Some (encryptIntegrationSecret C iv v)) = v"
proof -
  have "CHR ''v'' \<in> set (encryptIntegrationSecret C iv v)"
    by (cases "oc_seal C iv v") (simp add: encryptIntegrationSecret_def)
  moreover have "\<not> is_ws (CHR ''v'')" by code_simp
  ultimately have "trim (encryptIntegrationSecret C iv v) \<noteq> []" using not_blank by metis
  then show ?thesis using assms decrypt_encrypt [OF assms(1,2,4)] by (simp add: decryptSecret_def)
qed

lemma stripe_parse_trim:
  "parseStripeSecretKey (Str s) = Some v \<Longrightarrow> v = trim s" "parseStripeWebhookSecret (Str s) = Some v \<Longrightarrow> v = trim s"
  by (auto simp: parseStripeSecretKey_def parseStripeWebhookSecret_def Let_def split: if_splits)

text \<open>Saved Stripe keys are the ones that are used. When an administrator saved a secret key and a webhook secret,
  checkouts of the organization use exactly these, without the blanks around them, whatever was stored before
  and whatever the environment configures.\<close>

lemma saved_stripe_keys_used:
  assumes "cipher_ok C" and "nonce iv" and "nonce iv2" and E: "e_decrypt E = decryptIntegrationSecret C"
    and save: "saveStripeSettings C iv iv2 orgId userId (Some k) (Some h) w = (Inr r, w')" and "trim k \<noteq> []" and "trim h \<noteq> []"
  shows "stripeCredentialsForOrg E S orgId w' = Some (trim k, trim h)"
proof -
  obtain o' a b where o': "findUnique o_id orgId (orgs w) = Some o'" "parseStripeSecretKey (Str k) = Some a" "parseStripeWebhookSecret (Str h) = Some b"
    using save assms(6,7) by (auto simp: saveStripeSettings_def stripe_input_def opt_or_def Let_def split: option.splits if_splits)
  let ?f = "\<lambda>o'. o'\<lparr>o_stripeSecretKeyEncrypted := Some (encryptIntegrationSecret C iv a), o_stripeWebhookSecretEncrypted := Some (encryptIntegrationSecret C iv2 b)\<rparr>"
  note ab = stripe_parse_trim(1) [OF o'(2)] stripe_parse_trim(2) [OF o'(3)]
  have "orgs w' = orgs (set_org orgId ?f w)"
    using save assms(6,7) o' by (auto simp: saveStripeSettings_def stripe_input_def opt_or_def Let_def split: if_splits)
  then have "findUnique o_id orgId (orgs w') = Some (?f o')" using set_org_found [OF o'(1), of ?f] by simp
  moreover have "decryptSecret E (Some (encryptIntegrationSecret C iv a)) = a" "decryptSecret E (Some (encryptIntegrationSecret C iv2 b)) = b"
    using assms(6,7) ab by (simp_all add: decrypt_saved [OF assms(1,2) E] decrypt_saved [OF assms(1,3) E] trim_idem)
  ultimately show ?thesis using ab assms(6,7) by (simp add: stripeCredentialsForOrg_def or_str_def)
qed

text \<open>The same for the password that a server in maintenance asks for.\<close>

lemma saved_maintenance_password_used:
  assumes "cipher_ok C" and "nonce iv" and "e_decrypt E = decryptIntegrationSecret C"
    and save: "saveMaintenancePassword C iv orgId userId pw w = (Inr (), w')" and on: "get (opt_or payload []) ''enabled'' = Bool True"
  shows "\<exists>p w2. maintenance_payload E ''SERVER_MAINTENANCE'' orgId si payload w' = Inr (Some p, w2) \<and> get p ''password'' = Str (trim pw)"
proof -
  obtain o' where o': "findUnique o_id orgId (orgs w) = Some o'" "normalizeMaintenancePassword pw = Inr (trim pw)"
    using save by (auto simp: saveMaintenancePassword_def clear_org_def normalizeMaintenancePassword_def Let_def split: sum.splits option.splits if_splits)
  then have pw: "trim pw \<noteq> []" by (auto simp: normalizeMaintenancePassword_def Let_def split: if_splits)
  let ?f = "\<lambda>o'. o'\<lparr>o_maintenancePasswordEncrypted := Some (encryptIntegrationSecret C iv (trim pw))\<rparr>"
  have "orgs w' = orgs (set_org orgId ?f w)"
    using save o' by (auto simp: saveMaintenancePassword_def clear_org_def split: sum.splits)
  then have f: "findUnique o_id orgId (orgs w') = Some (?f o')" using set_org_found [OF o'(1), of ?f] by simp
  moreover have "encryptIntegrationSecret C iv (trim pw) \<noteq> []" by (simp add: encryptIntegrationSecret_def split: prod.split)
  ultimately show ?thesis using decrypt_encrypt [OF assms(1,2) pw] on assms(3)
    by (simp add: maintenance_payload_def get_put)
qed

section \<open>What views show\<close>

text \<open>Two rows of an organization that differ in stored secrets only, and, for a viewer who is no administrator, in
  the address of the webhook.\<close>

definition alike :: "bool \<Rightarrow> org \<Rightarrow> org \<Rightarrow> bool" where
  "alike admin a b \<longleftrightarrow>
     a = b\<lparr>o_discordWebhookUrl := o_discordWebhookUrl a, o_mailgunApiKeyEncrypted := o_mailgunApiKeyEncrypted a,
          o_recaptchaSecretEncrypted := o_recaptchaSecretEncrypted a, o_stripeSecretKeyEncrypted := o_stripeSecretKeyEncrypted a,
          o_stripeWebhookSecretEncrypted := o_stripeWebhookSecretEncrypted a, o_maintenancePasswordEncrypted := o_maintenancePasswordEncrypted a,
          o_openaiApiKeyEncrypted := o_openaiApiKeyEncrypted a, o_kimiApiKeyEncrypted := o_kimiApiKeyEncrypted a,
          o_cloudflareApiTokenEncrypted := o_cloudflareApiTokenEncrypted a, o_digitalOceanApiTokenEncrypted := o_digitalOceanApiTokenEncrypted a\<rparr> \<and>
     list_all (\<lambda>f. missing (f a) = missing (f b)) [o_discordWebhookUrl, o_mailgunApiKeyEncrypted, o_recaptchaSecretEncrypted,
       o_stripeSecretKeyEncrypted, o_stripeWebhookSecretEncrypted, o_maintenancePasswordEncrypted, o_openaiApiKeyEncrypted,
       o_kimiApiKeyEncrypted, o_cloudflareApiTokenEncrypted, o_digitalOceanApiTokenEncrypted] \<and>
     (admin \<longrightarrow> o_discordWebhookUrl a = o_discordWebhookUrl b)"

lemma alike_fields:
  assumes "alike admin a b"
  shows "org_fields C a w = org_fields C b w" and "o_id a = o_id b" and "admin \<Longrightarrow> o_discordWebhookUrl a = o_discordWebhookUrl b"
proof -
  show "org_fields C a w = org_fields C b w"
    using assms by (cases a; cases b) (simp add: alike_def org_fields_def)
  show "o_id a = o_id b" using assms by (cases a; cases b) (simp add: alike_def)
qed (use assms in \<open>simp add: alike_def\<close>)

lemma alike_find:
  "list_all2 (alike admin) as bs \<Longrightarrow> rel_option (alike admin) (findUnique o_id k as) (findUnique o_id k bs)"
  by (induction rule: list_all2_induct) (auto simp: findUnique_Cons alike_fields(2))

text \<open>C32: views of an organization give no secret away. What a member sees of an organization, and of all their
  organizations, is the same for any two states that differ only in stored keys, tokens and passwords
  (as long as the same ones are set); for a member who is no administrator also when the address of
  the Discord webhook differs.\<close>

theorem org_views_hide_secrets:
  assumes "list_all2 (alike (role_in userId orgId w = Some ''admin'')) (orgs w) os"
  shows "getOrg C orgId userId (w\<lparr>orgs := os\<rparr>) = getOrg C orgId userId w \<and> getUserOrgs C userId (w\<lparr>orgs := os\<rparr>) = getUserOrgs C userId w"
proof -
  let ?A = "role_in userId orgId w = Some ''admin''"
  have fields: "org_fields C o' (w\<lparr>orgs := os\<rparr>) = org_fields C o' w" for o' by (simp add: org_fields_def)
  have role: "role_in userId orgId (w\<lparr>orgs := os\<rparr>) = role_in userId orgId w" by (simp add: role_in_def find_member_def)
  note r = alike_find [OF assms]
  have one: "map_option (\<lambda>o'. org_fields C o' w @ [(''role'', Str (uo_role m))]) (findUnique o_id (uo_orgId m) os) =
      map_option (\<lambda>o'. org_fields C o' w @ [(''role'', Str (uo_role m))]) (findUnique o_id (uo_orgId m) (orgs w))" for m
    using r [of "uo_orgId m"] by (cases rule: option.rel_cases) (simp_all add: alike_fields(1))
  have "getOrg C orgId userId (w\<lparr>orgs := os\<rparr>) = getOrg C orgId userId w"
    using r [of orgId] by (cases rule: option.rel_cases) (auto simp: getOrg_def fields role alike_fields(1,3) split: option.split)
  then show ?thesis by (simp add: getUserOrgs_def fields one)
qed

section \<open>Examples\<close>

text \<open>A cipher that only spells out the text, two letters for a character.\<close>

definition letter :: "nat \<Rightarrow> char" where
  "letter n = char_of (97 + n)"

definition spell :: "string \<Rightarrow> string" where
  "spell v = concat (map (\<lambda>c. [letter (code c div 16), letter (code c mod 16)]) v)"

fun unspell :: "string \<Rightarrow> string" where
  "unspell (a # b # s) = char_of ((code a - 97) * 16 + (code b - 97)) # unspell s"
| "unspell _ = []"

lemma letter_code: "n < 16 \<Longrightarrow> code (letter n) = 97 + n"
  by (simp add: letter_def code_char_of)

lemma spell_ok: "unspell (spell v) = v \<and> CHR '':'' \<notin> set (spell v) \<and> (v \<noteq> [] \<longrightarrow> spell v \<noteq> [])"
proof (induction v)
  case (Cons c v)
  have "code c < 256" by (simp add: code_def)
  then have n: "code c div 16 < 16" "code c mod 16 < 16" by auto
  have colon: "code (CHR '':'') = 58" by code_simp
  have "CHR '':'' \<noteq> letter k" if "k < 16" for k using letter_code [OF that] colon by auto
  moreover have "char_of (code c div 16 * 16 + code c mod 16) = c" by (simp add: code_def)
  ultimately show ?case using Cons.IH n by (auto simp: spell_def letter_code)
qed (simp add: spell_def)

definition sample_cipher :: orgEnv where
  "sample_cipher = \<lparr>oc_seal = (\<lambda>iv v. (''t'', spell v)), oc_open = (\<lambda>iv tag data. Some (unspell data)), oc_publicWebUrl = None\<rparr>"

lemma sample_cipher_ok: "cipher_ok sample_cipher"
  using spell_ok by (simp add: cipher_ok_def sample_cipher_def)

definition sample_seat :: world where
  "sample_seat = (empty_world nat_str)\<lparr>orgs := [new_org ''o'' ''O'' ''o'' 0],
     userOrgs := [\<lparr>uo_userId = ''u'', uo_orgId = ''o'', uo_role = ''operator'', uo_createdAt = 0\<rparr>]\<rparr>"

theorem org_views_hide_secrets_witness:
  "getOrg sample_cipher ''o'' ''u'' (sample_seat\<lparr>orgs := [(new_org ''o'' ''O'' ''o'' 0)\<lparr>o_kimiApiKeyEncrypted := Some ''v1:2''\<rparr>]\<rparr>) =
   getOrg sample_cipher ''o'' ''u'' (sample_seat\<lparr>orgs := [(new_org ''o'' ''O'' ''o'' 0)\<lparr>o_kimiApiKeyEncrypted := Some ''v1:1''\<rparr>]\<rparr>)"
proof -
  let ?w = "sample_seat\<lparr>orgs := [(new_org ''o'' ''O'' ''o'' 0)\<lparr>o_kimiApiKeyEncrypted := Some ''v1:1''\<rparr>]\<rparr>"
  let ?os = "[(new_org ''o'' ''O'' ''o'' 0)\<lparr>o_kimiApiKeyEncrypted := Some ''v1:2''\<rparr>]"
  have "list_all2 (alike (role_in ''u'' ''o'' ?w = Some ''admin'')) (orgs ?w) ?os"
    by (simp add: alike_def new_org_def missing_def opt_or_def role_in_def find_member_def sample_seat_def)
  from org_views_hide_secrets [OF this, of sample_cipher] show ?thesis by simp
qed

end
