(* ===== verification/Cron.thy ===== *)
theory Cron
  imports JS_Base
begin

text \<open>
  Schedules: control-plane/src/scheduler/cron-next.ts. The JavaScript \<open>Date\<close> accessors the
  code calls work in local time; the zone of the process is the parameter \<open>tz\<close>, a fixed
  offset from UTC in minutes (zones with daylight saving shifts are outside the model).
  The search loop runs at most \<open>maxIter\<close> = 366 * 24 * 60 times, as recursion on the
  number of iterations left.

  Shown: the run the search returns is strictly after the given time, matches all five
  fields, is the earliest matching minute, and is found whenever one exists within 366
  days; the execution window keeps its result inside a same-day window and never skips an
  admissible minute.
\<close>

section \<open>Dates\<close>

definition ms_min :: int where "ms_min = 60000"
definition ms_day :: int where "ms_day = 86400000"

definition local_ms :: "int \<Rightarrow> ms \<Rightarrow> int" where
  "local_ms tz t = t + tz * ms_min"

definition local_day :: "int \<Rightarrow> ms \<Rightarrow> int" where
  "local_day tz t = local_ms tz t div ms_day"

definition minute_of_day :: "int \<Rightarrow> ms \<Rightarrow> int" where
  "minute_of_day tz t = local_ms tz t mod ms_day div ms_min"

definition getHours :: "int \<Rightarrow> ms \<Rightarrow> int" where
  "getHours tz t = minute_of_day tz t div 60"

definition getMinutes :: "int \<Rightarrow> ms \<Rightarrow> int" where
  "getMinutes tz t = minute_of_day tz t mod 60"

definition getDay :: "int \<Rightarrow> ms \<Rightarrow> int" where
  "getDay tz t = (local_day tz t + 4) mod 7"

text \<open>The proleptic Gregorian calendar: day of the era, year of the era, day of the year
  counted from 1 March.\<close>

definition day_of_era :: "int \<Rightarrow> int" where
  "day_of_era days = (days + 719468) mod 146097"

definition year_of_era :: "int \<Rightarrow> int" where
  "year_of_era doe = (doe - doe div 1460 + doe div 36524 - doe div 146096) div 365"

definition day_of_year :: "int \<Rightarrow> int" where
  "day_of_year doe = (let yoe = year_of_era doe in doe - (365 * yoe + yoe div 4 - yoe div 100))"

definition month_index :: "int \<Rightarrow> int" where
  "month_index doy = (5 * doy + 2) div 153"

definition getDate :: "int \<Rightarrow> ms \<Rightarrow> int" where
  "getDate tz t =
     (let doy = day_of_year (day_of_era (local_day tz t)) in doy - (153 * month_index doy + 2) div 5 + 1)"

definition getMonth :: "int \<Rightarrow> ms \<Rightarrow> int" where
  \<comment> \<open>0 is January, as in JavaScript\<close>
  "getMonth tz t =
     (let mp = month_index (day_of_year (day_of_era (local_day tz t))) in (mp + 2) mod 12)"

section \<open>Parsing the five fields\<close>

function words :: "string \<Rightarrow> string list" where
  "words [] = [[]]"
| "words (c # s) =
     (if is_ws c then [] # words (dropWhile is_ws s)
      else (case words s of [] \<Rightarrow> [[c]] | p # ps \<Rightarrow> (c # p) # ps))"
  by pat_completeness auto
termination
  by (relation "measure length") (auto simp: length_dropWhile_le less_Suc_eq_le)

definition step_field :: "string \<Rightarrow> nat option" where
  \<comment> \<open>the regular expression for an asterisk, a slash and digits\<close>
  "step_field s =
     (if startsWith s [CHR ''*'', CHR ''/''] \<and> drop 2 s \<noteq> [] \<and> list_all is_digit (drop 2 s)
      then Some (radix_val 10 (drop 2 s)) else None)"

function step_values :: "int \<Rightarrow> int \<Rightarrow> int \<Rightarrow> int list" where
  "step_values v mx amount =
     (if v \<le> mx \<and> 0 < amount then v # step_values (v + amount) mx amount else [])"
  by pat_completeness auto
termination
  by (relation "measure (\<lambda>(v, mx, amount). nat (mx + 1 - v))") auto

declare step_values.simps [simp del]

definition invalid_field :: "string \<Rightarrow> exn" where
  "invalid_field str = Error (''Invalid cron field: '' @ str)"

fun parseParts :: "string \<Rightarrow> int \<Rightarrow> int \<Rightarrow> string list \<Rightarrow> int list \<Rightarrow> int list res" where
  "parseParts str mn mx [] acc = Inr acc"
| "parseParts str mn mx (s # ss) acc =
     (case step_field s of
        Some amount \<Rightarrow>
          if int amount < 1 \<or> int amount > mx - mn + 1 then Inl (invalid_field str)
          else parseParts str mn mx ss (acc @ step_values mn mx (int amount))
      | None \<Rightarrow>
          (case parseInt10 (trim s) of
             None \<Rightarrow> Inl (invalid_field str)
           | Some n \<Rightarrow>
               if n < mn \<or> n > mx then Inl (invalid_field str)
               else parseParts str mn mx ss (acc @ [n])))"

definition parseSet :: "string \<Rightarrow> int \<Rightarrow> int \<Rightarrow> int list option res" where
  "parseSet str mn mx =
     (if str = [CHR ''*''] then Inr None
      else (case parseParts str mn mx (split CHR '','' str) [] of
              Inl e \<Rightarrow> Inl e | Inr vs \<Rightarrow> Inr (Some vs)))"

record cron =
  c_minutes :: "int list option"
  c_hours :: "int list option"
  c_doms :: "int list option"
  c_months :: "int list option"
  c_dows :: "int list option"

definition parseCron :: "string \<Rightarrow> cron res" where
  "parseCron cronExpression =
     (case words (trim cronExpression) of
        [minF, hourF, domF, monthF, dowF] \<Rightarrow>
          (case parseSet minF 0 59 of Inl e \<Rightarrow> Inl e | Inr minutes \<Rightarrow>
          (case parseSet hourF 0 23 of Inl e \<Rightarrow> Inl e | Inr hours \<Rightarrow>
          (case parseSet domF 1 31 of Inl e \<Rightarrow> Inl e | Inr doms \<Rightarrow>
          (case parseSet monthF 1 12 of Inl e \<Rightarrow> Inl e | Inr months \<Rightarrow>
          (case parseSet dowF 0 6 of Inl e \<Rightarrow> Inl e | Inr dows \<Rightarrow>
             Inr \<lparr>c_minutes = minutes, c_hours = hours, c_doms = doms,
                   c_months = months, c_dows = dows\<rparr>)))))
      | _ \<Rightarrow> Inl (Error ''Invalid cron: expected 5 fields''))"

section \<open>The search\<close>

definition field_ok :: "int list option \<Rightarrow> int \<Rightarrow> bool" where
  "field_ok f v = (case f of None \<Rightarrow> True | Some vs \<Rightarrow> v \<in> set vs)"

definition cron_matches :: "int \<Rightarrow> cron \<Rightarrow> ms \<Rightarrow> bool" where
  "cron_matches tz c t \<longleftrightarrow>
     field_ok (c_months c) (getMonth tz t + 1) \<and> field_ok (c_doms c) (getDate tz t) \<and>
     field_ok (c_dows c) (getDay tz t) \<and> field_ok (c_hours c) (getHours tz t) \<and>
     field_ok (c_minutes c) (getMinutes tz t)"

definition advanceToNextMinute :: "ms \<Rightarrow> ms" where
  "advanceToNextMinute t = t + 60 * 1000"

definition maxIter :: nat where
  "maxIter = 366 * 24 * 60"

fun cron_search :: "int \<Rightarrow> cron \<Rightarrow> nat \<Rightarrow> ms \<Rightarrow> ms option" where
  "cron_search tz c 0 t = None"
| "cron_search tz c (Suc i) t =
     (if cron_matches tz c t then Some t else cron_search tz c i (advanceToNextMinute t))"

text \<open>\<open>setSeconds(0, 0)\<close> and \<open>setMinutes(getMinutes() + 1)\<close>.\<close>

definition first_candidate :: "ms \<Rightarrow> ms" where
  "first_candidate t = t - t mod ms_min + ms_min"

definition getNextCronRun :: "int \<Rightarrow> string \<Rightarrow> ms \<Rightarrow> ms res" where
  "getNextCronRun tz cronExpression start =
     (case parseCron cronExpression of
        Inl e \<Rightarrow> Inl e
      | Inr c \<Rightarrow>
          (case cron_search tz c maxIter (first_candidate start) of
             Some t \<Rightarrow> Inr t | None \<Rightarrow> Inl (Error ''No next run found'')))"

section \<open>The execution window\<close>

fun num_add :: "jsnum \<Rightarrow> jsnum \<Rightarrow> jsnum" where
  "num_add (Fin a) (Fin b) = Fin (a + b)"
| "num_add (Infinite a) (Fin b) = Infinite a"
| "num_add (Fin a) (Infinite b) = Infinite b"
| "num_add (Infinite a) (Infinite b) = (if a = b then Infinite a else NaN)"
| "num_add _ _ = NaN"

fun num_times60 :: "jsnum \<Rightarrow> jsnum" where
  "num_times60 (Fin a) = Fin (a * 60)"
| "num_times60 n = n"

fun num_le :: "jsnum \<Rightarrow> jsnum \<Rightarrow> bool" where
  "num_le (Fin a) (Fin b) = (a \<le> b)"
| "num_le (Fin a) (Infinite b) = b"
| "num_le (Infinite a) (Fin b) = (\<not> a)"
| "num_le (Infinite a) (Infinite b) = (\<not> a \<or> b)"
| "num_le _ _ = False"

text \<open>The first two parts of \<open>s.split(':').map(Number)\<close>; a missing part is undefined,
  and arithmetic on it gives NaN.\<close>

definition hh_mm :: "string \<Rightarrow> jsnum \<times> jsnum" where
  "hh_mm s = (case map toNumber (split CHR '':'' s) of
      [] \<Rightarrow> (NaN, NaN) | [h] \<Rightarrow> (h, NaN) | h # m # _ \<Rightarrow> (h, m))"

definition trunc_rat :: "rat \<Rightarrow> int" where
  "trunc_rat q = (if q < 0 then - \<lfloor>- q\<rfloor> else \<lfloor>q\<rfloor>)"

text \<open>\<open>setHours(h, m, 0, 0)\<close> on the local day; None is the invalid date.\<close>

definition setHours :: "int \<Rightarrow> ms \<Rightarrow> jsnum \<Rightarrow> jsnum \<Rightarrow> ms option" where
  "setHours tz t h m =
     (case (h, m) of
        (Fin a, Fin b) \<Rightarrow>
          Some (local_day tz t * ms_day + (trunc_rat a * 60 + trunc_rat b) * ms_min - tz * ms_min)
      | _ \<Rightarrow> None)"

definition clampToExecutionWindow ::
    "int \<Rightarrow> ms \<Rightarrow> string option \<Rightarrow> string option \<Rightarrow> ms option" where
  "clampToExecutionWindow tz date windowStart windowEnd =
     (let ws = opt_or windowStart []; we = opt_or windowEnd [] in
      if ws = [] \<or> we = [] then Some date
      else let (sH, sM) = hh_mm ws; (eH, eM) = hh_mm we;
               startMins = num_add (num_times60 sH) sM;
               endMins = num_add (num_times60 eH) eM;
               nowMins = int_num (getHours tz date * 60 + getMinutes tz date)
           in if num_le startMins endMins \<and> num_le startMins nowMins \<and> num_le nowMins endMins
              then Some date
              else if num_le startMins endMins \<and> num_le nowMins startMins \<and> nowMins \<noteq> startMins
              then setHours tz date sH sM
              else setHours tz (date + ms_day) sH sM)"

section \<open>The parsed fields\<close>

lemma set_step_values:
  "0 < amount \<Longrightarrow>
     set (step_values v mx amount) = {x. v \<le> x \<and> x \<le> mx \<and> (x - v) mod amount = 0}"
proof (induction v mx amount rule: step_values.induct)
  case (1 v mx amount)
  show ?case
  proof (cases "v \<le> mx")
    case True
    have iff: "v \<le> x \<and> x \<le> mx \<and> (x - v) mod amount = 0 \<longleftrightarrow>
        x = v \<or> (v + amount \<le> x \<and> x \<le> mx \<and> (x - (v + amount)) mod amount = 0)" for x
    proof -
      have eq: "(x - (v + amount)) mod amount = (x - v) mod amount"
        using mod_add_self2 [of "x - (v + amount)" amount] by (simp add: algebra_simps)
      have "(x - v) mod amount = 0 \<and> v < x \<Longrightarrow> v + amount \<le> x"
        using zdvd_imp_le [of amount "x - v"] by (auto simp: mod_eq_0_iff_dvd)
      with eq \<open>0 < amount\<close> True show ?thesis
        by (cases "x = v") (simp_all add: le_less, auto)
    qed
    have "{x. v \<le> x \<and> x \<le> mx \<and> (x - v) mod amount = 0} =
        insert v {x. v + amount \<le> x \<and> x \<le> mx \<and> (x - (v + amount)) mod amount = 0}"
      unfolding iff by (rule set_eqI) simp
    with 1 True show ?thesis
      by (subst step_values.simps) simp
  next
    case False
    then show ?thesis by (subst step_values.simps) auto
  qed
qed

text \<open>What one comma-separated part of a field contributes.\<close>

definition part_values :: "int \<Rightarrow> int \<Rightarrow> string \<Rightarrow> int set option" where
  "part_values mn mx s =
     (case step_field s of
        Some a \<Rightarrow> if 1 \<le> a \<and> int a \<le> mx - mn + 1
                  then Some {x. mn \<le> x \<and> x \<le> mx \<and> (x - mn) mod int a = 0} else None
      | None \<Rightarrow> (case parseInt10 (trim s) of
                   Some n \<Rightarrow> if mn \<le> n \<and> n \<le> mx then Some {n} else None
                 | None \<Rightarrow> None))"

lemma parseParts_spec:
  "parseParts str mn mx ss acc = Inr vs \<Longrightarrow>
     (\<forall>s \<in> set ss. part_values mn mx s \<noteq> None) \<and>
     set vs = set acc \<union> (\<Union>s \<in> set ss. the (part_values mn mx s))"
proof (induction ss arbitrary: acc)
  case (Cons s ss)
  show ?case
  proof (cases "step_field s")
    case None
    with Cons.prems obtain n where "parseInt10 (trim s) = Some n" "mn \<le> n" "n \<le> mx"
      "parseParts str mn mx ss (acc @ [n]) = Inr vs"
      by (auto split: option.splits if_splits)
    with None Cons.IH show ?thesis by (auto simp: part_values_def)
  next
    case (Some a)
    with Cons.prems have a: "1 \<le> a" "int a \<le> mx - mn + 1"
      "parseParts str mn mx ss (acc @ step_values mn mx (int a)) = Inr vs"
      by (auto split: if_splits)
    with Some Cons.IH [OF a(3)] show ?thesis
      by (auto simp: part_values_def set_step_values)
  qed
qed simp

lemma parseParts_error:
  "(\<exists>vs. parseParts str mn mx ss acc = Inr vs) \<or>
   (parseParts str mn mx ss acc = Inl (invalid_field str) \<and>
    (\<exists>s \<in> set ss. part_values mn mx s = None))"
proof (induction ss arbitrary: acc)
  case (Cons s ss)
  show ?case
  proof (cases "part_values mn mx s")
    case None
    then have "parseParts str mn mx (s # ss) acc = Inl (invalid_field str)"
      by (auto simp: part_values_def split: option.splits if_splits)
    with None show ?thesis by auto
  next
    case (Some V)
    then obtain acc' where "parseParts str mn mx (s # ss) acc = parseParts str mn mx ss acc'"
      by (auto simp: part_values_def split: option.splits if_splits)
    with Cons.IH [of acc'] show ?thesis by auto
  qed
qed simp

lemma part_values_bounds: "part_values mn mx s = Some V \<Longrightarrow> V \<subseteq> {mn..mx} \<and> V \<noteq> {}"
  by (auto simp: part_values_def split: option.splits if_splits intro!: exI [of _ mn])

section \<open>The search finds the earliest match\<close>

lemma cron_search_Some:
  "cron_search tz c n t = Some r \<longleftrightarrow>
     (\<exists>i < n. r = t + int i * 60000 \<and> cron_matches tz c r \<and>
        (\<forall>j < i. \<not> cron_matches tz c (t + int j * 60000)))"
proof (induction n arbitrary: t)
  case (Suc n)
  show ?case
  proof (cases "cron_matches tz c t")
    case True
    then show ?thesis
      by (auto intro: exI [of _ 0]) (metis mult_zero_left add.right_neutral of_nat_0 not_gr_zero)+
  next
    case False
    have shift: "(t + 60000) + int i * 60000 = t + int (Suc i) * 60000" for i
      by simp
    have "cron_search tz c (Suc n) t = cron_search tz c n (t + 60000)"
      using False by (simp add: advanceToNextMinute_def)
    moreover have "(\<exists>i < n. r = t + 60000 + int i * 60000 \<and> cron_matches tz c r \<and>
          (\<forall>j < i. \<not> cron_matches tz c (t + 60000 + int j * 60000))) \<longleftrightarrow>
        (\<exists>i < Suc n. r = t + int i * 60000 \<and> cron_matches tz c r \<and>
          (\<forall>j < i. \<not> cron_matches tz c (t + int j * 60000)))" (is "?L \<longleftrightarrow> ?R")
    proof
      assume ?L
      then obtain i where i: "i < n" "r = t + int (Suc i) * 60000" "cron_matches tz c r"
        and "\<forall>j < i. \<not> cron_matches tz c (t + int (Suc j) * 60000)"
        unfolding shift by blast
      with False have "\<forall>j < Suc i. \<not> cron_matches tz c (t + int j * 60000)"
        by (auto simp: less_Suc_eq_0_disj)
      with i show ?R by (intro exI [of _ "Suc i"]) simp
    next
      assume ?R
      then obtain i where i: "i < Suc n" "r = t + int i * 60000" "cron_matches tz c r"
        and lt: "\<forall>j < i. \<not> cron_matches tz c (t + int j * 60000)" by blast
      with False obtain k where k: "i = Suc k" by (cases i) auto
      with i lt show ?L unfolding shift by (intro exI [of _ k]) auto
    qed
    ultimately show ?thesis by (simp add: Suc.IH)
  qed
qed simp

lemma cron_search_None:
  "cron_search tz c n t = None \<longleftrightarrow> (\<forall>i < n. \<not> cron_matches tz c (t + int i * 60000))"
proof (induction n arbitrary: t)
  case (Suc n)
  have "(\<forall>i < Suc n. \<not> cron_matches tz c (t + int i * 60000)) \<longleftrightarrow>
      \<not> cron_matches tz c t \<and> (\<forall>i < n. \<not> cron_matches tz c (t + 60000 + int i * 60000))"
    by (simp add: All_less_Suc2 algebra_simps)
  with Suc show ?case by (simp add: advanceToNextMinute_def)
qed simp

text \<open>The whole minutes after a time are those the search visits.\<close>

lemma minute_after:
  assumes "start < t" and "t mod ms_min = 0"
  shows "\<exists>i. t = first_candidate start + int i * 60000"
proof -
  let ?m = "60000 :: int"
  have t: "t = ?m * (t div ?m)"
    using assms(2) mult_div_mod_eq [of ?m t] by (simp add: ms_min_def)
  have f: "first_candidate start = ?m * (start div ?m + 1)"
    by (simp add: first_candidate_def ms_min_def minus_mod_eq_mult_div algebra_simps)
  have "?m * (start div ?m) \<le> start"
    using mult_div_mod_eq [of ?m start] pos_mod_sign [of ?m start] by linarith
  with assms(1) t have "start div ?m < t div ?m" by linarith
  then have "t = first_candidate start + int (nat (t div ?m - start div ?m - 1)) * 60000"
    using t f by (simp add: algebra_simps)
  then show ?thesis by blast
qed

lemma first_candidate_after: "start < first_candidate start" "first_candidate start mod ms_min = 0"
proof -
  have "first_candidate start = 60000 * (start div 60000 + 1)"
    by (simp add: first_candidate_def ms_min_def minus_mod_eq_mult_div algebra_simps)
  then show "first_candidate start mod ms_min = 0"
    by (simp add: ms_min_def)
  show "start < first_candidate start"
    using pos_mod_bound [of ms_min start] by (simp add: first_candidate_def ms_min_def)
qed

section \<open>Local time\<close>

definition time_of_day :: "int \<Rightarrow> ms \<Rightarrow> int" where
  "time_of_day tz t = local_ms tz t mod ms_day"

lemma local_decomp: "t = local_day tz t * ms_day + time_of_day tz t - tz * ms_min"
  by (simp add: local_day_def time_of_day_def local_ms_def)

lemma time_of_day_bounds: "0 \<le> time_of_day tz t" "time_of_day tz t < ms_day"
  by (simp_all add: time_of_day_def ms_day_def)

lemma minute_of_day_time: "minute_of_day tz t = time_of_day tz t div ms_min"
  by (simp add: minute_of_day_def time_of_day_def)

lemma local_of:
  assumes "t = D * ms_day + x - tz * ms_min" and "0 \<le> x" and "x < ms_day"
  shows "local_day tz t = D" "time_of_day tz t = x"
  using assms by (simp_all add: local_day_def time_of_day_def local_ms_def ms_day_def)

lemma minute_le_iff: "m \<le> minute_of_day tz t \<longleftrightarrow> m * ms_min \<le> time_of_day tz t"
proof -
  define q r where "q = time_of_day tz t div 60000" and "r = time_of_day tz t mod 60000"
  then have "time_of_day tz t = 60000 * q + r" "0 \<le> r" "r < 60000" by simp_all
  then show ?thesis unfolding minute_of_day_time ms_min_def q_def [symmetric] by auto
qed

lemma now_minutes: "getHours tz t * 60 + getMinutes tz t = minute_of_day tz t"
  by (simp add: getHours_def getMinutes_def)

lemma local_day_mono: "t \<le> t' \<Longrightarrow> local_day tz t \<le> local_day tz t'"
  by (simp add: local_day_def local_ms_def ms_day_def zdiv_mono1)

lemma trunc_rat_of_int [simp]: "trunc_rat (of_int a) = a"
  by (auto simp: trunc_rat_def simp flip: of_int_minus)

lemma setHours_int:
  "setHours tz t (int_num h) (int_num m) =
     Some (local_day tz t * ms_day + (h * 60 + m) * ms_min - tz * ms_min)"
  by (simp add: setHours_def int_num_def)

lemma local_day_next: "local_day tz (t + ms_day) = local_day tz t + 1"
proof -
  have "t + ms_day + tz * ms_min = (t + tz * ms_min) + ms_day" by simp
  then show ?thesis by (simp add: local_day_def local_ms_def ms_day_def)
qed

lemma hh_mm_nonempty: "hh_mm s = (int_num h, int_num m) \<Longrightarrow> s \<noteq> []"
  by (auto simp: hh_mm_def int_num_def)

text \<open>The window with both ends given as whole hours and minutes.\<close>

lemma clamp_cases:
  assumes "hh_mm ws = (int_num sH, int_num sM)" and "hh_mm we = (int_num eH, int_num eM)"
  defines "S \<equiv> sH * 60 + sM" and "E \<equiv> eH * 60 + eM"
  shows "clampToExecutionWindow tz d (Some ws) (Some we) =
    (if S \<le> E \<and> S \<le> minute_of_day tz d \<and> minute_of_day tz d \<le> E then Some d
     else if S \<le> E \<and> minute_of_day tz d < S
     then Some (local_day tz d * ms_day + S * ms_min - tz * ms_min)
     else Some ((local_day tz d + 1) * ms_day + S * ms_min - tz * ms_min))"
proof -
  have ne: "ws \<noteq> []" "we \<noteq> []" using assms hh_mm_nonempty by blast+
  have le: "num_le (int_num a) (int_num b) = (a \<le> b)" for a b by (simp add: int_num_def)
  have sum: "num_add (num_times60 (int_num h)) (int_num m) = int_num (h * 60 + m)" for h m
    by (simp add: int_num_def)
  have eq: "(int_num a = int_num b) = (a = b)" for a b by (simp add: int_num_def)
  show ?thesis
    unfolding clampToExecutionWindow_def Let_def opt_or_def option.case assms(1,2) prod.case
      now_minutes sum le eq setHours_int local_day_next S_def E_def
    using ne by auto
qed

text \<open>The moment a window opens on a local day, and the times around it.\<close>

definition window_at :: "int \<Rightarrow> int \<Rightarrow> int \<Rightarrow> ms" where
  "window_at tz D S = D * ms_day + S * ms_min - tz * ms_min"

lemma window_start:
  assumes "0 \<le> S" and "S < 1440"
  shows "local_day tz (window_at tz D S) = D" "minute_of_day tz (window_at tz D S) = S"
proof -
  have x: "0 \<le> S * ms_min" "S * ms_min < ms_day" using assms by (simp_all add: ms_day_def ms_min_def)
  note l = local_of [OF window_at_def x]
  show "local_day tz (window_at tz D S) = D" by (rule l)
  show "minute_of_day tz (window_at tz D S) = S"
    unfolding minute_of_day_time l by (simp add: ms_min_def)
qed

lemma time_before_window:
  assumes "0 \<le> S" and "S < 1440" and "t < window_at tz D S" and "local_day tz t = D"
  shows "minute_of_day tz t < S"
  using assms local_decomp [of t tz] minute_le_iff [of S tz t] unfolding window_at_def by simp

lemma before_start:
  assumes "0 \<le> S" and "S < 1440" and "minute_of_day tz d < S"
  shows "d < window_at tz (local_day tz d) S"
    and "d \<le> t \<Longrightarrow> t < window_at tz (local_day tz d) S \<Longrightarrow> minute_of_day tz t < S"
proof -
  show "d < window_at tz (local_day tz d) S"
    using assms local_decomp [of d tz] minute_le_iff [of S tz d] unfolding window_at_def by simp
  assume t: "d \<le> t" "t < window_at tz (local_day tz d) S"
  then have "local_day tz t = local_day tz d"
    using local_day_mono [of d t tz] local_day_mono [of t "window_at tz (local_day tz d) S" tz]
      window_start(1) [OF assms(1,2)] by simp
  with t assms show "minute_of_day tz t < S" by (intro time_before_window)
qed

lemma day_before:
  "0 \<le> S \<Longrightarrow> S < 1440 \<Longrightarrow> d < window_at tz (local_day tz d + 1) S"
  using local_decomp [of d tz] time_of_day_bounds [of tz d]
  unfolding window_at_def by (simp add: ms_day_def ms_min_def)

lemma after_end:
  assumes "0 \<le> S" and "S < 1440" and "E < minute_of_day tz d"
  shows "d < window_at tz (local_day tz d + 1) S"
    and "d \<le> t \<Longrightarrow> t < window_at tz (local_day tz d + 1) S \<Longrightarrow>
      minute_of_day tz t < S \<or> E < minute_of_day tz t"
proof -
  show "d < window_at tz (local_day tz d + 1) S" using assms by (intro day_before)
  assume t: "d \<le> t" "t < window_at tz (local_day tz d + 1) S"
  then have "local_day tz t = local_day tz d \<or> local_day tz t = local_day tz d + 1"
    using local_day_mono [of d t tz] local_day_mono [of t "window_at tz (local_day tz d + 1) S" tz]
      window_start(1) [OF assms(1,2)] by simp linarith
  then show "minute_of_day tz t < S \<or> E < minute_of_day tz t"
  proof
    assume "local_day tz t = local_day tz d"
    then have "time_of_day tz d \<le> time_of_day tz t"
      using local_decomp [of t tz] local_decomp [of d tz] t by simp
    then have "minute_of_day tz d \<le> minute_of_day tz t"
      by (simp add: minute_of_day_time zdiv_mono1 ms_min_def)
    with assms show ?thesis by simp
  next
    assume "local_day tz t = local_day tz d + 1"
    with t assms time_before_window show ?thesis by blast
  qed
qed

section \<open>Properties of the schedule\<close>

text \<open>A cron field parses exactly when it is an asterisk or every comma-separated part is
  a number in range or a step of admissible size; the parsed set is the union of what the parts
  denote, lies inside the range and is never empty; any other field is an error naming it.\<close>

lemma parseSet_correct:
  "case parseSet str mn mx of
     Inr None \<Rightarrow> str = [CHR ''*'']
   | Inr (Some vs) \<Rightarrow>
       str \<noteq> [CHR ''*''] \<and> list_all (\<lambda>s. part_values mn mx s \<noteq> None) (split CHR '','' str) \<and>
       set vs = (\<Union>s \<in> set (split CHR '','' str). the (part_values mn mx s)) \<and>
       set vs \<subseteq> {mn..mx} \<and> vs \<noteq> []
   | Inl e \<Rightarrow>
       str \<noteq> [CHR ''*''] \<and> e = invalid_field str \<and>
       list_ex (\<lambda>s. part_values mn mx s = None) (split CHR '','' str)"
proof (cases "str = [CHR ''*'']")
  case True
  then show ?thesis by (simp add: parseSet_def)
next
  case False
  let ?ss = "split CHR '','' str"
  show ?thesis
  proof (cases "parseParts str mn mx ?ss []")
    case (Inl e)
    with parseParts_error [of str mn mx ?ss "[]"] False show ?thesis
      by (auto simp: parseSet_def list_ex_iff)
  next
    case (Inr vs)
    from parseParts_spec [OF Inr] have ok: "\<forall>s \<in> set ?ss. part_values mn mx s \<noteq> None"
      and vs: "set vs = (\<Union>s \<in> set ?ss. the (part_values mn mx s))" by auto
    obtain s where "s \<in> set ?ss" by (metis list.set_intros(1) neq_Nil_conv split_nonempty)
    with ok part_values_bounds have "set vs \<noteq> {}" unfolding vs by fastforce
    moreover have "set vs \<subseteq> {mn..mx}" using ok part_values_bounds unfolding vs by fastforce
    ultimately show ?thesis
      using False Inr ok vs by (auto simp: parseSet_def list_all_iff)
  qed
qed

text \<open>C10: the next run of a schedule. The search returns \<open>r\<close> exactly when the expression
  parses and \<open>r\<close> is the earliest whole minute strictly after the given time that matches all
  five fields, at most 366 days of minutes away; in particular it finds a run whenever one
  exists in that range.\<close>

theorem getNextCronRun_earliest:
  "getNextCronRun tz e start = Inr r \<longleftrightarrow>
     (\<exists>c. parseCron e = Inr c \<and> start < r \<and> r mod ms_min = 0 \<and>
        r < first_candidate start + int maxIter * ms_min \<and> cron_matches tz c r \<and>
        (\<forall>t. start < t \<and> t < r \<and> t mod ms_min = 0 \<longrightarrow> \<not> cron_matches tz c t))"
    (is "?L \<longleftrightarrow> ?R")
proof
  assume ?L
  then obtain c where c: "parseCron e = Inr c"
    and "cron_search tz c maxIter (first_candidate start) = Some r"
    by (auto simp: getNextCronRun_def split: sum.splits option.splits)
  then obtain i where i: "i < maxIter" "r = first_candidate start + int i * 60000"
    "cron_matches tz c r"
    and least: "\<forall>j < i. \<not> cron_matches tz c (first_candidate start + int j * 60000)"
    unfolding cron_search_Some by blast
  have "\<not> cron_matches tz c t" if t: "start < t" "t < r" "t mod ms_min = 0" for t
  proof -
    obtain j where "t = first_candidate start + int j * 60000"
      using minute_after [OF t(1) t(3)] by blast
    with t i least show ?thesis by auto
  qed
  moreover have "start < r" using i first_candidate_after [of start] by linarith
  moreover have "r mod ms_min = 0"
    using i first_candidate_after(2) [of start] by (simp add: ms_min_def mod_0_imp_dvd)
  ultimately show ?R using c i by (auto simp: ms_min_def)
next
  assume ?R
  then obtain c where c: "parseCron e = Inr c" and r: "start < r" "r mod ms_min = 0"
      "r < first_candidate start + int maxIter * ms_min" "cron_matches tz c r"
    and least: "\<forall>t. start < t \<and> t < r \<and> t mod ms_min = 0 \<longrightarrow> \<not> cron_matches tz c t"
    by (elim exE conjE) (rule that)
  obtain i where i: "r = first_candidate start + int i * 60000" using minute_after [OF r(1) r(2)] by blast
  with r have "i < maxIter" by (simp add: ms_min_def)
  moreover have "\<not> cron_matches tz c (first_candidate start + int j * 60000)" if "j < i" for j
  proof -
    have "(first_candidate start + int j * 60000) mod ms_min = 0"
      using first_candidate_after(2) [of start] by (simp add: ms_min_def mod_0_imp_dvd)
    with least that i first_candidate_after(1) [of start] show ?thesis by simp
  qed
  ultimately have "cron_search tz c maxIter (first_candidate start) = Some r"
    unfolding cron_search_Some using i r by blast
  with c show ?L by (simp add: getNextCronRun_def)
qed

theorem getNextCronRun_earliest_witness:
  "getNextCronRun 0 ''2 * * * *'' 0 = Inr 120000"
proof -
  obtain c where c: "parseCron ''2 * * * *'' = Inr c" "c_minutes c = Some [2]"
      "c_hours c = None" "c_doms c = None" "c_months c = None" "c_dows c = None"
    by (rule that [of "\<lparr>c_minutes = Some [2], c_hours = None, c_doms = None, c_months = None,
        c_dows = None\<rparr>"]) (code_simp, simp_all)
  have m: "cron_matches 0 c t \<longleftrightarrow> getMinutes 0 t = 2" for t
    using c by (simp add: cron_matches_def field_ok_def)
  have "t = 60000" if "0 < t" "t < 120000" "t mod 60000 = 0" for t :: int
  proof -
    from that obtain k where "t = 60000 * k" by (metis mod_0_imp_dvd dvdE)
    with that show ?thesis by simp
  qed
  then have "\<forall>t. 0 < t \<and> t < 120000 \<and> t mod ms_min = 0 \<longrightarrow> \<not> cron_matches 0 c t"
    unfolding m by (auto simp: ms_min_def getMinutes_def minute_of_day_def local_ms_def ms_day_def)
  then show ?thesis
    unfolding getNextCronRun_earliest using c(1) m
    by (intro exI [of _ c]) (auto simp: ms_min_def maxIter_def first_candidate_def getMinutes_def
        minute_of_day_def local_ms_def ms_day_def)
qed

text \<open>A same-day execution window. The clamped time is never before the given one, its
  time of day is inside the window, and no moment in between is inside the window.\<close>

lemma clampToExecutionWindow_next_in_window:
  assumes "hh_mm ws = (int_num sH, int_num sM)" and "hh_mm we = (int_num eH, int_num eM)"
    and "0 \<le> sH * 60 + sM" and "sH * 60 + sM \<le> eH * 60 + eM" and "eH * 60 + eM < 1440"
  shows "\<exists>r. clampToExecutionWindow tz d (Some ws) (Some we) = Some r \<and> d \<le> r \<and>
    sH * 60 + sM \<le> minute_of_day tz r \<and> minute_of_day tz r \<le> eH * 60 + eM \<and>
    (\<forall>t. d \<le> t \<and> t < r \<longrightarrow>
       \<not> (sH * 60 + sM \<le> minute_of_day tz t \<and> minute_of_day tz t \<le> eH * 60 + eM))"
proof -
  define S E where "S = sH * 60 + sM" and "E = eH * 60 + eM"
  note se = assms(3-5) [folded S_def E_def]
  note folds = S_def [symmetric] E_def [symmetric] clamp_cases [OF assms(1,2), folded S_def E_def]
  consider "S \<le> minute_of_day tz d \<and> minute_of_day tz d \<le> E" | "minute_of_day tz d < S"
    | "E < minute_of_day tz d" by linarith
  then show ?thesis
  proof cases
    case 1
    with se show ?thesis unfolding folds by auto
  next
    case 2
    with se have S: "0 \<le> S" "S < 1440" "minute_of_day tz d < S" by simp_all
    with se window_start [OF S(1,2)] before_start(1) [OF S] show ?thesis
      unfolding folds window_at_def [symmetric]
      by (intro exI [of _ "window_at tz (local_day tz d) S"])
        (auto dest: before_start(2) [OF S])
  next
    case 3
    with se have S: "0 \<le> S" "S < 1440" "E < minute_of_day tz d" by simp_all
    with se window_start [OF S(1,2)] after_end(1) [OF S] show ?thesis
      unfolding folds window_at_def [symmetric]
      by (intro exI [of _ "window_at tz (local_day tz d + 1) S"])
        (auto dest: after_end(2) [OF S])
  qed
qed

text \<open>An overnight window (its start later in the day than its end) never admits a time:
  whatever the time of day, also inside the window, the result is the window's start on the
  following day.\<close>

lemma clampToExecutionWindow_overnight:
  assumes "hh_mm ws = (int_num sH, int_num sM)" and "hh_mm we = (int_num eH, int_num eM)"
    and "eH * 60 + eM < sH * 60 + sM" and "0 \<le> sH * 60 + sM" and "sH * 60 + sM < 1440"
  shows "\<exists>r. clampToExecutionWindow tz d (Some ws) (Some we) = Some r \<and> d < r \<and>
    local_day tz r = local_day tz d + 1 \<and> minute_of_day tz r = sH * 60 + sM"
  using assms(3-5) window_start [of "sH * 60 + sM" tz "local_day tz d + 1"]
    day_before [of "sH * 60 + sM" d tz]
  unfolding clamp_cases [OF assms(1,2)] by (auto simp: window_at_def)

end
