(* ===== verification/Scheduler.thy ===== *)
theory Scheduler
  imports Cron Job_Create
begin

text \<open>
  Schedules: control-plane/src/scheduler/scheduler.service.ts. The delayed queue is the list
  \<open>schedulerQueue\<close> of the world; adding an entry whose job id is already there has no effect.
  Of the failures the fire handler catches, the one modelled is that of adding the job to the
  organization's queue (\<open>addOk\<close>). An execution window that is not two times of day, which
  no operation of the service can store, gives no next run.

  Shown: a fire creates at most one job and never while an earlier one of the schedule is
  outstanding, a skip is consumed by exactly one fire, and what a failed enqueue leaves behind.
\<close>

section \<open>Definitions\<close>

definition computeNextRun :: "env \<Rightarrow> schedule \<Rightarrow> ms \<Rightarrow> ms option" where
  "computeNextRun E s start =
     (case getNextCronRun (e_tz E) (sc_cronExpression s) start of
        Inl _ \<Rightarrow> None
      | Inr next \<Rightarrow> clampToExecutionWindow (e_tz E) next (sc_executionWindowStart s) (sc_executionWindowEnd s))"

definition fire_id :: "id \<Rightarrow> ms \<Rightarrow> string" where
  "fire_id scheduleId nextRun = ''schedule:'' @ scheduleId @ '':'' @ int_str nextRun"

definition add_fire :: "id \<Rightarrow> ms option \<Rightarrow> ms \<Rightarrow> world \<Rightarrow> world" where
  "add_fire scheduleId nextRun now w =
     (case nextRun of None \<Rightarrow> w
      | Some t \<Rightarrow>
          if fire_id scheduleId t \<in> fe_jobId ` set (schedulerQueue w) then w
          else w\<lparr>schedulerQueue := schedulerQueue w @
                 [\<lparr>fe_jobId = fire_id scheduleId t, fe_scheduleId = scheduleId, fe_delay = max 0 (t - now)\<rparr>]\<rparr>)"

definition set_schedule :: "id \<Rightarrow> (schedule \<Rightarrow> schedule) \<Rightarrow> world \<Rightarrow> world" where
  "set_schedule i f w = w\<lparr>schedules := updateRow sc_id i f (schedules w)\<rparr>"

definition set_next :: "ms option \<Rightarrow> schedule \<Rightarrow> schedule" where
  \<comment> \<open>\<open>nextRunAt: nextRun ?? undefined\<close>\<close>
  "set_next nextRun s = (case nextRun of None \<Rightarrow> s | Some t \<Rightarrow> s\<lparr>sc_nextRunAt := Some t\<rparr>)"

definition hydrate_one :: "env \<Rightarrow> ms \<Rightarrow> world \<Rightarrow> schedule \<Rightarrow> world" where
  "hydrate_one E now w s =
     (case computeNextRun E s now of
        None \<Rightarrow> w
      | Some next \<Rightarrow>
          set_schedule (sc_id s) (\<lambda>x. x\<lparr>sc_nextRunAt := Some next\<rparr>) (add_fire (sc_id s) (Some next) now w))"

definition hydrateSchedules :: "env \<Rightarrow> ms \<Rightarrow> world \<Rightarrow> world" where
  "hydrateSchedules E now w = foldl (hydrate_one E now) w (filter sc_enabled (schedules w))"

definition isRestartJob :: "string \<Rightarrow> bool" where
  "isRestartJob jobType = (toUpperCase jobType \<in> set [''SERVER_RESTART'', ''SERVER_SAFE_RESTART''])"

definition effectiveJobType :: "serverInstance \<Rightarrow> schedule \<Rightarrow> string" where
  "effectiveJobType si s =
     (if si_gameType si = ''minecraft'' \<and> toUpperCase (sc_jobType s) = ''SERVER_RESTART''
      then ''SERVER_SAFE_RESTART'' else sc_jobType s)"

definition scheduled_payload :: "serverInstance \<Rightarrow> schedule \<Rightarrow> obj" where
  "scheduled_payload si s =
     spread (server_payload si @ [(''schedule_id'', Str (sc_id s))])
       (case sc_payload s of Obj o' \<Rightarrow> o' | _ \<Rightarrow> [])"

definition active_run :: "id \<Rightarrow> string \<Rightarrow> id \<Rightarrow> world \<Rightarrow> jobRun option" where
  "active_run serverInstanceId ty scheduleId w =
     List.find (\<lambda>r. (jr_status r = Pending \<or> jr_status r = Running) \<and>
        (case find_job (jr_jobId r) w of None \<Rightarrow> False
         | Some j \<Rightarrow> j_serverInstanceId j = Some serverInstanceId \<and> j_type j = ty \<and>
             get (j_payload j) ''schedule_id'' = Str scheduleId)) (jobRuns w)"

definition skip_fire :: "env \<Rightarrow> schedule \<Rightarrow> ms \<Rightarrow> world \<Rightarrow> world" where
  "skip_fire E s now w =
     (let nextRun = computeNextRun E s now;
          status = (if sc_skipNextRunReason s = Some ''stability_restart''
                    then ''skipped_stability_restart'' else ''skipped_by_operator'')
      in add_fire (sc_id s) nextRun now
           (set_schedule (sc_id s) (\<lambda>x. set_next nextRun (x\<lparr>sc_lastRunAt := Some now,
              sc_lastRunStatus := Some status, sc_skipNextRun := False,
              sc_skipNextRunReason := None, sc_skipNextRunRequestedAt := None\<rparr>)) w))"

definition busy_fire :: "env \<Rightarrow> schedule \<Rightarrow> ms \<Rightarrow> world \<Rightarrow> world" where
  "busy_fire E s now w =
     (let nextRun = computeNextRun E s now
      in add_fire (sc_id s) nextRun now
           (set_schedule (sc_id s) (\<lambda>x. set_next nextRun (x\<lparr>sc_lastRunAt := Some now,
              sc_lastRunStatus := Some ''skipped_busy''\<rparr>)) w))"

text \<open>The try block and its handler.\<close>

definition run_fire :: "env \<Rightarrow> bool \<Rightarrow> serverInstance \<Rightarrow> schedule \<Rightarrow> ms \<Rightarrow> world \<Rightarrow> unit res \<times> world" where
  "run_fire E addOk si s now w =
     (let ty = effectiveJobType si s;
          payload = scheduled_payload si s;
          (jobId, w1) = create_job (sc_orgId s) None (Some (sc_serverInstanceId s)) ty payload None now w;
          (runId, w2) = create_run jobId (si_hostId si) now w1;
          nextRun = computeNextRun E s now
      in if addOk then
           (let w3 = enqueue (sc_orgId s)
                  \<lparr>q_jobId = jobId, q_jobRunId = runId, q_hostId = si_hostId si,
                   q_serverInstanceId = Some (sc_serverInstanceId s), q_type = ty, q_payload = payload,
                   q_scheduleId = Some (sc_id s), q_attempts = opt_or (sc_retryMax s) 2 + 1,
                   q_backoff = Fixed (opt_or (sc_retryBackoffMs s) 2000)\<rparr> w2;
                w4 = set_schedule (sc_id s) (\<lambda>x. set_next nextRun (x\<lparr>sc_lastRunAt := Some now,
                   sc_lastRunStatus := Some ''success'', sc_lastRunJobId := Some jobId,
                   sc_runCount := sc_runCount x + 1\<rparr>)) w3
            in (Inr (), add_fire (sc_id s) nextRun now w4))
         else
           (let w4 = set_schedule (sc_id s) (\<lambda>x. set_next nextRun (x\<lparr>sc_lastRunAt := Some now,
                   sc_lastRunStatus := Some ''scheduler_failed'', sc_lastRunJobId := Some jobId,
                   sc_failureCount := sc_failureCount x + 1\<rparr>)) w2
            in (Inl (Error ''queue add failed''), add_fire (sc_id s) nextRun now w4)))"

definition processScheduleFire :: "env \<Rightarrow> bool \<Rightarrow> id \<Rightarrow> ms \<Rightarrow> world \<Rightarrow> unit res \<times> world" where
  "processScheduleFire E addOk scheduleId now w =
     (case find_schedule scheduleId w of
        None \<Rightarrow> (Inr (), w)
      | Some s \<Rightarrow>
          if \<not> sc_enabled s then (Inr (), w)
          else (case findUnique si_id (sc_serverInstanceId s) (serverInstances w) of
                  None \<Rightarrow> (Inr (), w)
                | Some si \<Rightarrow>
                    if sc_skipNextRun s \<and> isRestartJob (sc_jobType s) then (Inr (), skip_fire E s now w)
                    else if active_run (sc_serverInstanceId s) (effectiveJobType si s) (sc_id s) w \<noteq> None
                    then (Inr (), busy_fire E s now w)
                    else run_fire E addOk si s now w))"

definition handleWorkerFailure :: "id \<Rightarrow> world \<Rightarrow> world" where
  "handleWorkerFailure scheduleId w =
     set_schedule scheduleId (\<lambda>x. x\<lparr>sc_lastRunStatus := Some ''scheduler_failed'',
       sc_failureCount := sc_failureCount x + 1\<rparr>) w"

text \<open>One job of the worker: the fire, and the failure listener when it throws.\<close>

definition worker_fire :: "env \<Rightarrow> bool \<Rightarrow> id \<Rightarrow> ms \<Rightarrow> world \<Rightarrow> world" where
  "worker_fire E addOk scheduleId now w =
     (case processScheduleFire E addOk scheduleId now w of
        (Inl _, w') \<Rightarrow> handleWorkerFailure scheduleId w'
      | (Inr _, w') \<Rightarrow> w')"

datatype skip_result = NoScheduledRestart | AlreadySkipped id "ms option" | Skipped id string "ms option"

definition opt_key :: "ms option \<Rightarrow> int" where
  "opt_key x = opt_or x 0"

definition skipNextAutoRestart :: "id \<Rightarrow> id \<Rightarrow> string \<Rightarrow> ms \<Rightarrow> world \<Rightarrow> skip_result \<times> world" where
  "skipNextAutoRestart orgId serverInstanceId reason now w =
     (case List.find (\<lambda>s. sc_orgId s = orgId \<and> sc_serverInstanceId s = serverInstanceId \<and> sc_enabled s \<and>
             sc_jobType s \<in> set [''SERVER_RESTART'', ''SERVER_SAFE_RESTART''] \<and>
             (case sc_nextRunAt s of None \<Rightarrow> False | Some t \<Rightarrow> now \<le> t))
           (orderAsc (\<lambda>s. opt_key (sc_nextRunAt s)) (schedules w)) of
        None \<Rightarrow> (NoScheduledRestart, w)
      | Some s \<Rightarrow>
          if sc_skipNextRun s then (AlreadySkipped (sc_id s) (sc_nextRunAt s), w)
          else (Skipped (sc_id s) (sc_name s) (sc_nextRunAt s),
                set_schedule (sc_id s) (\<lambda>x. x\<lparr>sc_skipNextRun := True, sc_skipNextRunReason := Some reason,
                  sc_skipNextRunRequestedAt := Some now\<rparr>) w))"

definition schedule_dto :: "schedule \<Rightarrow> obj" where
  "schedule_dto s =
     [(''id'', Str (sc_id s)), (''orgId'', Str (sc_orgId s)), (''serverInstanceId'', Str (sc_serverInstanceId s)),
      (''name'', Str (sc_name s)), (''cronExpression'', Str (sc_cronExpression s)), (''jobType'', Str (sc_jobType s)),
      (''payload'', sc_payload s), (''enabled'', Bool (sc_enabled s)), (''nextRunAt'', opt_time (sc_nextRunAt s)),
      (''lastRunAt'', opt_time (sc_lastRunAt s)), (''lastRunStatus'', opt_str (sc_lastRunStatus s)),
      (''skipNextRun'', Bool (sc_skipNextRun s)), (''skipNextRunReason'', opt_str (sc_skipNextRunReason s)),
      (''createdAt'', JInt (sc_createdAt s))]"

definition listSchedules :: "id \<Rightarrow> world \<Rightarrow> obj list" where
  "listSchedules orgId w =
     map schedule_dto (orderDesc sc_createdAt (filter (\<lambda>s. sc_orgId s = orgId) (schedules w)))"

definition createSchedule ::
    "env \<Rightarrow> id \<Rightarrow> id \<Rightarrow> string \<Rightarrow> id \<Rightarrow> string \<Rightarrow> string \<Rightarrow> js \<Rightarrow> bool option \<Rightarrow> ms \<Rightarrow> world \<Rightarrow> obj res \<times> world" where
  \<comment> \<open>the database rejects a server that does not exist\<close>
  "createSchedule E orgId userId name serverInstanceId cronExpression jobType payload enabled now w =
     (case getNextCronRun (e_tz E) cronExpression now of
        Inl _ \<Rightarrow> (Inl (Error (''Invalid cron expression: '' @ cronExpression)), w)
      | Inr nextRunAt \<Rightarrow>
          if findUnique si_id serverInstanceId (serverInstances w) = None
          then (Inl (Error ''Foreign key constraint violated''), w)
          else (let s = \<lparr>sc_id = next_id w, sc_orgId = orgId, sc_serverInstanceId = serverInstanceId, sc_name = name,
                 sc_cronExpression = cronExpression, sc_jobType = jobType, sc_payload = payload,
                 sc_enabled = opt_or enabled True, sc_executionWindowStart = None, sc_executionWindowEnd = None,
                 sc_lastRunAt = None, sc_nextRunAt = Some nextRunAt, sc_lastRunStatus = None,
                 sc_lastRunJobId = None, sc_skipNextRun = False, sc_skipNextRunReason = None,
                 sc_skipNextRunRequestedAt = None, sc_runCount = 0, sc_failureCount = 0, sc_retryMax = None,
                 sc_retryBackoffMs = None, sc_createdById = Some userId, sc_createdAt = now\<rparr>;
               w1 = (draw w)\<lparr>schedules := schedules w @ [s]\<rparr>
           in (Inr (schedule_dto s),
               if sc_enabled s then add_fire (sc_id s) (Some nextRunAt) now w1 else w1)))"

definition find_org_schedule :: "id \<Rightarrow> id \<Rightarrow> world \<Rightarrow> schedule option" where
  "find_org_schedule scheduleId orgId w =
     List.find (\<lambda>s. sc_id s = scheduleId \<and> sc_orgId s = orgId) (schedules w)"

definition remove_fire :: "string \<Rightarrow> world \<Rightarrow> world" where
  "remove_fire jobId w = w\<lparr>schedulerQueue := filter (\<lambda>e. fe_jobId e \<noteq> jobId) (schedulerQueue w)\<rparr>"

definition updateSchedule ::
    "env \<Rightarrow> id \<Rightarrow> id \<Rightarrow> bool option \<Rightarrow> string option \<Rightarrow> string option \<Rightarrow> string option \<Rightarrow> js \<Rightarrow> ms \<Rightarrow> world
       \<Rightarrow> obj res \<times> world" where
  "updateSchedule E orgId scheduleId enabled name cronExpression jobType payload now w =
     (case find_org_schedule scheduleId orgId w of
        None \<Rightarrow> (Inl (Error ''Schedule not found''), w)
      | Some existing \<Rightarrow>
          (let expr = opt_or cronExpression (sc_cronExpression existing);
               next = (if opt_or cronExpression [] = [] then Inr (sc_nextRunAt existing)
                       else (case getNextCronRun (e_tz E) expr now of Inl e \<Rightarrow> Inl e | Inr t \<Rightarrow> Inr (Some t)))
           in case next of
                Inl _ \<Rightarrow> (Inl (Error (''Invalid cron expression: '' @ expr)), w)
              | Inr nextRunAt \<Rightarrow>
                  (let f = (\<lambda>s. let s1 = s\<lparr>sc_name := opt_or name (sc_name s), sc_jobType := opt_or jobType (sc_jobType s),
                              sc_payload := (if payload = Undefined then sc_payload s else payload),
                              sc_enabled := opt_or enabled (sc_enabled s)\<rparr>
                             in if cronExpression = None then s1
                                else s1\<lparr>sc_cronExpression := expr, sc_nextRunAt := nextRunAt\<rparr>);
                       updated = f existing;
                       w1 = set_schedule scheduleId f w;
                       w2 = (case sc_nextRunAt existing of None \<Rightarrow> w1
                             | Some t \<Rightarrow> remove_fire (fire_id (sc_id existing) t) w1);
                       w3 = (if sc_enabled updated then add_fire (sc_id updated) (sc_nextRunAt updated) now w2 else w2)
                   in (Inr (schedule_dto updated), w3))))"

definition deleteSchedule :: "id \<Rightarrow> id \<Rightarrow> world \<Rightarrow> unit res \<times> world" where
  "deleteSchedule orgId scheduleId w =
     (case find_org_schedule scheduleId orgId w of
        None \<Rightarrow> (Inl (Error ''Schedule not found''), w)
      | Some _ \<Rightarrow> (Inr (), w\<lparr>schedules := deleteMany (\<lambda>s. sc_id s = scheduleId) (schedules w)\<rparr>))"

section \<open>What a fire changes\<close>

lemma add_fire_frame [frame, simp]:
  "jobs (add_fire i n t w) = jobs w" "jobRuns (add_fire i n t w) = jobRuns w"
  "jobBatches (add_fire i n t w) = jobBatches w" "idgen (add_fire i n t w) = idgen w"
  "idctr (add_fire i n t w) = idctr w" "orgQueues (add_fire i n t w) = orgQueues w"
  "schedules (add_fire i n t w) = schedules w" "serverInstances (add_fire i n t w) = serverInstances w"
  by (simp_all add: add_fire_def split: option.split)

lemma set_schedule_frame [frame, simp]:
  "jobs (set_schedule i f w) = jobs w" "jobRuns (set_schedule i f w) = jobRuns w"
  "jobBatches (set_schedule i f w) = jobBatches w" "idgen (set_schedule i f w) = idgen w"
  "idctr (set_schedule i f w) = idctr w" "orgQueues (set_schedule i f w) = orgQueues w"
  "serverInstances (set_schedule i f w) = serverInstances w"
  by (simp_all add: set_schedule_def)

lemma set_next_sel [simp]:
  "sc_id (set_next n s) = sc_id s" "sc_jobType (set_next n s) = sc_jobType s"
  "sc_serverInstanceId (set_next n s) = sc_serverInstanceId s" "sc_enabled (set_next n s) = sc_enabled s"
  "sc_skipNextRun (set_next n s) = sc_skipNextRun s" "sc_failureCount (set_next n s) = sc_failureCount s"
  "sc_runCount (set_next n s) = sc_runCount s" "sc_lastRunStatus (set_next n s) = sc_lastRunStatus s"
  "sc_orgId (set_next n s) = sc_orgId s"
  by (simp_all add: set_next_def split: option.split)

lemma find_schedule_set:
  "(\<And>x. sc_id (f x) = sc_id x) \<Longrightarrow> find_schedule i (set_schedule k f w) =
     (if i = k then map_option f (find_schedule i w) else find_schedule i w)"
  by (simp add: find_schedule_def set_schedule_def findUnique_updateRow)

lemma find_schedule_id: "find_schedule i w = Some s \<Longrightarrow> sc_id s = i"
  unfolding find_schedule_def using findUnique_Some by fast

lemma skip_busy_same_jobs:
  "same_jobs w (skip_fire E s now w)" "same_jobs w (busy_fire E s now w)"
  by (simp_all add: skip_fire_def busy_fire_def Let_def same_jobs_def)

lemma run_fire_tables:
  assumes "run_fire E addOk si s now w = (r, w')"
  obtains J R where "jobs w' = jobs w @ [J]" "jobRuns w' = jobRuns w @ [R]"
    "j_id J = next_id w" "jr_jobId R = next_id w" "jr_status R = Pending" "jr_hostId R = si_hostId si"
    "j_serverInstanceId J = Some (sc_serverInstanceId s)" "j_type J = effectiveJobType si s"
    "j_payload J = scheduled_payload si s" "serverInstances w' = serverInstances w"
    "r = (if addOk then Inr () else Inl (Error ''queue add failed''))"
  by (rule that [of "\<lparr>j_id = next_id w, j_orgId = sc_orgId s, j_batchId = None,
        j_serverInstanceId = Some (sc_serverInstanceId s), j_type = effectiveJobType si s,
        j_payload = scheduled_payload si s, j_createdById = None, j_createdAt = now\<rparr>"
      "\<lparr>jr_id = idgen w (Suc (idctr w)), jr_jobId = next_id w, jr_hostId = si_hostId si, jr_status = Pending,
        jr_startedAt = None, jr_finishedAt = None, jr_result = [], jr_createdAt = now\<rparr>"])
    (use assms in \<open>auto simp: run_fire_def create_job_def create_run_def draw_def next_id_def Let_def
       enqueue_def split: if_splits\<close>)

lemma run_fire_ext: "jobs_ext w (snd (run_fire E addOk si s now w))"
proof -
  obtain j w1 where 1: "create_job (sc_orgId s) None (Some (sc_serverInstanceId s)) (effectiveJobType si s)
      (scheduled_payload si s) None now w = (j, w1)" by fastforce
  obtain r w2 where 2: "create_run j (si_hostId si) now w1 = (r, w2)" by fastforce
  have "same_jobs w2 (snd (run_fire E addOk si s now w))"
    using 1 2 by (simp add: run_fire_def same_jobs_def Let_def)
  with create_job_run_ext [OF 1 2] show ?thesis using same_jobs_ext appending.trans_R by blast
qed

lemma processScheduleFire_cases:
  assumes "processScheduleFire E addOk i now w = (r, w')"
  obtains (idle) "r = Inr ()" "w' = w"
  | (skipped) s where "find_schedule i w = Some s" "sc_enabled s" "sc_skipNextRun s"
      "isRestartJob (sc_jobType s)" "r = Inr ()" "w' = skip_fire E s now w"
  | (busy) s si where "find_schedule i w = Some s" "sc_enabled s"
      "findUnique si_id (sc_serverInstanceId s) (serverInstances w) = Some si"
      "active_run (sc_serverInstanceId s) (effectiveJobType si s) (sc_id s) w \<noteq> None"
      "r = Inr ()" "w' = busy_fire E s now w"
  | (fired) s si where "find_schedule i w = Some s" "sc_enabled s"
      "\<not> (sc_skipNextRun s \<and> isRestartJob (sc_jobType s))"
      "findUnique si_id (sc_serverInstanceId s) (serverInstances w) = Some si"
      "active_run (sc_serverInstanceId s) (effectiveJobType si s) (sc_id s) w = None"
      "run_fire E addOk si s now w = (r, w')"
proof (cases "find_schedule i w")
  case None
  with assms idle show ?thesis by (simp add: processScheduleFire_def)
next
  case (Some s)
  note fs = Some
  show ?thesis
  proof (cases "sc_enabled s \<and> findUnique si_id (sc_serverInstanceId s) (serverInstances w) \<noteq> None")
    case False
    with assms fs have "r = Inr () \<and> w' = w"
      by (cases "findUnique si_id (sc_serverInstanceId s) (serverInstances w)")
        (auto simp: processScheduleFire_def split: if_splits)
    then show ?thesis using idle by blast
  next
    case True
    then obtain si where si: "findUnique si_id (sc_serverInstanceId s) (serverInstances w) = Some si"
      and en: "sc_enabled s" by blast
    let ?skip = "sc_skipNextRun s \<and> isRestartJob (sc_jobType s)"
    let ?busy = "active_run (sc_serverInstanceId s) (effectiveJobType si s) (sc_id s) w \<noteq> None"
    have eq: "(r, w') = (if ?skip then (Inr (), skip_fire E s now w)
        else if ?busy then (Inr (), busy_fire E s now w) else run_fire E addOk si s now w)"
      using assms fs si en by (simp add: processScheduleFire_def)
    consider "?skip" | "\<not> ?skip" "?busy" | "\<not> ?skip" "\<not> ?busy" by blast
    then show ?thesis
    proof cases
      case 1
      then show ?thesis using eq skipped [OF fs en] by simp
    next
      case 2
      with eq have "r = Inr () \<and> w' = busy_fire E s now w" by (auto split: if_splits)
      then show ?thesis using 2 busy [OF fs en si] by blast
    next
      case 3
      with eq have "run_fire E addOk si s now w = (r, w')" by (auto split: if_splits)
      then show ?thesis using 3 fired [OF fs en _ si] by blast
    qed
  qed
qed

lemma processScheduleFire_ext: "jobs_ext w (snd (processScheduleFire E addOk i now w))"
proof (cases "processScheduleFire E addOk i now w")
  case (Pair r w')
  then show ?thesis
  proof (cases rule: processScheduleFire_cases)
    case (fired s si)
    with Pair run_fire_ext [of w E addOk si s now] show ?thesis by simp
  qed (simp_all add: Pair appending.refl_R same_jobs_ext [OF skip_busy_same_jobs(1)]
      same_jobs_ext [OF skip_busy_same_jobs(2)])
qed

lemma worker_fire_ext: "jobs_ext w (worker_fire E addOk i now w)"
proof -
  have "jobs_ext x (handleWorkerFailure i x)" for x
    by (intro same_jobs_ext) (simp add: handleWorkerFailure_def same_jobs_def)
  then show ?thesis
    using processScheduleFire_ext [of w E addOk i now] appending.trans_R
    by (auto simp: worker_fire_def split: prod.splits sum.splits)
qed

section \<open>Properties of the scheduler\<close>

text \<open>The run a fire adds counts as active as long as it waits or runs.\<close>

lemma active_run_None:
  "active_run sid ty i w = None \<longleftrightarrow>
     (\<forall>r \<in> set (jobRuns w). \<forall>j. find_job (jr_jobId r) w = Some j \<and> j_serverInstanceId j = Some sid \<and> j_type j = ty \<and>
        get (j_payload j) ''schedule_id'' = Str i \<longrightarrow> jr_status r \<notin> {Pending, Running})"
  by (auto simp: active_run_def find_None_set split: option.splits)

lemma scheduled_payload_id:
  "''schedule_id'' \<notin> fst ` set (case sc_payload s of Obj p \<Rightarrow> p | _ \<Rightarrow> []) \<Longrightarrow>
     get (scheduled_payload si s) ''schedule_id'' = Str (sc_id s)"
  by (simp add: scheduled_payload_def get_spread_notin) (simp add: get_def server_payload_def)

lemma busy_no_job:
  assumes "find_schedule i v = Some s" and "findUnique si_id (sc_serverInstanceId s) (serverInstances v) = Some si"
    and "active_run (sc_serverInstanceId s) (effectiveJobType si s) i v \<noteq> None"
  shows "jobs (snd (processScheduleFire E ok i t v)) = jobs v \<and> jobRuns (snd (processScheduleFire E ok i t v)) = jobRuns v"
  using assms(1,2) assms(3) [folded find_schedule_id [OF assms(1)]] skip_busy_same_jobs
  by (auto simp: processScheduleFire_def same_jobs_def find_schedule_id [OF assms(1)])

text \<open>C21: no stacking. Firing a schedule adds at most one job, and only when the schedule exists,
  is enabled, is not told to skip, and no run of a job of that type on that server whose payload names the
  schedule is pending or running; the job added has one pending run on the server's host. Unless the payload
  configured for the schedule itself sets \<open>schedule_id\<close>, the job names the schedule, and then no later fire, in
  whatever state, adds another as long as that run is pending or running and the schedule keeps its server,
  its job type and the server its game.\<close>

theorem processScheduleFire_no_stacking:
  assumes "processScheduleFire E addOk i now w = (r, w')"
  shows "jobRuns w' = jobRuns w \<and> jobs w' = jobs w \<or>
    (\<exists>s si J R. find_schedule i w = Some s \<and> sc_enabled s \<and>
       \<not> (sc_skipNextRun s \<and> isRestartJob (sc_jobType s)) \<and>
       findUnique si_id (sc_serverInstanceId s) (serverInstances w) = Some si \<and>
       (\<forall>r \<in> set (jobRuns w). \<forall>j. find_job (jr_jobId r) w = Some j \<and> j_serverInstanceId j = Some (sc_serverInstanceId s) \<and>
          j_type j = effectiveJobType si s \<and> get (j_payload j) ''schedule_id'' = Str i \<longrightarrow> jr_status r \<notin> {Pending, Running}) \<and>
       jobs w' = jobs w @ [J] \<and> jobRuns w' = jobRuns w @ [R] \<and> jr_jobId R = j_id J \<and>
       jr_status R = Pending \<and> jr_hostId R = si_hostId si \<and> j_type J = effectiveJobType si s \<and>
       (''schedule_id'' \<notin> fst ` set (case sc_payload s of Obj p \<Rightarrow> p | _ \<Rightarrow> []) \<longrightarrow>
          get (j_payload J) ''schedule_id'' = Str i \<and>
          (\<forall>v s' si' x E' ok later. find_schedule i v = Some s' \<and> sc_serverInstanceId s' = sc_serverInstanceId s \<and>
             sc_jobType s' = sc_jobType s \<and> findUnique si_id (sc_serverInstanceId s) (serverInstances v) = Some si' \<and>
             si_gameType si' = si_gameType si \<and> find_job (j_id J) v = Some J \<and> x \<in> set (jobRuns v) \<and> jr_jobId x = j_id J \<and>
             jr_status x \<in> {Pending, Running} \<longrightarrow>
             jobs (snd (processScheduleFire E' ok i later v)) = jobs v \<and>
             jobRuns (snd (processScheduleFire E' ok i later v)) = jobRuns v)))"
  using assms
proof (cases rule: processScheduleFire_cases)
  case (fired s si)
  note id = find_schedule_id [OF fired(1)]
  from fired(6) obtain J R where t: "jobs w' = jobs w @ [J]" "jobRuns w' = jobRuns w @ [R]"
    "j_id J = next_id w" "jr_jobId R = next_id w" "jr_status R = Pending" "jr_hostId R = si_hostId si"
    "j_serverInstanceId J = Some (sc_serverInstanceId s)" "j_type J = effectiveJobType si s"
    "j_payload J = scheduled_payload si s" by (rule run_fire_tables)
  have free: "active_run (sc_serverInstanceId s) (effectiveJobType si s) i w = None" using fired(5) id by simp
  have named: "get (j_payload J) ''schedule_id'' = Str i"
    if "''schedule_id'' \<notin> fst ` set (case sc_payload s of Obj p \<Rightarrow> p | _ \<Rightarrow> [])"
    using scheduled_payload_id [OF that] t(9) id by simp
  have again: "jobs (snd (processScheduleFire E' ok i later v)) = jobs v \<and> jobRuns (snd (processScheduleFire E' ok i later v)) = jobRuns v"
    if "''schedule_id'' \<notin> fst ` set (case sc_payload s of Obj p \<Rightarrow> p | _ \<Rightarrow> [])"
      and v: "find_schedule i v = Some s'" "sc_serverInstanceId s' = sc_serverInstanceId s" "sc_jobType s' = sc_jobType s"
        "findUnique si_id (sc_serverInstanceId s) (serverInstances v) = Some si'" "si_gameType si' = si_gameType si"
        "find_job (j_id J) v = Some J" "x \<in> set (jobRuns v)" "jr_jobId x = j_id J" "jr_status x \<in> {Pending, Running}"
    for v s' si' x E' ok later
  proof (rule busy_no_job [OF v(1)])
    show "findUnique si_id (sc_serverInstanceId s') (serverInstances v) = Some si'" using v(2,4) by simp
    have "effectiveJobType si' s' = effectiveJobType si s" using v(3,5) by (simp add: effectiveJobType_def)
    then show "active_run (sc_serverInstanceId s') (effectiveJobType si' s') i v \<noteq> None"
      unfolding active_run_None using v(2,6-9) t(7,8) named [OF that(1)] by fastforce
  qed
  note idle = free [unfolded active_run_None]
  have run: "jr_jobId R = j_id J" using t(3,4) by simp
  have after: "''schedule_id'' \<notin> fst ` set (case sc_payload s of Obj p \<Rightarrow> p | _ \<Rightarrow> []) \<longrightarrow>
      get (j_payload J) ''schedule_id'' = Str i \<and>
      (\<forall>v s' si' x E' ok later. find_schedule i v = Some s' \<and> sc_serverInstanceId s' = sc_serverInstanceId s \<and>
         sc_jobType s' = sc_jobType s \<and> findUnique si_id (sc_serverInstanceId s) (serverInstances v) = Some si' \<and>
         si_gameType si' = si_gameType si \<and> find_job (j_id J) v = Some J \<and> x \<in> set (jobRuns v) \<and> jr_jobId x = j_id J \<and>
         jr_status x \<in> {Pending, Running} \<longrightarrow>
         jobs (snd (processScheduleFire E' ok i later v)) = jobs v \<and>
         jobRuns (snd (processScheduleFire E' ok i later v)) = jobRuns v)"
    by (intro impI conjI allI; (elim conjE)?) (blast dest: named again)+
  show ?thesis
    by (intro disjI2 exI [of _ s] exI [of _ si] exI [of _ J] exI [of _ R] conjI) (fact fired(1-4) idle t run after)+
qed (use skip_busy_same_jobs in \<open>auto simp: same_jobs_def\<close>)

definition sample_schedule :: schedule where
  "sample_schedule = \<lparr>sc_id = ''sc'', sc_orgId = ''o'', sc_serverInstanceId = ''s1'', sc_name = ''nightly'',
     sc_cronExpression = ''bad'', sc_jobType = ''SERVER_RESTART'', sc_payload = Null, sc_enabled = True,
     sc_executionWindowStart = None, sc_executionWindowEnd = None, sc_lastRunAt = None,
     sc_nextRunAt = Some 100, sc_lastRunStatus = None, sc_lastRunJobId = None, sc_skipNextRun = False,
     sc_skipNextRunReason = None, sc_skipNextRunRequestedAt = None, sc_runCount = 0,
     sc_failureCount = 0, sc_retryMax = None, sc_retryBackoffMs = None, sc_createdById = None,
     sc_createdAt = 0\<rparr>"

definition sample_scheduled :: world where
  "sample_scheduled = sample_world\<lparr>schedules := [sample_schedule]\<rparr>"

theorem processScheduleFire_no_stacking_witness:
  "jobs (snd (processScheduleFire sample_env True ''sc'' 200 (snd (processScheduleFire sample_env True ''sc'' 100 sample_scheduled)))) =
     jobs (snd (processScheduleFire sample_env True ''sc'' 100 sample_scheduled))"
proof -
  let ?w = "snd (processScheduleFire sample_env True ''sc'' 100 sample_scheduled)"
  obtain r where f: "processScheduleFire sample_env True ''sc'' 100 sample_scheduled = (r, ?w)" by (metis surjective_pairing)
  have 0: "length (jobs ?w) = 1" "jobs sample_scheduled = []" "jobRuns sample_scheduled = []"
    "map_option sc_payload (find_schedule ''sc'' sample_scheduled) = Some Null"
    "map_option (\<lambda>s. (sc_serverInstanceId s, sc_jobType s)) (find_schedule ''sc'' sample_scheduled) = Some (''s1'', ''SERVER_RESTART'')"
    "map_option (\<lambda>s. (sc_serverInstanceId s, sc_jobType s)) (find_schedule ''sc'' ?w) = Some (''s1'', ''SERVER_RESTART'')"
    "map_option si_gameType (findUnique si_id ''s1'' (serverInstances ?w)) = Some ''minecraft''"
    "map_option si_gameType (findUnique si_id ''s1'' (serverInstances sample_scheduled)) = Some ''minecraft''"
    by code_simp+
  obtain s' si' where s': "find_schedule ''sc'' ?w = Some s'" "sc_serverInstanceId s' = ''s1''" "sc_jobType s' = ''SERVER_RESTART''"
    "findUnique si_id ''s1'' (serverInstances ?w) = Some si'" "si_gameType si' = ''minecraft''"
    using 0(6,7) by auto
  from processScheduleFire_no_stacking [OF f] show ?thesis
  proof (elim disjE exE conjE)
    assume "jobs ?w = jobs sample_scheduled"
    with 0(1,2) show ?thesis by simp
  next
    fix s si J R
    assume s: "find_schedule ''sc'' sample_scheduled = Some s" "findUnique si_id (sc_serverInstanceId s) (serverInstances sample_scheduled) = Some si"
      and J: "jobs ?w = jobs sample_scheduled @ [J]" "jobRuns ?w = jobRuns sample_scheduled @ [R]" "jr_jobId R = j_id J" "jr_status R = Pending"
      and later: "''schedule_id'' \<notin> fst ` set (case sc_payload s of Obj p \<Rightarrow> p | _ \<Rightarrow> []) \<longrightarrow>
        get (j_payload J) ''schedule_id'' = Str ''sc'' \<and>
        (\<forall>v s' si' x E' ok later. find_schedule ''sc'' v = Some s' \<and> sc_serverInstanceId s' = sc_serverInstanceId s \<and>
           sc_jobType s' = sc_jobType s \<and> findUnique si_id (sc_serverInstanceId s) (serverInstances v) = Some si' \<and>
           si_gameType si' = si_gameType si \<and> find_job (j_id J) v = Some J \<and> x \<in> set (jobRuns v) \<and> jr_jobId x = j_id J \<and>
           jr_status x \<in> {Pending, Running} \<longrightarrow>
           jobs (snd (processScheduleFire E' ok ''sc'' later v)) = jobs v \<and>
           jobRuns (snd (processScheduleFire E' ok ''sc'' later v)) = jobRuns v)"
    have "sc_serverInstanceId s = ''s1''" "sc_jobType s = ''SERVER_RESTART''" "sc_payload s = Null" using 0(4,5) s(1) by simp_all
    moreover from this have "si_gameType si = ''minecraft''" using 0(8) s(2) by simp
    moreover have "find_job (j_id J) ?w = Some J" by (simp add: find_job_def J(1) 0(2) findUnique_Cons)
    moreover have "R \<in> set (jobRuns ?w)" by (simp add: J(2))
    ultimately show ?thesis using later J(3,4) s' by (fastforce dest!: spec [of _ ?w] mp)
  qed
qed

text \<open>A skip is used up by exactly one fire. Firing an enabled restart schedule that is told
  to skip adds no job, clears the request and records why; the schedule's other settings and its
  counters stay as they were, so the following fire is an ordinary one.\<close>

lemma skip_consumed_once:
  assumes "find_schedule i w = Some s" and "sc_enabled s" and "sc_skipNextRun s"
    and "isRestartJob (sc_jobType s)"
    and "findUnique si_id (sc_serverInstanceId s) (serverInstances w) = Some si"
    and "processScheduleFire E addOk i now w = (r, w')"
  shows "r = Inr () \<and> jobs w' = jobs w \<and> jobRuns w' = jobRuns w \<and> orgQueues w' = orgQueues w \<and>
    (\<exists>s'. find_schedule i w' = Some s' \<and> \<not> sc_skipNextRun s' \<and> sc_enabled s' \<and>
       sc_jobType s' = sc_jobType s \<and> sc_runCount s' = sc_runCount s \<and>
       sc_failureCount s' = sc_failureCount s \<and>
       sc_lastRunStatus s' = Some (if sc_skipNextRunReason s = Some ''stability_restart''
         then ''skipped_stability_restart'' else ''skipped_by_operator''))"
proof -
  have "r = Inr ()" and w': "w' = skip_fire E s now w"
    using assms by (simp_all add: processScheduleFire_def)
  have "find_schedule i (skip_fire E s now w) = map_option (\<lambda>x. set_next (computeNextRun E s now)
      (x\<lparr>sc_lastRunAt := Some now, sc_lastRunStatus := Some (if sc_skipNextRunReason s = Some ''stability_restart''
         then ''skipped_stability_restart'' else ''skipped_by_operator''), sc_skipNextRun := False,
        sc_skipNextRunReason := None, sc_skipNextRunRequestedAt := None\<rparr>)) (find_schedule i w)"
    using find_schedule_id [OF assms(1)]
    by (simp add: skip_fire_def Let_def find_schedule_def set_schedule_def findUnique_updateRow)
  with assms(1,2) w' \<open>r = Inr ()\<close> show ?thesis
    by (simp add: skip_fire_def Let_def)
qed

definition sample_skip :: world where
  "sample_skip = sample_world\<lparr>schedules := [sample_schedule\<lparr>sc_skipNextRun := True\<rparr>]\<rparr>"

text \<open>Asking to skip the next automatic restart marks at most one schedule, and it is the
  enabled restart schedule of that server with the earliest coming run.\<close>

lemma skipNextAutoRestart_earliest:
  assumes "skipNextAutoRestart orgId sid reason now w = (Skipped i name t, w')"
  shows "\<exists>s \<in> set (schedules w). sc_id s = i \<and> sc_enabled s \<and> sc_orgId s = orgId \<and>
    sc_serverInstanceId s = sid \<and> isRestartJob (sc_jobType s) \<and> sc_nextRunAt s = t \<and> opt_or t (now - 1) \<ge> now \<and>
    w' = set_schedule i (\<lambda>x. x\<lparr>sc_skipNextRun := True, sc_skipNextRunReason := Some reason,
      sc_skipNextRunRequestedAt := Some now\<rparr>) w \<and>
    list_all (\<lambda>s'. sc_orgId s' = orgId \<and> sc_serverInstanceId s' = sid \<and> sc_enabled s' \<and>
       sc_jobType s' \<in> {''SERVER_RESTART'', ''SERVER_SAFE_RESTART''} \<and> opt_or (sc_nextRunAt s') (now - 1) \<ge> now
       \<longrightarrow> opt_or t 0 \<le> opt_or (sc_nextRunAt s') 0) (schedules w)"
proof -
  let ?P = "\<lambda>s. sc_orgId s = orgId \<and> sc_serverInstanceId s = sid \<and> sc_enabled s \<and>
     sc_jobType s \<in> set [''SERVER_RESTART'', ''SERVER_SAFE_RESTART''] \<and>
     (case sc_nextRunAt s of None \<Rightarrow> False | Some t \<Rightarrow> now \<le> t)"
  have "toUpperCase ''SERVER_RESTART'' = ''SERVER_RESTART''"
    "toUpperCase ''SERVER_SAFE_RESTART'' = ''SERVER_SAFE_RESTART''" by code_simp+
  then have up: "?P s \<Longrightarrow> isRestartJob (sc_jobType s)" for s by (auto simp: isRestartJob_def)
  have P: "(case sc_nextRunAt s of None \<Rightarrow> False | Some t \<Rightarrow> now \<le> t) = (opt_or (sc_nextRunAt s) (now - 1) \<ge> now)" for s
    by (simp add: opt_or_def split: option.split)
  from assms obtain s where s: "List.find ?P (orderAsc (\<lambda>s. opt_key (sc_nextRunAt s)) (schedules w)) = Some s"
    and e: "sc_id s = i" "sc_nextRunAt s = t"
      "w' = set_schedule i (\<lambda>x. x\<lparr>sc_skipNextRun := True, sc_skipNextRunReason := Some reason,
         sc_skipNextRunRequestedAt := Some now\<rparr>) w"
    unfolding skipNextAutoRestart_def by (fastforce split: option.splits if_splits)
  have "s \<in> set (schedules w)" "?P s" using find_Some_set [OF s] by auto
  moreover have "list_all (\<lambda>s'. ?P s' \<longrightarrow> opt_or t 0 \<le> opt_or (sc_nextRunAt s') 0) (schedules w)"
    using orderAsc_find_least [OF s] e by (auto simp: list_all_iff opt_key_def)
  ultimately show ?thesis using e up P by (intro bexI [of _ s]) (auto simp: list_all_iff)
qed

lemma fresh_job: "store_wf w \<Longrightarrow> findUnique j_id (next_id w) (jobs w) = None"
  using next_id_fresh [of w] by (auto simp: store_wf_def findUnique_None list_all_iff)

lemma failed_fire_schedule:
  assumes "run_fire E False si s now w = (r, w')" and "find_schedule i w = Some s"
  shows "orgQueues w' = orgQueues w" and "\<exists>s'. find_schedule i w' = Some s' \<and> sc_id s' = i \<and>
    sc_jobType s' = sc_jobType s \<and> sc_serverInstanceId s' = sc_serverInstanceId s \<and>
    sc_failureCount s' = sc_failureCount s + 1"
  using assms find_schedule_id [OF assms(2)]
  by (auto simp: run_fire_def create_job_def create_run_def draw_def Let_def find_schedule_def
      set_schedule_def findUnique_updateRow)

text \<open>What a failed enqueue leaves behind. When adding the job of a fire to the organization's
  queue fails, the run stays pending although no queue holds it, so no agent will ever get it; and
  from then on every fire of the schedule sees that run as still active and adds no job. The
  failure itself is counted twice.\<close>

lemma failed_enqueue_blocks_schedule:
  assumes "store_wf w" and "find_schedule i w = Some s"
    and "findUnique si_id (sc_serverInstanceId s) (serverInstances w) = Some si"
    and "get (scheduled_payload si s) ''schedule_id'' = Str i"
    and "processScheduleFire E False i now w = (Inl e, w')"
  shows "orgQueues w' = orgQueues w \<and> (\<exists>R. jobRuns w' = jobRuns w @ [R] \<and> jr_status R = Pending) \<and>
    jobRuns (snd (processScheduleFire E' addOk' i now' w')) = jobRuns w' \<and>
    (\<exists>s'. find_schedule i (worker_fire E False i now w) = Some s' \<and>
       sc_failureCount s' = sc_failureCount s + 2)"
proof -
  have run: "run_fire E False si s now w = (Inl e, w')"
    using assms(5) by (cases rule: processScheduleFire_cases) (use assms(2,3) in auto)
  from run obtain J R where t: "jobs w' = jobs w @ [J]" "jobRuns w' = jobRuns w @ [R]"
    "j_id J = next_id w" "jr_jobId R = next_id w" "jr_status R = Pending"
    "j_serverInstanceId J = Some (sc_serverInstanceId s)" "j_type J = effectiveJobType si s"
    "j_payload J = scheduled_payload si s" "serverInstances w' = serverInstances w"
    by (rule run_fire_tables)
  obtain s' where s': "find_schedule i w' = Some s'" "sc_id s' = i" "sc_jobType s' = sc_jobType s"
    "sc_serverInstanceId s' = sc_serverInstanceId s" "sc_failureCount s' = sc_failureCount s + 1"
    using failed_fire_schedule(2) [OF run assms(2)] by blast
  have "find_job (next_id w) w' = Some J"
    using fresh_job [OF assms(1)] t by (simp add: find_job_def findUnique_append findUnique_Cons)
  then have act: "active_run (sc_serverInstanceId s) (effectiveJobType si s) i w' \<noteq> None"
    using t assms(4) by (auto simp: active_run_def find_None_set)
  have eff: "effectiveJobType si s' = effectiveJobType si s" using s' by (simp add: effectiveJobType_def)
  have "jobRuns (snd (processScheduleFire E' addOk' i now' w')) = jobRuns w'"
  proof (cases "processScheduleFire E' addOk' i now' w'" rule: prod.exhaust)
    case (Pair r w2)
    then show ?thesis
    proof (cases rule: processScheduleFire_cases)
      case (fired x sx)
      with s' t(9) assms(3) have "x = s'" "sx = si" by auto
      with fired(5) s' act eff show ?thesis by simp
    qed (use Pair skip_busy_same_jobs in \<open>auto simp: same_jobs_def\<close>)
  qed
  moreover have "find_schedule i (worker_fire E False i now w) =
      Some (s'\<lparr>sc_lastRunStatus := Some ''scheduler_failed'', sc_failureCount := sc_failureCount s' + 1\<rparr>)"
    using s' assms(5) by (simp add: worker_fire_def handleWorkerFailure_def find_schedule_set)
  ultimately show ?thesis using failed_fire_schedule(1) [OF run assms(2)] t(2,5) s'(5) by auto
qed

end
