(* ===== verification/Job_Report.thy ===== *)
theory Job_Report
  imports Players Scheduler
begin

text \<open>
  What the agents call: the polling and reporting half of control-plane/src/jobs/jobs.service.ts
  (\<open>markJobRunStarted\<close>, \<open>reportJobProgress\<close>, \<open>reportJobResult\<close>, the sweep
  \<open>failStaleRunningJobs\<close>), agent-jobs.controller.ts (\<open>poll\<close>) and
  agent-stability.controller.ts (\<open>evaluate\<close>). A time that is stored as an ISO string in a JSON
  column is represented by its milliseconds.

  Shown: a result is accepted exactly for a running run of the reporting host and settles that
  run and no other; the sweep fails exactly the silent runs; a poll ends at its deadline; a
  memory restart is not repeated while one is active or recent.
\<close>

section \<open>Definitions\<close>

record reportResult =
  dto_status :: string
  dto_durationMs :: "rat option"
  dto_errorMessage :: "string option"
  dto_output :: "string option"
  dto_result :: "obj option"

definition STALE_MS :: ms where "STALE_MS = 3 * 60000"

definition heartbeat :: "jobRun \<Rightarrow> ms" where
  \<comment> \<open>\<open>Date.parse(String(result.updatedAt ?? '')) || run.startedAt?.getTime() || 0\<close>\<close>
  "heartbeat r =
     (let parsed = (case get (jr_result r) ''updatedAt'' of Num n \<Rightarrow> if isInteger n then num_int n else 0 | _ \<Rightarrow> 0)
      in if parsed \<noteq> 0 then parsed else opt_or (jr_startedAt r) 0)"

definition release_run :: "ms \<Rightarrow> world \<Rightarrow> jobRun \<Rightarrow> world" where
  "release_run now w run =
     (if now - STALE_MS \<le> heartbeat run then w
      else set_run (jr_id run) (\<lambda>r. if jr_status r = Running
        then r\<lparr>jr_status := Failed, jr_finishedAt := Some now,
               jr_result := spread (jr_result run) [(''errorMessage'',
                 Str ''Agent stopped reporting progress; job released as stale. Retry if still needed.''),
                 (''recoveredAt'', JInt now)]\<rparr>
        else r) w)"

definition failStaleRunningJobs :: "ms \<Rightarrow> world \<Rightarrow> world" where
  "failStaleRunningJobs now w =
     foldl (release_run now) w (filter (\<lambda>r. jr_status r = Running) (jobRuns w))"

definition markJobRunStarted :: "id \<Rightarrow> id \<Rightarrow> ms \<Rightarrow> world \<Rightarrow> world" where
  "markJobRunStarted hostId jobRunId now w =
     (case find_run jobRunId w of
        None \<Rightarrow> w
      | Some run \<Rightarrow>
          if jr_hostId run \<noteq> hostId then w
          else if jr_status run \<noteq> Pending then w
          else
            let w1 = set_run jobRunId (\<lambda>r. r\<lparr>jr_status := Running, jr_startedAt := Some now\<rparr>) w
            in (case find_job (jr_jobId run) w of
                  None \<Rightarrow> w1
                | Some job \<Rightarrow> if j_batchId job = None then w1 else recordJobRunStarted (j_orgId job) (jr_jobId run) w1))"

definition not_running :: "run_status \<Rightarrow> exn" where
  "not_running s = BadRequestException (''Job run is not running (status: '' @ status_str s @ '')'')"

definition reportJobProgress :: "id \<Rightarrow> id \<Rightarrow> string \<Rightarrow> string option \<Rightarrow> ms \<Rightarrow> world \<Rightarrow> unit res \<times> world" where
  "reportJobProgress hostId jobRunId phase message now w =
     (case find_run jobRunId w of
        None \<Rightarrow> (Inl (NotFoundException ''Job run not found''), w)
      | Some run \<Rightarrow>
          if jr_hostId run \<noteq> hostId then (Inl (BadRequestException ''Job run does not belong to this host''), w)
          else if jr_status run \<noteq> Running then (Inl (not_running (jr_status run)), w)
          else (Inr (), set_run jobRunId (\<lambda>r. r\<lparr>jr_result := [(''phase'', Str phase)] @
                 (case message of Some m \<Rightarrow> if m \<noteq> [] then [(''message'', Str m)] else [] | None \<Rightarrow> []) @
                 [(''updatedAt'', JInt now)]\<rparr>) w))"

definition catalog_json :: "itemCatalogView \<Rightarrow> js" where
  "catalog_json c = Obj [(''items'', Arr (map Str (ic_items c))), (''count'', JInt (int (ic_count c))),
     (''files'', case ic_files c of None \<Rightarrow> Undefined | Some n \<Rightarrow> JInt n), (''truncated'', Bool (ic_truncated c))]"

definition opt_obj :: "obj option \<Rightarrow> js" where
  "opt_obj x = (case x of None \<Rightarrow> Undefined | Some o' \<Rightarrow> Obj o')"

definition report_result :: "env \<Rightarrow> job \<Rightarrow> run_status \<Rightarrow> reportResult \<Rightarrow> obj" where
  "report_result E job status dto =
     [(''durationMs'', case dto_durationMs dto of None \<Rightarrow> Undefined | Some d \<Rightarrow> Num (Fin d)),
      (''errorMessage'', js_opt (dto_errorMessage dto)), (''output'', js_opt (dto_output dto)),
      (''data'', if status = Success \<and> j_type job = ''ITEM_CATALOG''
                 then catalog_json (catalogFromAgentResult (e_gunzip E) (e_sortNames E) (opt_obj (dto_result dto)))
                 else opt_obj (dto_result dto))]"

text \<open>The steps that follow the update of the run, in the order of the code.\<close>

definition upload_cleanup :: "job \<Rightarrow> world \<Rightarrow> world" where
  \<comment> \<open>the file is in the directory \<open>MOD_UPLOAD_DIR\<close>\<close>
  "upload_cleanup job w =
     (let uploadId = str_of (get (j_payload job) ''uploadId'') in
      if (j_type job = ''MOD_UPLOAD_QUARANTINE'' \<or> j_type job = ''MOD_UPLOAD_PENDING'') \<and>
         length uploadId = 36 \<and> list_all (\<lambda>c. is_hex c \<or> c = CHR ''-'') uploadId
      then w\<lparr>effects := effects w @ [Unlink (uploadId @ ''.zip'')]\<rparr> else w)"

definition maintenance_done :: "job \<Rightarrow> run_status \<Rightarrow> world \<Rightarrow> world" where
  "maintenance_done job status w =
     (case j_serverInstanceId job of
        Some sid \<Rightarrow>
          if j_type job = ''SERVER_MAINTENANCE'' \<and> status = Success then
            (let enabled = (get (j_payload job) ''enabled'' = Bool True)
             in w\<lparr>serverInstances := updateRow si_id sid (\<lambda>s. s\<lparr>si_maintenanceMode := enabled,
                   si_rebootIfDown := (if enabled then False else si_rebootIfDown s)\<rparr>) (serverInstances w)\<rparr>)
          else w
      | None \<Rightarrow> w)"

definition stability_skip :: "job \<Rightarrow> run_status \<Rightarrow> ms \<Rightarrow> world \<Rightarrow> world" where
  "stability_skip job status now w =
     (case j_serverInstanceId job of
        Some sid \<Rightarrow>
          if j_type job = ''SERVER_SAFE_RESTART'' \<and> status = Success \<and>
             get (j_payload job) ''trigger'' = Str ''stability_memory''
          then snd (skipNextAutoRestart (j_orgId job) sid ''stability_restart'' now w) else w
      | None \<Rightarrow> w)"

definition roster_done :: "env \<Rightarrow> job \<Rightarrow> run_status \<Rightarrow> reportResult \<Rightarrow> ms \<Rightarrow> world \<Rightarrow> unit res \<times> world" where
  "roster_done E job status dto now w =
     (case j_serverInstanceId job of
        Some sid \<Rightarrow>
          if j_type job = ''PLAYER_LIST_SYNC'' \<and> status = Success then
            (case parseMinecraftRoster (opt_obj (dto_result dto)) of
               None \<Rightarrow> (Inr (), w)
             | Some rows \<Rightarrow> enforceConnectionTools E (j_orgId job) sid rows now
                              (applyPlayerRoster E (j_orgId job) sid rows now w))
          else (Inr (), w)
      | None \<Rightarrow> (Inr (), w))"

definition is_string :: "js \<Rightarrow> bool" where
  "is_string v = (case v of Str _ \<Rightarrow> True | _ \<Rightarrow> False)"

definition grants_done :: "env \<Rightarrow> job \<Rightarrow> run_status \<Rightarrow> reportResult \<Rightarrow> ms \<Rightarrow> world \<Rightarrow> world" where
  "grants_done E job status dto now w =
     (let w1 = (if j_type job = ''RCON'' \<and> get (j_payload job) ''purpose'' = Str ''shop_grant'' \<and>
                   is_string (get (j_payload job) ''donationLineId'')
                then finishShopGrant E (j_payload job) (status = Success) (opt_or (dto_output dto) []) now w else w)
      in if j_type job = ''TRIGGER_GRANT_ITEMS''
         then completeItemGrant (j_payload job) (status = Success)
                (opt_or (dto_output dto) [] @ '' '' @ opt_or (dto_errorMessage dto) []) w1
         else w1)"

definition report_effects :: "env \<Rightarrow> job \<Rightarrow> run_status \<Rightarrow> reportResult \<Rightarrow> ms \<Rightarrow> world \<Rightarrow> unit res \<times> world" where
  "report_effects E job status dto now w =
     (case roster_done E job status dto now
             (stability_skip job status now (maintenance_done job status (upload_cleanup job w))) of
        (Inl e, w1) \<Rightarrow> (Inl e, w1)
      | (Inr _, w1) \<Rightarrow> (Inr (), grants_done E job status dto now w1))"

definition reportJobResult :: "env \<Rightarrow> id \<Rightarrow> id \<Rightarrow> reportResult \<Rightarrow> ms \<Rightarrow> world \<Rightarrow> unit res \<times> world" where
  \<comment> \<open>a run always has its job (a foreign key); the branch without one is not reached\<close>
  "reportJobResult E hostId jobRunId dto now w =
     (case find_run jobRunId w of
        None \<Rightarrow> (Inl (NotFoundException ''Job run not found''), w)
      | Some run \<Rightarrow>
          if jr_hostId run \<noteq> hostId then (Inl (BadRequestException ''Job run does not belong to this host''), w)
          else if jr_status run \<noteq> Running then (Inl (not_running (jr_status run)), w)
          else (case find_job (jr_jobId run) w of
                  None \<Rightarrow> (Inl (NotFoundException ''Job run not found''), w)
                | Some job \<Rightarrow>
                    let status = (if dto_status dto = ''success'' then Success else Failed);
                        w1 = set_run jobRunId (\<lambda>r. r\<lparr>jr_status := status, jr_finishedAt := Some now,
                               jr_result := report_result E job status dto\<rparr>) w
                    in (case report_effects E job status dto now w1 of
                          (Inl e, w2) \<Rightarrow> (Inl e, w2)
                        | (Inr _, w2) \<Rightarrow>
                            (Inr (), if j_batchId job = None then w2
                                     else recordJobRunCompleted (j_orgId job) (jr_jobId run) status Running now w2))))"

text \<open>One turn of the polling loop, and the loop: each further turn comes after a pause in which the
  rest of the system moves (the function paired with the time of the turn). None: still waiting.\<close>

definition poll_once :: "env \<Rightarrow> id \<Rightarrow> id \<Rightarrow> bool \<Rightarrow> ms \<Rightarrow> world \<Rightarrow> queueJob option \<times> world" where
  "poll_once E orgId hostId busy now w =
     (case getNextJobForHost (e_getJobs E) (e_removable E) orgId hostId busy w of
        (None, w1) \<Rightarrow> (None, w1)
      | (Some job, w1) \<Rightarrow> (Some job, markJobRunStarted hostId (q_jobRunId job) now w1))"

definition poll_wait :: "js \<Rightarrow> ms" where
  \<comment> \<open>\<open>Math.min(25_000, Math.max(0, Number(wait) * 1000 || 0))\<close>\<close>
  "poll_wait wait = (case to_num wait of NaN \<Rightarrow> 0 | Infinite b \<Rightarrow> (if b then 25000 else 0)
     | Fin q \<Rightarrow> min 25000 (max 0 \<lceil>q * 1000\<rceil>))"

fun poll_loop ::
    "env \<Rightarrow> id \<Rightarrow> id \<Rightarrow> bool \<Rightarrow> ms \<Rightarrow> (ms \<times> (world \<Rightarrow> world)) list \<Rightarrow> world \<Rightarrow> (queueJob option \<times> world) option" where
  "poll_loop E orgId hostId busy deadline [] w = None"
| "poll_loop E orgId hostId busy deadline ((now, pause) # turns) w =
     (case poll_once E orgId hostId busy now (pause w) of
        (Some job, w1) \<Rightarrow> Some (Some job, w1)
      | (None, w1) \<Rightarrow> if deadline \<le> now then Some (None, w1)
                      else poll_loop E orgId hostId busy deadline turns w1)"

definition poll :: "env \<Rightarrow> id \<Rightarrow> js \<Rightarrow> js \<Rightarrow> ms \<Rightarrow> (ms \<times> (world \<Rightarrow> world)) list \<Rightarrow> world \<Rightarrow> (queueJob option \<times> world) option" where
  "poll E hostId wait mutationBusy start turns w =
     (case findUnique h_id hostId (hosts w) of
        None \<Rightarrow> Some (None, w)
      | Some host \<Rightarrow> poll_loop E (h_orgId host) hostId (mutationBusy = Str ''true'') (start + poll_wait wait) turns w)"

datatype stability =
    Disabled | BelowLimit int | RestartAlreadyQueued id | Cooldown ms | Triggered int id id

definition evaluate_stability :: "id \<Rightarrow> js \<Rightarrow> js \<Rightarrow> ms \<Rightarrow> world \<Rightarrow> stability res \<times> world" where
  "evaluate_stability hostId serverInstanceId0 memory now w =
     (let sid = trim (str_of serverInstanceId0); n = to_num memory; memoryBytes = num_int n in
      if sid = [] \<or> \<not> isInteger n \<or> \<bar>memoryBytes\<bar> > 2 ^ 53 - 1 \<or> memoryBytes < 0
      then (Inl (BadRequestException ''serverInstanceId and a non-negative integer memoryBytes are required''), w)
      else
        (case List.find (\<lambda>s. si_id s = sid \<and> si_hostId s = hostId \<and> si_gameType s = ''minecraft'') (serverInstances w) of
           None \<Rightarrow> (Inl (NotFoundException ''Minecraft server instance not found on this host''), w)
         | Some server \<Rightarrow>
             (case findUnique o_id (si_orgId server) (orgs w) of
                None \<Rightarrow> (Inl (NotFoundException ''Minecraft server instance not found on this host''), w)
              | Some org \<Rightarrow>
                  let limitBytes = o_stabilityRestartMemoryGiB org * 1024 * 1024 * 1024;
                      of_server = (\<lambda>j. j_serverInstanceId j = Some (si_id server) \<and> j_type j = ''SERVER_SAFE_RESTART'')
                  in if \<not> o_stabilityRestartEnabled org then (Inr Disabled, w)
                     else if memoryBytes < limitBytes then (Inr (BelowLimit limitBytes), w)
                     else
                       (case List.find (\<lambda>r. jr_hostId r = hostId \<and> jr_status r \<in> {Pending, Running} \<and>
                                (case find_job (jr_jobId r) w of None \<Rightarrow> False | Some j \<Rightarrow> of_server j)) (jobRuns w) of
                          Some active \<Rightarrow> (Inr (RestartAlreadyQueued (jr_id active)), w)
                        | None \<Rightarrow>
                            (case List.find (\<lambda>j. of_server j \<and> now - o_stabilityRestartCooldownMinutes org * 60000 \<le> j_createdAt j)
                                     (orderDesc j_createdAt (jobs w)) of
                               Some recent \<Rightarrow> (Inr (Cooldown (j_createdAt recent + o_stabilityRestartCooldownMinutes org * 60000)), w)
                             | None \<Rightarrow>
                                 (case enqueueInternalJob (si_orgId server) None (si_id server) ''SERVER_SAFE_RESTART''
                                         (Some [(''retention_count'', JInt 10), (''trigger'', Str ''stability_memory''),
                                           (''stability_memory_bytes'', JInt memoryBytes),
                                           (''stability_memory_limit_bytes'', JInt limitBytes)]) now w of
                                    (Inl e, w1) \<Rightarrow> (Inl e, w1)
                                  | (Inr (jobId, runId), w1) \<Rightarrow> (Inr (Triggered limitBytes jobId runId), w1)))))))"

section \<open>What the handlers keep\<close>

text \<open>A handler is sound when it keeps the tables well formed and the counters of every batch in
  agreement with its runs, whatever tally of lost runs they agree with, moves every run only along its
  life cycle and gives no new run an old id.\<close>

definition sound :: "world \<Rightarrow> world \<Rightarrow> bool" where
  "sound w w' \<longleftrightarrow> (\<forall>lost. store_wf w \<and> accounted_with lost w \<longrightarrow>
     store_wf w' \<and> accounted_with lost w' \<and> runs_le w w' \<and> runs_fresh w w')"

interpretation sound: state_preorder sound
  by unfold_locales
    (auto simp: sound_def lifecycle.refl_R fresh_ids.refl_R intro: lifecycle.trans_R fresh_ids.trans_R)

lemma soundD:
  assumes "sound w w'" and "store_wf w" and "accounted w"
  shows "store_wf w' \<and> accounted w'"
  using assms by (auto simp: sound_def accounted_none)

lemma ext_sound: "jobs_ext w w' \<Longrightarrow> sound w w'"
  using jobs_ext_wf jobs_ext_accounted jobs_ext_runs_le jobs_ext_fresh store_wfD(1) unfolding sound_def by blast

lemma same_sound: "same_jobs w w' \<Longrightarrow> sound w w'"
  by (rule ext_sound [OF same_jobs_ext])

lemma recordJobRun_runs [simp]:
  "jobRuns (recordJobRunCompleted o' j s p now w) = jobRuns w"
  "jobRuns (recordJobRunStarted o' j w) = jobRuns w"
  by (simp_all add: recordJobRunCompleted_def recordJobRunStarted_def emitProgress_def set_batch_def Let_def
      split: option.split prod.split)

lemma recordJobRun_ids:
  "idgen (recordJobRunCompleted o' j s p now w) = idgen w" "idctr (recordJobRunCompleted o' j s p now w) = idctr w"
  "idgen (recordJobRunStarted o' j w) = idgen w" "idctr (recordJobRunStarted o' j w) = idctr w"
  by (simp_all add: recordJobRunCompleted_def recordJobRunStarted_def Let_def split: option.split)

lemma find_run_same: "jobRuns w' = jobRuns w \<Longrightarrow> find_run i w' = find_run i w"
  by (simp add: find_run_def)

subsection \<open>Results\<close>

lemma effects_same:
  "same_jobs w (upload_cleanup job w)" "same_jobs w (maintenance_done job s w)" "same_jobs w (stability_skip job s now w)"
  by (simp_all add: upload_cleanup_def maintenance_done_def stability_skip_def skipNextAutoRestart_def set_schedule_def
      same_jobs_def Let_def split: option.split)

lemma grants_done_ext: "jobs_ext w (grants_done E job s dto now w)"
proof -
  have 1: "jobs_ext v (finishShopGrant E p b out now v)" for v p b out
    by (rule same_jobs_ext [OF finishShopGrant_same_jobs])
  have 2: "jobs_ext v (completeItemGrant p b out v)" for v p b out
    using completeItemGrant_reward by (simp add: reward_le_def)
  show ?thesis
    unfolding grants_done_def Let_def
    by (intro appending.if_R appending.trans_R [OF appending.if_R 2] 1 appending.refl_R)
qed

lemma roster_done_ext: "\<exists>w'. roster_done E job s dto now w = (Inr (), w') \<and> jobs_ext w w'"
  using parseMinecraftRoster_ok enforce_inert applyPlayerRoster_ext
  by (fastforce simp: roster_done_def appending.refl_R split: option.split)

lemma report_effects_ext: "\<exists>w'. report_effects E job s dto now w = (Inr (), w') \<and> jobs_ext w w'"
proof -
  let ?w = "stability_skip job s now (maintenance_done job s (upload_cleanup job w))"
  have 1: "jobs_ext w ?w"
    by (rule same_jobs_ext [OF same_jobs.trans_R [OF same_jobs.trans_R [OF effects_same(1,2)] effects_same(3)]])
  obtain w1 where 2: "roster_done E job s dto now ?w = (Inr (), w1)" "jobs_ext ?w w1" using roster_done_ext by blast
  have "report_effects E job s dto now w = (Inr (), grants_done E job s dto now w1)"
    using 2(1) by (simp add: report_effects_def)
  moreover have "jobs_ext w (grants_done E job s dto now w1)"
    using appending.trans_R [OF appending.trans_R [OF 1 2(2)] grants_done_ext] .
  ultimately show ?thesis by blast
qed

lemma run_le_finish:
  "jr_status r = Running \<Longrightarrow> s \<in> {Success, Failed} \<Longrightarrow> run_le r (r\<lparr>jr_status := s, jr_finishedAt := t, jr_result := x\<rparr>)"
  by (auto simp: run_le_def terminal_def)

lemma run_le_start: "jr_status r = Pending \<Longrightarrow> run_le r (r\<lparr>jr_status := Running, jr_startedAt := t\<rparr>)"
  by (auto simp: run_le_def terminal_def)

text \<open>The two outcomes of \<open>reportJobResult\<close>.\<close>

lemma reportJobResult_cases:
  assumes "store_wf w" and "reportJobResult E h i dto now w = (r, w')"
  obtains (refused) e where "r = Inl e" "w' = w"
      "\<not> (\<exists>run. find_run i w = Some run \<and> jr_hostId run = h \<and> jr_status run = Running)"
  | (accepted) run job s x w2 where "r = Inr ()" "find_run i w = Some run" "jr_hostId run = h" "jr_status run = Running"
      "find_job (jr_jobId run) w = Some job" "s = (if dto_status dto = ''success'' then Success else Failed)"
      "jobs_ext (set_run i (\<lambda>r. r\<lparr>jr_status := s, jr_finishedAt := Some now, jr_result := x\<rparr>) w) w2"
      "w' = (if j_batchId job = None then w2 else recordJobRunCompleted (j_orgId job) (jr_jobId run) s Running now w2)"
      "x = report_result E job s dto"
proof (cases "\<exists>run. find_run i w = Some run \<and> jr_hostId run = h \<and> jr_status run = Running")
  case False
  with assms(2) refused show thesis
    by (auto simp: reportJobResult_def split: option.splits if_splits)
next
  case True
  then obtain run where run: "find_run i w = Some run" "jr_hostId run = h" "jr_status run = Running" by blast
  then have "run \<in> set (jobRuns w)" by (auto simp: find_run_def dest: findUnique_Some)
  with assms(1) obtain job where job: "find_job (jr_jobId run) w = Some job" by (rule run_job)
  let ?s = "if dto_status dto = ''success'' then Success else Failed"
  let ?w1 = "set_run i (\<lambda>r. r\<lparr>jr_status := ?s, jr_finishedAt := Some now, jr_result := report_result E job ?s dto\<rparr>) w"
  obtain w2 where e: "report_effects E job ?s dto now ?w1 = (Inr (), w2)" "jobs_ext ?w1 w2" using report_effects_ext by blast
  show thesis
  proof (rule accepted [OF _ run job refl e(2)])
    show "r = Inr ()"
      "w' = (if j_batchId job = None then w2 else recordJobRunCompleted (j_orgId job) (jr_jobId run) ?s Running now w2)"
      using assms(2) run job e(1) by (simp_all add: reportJobResult_def Let_def)
  qed simp
qed

lemma reportJobResult_sound: "sound w (snd (reportJobResult E h i dto now w))"
  unfolding sound_def
proof (intro allI impI, elim conjE)
  fix lost
  assume wf: "store_wf w" and acc: "accounted_with lost w"
  obtain r w' where rep: "reportJobResult E h i dto now w = (r, w')" by fastforce
  from wf rep show "store_wf (snd (reportJobResult E h i dto now w)) \<and> accounted_with lost (snd (reportJobResult E h i dto now w)) \<and>
    runs_le w (snd (reportJobResult E h i dto now w)) \<and> runs_fresh w (snd (reportJobResult E h i dto now w))"
  proof (cases rule: reportJobResult_cases)
    case (refused e)
    with rep wf acc show ?thesis by (simp add: lifecycle.refl_R fresh_ids.refl_R)
  next
    case (accepted run job s x w2)
    let ?f = "\<lambda>r. r\<lparr>jr_status := s, jr_finishedAt := Some now, jr_result := x\<rparr>"
    have s: "s \<in> {Success, Failed}" using accepted(6) by simp
    note fin = finish_accounted [OF wf acc accepted(2,4) _ _ _ s accepted(7,5), where now = now, simplified]
    have wf1: "store_wf (set_run i ?f w)" by (rule set_run_wf [OF _ _ wf]) simp_all
    have j2: "find_job (jr_jobId run) w2 = Some job" using jobs_ext_find_job [OF accepted(7)] accepted(5) by simp
    have w': "w' = recordJobRunCompleted (j_orgId job) (jr_jobId run) s Running now w2"
      using accepted(8) recordJobRun_none [OF jobs_ext_wf [OF wf1 accepted(7)] j2] by auto
    have 1: "runs_le w (set_run i ?f w)"
      using accepted(2,4) s by (intro set_run_le run_le_finish) simp_all
    have 2: "runs_le w2 w'" unfolding w' by (rule runs_le_same) simp
    have 3: "runs_fresh w (set_run i ?f w)" by (rule set_run_fresh) simp
    have 4: "runs_fresh w2 w'" unfolding w' by (rule runs_freshI) (simp_all add: recordJobRun_ids)
    note lifecycle.trans_R [OF lifecycle.trans_R [OF 1 jobs_ext_runs_le [OF accepted(7)]] 2]
      fresh_ids.trans_R [OF fresh_ids.trans_R [OF 3 jobs_ext_fresh [OF store_wfD(1) [OF wf1] accepted(7)]] 4]
    with fin show ?thesis unfolding rep snd_conv w' by simp
  qed
qed

subsection \<open>Starting, progress, polling\<close>

lemma markJobRunStarted_sound: "sound w (markJobRunStarted h i now w)"
  unfolding sound_def
proof (intro allI impI, elim conjE)
  fix lost
  assume wf: "store_wf w" and acc: "accounted_with lost w"
  show "store_wf (markJobRunStarted h i now w) \<and> accounted_with lost (markJobRunStarted h i now w) \<and>
    runs_le w (markJobRunStarted h i now w) \<and> runs_fresh w (markJobRunStarted h i now w)"
  proof (cases "\<exists>run. find_run i w = Some run \<and> jr_hostId run = h \<and> jr_status run = Pending")
    case False
    then have "markJobRunStarted h i now w = w" by (auto simp: markJobRunStarted_def split: option.split)
    with wf acc show ?thesis by (simp add: lifecycle.refl_R fresh_ids.refl_R)
  next
    case True
    then obtain run where run: "find_run i w = Some run" "jr_hostId run = h" "jr_status run = Pending" by blast
    then have "run \<in> set (jobRuns w)" by (auto simp: find_run_def dest: findUnique_Some)
    with wf obtain job where job: "find_job (jr_jobId run) w = Some job" by (rule run_job)
    let ?w1 = "set_run i (\<lambda>r. r\<lparr>jr_status := Running, jr_startedAt := Some now\<rparr>) w"
    have wf1: "store_wf ?w1" by (rule set_run_wf [OF _ _ wf]) simp_all
    have j1: "find_job (jr_jobId run) ?w1 = Some job" using job by simp
    have w': "markJobRunStarted h i now w = recordJobRunStarted (j_orgId job) (jr_jobId run) ?w1"
      using run job recordJobRun_none [OF wf1 j1] by (auto simp: markJobRunStarted_def Let_def)
    have 1: "runs_le w ?w1" using run by (intro set_run_le run_le_start) simp_all
    have 2: "runs_le ?w1 (markJobRunStarted h i now w)" unfolding w' by (rule runs_le_same) simp
    have 3: "runs_fresh w ?w1" by (rule set_run_fresh) simp
    have 4: "runs_fresh ?w1 (markJobRunStarted h i now w)" unfolding w' by (rule runs_freshI) (simp_all add: recordJobRun_ids)
    show ?thesis
      using start_accounted [OF wf acc run(1,3) _ _ _ job, where f = "\<lambda>r. r\<lparr>jr_status := Running, jr_startedAt := Some now\<rparr>"]
        lifecycle.trans_R [OF 1 2] fresh_ids.trans_R [OF 3 4] unfolding w' by simp
  qed
qed

lemma set_run_status_sound:
  assumes f: "\<And>r. jr_id (f r) = jr_id r" "\<And>r. jr_jobId (f r) = jr_jobId r"
    and st: "\<And>r. find_run i w = Some r \<Longrightarrow> run_le r (f r) \<and> (jr_status (f r) = jr_status r \<or>
      jr_status r = Running \<and> jr_status (f r) = Failed)"
  shows "sound w (set_run i f w)"
  unfolding sound_def
proof (intro allI impI, elim conjE)
  fix lost
  assume wf: "store_wf w" and acc: "accounted_with lost w"
  have wf1: "store_wf (set_run i f w)" by (rule set_run_wf [OF f wf])
  have le: "runs_le w (set_run i f w)" "runs_fresh w (set_run i f w)"
    using st by (auto intro!: set_run_le set_run_fresh f)
  show "store_wf (set_run i f w) \<and> accounted_with lost (set_run i f w) \<and> runs_le w (set_run i f w) \<and> runs_fresh w (set_run i f w)"
  proof (cases "find_run i w")
    case None
    then have "jobRuns (set_run i f w) = jobRuns w"
      by (simp add: find_run_def findUnique_None set_run_def updateRow_notin)
    then have "same_jobs w (set_run i f w)" by (simp add: same_jobs_def set_run_def)
    with same_jobs_inv wf acc le show ?thesis by blast
  next
    case (Some r)
    note cnt = runs_of_set_run [OF f wf Some] and nonneg = countRows_nonneg
    have B: "jobBatches (set_run i f w) = jobBatches w" by (simp add: set_run_def)
    have "counters_with lost (set_run i f w) b" if "counters_with lost w b" for b
      using that st [OF Some] cnt [of "b_id b"] by (auto simp: counters_with_def split: if_splits)
    then have "accounted_with lost (set_run i f w)" using acc B by (auto simp: accounted_with_def list_all_iff)
    with wf1 le show ?thesis by blast
  qed
qed

lemma reportJobProgress_sound: "sound w (snd (reportJobProgress h i ph m now w))"
proof (cases "\<exists>run. find_run i w = Some run \<and> jr_hostId run = h \<and> jr_status run = Running")
  case True
  then obtain run where "find_run i w = Some run" "jr_hostId run = h" "jr_status run = Running" by blast
  then show ?thesis
    by (simp add: reportJobProgress_def, intro set_run_status_sound) (simp_all add: run_le_def terminal_def)
next
  case False
  then have "snd (reportJobProgress h i ph m now w) = w"
    by (auto simp: reportJobProgress_def split: option.split)
  then show ?thesis by (simp add: sound.refl_R)
qed

lemma release_run_sound: "sound w (release_run now w run)"
proof -
  have "sound w (set_run i (\<lambda>r. if jr_status r = Running
      then r\<lparr>jr_status := Failed, jr_finishedAt := Some now, jr_result := x\<rparr> else r) w)" for i x
    by (rule set_run_status_sound) (auto simp: run_le_refl intro: run_le_finish)
  then show ?thesis by (simp add: release_run_def sound.refl_R)
qed

lemma failStale_sound: "sound w (failStaleRunningJobs now w)"
  unfolding failStaleRunningJobs_def by (intro sound.foldl_R release_run_sound)

lemma poll_once_sound: "sound w (snd (poll_once E o' h busy now w))"
proof (cases "getNextJobForHost (e_getJobs E) (e_removable E) o' h busy w")
  case (Pair j w1)
  have "same_jobs w w1"
    using Pair by (auto simp: getNextJobForHost_def remove_entry_def same_jobs_def split: option.splits)
  from same_sound [OF this] sound.trans_R [OF same_sound [OF this] markJobRunStarted_sound] Pair show ?thesis
    by (simp add: poll_once_def split: option.split)
qed

lemma evaluate_stability_ext: "jobs_ext w (snd (evaluate_stability h sid m now w))"
proof -
  have "jobs_ext w w1" if "enqueueInternalJob a b c d e now w = (r, w1)" for a b c d e r w1
    using enqueueInternalJob_ext [of w a b c d e now] that by simp
  then show ?thesis
    by (auto simp: evaluate_stability_def Let_def appending.refl_R split: option.split prod.split sum.split)
qed

subsection \<open>The sweep\<close>

definition stale :: "ms \<Rightarrow> jobRun \<Rightarrow> bool" where
  "stale now r \<longleftrightarrow> jr_status r = Running \<and> heartbeat r < now - STALE_MS"

definition released :: "ms \<Rightarrow> jobRun \<Rightarrow> jobRun" where
  "released now r = r\<lparr>jr_status := Failed, jr_finishedAt := Some now, jr_result := spread (jr_result r) [(''errorMessage'',
     Str ''Agent stopped reporting progress; job released as stale. Retry if still needed.''), (''recoveredAt'', JInt now)]\<rparr>"

definition release_row :: "ms \<Rightarrow> jobRun \<Rightarrow> jobRun \<Rightarrow> jobRun" where
  "release_row now x r = (if jr_id r = jr_id x \<and> heartbeat x < now - STALE_MS \<and> jr_status r = Running
     then r\<lparr>jr_status := Failed, jr_finishedAt := Some now, jr_result := jr_result (released now x)\<rparr> else r)"

lemma find_run_release: "find_run i (release_run now w x) = map_option (release_row now x) (find_run i w)"
proof -
  let ?f = "\<lambda>r. if jr_status r = Running then r\<lparr>jr_status := Failed, jr_finishedAt := Some now,
      jr_result := jr_result (released now x)\<rparr> else r"
  have f: "find_run i (set_run (jr_id x) ?f w) = (if i = jr_id x then map_option ?f (find_run i w) else find_run i w)"
    by (rule find_run_set_run) simp
  have res: "jr_result (released now x) = spread (jr_result x) [(''errorMessage'',
     Str ''Agent stopped reporting progress; job released as stale. Retry if still needed.''), (''recoveredAt'', JInt now)]"
    by (simp add: released_def)
  have rel: "release_run now w x = (if now - STALE_MS \<le> heartbeat x then w else set_run (jr_id x) ?f w)"
    unfolding release_run_def res by (rule refl)
  show ?thesis
  proof (cases "find_run i w")
    case (Some r)
    then have "jr_id r = i" by (auto simp: find_run_def dest: findUnique_Some)
    with Some f show ?thesis by (cases "i = jr_id x") (simp_all add: rel release_row_def)
  next
    case None
    with f show ?thesis by (cases "i = jr_id x") (simp_all add: rel)
  qed
qed

lemma find_run_sweep:
  "find_run i (foldl (release_run now) w xs) = map_option (\<lambda>r. foldl (\<lambda>r x. release_row now x r) r xs) (find_run i w)"
  by (induction xs arbitrary: w) (simp_all add: find_run_release option.map_comp comp_def option.map_ident)

lemma release_rows:
  "distinct (map jr_id xs) \<Longrightarrow> \<forall>x \<in> set xs. jr_id x = jr_id r \<longrightarrow> x = r \<Longrightarrow>
     foldl (\<lambda>r x. release_row now x r) r xs = (if r \<in> set xs \<and> stale now r then released now r else r)"
proof (induction xs rule: rev_induct)
  case (snoc x xs)
  then have IH: "foldl (\<lambda>r x. release_row now x r) r xs = (if r \<in> set xs \<and> stale now r then released now r else r)" by auto
  show ?case
  proof (cases "jr_id x = jr_id r")
    case True
    with snoc.prems have "x = r" "r \<notin> set xs" by auto
    with IH show ?thesis by (auto simp: release_row_def stale_def released_def)
  next
    case False
    moreover have "jr_id (released now r) = jr_id r" by (simp add: released_def)
    ultimately show ?thesis using IH by (auto simp: release_row_def)
  qed
qed simp

lemma find_run_failStale:
  assumes "store_wf w"
  shows "find_run i (failStaleRunningJobs now w) =
    map_option (\<lambda>r. if stale now r then released now r else r) (find_run i w)"
proof (cases "find_run i w")
  case (Some r)
  let ?xs = "filter (\<lambda>r. jr_status r = Running) (jobRuns w)"
  have r: "r \<in> set (jobRuns w)" using Some by (auto simp: find_run_def dest: findUnique_Some)
  have d: "distinct (map jr_id (jobRuns w))" by (rule store_wfD(3) [OF assms])
  then have "\<forall>x \<in> set ?xs. jr_id x = jr_id r \<longrightarrow> x = r" using r distinct_map_eq [OF d] by auto
  moreover have "distinct (map jr_id ?xs)" using d by (rule distinct_map_filter)
  ultimately show ?thesis
    using Some r release_rows [of ?xs r now]
    by (auto simp: failStaleRunningJobs_def find_run_sweep stale_def)
qed (simp add: failStaleRunningJobs_def find_run_sweep)

lemma failStale_frame:
  "jobBatches (failStaleRunningJobs now w) = jobBatches w" "jobs (failStaleRunningJobs now w) = jobs w"
  "map jr_id (jobRuns (failStaleRunningJobs now w)) = map jr_id (jobRuns w)"
proof -
  have rel: "jobBatches (release_run now v x) = jobBatches v \<and> jobs (release_run now v x) = jobs v \<and>
      map jr_id (jobRuns (release_run now v x)) = map jr_id (jobRuns v)" for v x
    by (simp add: release_run_def set_run_def map_updateRow)
  have "jobBatches (foldl (release_run now) v xs) = jobBatches v \<and> jobs (foldl (release_run now) v xs) = jobs v \<and>
      map jr_id (jobRuns (foldl (release_run now) v xs)) = map jr_id (jobRuns v)" for v xs
    by (induction xs arbitrary: v) (simp_all add: rel)
  then show "jobBatches (failStaleRunningJobs now w) = jobBatches w" "jobs (failStaleRunningJobs now w) = jobs w"
    "map jr_id (jobRuns (failStaleRunningJobs now w)) = map jr_id (jobRuns w)"
    by (simp_all add: failStaleRunningJobs_def)
qed

section \<open>Properties of reports\<close>

text \<open>C8: reporting a result. It is refused, with nothing changed, unless the run is running and
  belongs to the reporting host; otherwise that run gets the reported outcome and finish time, no
  other run there was changes, and the counters of every batch agree with its runs, whatever
  rosters, deliveries, rewards and alerts the result sets off.\<close>

theorem reportJobResult_settles:
  assumes "store_wf w" and "accounted w" and "reportJobResult E hostId i dto now w = (r, w')"
  shows "store_wf w' \<and> accounted w' \<and>
    (case r of
       Inl e \<Rightarrow> w' = w \<and> \<not> (\<exists>run. find_run i w = Some run \<and> jr_hostId run = hostId \<and> jr_status run = Running)
     | Inr _ \<Rightarrow> (\<exists>run run'. find_run i w = Some run \<and> jr_hostId run = hostId \<and> jr_status run = Running \<and>
         find_run i w' = Some run' \<and> jr_status run' = (if dto_status dto = ''success'' then Success else Failed) \<and>
         jr_finishedAt run' = Some now) \<and>
         (\<forall>k x. k \<noteq> i \<and> find_run k w = Some x \<longrightarrow> find_run k w' = Some x))"
proof -
  have inv: "store_wf w' \<and> accounted w'"
    using soundD [OF reportJobResult_sound assms(1,2), of E hostId i dto now] assms(3) by simp
  from assms(1,3) show ?thesis
  proof (cases rule: reportJobResult_cases)
    case (refused e)
    with inv show ?thesis by simp
  next
    case (accepted run job s x w2)
    let ?f = "\<lambda>r. r\<lparr>jr_status := s, jr_finishedAt := Some now, jr_result := x\<rparr>"
    obtain rs where "jobRuns w2 = jobRuns (set_run i ?f w) @ rs" using accepted(7) by (auto simp: jobs_ext_def)
    moreover have "jobRuns w' = jobRuns w2" using accepted(8) by simp
    ultimately have app: "find_run k w' = Some y" if "find_run k (set_run i ?f w) = Some y" for k y
      using that by (simp add: find_run_def findUnique_append)
    have "find_run i w' = Some (?f run)" using accepted(2) by (intro app) (simp add: find_run_set_run)
    moreover have "find_run k w' = Some y" if "k \<noteq> i" "find_run k w = Some y" for k y
      using that by (intro app) (simp add: find_run_set_run)
    ultimately show ?thesis using inv accepted(1-4,6) by auto
  qed
qed

text \<open>The sweep fails exactly the runs that are running and whose agent has been silent for more
  than three minutes, and leaves every other run as it is.\<close>

lemma failStaleRunningJobs_exact:
  assumes "store_wf w"
  shows "map (\<lambda>r. (jr_id r, jr_status r)) (jobRuns (failStaleRunningJobs now w)) =
      map (\<lambda>r. (jr_id r, if stale now r then Failed else jr_status r)) (jobRuns w) \<and>
    (\<forall>i r. find_run i w = Some r \<and> \<not> stale now r \<longrightarrow> find_run i (failStaleRunningJobs now w) = Some r)"
proof -
  let ?w = "failStaleRunningJobs now w" and ?g = "\<lambda>r. if stale now r then released now r else r"
  have d: "distinct (map jr_id (jobRuns w))" by (rule store_wfD(3) [OF assms])
  have "jobRuns ?w = map ?g (jobRuns w)"
  proof (rule nth_equalityI)
    show len: "length (jobRuns ?w) = length (map ?g (jobRuns w))" using failStale_frame(3) [of now w] by (metis length_map)
    fix n assume n: "n < length (jobRuns ?w)"
    with len have n': "n < length (jobRuns w)" by simp
    have i: "jr_id (jobRuns ?w ! n) = jr_id (jobRuns w ! n)"
      using failStale_frame(3) [of now w] n n' by (metis nth_map)
    have "find_run (jr_id (jobRuns w ! n)) ?w = Some (jobRuns ?w ! n)"
      unfolding find_run_def i [symmetric] using d n by (intro findUnique_unique) (simp_all add: failStale_frame)
    moreover have "find_run (jr_id (jobRuns w ! n)) w = Some (jobRuns w ! n)"
      unfolding find_run_def using d n' by (intro findUnique_unique) simp_all
    ultimately show "jobRuns ?w ! n = map ?g (jobRuns w) ! n" using find_run_failStale [OF assms] n' by simp
  qed
  then have "map (\<lambda>r. (jr_id r, jr_status r)) (jobRuns ?w) =
      map (\<lambda>r. (jr_id r, if stale now r then Failed else jr_status r)) (jobRuns w)"
    by (simp add: released_def)
  then show ?thesis using find_run_failStale [OF assms] by simp
qed

text \<open>The sweep leaves a batch unfinished. It does not tell the batch of the runs it fails, so when
  it releases the last active runs of a batch, the batch has no pending and no running run left and
  yet stands as running, with running runs in its counters; nothing but a cancellation ends it.\<close>

lemma stale_release_strands_batch:
  assumes "store_wf w" and "find_batch bid w = Some B" and "b_status B = ''running''" and "0 < b_runningCount B"
    and "list_all (\<lambda>r. run_batch w r = Some bid \<longrightarrow> jr_status r \<noteq> Pending \<and> (jr_status r = Running \<longrightarrow> stale now r)) (jobRuns w)"
    and w'_def: "w' = failStaleRunningJobs now w"
  shows "find_batch bid w' = Some B \<and> b_status B = ''running'' \<and> 0 < b_runningCount B \<and>
    runs_of w' bid Pending = 0 \<and> runs_of w' bid Running = 0"
proof -
  let ?g = "\<lambda>r. if stale now r then released now r else r"
  have d': "distinct (map jr_id (jobRuns w'))" using store_wfD(3) [OF assms(1)] by (simp add: w'_def failStale_frame)
  have "jr_status r' \<noteq> Pending \<and> jr_status r' \<noteq> Running" if r': "r' \<in> set (jobRuns w')" "run_batch w' r' = Some bid" for r'
  proof -
    have f: "find_run (jr_id r') w' = Some r'" unfolding find_run_def by (rule findUnique_unique [OF d' r'(1)])
    have "find_run (jr_id r') w' = map_option ?g (find_run (jr_id r') w)" unfolding w'_def by (rule find_run_failStale [OF assms(1)])
    with f obtain r where r: "find_run (jr_id r') w = Some r" "r' = ?g r" by auto
    then have "r \<in> set (jobRuns w)" by (auto simp: find_run_def dest: findUnique_Some)
    moreover have "run_batch w r = Some bid"
      using r'(2) r(2) by (auto simp: run_batch_def find_job_def released_def w'_def failStale_frame split: if_splits)
    ultimately show ?thesis using assms(5) r(2) by (auto simp: list_all_iff released_def)
  qed
  then have "runs_of w' bid Pending = 0" "runs_of w' bid Running = 0"
    by (auto simp: runs_of_def countRows_0_iff)
  then show ?thesis using assms(2-4) by (simp add: find_batch_def w'_def failStale_frame)
qed

text \<open>C9: a poll always ends. Whatever the other handlers do in the pauses, a poll whose turns reach
  its deadline answers, no later than the first turn at or after the deadline; and the time it may
  wait is between zero and 25 seconds, whatever the agent asks for.\<close>

theorem poll_terminates:
  assumes "list_ex (\<lambda>(now, pause). start + poll_wait wait \<le> now) turns"
  shows "poll E hostId wait busy start turns w \<noteq> None \<and> 0 \<le> poll_wait wait \<and> poll_wait wait \<le> 25000"
proof -
  have "list_ex (\<lambda>(now, pause). d \<le> now) ts \<Longrightarrow> poll_loop E o' hostId b d ts v \<noteq> None" for o' b d ts v
    by (induction ts arbitrary: v) (auto split: prod.split option.split)
  moreover have "0 \<le> poll_wait wait \<and> poll_wait wait \<le> 25000"
    by (auto simp: poll_wait_def split: jsnum.split)
  ultimately show ?thesis using assms by (auto simp: poll_def split: option.split)
qed

theorem poll_terminates_witness:
  "poll sample_env ''h'' (Str ''1'') Undefined 0 [(0, \<lambda>w. w), (2000, \<lambda>w. w)] sample_world \<noteq> None"
proof -
  have "poll_wait (Str ''1'') = 1000" by code_simp
  then show ?thesis
    using poll_terminates [of 0 "Str ''1''" "[(0, \<lambda>w. w), (2000, \<lambda>w. w)]" sample_env "''h''" Undefined sample_world] by simp
qed

lemma find_None_ex: "List.find P xs = None \<longleftrightarrow> \<not> list_ex P xs"
  by (induction xs) auto

definition safe_restart_of :: "id \<Rightarrow> job \<Rightarrow> bool" where
  "safe_restart_of sid j \<longleftrightarrow> j_serverInstanceId j = Some sid \<and> j_type j = ''SERVER_SAFE_RESTART''"

text \<open>Memory restarts do not pile up. A restart is triggered only for a server of that host whose
  organization enables it, at or above the limit, when none was created within the cooldown; it is
  one new pending run on that host; and while that run is pending, no further report about the
  server triggers another.\<close>

lemma evaluate_stability_once:
  assumes "store_wf w" and "distinct (map si_id (serverInstances w))"
    and "evaluate_stability hostId sid0 memory now w = (Inr (Triggered bytes j r), w')"
  shows "(\<exists>server org. server \<in> set (serverInstances w) \<and> si_hostId server = hostId \<and> si_gameType server = ''minecraft'' \<and>
      findUnique o_id (si_orgId server) (orgs w) = Some org \<and> o_stabilityRestartEnabled org \<and>
      bytes = o_stabilityRestartMemoryGiB org * 1024 * 1024 * 1024 \<and> bytes \<le> num_int (to_num memory) \<and>
      list_all (\<lambda>J. safe_restart_of (si_id server) J \<longrightarrow> j_createdAt J < now - o_stabilityRestartCooldownMinutes org * 60000) (jobs w)) \<and>
    jobRuns w' = jobRuns w @ [\<lparr>jr_id = r, jr_jobId = j, jr_hostId = hostId, jr_status = Pending,
        jr_startedAt = None, jr_finishedAt = None, jr_result = [], jr_createdAt = now\<rparr>] \<and>
    (\<forall>memory' later b' j' r'. fst (evaluate_stability hostId sid0 memory' later w') \<noteq> Inr (Triggered b' j' r'))"
proof -
  let ?sid = "trim (str_of sid0)"
  let ?srv = "\<lambda>s. si_id s = ?sid \<and> si_hostId s = hostId \<and> si_gameType s = ''minecraft''"
  from assms(3) obtain server org where s:
    "List.find ?srv (serverInstances w) = Some server"
    "findUnique o_id (si_orgId server) (orgs w) = Some org" "o_stabilityRestartEnabled org"
    "bytes = o_stabilityRestartMemoryGiB org * 1024 * 1024 * 1024" "bytes \<le> num_int (to_num memory)"
    "List.find (\<lambda>J. (j_serverInstanceId J = Some (si_id server) \<and> j_type J = ''SERVER_SAFE_RESTART'') \<and>
       now - o_stabilityRestartCooldownMinutes org * 60000 \<le> j_createdAt J) (orderDesc j_createdAt (jobs w)) = None"
    "enqueueInternalJob (si_orgId server) None (si_id server) ''SERVER_SAFE_RESTART''
       (Some [(''retention_count'', JInt 10), (''trigger'', Str ''stability_memory''),
         (''stability_memory_bytes'', JInt (num_int (to_num memory))), (''stability_memory_limit_bytes'', JInt bytes)]) now w = (Inr (j, r), w')"
    by (auto simp: evaluate_stability_def Let_def not_less split: if_splits option.splits prod.splits sum.splits)
  have server: "server \<in> set (serverInstances w)" "si_hostId server = hostId" "si_gameType server = ''minecraft''"
    using find_Some_set [OF s(1)] by auto
  have cool: "list_all (\<lambda>J. safe_restart_of (si_id server) J \<longrightarrow> j_createdAt J < now - o_stabilityRestartCooldownMinutes org * 60000) (jobs w)"
    using s(6) by (auto simp: find_None_set list_all_iff safe_restart_of_def not_le)
  have norm: "normalizeJobType ''SERVER_SAFE_RESTART'' = ''SERVER_SAFE_RESTART''" by code_simp
  from s(7) obtain si p where si: "find_server (si_id server) (si_orgId server) w = Some si"
    and d: "dispatch (si_orgId server) None si ''SERVER_SAFE_RESTART'' p now w = ((j, r), w')"
    by (auto simp: enqueueInternalJob_def norm split: option.splits prod.splits)
  have "si = server" using find_Some_set [OF si [unfolded find_server_def]] server(1) assms(2) distinct_map_eq by fastforce
  then have runs: "jobRuns w' = jobRuns w @ [\<lparr>jr_id = r, jr_jobId = j, jr_hostId = hostId, jr_status = Pending,
        jr_startedAt = None, jr_finishedAt = None, jr_result = [], jr_createdAt = now\<rparr>]"
    using dispatch_tables(2) [OF d] server(2) by simp
  have wf': "store_wf w'" using jobs_ext_wf [OF assms(1) dispatch_ext [OF d]] .
  have job: "\<exists>J. find_job j w' = Some J \<and> j_serverInstanceId J = Some (si_id server) \<and> j_type J = ''SERVER_SAFE_RESTART''"
    using find_job_wf [OF wf', of "\<lparr>j_id = j, j_orgId = si_orgId server, j_batchId = None,
        j_serverInstanceId = Some (si_id si), j_type = ''SERVER_SAFE_RESTART'', j_payload = p, j_createdById = None, j_createdAt = now\<rparr>"]
      dispatch_tables(1) [OF d] \<open>si = server\<close> by auto
  have frame: "serverInstances w' = serverInstances w" "orgs w' = orgs w"
    using d by (auto simp: dispatch_def create_job_def create_run_def addJob_def enqueue_def draw_def Let_def split: prod.splits)
  have "List.find (\<lambda>r. jr_hostId r = hostId \<and> jr_status r \<in> {Pending, Running} \<and>
      (case find_job (jr_jobId r) w' of None \<Rightarrow> False | Some j \<Rightarrow> j_serverInstanceId j = Some (si_id server) \<and> j_type j = ''SERVER_SAFE_RESTART''))
      (jobRuns w') \<noteq> None"
    using job by (auto simp: find_None_set runs)
  then obtain y where "List.find (\<lambda>r. jr_hostId r = hostId \<and> jr_status r \<in> {Pending, Running} \<and>
      (case find_job (jr_jobId r) w' of None \<Rightarrow> False | Some j \<Rightarrow> j_serverInstanceId j = Some (si_id server) \<and> j_type j = ''SERVER_SAFE_RESTART''))
      (jobRuns w') = Some y" by blast
  then have "fst (evaluate_stability hostId sid0 memory' later w') \<noteq> Inr (Triggered b' j' r')" for memory' later b' j' r'
    using s(1,2) by (simp add: evaluate_stability_def Let_def frame)
  then show ?thesis using s(2-5) server cool runs by blast
qed

text \<open>An organization with memory restarts at 1 GiB, for the witness.\<close>

definition sample_stability :: world where
  "sample_stability = sample_world\<lparr>orgs := [(new_org ''o'' ''Org'' ''org'' 0)\<lparr>o_stabilityRestartMemoryGiB := 1\<rparr>]\<rparr>"

theorem reportJobResult_settles_witness:
  "\<exists>run'. find_run ''1'' (snd (reportJobResult sample_env ''h'' ''1''
      \<lparr>dto_status = ''success'', dto_durationMs = None, dto_errorMessage = None, dto_output = None, dto_result = None\<rparr> 9
      (markJobRunStarted ''h'' ''1'' 7 (snd (createJob sample_env ''o'' ''u'' ''s1'' ''restart'' None 5 sample_world))))) = Some run' \<and>
    jr_status run' = Success"
proof -
  let ?dto = "\<lparr>dto_status = ''success'', dto_durationMs = None, dto_errorMessage = None, dto_output = None, dto_result = None\<rparr>"
  let ?w = "markJobRunStarted ''h'' ''1'' 7 (snd (createJob sample_env ''o'' ''u'' ''s1'' ''restart'' None 5 sample_world))"
  have inv: "store_wf ?w" "accounted ?w"
    using soundD [OF sound.trans_R [OF ext_sound [OF createJob_ext] markJobRunStarted_sound] sample_inv] by blast+
  have ok: "fst (reportJobResult sample_env ''h'' ''1'' ?dto 9 ?w) = Inr ()" by code_simp
  obtain w' where r: "reportJobResult sample_env ''h'' ''1'' ?dto 9 ?w = (Inr (), w')" using ok by (metis prod.collapse)
  from reportJobResult_settles [OF inv r] r show ?thesis by auto
qed

text \<open>The batch of the samples with its first run started, long ago.\<close>

definition sample_silent :: world where
  "sample_silent = markJobRunStarted ''h'' ''2'' 7 (snd (createBatch ''o'' None ''restart_wave'' [''s1''] None 5 sample_world))"

lemma sample_silent_wf: "store_wf sample_silent"
  using createBatch_counted [OF sample_inv prod.collapse [symmetric], of "''o''" None "''restart_wave''" "[''s1'']" None 5]
    soundD [OF markJobRunStarted_sound, of "snd (createBatch ''o'' None ''restart_wave'' [''s1''] None 5 sample_world)" "''h''" "''2''" 7]
  by (auto simp: sample_silent_def)

end
