(* ===== verification/Uploads.thy ===== *)
theory Uploads
  imports Portal Job_Report
begin

text \<open>
  What the job controllers do themselves (control-plane/src/jobs/jobs.controller.ts, agent-jobs.controller.ts):
  staging the mod archive a user uploads and queueing the job for it, handing the archive to the agent that runs
  the job, reading a run, listing jobs. The directory of uploads is the default one; it is part of the state here.

  Shown: an archive that is accepted reaches the host it is queued for, unchanged, and no other host; an archive
  that is refused leaves the directory and the tables as they were.
\<close>

type_synonym uploads = "string \<Rightarrow> string option"

text \<open>A file per path, one character per byte.\<close>

section \<open>Staging an archive\<close>

definition upload_path :: "string \<Rightarrow> string" where
  "upload_path uploadId = ''/var/lib/mastermind/uploads/'' @ uploadId @ ''.zip''"

definition upload_payload :: "string \<Rightarrow> uploadFile \<Rightarrow> string \<Rightarrow> bool \<Rightarrow> bool \<Rightarrow> obj" where
  "upload_payload uploadId f jobType overrideActive transferConfig =
     [(''uploadId'', Str uploadId), (''originalName'', Str (uf_originalname f)), (''sizeBytes'', JInt (uf_size f))] @
     (if jobType = ''MOD_UPLOAD_QUARANTINE'' \<and> overrideActive then [(''overrideActive'', Bool True)] else []) @
     (if jobType = ''MOD_UPLOAD_QUARANTINE'' \<and> transferConfig then [(''transferConfig'', Bool True)] else [])"

definition accept_upload :: "id \<Rightarrow> uploadFile option \<Rightarrow> uploadFile res" where
  "accept_upload serverInstanceId file =
     (if serverInstanceId = [] then Inl (BadRequestException ''Server instance is required'')
      else (case file of
        None \<Rightarrow> Inl (BadRequestException ''Choose a non-empty ZIP archive'')
      | Some f \<Rightarrow>
          if uf_buffer f = [] then Inl (BadRequestException ''Choose a non-empty ZIP archive'')
          else if \<not> zip_name (uf_originalname f) then Inl (BadRequestException ''Only .zip mod archives are supported'')
          else if \<not> zip_signature (uf_buffer f) then Inl (BadRequestException ''The uploaded file is not a valid ZIP archive'')
          else Inr f))"

definition stageModUpload :: "env \<Rightarrow> id \<Rightarrow> id \<Rightarrow> id \<Rightarrow> uploadFile option \<Rightarrow> string \<Rightarrow> bool \<Rightarrow> bool \<Rightarrow> string \<Rightarrow> ms \<Rightarrow>
    world \<times> uploads \<Rightarrow> (id \<times> id) res \<times> world \<times> uploads" where
  \<comment> \<open>\<open>uploadId\<close> is the random id; a file is only written where there is none (\<open>flag: 'wx'\<close>)\<close>
  "stageModUpload E orgId userId serverInstanceId file jobType overrideActive transferConfig uploadId now s =
     (case s of (w, disk) \<Rightarrow>
      (case accept_upload serverInstanceId file of
         Inl e \<Rightarrow> (Inl e, w, disk)
       | Inr f \<Rightarrow>
           let path = upload_path uploadId in
           if disk path \<noteq> None then (Inl (Error ''EEXIST: file already exists''), w, disk)
           else
             let disk1 = disk(path \<mapsto> uf_buffer f) in
             (case createJob E orgId userId serverInstanceId jobType (Some (upload_payload uploadId f jobType overrideActive transferConfig)) now w of
                (Inl e, w1) \<Rightarrow> (Inl e, w1, disk1(path := None))
              | (Inr ids, w1) \<Rightarrow> (Inr ids, w1, disk1))))"

definition flag_set :: "string option \<Rightarrow> bool" where
  "flag_set v \<longleftrightarrow> v = Some ''true'' \<or> v = Some ''1''"

definition recommendMod :: "env \<Rightarrow> id \<Rightarrow> id \<Rightarrow> id \<Rightarrow> uploadFile option \<Rightarrow> string \<Rightarrow> ms \<Rightarrow> world \<times> uploads \<Rightarrow> (id \<times> id) res \<times> world \<times> uploads" where
  "recommendMod E orgId userId serverInstanceId file uploadId now s =
     stageModUpload E orgId userId serverInstanceId file ''MOD_UPLOAD_PENDING'' False False uploadId now s"

definition uploadMod :: "env \<Rightarrow> id \<Rightarrow> id \<Rightarrow> id \<Rightarrow> string option \<Rightarrow> string option \<Rightarrow> uploadFile option \<Rightarrow> string \<Rightarrow> ms \<Rightarrow>
    world \<times> uploads \<Rightarrow> (id \<times> id) res \<times> world \<times> uploads" where
  "uploadMod E orgId userId serverInstanceId overrideActive transferConfigRaw file uploadId now s =
     (let override = flag_set overrideActive; transferConfig = (flag_set transferConfigRaw \<and> override) in
      stageModUpload E orgId userId serverInstanceId file ''MOD_UPLOAD_QUARANTINE'' override transferConfig uploadId now s)"

section \<open>Handing it out\<close>

definition hex_group :: "nat \<Rightarrow> string \<Rightarrow> bool" where
  "hex_group n s \<longleftrightarrow> length s = n \<and> list_all is_hex s"

definition upload_ref :: "string \<Rightarrow> bool" where
  \<comment> \<open>the regular expression of a version 4 UUID\<close>
  "upload_ref s =
     (case split CHR ''-'' s of
        [a, b, c, d, e] \<Rightarrow> hex_group 8 a \<and> hex_group 4 b \<and> hex_group 4 c \<and> hd c = CHR ''4'' \<and>
          hex_group 4 d \<and> hd d \<in> set ''89abAB'' \<and> hex_group 12 e
      | _ \<Rightarrow> False)"

definition downloadJobFile :: "id \<Rightarrow> id \<Rightarrow> world \<times> uploads \<Rightarrow> string res" where
  \<comment> \<open>the host is the one of the agent's token\<close>
  "downloadJobFile hostId jobRunId s =
     (case s of (w, disk) \<Rightarrow>
      (case find_run jobRunId w of
         None \<Rightarrow> Inl (NotFoundException ''Job file not found'')
       | Some run \<Rightarrow>
           if jr_hostId run \<noteq> hostId then Inl (NotFoundException ''Job file not found'')
           else (case find_job (jr_jobId run) w of
             None \<Rightarrow> Inl (Error ''Cannot read properties of undefined (reading 'type')'')
           | Some j \<Rightarrow>
               if j_type j \<noteq> ''MOD_UPLOAD_QUARANTINE'' \<and> j_type j \<noteq> ''MOD_UPLOAD_PENDING''
               then Inl (BadRequestException ''Job has no downloadable mod archive'')
               else
                 let uploadId = str_of (get (j_payload j) ''uploadId'') in
                 if \<not> upload_ref uploadId then Inl (BadRequestException ''Invalid mod upload reference'')
                 else (case disk (upload_path uploadId) of
                         None \<Rightarrow> Inl (NotFoundException ''Uploaded mod archive expired or is unavailable'')
                       | Some bytes \<Rightarrow> Inr bytes))))"

section \<open>Runs and jobs\<close>

definition getRun :: "id \<Rightarrow> id \<Rightarrow> world \<Rightarrow> jobRun option" where
  \<comment> \<open>the controller shows the id, status, times and result of the run\<close>
  "getRun orgId runId w =
     List.find (\<lambda>r. jr_id r = runId \<and> (case find_job (jr_jobId r) w of None \<Rightarrow> False | Some j \<Rightarrow> j_orgId j = orgId)) (jobRuns w)"

definition prisma_take :: "int \<Rightarrow> 'a list \<Rightarrow> 'a list" where
  \<comment> \<open>a negative \<open>take\<close> takes from the end\<close>
  "prisma_take n xs = (if n < 0 then drop (length xs - nat (- n)) xs else take (nat n) xs)"

definition take_of :: "string option \<Rightarrow> int \<Rightarrow> int" where
  \<comment> \<open>\<open>limit ? Math.min(100, parseInt(limit, 10) || n) : n\<close>\<close>
  "take_of limit n =
     (if opt_or limit [] = [] then n
      else min 100 (case parseInt10 (opt_or limit []) of None \<Rightarrow> n | Some k \<Rightarrow> if k = 0 then n else k))"

definition internal_job :: "bool \<Rightarrow> job \<Rightarrow> bool" where
  \<comment> \<open>jobs the control plane queues on its own; \<open>unknown\<close> is how Prisma counts the comparison with a key the payload does not have\<close>
  "internal_job unknown j \<longleftrightarrow> j_type j \<in> {''PLAYER_LIST_SYNC'', ''ITEM_CATALOG'', ''TRIGGER_GRANT_ITEMS''} \<or>
     j_type j = ''RCON'' \<and> (get (j_payload j) ''purpose'' = Str ''shop_grant'' \<or> unknown \<and> get (j_payload j) ''purpose'' = Undefined)"

definition run_shown :: "jobRun \<Rightarrow> obj" where
  "run_shown r =
     [(''id'', Str (jr_id r)),
      (''status'', Str (if jr_status r = Running \<and> get (jr_result r) ''phase'' = Str ''queued'' then ''queued'' else status_str (jr_status r))),
      (''startedAt'', case jr_startedAt r of None \<Rightarrow> Null | Some t \<Rightarrow> JInt t),
      (''finishedAt'', case jr_finishedAt r of None \<Rightarrow> Null | Some t \<Rightarrow> JInt t), (''result'', Obj (jr_result r))]"

definition job_shown :: "world \<Rightarrow> job \<Rightarrow> obj" where
  "job_shown w j =
     [(''id'', Str (j_id j)), (''orgId'', Str (j_orgId j)), (''batchId'', js_null (j_batchId j)), (''serverInstanceId'', js_null (j_serverInstanceId j)),
      (''serverName'', case Option.bind (j_serverInstanceId j) (\<lambda>i. findUnique si_id i (serverInstances w)) of None \<Rightarrow> Undefined | Some s \<Rightarrow> Str (si_name s)),
      (''type'', Str (j_type j)), (''payload'', Obj (j_payload j)), (''createdAt'', JInt (j_createdAt j)),
      (''startedBy'', case Option.bind (j_createdById j) (\<lambda>i. findUnique u_id i (users w)) of
         None \<Rightarrow> Null
       | Some u \<Rightarrow> Obj [(''id'', Str (u_id u)), (''name'', Str (or_str (opt_or (u_name u) []) (u_email u))), (''email'', Str (u_email u))]),
      (''latestRun'', case orderDesc jr_createdAt (filter (\<lambda>r. jr_jobId r = j_id j) (jobRuns w)) of [] \<Rightarrow> Null | r # _ \<Rightarrow> Obj (run_shown r))]"

definition list_jobs :: "bool \<Rightarrow> id \<Rightarrow> string option \<Rightarrow> id option \<Rightarrow> world \<Rightarrow> obj list" where
  "list_jobs unknown orgId limit serverInstanceId w =
     map (job_shown w) (prisma_take (take_of limit 20)
       (orderDesc j_createdAt (filter (\<lambda>j. j_orgId j = orgId \<and> \<not> internal_job unknown j \<and>
          (opt_or serverInstanceId [] \<noteq> [] \<longrightarrow> j_serverInstanceId j = serverInstanceId)) (jobs w))))"

section \<open>An archive reaches its host\<close>

definition upload_type :: "string \<Rightarrow> bool" where
  "upload_type ty \<longleftrightarrow> ty = ''MOD_UPLOAD_QUARANTINE'' \<or> ty = ''MOD_UPLOAD_PENDING''"

lemma upload_type_plain:
  assumes "upload_type ty"
  shows "normalizeJobType ty = ty" and "console_payload ty p = Inr p" and "maintenance_payload E ty o' si p w = Inr (p, w)"
proof -
  have "normalizeJobType ''MOD_UPLOAD_QUARANTINE'' = ''MOD_UPLOAD_QUARANTINE''" "normalizeJobType ''MOD_UPLOAD_PENDING'' = ''MOD_UPLOAD_PENDING''"
    by code_simp+
  then show "normalizeJobType ty = ty" using assms by (auto simp: upload_type_def)
qed (use assms in \<open>auto simp: upload_type_def console_payload_def maintenance_payload_def\<close>)

lemma upload_id_payload:
  "get (spread a (upload_payload up f ty oa tc)) ''uploadId'' = Str up"
  "get (spread a (put ''recommendedById'' y (put ''recommendedBy'' x (upload_payload up f ''MOD_UPLOAD_PENDING'' oa tc)))) ''uploadId'' = Str up"
  by (auto simp: upload_payload_def get_put)

lemma upload_job:
  assumes "createJob E orgId u sid ty (Some (upload_payload up f ty oa tc)) now w = (Inr ids, w')" and "upload_type ty"
  obtains si q where "find_server sid orgId w = Some si" "get q ''uploadId'' = Str up" "dispatch orgId (Some u) si ty q now w = (ids, w')"
proof -
  have "\<exists>si q. find_server sid orgId w = Some si \<and> get q ''uploadId'' = Str up \<and> dispatch orgId (Some u) si ty q now w = (ids, w')"
    using assms unfolding createJob_def Let_def upload_type_plain [OF assms(2)] upload_type_def
    by (auto simp: opt_or_def split: if_splits sum.splits option.splits prod.splits) (blast intro: upload_id_payload)+
  then show thesis using that by blast
qed

lemma upload_dispatched:
  assumes "store_wf w" and "dispatch orgId u si ty q now w = ((j, r), w')"
  shows "find_run r w' = Some \<lparr>jr_id = r, jr_jobId = j, jr_hostId = si_hostId si, jr_status = Pending, jr_startedAt = None,
      jr_finishedAt = None, jr_result = [], jr_createdAt = now\<rparr>"
    and "find_job j w' = Some \<lparr>j_id = j, j_orgId = orgId, j_batchId = None, j_serverInstanceId = Some (si_id si), j_type = ty,
      j_payload = q, j_createdById = u, j_createdAt = now\<rparr>"
proof -
  have "store_wf w'" using jobs_ext_wf [OF assms(1) dispatch_ext [OF assms(2)]] .
  note d = store_wfD(2,3) [OF this] and t = dispatch_tables [OF assms(2)]
  show "find_run r w' = Some \<lparr>jr_id = r, jr_jobId = j, jr_hostId = si_hostId si, jr_status = Pending, jr_startedAt = None,
      jr_finishedAt = None, jr_result = [], jr_createdAt = now\<rparr>"
    using findUnique_unique [OF d(2), of "last (jobRuns w')"] by (simp add: find_run_def t(2))
  show "find_job j w' = Some \<lparr>j_id = j, j_orgId = orgId, j_batchId = None, j_serverInstanceId = Some (si_id si), j_type = ty,
      j_payload = q, j_createdById = u, j_createdAt = now\<rparr>"
    using findUnique_unique [OF d(1), of "last (jobs w')"] by (simp add: find_job_def t(1))
qed

text \<open>The runs there were download what they did before, when no job names the new upload.\<close>

lemma old_downloads:
  assumes wf: "store_wf w" and d: "dispatch orgId u si ty q now w = ((j, r), w')" and k: "k \<noteq> r"
    and free: "list_all (\<lambda>j. str_of (get (j_payload j) ''uploadId'') \<noteq> up) (jobs w)"
  shows "downloadJobFile h k (w', disk(upload_path up \<mapsto> bytes)) = downloadJobFile h k (w, disk)"
proof -
  note t = dispatch_tables [OF d]
  have "find_run k w' = find_run k w"
    using k by (simp add: find_run_def t(2) findUnique_append findUnique_Cons split: option.split)
  moreover have "find_job (jr_jobId run) w' = find_job (jr_jobId run) w \<and> find_job (jr_jobId run) w \<noteq> None" if "find_run k w = Some run" for run
  proof -
    have "run \<in> set (jobRuns w)" using find_runD [OF that] by blast
    then obtain x where "find_job (jr_jobId run) w = Some x" using run_job [OF wf] by metis
    then show ?thesis using jobs_ext_find_job [OF dispatch_ext [OF d]] by simp
  qed
  moreover have "upload_path (str_of (get (j_payload x) ''uploadId'')) \<noteq> upload_path up" if "find_job i w = Some x" for i x
    using free find_jobD [OF that] by (auto simp: list_all_iff upload_path_def)
  ultimately show ?thesis by (auto simp: downloadJobFile_def Let_def split: option.split)
qed

text \<open>C38: an uploaded archive reaches the host it is queued for, as it was uploaded. When staging an
  archive succeeds, only the host of the server in the caller's organization can download the file of the
  new run, and it gets the bytes of the upload; and when no job names the upload id yet (it is random), every other
  run gives every host what it gave before, so no run but the new one hands the archive to anyone. When staging fails, the tables and
  the directory are as before. A job that is created later with the same upload id in its payload is not covered.\<close>

theorem upload_reaches_its_host:
  assumes "store_wf w" and "upload_ref up" and "upload_type ty"
  shows "case stageModUpload E orgId u sid arch ty oa tc up now (w, disk) of
      (Inl e, w', disk') \<Rightarrow> w' = w \<and> disk' = disk
    | (Inr (j, r), w', disk') \<Rightarrow> \<exists>f si. arch = Some f \<and> find_server sid orgId w = Some si \<and> disk' = disk(upload_path up \<mapsto> uf_buffer f) \<and>
        (\<forall>h. downloadJobFile h r (w', disk') = (if h = si_hostId si then Inr (uf_buffer f) else Inl (NotFoundException ''Job file not found''))) \<and>
        (list_all (\<lambda>j. str_of (get (j_payload j) ''uploadId'') \<noteq> up) (jobs w) \<longrightarrow>
           (\<forall>h k. k \<noteq> r \<longrightarrow> downloadJobFile h k (w', disk') = downloadJobFile h k (w, disk)))"
proof (cases "accept_upload sid arch")
  case (Inl e)
  then show ?thesis by (simp add: stageModUpload_def)
next
  case (Inr f)
  then have f: "arch = Some f" by (auto simp: accept_upload_def split: if_splits option.splits)
  show ?thesis
  proof (cases "disk (upload_path up)")
    case None
    let ?c = "createJob E orgId u sid ty (Some (upload_payload up f ty oa tc)) now w"
    show ?thesis
    proof (cases "fst ?c")
      case (Inl e)
      then have "?c = (Inl e, snd ?c)" by (cases ?c) simp
      then have c: "?c = (Inl e, w)" using createJob_cases by (metis Inl_Inr_False)
      show ?thesis using None by (simp add: stageModUpload_def Inr c fun_upd_idem)
    next
      case ok: (Inr ids)
      then obtain w' where c: "?c = (Inr ids, w')" by (cases ?c) simp
      obtain si q where q: "find_server sid orgId w = Some si" "get q ''uploadId'' = Str up" "dispatch orgId (Some u) si ty q now w = (ids, w')"
        using upload_job [OF c assms(3)] .
      obtain j r where ids: "ids = (j, r)" by (cases ids)
      note d = upload_dispatched [OF assms(1) q(3) [unfolded ids]]
      have "downloadJobFile h r (w', disk(upload_path up \<mapsto> uf_buffer f)) =
          (if h = si_hostId si then Inr (uf_buffer f) else Inl (NotFoundException ''Job file not found''))" for h
        using assms(2,3) q(2) by (auto simp: downloadJobFile_def d str_of_def upload_type_def)
      then have "\<exists>fa sj. arch = Some fa \<and> find_server sid orgId w = Some sj \<and> disk(upload_path up \<mapsto> uf_buffer f) = disk(upload_path up \<mapsto> uf_buffer fa) \<and>
          (\<forall>h. downloadJobFile h r (w', disk(upload_path up \<mapsto> uf_buffer f)) = (if h = si_hostId sj then Inr (uf_buffer fa) else Inl (NotFoundException ''Job file not found''))) \<and>
          (list_all (\<lambda>j. str_of (get (j_payload j) ''uploadId'') \<noteq> up) (jobs w) \<longrightarrow>
             (\<forall>h k. k \<noteq> r \<longrightarrow> downloadJobFile h k (w', disk(upload_path up \<mapsto> uf_buffer f)) = downloadJobFile h k (w, disk)))"
        using f q(1) old_downloads [OF assms(1) q(3) [unfolded ids]] by blast
      moreover have "stageModUpload E orgId u sid arch ty oa tc up now (w, disk) = (Inr (j, r), w', disk(upload_path up \<mapsto> uf_buffer f))"
        using None by (simp add: stageModUpload_def Inr c [unfolded ids] Let_def)
      ultimately show ?thesis by (simp only: sum.case prod.case)
    qed
  qed (simp add: stageModUpload_def Inr)
qed

text \<open>An archive with nothing but the signature, uploaded by an administrator.\<close>

definition sample_zip :: uploadFile where
  "sample_zip = \<lparr>uf_originalname = ''a.ZIP'', uf_size = 4, uf_buffer = [CHR 0x50, CHR 0x4B, CHR 0x05, CHR 0x06]\<rparr>"

theorem upload_reaches_its_host_witness:
  "\<exists>j r w' disk'. stageModUpload sample_env ''o'' ''u'' ''s1'' (Some sample_zip) ''MOD_UPLOAD_QUARANTINE'' False False
      ''00000000-0000-4000-8000-000000000000'' 5 (sample_world, \<lambda>_. None) = (Inr (j, r), w', disk') \<and>
    downloadJobFile ''h'' r (w', disk') = Inr (uf_buffer sample_zip) \<and> downloadJobFile ''k'' r (w', disk') = Inl (NotFoundException ''Job file not found'') \<and>
    (\<forall>h k. k \<noteq> r \<longrightarrow> downloadJobFile h k (w', disk') = downloadJobFile h k (sample_world, \<lambda>_. None))"
proof -
  let ?s = "stageModUpload sample_env ''o'' ''u'' ''s1'' (Some sample_zip) ''MOD_UPLOAD_QUARANTINE'' False False
      ''00000000-0000-4000-8000-000000000000'' 5 (sample_world, \<lambda>_. None)"
  have ref: "upload_ref ''00000000-0000-4000-8000-000000000000''" by code_simp
  have ty: "upload_type ''MOD_UPLOAD_QUARANTINE''" by code_simp
  have acc: "accept_upload ''s1'' (Some sample_zip) = Inr sample_zip" by code_simp
  have n: "normalizeJobType ''MOD_UPLOAD_QUARANTINE'' = ''MOD_UPLOAD_QUARANTINE''" by code_simp
  have "\<exists>ids. fst ?s = Inr ids"
    by (simp add: stageModUpload_def acc createJob_def n Let_def sample_world_def find_member_def find_server_def console_payload_def
        role_check_def staff_def maintenance_payload_def sample_server_def split: prod.split)
  then obtain j r w' disk' where s: "?s = (Inr (j, r), w', disk')" by (cases ?s) auto
  have "find_server ''s1'' ''o'' sample_world = Some (sample_server ''s1'' ''h'')"
    by (simp add: sample_world_def find_server_def sample_server_def)
  with upload_reaches_its_host [OF sample_inv(1) ref ty, where E = sample_env and orgId = "''o''" and u = "''u''" and sid = "''s1''" and arch = "Some sample_zip" and oa = False and tc = False and now = 5 and disk = "\<lambda>_. None"]
  have "downloadJobFile h r (w', disk') = (if h = ''h'' then Inr (uf_buffer sample_zip) else Inl (NotFoundException ''Job file not found''))"
    "list_all (\<lambda>j. str_of (get (j_payload j) ''uploadId'') \<noteq> ''00000000-0000-4000-8000-000000000000'') (jobs sample_world) \<longrightarrow>
       (\<forall>h k. k \<noteq> r \<longrightarrow> downloadJobFile h k (w', disk') = downloadJobFile h k (sample_world, \<lambda>_. None))" for h
    unfolding s by (auto simp: sample_server_def)
  with s show ?thesis by (simp add: sample_world_def empty_world_def)
qed

end
