(* ===== verification/Servers.thy ===== *)
theory Servers
  imports Hosts Players Agents
begin

text \<open>
  Server instances: control-plane/src/server-instances/server-instances.service.ts, the operations of
  users (create, update, remove, views) and the reports of agents that discover a Minecraft server.
  A row carries the slug of its game type in place of the type's id (slugs are unique).

  Shown: no operation on hosts and servers ever leaves a server on a host of another organization;
  a discovery that is reported again creates no second server. Also shown: what an operator set on a
  server survives only the first report of the agent, although the code means to keep it.
\<close>

section \<open>Definitions\<close>

text \<open>A field of a request body: absent, null, or a value.\<close>

type_synonym 'a patch = "'a option option"

record createServer =
  cs_name :: string
  cs_hostId :: id
  cs_gameType :: string
  cs_installPath :: "string option"
  cs_startCommand :: "string option"
  cs_rconHost :: "string option"
  cs_rconPort :: "int option"
  cs_rconPassword :: "string option"
  cs_mapEmbedUrl :: "string option"

record updateServer =
  up_name :: "string patch"
  up_hostId :: "id patch"
  up_gameType :: "string patch"
  up_installPath :: "string patch"
  up_startCommand :: "string patch"
  up_updateCommand :: "string patch"
  up_rconHost :: "string patch"
  up_rconPort :: "int patch"
  up_rconPassword :: "string patch"
  up_rebootIfDown :: "bool patch"
  up_mapEmbedUrl :: "string patch"

record discovered =
  di_name :: "string option"
  di_installPath :: "string option"
  di_startCommand :: "string option"
  di_rconHost :: "string option"
  di_rconPort :: "int patch"
  di_rconPassword :: "string patch"
  di_config :: "obj option"

definition clean_text :: "string option \<Rightarrow> string option" where
  \<comment> \<open>\<open>x?.trim() || null\<close>\<close>
  "clean_text x = (case x of None \<Rightarrow> None | Some s \<Rightarrow> or_null (trim s))"

definition getGameTypeIdBySlug :: "string \<Rightarrow> world \<Rightarrow> string res" where
  "getGameTypeIdBySlug slug w =
     (case List.find (\<lambda>g. fst g = toLowerCase slug) (gameTypes w) of
        None \<Rightarrow> Inl (BadRequestException (''Game type \"'' @ slug @ ''\" is not registered. Seed game_types with slug \"'' @ slug @ ''\".''))
      | Some g \<Rightarrow> Inr (fst g))"

definition assertHostInOrg :: "id \<Rightarrow> id \<Rightarrow> world \<Rightarrow> unit res" where
  "assertHostInOrg hostId orgId w =
     (case find_host hostId orgId w of
        None \<Rightarrow> Inl (BadRequestException ''Host not found or does not belong to this org'')
      | Some _ \<Rightarrow> Inr ())"

definition capabilities_of :: "string \<Rightarrow> world \<Rightarrow> js" where
  "capabilities_of slug w = (case map_of (gameTypes w) slug of Some (Arr cs) \<Rightarrow> Arr cs | _ \<Rightarrow> Arr [])"

definition toResponse :: "serverInstance \<Rightarrow> js \<Rightarrow> bool \<Rightarrow> obj" where
  "toResponse row capabilities includePassword =
     (let nul = (\<lambda>x. case x of None \<Rightarrow> Null | Some s \<Rightarrow> Str s) in
      [(''id'', Str (si_id row)), (''orgId'', Str (si_orgId row)), (''hostId'', Str (si_hostId row)),
       (''gameType'', Str (si_gameType row)), (''capabilities'', capabilities), (''name'', Str (si_name row)),
       (''installPath'', nul (si_installPath row)), (''startCommand'', nul (si_startCommand row)),
       (''updateCommand'', case field (si_config row) ''update_command'' of Str s \<Rightarrow> Str s | _ \<Rightarrow> Null),
       (''rconHost'', nul (si_rconHost row)),
       (''rconPort'', case si_rconPort row of None \<Rightarrow> Null | Some p \<Rightarrow> JInt p),
       (''maintenanceMode'', Bool (si_maintenanceMode row)), (''rebootIfDown'', Bool (si_rebootIfDown row)),
       (''mapEmbedUrl'', nul (si_mapEmbedUrl row)), (''createdAt'', JInt (si_createdAt row))] @
      (if includePassword then [(''rconPassword'', nul (si_rconPassword row))] else []))"

definition list_servers :: "id \<Rightarrow> world \<Rightarrow> obj list" where
  "list_servers orgId w =
     map (\<lambda>row. toResponse row (capabilities_of (si_gameType row) w) False)
       (orderDesc si_createdAt (filter (\<lambda>s. si_orgId s = orgId) (serverInstances w)))"

definition find_one_server :: "id \<Rightarrow> id \<Rightarrow> bool \<Rightarrow> world \<Rightarrow> obj res" where
  "find_one_server orgId i includePassword w =
     (case find_server i orgId w of
        None \<Rightarrow> Inl (NotFoundException ''Server instance not found'')
      | Some row \<Rightarrow> Inr (toResponse row (capabilities_of (si_gameType row) w) includePassword))"

definition create_server :: "id \<Rightarrow> id \<Rightarrow> createServer \<Rightarrow> ms \<Rightarrow> world \<Rightarrow> serverInstance res \<times> world" where
  "create_server orgId userId dto now w =
     (case assertHostInOrg (cs_hostId dto) orgId w of
        Inl e \<Rightarrow> (Inl e, w)
      | Inr _ \<Rightarrow>
          (case getGameTypeIdBySlug (cs_gameType dto) w of
             Inl e \<Rightarrow> (Inl e, w)
           | Inr gameType \<Rightarrow>
               let created = \<lparr>si_id = next_id w, si_orgId = orgId, si_hostId = cs_hostId dto, si_gameType = gameType,
                     si_name = trim (cs_name dto), si_installPath = clean_text (cs_installPath dto),
                     si_startCommand = clean_text (cs_startCommand dto), si_rconHost = clean_text (cs_rconHost dto),
                     si_rconPort = cs_rconPort dto, si_rconPassword = cs_rconPassword dto, si_maintenanceMode = False,
                     si_rebootIfDown = False, si_mapEmbedUrl = clean_text (cs_mapEmbedUrl dto), si_config = Null, si_createdAt = now\<rparr>
               in (Inr created,
                   audit_row orgId (Some userId) ''create'' ''server_instance'' (si_id created)
                     [(''name'', Str (si_name created)), (''hostId'', Str (si_hostId created)), (''gameType'', Str gameType)]
                     ((draw w)\<lparr>serverInstances := serverInstances w @ [created]\<rparr>))))"

section \<open>Discovery\<close>

definition slash :: "char \<Rightarrow> char" where
  "slash c = (if code c = 92 then CHR ''/'' else c)"

definition normalizePath :: "string option \<Rightarrow> string" where
  "normalizePath path =
     toLowerCase (rev (dropWhile (\<lambda>c. c = CHR ''/'') (rev (map slash (trim (opt_or path []))))))"

definition findMatchingDiscoveredInstance :: "serverInstance list \<Rightarrow> string option \<Rightarrow> serverInstance option" where
  "findMatchingDiscoveredInstance rows installPath =
     (case installPath of
        None \<Rightarrow> None
      | Some p \<Rightarrow> if p = [] then None
          else List.find (\<lambda>row. normalizePath (si_installPath row) = normalizePath (Some p)) rows)"

definition obj_of :: "js \<Rightarrow> obj" where
  \<comment> \<open>the entries of an object that is no array, nothing of any other value\<close>
  "obj_of v = (case v of Obj o' \<Rightarrow> o' | _ \<Rightarrow> [])"

definition mergeConfig :: "js \<Rightarrow> obj option \<Rightarrow> obj" where
  "mergeConfig existing incoming =
     (let base = obj_of existing in
      case incoming of
        None \<Rightarrow> base
      | Some inc \<Rightarrow> put ''discovery'' (Obj (spread (obj_of (get base ''discovery'')) (obj_of (get inc ''discovery''))))
                     (spread base inc))"

definition isDiscoveredManaged :: "js \<Rightarrow> bool" where
  "isDiscoveredManaged config = truthy (get (obj_of (get (obj_of config) ''discovery'')) ''managedByAgent'')"

definition strip_prefix :: "string \<Rightarrow> string \<Rightarrow> string option" where
  "strip_prefix p s = (if startsWith s p then Some (drop (length p) s) else None)"

definition is_loopback :: "string \<Rightarrow> bool" where
  \<comment> \<open>\<open>/^https?:\/\/(127\.0\.0\.1|localhost|\[::1\])(:|\/|$)/i\<close>\<close>
  "is_loopback url =
     list_ex (\<lambda>scheme. list_ex (\<lambda>h.
         case strip_prefix (scheme @ h) (toLowerCase url) of
           None \<Rightarrow> False
         | Some rest \<Rightarrow> rest = [] \<or> hd rest = CHR '':'' \<or> hd rest = CHR ''/'')
       [''127.0.0.1'', ''localhost'', ''[::1]'']) [''http://'', ''https://'']"

definition mapEmbedHint :: "obj \<Rightarrow> string option" where
  "mapEmbedHint config =
     (case get config ''map_embed_hint'' of
        Str hint \<Rightarrow> if trim hint = [] \<or> is_loopback (trim hint) then None else Some (trim hint)
      | _ \<Rightarrow> None)"

definition discovered_row :: "host \<Rightarrow> string \<Rightarrow> discovered \<Rightarrow> obj \<Rightarrow> ms \<Rightarrow> id \<Rightarrow> serverInstance" where
  "discovered_row h gameType dto config now i =
     \<lparr>si_id = i, si_orgId = h_orgId h, si_hostId = h_id h, si_gameType = gameType,
      si_name = opt_or (clean_text (di_name dto)) (h_name h @ '' Minecraft''),
      si_installPath = clean_text (di_installPath dto), si_startCommand = clean_text (di_startCommand dto),
      si_rconHost = Some (opt_or (clean_text (di_rconHost dto)) ''127.0.0.1''),
      si_rconPort = Some (case di_rconPort dto of Some (Some p) \<Rightarrow> p | _ \<Rightarrow> 25575),
      si_rconPassword = (case di_rconPassword dto of Some p \<Rightarrow> p | None \<Rightarrow> None),
      si_maintenanceMode = False, si_rebootIfDown = False, si_mapEmbedUrl = mapEmbedHint config, si_config = Obj config, si_createdAt = now\<rparr>"

definition blank :: "string option \<Rightarrow> bool" where
  "blank x = (x = None \<or> x = Some [])"

definition rediscover :: "discovered \<Rightarrow> obj \<Rightarrow> serverInstance \<Rightarrow> serverInstance" where
  "rediscover dto config s =
     (let managed = isDiscoveredManaged (si_config s);
          given = (\<lambda>new old. case clean_text new of None \<Rightarrow> old | Some v \<Rightarrow> if managed \<or> blank old then Some v else old)
      in s\<lparr>si_installPath := (case clean_text (di_installPath dto) of None \<Rightarrow> si_installPath s | p \<Rightarrow> p),
           si_startCommand := given (di_startCommand dto) (si_startCommand s),
           si_rconHost := given (di_rconHost dto) (si_rconHost s),
           si_rconPort := (case di_rconPort dto of None \<Rightarrow> si_rconPort s
             | Some p \<Rightarrow> if managed \<or> si_rconPort s = None then p else si_rconPort s),
           si_rconPassword := (case di_rconPassword dto of None \<Rightarrow> si_rconPassword s
             | Some p \<Rightarrow> if managed \<or> blank (si_rconPassword s) then (if blank p then None else p) else si_rconPassword s),
           si_name := (case clean_text (di_name dto) of None \<Rightarrow> si_name s | Some n \<Rightarrow> if managed then n else si_name s),
           si_mapEmbedUrl := (if blank (si_mapEmbedUrl s) \<and> mapEmbedHint config \<noteq> None then mapEmbedHint config else si_mapEmbedUrl s),
           si_config := Obj config\<rparr>)"

definition upsertDiscoveredMinecraftInstance :: "id \<Rightarrow> discovered \<Rightarrow> ms \<Rightarrow> world \<Rightarrow> (bool \<times> id) res \<times> world" where
  "upsertDiscoveredMinecraftInstance hostId dto now w =
     (case findUnique h_id hostId (hosts w) of
        None \<Rightarrow> (Inl (NotFoundException ''Host not found''), w)
      | Some h \<Rightarrow>
          (case getGameTypeIdBySlug ''minecraft'' w of
             Inl e \<Rightarrow> (Inl e, w)
           | Inr gameType \<Rightarrow>
               let existingList = orderAsc si_createdAt (filter (\<lambda>s. si_orgId s = h_orgId h \<and> si_hostId s = hostId \<and> si_gameType s = gameType) (serverInstances w));
                   existing = (case findMatchingDiscoveredInstance existingList (clean_text (di_installPath dto)) of
                       Some s \<Rightarrow> Some s | None \<Rightarrow> (case existingList of [s] \<Rightarrow> Some s | _ \<Rightarrow> None));
                   discoveryConfig = mergeConfig (case existing of None \<Rightarrow> Undefined | Some s \<Rightarrow> si_config s) (di_config dto)
               in (case existing of
                     None \<Rightarrow> (Inr (True, next_id w),
                       (draw w)\<lparr>serverInstances := serverInstances w @ [discovered_row h gameType dto discoveryConfig now (next_id w)]\<rparr>)
                   | Some s \<Rightarrow> (Inr (False, si_id s),
                       w\<lparr>serverInstances := updateRow si_id (si_id s) (rediscover dto discoveryConfig) (serverInstances w)\<rparr>))))"

section \<open>Updates and removal\<close>

definition apply_patch :: "'a patch \<Rightarrow> ('a option \<Rightarrow> 'b) \<Rightarrow> 'b \<Rightarrow> 'b" where
  "apply_patch p f old = (case p of None \<Rightarrow> old | Some v \<Rightarrow> f v)"

definition patched_config :: "string patch \<Rightarrow> js \<Rightarrow> js" where
  "patched_config p config =
     apply_patch p (\<lambda>v. case clean_text v of
        Some cmd \<Rightarrow> Obj (put ''update_command'' (Str cmd) (obj_of config))
      | None \<Rightarrow> Obj (del ''update_command'' (obj_of config))) config"

definition update_row :: "updateServer \<Rightarrow> string option \<Rightarrow> serverInstance \<Rightarrow> serverInstance" where
  "update_row dto gameType s =
     s\<lparr>si_name := apply_patch (up_name dto) (\<lambda>v. trim (opt_or v [])) (si_name s),
       si_hostId := apply_patch (up_hostId dto) (\<lambda>v. opt_or v []) (si_hostId s),
       si_gameType := opt_or gameType (si_gameType s),
       si_installPath := apply_patch (up_installPath dto) clean_text (si_installPath s),
       si_startCommand := apply_patch (up_startCommand dto) clean_text (si_startCommand s),
       si_rconHost := apply_patch (up_rconHost dto) clean_text (si_rconHost s),
       si_rconPort := apply_patch (up_rconPort dto) id (si_rconPort s),
       si_rconPassword := apply_patch (up_rconPassword dto) id (si_rconPassword s),
       si_rebootIfDown := apply_patch (up_rebootIfDown dto) (\<lambda>v. v = Some True) (si_rebootIfDown s),
       si_mapEmbedUrl := apply_patch (up_mapEmbedUrl dto) clean_text (si_mapEmbedUrl s),
       si_config := patched_config (up_updateCommand dto) (si_config s)\<rparr>"

definition updated_fields :: "updateServer \<Rightarrow> string list" where
  \<comment> \<open>the keys of the body but the password, in the order of the class\<close>
  "updated_fields dto =
     concat [if up_name dto = None then [] else [''name''], if up_hostId dto = None then [] else [''hostId''],
       if up_gameType dto = None then [] else [''gameType''], if up_installPath dto = None then [] else [''installPath''],
       if up_startCommand dto = None then [] else [''startCommand''], if up_updateCommand dto = None then [] else [''updateCommand''],
       if up_rconHost dto = None then [] else [''rconHost''], if up_rconPort dto = None then [] else [''rconPort''],
       if up_rebootIfDown dto = None then [] else [''rebootIfDown''], if up_mapEmbedUrl dto = None then [] else [''mapEmbedUrl'']]"

definition update_checks :: "id \<Rightarrow> updateServer \<Rightarrow> world \<Rightarrow> string option res" where
  \<comment> \<open>the checks before the update, and the game type to set; a null name or flag is an error of the
    runtime or of the database client, raised before the row changes\<close>
  "update_checks orgId dto w =
     (case (case up_hostId dto of
              None \<Rightarrow> Inr ()
            | Some None \<Rightarrow> Inl (Error ''hostId must not be null'')
            | Some (Some h) \<Rightarrow> assertHostInOrg h orgId w) of
        Inl e \<Rightarrow> Inl e
      | Inr _ \<Rightarrow>
          (case (case up_gameType dto of
                   Some (Some t) \<Rightarrow> if t = [] then Inr None else (case getGameTypeIdBySlug t w of Inl e \<Rightarrow> Inl e | Inr s \<Rightarrow> Inr (Some s))
                 | _ \<Rightarrow> Inr None) of
             Inl e \<Rightarrow> Inl e
           | Inr gameType \<Rightarrow>
               if up_name dto = Some None then Inl (Error ''Cannot read properties of null'')
               else if up_rebootIfDown dto = Some None then Inl (Error ''rebootIfDown must not be null'')
               else Inr gameType))"

definition update_server :: "id \<Rightarrow> id \<Rightarrow> id \<Rightarrow> updateServer \<Rightarrow> world \<Rightarrow> serverInstance res \<times> world" where
  "update_server orgId userId i dto w =
     (case find_server i orgId w of
        None \<Rightarrow> (Inl (NotFoundException ''Server instance not found''), w)
      | Some existing \<Rightarrow>
          (case update_checks orgId dto w of
             Inl e \<Rightarrow> (Inl e, w)
           | Inr gameType \<Rightarrow>
               (Inr (update_row dto gameType existing),
                audit_row orgId (Some userId) ''update'' ''server_instance'' i [(''updated'', Arr (map Str (updated_fields dto)))]
                  (w\<lparr>serverInstances := updateRow si_id i (update_row dto gameType) (serverInstances w)\<rparr>))))"

text \<open>Deleting a server deletes the rows that refer to it (\<open>onDelete: Cascade\<close>) and clears the reference
  of its jobs (\<open>SetNull\<close>).\<close>

definition delete_server :: "id \<Rightarrow> world \<Rightarrow> world" where
  "delete_server i w =
     (let w1 = foldl (\<lambda>v p. delete_player (p_id p) v) w (filter (\<lambda>p. p_serverInstanceId p = i) (players w))
      in w1\<lparr>serverInstances := deleteMany (\<lambda>s. si_id s = i) (serverInstances w1),
            protections := deleteMany (\<lambda>p. pr_serverInstanceId p = i) (protections w1),
            schedules := deleteMany (\<lambda>s. sc_serverInstanceId s = i) (schedules w1),
            serverLogs := deleteMany (\<lambda>l. sl_serverInstanceId l = i) (serverLogs w1),
            donationLines := deleteMany (\<lambda>l. list_ex (\<lambda>d. d_id d = l_donationId l \<and> d_serverInstanceId d = i) (donations w1)) (donationLines w1),
            donations := deleteMany (\<lambda>d. d_serverInstanceId d = i) (donations w1),
            triggerFires := deleteMany (\<lambda>f. list_ex (\<lambda>t. t_id t = tf_triggerId f \<and> t_serverInstanceId t = i) (triggers w1)) (triggerFires w1),
            triggers := deleteMany (\<lambda>t. t_serverInstanceId t = i) (triggers w1),
            jobs := updateMany (\<lambda>j. j_serverInstanceId j = Some i) (\<lambda>j. j\<lparr>j_serverInstanceId := None\<rparr>) (jobs w1)\<rparr>)"

definition remove_server :: "id \<Rightarrow> id \<Rightarrow> id \<Rightarrow> world \<Rightarrow> unit res \<times> world" where
  "remove_server orgId userId i w =
     (case find_server i orgId w of
        None \<Rightarrow> (Inl (NotFoundException ''Server instance not found''), w)
      | Some existing \<Rightarrow>
          (Inr (), audit_row orgId (Some userId) ''delete'' ''server_instance'' i [(''name'', Str (si_name existing))] (delete_server i w)))"

section \<open>Servers and hosts\<close>

text \<open>A server is hosted when its host exists and belongs to its organization.\<close>

definition hosted :: "world \<Rightarrow> serverInstance \<Rightarrow> bool" where
  "hosted w s \<longleftrightarrow> list_ex (\<lambda>h. h_id h = si_hostId s \<and> h_orgId h = si_orgId s) (hosts w)"

definition fleet_ok :: "world \<Rightarrow> bool" where
  "fleet_ok w \<longleftrightarrow> inj (idgen w) \<and> distinct (map si_id (serverInstances w)) \<and>
     list_all (\<lambda>s. drawn w (si_id s) \<and> hosted w s) (serverInstances w)"

text \<open>The operations that write the tables of hosts and servers.\<close>

inductive fleet_step :: "world \<Rightarrow> world \<Rightarrow> bool" where
  create_server: "fleet_step w (snd (create_server orgId userId dto now w))"
| update_server: "fleet_step w (snd (update_server orgId userId i upd w))"
| remove_server: "fleet_step w (snd (remove_server orgId userId i w))"
| discover: "fleet_step w (snd (upsertDiscoveredMinecraftInstance hostId found now w))"
| pair_agent: "fleet_step w (snd (pair K token hostName ip now w))"
| rotate_key: "fleet_step w (snd (rotateAgentKey K orgId hostId w))"
| rename_host: "fleet_step w (snd (rename_host orgId hostId nm userId w))"
| remove_host: "fleet_step w (snd (remove_host orgId hostId userId w))"
| heartbeat: "fleet_step w (snd (recordHeartbeatByHostIdOnly hostId metrics now w))"
| offline_sweep: "fleet_step w (snd (sweepOfflineHosts thresholdMs now w))"

text \<open>What a step may do: to the hosts, keep those that servers are on; to the servers, keep rows,
  drop rows, change a row without its id, or add a row with a fresh id.\<close>

lemma hosted_mono:
  assumes "hosted w s" and "\<And>h. h \<in> set (hosts w) \<Longrightarrow> h_id h = si_hostId s \<Longrightarrow>
    \<exists>h' \<in> set (hosts w'). h_id h' = h_id h \<and> h_orgId h' = h_orgId h"
  shows "hosted w' s"
  using assms unfolding hosted_def list_ex_iff by metis

lemma fleet_sub:
  assumes "fleet_ok w" and "idgen w' = idgen w" and "idctr w \<le> idctr w'" and "serverInstances w' = filter P (serverInstances w)"
    and "\<And>h. h \<in> set (hosts w) \<Longrightarrow> h_id h \<in> si_hostId ` set (serverInstances w') \<Longrightarrow>
      \<exists>h' \<in> set (hosts w'). h_id h' = h_id h \<and> h_orgId h' = h_orgId h"
  shows "fleet_ok w'"
  unfolding fleet_ok_def list_all_iff
proof (intro conjI ballI)
  show "inj (idgen w')" using assms(1,2) by (simp add: fleet_ok_def)
  show "distinct (map si_id (serverInstances w'))" using assms(1,4) by (simp add: fleet_ok_def distinct_map_filter)
  fix s assume s: "s \<in> set (serverInstances w')"
  then have w: "drawn w (si_id s)" "hosted w s" using assms(1,4) by (auto simp: fleet_ok_def list_all_iff)
  from assms(2,3) w(1) show "drawn w' (si_id s)" by (rule drawn_mono)
  from w(2) show "hosted w' s" by (rule hosted_mono) (rule assms(5), assumption, use s in auto)
qed

lemma fleet_same:
  assumes "fleet_ok w" and "idgen w' = idgen w" and "idctr w \<le> idctr w'" and "serverInstances w' = serverInstances w" and "hosts w' = hosts w"
  shows "fleet_ok w'"
  using fleet_sub [OF assms(1-3), of "\<lambda>_. True"] assms(4,5) by auto

lemma fleet_update:
  assumes "fleet_ok w" and "idgen w' = idgen w" and "idctr w \<le> idctr w'" and "hosts w' = hosts w"
    and "serverInstances w' = updateRow si_id i f (serverInstances w)" and "\<And>s. si_id (f s) = si_id s"
    and "\<And>s. s \<in> set (serverInstances w) \<Longrightarrow> si_id s = i \<Longrightarrow> hosted w (f s)"
  shows "fleet_ok w'"
proof -
  have h: "hosted w' = hosted w" using assms(4) by (simp add: hosted_def fun_eq_iff)
  have "drawn w' (si_id s) \<and> hosted w' s" if "s \<in> set (serverInstances w')" for s
    using in_updateRow [OF that [unfolded assms(5)]] assms(1,6,7) drawn_mono [OF assms(2,3)] unfolding h
    by (auto simp: fleet_ok_def list_all_iff)
  moreover have "map si_id (serverInstances w') = map si_id (serverInstances w)" unfolding assms(5) by (rule map_updateRow) (rule assms(6))
  ultimately show ?thesis using assms(1,2) by (simp add: fleet_ok_def list_all_iff)
qed

lemma fleet_add:
  assumes "fleet_ok w" and "idgen w' = idgen w" and "idctr w' = Suc (idctr w)" and "hosts w' = hosts w"
    and "serverInstances w' = serverInstances w @ [s]" and "si_id s = next_id w" and "hosted w s"
  shows "fleet_ok w'"
proof -
  have d: "drawn w' i \<longleftrightarrow> drawn w i \<or> i = next_id w" for i
    using assms(2,3) by (auto simp: drawn_def next_id_def less_Suc_eq)
  have h: "hosted w' = hosted w" using assms(4) by (simp add: hosted_def fun_eq_iff)
  have "next_id w \<notin> si_id ` set (serverInstances w)"
    using assms(1) next_id_fresh [of w] by (auto simp: fleet_ok_def list_all_iff)
  with assms show ?thesis by (auto simp: fleet_ok_def list_all_iff d h)
qed

lemma audit_row_fleet [simp]:
  "hosts (audit_row o' u a ty i d w) = hosts w" "serverInstances (audit_row o' u a ty i d w) = serverInstances w"
  "idgen (audit_row o' u a ty i d w) = idgen w" "idctr (audit_row o' u a ty i d w) = idctr w"
  by (simp_all add: audit_row_def)

lemma fleet_audit [simp]: "fleet_ok (audit_row o' u a ty i d w) = fleet_ok w"
  by (simp add: fleet_ok_def drawn_def hosted_def [abs_def])

lemma row_sel [simp]:
  "si_id (discovered_row h g dto c now i) = i" "si_id (rediscover dto c s) = si_id s" "si_id (update_row upd t s) = si_id s"
  "si_hostId (rediscover dto c s) = si_hostId s" "si_orgId (rediscover dto c s) = si_orgId s"
  by (simp_all add: discovered_row_def rediscover_def update_row_def Let_def)

lemma draw_fleet [simp]: "hosts (draw w) = hosts w" "serverInstances (draw w) = serverInstances w"
  by (simp_all add: draw_def)

lemma delete_server_fleet:
  "hosts (delete_server i w) = hosts w" "serverInstances (delete_server i w) = deleteMany (\<lambda>s. si_id s = i) (serverInstances w)"
  "idgen (delete_server i w) = idgen w" "idctr (delete_server i w) = idctr w"
proof -
  have f: "hosts (foldl (\<lambda>v p. delete_player (p_id p) v) v ps) = hosts v \<and> serverInstances (foldl (\<lambda>v p. delete_player (p_id p) v) v ps) = serverInstances v \<and>
      idgen (foldl (\<lambda>v p. delete_player (p_id p) v) v ps) = idgen v \<and> idctr (foldl (\<lambda>v p. delete_player (p_id p) v) v ps) = idctr v" for ps v
    by (induction ps arbitrary: v) (simp_all add: delete_player_def)
  show "hosts (delete_server i w) = hosts w" "serverInstances (delete_server i w) = deleteMany (\<lambda>s. si_id s = i) (serverInstances w)"
    "idgen (delete_server i w) = idgen w" "idctr (delete_server i w) = idctr w"
    by (simp_all add: delete_server_def Let_def f)
qed

lemma found_host: "find_host hostId orgId w = Some h \<Longrightarrow> si_hostId s = hostId \<Longrightarrow> si_orgId s = orgId \<Longrightarrow> hosted w s"
  using find_Some_set by (fastforce simp: find_host_def hosted_def list_ex_iff)

lemma create_fleet:
  assumes "fleet_ok w"
  shows "fleet_ok (snd (create_server orgId userId dto now w))"
proof (cases "assertHostInOrg (cs_hostId dto) orgId w")
  case (Inr u)
  then obtain h where h: "find_host (cs_hostId dto) orgId w = Some h" by (auto simp: assertHostInOrg_def split: option.splits)
  show ?thesis
    using assms Inr found_host [OF h]
    by (cases "getGameTypeIdBySlug (cs_gameType dto) w") (auto simp: create_server_def Let_def intro!: fleet_add [OF assms])
qed (use assms in \<open>simp add: create_server_def\<close>)

lemma update_checks_host:
  "update_checks orgId dto w = Inr g \<Longrightarrow> case up_hostId dto of None \<Rightarrow> True | Some h \<Rightarrow> \<exists>k r. h = Some k \<and> find_host k orgId w = Some r"
  by (auto simp: update_checks_def assertHostInOrg_def split: option.splits sum.splits if_splits)

lemma update_fleet:
  assumes "fleet_ok w"
  shows "fleet_ok (snd (update_server orgId userId i dto w))"
proof (cases "find_server i orgId w")
  case (Some e)
  then have e: "e \<in> set (serverInstances w)" "si_id e = i" "si_orgId e = orgId" using find_Some_set by (fastforce simp: find_server_def)+
  show ?thesis
  proof (cases "update_checks orgId dto w")
    case (Inr g)
    have row: "hosted w (update_row dto g s)" if s: "s \<in> set (serverInstances w)" "si_id s = i" for s
    proof -
      have "inj_on si_id (set (serverInstances w))" using assms by (simp add: fleet_ok_def distinct_map)
      then have "s = e" by (rule inj_onD) (simp_all add: e s)
      then have "hosted w s" "si_orgId s = orgId" using assms e by (auto simp: fleet_ok_def list_all_iff)
      then show ?thesis
      proof (cases "up_hostId dto")
        case None
        with \<open>hosted w s\<close> show ?thesis by (simp add: hosted_def update_row_def apply_patch_def)
      next
        case (Some h)
        then obtain k r where k: "up_hostId dto = Some (Some k)" "find_host k orgId w = Some r" using update_checks_host [OF Inr] by auto
        show ?thesis by (rule found_host [OF k(2)]) (simp_all add: update_row_def apply_patch_def opt_or_def k(1) \<open>si_orgId s = orgId\<close>)
      qed
    qed
    have "fleet_ok (w\<lparr>serverInstances := updateRow si_id i (update_row dto g) (serverInstances w)\<rparr>)"
      by (rule fleet_update [OF assms, where i = i and f = "update_row dto g"]) (use row in simp_all)
    then show ?thesis using Some Inr by (simp add: update_server_def)
  qed (use assms Some in \<open>simp add: update_server_def\<close>)
qed (use assms in \<open>simp add: update_server_def\<close>)

lemma discover_fleet:
  assumes "fleet_ok w"
  shows "fleet_ok (snd (upsertDiscoveredMinecraftInstance hostId dto now w))"
proof (cases "findUnique h_id hostId (hosts w)")
  case (Some h)
  then have h: "h \<in> set (hosts w)" "h_id h = hostId" using findUnique_Some by fastforce+
  show ?thesis
  proof (cases "getGameTypeIdBySlug ''minecraft'' w")
    case (Inr g)
    have new: "hosted w (discovered_row h g dto c now i)" for c i using h by (auto simp: hosted_def list_ex_iff discovered_row_def)
    have old: "hosted w s \<Longrightarrow> hosted w (rediscover dto c s)" for c s by (simp add: hosted_def rediscover_def Let_def)
    have "fleet_ok ((draw w)\<lparr>serverInstances := serverInstances w @ [discovered_row h g dto c now (next_id w)]\<rparr>)" for c
      by (rule fleet_add [OF assms, where s = "discovered_row h g dto c now (next_id w)"]) (use new in simp_all)
    moreover have "fleet_ok (w\<lparr>serverInstances := updateRow si_id i (rediscover dto c) (serverInstances w)\<rparr>)" for i c
      by (rule fleet_update [OF assms, where i = i and f = "rediscover dto c"])
        (use old assms in \<open>simp_all add: fleet_ok_def list_all_iff\<close>)
    ultimately show ?thesis using Some Inr by (simp add: upsertDiscoveredMinecraftInstance_def Let_def split: option.split)
  qed (use assms Some in \<open>simp add: upsertDiscoveredMinecraftInstance_def\<close>)
qed (use assms in \<open>simp add: upsertDiscoveredMinecraftInstance_def\<close>)

lemma remove_server_fleet: "fleet_ok w \<Longrightarrow> fleet_ok (snd (remove_server orgId userId i w))"
  using fleet_sub [of w "delete_server i w" "\<lambda>s. si_id s \<noteq> i"]
  by (auto simp: remove_server_def delete_server_fleet deleteMany_def split: option.split)

lemma update_hosts_fleet:
  assumes "fleet_ok w" and "idgen w' = idgen w" and "idctr w \<le> idctr w'" and "serverInstances w' = serverInstances w"
    and "hosts w' = updateMany P f (hosts w) @ hs" and "\<And>h. h_id (f h) = h_id h \<and> h_orgId (f h) = h_orgId h"
  shows "fleet_ok w'"
proof (rule fleet_sub [OF assms(1-3), of "\<lambda>_. True"])
  fix h assume h: "h \<in> set (hosts w)"
  then have "(if P h then f h else h) \<in> set (hosts w')" by (auto simp: assms(5) updateMany_def)
  then show "\<exists>h' \<in> set (hosts w'). h_id h' = h_id h \<and> h_orgId h' = h_orgId h" by (rule rev_bexI) (simp add: assms(6))
qed (simp add: assms(4))

lemma hosts_fleet:
  assumes "fleet_ok w"
  shows "fleet_ok (snd (pair K token nm ip now w))" "fleet_ok (snd (rotateAgentKey K orgId hostId w))"
    "fleet_ok (snd (rename_host orgId hostId nm' userId w))" "fleet_ok (snd (sweepOfflineHosts th now w))"
    "(\<And>h. h_id (f h) = h_id h \<and> h_orgId (f h) = h_orgId h) \<Longrightarrow> fleet_ok (set_host hostId f w)"
proof -
  have add: "fleet_ok ((draw w)\<lparr>hosts := hosts w @ [h], pairingTokens := ts\<rparr>)" for h ts
    by (rule update_hosts_fleet [OF assms, where P = "\<lambda>_. False" and f = id and hs = "[h]"]) (simp_all add: updateMany_def)
  have upd: "fleet_ok (w\<lparr>hosts := updateMany P f (hosts w)\<rparr>)" if "\<And>h. h_id (f h) = h_id h \<and> h_orgId (f h) = h_orgId h" for P f
    by (rule update_hosts_fleet [OF assms, where P = P and f = f and hs = "[]"]) (simp_all add: that)
  show "fleet_ok (snd (pair K token nm ip now w))"
    using assms add by (auto simp: pair_def pair_commit_def Let_def split: sum.split prod.split)
  show "fleet_ok (snd (rotateAgentKey K orgId hostId w))" "fleet_ok (snd (rename_host orgId hostId nm' userId w))"
    "fleet_ok (snd (sweepOfflineHosts th now w))"
    using assms upd by (auto simp: rotateAgentKey_def rename_host_def sweepOfflineHosts_def set_host_def updateRow_def Let_def split: option.split)
  show "fleet_ok (set_host hostId f w)" if "\<And>h. h_id (f h) = h_id h \<and> h_orgId (f h) = h_orgId h"
    unfolding set_host_def updateRow_def by (rule upd) (rule that)
qed

lemma remove_host_fleet:
  assumes "fleet_ok w"
  shows "fleet_ok (snd (remove_host orgId hostId userId w))"
proof (cases "find_host hostId orgId w = None \<or> list_ex (\<lambda>s. si_hostId s = hostId) (serverInstances w)")
  case False
  then obtain h where h: "find_host hostId orgId w = Some h" "\<not> list_ex (\<lambda>s. si_hostId s = hostId) (serverInstances w)" by auto
  show ?thesis
  proof (rule fleet_sub [OF assms, of _ "\<lambda>_. True"])
    fix k assume "k \<in> set (hosts w)" and "h_id k \<in> si_hostId ` set (serverInstances (snd (remove_host orgId hostId userId w)))"
    then show "\<exists>h' \<in> set (hosts (snd (remove_host orgId hostId userId w))). h_id h' = h_id k \<and> h_orgId h' = h_orgId k"
      using h by (intro rev_bexI [of k]) (auto simp: remove_host_def Let_def deleteMany_def list_ex_iff)
  qed (use h in \<open>simp_all add: remove_host_def Let_def\<close>)
qed (use assms in \<open>auto simp: remove_host_def split: option.split\<close>)

lemma reboot_fleet: "fleet_ok w \<Longrightarrow> fleet_ok (reboot_loop h o' now servers w)"
proof (induction servers arbitrary: w)
  case (Cons s servers)
  have "fleet_ok w1" if "enqueueInternalJob o' None (si_id s) ty p now w = (r, w1)" for ty p r w1
    using fleet_same [OF Cons.prems, of w1] enqueueInternalJob_frame [OF that] by simp
  then show ?case using Cons by (auto split: prod.split sum.split)
qed simp

lemma heartbeat_fleet:
  assumes "fleet_ok w"
  shows "fleet_ok (snd (recordHeartbeatByHostIdOnly hostId metrics now w))"
proof -
  have sample: "fleet_ok (sample_health h o' m now v)" if "fleet_ok v" for h o' m v
    by (rule fleet_same [OF that]) (simp_all add: sample_health_def pruneHealthSamples_def split: option.split)
  have "fleet_ok w1" if "recordHeartbeat h o' m now w = (r, w1)" for h o' m r w1
    using that hosts_fleet(5) [OF assms] sample assms by (auto simp: recordHeartbeat_def Let_def split: option.splits)
  then show ?thesis using assms reboot_fleet
    by (auto simp: recordHeartbeatByHostIdOnly_def maybeRebootIfDown_def split: option.split prod.split sum.split)
qed

definition fleet_init :: "world \<Rightarrow> bool" where
  "fleet_init w \<longleftrightarrow> inj (idgen w) \<and> serverInstances w = []"

interpretation fleet: transition_system fleet_init fleet_step fleet_ok
proof
  show "fleet_ok w" if "fleet_init w" for w using that by (simp add: fleet_init_def fleet_ok_def)
  show "fleet_ok w'" if "fleet_ok w" "fleet_step w w'" for w w'
    using that(2,1) by cases (simp_all only: create_fleet update_fleet remove_server_fleet discover_fleet hosts_fleet remove_host_fleet heartbeat_fleet)
qed

section \<open>Repeated discovery\<close>

lemma sort_key_map: "(\<And>x. f (g x) = f x) \<Longrightarrow> sort_key f (map g xs) = map g (sort_key f xs)"
proof (induction xs)
  case (Cons x xs)
  have "insort_key f (g x) (map g ys) = map g (insort_key f x ys)" for ys
    by (induction ys) (simp_all add: Cons.prems)
  with Cons show ?case by simp
qed simp

lemma find_only: "x \<in> set xs \<Longrightarrow> Q x \<Longrightarrow> (\<And>y. y \<in> set xs \<Longrightarrow> Q y \<Longrightarrow> y = x) \<Longrightarrow> List.find Q xs = Some x"
proof (induction xs)
  case (Cons a xs)
  show ?case
  proof (cases "Q a")
    case True
    then have "a = x" by (intro Cons.prems(3)) simp_all
    with True show ?thesis by simp
  next
    case False
    with Cons.prems(1,2) have "x \<in> set xs" by auto
    from this Cons.prems(2) have "List.find Q xs = Some x" by (rule Cons.IH) (rule Cons.prems(3), simp_all)
    then show ?thesis using False by simp
  qed
qed simp

lemma find_updateRow:
  assumes "List.find Q xs = Some x" and "Q (f x)" and "\<And>y. key (f y) = key y" and "distinct (map key xs)" and "key x = k"
  shows "List.find Q (updateRow key k f xs) = Some (f x)"
  using assms
proof (induction xs)
  case (Cons a xs)
  show ?case
  proof (cases "Q a")
    case False
    with Cons.prems have x: "List.find Q xs = Some x" by simp
    moreover have "key a \<noteq> k" using find_Some_set [OF x] Cons.prems(4,5) by auto
    ultimately show ?thesis using Cons False by simp
  qed (use Cons.prems in simp)
qed simp

definition candidates :: "id \<Rightarrow> id \<Rightarrow> string \<Rightarrow> world \<Rightarrow> serverInstance list" where
  "candidates orgId hostId gameType w =
     orderAsc si_createdAt (filter (\<lambda>s. si_orgId s = orgId \<and> si_hostId s = hostId \<and> si_gameType s = gameType) (serverInstances w))"

lemma candidates_update:
  assumes "serverInstances w' = updateRow si_id i (rediscover dto c) (serverInstances w)"
  shows "candidates a b g w' = updateRow si_id i (rediscover dto c) (candidates a b g w)"
proof -
  define u where "u = (\<lambda>s. if si_id s = i then rediscover dto c s else s)"
  define P where "P = (\<lambda>s :: serverInstance. si_orgId s = a \<and> si_hostId s = b \<and> si_gameType s = g)"
  have u: "updateRow si_id i (rediscover dto c) xs = map u xs" for xs by (simp add: updateRow_def updateMany_def u_def)
  have "P \<circ> u = P" by (simp add: fun_eq_iff P_def u_def rediscover_def Let_def)
  moreover have "si_createdAt (u s) = si_createdAt s" for s by (simp add: u_def rediscover_def Let_def)
  ultimately have "sort_key si_createdAt (filter P (map u xs)) = map u (sort_key si_createdAt (filter P xs))" for xs
    by (simp add: filter_map sort_key_map)
  then show ?thesis unfolding candidates_def P_def [symmetric] assms u orderAsc_def by simp
qed

text \<open>A report with a path is taken for the first server of the host with that path.\<close>

lemma discover_existing:
  assumes "findUnique h_id hostId (hosts w) = Some h" and "getGameTypeIdBySlug ''minecraft'' w = Inr g"
    and "clean_text (di_installPath dto) = Some p"
    and "List.find (\<lambda>s. normalizePath (si_installPath s) = normalizePath (Some p)) (candidates (h_orgId h) hostId g w) = Some s"
  shows "upsertDiscoveredMinecraftInstance hostId dto now w =
    (Inr (False, si_id s), w\<lparr>serverInstances := updateRow si_id (si_id s) (rediscover dto (mergeConfig (si_config s) (di_config dto))) (serverInstances w)\<rparr>)"
proof -
  have "p \<noteq> []" using assms(3) by (auto simp: clean_text_def or_null_def split: option.splits if_splits)
  then have "findMatchingDiscoveredInstance (candidates (h_orgId h) hostId g w) (Some p) = Some s"
    using assms(4) by (simp add: findMatchingDiscoveredInstance_def)
  then show ?thesis
    unfolding upsertDiscoveredMinecraftInstance_def assms(1) candidates_def [symmetric] by (simp add: assms(2,3) Let_def)
qed

lemma candidates_distinct: "distinct (map si_id (serverInstances w)) \<Longrightarrow> distinct (map si_id (candidates a b g w))"
  using distinct_map_filter [of si_id "serverInstances w"]
  by (simp add: candidates_def orderAsc_def distinct_map)

lemma rediscover_found:
  assumes "fleet_ok w" and "upsertDiscoveredMinecraftInstance hostId dto now w = (Inr (c, i), w1)"
    and "clean_text (di_installPath dto) = Some p"
  obtains h g s where "findUnique h_id hostId (hosts w1) = Some h" "getGameTypeIdBySlug ''minecraft'' w1 = Inr g"
    "List.find (\<lambda>s. normalizePath (si_installPath s) = normalizePath (Some p)) (candidates (h_orgId h) hostId g w1) = Some s"
    "si_id s = i" "distinct (map si_id (serverInstances w1))"
proof -
  let ?Q = "\<lambda>s. normalizePath (si_installPath s) = normalizePath (Some p)"
  obtain h g where h: "findUnique h_id hostId (hosts w) = Some h" "getGameTypeIdBySlug ''minecraft'' w = Inr g"
    using assms(2) by (auto simp: upsertDiscoveredMinecraftInstance_def split: option.splits sum.splits)
  let ?L = "candidates (h_orgId h) hostId g w"
  have d: "distinct (map si_id (serverInstances w))" using assms(1) by (simp add: fleet_ok_def)
  have ok: "distinct (map si_id (serverInstances w1))"
    using discover_fleet [OF assms(1), of hostId dto now] assms(2) by (simp add: fleet_ok_def)
  have p: "p \<noteq> []" using assms(3) by (auto simp: clean_text_def or_null_def split: option.splits if_splits)
  let ?ex = "case List.find ?Q ?L of Some s \<Rightarrow> Some s | None \<Rightarrow> (case ?L of [s] \<Rightarrow> Some s | _ \<Rightarrow> None)"
  have frame: "hosts w1 = hosts w" "gameTypes w1 = gameTypes w"
    using assms(2) by (auto simp: upsertDiscoveredMinecraftInstance_def Let_def draw_def split: option.splits sum.splits)
  then have same: "findUnique h_id hostId (hosts w1) = Some h" "getGameTypeIdBySlug ''minecraft'' w1 = Inr g"
    using h by (simp_all add: getGameTypeIdBySlug_def)
  have "\<exists>s. List.find ?Q (candidates (h_orgId h) hostId g w1) = Some s \<and> si_id s = i"
  proof (cases ?ex)
    case None
    then have none: "List.find ?Q ?L = None" by (auto split: option.splits)
    let ?c = "mergeConfig Undefined (di_config dto)"
    let ?n = "discovered_row h g dto ?c now (next_id w)"
    have w1: "serverInstances w1 = serverInstances w @ [?n]" "i = next_id w"
      using assms(2) None p unfolding upsertDiscoveredMinecraftInstance_def h(1) findMatchingDiscoveredInstance_def assms(3) candidates_def [symmetric]
      by (auto simp: h(2) Let_def)
    have "List.find ?Q (candidates (h_orgId h) hostId g w1) = Some ?n"
    proof (rule find_only)
      show "?n \<in> set (candidates (h_orgId h) hostId g w1)" using findUnique_Some [OF h(1)]
        by (simp add: candidates_def w1 discovered_row_def)
      show "?Q ?n" by (simp add: discovered_row_def assms(3))
      show "y = ?n" if "y \<in> set (candidates (h_orgId h) hostId g w1)" "?Q y" for y
        using that none by (auto simp: candidates_def w1 find_None_set split: if_splits)
    qed
    then show ?thesis by (simp add: w1(2))
  next
    case (Some s)
    then have s: "s \<in> set ?L" "List.find ?Q ?L = Some s \<or> ?L = [s]"
      using find_Some_set [of ?Q ?L] by (auto split: option.splits list.splits)
    let ?f = "rediscover dto (mergeConfig (si_config s) (di_config dto))"
    have w1: "serverInstances w1 = updateRow si_id (si_id s) ?f (serverInstances w)" "i = si_id s"
      using assms(2) Some p unfolding upsertDiscoveredMinecraftInstance_def h(1) findMatchingDiscoveredInstance_def assms(3) candidates_def [symmetric]
      by (auto simp: h(2) Let_def)
    have Q: "?Q (?f s)" by (simp add: rediscover_def Let_def assms(3))
    have "List.find ?Q (updateRow si_id (si_id s) ?f ?L) = Some (?f s)"
      using s(2)
    proof
      assume "List.find ?Q ?L = Some s"
      then show ?thesis by (rule find_updateRow) (use Q candidates_distinct [OF d] in simp_all)
    next
      assume "?L = [s]"
      then show ?thesis using Q by simp
    qed
    then show ?thesis by (simp add: candidates_update [OF w1(1)] w1(2))
  qed
  then obtain s where s: "List.find ?Q (candidates (h_orgId h) hostId g w1) = Some s" "si_id s = i" by blast
  show ?thesis by (rule that [OF same s ok])
qed

lemma found_updateRow:
  assumes "List.find Q (candidates a b g w) = Some s" and "distinct (map si_id (serverInstances w))"
  shows "findUnique si_id (si_id s) (serverInstances w) = Some s"
    "findUnique si_id (si_id s) (updateRow si_id (si_id s) (rediscover dto c) (serverInstances w)) = Some (rediscover dto c s)"
proof -
  have "s \<in> set (serverInstances w)" using find_Some_set [OF assms(1)] by (auto simp: candidates_def)
  then show f: "findUnique si_id (si_id s) (serverInstances w) = Some s" using assms(2) by (rule findUnique_unique [rotated])
  show "findUnique si_id (si_id s) (updateRow si_id (si_id s) (rediscover dto c) (serverInstances w)) = Some (rediscover dto c s)"
    by (subst findUnique_updateRow) (simp_all add: f)
qed

section \<open>Properties of servers\<close>

text \<open>C30: organizations stay apart. Whatever users and agents do to hosts and servers, in any order, every
  server is on a host that exists and belongs to the organization of the server.\<close>

theorem servers_on_own_hosts:
  assumes "reach fleet_init fleet_step w" and "s \<in> set (serverInstances w)"
  shows "\<exists>h \<in> set (hosts w). h_id h = si_hostId s \<and> h_orgId h = si_orgId s"
  using fleet.reach_inv [OF assms(1)] assms(2) by (auto simp: fleet_ok_def hosted_def list_all_iff list_ex_iff)

text \<open>An organization with one host, a server created by hand and the report of the agent.\<close>

definition sample_form :: createServer where
  "sample_form = \<lparr>cs_name = ''SMP'', cs_hostId = ''h'', cs_gameType = ''Minecraft'', cs_installPath = Some ''C:/mc/'', cs_startCommand = Some ''own.bat'',
     cs_rconHost = None, cs_rconPort = None, cs_rconPassword = None, cs_mapEmbedUrl = None\<rparr>"

definition sample_site :: world where
  "sample_site = sample_fleet\<lparr>gameTypes := [(''minecraft'', Arr [])]\<rparr>"

definition sample_report :: discovered where
  "sample_report = \<lparr>di_name = Some ''World'', di_installPath = Some ''c:/MC'', di_startCommand = Some ''run.bat'', di_rconHost = None, di_rconPort = None,
     di_rconPassword = None, di_config = Some [(''discovery'', Obj [(''managedByAgent'', Bool True)])]\<rparr>"

definition sample_created :: world where
  "sample_created = snd (create_server ''o'' ''u'' sample_form 5 sample_site)"

lemma sample_created_ok: "reach fleet_init fleet_step sample_created" "fleet_ok sample_created"
proof -
  have "reach fleet_init fleet_step sample_site"
    by (rule reach.start) (simp add: fleet_init_def sample_site_def sample_fleet_def empty_world_def inj_nat_str)
  then show r: "reach fleet_init fleet_step sample_created" unfolding sample_created_def by (rule reach.move) (rule create_server)
  then show "fleet_ok sample_created" by (rule fleet.reach_inv)
qed

theorem servers_on_own_hosts_witness:
  "\<exists>s \<in> set (serverInstances sample_created). \<exists>h \<in> set (hosts sample_created). h_id h = si_hostId s \<and> h_orgId h = si_orgId s"
proof -
  have "map si_id (serverInstances sample_created) = [''0'']" by code_simp
  then obtain s where s: "s \<in> set (serverInstances sample_created)" by (cases "serverInstances sample_created") auto
  with servers_on_own_hosts [OF sample_created_ok(1) s] show ?thesis by blast
qed

text \<open>A discovery is recorded once. When an agent reports a server with a path, any later report with
  the same path (whatever the case, slashes and other fields) is taken for the same server and
  creates none.\<close>

lemma discovery_recorded_once:
  assumes "fleet_ok w" and "upsertDiscoveredMinecraftInstance hostId dto now w = (Inr (c, i), w1)"
    and "clean_text (di_installPath dto) = Some p" and "clean_text (di_installPath dto') = Some p'" and "normalizePath (Some p') = normalizePath (Some p)"
  shows "\<exists>w2. upsertDiscoveredMinecraftInstance hostId dto' later w1 = (Inr (False, i), w2) \<and>
    map si_id (serverInstances w2) = map si_id (serverInstances w1)"
proof -
  obtain h g s where r: "findUnique h_id hostId (hosts w1) = Some h" "getGameTypeIdBySlug ''minecraft'' w1 = Inr g"
    "List.find (\<lambda>s. normalizePath (si_installPath s) = normalizePath (Some p)) (candidates (h_orgId h) hostId g w1) = Some s" "si_id s = i"
    by (rule rediscover_found [OF assms(1-3)])
  from discover_existing [OF r(1,2) assms(4), unfolded assms(5), OF r(3)] r(4) show ?thesis
    by (auto simp: map_updateRow)
qed

text \<open>What an operator set survives one report only. The first report of an agent leaves the start
  command of a server that an operator created as it is, but marks the server as managed by the
  agent, and the same report sent again (as at each start of the agent) replaces the command.\<close>

lemma second_report_overrides_operator:
  assumes "fleet_ok w" and "upsertDiscoveredMinecraftInstance hostId dto now w = (Inr (False, i), w1)"
    and "clean_text (di_installPath dto) = Some p" and "findUnique si_id i (serverInstances w) = Some s"
    and "\<not> isDiscoveredManaged (si_config s)" and "si_startCommand s = Some own" and "own \<noteq> []"
    and "clean_text (di_startCommand dto) = Some cmd" and "di_config dto = Some cfg" and "get cfg ''discovery'' = Obj [(''managedByAgent'', Bool True)]"
  shows "\<exists>s1 s2 w2. findUnique si_id i (serverInstances w1) = Some s1 \<and> si_startCommand s1 = Some own \<and>
    upsertDiscoveredMinecraftInstance hostId dto later w1 = (Inr (False, i), w2) \<and>
    findUnique si_id i (serverInstances w2) = Some s2 \<and> si_startCommand s2 = Some cmd"
proof -
  have "\<exists>c. serverInstances w1 = updateRow si_id i (rediscover dto (mergeConfig c (di_config dto))) (serverInstances w)"
    using assms(2) by (auto simp: upsertDiscoveredMinecraftInstance_def Let_def split: option.splits sum.splits)
  then obtain c where w1: "serverInstances w1 = updateRow si_id i (rediscover dto (mergeConfig c (di_config dto))) (serverInstances w)" by blast
  let ?s1 = "rediscover dto (mergeConfig c (di_config dto)) s"
  have s1: "findUnique si_id i (serverInstances w1) = Some ?s1" unfolding w1 by (subst findUnique_updateRow) (simp_all add: assms(4))
  have kept: "si_startCommand ?s1 = Some own" using assms(5-8) by (simp add: rediscover_def Let_def blank_def)
  have managed: "isDiscoveredManaged (si_config ?s1)"
    using assms(9,10) by (simp add: rediscover_def Let_def isDiscoveredManaged_def mergeConfig_def obj_of_def truthy_def)
  obtain h g s' where r: "findUnique h_id hostId (hosts w1) = Some h" "getGameTypeIdBySlug ''minecraft'' w1 = Inr g"
    "List.find (\<lambda>s. normalizePath (si_installPath s) = normalizePath (Some p)) (candidates (h_orgId h) hostId g w1) = Some s'" "si_id s' = i"
    "distinct (map si_id (serverInstances w1))"
    by (rule rediscover_found [OF assms(1-3)])
  have "s' = ?s1" using found_updateRow(1) [OF r(3,5)] s1 r(4) by simp
  with found_updateRow(2) [OF r(3,5)] r(4) discover_existing [OF r(1,2) assms(3) r(3)] managed assms(8) s1 kept
  show ?thesis by (auto simp: rediscover_def Let_def)
qed

text \<open>A list of servers never shows their passwords.\<close>

lemma list_servers_no_password: "r \<in> set (list_servers orgId w) \<Longrightarrow> get r ''rconPassword'' = Undefined"
  by (auto simp: list_servers_def toResponse_def Let_def get_def)

end
