(* ===== verification/Api.thy ===== *)
theory Api
  imports Views Outbound Uploads Servers
begin

text \<open>
  The routes of the user interface that change state: the controllers under control-plane/src and the validation
  of their bodies (main.ts installs one ValidationPipe for all). A request is a value of a datatype per controller;
  \<open>serve\<close> is what the framework does with it: the guards of the route, the validation of the body, the handler.
  Routes that only read are the view functions of their services. A body has the types its handler declares; one of
  other types is refused by the validation where the class has decorators.
\<close>

section \<open>What the handlers are given\<close>

record apiEnv =
  ap_keys :: keyring
  ap_auth :: authEnv
  ap_org :: orgEnv
  ap_env :: env
  ap_shop :: shopEnv
  ap_url :: url_class
  ap_net :: network
  ap_base64 :: "string \<Rightarrow> string"
  ap_isEmail :: "string \<Rightarrow> bool"

text \<open>The fields: what the components rely on, and \<open>isEmail\<close> of the validator. \<open>chance\<close> holds the random values of
  one request: the nonces of two secrets, a salt, a token, an upload id.\<close>

record chance =
  ch_iv :: string
  ch_iv2 :: string
  ch_salt :: string
  ch_token :: string
  ch_upload :: string

type_synonym site = "world \<times> disk \<times> uploads"

definition outcome :: "'a res \<Rightarrow> unit res" where
  \<comment> \<open>whether the handler returns or throws; the bodies of answers are those of the services\<close>
  "outcome r = (case r of Inl e \<Rightarrow> Inl e | Inr _ \<Rightarrow> Inr ())"

definition on_world :: "(world \<Rightarrow> 'a res \<times> world) \<Rightarrow> site \<Rightarrow> unit res \<times> site" where
  "on_world f s = (case s of (w, d, u) \<Rightarrow> (case f w of (r, w') \<Rightarrow> (outcome r, w', d, u)))"

definition on_shop :: "(world \<times> disk \<Rightarrow> 'a res \<times> world \<times> disk) \<Rightarrow> site \<Rightarrow> unit res \<times> site" where
  "on_shop f s = (case s of (w, d, u) \<Rightarrow> (case f (w, d) of (r, w', d') \<Rightarrow> (outcome r, w', d', u)))"

definition on_uploads :: "(world \<times> uploads \<Rightarrow> 'a res \<times> world \<times> uploads) \<Rightarrow> site \<Rightarrow> unit res \<times> site" where
  "on_uploads f s = (case s of (w, d, u) \<Rightarrow> (case f (w, u) of (r, w', u') \<Rightarrow> (outcome r, w', d, u')))"

definition answered :: "'a \<times> world \<Rightarrow> unit res \<times> world" where
  \<comment> \<open>a service that cannot throw\<close>
  "answered x = (Inr (), snd x)"

definition len_in :: "nat \<Rightarrow> nat \<Rightarrow> string \<Rightarrow> bool" where
  \<comment> \<open>\<open>@MinLength\<close> and \<open>@MaxLength\<close>\<close>
  "len_in lo hi s \<longleftrightarrow> lo \<le> length s \<and> length s \<le> hi"

definition opt_ok :: "('a \<Rightarrow> bool) \<Rightarrow> 'a option \<Rightarrow> bool" where
  \<comment> \<open>\<open>@IsOptional\<close>\<close>
  "opt_ok P v = (case v of None \<Rightarrow> True | Some x \<Rightarrow> P x)"

section \<open>Accounts and settings of an organization\<close>

datatype accountRequest =
    CreateAccount string string "string option" string
  | SetApproval id bool
  | DeleteAccount id
  | ResetPassword id string
  | UpdateOrg orgUpdates

definition account_valid :: "apiEnv \<Rightarrow> accountRequest \<Rightarrow> bool" where
  \<comment> \<open>UpdateOrgDto, CreateOrgAccountDto, ResetOrgAccountPasswordDto, SetOrgAccountApprovalDto\<close>
  "account_valid A r =
     (case r of
        CreateAccount email password name role \<Rightarrow> ap_isEmail A email \<and> length email \<le> 254 \<and> len_in 12 128 password \<and>
          opt_ok (len_in 0 100) name \<and> role \<in> {''operator'', ''viewer''}
      | ResetPassword _ newPassword \<Rightarrow> len_in 12 128 newPassword
      | UpdateOrg u \<Rightarrow> opt_ok (\<lambda>n. 4 \<le> n \<and> n \<le> 64) (ou_stabilityRestartMemoryGiB u) \<and>
          opt_ok (\<lambda>n. 30 \<le> n \<and> n \<le> 1440) (ou_stabilityRestartCooldownMinutes u)
      | _ \<Rightarrow> True)"

definition account_run :: "apiEnv \<Rightarrow> chance \<Rightarrow> id \<Rightarrow> id \<Rightarrow> ms \<Rightarrow> accountRequest \<Rightarrow> site \<Rightarrow> unit res \<times> site" where
  "account_run A c orgId userId now r =
     (case r of
        CreateAccount email password name role \<Rightarrow> on_world (createAccount (ap_auth A) orgId userId email password name role (ch_salt c) now)
      | SetApproval i approved \<Rightarrow> on_world (setAccountApproval orgId i userId approved now)
      | DeleteAccount i \<Rightarrow> on_world (deleteAccount orgId i userId)
      | ResetPassword i newPassword \<Rightarrow> on_world (resetAccountPassword (ap_auth A) orgId i userId newPassword (ch_salt c))
      | UpdateOrg u \<Rightarrow> on_world (updateOrg orgId userId u))"

datatype integrationRequest =
    SaveRecaptcha string "string option"
  | ClearRecaptcha
  | SaveOpenAi "string option" string
  | TestOpenAi
  | ClearOpenAi
  | SelectProvider string
  | SaveKimi "string option" string
  | TestKimi
  | ClearKimi
  | SaveCloudflare string
  | ClearCloudflare
  | SaveDigitalOcean string
  | TestDigitalOcean
  | ClearDigitalOcean
  | SaveMailgun "string option" string string string
  | TestMailgun
  | ClearMailgun
  | SaveStripe "string option" "string option"
  | TestStripe
  | ClearStripe
  | SaveMaintenance string
  | ClearMaintenance

definition integration_valid :: "apiEnv \<Rightarrow> integrationRequest \<Rightarrow> bool" where
  "integration_valid A r =
     (case r of
        SaveRecaptcha siteKey secretKey \<Rightarrow> len_in 20 256 siteKey \<and> opt_ok (len_in 10 512) secretKey
      | SaveOpenAi apiKey model \<Rightarrow> opt_ok (len_in 20 256) apiKey \<and> len_in 1 100 model
      | SelectProvider provider \<Rightarrow> provider \<in> {''codex'', ''kimi''}
      | SaveKimi apiKey model \<Rightarrow> opt_ok (len_in 10 512) apiKey \<and> len_in 1 100 model
      | SaveCloudflare apiToken \<Rightarrow> len_in 20 2048 apiToken
      | SaveDigitalOcean apiToken \<Rightarrow> len_in 20 2048 apiToken
      | SaveMailgun apiKey domain fromEmail region \<Rightarrow> opt_ok (len_in 10 512) apiKey \<and> len_in 3 255 domain \<and> ap_isEmail A fromEmail \<and> region \<in> {''us'', ''eu''}
      | SaveStripe secretKey webhookSecret \<Rightarrow> opt_ok (len_in 20 256) secretKey \<and> opt_ok (len_in 20 256) webhookSecret
      | SaveMaintenance password \<Rightarrow> len_in 4 32 password
      | _ \<Rightarrow> True)"

definition integration_run :: "apiEnv \<Rightarrow> chance \<Rightarrow> id \<Rightarrow> id \<Rightarrow> ms \<Rightarrow> integrationRequest \<Rightarrow> site \<Rightarrow> unit res \<times> site" where
  \<comment> \<open>a connection test only reads\<close>
  "integration_run A c orgId userId now r =
     (case r of
        SaveRecaptcha siteKey secretKey \<Rightarrow> on_world (saveRecaptchaSettings (ap_org A) (ch_iv c) orgId userId siteKey secretKey)
      | ClearRecaptcha \<Rightarrow> on_world (clearRecaptchaSettings orgId userId)
      | SaveOpenAi apiKey model \<Rightarrow> on_world (saveOpenAiSettings (ap_org A) (ch_iv c) orgId userId apiKey model)
      | TestOpenAi \<Rightarrow> on_world (\<lambda>w. (Inr (testOpenAi (ap_org A) (ap_env A) (ap_net A) orgId 0 w), w))
      | ClearOpenAi \<Rightarrow> on_world (clearOpenAiSettings orgId)
      | SelectProvider provider \<Rightarrow> on_world (selectModAiProvider orgId userId provider)
      | SaveKimi apiKey model \<Rightarrow> on_world (saveKimiSettings (ap_org A) (ch_iv c) orgId userId apiKey model)
      | TestKimi \<Rightarrow> on_world (\<lambda>w. (Inr (testKimi (ap_org A) (ap_env A) (ap_net A) orgId 0 w), w))
      | ClearKimi \<Rightarrow> on_world (clearKimiSettings orgId)
      | SaveCloudflare apiToken \<Rightarrow> on_world (saveCloudflareSettings (ap_org A) (ch_iv c) orgId userId apiToken)
      | ClearCloudflare \<Rightarrow> on_world (clearCloudflareSettings orgId userId)
      | SaveDigitalOcean apiToken \<Rightarrow> on_world (saveDigitalOceanSettings (ap_org A) (ch_iv c) orgId userId apiToken)
      | TestDigitalOcean \<Rightarrow> on_world (\<lambda>w. (Inr (testDigitalOcean (ap_org A) (ap_env A) (ap_net A) orgId w), w))
      | ClearDigitalOcean \<Rightarrow> on_world (clearDigitalOceanSettings orgId userId)
      | SaveMailgun apiKey domain fromEmail region \<Rightarrow> on_world (saveMailgunSettings (ap_org A) (ch_iv c) orgId userId apiKey domain fromEmail region)
      | TestMailgun \<Rightarrow> on_world (\<lambda>w. (testMailgun (ap_org A) (ap_base64 A) (ap_net A) orgId userId w, w))
      | ClearMailgun \<Rightarrow> on_world (clearMailgunSettings orgId userId)
      | SaveStripe secretKey webhookSecret \<Rightarrow> on_world (saveStripeSettings (ap_org A) (ch_iv c) (ch_iv2 c) orgId userId secretKey webhookSecret)
      | TestStripe \<Rightarrow> on_world (\<lambda>w. (Inr (testStripe (ap_org A) (ap_env A) (ap_net A) orgId w), w))
      | ClearStripe \<Rightarrow> on_world (clearStripeSettings orgId userId)
      | SaveMaintenance password \<Rightarrow> on_world (saveMaintenancePassword (ap_org A) (ch_iv c) orgId userId password)
      | ClearMaintenance \<Rightarrow> on_world (clearMaintenancePassword orgId userId))"

section \<open>The fleet: hosts, servers, what runs on them\<close>

definition host_name :: "string \<Rightarrow> bool" where
  \<comment> \<open>\<open>/^[\w.-]+$/\<close>\<close>
  "host_name s \<longleftrightarrow> s \<noteq> [] \<and> list_all (\<lambda>c. is_alnum c \<or> c = CHR ''_'' \<or> c = CHR ''.'' \<or> c = CHR ''-'') s"

definition game_slug :: "string \<Rightarrow> bool" where
  "game_slug s \<longleftrightarrow> toLowerCase s = ''minecraft''"

definition create_server_valid :: "createServer \<Rightarrow> bool" where
  "create_server_valid d \<longleftrightarrow>
     len_in 1 128 (cs_name d) \<and> cs_hostId d \<noteq> [] \<and> game_slug (cs_gameType d) \<and>
     opt_ok (len_in 0 2048) (cs_installPath d) \<and> opt_ok (len_in 0 2048) (cs_startCommand d) \<and>
     opt_ok (\<lambda>h. length h \<le> 255 \<and> host_name h) (cs_rconHost d) \<and> opt_ok (\<lambda>n. 1 \<le> n \<and> n \<le> 65535) (cs_rconPort d) \<and>
     opt_ok (len_in 0 256) (cs_rconPassword d) \<and> opt_ok (len_in 0 2048) (cs_mapEmbedUrl d)"

definition update_server_valid :: "updateServer \<Rightarrow> bool" where
  \<comment> \<open>a field may be absent or null\<close>
  "update_server_valid d \<longleftrightarrow>
     opt_ok (opt_ok (len_in 1 128)) (up_name d) \<and> opt_ok (opt_ok game_slug) (up_gameType d) \<and> opt_ok (opt_ok (len_in 0 512)) (up_updateCommand d) \<and>
     opt_ok (opt_ok (\<lambda>h. length h \<le> 255 \<and> host_name h)) (up_rconHost d) \<and> opt_ok (opt_ok (\<lambda>n. 1 \<le> n \<and> n \<le> 65535)) (up_rconPort d) \<and>
     opt_ok (opt_ok (len_in 0 256)) (up_rconPassword d) \<and> opt_ok (opt_ok (len_in 0 2048)) (up_mapEmbedUrl d)"

datatype serverRequest =
    CreateServer createServer
  | UpdateServer id updateServer
  | RemoveServer id

definition server_valid :: "serverRequest \<Rightarrow> bool" where
  "server_valid r = (case r of CreateServer d \<Rightarrow> create_server_valid d | UpdateServer _ d \<Rightarrow> update_server_valid d | RemoveServer _ \<Rightarrow> True)"

definition server_run :: "id \<Rightarrow> id \<Rightarrow> ms \<Rightarrow> serverRequest \<Rightarrow> site \<Rightarrow> unit res \<times> site" where
  "server_run orgId userId now r =
     (case r of
        CreateServer d \<Rightarrow> on_world (create_server orgId userId d now)
      | UpdateServer i d \<Rightarrow> on_world (update_server orgId userId i d)
      | RemoveServer i \<Rightarrow> on_world (remove_server orgId userId i))"

datatype hostRequest =
    RenameHost id "string option"
  | RemoveHost id
  | CreatePairingToken "int option"
  | RotateKey id

definition host_valid :: "hostRequest \<Rightarrow> bool" where
  "host_valid r = (case r of CreatePairingToken t \<Rightarrow> opt_ok (\<lambda>n. 60 \<le> n \<and> n \<le> 86400) t | _ \<Rightarrow> True)"

definition host_run :: "apiEnv \<Rightarrow> chance \<Rightarrow> id \<Rightarrow> id \<Rightarrow> ms \<Rightarrow> hostRequest \<Rightarrow> site \<Rightarrow> unit res \<times> site" where
  \<comment> \<open>the pairing routes of a user are here\<close>
  "host_run A c orgId userId now r =
     (case r of
        RenameHost i name \<Rightarrow> on_world (rename_host orgId i (opt_or name []) userId)
      | RemoveHost i \<Rightarrow> on_world (remove_host orgId i userId)
      | CreatePairingToken t \<Rightarrow> on_world (\<lambda>w. answered (createToken (ap_keys A) orgId userId t (ch_token c) now w))
      | RotateKey i \<Rightarrow> on_world (rotateAgentKey (ap_keys A) orgId i))"

definition exn_text :: "exn \<Rightarrow> string" where
  \<comment> \<open>\<open>e.message\<close>\<close>
  "exn_text e =
     (case e of Error m \<Rightarrow> m | BadRequestException m \<Rightarrow> m | UnauthorizedException m \<Rightarrow> m | ForbiddenException m \<Rightarrow> m | NotFoundException m \<Rightarrow> m
      | ConflictException m \<Rightarrow> m | ServiceUnavailableException m \<Rightarrow> m | GatewayTimeoutException m \<Rightarrow> m | BadGatewayException m \<Rightarrow> m
      | TooManyRequestsException m _ \<Rightarrow> m)"

definition recast :: "'a res \<times> world \<Rightarrow> 'a res \<times> world" where
  \<comment> \<open>the catch blocks of the schedule and alert controllers\<close>
  "recast x =
     (case x of
        (Inl e, w) \<Rightarrow> (Inl (if contains (exn_text e) ''not found'' then NotFoundException (exn_text e) else BadRequestException (exn_text e)), w)
      | _ \<Rightarrow> x)"

lemma recast_world [simp]: "snd (recast x) = snd x"
  by (auto simp: recast_def split: prod.split sum.split)

datatype scheduleRequest =
    SkipNext id
  | CreateSchedule string id string string js "bool option"
  | UpdateSchedule id "bool option" "string option" "string option" "string option" js
  | DeleteSchedule id

definition schedule_run :: "apiEnv \<Rightarrow> id \<Rightarrow> id \<Rightarrow> ms \<Rightarrow> scheduleRequest \<Rightarrow> site \<Rightarrow> unit res \<times> site" where
  "schedule_run A orgId userId now r =
     (case r of
        SkipNext sid \<Rightarrow>
          if sid = [] then on_world (\<lambda>w. (Inl (BadRequestException ''serverInstanceId is required'') :: unit res, w))
          else on_world (\<lambda>w. answered (skipNextAutoRestart orgId sid ''manual'' now w))
      | CreateSchedule name sid cron jobType payload enabled \<Rightarrow>
          if name = [] \<or> sid = [] \<or> cron = [] \<or> jobType = []
          then on_world (\<lambda>w. (Inl (BadRequestException ''name, serverInstanceId, cronExpression, and jobType are required'') :: unit res, w))
          else on_world (\<lambda>w. case createSchedule (ap_env A) orgId userId name sid cron jobType payload enabled now w of
                  (Inl e, w') \<Rightarrow> (Inl (BadRequestException (exn_text e)), w')
                | (Inr x, w') \<Rightarrow> (Inr x, w'))
      | UpdateSchedule i enabled name cron jobType payload \<Rightarrow>
          on_world (\<lambda>w. recast (updateSchedule (ap_env A) orgId i enabled name cron jobType payload now w))
      | DeleteSchedule i \<Rightarrow> on_world (\<lambda>w. recast (deleteSchedule orgId i w)))"

datatype alertRequest =
    CreateRule string js js "bool option"
  | UpdateRule id "string option" "bool option" "js option" "js option"
  | TestRule id
  | DeleteRule id

definition alert_run :: "apiEnv \<Rightarrow> id \<Rightarrow> id \<Rightarrow> ms \<Rightarrow> alertRequest \<Rightarrow> site \<Rightarrow> unit res \<times> site" where
  "alert_run A orgId userId now r =
     (case r of
        CreateRule name condition channel enabled \<Rightarrow>
          if name = [] \<or> \<not> truthy condition \<or> \<not> truthy channel
          then on_world (\<lambda>w. (Inl (BadRequestException ''name, condition, and channel are required'') :: unit res, w))
          else on_world (\<lambda>w. answered (createRule orgId name condition channel enabled now w))
      | UpdateRule i name enabled condition channel \<Rightarrow> on_world (\<lambda>w. recast (updateRule orgId i name enabled condition channel w))
      | TestRule i \<Rightarrow> on_world (testRule (ap_env A) (ap_url A) orgId i userId now)
      | DeleteRule i \<Rightarrow> on_world (\<lambda>w. recast (deleteRule orgId i w)))"

datatype logRequest =
    LogSettings "int option"
  | CreateKeyword id string "bool option"
  | SetKeyword id bool
  | DeleteKeyword id
  | SaveChat id "bool option" "string option"
  | SaveModeration id obj
  | MutePlayer id string string bool

definition log_run :: "apiEnv \<Rightarrow> id \<Rightarrow> ms \<Rightarrow> logRequest \<Rightarrow> site \<Rightarrow> unit res \<times> site" where
  "log_run A orgId now r =
     (case r of
        LogSettings days \<Rightarrow> on_world (updateSettings orgId (opt_or days 7) now)
      | CreateKeyword sid keyword caseSensitive \<Rightarrow> on_world (createKeywordRule orgId sid keyword (opt_or caseSensitive False) now)
      | SetKeyword i enabled \<Rightarrow> on_world (setKeywordRuleEnabled orgId i enabled)
      | DeleteKeyword i \<Rightarrow> on_world (deleteKeywordRule orgId i)
      | SaveChat sid enabled webhookUrl \<Rightarrow> on_world (updateChatSettings (ap_url A) orgId sid (opt_or enabled False) (opt_or webhookUrl []) now)
      | SaveModeration sid body \<Rightarrow> on_world (updateChatModeration orgId sid body now)
      | MutePlayer sid playerId playerName muted \<Rightarrow> on_world (setPlayerMuted orgId sid playerId playerName muted now))"

datatype triggerRequest =
    CreateTrigger string id "bool option" string js string js bool
  | UpdateTrigger id bool "string option" "bool option"
  | RemoveTrigger id

definition trigger_run :: "apiEnv \<Rightarrow> id \<Rightarrow> id \<Rightarrow> ms \<Rightarrow> triggerRequest \<Rightarrow> site \<Rightarrow> unit res \<times> site" where
  "trigger_run A orgId userId now r =
     (case r of
        CreateTrigger name sid enabled eventType eventConfig actionType actionConfig applyToExisting \<Rightarrow>
          on_world (createTrigger (ap_env A) orgId userId name sid enabled eventType eventConfig actionType actionConfig applyToExisting now)
      | UpdateTrigger i other name enabled \<Rightarrow> on_world (updateTrigger (ap_env A) orgId i other name enabled now)
      | RemoveTrigger i \<Rightarrow> on_world (removeTrigger orgId i))"

datatype toolRequest =
    ListPlayers "id option"
  | GetTools id
  | UpdateTools id obj
  | HealthSettings "jsnum option"

definition tool_run :: "id \<Rightarrow> ms \<Rightarrow> toolRequest \<Rightarrow> site \<Rightarrow> unit res \<times> site" where
  \<comment> \<open>the players, server tools and health controllers; the first two routes also write\<close>
  "tool_run orgId now r =
     (case r of
        ListPlayers sid \<Rightarrow> on_world (\<lambda>w. answered (list_players orgId sid now w))
      | GetTools sid \<Rightarrow> on_world (getProtectionSettings orgId sid)
      | UpdateTools sid body \<Rightarrow> on_world (updateProtectionSettings orgId sid body)
      | HealthSettings n \<Rightarrow> on_world (updateInterval orgId (opt_or n (int_num 10))))"

section \<open>The shop, jobs and batches\<close>

datatype shopRequest =
    CreateItem shopInput "bytes option"
  | UpdateItem id shopInput "bytes option"
  | RemoveItem id
  | GameItems bool

definition shop_run :: "apiEnv \<Rightarrow> id \<Rightarrow> id \<Rightarrow> ms \<Rightarrow> shopRequest \<Rightarrow> site \<Rightarrow> unit res \<times> site" where
  "shop_run A orgId userId now r =
     (case r of
        CreateItem input file \<Rightarrow> on_shop (create_item (ap_shop A) orgId userId input file now)
      | UpdateItem i input file \<Rightarrow> on_shop (update_item (ap_shop A) orgId userId i input file)
      | RemoveItem i \<Rightarrow> on_shop (remove_item (ap_shop A) orgId userId i)
      | GameItems refresh \<Rightarrow> on_world (gameItemCatalog (ap_shop A) orgId userId refresh now))"

datatype workRequest =
    CreateJob string id "obj option"
  | RecommendMod id "uploadFile option"
  | UploadMod id "string option" "string option" "uploadFile option"
  | EditMod editInput
  | CreateBatch string "id list" "obj option"
  | CancelBatch id

definition BATCH_TYPES :: "string list" where
  "BATCH_TYPES = [''restart_wave'', ''update_wave'', ''bulk_mod_install'', ''custom'']"

definition work_valid :: "workRequest \<Rightarrow> bool" where
  \<comment> \<open>CreateJobDto, CreateBatchDto, EditModDto\<close>
  "work_valid r =
     (case r of
        CreateJob type sid _ \<Rightarrow> type \<in> set JOB_TYPES \<and> sid \<noteq> []
      | EditMod i \<Rightarrow> len_in 1 128 (ei_modName i) \<and> len_in 1 512 (ei_path i) \<and> len_in 0 262144 (ei_content i) \<and> len_in 2 4000 (ei_instruction i)
      | CreateBatch type ids _ \<Rightarrow> type \<in> set BATCH_TYPES \<and> ids \<noteq> []
      | _ \<Rightarrow> True)"

definition work_run :: "apiEnv \<Rightarrow> chance \<Rightarrow> id \<Rightarrow> id \<Rightarrow> ms \<Rightarrow> workRequest \<Rightarrow> site \<Rightarrow> unit res \<times> site" where
  "work_run A c orgId userId now r =
     (case r of
        CreateJob type sid payload \<Rightarrow> on_world (createJob (ap_env A) orgId userId sid type payload now)
      | RecommendMod sid file \<Rightarrow> on_uploads (recommendMod (ap_env A) orgId userId sid file (ch_upload c) now)
      | UploadMod sid overrideActive transferConfig file \<Rightarrow>
          on_uploads (uploadMod (ap_env A) orgId userId sid overrideActive transferConfig file (ch_upload c) now)
      | EditMod i \<Rightarrow> on_world (edit_mod (ap_org A) (ap_env A) (ap_net A) orgId userId i)
      | CreateBatch type ids payload \<Rightarrow> on_world (createBatch orgId (Some userId) type ids payload now)
      | CancelBatch i \<Rightarrow> on_world (cancelBatch (e_removable (ap_env A)) orgId i now))"

section \<open>Serving a request\<close>

datatype request =
    Account accountRequest
  | Integration integrationRequest
  | Server serverRequest
  | Host hostRequest
  | Schedule scheduleRequest
  | Alert alertRequest
  | Log logRequest
  | Trigger triggerRequest
  | Tool toolRequest
  | Shop shopRequest
  | Work workRequest

definition any_staff :: "string list option" where "any_staff = Some [''admin'', ''operator'']"
definition only_admin :: "string list option" where "only_admin = Some [''admin'']"

definition required_roles :: "request \<Rightarrow> string list option" where
  \<comment> \<open>\<open>@RequireOrgRoles\<close>; None where the route has no role guard\<close>
  "required_roles r =
     (case r of
        Account _ \<Rightarrow> only_admin
      | Integration _ \<Rightarrow> only_admin
      | Server _ \<Rightarrow> any_staff
      | Host (CreatePairingToken _) \<Rightarrow> only_admin
      | Host (RotateKey _) \<Rightarrow> only_admin
      | Host _ \<Rightarrow> any_staff
      | Schedule _ \<Rightarrow> any_staff
      | Alert _ \<Rightarrow> any_staff
      | Log _ \<Rightarrow> any_staff
      | Trigger _ \<Rightarrow> any_staff
      | Tool (ListPlayers _) \<Rightarrow> None
      | Tool (GetTools _) \<Rightarrow> None
      | Tool _ \<Rightarrow> any_staff
      | Shop _ \<Rightarrow> only_admin
      | Work (CreateJob _ _ _) \<Rightarrow> Some [''admin'', ''operator'', ''viewer'']
      | Work (RecommendMod _ _) \<Rightarrow> Some [''admin'', ''operator'', ''viewer'']
      | Work _ \<Rightarrow> any_staff)"

definition valid_body :: "apiEnv \<Rightarrow> request \<Rightarrow> bool" where
  "valid_body A r =
     (case r of Account x \<Rightarrow> account_valid A x | Integration x \<Rightarrow> integration_valid A x | Server x \<Rightarrow> server_valid x | Host x \<Rightarrow> host_valid x
      | Work x \<Rightarrow> work_valid x | _ \<Rightarrow> True)"

definition handle :: "apiEnv \<Rightarrow> chance \<Rightarrow> id \<Rightarrow> id \<Rightarrow> ms \<Rightarrow> request \<Rightarrow> site \<Rightarrow> unit res \<times> site" where
  "handle A c orgId userId now r =
     (case r of
        Account x \<Rightarrow> account_run A c orgId userId now x
      | Integration x \<Rightarrow> integration_run A c orgId userId now x
      | Server x \<Rightarrow> server_run orgId userId now x
      | Host x \<Rightarrow> host_run A c orgId userId now x
      | Schedule x \<Rightarrow> schedule_run A orgId userId now x
      | Alert x \<Rightarrow> alert_run A orgId userId now x
      | Log x \<Rightarrow> log_run A orgId now x
      | Trigger x \<Rightarrow> trigger_run A orgId userId now x
      | Tool x \<Rightarrow> tool_run orgId now x
      | Shop x \<Rightarrow> shop_run A orgId userId now x
      | Work x \<Rightarrow> work_run A c orgId userId now x)"

definition admitted :: "apiEnv \<Rightarrow> string option \<Rightarrow> id \<Rightarrow> request \<Rightarrow> world \<Rightarrow> (id \<times> string) res" where
  \<comment> \<open>\<open>JwtAuthGuard\<close>, \<open>OrgMemberGuard\<close> and, on routes that name roles, \<open>RequireOrgRoleGuard\<close>: the user and the role\<close>
  "admitted A auth orgId r w =
     (case required_roles r of
        Some roles \<Rightarrow> userGuards (ap_keys A) auth (Some orgId) (Some roles) w
      | None \<Rightarrow>
          (case jwtAuthGuard (ap_keys A) auth w of
             Inl e \<Rightarrow> Inl e
           | Inr userId \<Rightarrow> (case orgMemberGuard userId (Some orgId) w of Inl e \<Rightarrow> Inl e | Inr role \<Rightarrow> Inr (userId, role))))"

definition serve :: "apiEnv \<Rightarrow> chance \<Rightarrow> string option \<Rightarrow> id \<Rightarrow> ms \<Rightarrow> request \<Rightarrow> site \<Rightarrow> unit res \<times> site" where
  "serve A c auth orgId now r s =
     (case admitted A auth orgId r (fst s) of
        Inl e \<Rightarrow> (Inl e, s)
      | Inr (userId, _) \<Rightarrow>
          if \<not> valid_body A r then (Inl (BadRequestException ''Bad Request''), s)
          else handle A c orgId userId now r s)"

end
