(* ===== verification/Rewards.thy ===== *)
theory Rewards
  imports Triggers
begin

text \<open>
  The rewards of triggers as an interface: what queueing a job, writing a fire and counting it keep is kept by every
  operation on rewards (triggers/triggers.service.ts). The theories that follow what a request leaves alone interpret it.
\<close>

locale rewarding = state_preorder R for R :: "world \<Rightarrow> world \<Rightarrow> bool" +
  assumes queued_R: "R w (snd (enqueueInternalJob o' u sid jt p now w))"
    and fire_R: "R w (set_fire i f w)"
    and record_R: "R w (record_fire t pl k now w)"
    and counted_R: "R w (w\<lparr>triggers := updateRow t_id i (\<lambda>x. x\<lparr>t_lastFiredAt := Some now, t_fireCount := t_fireCount x + 1\<rparr>) (triggers w)\<rparr>)"
    and released_R: "R w (release_stale o' sid now w)"
begin

lemma deliver_R: "R w (snd (deliver_fire t p k b a i now w))"
proof -
  obtain r w1 where e: "enqueueInternalJob (t_orgId t) (t_createdById t) (t_serverInstanceId t) ''TRIGGER_GRANT_ITEMS''
      (Some (grant_payload t p k i a)) now w = (r, w1)" by fastforce
  have 1: "R w w1" using queued_R [of w] e by (metis snd_conv)
  have 2: "R w (set_fire n f w1)" for n f by (rule trans_R [OF 1 fire_R])
  have 3: "R w (w2\<lparr>triggers := updateRow t_id (t_id t) (\<lambda>x. x\<lparr>t_lastFiredAt := Some now, t_fireCount := t_fireCount x + 1\<rparr>) (triggers w2)\<rparr>)"
    if "w2 = set_fire n f w1" for n f w2 using trans_R [OF 2 counted_R] that by blast
  show ?thesis
    using 1 2 3 [OF refl] e fire_R refl_R by (auto simp: deliver_fire_def Let_def split: option.split sum.split)
qed

lemma grant_R: "R w (snd (enqueueGrantItems E t p k b now w))"
  using deliver_R trans_R [OF record_R deliver_R] by (auto simp: enqueueGrantItems_def refl_R split: sum.split)

lemma fires_R: "R w (fire_all E now w xs)"
  unfolding fire_all_def by (intro foldl_R) (auto simp: fireOnce_def refl_R grant_R split: prod.split)

lemma evaluate_R:
  "R w (evaluateFirstJoin E o' s p now w)" "R w (evaluatePlaytime E o' s p a b now w)" "R w (evaluateDonationTotal E o' s p a b now w)"
  by (simp_all add: evaluate_defs fires_R)

lemma backfill_R: "R w (backfillTrigger E t now w)"
  by (auto simp: backfillTrigger_def fires_R refl_R split: sum.split)

lemma retries_R: "R w (retry_all E now w xs)"
  unfolding retry_all_def by (intro foldl_R) (auto simp: grant_R)

lemma retry_R: "R w (retryPendingItemGrants E o' s now w)" "R w (retryPendingItemGrantsForPlayer E i now w)"
  using trans_R [OF released_R retries_R]
  by (auto simp: retryPendingItemGrants_def retryPendingItemGrantsForPlayer_def Let_def retries_R)

lemma complete_R: "R w (completeItemGrant p ok out w)"
  by (auto simp: completeItemGrant_def Let_def refl_R fire_R split: option.split)

end

end
