(* ===== verification/Log_Frames.thy ===== *)
theory Log_Frames
  imports Logs Rewards
begin

text \<open>
  The log lines as an interface (logs/logs.service.ts, \<open>append\<close> up to the retention): what the steps of a line keep (an event,
  a command, a reward, an alert, a row of a player) is kept by the parsing of chat and player lines, the keyword alerts and the
  repeated relays. The theories that follow what an agent's log leaves alone interpret it.
\<close>

locale log_handling = rewarding R for R :: "world \<Rightarrow> world \<Rightarrow> bool" +
  assumes quiet_R: "quiet w w' \<Longrightarrow> R w w'"
    and sent_R: "dispatch o' u si ty p now w = (ids, w') \<Longrightarrow> R w w'"
    and event_R: "R w (snd (add_event o' sid ty p now w))"
    and events_R: "R w (w\<lparr>events := es\<rparr>)"
    and moderation_R: "R w (w\<lparr>lastMapPrune := l, chatSamples := s, moderationCooldown := m\<rparr>)"
    and reconcile_R: "R w (reconcileNameFallback sid k n st w)"
    and player_R: "R w (set_player i f w)"
    and logged_R: "R w (snd (upsert_logged o' sid k n b f now w))"
    and session_R: "R w (open_session i now w)" "R w (w\<lparr>playerSessions := ss\<rparr>)"
begin

lemmas alerts_R = quiet_R [OF sendMatchingRules_quiet]

lemma keyword_R: "R w (keyword_alert E o' sid nm prior txt' now w r)"
  using trans_R [OF event_R alerts_R] by (auto simp: keyword_alert_def Let_def refl_R split: option.split)

lemma keywords_R: "R w (foldl (keyword_alert E o' sid nm prior txt' now) w rs)"
  by (intro foldl_R keyword_R)

lemma command_R: "R w (enqueueModerationCommand o' sid cmd now w)"
  using sent_R by (auto simp: enqueueModerationCommand_def refl_R split: option.split) (metis sent_R surjective_pairing)

lemma punish_R: "R w (punish o' sid i n why act now w)"
proof -
  have "R w (w\<lparr>moderationCooldown := m\<rparr>)" for m
    using moderation_R [where w = w and l = "lastMapPrune w" and s = "chatSamples w" and m = m] by simp
  then show ?thesis using trans_R [OF _ command_R] by (simp add: punish_def Let_def refl_R)
qed

lemma sample_R: "R w (snd (sample_chat m k now w))"
proof -
  have "R v (v\<lparr>chatSamples := s\<rparr>)" for v s using moderation_R [where w = v and l = "lastMapPrune v" and s = s and m = "moderationCooldown v"] by simp
  moreover have "R w (pruneModerationState now w)" by (simp add: pruneModerationState_def refl_R moderation_R)
  ultimately show ?thesis using trans_R by (simp add: sample_chat_def Let_def)
qed

lemma moderate_R: "R w (snd (moderateChat o' sid i n m now w))"
proof -
  obtain ss w1 where s: "sample_chat (getChatModeration o' sid w) (chat_key sid i) now w = (ss, w1)" by fastforce
  then have 1: "R w w1" using sample_R by (metis snd_conv)
  have "R w1 (punish o' sid i n why act now (snd (add_event o' sid ty p now w1)))" for why act ty p
    by (rule trans_R [OF event_R punish_R])
  then show ?thesis
    using s 1 trans_R [of w w1] by (auto simp: moderateChat_def Let_def refl_R split: option.split prod.split)
qed

lemma relay_R: "R w (relay_chat E ctx now w)"
proof -
  obtain c e w1 where r: "relayPlayerChat E ctx now w = ((c, e), w1)" by (metis surjective_pairing)
  then have "R w w1" using quiet_R [OF relayPlayerChat_quiet] by (metis snd_conv)
  then show ?thesis using r trans_R [OF _ event_R] by (simp add: relay_chat_def)
qed

lemma chat_line_R: "R w (parse_chat_line E o' sid sn now w l)"
proof (cases "chat_line l")
  case (Some x)
  obtain i n m where x: "x = (i, n, m)" by (cases x)
  let ?ev = "add_event o' sid ''player_chat'' [(''playerId'', Str i), (''playerName'', Str n), (''channel'', Str chat_channel), (''message'', Str m),
                   (''serverInstanceName'', Str sn), (''logTimestamp'', Str (log_stamp l))] now w"
  obtain e v1 where e: "?ev = (e, v1)" by fastforce
  have 1: "R w v1" using event_R e by (metis snd_conv)
  obtain b v2 where b: "moderateChat o' sid i n m now v1 = (b, v2)" by fastforce
  have 2: "R w v2" using trans_R [OF 1] moderate_R b by (metis snd_conv)
  then show ?thesis using Some x e b trans_R [OF 2 relay_R] by (auto simp: parse_chat_line_def Let_def refl_R split: bool.split)
qed (simp add: parse_chat_line_def refl_R)

lemma join_R: "R w (log_join E o' sid sn n k ex now w)"
proof -
  obtain p v1 where p: "upsert_logged o' sid k n True (joined_player n (case ex of None \<Rightarrow> False | Some p \<Rightarrow> p_online p) now) now w = (p, v1)" by fastforce
  have 1: "R w v1" using logged_R p by (metis snd_conv)
  then have 2: "R w (if ex = None then evaluateFirstJoin E o' sid tp now v1 else v1)" for tp
    using trans_R [OF _ evaluate_R(1)] by simp
  show ?thesis unfolding log_join_def Let_def p prod.case
    by (intro if_R trans_R [OF _ alerts_R] trans_R [OF _ retry_R(2)] trans_R [OF _ session_R(1)] 2)
qed

lemma leave_R: "R w (log_leave E o' sid sn n k ex now w)"
  unfolding log_leave_def Let_def
  by (intro trans_R [OF trans_R [OF trans_R [OF player_R session_R(2)] evaluate_R(2)] alerts_R])

lemma player_line_R: "R w (parse_player_line E o' sid sn now w l)"
  using trans_R [OF reconcile_R logged_R] trans_R [OF reconcile_R join_R] trans_R [OF reconcile_R leave_R] reconcile_R
  by (auto simp: parse_player_line_def Let_def refl_R split: option.split prod.split)

lemma retries_relay_R: "R w (retryChatRelays E o' sid now w)"
proof -
  have "R v (retry_relay E o' sid now v row)" for v row
  proof -
    have "R v (v1\<lparr>events := es\<rparr>) \<and> R v v1" if "relayPlayerChat E ctx now v = ((c, e), v1)" for ctx c e v1 es
    proof -
      have "R v v1" using quiet_R [OF relayPlayerChat_quiet] that by (metis snd_conv)
      then show ?thesis using trans_R [OF _ events_R] by blast
    qed
    then show ?thesis by (simp add: retry_relay_def Let_def split: prod.split)
  qed
  then show ?thesis unfolding retryChatRelays_def by (intro foldl_R)
qed

end

text \<open>With the rest of \<open>append\<close>: the unfinished lines, the scanned tail, the stored chunk and the retention.\<close>

locale log_appending = log_handling R for R :: "world \<Rightarrow> world \<Rightarrow> bool" +
  assumes buffer_R: "R w (w\<lparr>chatLineBuffers := c\<rparr>)" "R w (w\<lparr>lineBuffers := l\<rparr>)" "R w (w\<lparr>scanTails := t\<rparr>)"
    and stored_R: "R w ((draw w)\<lparr>serverLogs := ls\<rparr>)"
    and prune_R: "R w (prune o' now w)"
begin

lemma chat_R: "R w (parseChat E o' sid sn txt' now w)"
proof -
  have "R v (foldl (parse_chat_line E o' sid sn now) v ls)" for v ls by (intro foldl_R chat_line_R)
  from trans_R [OF buffer_R(1) this] show ?thesis by (simp add: parseChat_def split: prod.split)
qed

lemma players_R: "R w (parsePlayers E o' sid sn txt' now w)"
proof -
  have "R v (foldl (parse_player_line E o' sid sn now) v ls)" for v ls by (intro foldl_R player_line_R)
  from trans_R [OF buffer_R(2) this] show ?thesis by (simp add: parsePlayers_def split: prod.split)
qed

lemma scanned_R: "R w (matchKeywordAlerts E o' sid txt' now w)"
  using trans_R [OF buffer_R(3) keywords_R] by (simp add: matchKeywordAlerts_def Let_def)

lemma append_R: "R w (snd (append_log E h sid txt' now w))"
  unfolding append_log_def Let_def
  by (auto simp: refl_R intro!: trans_R [OF _ prune_R] trans_R [OF _ retries_relay_R] trans_R [OF _ players_R] trans_R [OF _ chat_R]
      trans_R [OF stored_R scanned_R] split: option.split)

end

section \<open>The unfinished lines\<close>

text \<open>No line touches the unfinished lines kept of the logs; only the parsers of whole chunks do.\<close>

definition buffers_same :: "world \<Rightarrow> world \<Rightarrow> bool" where
  "buffers_same w w' \<longleftrightarrow> chatLineBuffers w' = chatLineBuffers w \<and> lineBuffers w' = lineBuffers w"

interpretation buffers: state_preorder buffers_same
  by unfold_locales (auto simp: buffers_same_def)

lemma dispatch_buffers: "dispatch o' u si ty p now w = (ids, w') \<Longrightarrow> buffers_same w w'"
  by (auto simp: dispatch_def create_job_def create_run_def addJob_def enqueue_def draw_def buffers_same_def Let_def split: prod.splits)

interpretation line_buffers: log_handling buffers_same
proof
  show "buffers_same w (snd (enqueueInternalJob o' u sid jt p now w))" for w o' u sid jt p now
    by (auto simp: enqueueInternalJob_def buffers.refl_R split: option.split prod.split intro: dispatch_buffers)
  show "buffers_same w w'" if "quiet w w'" for w w' using that by (elim quietE) (simp add: buffers_same_def)
  show "buffers_same w w'" if "dispatch o' u si ty p now w = (ids, w')" for w w' o' u si ty p now ids
    using that by (rule dispatch_buffers)
qed (auto simp: buffers_same_def set_fire_def record_fire_def draw_def release_stale_def add_event_def reconcileNameFallback_def set_player_def
    delete_player_def upsert_logged_def open_session_def Let_def split: option.split)

end
