(* ===== verification/Agent_Api.thy ===== *)
theory Agent_Api
  imports Api Job_Report Log_Frames
begin

text \<open>
  The routes of an agent (agent-jobs.controller.ts, agent-stability.controller.ts, agent-hosts.controller.ts and the log
  route of logs.controller.ts): the guard that reads the host from the agent key, the validation of the body, the
  handler. A poll is one turn of its loop (the loop is in Job_Report); the download of an archive only reads (Uploads).

  Shown: without a valid key nothing changes; with the key of a host, no account, no setting, no other host and no run
  or queue entry of another host does.
\<close>

section \<open>Serving an agent\<close>

datatype agentRequest =
    Poll bool
  | Result id reportResult
  | Progress id string "string option"
  | Stability js js
  | Heartbeat "heartbeatMetrics option"
  | Discover discovered
  | AppendLog id "string option"

definition agent_valid :: "agentRequest \<Rightarrow> bool" where
  \<comment> \<open>ReportResultDto, ReportProgressDto\<close>
  "agent_valid r =
     (case r of
        Result _ dto \<Rightarrow> dto_status dto \<in> {''success'', ''failed''} \<and> opt_ok (\<lambda>n. 0 \<le> n) (dto_durationMs dto)
      | Progress _ phase message \<Rightarrow> phase \<in> {''queued'', ''running''} \<and> opt_ok (len_in 0 500) message
      | _ \<Rightarrow> True)"

definition poll_turn :: "env \<Rightarrow> id \<Rightarrow> bool \<Rightarrow> ms \<Rightarrow> world \<Rightarrow> queueJob option \<times> world" where
  "poll_turn E hostId busy now w =
     (case findUnique h_id hostId (hosts w) of
        None \<Rightarrow> (None, w)
      | Some host \<Rightarrow> poll_once E (h_orgId host) hostId busy now w)"

definition agent_run :: "env \<Rightarrow> id \<Rightarrow> ms \<Rightarrow> agentRequest \<Rightarrow> world \<Rightarrow> unit res \<times> world" where
  "agent_run E hostId now r w =
     (case r of
        Poll busy \<Rightarrow> answered (poll_turn E hostId busy now w)
      | Result runId dto \<Rightarrow> reportJobResult E hostId runId dto now w
      | Progress runId phase message \<Rightarrow> reportJobProgress hostId runId phase message now w
      | Stability server memory \<Rightarrow> map_prod outcome id (evaluate_stability hostId server memory now w)
      | Heartbeat metrics \<Rightarrow> recordHeartbeatByHostIdOnly hostId metrics now w
      | Discover found \<Rightarrow> map_prod outcome id (upsertDiscoveredMinecraftInstance hostId found now w)
      | AppendLog server content \<Rightarrow> append_log E hostId server (opt_or content []) now w)"

definition agent_serve :: "keyring \<Rightarrow> env \<Rightarrow> string option \<Rightarrow> string option \<Rightarrow> ms \<Rightarrow> agentRequest \<Rightarrow> world \<Rightarrow> unit res \<times> world" where
  "agent_serve K E auth pathHost now r w =
     (case agentAuthGuard K auth pathHost w of
        Inl e \<Rightarrow> (Inl e, w)
      | Inr hostId \<Rightarrow>
          if \<not> agent_valid r then (Inl (BadRequestException ''Bad Request''), w) else agent_run E hostId now r w)"

section \<open>What the handlers leave alone\<close>

text \<open>Two flags of a server change with its jobs.\<close>

definition without_mode :: "serverInstance \<Rightarrow> serverInstance" where
  "without_mode s = s\<lparr>si_maintenanceMode := False, si_rebootIfDown := False\<rparr>"

definition accounts_same :: "world \<Rightarrow> world \<Rightarrow> bool" where
  "accounts_same w w' \<longleftrightarrow>
     users w' = users w \<and> userOrgs w' = userOrgs w \<and> orgs w' = orgs w \<and> pairingTokens w' = pairingTokens w \<and> shopItems w' = shopItems w \<and>
     alertRules w' = alertRules w \<and> protections w' = protections w"

definition calm :: "world \<Rightarrow> world \<Rightarrow> bool" where
  \<comment> \<open>runs and queue entries are only added\<close>
  "calm w w' \<longleftrightarrow>
     accounts_same w w' \<and> hosts w' = hosts w \<and> map without_mode (serverInstances w') = map without_mode (serverInstances w) \<and>
     (\<exists>rs. jobRuns w' = jobRuns w @ rs) \<and> (\<forall>o'. set (orgQueues w o') \<subseteq> set (orgQueues w' o'))"

interpretation calm: state_preorder calm
  by unfold_locales (fastforce simp: calm_def accounts_same_def)+

lemma calm_rest:
  "users w' = users w \<Longrightarrow> userOrgs w' = userOrgs w \<Longrightarrow> orgs w' = orgs w \<Longrightarrow> pairingTokens w' = pairingTokens w \<Longrightarrow> shopItems w' = shopItems w \<Longrightarrow>
   alertRules w' = alertRules w \<Longrightarrow> protections w' = protections w \<Longrightarrow> hosts w' = hosts w \<Longrightarrow> serverInstances w' = serverInstances w \<Longrightarrow>
   jobRuns w' = jobRuns w \<Longrightarrow> orgQueues w' = orgQueues w \<Longrightarrow> calm w w'"
  by (simp add: calm_def accounts_same_def)

lemma calm_quiet: "quiet w w' \<Longrightarrow> calm w w'"
  by (erule quietE) (simp add: calm_rest)

lemma calm_dispatch: "dispatch o' u si ty p now w = (ids, w') \<Longrightarrow> calm w w'"
  by (auto simp: dispatch_def create_job_def create_run_def addJob_def enqueue_def draw_def calm_def accounts_same_def Let_def split: prod.splits)

lemma calm_internal: "calm w (snd (enqueueInternalJob o' u sid jt p now w))"
  by (auto simp: enqueueInternalJob_def calm.refl_R split: option.split prod.split intro: calm_dispatch)

lemma without_mode_update:
  assumes "\<And>s. without_mode (f s) = without_mode s"
  shows "map without_mode (updateRow si_id i f ss) = map without_mode ss"
  using assms by (induction ss) (simp_all add: updateRow_def updateMany_def)

lemma calm_mode: "(\<And>s. without_mode (f s) = without_mode s) \<Longrightarrow> calm w (w\<lparr>serverInstances := updateRow si_id i f (serverInstances w)\<rparr>)"
  by (simp add: calm_def accounts_same_def without_mode_update)

lemma calm_maintenance: "maintenance_payload E ty o' si q w = Inr (x, w1) \<Longrightarrow> calm w w1"
  by (auto simp: maintenance_payload_def without_mode_def intro!: calm.refl_R calm_mode split: if_splits option.splits)

lemma calm_createJob: "calm w (snd (createJob E o' u sid jt p now w))"
proof (cases "createJob E o' u sid jt p now w")
  case (Pair r v)
  then show ?thesis
  proof (cases rule: createJob_cases)
    case (accepted ids si p1 p2 p3 w1)
    from calm.trans_R [OF calm_maintenance [OF accepted(6)] calm_dispatch [OF accepted(7)]] show ?thesis using Pair by simp
  qed (simp add: Pair calm.refl_R)
qed

interpretation calm_rewards: rewarding calm
  by unfold_locales (simp_all add: calm_internal calm_rest set_fire_def record_fire_def draw_def release_stale_def)

interpretation calm_delivery: delivery calm
  by unfold_locales (simp_all add: calm_createJob calm_rest set_line_def)

lemma calm_lists:
  "calm w (reconcileNameFallback sid k n s w)" "calm w (snd (upsert_player o' sid row now w))" "calm w (open_session i now w)"
  "calm w (leave_player now p w)" "calm w (set_player i f w)"
  by (auto intro!: calm_rest simp: reconcileNameFallback_def upsert_player_def open_session_def leave_player_def set_player_def delete_player_def
      draw_def Let_def split: option.split)

lemmas calm_alerts = calm_quiet [OF sendMatchingRules_quiet]

lemma calm_row: "calm w (apply_row E o' sid sn now w row)"
proof -
  let ?w1 = "reconcileNameFallback sid (rr_identityKey row) (rr_name row) (rr_steamId row) w"
  obtain p w2 where u: "upsert_player o' sid row now ?w1 = (p, w2)" by fastforce
  have 2: "calm w w2" using calm.trans_R [OF calm_lists(1) calm_lists(2)] u by (metis snd_conv)
  then have 3: "calm w (if b then w2 else open_session i now w2)" for b i using calm.trans_R [OF _ calm_lists(3)] by simp
  then have 4: "calm w v \<Longrightarrow> calm w (if c then evaluateFirstJoin E o' sid tp now v else v)" for c tp v
    using calm.trans_R [OF _ calm_rewards.evaluate_R(1)] by simp
  have 5: "calm w v \<Longrightarrow> calm w (if b then v else sendMatchingRules E ty ctx now (retryPendingItemGrantsForPlayer E i now v))" for b ty ctx i v
    using calm.trans_R [OF calm.trans_R [OF _ calm_rewards.retry_R(2)] calm_alerts] by simp
  show ?thesis
    unfolding apply_row_def Let_def u prod.case by (intro calm.trans_R [OF _ calm_rewards.evaluate_R(2)] 5 4 3)
qed

lemma calm_missing: "calm w (apply_missing E o' sid sn now w p)"
  unfolding apply_missing_def Let_def
  by (rule calm.trans_R [OF calm.trans_R [OF calm_lists(4) calm_rewards.evaluate_R(2)] calm_alerts])

lemma calm_roster: "calm w (applyPlayerRoster E o' sid rows now w)"
  unfolding applyPlayerRoster_def Let_def
  by (intro calm.trans_R [OF _ calm_rewards.retry_R(1)] calm.trans_R [OF _ calm_delivery.grants_R(2)]
      calm.trans_R [OF calm.foldl_R calm.foldl_R] calm_row calm_missing)

subsection \<open>Logs\<close>

interpretation calm_log: log_appending calm
proof
  show "calm w w'" if "quiet w w'" for w w' using that by (rule calm_quiet)
  show "calm w w'" if "dispatch o' u si ty p now w = (ids, w')" for w w' o' u si ty p now ids using that by (rule calm_dispatch)
  show "calm w (prune o' now w)" for w o' now by (auto simp: prune_def Let_def intro!: calm_rest split: option.split)
  show "calm w (snd (upsert_logged o' sid k n b f now w))" for w o' sid k n b f now
    by (auto simp: upsert_logged_def set_player_def draw_def Let_def intro!: calm_rest split: option.split)
qed (simp_all add: calm_lists calm_rest add_event_def draw_def)

section \<open>What belongs to other hosts\<close>

definition theirs :: "id \<Rightarrow> world \<Rightarrow> host list \<times> serverInstance list" where
  "theirs h w = (filter (\<lambda>k. h_id k \<noteq> h) (hosts w), map without_mode (filter (\<lambda>s. si_hostId s \<noteq> h) (serverInstances w)))"

definition beyond :: "id \<Rightarrow> world \<Rightarrow> world \<Rightarrow> bool" where
  "beyond h w w' \<longleftrightarrow>
     accounts_same w w' \<and> theirs h w' = theirs h w \<and>
     (\<forall>i run. find_run i w = Some run \<and> jr_hostId run \<noteq> h \<longrightarrow> find_run i w' = Some run) \<and>
     (\<forall>o' q. q \<in> set (orgQueues w o') \<and> q_hostId q \<noteq> h \<longrightarrow> q \<in> set (orgQueues w' o'))"

interpretation beyond: state_preorder "beyond h" for h
  by unfold_locales (auto simp: beyond_def accounts_same_def)

lemma filter_masked: "map without_mode (filter (\<lambda>s. si_hostId s \<noteq> h) ss) = filter (\<lambda>s. si_hostId s \<noteq> h) (map without_mode ss)"
  by (induction ss) (simp_all add: without_mode_def)

lemma calm_beyond:
  assumes "calm w w'"
  shows "beyond h w w'"
proof -
  obtain rs where "jobRuns w' = jobRuns w @ rs" using assms by (auto simp: calm_def)
  then have "find_run i w = Some run \<Longrightarrow> find_run i w' = Some run" for i run by (simp add: find_run_def findUnique_append)
  then show ?thesis using assms by (auto simp: calm_def beyond_def theirs_def filter_masked)
qed

lemma beyond_run:
  assumes "find_run i w = Some run" and "jr_hostId run = h" and "\<And>r. jr_id (f r) = jr_id r"
  shows "beyond h w (set_run i f w)"
  using assms by (auto simp: beyond_def theirs_def accounts_same_def find_run_set_run) (simp_all add: set_run_def)

lemma calm_counted: "calm w (recordJobRunCompleted o' j s p now w)" "calm w (recordJobRunStarted o' j w)"
  by (auto simp: recordJobRunCompleted_def recordJobRunStarted_def set_batch_def emitProgress_def Let_def intro!: calm_rest split: option.split prod.split)

lemma calm_effects: "calm w (snd (report_effects E job s dto now w))"
proof -
  have 1: "calm v (upload_cleanup job v)" for v by (simp add: upload_cleanup_def Let_def calm_rest)
  have 2: "calm v (maintenance_done job s v)" for v
    by (auto simp: maintenance_done_def Let_def calm.refl_R without_mode_def intro!: calm_mode split: option.split)
  have 3: "calm v (stability_skip job s now v)" for v
    by (auto simp: stability_skip_def skipNextAutoRestart_def set_schedule_def Let_def intro!: calm_rest split: option.split)
  have 4: "calm v (snd (roster_done E job s dto now v)) \<and> (\<exists>v'. roster_done E job s dto now v = (Inr (), v'))" for v
  proof (cases "parseMinecraftRoster (opt_obj (dto_result dto))")
    case (Some rows)
    then have "list_all row_ok rows" using parseMinecraftRoster_ok by blast
    then show ?thesis using Some by (auto simp: roster_done_def enforce_inert calm_roster calm.refl_R split: option.split)
  qed (auto simp: roster_done_def calm.refl_R split: option.split)
  have 5: "calm v (grants_done E job s dto now v)" for v
  proof -
    have "calm v (finishShopGrant E p b out now v)" for p b out
      by (auto simp: finishShopGrant_def set_line_def Let_def intro!: calm_rest split: option.split)
    then show ?thesis
      unfolding grants_done_def Let_def by (intro calm.if_R calm.trans_R [OF calm.if_R calm_rewards.complete_R] calm.refl_R)
  qed
  let ?v = "stability_skip job s now (maintenance_done job s (upload_cleanup job w))"
  obtain v' where v': "roster_done E job s dto now ?v = (Inr (), v')" using 4 by blast
  have "calm w ?v" by (rule calm.trans_R [OF calm.trans_R [OF 1 2] 3])
  then have "calm w v'" using 4 [of ?v] v' calm.trans_R by auto
  then show ?thesis using v' calm.trans_R [OF _ 5] by (simp add: report_effects_def)
qed

lemma beyond_result: "beyond h w (snd (reportJobResult E h i dto now w))"
proof (cases "find_run i w")
  case (Some run)
  show ?thesis
  proof (cases "jr_hostId run = h \<and> jr_status run = Running \<and> find_job (jr_jobId run) w \<noteq> None")
    case True
    then obtain job where job: "find_job (jr_jobId run) w = Some job" by auto
    let ?s = "if dto_status dto = ''success'' then Success else Failed"
    let ?w1 = "set_run i (\<lambda>r. r\<lparr>jr_status := ?s, jr_finishedAt := Some now, jr_result := report_result E job ?s dto\<rparr>) w"
    obtain e w2 where e: "report_effects E job ?s dto now ?w1 = (e, w2)" by fastforce
    have 1: "beyond h w ?w1" by (rule beyond_run [OF Some]) (use True in simp_all)
    have "calm ?w1 w2" using calm_effects [of ?w1 E job ?s dto now] e by simp
    from beyond.trans_R [OF 1 calm_beyond [OF this]] have 2: "beyond h w w2" .
    then have "beyond h w (recordJobRunCompleted (j_orgId job) (jr_jobId run) ?s Running now w2)"
      using calm_beyond [OF calm_counted(1)] beyond.trans_R by blast
    with 2 show ?thesis using Some True job e by (auto simp: reportJobResult_def Let_def split: sum.split)
  qed (use Some in \<open>auto simp: reportJobResult_def beyond.refl_R\<close>)
qed (simp add: reportJobResult_def beyond.refl_R)

lemma beyond_started: "beyond h w (markJobRunStarted h i now w)"
proof (cases "find_run i w")
  case (Some run)
  let ?w1 = "set_run i (\<lambda>r. r\<lparr>jr_status := Running, jr_startedAt := Some now\<rparr>) w"
  have "beyond h w ?w1" if "jr_hostId run = h" by (rule beyond_run [OF Some that]) simp
  then show ?thesis
    using Some beyond.trans_R [OF _ calm_beyond [OF calm_counted(2)]]
    by (auto simp: markJobRunStarted_def Let_def beyond.refl_R split: option.split)
qed (simp add: markJobRunStarted_def beyond.refl_R)

lemma beyond_progress: "beyond h w (snd (reportJobProgress h i ph m now w))"
  by (auto simp: reportJobProgress_def beyond.refl_R intro!: beyond_run split: option.split)

text \<open>A poll takes out an entry of its own host only.\<close>

lemma beyond_poll:
  assumes "\<And>o'. queue_wf o' w" and "\<And>q. set (e_getJobs E q) \<subseteq> set q"
  shows "beyond h w (snd (poll_once E o' h busy now w))"
proof (cases "scan_waiting (e_removable E) h busy (e_getJobs E (orgQueues w o'))")
  case (Some j)
  from find_in [OF Some [unfolded scan_waiting_find]] have j: "j \<in> set (orgQueues w o')" "q_hostId j = h"
    using assms(2) by blast+
  have "q_jobRunId q \<noteq> q_jobRunId j" if "q \<in> set (orgQueues w o')" "q_hostId q \<noteq> h" for q
    using assms(1) [of o'] j that by (auto simp: queue_wf_def distinct_map inj_on_def)
  then have "beyond h w (remove_entry o' (q_jobRunId j) w)"
    by (auto simp: beyond_def theirs_def accounts_same_def remove_entry_def find_run_def)
  then show ?thesis
    using Some beyond.trans_R [OF _ beyond_started] by (simp add: poll_once_def getNextJobForHost_def)
qed (simp add: poll_once_def getNextJobForHost_def beyond.refl_R)

lemma beyond_heartbeat: "beyond h w (snd (recordHeartbeatByHostIdOnly h m now w))"
proof -
  have host: "beyond h v (set_host h f v)" if "\<And>k. h_id (f k) = h_id k" for f v
  proof -
    have "filter (\<lambda>k. h_id k \<noteq> h) (updateRow h_id h f ks) = filter (\<lambda>k. h_id k \<noteq> h) ks" for ks
      using that by (induction ks) (auto simp: updateRow_def updateMany_def)
    then show ?thesis by (simp add: beyond_def theirs_def accounts_same_def set_host_def find_run_def)
  qed
  have health: "calm v (sample_health h o' x now v)" for v o' x
    by (auto simp: sample_health_def pruneHealthSamples_def intro!: calm_rest split: option.split)
  have reboot: "calm v (reboot_loop h o' now ss v)" for o' ss v
  proof (induction ss arbitrary: v)
    case (Cons s ss)
    obtain r v1 where e: "enqueueInternalJob o' None (si_id s) ''SERVER_START'' (Some [(''trigger'', Str ''reboot_if_down'')]) now v = (r, v1)" by fastforce
    then have 1: "calm v v1" using calm_internal by (metis snd_conv)
    from calm.trans_R [OF 1 Cons.IH] 1 Cons.IH show ?case by (cases r) (simp_all add: e)
  qed (simp add: calm.refl_R)
  have "beyond h w (snd (recordHeartbeat h o' m now w))" for o'
    using host beyond.trans_R [OF host calm_beyond [OF health]]
    by (auto simp: recordHeartbeat_def Let_def beyond.refl_R split: option.split)
  then have "beyond h w v" if "recordHeartbeat h o' m now w = (r, v)" for o' r v using that by (metis snd_conv)
  then show ?thesis
    using beyond.trans_R [OF _ calm_beyond [OF reboot]]
    by (auto simp: recordHeartbeatByHostIdOnly_def maybeRebootIfDown_def beyond.refl_R split: option.split prod.split sum.split)
qed

lemma beyond_discover:
  assumes "distinct (map si_id (serverInstances w))"
  shows "beyond h w (snd (upsertDiscoveredMinecraftInstance h found now w))"
proof -
  have servers: "beyond h w (v\<lparr>serverInstances := ss\<rparr>)"
    if "filter (\<lambda>s. si_hostId s \<noteq> h) ss = filter (\<lambda>s. si_hostId s \<noteq> h) (serverInstances w)" "v = w \<or> v = draw w" for v ss
    using that by (auto simp: beyond_def theirs_def accounts_same_def find_run_def draw_def)
  have upd: "filter (\<lambda>s. si_hostId s \<noteq> h) (updateRow si_id i f ss) = filter (\<lambda>s. si_hostId s \<noteq> h) ss"
    if "\<forall>s \<in> set ss. si_id s = i \<longrightarrow> si_hostId s = h" "\<And>s. si_hostId (f s) = si_hostId s" for i f ss
    using that by (induction ss) (auto simp: updateRow_def updateMany_def)
  have keep: "si_hostId (rediscover found c s) = si_hostId s" for c s by (simp add: rediscover_def Let_def)
  have one: "\<forall>s \<in> set (serverInstances w). si_id s = si_id x \<longrightarrow> si_hostId s = h"
    if "x \<in> set (serverInstances w)" "si_hostId x = h" for x
    using assms that by (auto simp: distinct_map inj_on_def)
  have e: "x \<in> set ss" if "(case findMatchingDiscoveredInstance ss q of Some s \<Rightarrow> Some s | None \<Rightarrow> (case ss of [s] \<Rightarrow> Some s | _ \<Rightarrow> None)) = Some x" for x ss q
    using that by (auto simp: findMatchingDiscoveredInstance_def dest: find_in split: option.splits list.splits if_splits)
  show ?thesis
  proof (cases "findUnique h_id h (hosts w)")
    case (Some k)
    then have k: "h_id k = h" by (auto dest: findUnique_Some)
    show ?thesis
    proof (cases "getGameTypeIdBySlug ''minecraft'' w")
      case (Inr g)
      let ?l = "orderAsc si_createdAt (filter (\<lambda>s. si_orgId s = h_orgId k \<and> si_hostId s = h \<and> si_gameType s = g) (serverInstances w))"
      have l: "x \<in> set ?l \<Longrightarrow> x \<in> set (serverInstances w) \<and> si_hostId x = h" for x by (simp add: orderAsc_def)
      let ?e = "case findMatchingDiscoveredInstance ?l (clean_text (di_installPath found)) of Some s \<Rightarrow> Some s | None \<Rightarrow> (case ?l of [s] \<Rightarrow> Some s | _ \<Rightarrow> None)"
      show ?thesis
      proof (cases ?e)
        case None
        then show ?thesis using Some Inr
          by (auto simp: upsertDiscoveredMinecraftInstance_def Let_def discovered_row_def k intro!: servers)
      next
        case (Some x)
        have "beyond h w (w\<lparr>serverInstances := updateRow si_id (si_id x) (rediscover found c) (serverInstances w)\<rparr>)" for c
          by (intro servers upd one) (use l [OF e [OF Some]] in \<open>simp_all add: keep\<close>)
        then show ?thesis using Some Inr \<open>findUnique h_id h (hosts w) = Some k\<close>
          by (simp add: upsertDiscoveredMinecraftInstance_def Let_def)
      qed
    qed (simp add: upsertDiscoveredMinecraftInstance_def Some beyond.refl_R)
  qed (simp add: upsertDiscoveredMinecraftInstance_def beyond.refl_R)
qed

lemma beyond_agent:
  assumes "distinct (map si_id (serverInstances w))" and "\<And>o'. queue_wf o' w" and "\<And>q. set (e_getJobs E q) \<subseteq> set q"
  shows "beyond h w (snd (agent_run E h now r w))"
proof (cases r)
  case (Stability sv m)
  have "calm w (snd (evaluate_stability h sv m now w))"
  proof -
    have "calm w v" if "enqueueInternalJob o' u i ty p now w = (x, v)" for o' u i ty p x v
      using calm_internal that by (metis snd_conv)
    then show ?thesis by (auto simp: evaluate_stability_def Let_def calm.refl_R split: option.split sum.split prod.split)
  qed
  then show ?thesis using Stability calm_beyond by (simp add: agent_run_def)
next
  case (Poll b)
  then show ?thesis
    using beyond_poll [OF assms(2,3)] by (auto simp: agent_run_def answered_def poll_turn_def beyond.refl_R split: option.split)
qed (simp_all add: agent_run_def beyond_result beyond_progress beyond_heartbeat beyond_discover [OF assms(1)] calm_beyond [OF calm_log.append_R])

text \<open>C5: an agent has power over its own host only. A call without a valid agent key changes nothing. Whatever an agent sends
  with the key of a host, no account, membership, setting, pairing token, shop item, alert rule or protection setting changes; no
  other host and no server on another host changes (but for the two flags a finished job sets); no run of another host
  changes, and no queue entry of another host is taken, so no agent can answer for, or take the jobs of, another.\<close>

theorem agent_confined:
  assumes "distinct (map si_id (serverInstances w))" and "\<And>o'. queue_wf o' w" and "\<And>q. set (e_getJobs E q) \<subseteq> set q"
  shows "case agent_serve K E auth path now r w of (answer, w') \<Rightarrow>
    (case agentAuthGuard K auth path w of
       Inl e \<Rightarrow> answer = Inl e \<and> w' = w
     | Inr h \<Rightarrow>
         users w' = users w \<and> userOrgs w' = userOrgs w \<and> orgs w' = orgs w \<and> pairingTokens w' = pairingTokens w \<and> shopItems w' = shopItems w \<and>
         alertRules w' = alertRules w \<and> protections w' = protections w \<and> theirs h w' = theirs h w \<and>
         (\<forall>i run. find_run i w = Some run \<and> jr_hostId run \<noteq> h \<longrightarrow> find_run i w' = Some run) \<and>
         (\<forall>o' q. q \<in> set (orgQueues w o') \<and> q_hostId q \<noteq> h \<longrightarrow> q \<in> set (orgQueues w' o')))"
proof (cases "agentAuthGuard K auth path w")
  case (Inr h)
  have "beyond h w (snd (agent_serve K E auth path now r w))"
    using beyond_agent [OF assms, of h now r] Inr by (simp add: agent_serve_def beyond.refl_R)
  then show ?thesis using Inr by (simp add: beyond_def accounts_same_def case_prod_unfold)
qed (simp add: agent_serve_def)

text \<open>The agent of one host sends a heartbeat; another host has a pending run.\<close>

definition sample_box :: "id \<Rightarrow> host" where
  "sample_box i = \<lparr>h_id = i, h_orgId = ''o'', h_name = ''box'', h_lastHeartbeatAt = None, h_agentVersion = None, h_agentKeyVersion = 1,
     h_status = None, h_lastMetrics = Null, h_createdAt = 0\<rparr>"

definition sample_pair :: world where
  "sample_pair = (empty_world nat_str)\<lparr>hosts := [sample_box ''h'', sample_box ''k''],
     jobRuns := [\<lparr>jr_id = ''r'', jr_jobId = ''j'', jr_hostId = ''k'', jr_status = Pending, jr_startedAt = None, jr_finishedAt = None, jr_result = [], jr_createdAt = 0\<rparr>]\<rparr>"

definition sample_lock :: keyring where
  "sample_lock = sample_keys\<lparr>kr_verify := (\<lambda>t. if t = ''tok'' then Some \<lparr>ap_sub = ''h'', ap_orgId = ''o'', ap_keyVersion = 1, ap_type = ''agent''\<rparr> else None)\<rparr>"

theorem agent_confined_witness:
  "case agent_serve sample_lock sample_env (bearer_header ''tok'') None 9 (Heartbeat None) sample_pair of (answer, w') \<Rightarrow>
     answer = Inr () \<and> map h_status (hosts w') = [Some ''online'', None] \<and> theirs ''h'' w' = theirs ''h'' sample_pair \<and>
     find_run ''r'' w' = find_run ''r'' sample_pair"
proof -
  have guard: "agentAuthGuard sample_lock (bearer_header ''tok'') None sample_pair = Inr ''h''"
    by (simp add: agentAuthGuard_def bearer_token verifyAgentKey_def sample_lock_def sample_pair_def sample_box_def findUnique_Cons opt_or_def)
  have run: "find_run ''r'' sample_pair = Some (hd (jobRuns sample_pair))" "jr_hostId (hd (jobRuns sample_pair)) \<noteq> ''h''"
    by (simp_all add: find_run_def sample_pair_def findUnique_Cons)
  have "distinct (map si_id (serverInstances sample_pair))" "queue_wf o' sample_pair" "set (e_getJobs sample_env q) \<subseteq> set q" for o' q
    by (simp_all add: sample_pair_def empty_world_def queue_wf_def sample_env_def set_take_subset)
  note facts = agent_confined [OF this, of sample_lock "bearer_header ''tok''" None 9 "Heartbeat None"]
  let ?beaten = "set_host ''h'' (\<lambda>h. h\<lparr>h_lastHeartbeatAt := Some 9, h_status := Some ''online''\<rparr>) sample_pair"
  have found: "findUnique h_id ''h'' (hosts sample_pair) = Some (sample_box ''h'')" "find_host ''h'' ''o'' sample_pair = Some (sample_box ''h'')"
    "h_orgId (sample_box ''h'') = ''o''"
    by (simp_all add: find_host_def sample_pair_def sample_box_def findUnique_Cons)
  have "\<exists>x. recordHeartbeat ''h'' ''o'' None 9 sample_pair = (Inr x, ?beaten)" by (simp add: recordHeartbeat_def Let_def found(2))
  then have "agent_serve sample_lock sample_env (bearer_header ''tok'') None 9 (Heartbeat None) sample_pair = (Inr (), ?beaten)"
    by (auto simp: agent_serve_def guard agent_valid_def agent_run_def recordHeartbeatByHostIdOnly_def found(1,3))
  then show ?thesis using facts guard run
    by (auto simp: set_host_def sample_pair_def sample_box_def updateRow_def updateMany_def)
qed

end
