(* ===== verification/Public_Api.thy ===== *)
theory Public_Api
  imports Agent_Api Portal
begin

text \<open>
  The routes anyone can call: sign-up and sign-in of staff (auth.controller.ts), pairing of an agent
  (pairing.controller.ts), the sign-in, the requests and the checkout of players (player-auth.controller.ts,
  donations.controller.ts) and the webhook of Stripe (stripe-webhook.controller.ts), with the validation of
  their bodies and the limits per address. Routes that only read are the view functions of Portal and Shop_Items.

  Shown: what a caller without a staff session can change.
\<close>

section \<open>Serving a caller\<close>

record publicEnv =
  pv_keys :: keyring
  pv_auth :: authEnv
  pv_portal :: portalEnv
  pv_env :: env
  pv_stripe :: stripe
  pv_isEmail :: "string \<Rightarrow> bool"

text \<open>A caller: the headers and the address of the connection; \<open>lk_clean\<close>, \<open>lk_salt\<close> and \<open>lk_upload\<close> are the random
  choices of its request (whether to clean the limits up, a salt, an upload id).\<close>

record caller =
  cr_headers :: obj
  cr_ip :: "string option"
  lk_clean :: bool
  lk_salt :: string
  lk_upload :: string

datatype authRequest =
    Register string string "string option"
  | Login string string string string "string option"
  | VerifyEmail string
  | ResendVerification string

datatype playerRequest =
    SteamVerify id string obj
  | PlayerRegister string string "string option"
  | PlayerLogin string string "string option"
  | RequestMod "uploadFile option" js

datatype publicRequest =
    Auth authRequest
  | ChangePassword string string
  | PairAgent string "string option"
  | Player playerRequest
  | Checkout js js js
  | Webhook string

definition header :: "caller \<Rightarrow> string \<Rightarrow> string option" where
  "header c name = (case get (cr_headers c) name of Str s \<Rightarrow> Some s | _ \<Rightarrow> None)"

definition cart_given :: "js \<Rightarrow> bool" where
  \<comment> \<open>\<open>body.shopItemIds?.length\<close> as a condition\<close>
  "cart_given v = (case v of Arr xs \<Rightarrow> xs \<noteq> [] | Str s \<Rightarrow> s \<noteq> [] | Obj fs \<Rightarrow> truthy (get fs ''length'') | _ \<Rightarrow> False)"

definition shop_id_text :: "js \<Rightarrow> bool" where
  "shop_id_text v = (case v of Str s \<Rightarrow> len_in 10 40 s | _ \<Rightarrow> False)"

definition checkout_valid :: "js \<Rightarrow> js \<Rightarrow> js \<Rightarrow> bool" where
  \<comment> \<open>\<open>@ValidateIf\<close>, \<open>@IsOptional\<close>: a field is checked when all its conditions hold\<close>
  "checkout_valid amountCents shopItemId shopItemIds \<longleftrightarrow>
     (\<not> truthy shopItemId \<and> \<not> cart_given shopItemIds \<longrightarrow>
        (case amountCents of Num n \<Rightarrow> isInteger n \<and> MIN_DONATION_CENTS \<le> num_int n \<and> num_int n \<le> MAX_DONATION_CENTS | _ \<Rightarrow> False)) \<and>
     (\<not> truthy amountCents \<and> \<not> cart_given shopItemIds \<and> \<not> nullish shopItemId \<longrightarrow> shop_id_text shopItemId) \<and>
     (\<not> truthy amountCents \<and> \<not> truthy shopItemId \<and> \<not> nullish shopItemIds \<longrightarrow>
        (case shopItemIds of Arr xs \<Rightarrow> 1 \<le> length xs \<and> length xs \<le> MAX_CART_ITEMS \<and> list_all shop_id_text xs | _ \<Rightarrow> False))"

definition name_auth_valid :: "string \<Rightarrow> string \<Rightarrow> string option \<Rightarrow> bool" where
  \<comment> \<open>NameAuthDto\<close>
  "name_auth_valid name password nextRaw \<longleftrightarrow> len_in 1 64 name \<and> len_in 8 128 password \<and> opt_ok (len_in 0 80) nextRaw"

definition auth_valid :: "publicEnv \<Rightarrow> authRequest \<Rightarrow> bool" where
  \<comment> \<open>RegisterDto, LoginDto, VerifyEmailDto, ResendVerificationDto\<close>
  "auth_valid V r =
     (case r of
        Register email password name \<Rightarrow> pv_isEmail V email \<and> len_in 0 254 email \<and> len_in 12 128 password \<and> opt_ok (len_in 0 100) name
      | Login email password challenge answer recaptcha \<Rightarrow> pv_isEmail V email \<and> len_in 0 254 email \<and> len_in 1 128 password \<and>
          20 \<le> length challenge \<and> len_in 0 16 answer \<and> opt_ok (len_in 0 4096) recaptcha
      | VerifyEmail token \<Rightarrow> 20 \<le> length token
      | ResendVerification email \<Rightarrow> pv_isEmail V email \<and> len_in 0 254 email)"

definition player_valid :: "playerRequest \<Rightarrow> bool" where
  \<comment> \<open>SteamVerifyDto, NameAuthDto\<close>
  "player_valid r =
     (case r of
        SteamVerify server returnTo _ \<Rightarrow> portal_id server \<and> len_in 0 2048 returnTo
      | PlayerRegister name password nextRaw \<Rightarrow> name_auth_valid name password nextRaw
      | PlayerLogin name password nextRaw \<Rightarrow> name_auth_valid name password nextRaw
      | RequestMod _ _ \<Rightarrow> True)"

definition public_valid :: "publicEnv \<Rightarrow> publicRequest \<Rightarrow> bool" where
  "public_valid V r =
     (case r of
        Auth a \<Rightarrow> auth_valid V a
      | ChangePassword currentPassword newPassword \<Rightarrow> len_in 1 128 currentPassword \<and> len_in 12 128 newPassword
      | PairAgent token name \<Rightarrow> len_in 1 128 token \<and> opt_ok (len_in 0 128) name
      | Player p \<Rightarrow> player_valid p
      | Checkout amountCents shopItemId shopItemIds \<Rightarrow> checkout_valid amountCents shopItemId shopItemIds
      | Webhook _ \<Rightarrow> True)"

definition then_do :: "unit res \<times> world \<Rightarrow> (world \<Rightarrow> unit res \<times> world) \<Rightarrow> unit res \<times> world" where
  \<comment> \<open>\<open>await\<close> a limit, go on unless it throws\<close>
  "then_do x f = (case x of (Inl e, w) \<Rightarrow> (Inl e, w) | (Inr _, w) \<Rightarrow> f w)"

definition player_token :: "caller \<Rightarrow> string \<Rightarrow> string res" where
  \<comment> \<open>\<open>authorization?.startsWith('Bearer ')\<close>\<close>
  "player_token c message =
     (case header c ''authorization'' of
        Some a \<Rightarrow> if startsWith a ''Bearer '' then Inr (drop 7 a) else Inl (UnauthorizedException message)
      | None \<Rightarrow> Inl (UnauthorizedException message))"

definition buyer :: "player \<times> sessionAuth \<Rightarrow> checkoutPlayer" where
  "buyer x = (case x of (p, auth) \<Rightarrow>
     \<lparr>cp_id = p_id p, cp_steamId = p_steamId p, cp_serverInstanceId = p_serverInstanceId p, cp_orgId = p_orgId p, cp_name = Some (p_name p),
      cp_sessionAuth = Some (case auth of Steam \<Rightarrow> ''steam'' | Name \<Rightarrow> ''name'')\<rparr>)"

definition auth_run :: "publicEnv \<Rightarrow> caller \<Rightarrow> ms \<Rightarrow> authRequest \<Rightarrow> world \<Rightarrow> unit res \<times> world" where
  "auth_run V c now r w =
     (let A = pv_auth V; ip = clientIp (cr_headers c) (cr_ip c) in
      case r of
        Register email password name \<Rightarrow>
          then_do (consumeRegistration (au_hmac A) ip (lk_clean c) now w)
            (\<lambda>w. map_prod outcome id (register A email password name ip (lk_salt c) now w))
      | Login email password challenge answer recaptcha \<Rightarrow>
          map_prod outcome id (login A email password ip challenge answer recaptcha (lk_clean c) now w)
      | VerifyEmail token \<Rightarrow> map_prod outcome id (verifyEmail A token now w)
      | ResendVerification email \<Rightarrow>
          then_do (consumeVerificationResend (au_hmac A) ip (lk_clean c) now w) (resendVerification A email now))"

definition change_password :: "publicEnv \<Rightarrow> caller \<Rightarrow> string \<Rightarrow> string \<Rightarrow> bool \<Rightarrow> world \<Rightarrow> unit res \<times> world" where
  \<comment> \<open>the guard comes before the validation of the body (\<open>valid\<close>)\<close>
  "change_password V c currentPassword newPassword valid w =
     (case jwtAuthGuard (pv_keys V) (header c ''authorization'') w of
        Inl e \<Rightarrow> (Inl e, w)
      | Inr userId \<Rightarrow>
          if \<not> valid then (Inl (BadRequestException ''Bad Request''), w)
          else changePassword (pv_auth V) userId currentPassword newPassword (lk_salt c) w)"

definition pair_run :: "publicEnv \<Rightarrow> caller \<Rightarrow> string \<Rightarrow> string option \<Rightarrow> ms \<Rightarrow> world \<Rightarrow> unit res \<times> world" where
  "pair_run V c token name now w =
     (let ip = clientIp (cr_headers c) (cr_ip c) in
      then_do (consumePairing (au_hmac (pv_auth V)) ip (lk_clean c) now w)
        (\<lambda>w. map_prod outcome id (pair (pv_keys V) token name (Some ip) now w)))"

definition player_run :: "publicEnv \<Rightarrow> caller \<Rightarrow> ms \<Rightarrow> playerRequest \<Rightarrow> world \<Rightarrow> unit res \<times> world" where
  "player_run V c now r w =
     (let A = pv_auth V; P = pv_portal V; ip = clientIp (cr_headers c) (cr_ip c) in
      case r of
        SteamVerify server returnTo openid \<Rightarrow>
          then_do (consumeSteamVerify (au_hmac A) ip (lk_clean c) now w)
            (\<lambda>w. (outcome (verifySteam A P server returnTo openid w), w))
      | PlayerRegister name password nextRaw \<Rightarrow>
          then_do (consumePlayerPortalRegister (au_hmac A) ip (lk_clean c) now w)
            (\<lambda>w. map_prod outcome id (registerName A P (Str name) (Str password) (js_opt nextRaw) (lk_salt c) w))
      | PlayerLogin name password nextRaw \<Rightarrow>
          then_do (consumePlayerPortalLogin (au_hmac A) ip (lk_clean c) now w)
            (\<lambda>w. (outcome (loginName A P (Str name) (Str password) (js_opt nextRaw) w), w))
      | RequestMod archive description \<Rightarrow>
          (case player_token c ''Player sign-in required'' of
             Inl e \<Rightarrow> (Inl e, w)
           | Inr token \<Rightarrow> map_prod outcome id (requestMod A token archive description (lk_upload c) now w)))"

definition checkout_run :: "publicEnv \<Rightarrow> caller \<Rightarrow> ms \<Rightarrow> js \<Rightarrow> js \<Rightarrow> js \<Rightarrow> world \<Rightarrow> unit res \<times> world" where
  "checkout_run V c now amountCents shopItemId shopItemIds w =
     (case player_token c ''Player session required'' of
        Inl e \<Rightarrow> (Inl e, w)
      | Inr token \<Rightarrow>
          (case requirePlayer (pv_auth V) token w of
             Inl e \<Rightarrow> (Inl e, w)
           | Inr (p, auth) \<Rightarrow>
               then_do (consumeDonationCheckout (au_hmac (pv_auth V)) (clientIp (cr_headers c) (cr_ip c)) (p_id p) (lk_clean c) now w)
                 (\<lambda>w. (outcome (createCheckout (pv_env V) (pv_stripe V) (buyer (p, auth)) amountCents shopItemId shopItemIds w), w))))"

definition webhook_run :: "publicEnv \<Rightarrow> caller \<Rightarrow> ms \<Rightarrow> string \<Rightarrow> world \<Rightarrow> unit res \<times> world" where
  "webhook_run V c now rawBody w =
     (if \<not> webhookConfigured (pv_env V) (pv_stripe V) w then (Inl (ForbiddenException ''Stripe webhook is not configured''), w)
      else then_do (consumeStripeWebhook (au_hmac (pv_auth V)) (clientIp (cr_headers c) (cr_ip c)) (lk_clean c) now w)
        (\<lambda>w. if rawBody = [] then (Inl (BadRequestException ''Invalid Stripe signature''), w)
             else handleWebhook (pv_env V) (pv_stripe V) rawBody (header c ''stripe-signature'') now w))"

definition public_serve :: "publicEnv \<Rightarrow> caller \<Rightarrow> ms \<Rightarrow> publicRequest \<Rightarrow> world \<Rightarrow> unit res \<times> world" where
  "public_serve V c now r w =
     (let guarded = (case r of ChangePassword _ _ \<Rightarrow> True | _ \<Rightarrow> False) in
      if \<not> guarded \<and> \<not> public_valid V r then (Inl (BadRequestException ''Bad Request''), w)
      else (case r of
         Auth a \<Rightarrow> auth_run V c now a w
       | ChangePassword currentPassword newPassword \<Rightarrow> change_password V c currentPassword newPassword (public_valid V r) w
       | PairAgent token name \<Rightarrow> pair_run V c token name now w
       | Player p \<Rightarrow> player_run V c now p w
       | Checkout amountCents shopItemId shopItemIds \<Rightarrow> checkout_run V c now amountCents shopItemId shopItemIds w
       | Webhook rawBody \<Rightarrow> webhook_run V c now rawBody w))"

section \<open>What callers leave alone\<close>

text \<open>The data a user signs in with: all but the times of the verification mail.\<close>

definition login_data :: "user \<Rightarrow> user" where
  "login_data u = u\<lparr>u_emailVerifiedAt := None, u_emailVerificationSentAt := None\<rparr>"

definition settings_kept :: "world \<Rightarrow> world \<Rightarrow> bool" where
  \<comment> \<open>runs and queue entries are only added, and members only as viewers\<close>
  "settings_kept w w' \<longleftrightarrow>
     orgs w' = orgs w \<and> shopItems w' = shopItems w \<and> alertRules w' = alertRules w \<and> protections w' = protections w \<and>
     map without_mode (serverInstances w') = map without_mode (serverInstances w) \<and>
     (\<exists>rs. jobRuns w' = jobRuns w @ rs) \<and> (\<forall>o'. set (orgQueues w o') \<subseteq> set (orgQueues w' o')) \<and>
     (\<exists>ms. userOrgs w' = userOrgs w @ ms \<and> list_all (\<lambda>m. uo_role m = ''viewer'') ms)"

definition logins_kept :: "world \<Rightarrow> world \<Rightarrow> bool" where
  \<comment> \<open>no login changes; new users are not approved\<close>
  "logins_kept w w' \<longleftrightarrow>
     (\<exists>us. map login_data (users w') = map login_data (users w) @ us \<and> list_all (\<lambda>u. u_approvedAt u = None) us)"

definition machines_kept :: "world \<Rightarrow> world \<Rightarrow> bool" where
  "machines_kept w w' \<longleftrightarrow> hosts w' = hosts w \<and> pairingTokens w' = pairingTokens w"

definition money_kept :: "world \<Rightarrow> world \<Rightarrow> bool" where
  "money_kept w w' \<longleftrightarrow> donations w' = donations w \<and> map ledger_of (players w') = map ledger_of (players w)"

text \<open>The portal account of a player: a password that is set stays.\<close>

definition portal_le :: "player \<Rightarrow> player \<Rightarrow> bool" where
  "portal_le p p' \<longleftrightarrow> p_id p' = p_id p \<and> (opt_or (p_portalPasswordHash p) [] \<noteq> [] \<longrightarrow> p_portalPasswordHash p' = p_portalPasswordHash p)"

definition portals_kept :: "world \<Rightarrow> world \<Rightarrow> bool" where
  "portals_kept w w' \<longleftrightarrow> list_all2 portal_le (players w) (players w')"

definition outside :: "world \<Rightarrow> world \<Rightarrow> bool" where
  "outside w w' \<longleftrightarrow> settings_kept w w' \<and> logins_kept w w' \<and> machines_kept w w' \<and> money_kept w w' \<and> portals_kept w w'"

lemma appended_trans:
  assumes "\<exists>xs. v = u @ xs \<and> list_all P xs" and "\<exists>xs. w = v @ xs \<and> list_all P xs"
  shows "\<exists>xs. w = u @ xs \<and> list_all P xs"
  using assms by (metis append.assoc list_all_append)

lemma kept_refl: "settings_kept w w" "logins_kept w w" "machines_kept w w" "money_kept w w"
  by (simp_all add: settings_kept_def logins_kept_def machines_kept_def money_kept_def)

interpretation portals: state_preorder portals_kept
proof
  show "portals_kept w w" for w by (simp add: portals_kept_def portal_le_def list_all2_same)
  show "portals_kept u w" if "portals_kept u v" "portals_kept v w" for u v w
    using that unfolding portals_kept_def by (rule list_all2_trans [rotated]) (auto simp: portal_le_def)
qed

lemma portals_ids: "portals_kept w w' \<Longrightarrow> map p_id (players w') = map p_id (players w)"
  unfolding portals_kept_def portal_le_def by (induction rule: list_all2_induct) auto

lemma portals_same: "players w' = players w \<Longrightarrow> portals_kept w w'"
  using portals.refl_R by (simp add: portals_kept_def)

lemma portals_update:
  assumes "\<And>p. p \<in> set (players w) \<Longrightarrow> p_id p = i \<Longrightarrow> portal_le p (f p)"
  shows "portals_kept w (w\<lparr>players := updateRow p_id i f (players w)\<rparr>)"
  using assms by (auto simp: portals_kept_def updateRow_map list_all2_map2 list_all2_same portal_le_def)

lemma settings_trans: "settings_kept u v \<Longrightarrow> settings_kept v w \<Longrightarrow> settings_kept u w"
  unfolding settings_kept_def by (elim conjE, intro conjI) (fastforce | (rule appended_trans, assumption, assumption))+

lemma logins_trans: "logins_kept u v \<Longrightarrow> logins_kept v w \<Longrightarrow> logins_kept u w"
  unfolding logins_kept_def by (rule appended_trans)

interpretation outside: state_preorder outside
  by unfold_locales
    (auto simp: outside_def kept_refl machines_kept_def money_kept_def portals.refl_R intro: settings_trans logins_trans portals.trans_R)

lemma outside_calm:
  assumes "calm w w'" and "money_kept w w'" and "portals_kept w w'"
  shows "outside w w'"
proof -
  have "settings_kept w w'" using assms(1) unfolding calm_def accounts_same_def settings_kept_def by fastforce
  moreover have "logins_kept w w'" "machines_kept w w'"
    using assms(1) by (simp_all add: calm_def accounts_same_def logins_kept_def machines_kept_def)
  ultimately show ?thesis using assms(2,3) by (simp add: outside_def)
qed

lemma money_rest: "donations w' = donations w \<Longrightarrow> players w' = players w \<Longrightarrow> money_kept w w' \<and> portals_kept w w'"
  by (simp add: money_kept_def portals_same)

lemma calm_consume: "consume b m clean now w = (x, w') \<Longrightarrow> calm w w' \<and> money_kept w w' \<and> portals_kept w w'"
  by (auto simp: consume_def incrementWindowBucket_def upsert_def cleanupOccasionally_def money_rest intro!: calm_rest calm.refl_R split: sum.splits if_splits)

subsection \<open>Accounts\<close>

lemma kept_users:
  "map login_data (users w') = map login_data (users w) @ us \<Longrightarrow> list_all (\<lambda>u. u_approvedAt u = None) us \<Longrightarrow> logins_kept w w'"
  by (auto simp: logins_kept_def)

lemma login_data_update:
  assumes "\<And>u. login_data (f u) = login_data u"
  shows "map login_data (updateRow u_id i f us) = map login_data us"
  using assms by (induction us) (simp_all add: updateRow_def updateMany_def)

lemma outside_mail: "(\<And>u. login_data (f u) = login_data u) \<Longrightarrow> outside w (set_user i f w)"
  by (simp add: outside_def settings_kept_def logins_kept_def machines_kept_def money_kept_def set_user_def login_data_update portals_same)

lemma outside_effects: "outside w (w\<lparr>effects := es\<rparr>)"
  by (rule outside_calm) (simp_all add: calm_rest money_rest)

lemma outside_verification: "outside w (snd (sendVerification A i o' email now w))"
proof -
  have "outside v (set_user i (\<lambda>u. u\<lparr>u_emailVerificationSentAt := Some now\<rparr>) v)" for v
    by (rule outside_mail) (simp add: login_data_def)
  note stamped = outside.trans_R [OF outside_effects this]
  show ?thesis by (simp add: sendVerification_def Let_def outside.refl_R outside_effects stamped split: sum.split)
qed

lemma outside_register:
  assumes "orgs w \<noteq> []"
  shows "outside w (snd (register A email pw name ip salt now w))"
proof -
  have "set (orderAsc o_createdAt (orgs w)) \<noteq> {}" using assms by (simp add: orderAsc_def)
  then obtain o' os where "orderAsc o_createdAt (orgs w) = o' # os" by (cases "orderAsc o_createdAt (orgs w)") simp_all
  then have org: "getOrCreateDefaultOrg now w = (o_id o', w)" by (simp add: getOrCreateDefaultOrg_def)
  have quota: "outside w v" if "take_quota h w = Some v" for h v
    using that by (intro outside_calm) (auto simp: take_quota_def calm_rest money_rest split: option.splits if_splits)
  have added: "outside v (add_user (new_user i e n p t now) k ''viewer'' now v)" for v i e n p t k
    by (auto simp: outside_def settings_kept_def logins_kept_def machines_kept_def money_kept_def add_user_def draw_def login_data_def new_user_def portals_same)
  show ?thesis
    using outside.trans_R [OF quota added] outside.trans_R [OF outside.trans_R [OF quota added] outside_verification]
    by (auto simp: register_def Let_def org outside.refl_R split: option.split prod.split sum.split) (metis snd_conv)+
qed

lemma outside_login: "outside w (snd (login A email pw ip tok ans cap clean now w))"
proof -
  have failed: "outside w (snd (failLogin A e ip m clean now w))" for e m
    by (rule outside_calm)
       (auto simp: failLogin_def recordLoginFailure_def cleanupOccasionally_def incrementWindowBucket_def upsert_def Let_def calm_rest money_rest split: option.split)
  have admitted: "outside w (snd (admit_user A u e w))" for u e
    by (rule outside_calm)
       (auto simp: admit_user_def audit_row_def recordLoginSuccess_def draw_def Let_def calm.refl_R kept_refl portals.refl_R money_rest intro!: calm_rest split: option.split)
  have failed': "outside w v" if "failLogin A e ip m clean now w = (x, v)" for e m x v using failed that by (metis snd_conv)
  show ?thesis
    by (auto simp: login_def Let_def outside.refl_R admitted split: sum.split option.split bool.split prod.split intro: failed')
qed

lemma outside_verify: "outside w (snd (verifyEmail A token now w))"
proof -
  have "outside w (set_user i (\<lambda>u. u\<lparr>u_emailVerifiedAt := Some now\<rparr>) w)" for i by (rule outside_mail) (simp add: login_data_def)
  then show ?thesis by (auto simp: verifyEmail_def Let_def outside.refl_R split: option.split)
qed

lemma outside_resend: "outside w (snd (resendVerification A email now w))"
  by (auto simp: resendVerification_def outside.refl_R outside_verification split: option.split)

subsection \<open>Limits\<close>

lemma outside_then:
  assumes "outside w (snd x)" and "\<And>v. x = (Inr (), v) \<Longrightarrow> outside w v \<Longrightarrow> outside v (snd (f v))"
  shows "outside w (snd (then_do x f))"
  using assms outside.trans_R by (cases x) (auto simp: then_do_def split: sum.split)

lemmas consume_defs = consumeRegistration_def consumeVerificationResend_def consumePairing_def consumeSteamVerify_def
  consumePlayerPortalRegister_def consumePlayerPortalLogin_def consumeDonationCheckout_def consumeStripeWebhook_def

lemma outside_consume: "outside w (snd (consume b m clean now w))"
  using calm_consume outside_calm by (metis surjective_pairing)

lemma outside_limits:
  "outside w (snd (consumeRegistration h ip clean now w))" "outside w (snd (consumeVerificationResend h ip clean now w))"
  "outside w (snd (consumePairing h ip clean now w))" "outside w (snd (consumeSteamVerify h ip clean now w))"
  "outside w (snd (consumePlayerPortalRegister h ip clean now w))" "outside w (snd (consumePlayerPortalLogin h ip clean now w))"
  "outside w (snd (consumeStripeWebhook h ip clean now w))"
  by (simp_all add: consume_defs outside_consume)

lemma outside_checkout_limit: "outside w (snd (consumeDonationCheckout h ip i clean now w))"
proof -
  have "outside w v" if "consume b m clean now w = (x, v)" for b m x v using outside_consume that by (metis snd_conv)
  note outside.trans_R [OF this outside_consume]
  then show ?thesis using outside_consume
    unfolding consumeDonationCheckout_def by (auto split: sum.split prod.split) (metis outside_consume snd_conv)
qed

subsection \<open>Players\<close>

lemma outside_name:
  assumes "distinct (map p_id (players w))"
  shows "outside w (snd (registerName A P name pw next' salt w))"
proof (cases "registerName A P name pw next' salt w")
  case (Pair r w')
  show ?thesis
  proof (cases r)
    case (Inr x)
    obtain token path row where x: "x = (token, path, row)" by (cases x)
    obtain n q p and s :: serverInstance where p: "pickPortalPlayerMatch (named_players (si_id s) n w) = Some p" "\<not> has_password p"
      "w' = w\<lparr>players := updateRow p_id (p_id p) (\<lambda>p. p\<lparr>p_portalPasswordHash := Some (makePasswordHash A q salt)\<rparr>) (players w)\<rparr>"
      by (rule register_cases [OF Pair [unfolded Inr x]]) (rule that; assumption)
    have "p \<in> set (players w)" using pick_in [OF p(1)] by (auto simp: named_players_def dest!: in_set_takeD)
    then have one: "r = p" if "r \<in> set (players w)" "p_id r = p_id p" for r using assms that by (auto simp: distinct_map inj_on_def)
    have "portals_kept w w'" unfolding p(3)
    proof (rule portals_update)
      show "portal_le r (r\<lparr>p_portalPasswordHash := Some (makePasswordHash A q salt)\<rparr>)" if "r \<in> set (players w)" "p_id r = p_id p" for r
        using p(2) one [OF that] by (simp add: portal_le_def has_password_def)
    qed
    moreover have "map ledger_of (updateRow p_id i (\<lambda>p. p\<lparr>p_portalPasswordHash := h\<rparr>) ps) = map ledger_of ps" for i h and ps
      by (induction ps) (simp_all add: updateRow_def updateMany_def ledger_of_def)
    ultimately have "outside w w'" by (intro outside_calm) (simp_all add: p(3) calm_rest money_kept_def)
    then show ?thesis using Pair by simp
  next
    case (Inl e)
    then have "w' = w" using Pair by (auto simp: registerName_def Let_def split: option.splits sum.splits if_splits)
    then show ?thesis using Pair by (simp add: outside.refl_R)
  qed
qed

lemma outside_mod: "outside w (snd (requestMod A token archive description upload now w))"
proof -
  have sent: "outside v v'" if "dispatch o' u si ty p now v = (ids, v')" for v v' o' u si ty p ids
  proof (rule outside_calm [OF calm_dispatch [OF that]])
    show "money_kept v v'" "portals_kept v v'" using that
      by (auto simp: dispatch_def create_job_def create_run_def addJob_def enqueue_def draw_def Let_def money_rest split: prod.splits)
  qed
  have made: "outside v (snd (createPlayerModRequest o' sid p now v))" for v o' sid p
    using sent by (auto simp: createPlayerModRequest_def outside.refl_R split: option.split prod.split)
  have "outside w v" if "createPlayerModRequest o' sid p now (w\<lparr>effects := es\<rparr>) = (x, v)" for o' sid p es x v
    using outside.trans_R [OF outside_effects made] that by (metis snd_conv)
  moreover from this have "outside w (v\<lparr>effects := es'\<rparr>)" if "createPlayerModRequest o' sid p now (w\<lparr>effects := es\<rparr>) = (x, v)" for o' sid p es x v es'
    using outside.trans_R [OF _ outside_effects] that by blast
  ultimately show ?thesis
    by (auto simp: requestMod_def Let_def outside.refl_R split: sum.split option.split prod.split)
qed

subsection \<open>Payments\<close>

lemma calm_kept: "calm w w' \<Longrightarrow> settings_kept w w' \<and> logins_kept w w' \<and> machines_kept w w'"
  unfolding calm_def accounts_same_def settings_kept_def logins_kept_def machines_kept_def by (intro conjI; fastforce)

lemma calm_store: "calm w (store_donation paid i s rows l now w)"
proof -
  have "calm v (foldl (add_line d) v ls)" for d ls v
    by (intro calm.foldl_R) (simp add: add_line_def draw_def calm_rest)
  moreover have "calm v (set_ledger i l v)" for v by (simp add: set_ledger_def calm_rest)
  moreover have "calm w ((draw w)\<lparr>donations := ds\<rparr>)" for ds by (simp add: draw_def calm_rest)
  ultimately show ?thesis unfolding store_donation_def Let_def by (blast intro: calm.trans_R)
qed

lemma calm_notify: "calm w (notifyDiscord E o' nm c ns now w)"
  by (simp add: notifyDiscord_def Let_def calm.refl_R calm_quiet [OF discord_send_quiet] split: option.split)

lemma calm_credit: "calm w (creditPaidSession E obj' now w)"
  unfolding creditPaidSession_def Let_def
  by (auto simp: calm.refl_R split: option.split prod.split
      intro!: calm.trans_R [OF calm.trans_R [OF calm.trans_R [OF calm_store calm_notify] calm_delivery.grants_R(1)] calm_rewards.evaluate_R(3)])

lemma calm_refund: "calm w (refundPaymentIntent i n now w)"
  by (auto simp: refundPaymentIntent_def set_ledger_def calm.refl_R intro!: calm_rest split: option.split prod.split bool.split)

lemma webhook_calm: "calm w (snd (handleWebhook E S body sig now w))"
  by (auto simp: handleWebhook_def calm.refl_R calm_credit calm_refund split: sum.split stripeError.split option.split)

lemma portals_ledger: "portals_kept w (set_ledger i l w)"
  unfolding set_ledger_def by (rule portals_update) (simp add: portal_le_def)

lemma portals_webhook: "portals_kept w (snd (handleWebhook E S body sig now w))"
proof -
  have credit: "portals_kept w (creditPaidSession E obj' now w)" for obj'
  proof -
    obtain w' where w': "creditPaidSession E obj' now w = w'" by simp
    then show ?thesis
    proof (cases rule: creditPaidSession_cases)
      case (credited paid player item rows w1)
      have "players (foldl (add_line d) v ls) = players v" for d v ls using add_lines_frame(1) by (simp add: same_money_def)
      then have "portals_kept w w1"
        unfolding credited(5) store_donation_def Let_def by (intro portals.trans_R [OF portals_same portals_ledger]) simp
      moreover have "portals_kept w1 w'" using credited(6) by (simp add: same_money_def portals_same)
      ultimately show ?thesis unfolding w' by (rule portals.trans_R)
    qed (simp add: w' portals.refl_R)
  qed
  have refund: "portals_kept w (refundPaymentIntent i n now w)" for i n
    by (auto simp: refundPaymentIntent_def portals.refl_R intro!: portals.trans_R [OF portals_same portals_ledger] split: option.split prod.split bool.split)
  show ?thesis
    by (auto simp: handleWebhook_def portals.refl_R credit refund split: sum.split stripeError.split option.split)
qed

lemma webhook_kept:
  "webhook_run V c now body w = (answer, w') \<Longrightarrow> settings_kept w w' \<and> logins_kept w w' \<and> machines_kept w w' \<and> portals_kept w w' \<and>
     (money_kept w w' \<or> (\<exists>ev. constructStripeEventWithSecrets (pv_env V) (pv_stripe V) body (header c ''stripe-signature'')
        (stripeWebhookSecrets (pv_env V) (pv_stripe V) w) (now div 1000) = Inr ev))"
proof -
  assume run: "webhook_run V c now body w = (answer, w')"
  obtain x v where l: "consumeStripeWebhook (au_hmac (pv_auth V)) (clientIp (cr_headers c) (cr_ip c)) (lk_clean c) now w = (x, v)" by fastforce
  then have "calm w v \<and> money_kept w v \<and> portals_kept w v" using calm_consume by (simp add: consumeStripeWebhook_def)
  then have v: "calm w v" "money_kept w v" "portals_kept w v" by simp_all
  then have secrets: "stripeWebhookSecrets E S v = stripeWebhookSecrets E S w" for E S
    by (simp add: stripeWebhookSecrets_def calm_def accounts_same_def)
  have all: "calm w w'" using run l calm.trans_R [OF v(1) webhook_calm] v(1)
    by (auto simp: webhook_run_def then_do_def calm.refl_R split: sum.splits if_splits) (metis snd_conv)+
  have portals: "portals_kept w w'" using run l portals.trans_R [OF v(3) portals_webhook] v(3)
    by (auto simp: webhook_run_def then_do_def portals.refl_R split: sum.splits if_splits) (metis snd_conv)+
  show ?thesis
  proof (cases "constructStripeEventWithSecrets (pv_env V) (pv_stripe V) body (header c ''stripe-signature'') (stripeWebhookSecrets (pv_env V) (pv_stripe V) w) (now div 1000)")
    case (Inl e)
    then have "snd (handleWebhook (pv_env V) (pv_stripe V) body (header c ''stripe-signature'') now v) = v"
      by (simp add: handleWebhook_def secrets split: stripeError.split)
    then have "w' = w \<or> w' = v" using run l
      by (auto simp: webhook_run_def then_do_def split: sum.splits if_splits)
    then show ?thesis using calm_kept [OF all] portals v(2) kept_refl(4) by auto
  next
    case (Inr ev)
    then show ?thesis using calm_kept [OF all] portals by auto
  qed
qed

section \<open>What a caller can change\<close>

lemma auth_outside: "orgs w \<noteq> [] \<Longrightarrow> outside w (snd (auth_run V c now r w))"
proof -
  assume o': "orgs w \<noteq> []"
  have kept: "orgs v \<noteq> []" if "outside w v" for v using that o' by (simp add: outside_def settings_kept_def)
  show ?thesis
    by (cases r) (auto simp: auth_run_def Let_def outside_login outside_verify intro!: outside_then outside_limits outside_resend outside_register kept)
qed

lemma player_outside:
  assumes "distinct (map p_id (players w))"
  shows "outside w (snd (player_run V c now r w))"
proof -
  have kept: "distinct (map p_id (players v))" if "outside w v" for v using that assms portals_ids [of w v] by (simp add: outside_def)
  show ?thesis
    by (cases r) (auto simp: player_run_def Let_def outside.refl_R outside_mod split: sum.split intro!: outside_then outside_limits outside_name kept)
qed

lemma checkout_outside: "outside w (snd (checkout_run V c now a i js w))"
  by (auto simp: checkout_run_def outside.refl_R split: sum.split intro!: outside_then outside_checkout_limit)

lemma pair_kept:
  assumes "pair_run V c token name now w = (answer, w')"
  shows "settings_kept w w' \<and> logins_kept w w' \<and> money_kept w w' \<and> portals_kept w w' \<and>
    (machines_kept w w' \<or> (\<exists>t host. pair_check (pv_keys V) token now w = Inr t \<and> hosts w' = hosts w @ [host] \<and> h_orgId host = pt_orgId t))"
proof -
  obtain x v where l: "consumePairing (au_hmac (pv_auth V)) (clientIp (cr_headers c) (cr_ip c)) (lk_clean c) now w = (x, v)" by fastforce
  then have v: "outside w v" using outside_limits(3) by (metis snd_conv)
  then have tokens: "pair_check K tk now v = pair_check K tk now w" "hosts v = hosts w" for K tk
    by (simp_all add: pair_check_def outside_def machines_kept_def)
  show ?thesis
  proof (cases "x = Inr () \<and> pair_check (pv_keys V) token now w \<in> range Inr")
    case True
    then obtain t where t: "pair_check (pv_keys V) token now w = Inr t" "x = Inr ()" by auto
    then have "settings_kept v w' \<and> logins_kept v w' \<and> money_kept v w' \<and> portals_kept v w' \<and> (\<exists>host. hosts w' = hosts v @ [host] \<and> h_orgId host = pt_orgId t)"
      using assms l by (auto simp: pair_run_def then_do_def Let_def pair_def tokens(1) pair_commit_def audit_row_def draw_def
          settings_kept_def logins_kept_def money_kept_def portals_same)
    then show ?thesis using v t tokens(2) settings_trans logins_trans portals.trans_R
      unfolding outside_def money_kept_def by (metis (no_types, lifting))
  next
    case False
    then have "w' = v" using assms l
      by (auto simp: pair_run_def then_do_def Let_def pair_def tokens(1) split: sum.splits)
    then show ?thesis using v by (simp add: outside_def)
  qed
qed

lemma password_kept:
  assumes "change_password V c old fresh valid w = (answer, w')"
  shows "settings_kept w w' \<and> machines_kept w w' \<and> money_kept w w' \<and> portals_kept w w' \<and>
    (logins_kept w w' \<or> (\<exists>i u. jwtAuthGuard (pv_keys V) (header c ''authorization'') w = Inr i \<and> findUnique u_id i (users w) = Some u \<and>
        verifyPassword (pv_auth V) old (opt_or (u_passwordHash u) []) \<and>
        filter (\<lambda>x. u_id x \<noteq> i) (users w') = filter (\<lambda>x. u_id x \<noteq> i) (users w)))"
proof (cases "w' = w")
  case False
  then obtain i where i: "jwtAuthGuard (pv_keys V) (header c ''authorization'') w = Inr i" "changePassword (pv_auth V) i old fresh (lk_salt c) w = (answer, w')"
    using assms by (auto simp: change_password_def split: sum.splits if_splits)
  have others: "filter (\<lambda>x. u_id x \<noteq> i) (updateRow u_id i (\<lambda>u. u\<lparr>u_passwordHash := h, u_authVersion := n u\<rparr>) us) = filter (\<lambda>x. u_id x \<noteq> i) us" for h n us
    by (induction us) (simp_all add: updateRow_def updateMany_def)
  have "\<exists>u. findUnique u_id i (users w) = Some u \<and> verifyPassword (pv_auth V) old (opt_or (u_passwordHash u) [])"
    using i(2) False by (auto simp: changePassword_def opt_or_def split: list.splits if_splits option.splits bind_splits)
  moreover have "settings_kept w w' \<and> machines_kept w w' \<and> money_kept w w' \<and> portals_kept w w' \<and> filter (\<lambda>x. u_id x \<noteq> i) (users w') = filter (\<lambda>x. u_id x \<noteq> i) (users w)"
    using i(2) False by (auto simp: changePassword_def set_user_def others settings_kept_def machines_kept_def money_kept_def portals_same split: list.splits if_splits)
  ultimately show ?thesis using i(1) by blast
qed (simp add: kept_refl portals.refl_R)

text \<open>C6: what a caller without a staff session can change, once there is an organization (the first sign-up creates one). Whatever is
  sent to the public routes, no setting of an organization, shop item, alert rule, protection setting or server changes (but for
  the flags for maintenance mode and reboot of a server, which are left open), job runs and queue entries are only added, and members are
  added as viewers only. A host is added only for a pairing token that is unused and not expired, to the organization of the
  token. The sign-in data of a user of the dashboard changes only when that user, signed in, gives the old password (but for the times of
  the verification mail), and users who sign up are not approved. No player disappears, and the portal password of a player who has
  one never changes. Donations and the totals of players change only with a webhook that Stripe signed.\<close>

theorem caller_confined:
  assumes "orgs w \<noteq> []" and "distinct (map p_id (players w))"
  shows "case public_serve V c now r w of (answer, w') \<Rightarrow>
    settings_kept w w' \<and>
    (machines_kept w w' \<or> (\<exists>token name t host. r = PairAgent token name \<and> pair_check (pv_keys V) token now w = Inr t \<and>
       hosts w' = hosts w @ [host] \<and> h_orgId host = pt_orgId t)) \<and>
    (logins_kept w w' \<or> (\<exists>old fresh i u. r = ChangePassword old fresh \<and> jwtAuthGuard (pv_keys V) (header c ''authorization'') w = Inr i \<and>
       findUnique u_id i (users w) = Some u \<and> verifyPassword (pv_auth V) old (opt_or (u_passwordHash u) []) \<and>
       filter (\<lambda>x. u_id x \<noteq> i) (users w') = filter (\<lambda>x. u_id x \<noteq> i) (users w))) \<and>
    portals_kept w w' \<and>
    (money_kept w w' \<or> (\<exists>body ev. r = Webhook body \<and> constructStripeEventWithSecrets (pv_env V) (pv_stripe V) body (header c ''stripe-signature'')
       (stripeWebhookSecrets (pv_env V) (pv_stripe V) w) (now div 1000) = Inr ev))"
proof -
  obtain answer w' where run: "public_serve V c now r w = (answer, w')" by fastforce
  show ?thesis
  proof (cases r)
    case (ChangePassword old fresh)
    then show ?thesis using run password_kept by (fastforce simp: public_serve_def)
  next
    case (PairAgent token name)
    then show ?thesis using run pair_kept [of V c token name now w] by (auto simp: public_serve_def kept_refl portals.refl_R split: if_splits)
  next
    case (Webhook body)
    then show ?thesis using run webhook_kept [of V c now body w] by (auto simp: public_serve_def public_valid_def)
  next
    case (Auth a)
    then have "outside w w'" using run auth_outside [OF assms(1), of V c now a] by (auto simp: public_serve_def outside.refl_R split: if_splits)
    then show ?thesis by (simp add: run outside_def)
  next
    case (Player p)
    then have "outside w w'" using run player_outside [OF assms(2), of V c now p] by (auto simp: public_serve_def outside.refl_R split: if_splits)
    then show ?thesis by (simp add: run outside_def)
  next
    case (Checkout a i js)
    then have "outside w w'" using run checkout_outside [of w V c now a i js] by (auto simp: public_serve_def outside.refl_R split: if_splits)
    then show ?thesis by (simp add: run outside_def)
  qed
qed

text \<open>An agent pairs with an unused token.\<close>

definition sample_public :: publicEnv where
  "sample_public = \<lparr>pv_keys = sample_keys, pv_auth = sample_auth, pv_portal = sample_portal, pv_env = sample_env, pv_stripe = sample_stripe, pv_isEmail = (\<lambda>_. True)\<rparr>"

definition sample_caller :: caller where
  "sample_caller = \<lparr>cr_headers = [], cr_ip = None, lk_clean = False, lk_salt = [], lk_upload = []\<rparr>"

definition sample_desk :: world where
  "sample_desk = sample_office\<lparr>pairingTokens := [sample_token]\<rparr>"

theorem caller_confined_witness:
  "case public_serve sample_public sample_caller 5 (PairAgent ''tok'' None) sample_desk of (answer, w') \<Rightarrow>
     answer = Inr () \<and> map h_orgId (hosts w') = [''o''] \<and> settings_kept sample_desk w' \<and> logins_kept sample_desk w' \<and> money_kept sample_desk w'"
proof -
  have t: "trim ''tok'' = ''tok''" by code_simp
  have "orgs sample_desk \<noteq> []" "distinct (map p_id (players sample_desk))" by (simp_all add: sample_desk_def sample_office_def empty_world_def)
  note facts = caller_confined [OF this, where V = sample_public and c = sample_caller and now = 5 and r = "PairAgent ''tok'' None"]
  obtain v where v: "consumePairing h ip False 5 sample_desk = (Inr (), v h ip)" "pairingTokens (v h ip) = [sample_token]" "hosts (v h ip) = []" for h ip
    by (rule that [of "\<lambda>h ip. snd (consumePairing h ip False 5 sample_desk)"])
       (simp_all add: consumePairing_def consume_def assertKeysAllowed_def cleanupOccasionally_def incrementWindowBucket_def upsert_def
          sample_desk_def sample_office_def empty_world_def)
  have "fst (public_serve sample_public sample_caller 5 (PairAgent ''tok'' None) sample_desk) = Inr () \<and>
      map h_orgId (hosts (snd (public_serve sample_public sample_caller 5 (PairAgent ''tok'' None) sample_desk))) = [''o'']"
    by (simp add: public_serve_def public_valid_def len_in_def opt_ok_def pair_run_def Let_def then_do_def sample_caller_def v pair_def pair_check_def
        sample_public_def sample_keys_def sample_token_def hashToken_def t pair_commit_def audit_row_def draw_def outcome_def)
  then show ?thesis using facts by (auto simp: case_prod_unfold)
qed

end
