(* ===== verification/Steps.thy ===== *)
theory Steps
  imports Api Agent_Api Public_Api
begin

text \<open>
  What every request does to the tables of jobs, runs and batches: the requests of users (\<open>serve\<close>), of agents
  (\<open>agent_serve\<close>) and of callers without a session (\<open>public_serve\<close>), and the timers. All are sound in the sense of
  Job_Report but one: deleting a host deletes its runs.
\<close>

section \<open>Handlers\<close>

lemma schedule_same_jobs:
  "same_jobs w (hydrateSchedules E now w)"
  "same_jobs w (snd (createSchedule E orgId userId nm sid cron jt pl en now w))"
  "same_jobs w (snd (updateSchedule E orgId i en' nm' cron' jt' pl' now w))"
  "same_jobs w (snd (deleteSchedule orgId i w))"
  "same_jobs w (snd (skipNextAutoRestart orgId sid reason now w))"
proof -
  have "same_jobs v (hydrate_one E now v x)" for v x
    by (simp add: hydrate_one_def set_schedule_def add_fire_def same_jobs_def Let_def split: option.split)
  then show "same_jobs w (hydrateSchedules E now w)"
    unfolding hydrateSchedules_def by (intro same_jobs.foldl_R)
  have step: "same_jobs v (add_fire k n now v)" "same_jobs v (remove_fire j v)" "same_jobs v (set_schedule k f v)" "same_jobs v ((draw v)\<lparr>schedules := ss\<rparr>)"
    for v k n j f ss by (simp_all add: add_fire_def remove_fire_def set_schedule_def same_jobs_def draw_def split: option.split)
  show "same_jobs w (snd (createSchedule E orgId userId nm sid cron jt pl en now w))"
    by (auto simp: createSchedule_def Let_def same_jobs.refl_R step(4) intro!: same_jobs.trans_R [OF step(4) step(1)] split: sum.split)
  show "same_jobs w (snd (updateSchedule E orgId i en' nm' cron' jt' pl' now w))"
    by (auto simp: updateSchedule_def Let_def same_jobs.refl_R step
        intro!: same_jobs.trans_R [OF _ step(1)] same_jobs.trans_R [OF _ step(2)] split: option.split sum.split)
  show "same_jobs w (snd (deleteSchedule orgId i w))"
    by (simp add: deleteSchedule_def same_jobs_def split: option.split)
  show "same_jobs w (snd (skipNextAutoRestart orgId sid reason now w))"
    by (simp add: skipNextAutoRestart_def same_jobs_def set_schedule_def split: option.split)
qed

lemma trigger_ext:
  "jobs_ext w (snd (createTrigger E orgId userId nm sid en ety ecfg aty acfg app now w))"
  "jobs_ext w (snd (updateTrigger E orgId i other nm' en now w))"
  "jobs_ext w (snd (removeTrigger orgId i w))"
proof -
  have bf: "jobs_ext v (backfillTrigger E t now v)" for v and t using backfill_reward by (simp add: reward_le_def)
  have added: "jobs_ext w (draw w\<lparr>triggers := ts\<rparr>)" "jobs_ext w (w\<lparr>triggers := ts\<rparr>)" for ts
    by (intro same_jobs_ext; simp add: same_jobs_def)+
  show "jobs_ext w (snd (createTrigger E orgId userId nm sid en ety ecfg aty acfg app now w))"
    using added appending.trans_R [OF added(1) bf]
    by (auto simp: createTrigger_def Let_def appending.refl_R split: option.split sum.split)
  show "jobs_ext w (snd (updateTrigger E orgId i other nm' en now w))"
    using added appending.trans_R [OF added(2) bf]
    by (auto simp: updateTrigger_def Let_def appending.refl_R split: option.split)
  show "jobs_ext w (snd (removeTrigger orgId i w))"
    by (intro same_jobs_ext) (simp add: removeTrigger_def same_jobs_def split: option.split)
qed

lemma rule_same_jobs:
  "same_jobs w (snd (createRule orgId nm cond chan en now w))"
  "same_jobs w (snd (updateRule orgId i nm' en cond' chan' w))"
  "same_jobs w (snd (deleteRule orgId i w))"
  by (simp_all add: createRule_def updateRule_def deleteRule_def Let_def same_jobs_def split: option.split)

lemma access_same_jobs:
  "same_jobs w (snd (createToken K orgId userId expires plain now w))"
  "same_jobs w (snd (pair K token hostName ip now w))"
  "same_jobs w (snd (rotateAgentKey K orgId hostId w))"
  "same_jobs w (snd (recordLoginFailure hmac email addr clean now w))"
  "same_jobs w (recordLoginSuccess hmac email w)"
  "same_jobs w (snd (consume b message clean now w))"
proof -
  show "same_jobs w (snd (pair K token hostName ip now w))"
    by (auto simp: pair_def pair_commit_def audit_row_def same_jobs_def Let_def split: sum.split prod.split)
qed (simp_all add: createToken_def rotateAgentKey_def recordLoginFailure_def recordLoginSuccess_def consume_def
    cleanupOccasionally_def incrementWindowBucket_def upsert_def audit_row_def same_jobs_def Let_def split: sum.split option.split prod.split)

text \<open>Removing a server keeps its jobs and their runs and only clears the reference to the server.\<close>

lemma relabel_sound:
  assumes "jobs w' = map f (jobs w)" and "\<And>j. j_id (f j) = j_id j" and "\<And>j. j_batchId (f j) = j_batchId j"
    and "jobRuns w' = jobRuns w" and "jobBatches w' = jobBatches w" and "idgen w' = idgen w" and "idctr w \<le> idctr w'"
  shows "sound w w'"
proof -
  have "List.find (\<lambda>j. j_id j = i) (map f js) = map_option f (List.find (\<lambda>j. j_id j = i) js)" for i js
    by (induction js) (simp_all add: assms(2))
  then have "find_job i w' = map_option f (find_job i w)" for i by (simp add: find_job_def findUnique_def assms(1))
  then have batch: "run_batch w' r = run_batch w r" for r
    using assms(3) by (simp add: run_batch_def split: option.split)
  then have "runs_of w' bid st = runs_of w bid st" for bid st by (simp add: runs_of_def assms(4))
  then have "accounted_with lost w' = accounted_with lost w" for lost
    using counters_with_cong [of w' _ w] by (simp add: accounted_with_def assms(5) list_all_iff)
  moreover have ids: "map j_id (jobs w') = map j_id (jobs w)" by (simp add: assms(1,2) comp_def)
  have "store_wf w'" if "store_wf w"
  proof -
    have "\<forall>j \<in> set (jobs w'). \<forall>b. j_batchId j = Some b \<longrightarrow> b \<in> b_id ` set (jobBatches w)"
      using that by (auto simp: store_wf_def assms(1,3))
    then show ?thesis
      using that drawn_mono [OF assms(6,7)] unfolding store_wf_def ids by (auto simp: assms(4-6) list_all_iff)
  qed
  moreover have "runs_le w w'" by (rule runs_le_same [OF assms(4)])
  moreover have "runs_fresh w w'" by (rule runs_freshI [OF assms(6,7)]) (simp add: assms(4))
  ultimately show ?thesis by (simp add: sound_def)
qed

lemma delete_server_jobs:
  "jobs (delete_server i w) = map (\<lambda>j. if j_serverInstanceId j = Some i then j\<lparr>j_serverInstanceId := None\<rparr> else j) (jobs w)"
  "jobRuns (delete_server i w) = jobRuns w" "jobBatches (delete_server i w) = jobBatches w"
proof -
  have f: "jobs (foldl (\<lambda>v p. delete_player (p_id p) v) v ps) = jobs v \<and> jobRuns (foldl (\<lambda>v p. delete_player (p_id p) v) v ps) = jobRuns v \<and>
      jobBatches (foldl (\<lambda>v p. delete_player (p_id p) v) v ps) = jobBatches v" for ps v
    by (induction ps arbitrary: v) (simp_all add: delete_player_def)
  show "jobs (delete_server i w) = map (\<lambda>j. if j_serverInstanceId j = Some i then j\<lparr>j_serverInstanceId := None\<rparr> else j) (jobs w)"
    "jobRuns (delete_server i w) = jobRuns w" "jobBatches (delete_server i w) = jobBatches w"
    by (simp_all add: delete_server_def Let_def f updateMany_def)
qed

lemma server_sound:
  "sound w (snd (create_server orgId userId dto now w))" "sound w (snd (update_server orgId userId i upd w))"
  "sound w (snd (remove_server orgId userId i w))" "sound w (snd (upsertDiscoveredMinecraftInstance hostId found now w))"
proof -
  have audit: "same_jobs v (audit_row o' u a ty j d v)" for o' u a ty j d v by (simp add: audit_row_def same_jobs_def)
  have "sound w (delete_server i w)"
    by (rule relabel_sound [OF delete_server_jobs(1)]) (simp_all add: delete_server_jobs delete_server_fleet)
  then show "sound w (snd (remove_server orgId userId i w))"
    using sound.trans_R [OF _ same_sound [OF audit]] by (auto simp: remove_server_def sound.refl_R split: option.split)
  show "sound w (snd (create_server orgId userId dto now w))" "sound w (snd (update_server orgId userId i upd w))"
    "sound w (snd (upsertDiscoveredMinecraftInstance hostId found now w))"
    by (intro same_sound;
        simp add: create_server_def update_server_def upsertDiscoveredMinecraftInstance_def audit_row_def same_jobs_def Let_def split: sum.split option.split)+
qed

lemma batch_sound:
  "sound w (snd (createBatch orgId u ty ids p now w))" "sound w (snd (cancelBatch removable orgId bid now w))"
  using createBatch_inv [OF _ _ prod.collapse [symmetric]] cancelBatch_inv [OF _ _ prod.collapse [symmetric]]
  by (auto simp: sound_def)

section \<open>Users\<close>

lemma same_org: "same_jobs w (set_org i f w)" "same_jobs w (audit_org o' u n d w)" "same_jobs w (audit_row o' a n t k d w)" "same_jobs w (set_user k g w)"
  by (simp_all add: same_jobs_def set_org_def audit_org_def audit_row_def set_user_def)

lemma same_saved: "same_jobs w (audit_org o' u n d (set_org i f w))" "same_jobs w (audit_row o' a n t k d (set_user j g w))"
  by (rule same_jobs.trans_R [OF same_org(1,2)], rule same_jobs.trans_R [OF same_org(4,3)])

lemma same_clear: "(\<And>v. same_jobs v (g v)) \<Longrightarrow> same_jobs w (snd (clear_org i f g w))"
proof -
  assume "\<And>v. same_jobs v (g v)"
  from same_jobs.trans_R [OF same_org(1) this] show ?thesis by (simp add: clear_org_def same_jobs.refl_R split: option.split)
qed

lemma account_jobs: "same_jobs (fst s) (fst (snd (account_run A c X u now r s)))"
proof -
  obtain w d' u' where s: "s = (w, d', u')" by (cases s)
  have "same_jobs w (add_user u X role now w)" for u role by (simp add: add_user_def draw_def same_jobs_def)
  moreover have "same_jobs w (w\<lparr>userOrgs := ms\<rparr>)" "same_jobs w (set_user i f (w\<lparr>userOrgs := ms\<rparr>))" for ms i f
    by (simp_all add: same_jobs_def set_user_def)
  ultimately show ?thesis
    by (cases r) (auto simp: s account_run_def on_world_def createAccount_def setAccountApproval_def resetAccountPassword_def deleteAccount_def
        updateOrg_def case_prod_unfold Let_def same_jobs.refl_R same_org same_saved intro!: same_clear split: option.split)
qed

lemma integration_jobs: "same_jobs (fst s) (fst (snd (integration_run A c X u now r s)))"
proof -
  obtain w d' u' where s: "s = (w, d', u')" by (cases s)
  show ?thesis
    by (cases r)
      (auto simp: s integration_run_def on_world_def saveRecaptchaSettings_def clearRecaptchaSettings_def saveOpenAiSettings_def clearOpenAiSettings_def
        selectModAiProvider_def saveKimiSettings_def clearKimiSettings_def saveCloudflareSettings_def clearCloudflareSettings_def
        saveDigitalOceanSettings_def clearDigitalOceanSettings_def saveMailgunSettings_def clearMailgunSettings_def saveStripeSettings_def
        clearStripeSettings_def saveMaintenancePassword_def clearMaintenancePassword_def Let_def case_prod_unfold same_jobs.refl_R same_org same_saved
        intro!: same_clear split: option.split sum.split)
qed

lemma log_jobs: "same_jobs (fst s) (fst (snd (log_run A X now r s)))"
proof -
  obtain w d' u' where s: "s = (w, d', u')" by (cases s)
  have prune: "same_jobs v (prune o' now v)" for o' v by (simp add: prune_def same_jobs_def Let_def split: option.split)
  have rule: "same_jobs v (put_rule o' e n en c ch now v)" for o' e n en c ch v by (simp add: put_rule_def same_jobs_def draw_def split: option.split)
  have rows: "same_jobs v (v\<lparr>alertRules := rs\<rparr>)" "same_jobs v ((draw v)\<lparr>alertRules := rs\<rparr>)" for v rs by (simp_all add: same_jobs_def draw_def)
  have days: "same_jobs w (snd (updateSettings o' n now w))" for o' n
    using same_jobs.trans_R [OF _ prune, of w "w\<lparr>orgs := os, lastPrune := l\<rparr>" for os l]
    by (simp add: updateSettings_def same_jobs_def [of w "w\<lparr>orgs := os, lastPrune := l\<rparr>" for os l] same_jobs.refl_R)
  have moderation: "same_jobs w (snd (updateChatModeration o' i b now w))" for o' i b
    by (auto simp: updateChatModeration_def Let_def same_jobs.refl_R rule split: option.split js.split)
  show ?thesis
    by (cases r) (auto simp: s log_run_def on_world_def days moderation createKeywordRule_def setKeywordRuleEnabled_def deleteKeywordRule_def
        updateChatSettings_def setPlayerMuted_def case_prod_unfold Let_def same_jobs.refl_R rule rows split: option.split)
qed

lemma alert_jobs: "same_jobs (fst s) (fst (snd (alert_run A X u now r s)))"
proof -
  obtain w d' u' where s: "s = (w, d', u')" by (cases s)
  have "same_jobs w (snd (testRule E U o' i u' now w))" for E U o' i u'
    using quiet_same_jobs [OF discord_send_quiet] by (auto simp: testRule_def Let_def same_jobs_def case_prod_unfold split: option.split)
  then show ?thesis
    by (cases r) (simp_all add: s alert_run_def on_world_def answered_def case_prod_unfold rule_same_jobs recast_world same_jobs.refl_R)
qed

lemma reconcile_jobs: "same_jobs w (reconcileNameFallback sid k n st w)"
  by (auto simp: reconcileNameFallback_def same_jobs_def set_player_def delete_player_def Let_def split: option.split)

lemma tool_jobs: "same_jobs (fst s) (fst (snd (tool_run X now r s)))"
proof -
  obtain w d' u' where s: "s = (w, d', u')" by (cases s)
  have "same_jobs w (snd (list_players o' sid now w))" for o' sid
    unfolding list_players_def Let_def snd_conv by (intro same_jobs.foldl_R reconcile_jobs)
  moreover have "same_jobs w (snd (upsert_protection sid x f w))" for sid x f by (simp add: upsert_protection_def same_jobs_def split: option.split)
  ultimately show ?thesis
    by (cases r) (auto simp: s tool_run_def on_world_def answered_def getProtectionSettings_def updateProtectionSettings_def updateInterval_def
        case_prod_unfold Let_def same_jobs.refl_R same_jobs_def [of w "w\<lparr>orgs := os\<rparr>" for os] split: option.split)
qed

lemma schedule_jobs: "same_jobs (fst s) (fst (snd (schedule_run A X u now r s)))"
proof -
  obtain w d' u' where s: "s = (w, d', u')" by (cases s)
  show ?thesis
    by (cases r) (auto simp: s schedule_run_def on_world_def answered_def case_prod_unfold schedule_same_jobs same_jobs.refl_R split: sum.split)
qed

lemma shop_jobs: "jobs_ext (fst s) (fst (snd (shop_run A X u now r s)))"
proof -
  obtain w d' u' where s: "s = (w, d', u')" by (cases s)
  have audit: "same_jobs v (audit_item X u n i d v)" for v n i d by (simp add: audit_item_def same_org)
  have rows: "same_jobs w ((draw w)\<lparr>shopItems := is\<rparr>)" "same_jobs w (w\<lparr>shopItems := is\<rparr>)" "same_jobs w (delete_item i w)" for "is" i
    by (simp_all add: draw_def same_jobs_def delete_item_def)
  note added = rows same_jobs.trans_R [OF rows(1) audit] same_jobs.trans_R [OF rows(2) audit] same_jobs.trans_R [OF rows(3) audit]
  have "same_jobs w (fst (snd (create_item V X u input pic now (w, d'))))" for V input pic
    by (auto simp: create_item_def case_prod_unfold Let_def same_jobs.refl_R added split: sum.split)
  moreover have "same_jobs w (fst (snd (update_item V X u i input pic (w, d'))))" for V i input pic
    by (auto simp: update_item_def case_prod_unfold Let_def same_jobs.refl_R added split: sum.split option.split)
  moreover have "same_jobs w (fst (snd (remove_item V X u i (w, d'))))" for V i
    by (auto simp: remove_item_def case_prod_unfold Let_def same_jobs.refl_R added split: sum.split option.split)
  moreover have "jobs_ext w (snd (gameItemCatalog V X u f now w))" for V f
    using createJob_ext [of w "sv_env V" X u _ "''ITEM_CATALOG''" "Some []" now]
    by (auto simp: gameItemCatalog_def appending.refl_R split: sum.split option.split prod.split) (metis snd_conv)+
  ultimately show ?thesis
    by (cases r) (simp_all add: s shop_run_def on_shop_def on_world_def case_prod_unfold same_jobs_ext)
qed

lemma trigger_jobs: "jobs_ext (fst s) (fst (snd (trigger_run A X u now r s)))"
proof -
  obtain w d' u' where s: "s = (w, d', u')" by (cases s)
  show ?thesis by (cases r) (simp_all add: s trigger_run_def on_world_def case_prod_unfold trigger_ext)
qed

lemma server_jobs: "sound (fst s) (fst (snd (server_run X u now r s)))"
proof -
  obtain w d' u' where s: "s = (w, d', u')" by (cases s)
  show ?thesis by (cases r) (simp_all add: s server_run_def on_world_def case_prod_unfold server_sound)
qed

lemma work_jobs: "sound (fst s) (fst (snd (work_run A c X u now r s)))"
proof -
  obtain w d' u' where s: "s = (w, d', u')" by (cases s)
  have "jobs_ext w v" if "createJob E X u sid ty p now w = (x, v)" for E sid ty p x v
    using createJob_ext [of w E X u sid ty p now] that by simp
  then have "jobs_ext w (fst (snd (stageModUpload E X u sid f ty oa tc up now (w, u'))))" for E sid f ty oa tc up
    by (auto simp: stageModUpload_def Let_def appending.refl_R split: sum.split prod.split)
  then have "sound w (fst (snd (stageModUpload E X u sid f ty oa tc up now (w, u'))))" for E sid f ty oa tc up
    by (rule ext_sound)
  moreover have "same_jobs w (snd (edit_mod C E N X u i w))" for C E N i
    by (auto simp: edit_mod_def Let_def same_org same_jobs.refl_R split: option.split sum.split)
  ultimately show ?thesis
    by (cases r) (simp_all add: s work_run_def on_world_def on_uploads_def recommendMod_def uploadMod_def Let_def case_prod_unfold
        batch_sound createJob_ext ext_sound same_sound)
qed

text \<open>Deleting a host: the runs of the host are gone, and nothing else changes in the tables of jobs.\<close>

definition retires :: "id \<Rightarrow> world \<Rightarrow> world \<Rightarrow> bool" where
  "retires h w w' \<longleftrightarrow>
     jobs w' = jobs w \<and> jobBatches w' = jobBatches w \<and> jobRuns w' = filter (\<lambda>r. jr_hostId r \<noteq> h) (jobRuns w) \<and>
     idgen w' = idgen w \<and> idctr w \<le> idctr w'"

lemma remove_host_retires: "if fst (remove_host o' h u w) = Inr () then retires h w (snd (remove_host o' h u w)) else snd (remove_host o' h u w) = w"
  by (auto simp: remove_host_def retires_def audit_row_def deleteMany_def Let_def split: option.split)

lemma host_jobs:
  assumes "\<And>i. r \<noteq> RemoveHost i"
  shows "sound (fst s) (fst (snd (host_run A c X u now r s)))"
proof -
  obtain w d' u' where s: "s = (w, d', u')" by (cases s)
  show ?thesis using assms
    by (cases r) (auto simp: s host_run_def on_world_def answered_def case_prod_unfold host_ext ext_sound access_same_jobs same_sound)
qed

text \<open>The host whose runs a request deletes.\<close>

fun retired :: "request \<Rightarrow> unit res \<Rightarrow> id list" where
  "retired (Host (RemoveHost h)) (Inr ()) = [h]"
| "retired _ _ = []"

lemma handle_jobs:
  assumes "handle A c X u now r s = (answer, s')"
  shows "case retired r answer of [] \<Rightarrow> sound (fst s) (fst s') | h # _ \<Rightarrow> retires h (fst s) (fst s')"
proof (cases "\<exists>i. r = Host (RemoveHost i)")
  case True
  then obtain i w d' u' where i: "r = Host (RemoveHost i)" "s = (w, d', u')" by (metis prod_cases3)
  obtain x v where v: "remove_host X i u w = (x, v)" by fastforce
  then show ?thesis using i assms remove_host_retires [of X i u w]
    by (cases x) (auto simp: handle_def host_run_def on_world_def outcome_def sound.refl_R)
next
  case False
  then have "retired r answer = []" by (cases "(r, answer)" rule: retired.cases) auto
  moreover have "sound (fst s) (fst (snd (handle A c X u now r s)))"
    using False host_jobs [of _ s A c X u now] same_sound [OF account_jobs] same_sound [OF integration_jobs] same_sound [OF log_jobs] same_sound [OF alert_jobs]
      same_sound [OF tool_jobs] same_sound [OF schedule_jobs] ext_sound [OF shop_jobs] ext_sound [OF trigger_jobs] server_jobs work_jobs
    by (cases r) (auto simp: handle_def)
  ultimately show ?thesis using assms by simp
qed

lemma serve_jobs:
  assumes "serve A c auth X now r s = (answer, s')"
  shows "case retired r answer of [] \<Rightarrow> sound (fst s) (fst s') | h # _ \<Rightarrow> retires h (fst s) (fst s')"
proof -
  have "retired r (Inl e) = []" for e by (cases "(r, Inl e :: unit res)" rule: retired.cases) auto
  then show ?thesis using assms handle_jobs [of A c X _ now r s answer s']
    by (auto simp: serve_def sound.refl_R split: sum.splits prod.splits if_splits)
qed

section \<open>Agents\<close>

interpretation log_ext: log_appending jobs_ext
proof
  show "jobs_ext w (snd (enqueueInternalJob o' u sid jt p now w))" for w o' u sid jt p now by (rule enqueueInternalJob_ext)
  show "jobs_ext w w'" if "quiet w w'" for w w' using same_jobs_ext [OF quiet_same_jobs [OF that]] .
  show "jobs_ext w w'" if "dispatch o' u si ty p now w = (ids, w')" for w w' o' u si ty p now ids using that by (rule dispatch_ext)
  show "jobs_ext w (prune o' now w)" for w o' now by (intro same_jobs_ext) (simp add: prune_def same_jobs_def Let_def split: option.split)
  show "jobs_ext w (reconcileNameFallback sid k n st w)" for w sid k n st by (rule same_jobs_ext [OF reconcile_jobs])
  show "jobs_ext w (snd (upsert_logged o' sid k n b f now w))" for w o' sid k n b f now
    by (intro same_jobs_ext) (simp add: upsert_logged_def set_player_def draw_def same_jobs_def Let_def split: option.split)
qed (intro same_jobs_ext; simp add: same_jobs_def set_fire_def record_fire_def draw_def release_stale_def add_event_def set_player_def open_session_def Let_def)+

lemma agent_jobs: "sound w (snd (agent_serve K E auth path now r w))"
proof -
  have "sound w (snd (poll_turn E h b now w))" for h b by (simp add: poll_turn_def sound.refl_R poll_once_sound split: option.split)
  then have "sound w (snd (agent_run E h now r w))" for h
    by (cases r) (simp_all add: agent_run_def answered_def reportJobResult_sound reportJobProgress_sound evaluate_stability_ext ext_sound host_ext
        server_sound log_ext.append_R)
  then show ?thesis by (simp add: agent_serve_def sound.refl_R split: sum.split)
qed

section \<open>Callers without a session\<close>

lemma then_jobs: "jobs_ext w (snd x) \<Longrightarrow> (\<And>v. jobs_ext v (snd (f v))) \<Longrightarrow> jobs_ext w (snd (then_do x f))"
  using appending.trans_R by (cases x) (auto simp: then_do_def split: sum.split)

lemma consume_jobs:
  "jobs_ext w (snd (consumeRegistration h ip clean now w))" "jobs_ext w (snd (consumeVerificationResend h ip clean now w))"
  "jobs_ext w (snd (consumePairing h ip clean now w))" "jobs_ext w (snd (consumeSteamVerify h ip clean now w))"
  "jobs_ext w (snd (consumePlayerPortalRegister h ip clean now w))" "jobs_ext w (snd (consumePlayerPortalLogin h ip clean now w))"
  "jobs_ext w (snd (consumeStripeWebhook h ip clean now w))" "jobs_ext w (snd (consumeDonationCheckout h ip i clean now w))"
proof -
  note one = same_jobs_ext [OF access_same_jobs(6)]
  show "jobs_ext w (snd (consumeDonationCheckout h ip i clean now w))"
    using one appending.trans_R [OF one one] by (simp add: consumeDonationCheckout_def case_prod_unfold split: sum.split)
qed (simp_all add: consume_defs same_jobs_ext access_same_jobs)

lemma mail_jobs: "same_jobs w (snd (sendVerification A i o' email now w))"
  by (simp add: sendVerification_def set_user_def same_jobs_def Let_def split: sum.split)

lemma auth_jobs: "jobs_ext w (snd (auth_run V c now r w))"
proof -
  have quota: "same_jobs w v" if "take_quota h w = Some v" for h v w
    using that by (auto simp: take_quota_def same_jobs_def split: option.splits if_splits)
  have org: "same_jobs w v" if "getOrCreateDefaultOrg now w = (k, v)" for k v w
    using that by (auto simp: getOrCreateDefaultOrg_def same_jobs_def draw_def split: list.splits)
  have user: "same_jobs w (add_user u k role now w)" for u k role w by (simp add: add_user_def draw_def same_jobs_def)
  have register: "same_jobs w (snd (register A email pw n ip salt now w))" for A email pw n ip salt w
  proof -
    obtain k w1 where g: "getOrCreateDefaultOrg now w = (k, w1)" by fastforce
    have 1: "same_jobs w w1" by (rule org [OF g])
    have 2: "same_jobs w (add_user u k role now w2)" if "take_quota h w1 = Some w2" for h w2 u role
      by (rule same_jobs.trans_R [OF same_jobs.trans_R [OF 1 quota [OF that]] user])
    have 3: "same_jobs w (snd (sendVerification A i o' e now (add_user u k role now w2)))" if "take_quota h w1 = Some w2" for h w2 u role i o' e
      by (rule same_jobs.trans_R [OF 2 [OF that] mail_jobs])
    show ?thesis using 1 2 3
      by (auto simp: register_def Let_def g same_jobs.refl_R case_prod_unfold split: option.split sum.split)
  qed
  have "same_jobs w v" if "failLogin A e ip m clean now w = (x, v)" for A e ip m clean x v w
    using access_same_jobs(4) [of w "au_hmac A" e ip clean now] that by (auto simp: failLogin_def split: prod.splits option.splits)
  moreover have "same_jobs w (snd (admit_user A u e w))" for A u e w
    using access_same_jobs(5) by (auto simp: admit_user_def Let_def same_jobs.refl_R intro!: same_jobs.trans_R [OF _ same_org(3)] split: option.split)
  ultimately have login: "same_jobs w (snd (login A email pw ip tok ans cap clean now w))" for A email pw ip tok ans cap clean w
    by (auto simp: login_def Let_def same_jobs.refl_R split: sum.split option.split bool.split prod.split)
  have "same_jobs w (snd (verifyEmail A token now w))" "same_jobs w (snd (resendVerification A email now w))" for A token email w
    by (auto simp: verifyEmail_def resendVerification_def Let_def same_jobs.refl_R same_org mail_jobs split: option.split)
  note same = register login this
  show ?thesis by (cases r) (simp_all add: auth_run_def Let_def same_jobs_ext same then_jobs consume_jobs)
qed

lemma public_jobs: "jobs_ext w (snd (public_serve V c now r w))"
proof -
  have "same_jobs v (snd (registerName A P name pw next' salt v))" for A P name pw next' salt v
    by (auto simp: registerName_def Let_def same_jobs_def split: option.split sum.split)
  moreover have "jobs_ext v (snd (requestMod A token archive description upload now v))" for A token archive description upload v
  proof -
    have "jobs_ext v v'" if "createPlayerModRequest o' sid p now (v\<lparr>effects := es\<rparr>) = (x, v')" for o' sid p es x v'
      using createPlayerModRequest_ext [of "v\<lparr>effects := es\<rparr>" o' sid p now] that by (simp add: jobs_ext_def)
    moreover from this have "jobs_ext v (v'\<lparr>effects := es'\<rparr>)" if "createPlayerModRequest o' sid p now (v\<lparr>effects := es\<rparr>) = (x, v')" for o' sid p es x v' es'
      using that by (fastforce simp: jobs_ext_def)
    moreover have "jobs_ext v (v\<lparr>effects := es\<rparr>)" for es by (intro same_jobs_ext) (simp add: same_jobs_def)
    ultimately show ?thesis
      by (auto simp: requestMod_def Let_def appending.refl_R split: sum.split option.split prod.split)
  qed
  ultimately have player: "jobs_ext w (snd (player_run V c now p w))" for p
    by (cases p) (simp_all add: player_run_def Let_def same_jobs_ext then_jobs consume_jobs appending.refl_R split: sum.split)
  have checkout: "jobs_ext w (snd (checkout_run V c now a i js w))" for a i js
    by (auto simp: checkout_run_def appending.refl_R then_jobs consume_jobs split: sum.split)
  have webhook: "jobs_ext w (snd (webhook_run V c now body w))" for body
    by (simp add: webhook_run_def appending.refl_R then_jobs consume_jobs handleWebhook_ext)
  have pair: "jobs_ext w (snd (pair_run V c tok n now w))" for tok n
    by (simp add: pair_run_def Let_def then_jobs consume_jobs access_same_jobs same_jobs_ext)
  have "same_jobs w (snd (changePassword A u p q salt w))" for A u p q salt
    by (simp add: changePassword_def same_org same_jobs.refl_R split: list.split)
  then have password: "jobs_ext w (snd (change_password V c p q b w))" for p q b
    by (simp add: change_password_def appending.refl_R same_jobs_ext split: sum.split)
  show ?thesis using player checkout webhook pair password
    by (cases r) (auto simp: public_serve_def Let_def appending.refl_R auth_jobs)
qed

section \<open>Timers\<close>

lemma timer_jobs:
  "sound w (failStaleRunningJobs now w)" "sound w (snd (pollPlayers E now w))" "sound w (hydrateSchedules E now w)"
  "sound w (worker_fire E addOk i now w)" "sound w (snd (sweepOfflineHosts thresholdMs now w))" "sound w (snd (portalMods_queue A token now w))"
proof -
  have job: "jobs_ext v v'" if "createJob E o' u sid jt p now v = (x, v')" for o' u sid jt p x v v'
    using createJob_ext [of v E o' u sid jt p now] that by simp
  have "jobs_ext v (snd (poll_rosters E now ss v))" for ss v
  proof (induction ss arbitrary: v)
    case (Cons s ss)
    show ?case using Cons appending.trans_R [OF job Cons]
      by (auto simp: job split: option.split prod.split sum.split)
  qed (simp add: appending.refl_R)
  then show "sound w (snd (pollPlayers E now w))" by (simp add: pollPlayers_def ext_sound)
  have "jobs_ext w v" if "enqueueInternalJob o' u sid jt p now w = (x, v)" for o' u sid jt p x v
    using enqueueInternalJob_ext [of w o' u sid jt p now] that by simp
  then show "sound w (snd (portalMods_queue A token now w))"
    by (auto simp: portalMods_queue_def appending.refl_R intro!: ext_sound split: sum.split prod.split)
  show "sound w (failStaleRunningJobs now w)" "sound w (hydrateSchedules E now w)" "sound w (worker_fire E addOk i now w)"
    "sound w (snd (sweepOfflineHosts thresholdMs now w))"
    by (simp_all add: failStale_sound schedule_same_jobs same_sound worker_fire_ext ext_sound host_ext)
qed

end
