(* ===== verification/System.thy ===== *)
theory System
  imports Steps Portal Views
begin

text \<open>
  The control plane as a transition system: a step is a request of a user, of an agent or of a caller without a
  session, served from the guards to the handler, or a run of a timer. A step is labelled with the host it deletes, if
  it is the request that deletes a host: that request deletes the runs of the host.

  The tables stay well formed; the counters of every batch agree with its runs and the runs that were deleted with
  hosts; runs move along their life cycle only and disappear with their host only; and the whole implements an
  abstract queue of runs.
\<close>

section \<open>Steps\<close>

text \<open>The settings and the random choices of the process are arguments of the step; so are the archives and images on disk.\<close>

inductive sys_step :: "id list \<Rightarrow> world \<Rightarrow> world \<Rightarrow> bool" where
  user: "serve A c auth orgId now r (w, d, u) = (answer, w', d', u') \<Longrightarrow> sys_step (retired r answer) w w'"
| agent: "agent_serve K E auth pathHost now a w = (answer, w') \<Longrightarrow> sys_step [] w w'"
| caller: "public_serve V cl now p w = (answer, w') \<Longrightarrow> sys_step [] w w'"
| mod_list: "portalMods_queue P token now w = (found, w') \<Longrightarrow> sys_step [] w w'"
| stale_sweep: "sys_step [] w (failStaleRunningJobs now w)"
| roster_timer: "pollPlayers E now w = (answer, w') \<Longrightarrow> sys_step [] w w'"
| hydrate: "sys_step [] w (hydrateSchedules E now w)"
| schedule_due: "sys_step [] w (worker_fire E addOk i now w)"
| offline_sweep: "sweepOfflineHosts thresholdMs now w = (found, w') \<Longrightarrow> sys_step [] w w'"

text \<open>A sequence of steps and its labels.\<close>

inductive path :: "('l list \<Rightarrow> 's \<Rightarrow> 's \<Rightarrow> bool) \<Rightarrow> 'l list \<Rightarrow> 's \<Rightarrow> 's \<Rightarrow> bool" for step :: "'l list \<Rightarrow> 's \<Rightarrow> 's \<Rightarrow> bool" where
  here: "path step [] s s"
| on: "path step ls s t \<Longrightarrow> step l t u \<Longrightarrow> path step (ls @ l) s u"

lemma path_one: "step l s t \<Longrightarrow> path step l s t"
  using on [OF here] by fastforce

lemma path_trans: "path step ks t u \<Longrightarrow> path step ls s t \<Longrightarrow> path step (ls @ ks) s u"
proof (induction rule: path.induct)
  case (on ks t u k v)
  from path.on [OF on.IH [OF on.prems] on.hyps(2)] show ?case by simp
qed simp

definition sys_init :: "world \<Rightarrow> bool" where
  "sys_init w \<longleftrightarrow> inj (idgen w) \<and> jobs w = [] \<and> jobRuns w = [] \<and> jobBatches w = []"

text \<open>What a step does to the tables of jobs.\<close>

lemma step_jobs: "sys_step ls w w' \<Longrightarrow> (ls = [] \<and> sound w w') \<or> (\<exists>h. ls = [h] \<and> retires h w w')"
proof (induction rule: sys_step.induct)
  case (user A c auth orgId now r w d u answer w' d' u')
  then show ?case using serve_jobs [OF user] by (cases "(r, answer)" rule: retired.cases) auto
next
  case (agent K E auth pathHost now a w answer w')
  then show ?case using agent_jobs [of w K E auth pathHost now a] by simp
next
  case (caller V cl now p w answer w')
  then show ?case using ext_sound [OF public_jobs [of w V cl now p]] by simp
next
  case (mod_list P token now w found w')
  then show ?case using timer_jobs(6) [of w P token now] by simp
next
  case (roster_timer E now w answer w')
  then show ?case using timer_jobs(2) [of w E now] by simp
next
  case (offline_sweep thresholdMs now w found w')
  then show ?case using timer_jobs(5) [of w thresholdMs now] by simp
qed (simp_all add: timer_jobs)

section \<open>The counters\<close>

text \<open>The runs of a batch with a status that a step deletes, and their sum over the steps so far.\<close>

definition deleted :: "world \<Rightarrow> world \<Rightarrow> tally" where
  "deleted w w' k st = countRows (\<lambda>r. jr_status r = st \<and> run_batch w r = Some k \<and> find_run (jr_id r) w' = None) (jobRuns w)"

inductive tally_step :: "world \<times> tally \<Rightarrow> world \<times> tally \<Rightarrow> bool" where
  "sys_step ls w w' \<Longrightarrow> tally_step (w, lost) (w', \<lambda>k st. lost k st + deleted w w' k st)"

definition tally_init :: "world \<times> tally \<Rightarrow> bool" where
  "tally_init s \<longleftrightarrow> sys_init (fst s) \<and> snd s = none_lost"

definition tally_inv :: "world \<times> tally \<Rightarrow> bool" where
  "tally_inv s \<longleftrightarrow> store_wf (fst s) \<and> accounted_with (snd s) (fst s)"

lemma kept_deleted:
  assumes "runs_le w w'"
  shows "deleted w w' k st = 0"
proof -
  have "\<not> (find_run (jr_id r) w' = None)" if "r \<in> set (jobRuns w)" for r
  proof -
    have "find_run (jr_id r) w \<noteq> None" using that by (simp add: find_run_def findUnique_None)
    then show ?thesis using assms by (auto simp: runs_le_def)
  qed
  then have "filter (\<lambda>r. jr_status r = st \<and> run_batch w r = Some k \<and> find_run (jr_id r) w' = None) (jobRuns w) = []"
    by (auto simp: filter_empty_conv)
  then show ?thesis by (simp add: deleted_def countRows_def)
qed

lemma retires_find:
  assumes "store_wf w" and "retires h w w'"
  shows "find_run i w' = (case find_run i w of None \<Rightarrow> None | Some r \<Rightarrow> if jr_hostId r = h then None else Some r)"
proof -
  have "distinct (map jr_id rs) \<Longrightarrow> findUnique jr_id i (filter (\<lambda>r. jr_hostId r \<noteq> h) rs) =
      (case findUnique jr_id i rs of None \<Rightarrow> None | Some r \<Rightarrow> if jr_hostId r = h then None else Some r)" for rs
  proof (induction rs)
    case (Cons r rs)
    show ?case
    proof (cases "jr_id r = i")
      case True
      then have "i \<notin> jr_id ` set (filter (\<lambda>r. jr_hostId r \<noteq> h) rs)" using Cons.prems by auto
      then have "findUnique jr_id i (filter (\<lambda>r. jr_hostId r \<noteq> h) rs) = None" by (simp only: findUnique_None not_False_eq_True)
      then show ?thesis using True by (simp add: findUnique_Cons)
    qed (use Cons in \<open>simp add: findUnique_Cons\<close>)
  qed (simp add: findUnique_def)
  then show ?thesis using store_wfD(3) [OF assms(1)] assms(2) by (simp add: find_run_def retires_def)
qed

lemma retires_tally:
  assumes wf: "store_wf w" and acc: "accounted_with lost w" and ret: "retires h w w'"
  shows "store_wf w' \<and> accounted_with (\<lambda>k st. lost k st + deleted w w' k st) w' \<and> runs_fresh w w'"
proof (intro conjI)
  have rb: "run_batch w' r = run_batch w r" for r by (rule run_batch_jobs) (use ret in \<open>simp add: retires_def\<close>)
  note tables = ret [unfolded retires_def]
  have gone: "find_run (jr_id r) w' = None \<longleftrightarrow> jr_hostId r = h" if "r \<in> set (jobRuns w)" for r
  proof -
    have "find_run (jr_id r) w = Some r" unfolding find_run_def by (rule findUnique_unique [OF store_wfD(3) [OF wf] that])
    then show ?thesis by (simp add: retires_find [OF wf ret])
  qed
  have count: "runs_of w k st = runs_of w' k st + deleted w w' k st" for k st
  proof -
    let ?p = "\<lambda>r. jr_status r = st \<and> run_batch w r = Some k"
    have "length (filter ?p rs) = length (filter (\<lambda>r. ?p r \<and> jr_hostId r \<noteq> h) rs) + length (filter (\<lambda>r. ?p r \<and> jr_hostId r = h) rs)" for rs
      by (induction rs) auto
    moreover have "filter (\<lambda>r. jr_status r = st \<and> run_batch w r = Some k \<and> find_run (jr_id r) w' = None) (jobRuns w) =
        filter (\<lambda>r. ?p r \<and> jr_hostId r = h) (jobRuns w)"
      using gone by (intro filter_cong) auto
    ultimately show ?thesis
      using tables by (simp add: runs_of_def deleted_def countRows_def rb conj_ac)
  qed
  have "k \<in> b_id ` set (jobBatches w)" if "deleted w w' k st \<noteq> 0" for k st
  proof -
    have "filter (\<lambda>r. jr_status r = st \<and> run_batch w r = Some k \<and> find_run (jr_id r) w' = None) (jobRuns w) \<noteq> []"
      using that by (auto simp: deleted_def countRows_def simp del: filter_empty_conv filter_False)
    from hd_in_set [OF this] obtain r where "r \<in> set (jobRuns w)" "run_batch w r = Some k" by simp blast
    then obtain j where "find_job (jr_jobId r) w = Some j" "j_batchId j = Some k" by (auto simp: run_batch_def split: option.splits)
    moreover from this(1) have "j \<in> set (jobs w)" by (auto simp: find_job_def dest: findUnique_Some)
    ultimately show ?thesis using wf by (auto simp: store_wf_def)
  qed
  moreover have "counters_with (\<lambda>k st. lost k st + deleted w w' k st) w' b = counters_with lost w b" for b
    by (simp add: counters_with_def count algebra_simps)
  then have "list_all (counters_with (\<lambda>k st. lost k st + deleted w w' k st) w') (jobBatches w)" using acc by (simp add: accounted_with_def list_all_iff)
  ultimately show "accounted_with (\<lambda>k st. lost k st + deleted w w' k st) w'"
    using acc tables by (simp add: accounted_with_def) (metis add_0)
  have "distinct (map f (filter p xs))" if "distinct (map f xs)" for f :: "jobRun \<Rightarrow> id" and p xs
    using that by (simp add: distinct_map inj_on_def)
  then show "store_wf w'"
    using wf tables drawn_mono [of w' w] unfolding store_wf_def by (auto simp: list_all_iff)
  show "runs_fresh w w'" by (rule runs_freshI) (use tables in auto)
qed

lemma step_tally:
  assumes "sys_step ls w w'" and "store_wf w" and "accounted_with lost w"
  shows "store_wf w' \<and> accounted_with (\<lambda>k st. lost k st + deleted w w' k st) w' \<and> runs_fresh w w'"
  using step_jobs [OF assms(1)]
proof (elim disjE exE conjE)
  assume "sound w w'"
  with assms(2,3) have s: "store_wf w' \<and> accounted_with lost w' \<and> runs_le w w' \<and> runs_fresh w w'" by (simp add: sound_def)
  then have "(\<lambda>k st. lost k st + deleted w w' k st) = lost" by (simp add: kept_deleted fun_eq_iff)
  then show ?thesis using s by simp
next
  fix h assume "retires h w w'"
  then show ?thesis by (rule retires_tally [OF assms(2,3)])
qed

interpretation counted: transition_system tally_init tally_step tally_inv
proof
  show "tally_inv s" if "tally_init s" for s
    using that empty_inv by (auto simp: tally_init_def tally_inv_def sys_init_def accounted_none)
  show "tally_inv t" if "tally_inv s" "tally_step s t" for s t
    using that(2,1) step_tally by cases (auto simp: tally_inv_def)
qed

section \<open>The runs\<close>

definition any_step :: "world \<Rightarrow> world \<Rightarrow> bool" where
  "any_step w w' \<longleftrightarrow> (\<exists>ls. sys_step ls w w')"

definition sys_inv :: "world \<Rightarrow> bool" where
  "sys_inv w \<longleftrightarrow> store_wf w \<and> (\<exists>lost. accounted_with lost w)"

interpretation control_plane: monotone_system sys_init any_step sys_inv runs_fresh
proof
  show "sys_inv w" if "sys_init w" for w
    using that empty_inv by (auto simp: sys_init_def sys_inv_def accounted_none)
  fix w w' assume "sys_inv w" "any_step w w'"
  then obtain lost ls where "store_wf w" "accounted_with lost w" "sys_step ls w w'" by (auto simp: sys_inv_def any_step_def)
  from step_tally [OF this(3,1,2)] show "sys_inv w'" "runs_fresh w w'" by (auto simp: sys_inv_def)
qed

lemma path_steps: "path sys_step ls w w' \<Longrightarrow> any_step\<^sup>*\<^sup>* w w'"
  by (induction rule: path.induct) (auto simp: any_step_def intro: rtranclp.rtrancl_into_rtrancl)

text \<open>What becomes of a run: it goes with its host, and moves along its life cycle until then.\<close>

lemma step_fate:
  assumes "sys_step ls w w'" and "sys_inv w" and "find_run i w = Some r"
  shows "if jr_hostId r \<in> set ls then find_run i w' = None else \<exists>r'. find_run i w' = Some r' \<and> run_le r r'"
  using step_jobs [OF assms(1)]
proof (elim disjE exE conjE)
  assume "ls = []" "sound w w'"
  then show ?thesis using assms(2,3) by (fastforce simp: sys_inv_def sound_def runs_le_def)
next
  fix h assume "ls = [h]" "retires h w w'"
  then show ?thesis using assms(2,3) retires_find [of w h w' i] run_le_refl by (auto simp: sys_inv_def)
qed

lemma run_fate:
  assumes "path sys_step ls w w'" and "sys_inv w" and "find_run i w = Some r"
  shows "if jr_hostId r \<in> set ls then find_run i w' = None else \<exists>r'. find_run i w' = Some r' \<and> run_le r r'"
  using assms
proof (induction rule: path.induct)
  case (here w)
  then show ?case using run_le_refl by auto
next
  case (on ls w v l w')
  have inv: "sys_inv v" by (rule control_plane.steps_inv [OF path_steps [OF on.hyps(1)] on.prems(1)])
  show ?case
  proof (cases "jr_hostId r \<in> set ls")
    case True
    then have "find_run i v = None" using on by simp
    moreover have "drawn v i"
    proof -
      have "drawn w i" using on.prems by (auto simp: sys_inv_def store_wf_def list_all_iff find_run_def dest!: findUnique_Some)
      moreover have "runs_fresh w v" by (rule control_plane.steps_R [OF path_steps [OF on.hyps(1)] on.prems(1)])
      ultimately show ?thesis by (simp add: runs_fresh_def)
    qed
    moreover have "runs_fresh v w'" using control_plane.step_R [OF inv] on.hyps(2) by (auto simp: any_step_def)
    ultimately show ?thesis using True by (simp add: runs_fresh_def)
  next
    case False
    then obtain r1 where r1: "find_run i v = Some r1" "run_le r r1" using on by auto
    then have "jr_hostId r1 = jr_hostId r" by (simp add: run_le_def)
    with step_fate [OF on.hyps(2) inv r1(1)] r1(2) False show ?thesis using run_le_trans by auto
  qed
qed

section \<open>The abstract life cycle\<close>

text \<open>The specification of a job queue: runs are created pending on a host and move one at a time, each along
  \<open>run_step\<close>; none is ever forgotten, but for those of a host that is retired, which all go at once.
  \<open>run_states\<close> is what it shows of the tables.\<close>

type_synonym queue_view = "id \<rightharpoonup> id \<times> run_status"

inductive spec_step :: "id list \<Rightarrow> queue_view \<Rightarrow> queue_view \<Rightarrow> bool" where
  create: "m i = None \<Longrightarrow> spec_step [] m (m(i \<mapsto> (h, Pending)))"
| advance: "m i = Some (h, s) \<Longrightarrow> run_step s t \<Longrightarrow> spec_step [] m (m(i \<mapsto> (h, t)))"
| retire: "spec_step [h] m (\<lambda>i. case m i of None \<Rightarrow> None | Some (k, s) \<Rightarrow> if k = h then None else Some (k, s))"

definition run_states :: "world \<Rightarrow> queue_view" where
  "run_states w = (\<lambda>i. map_option (\<lambda>r. (jr_hostId r, jr_status r)) (find_run i w))"

lemma spec_then: "path spec_step [] m m' \<Longrightarrow> spec_step [] m' m'' \<Longrightarrow> path spec_step [] m m''"
  using path.on by fastforce

lemma spec_both: "path spec_step [] m m' \<Longrightarrow> path spec_step [] m' m'' \<Longrightarrow> path spec_step [] m m''"
  using path_trans by fastforce

lemma spec_advances: "run_step\<^sup>*\<^sup>* s t \<Longrightarrow> m i = Some (h, s) \<Longrightarrow> path spec_step [] m (m(i \<mapsto> (h, t)))"
proof (induction rule: rtranclp_induct)
  case base
  then have "m(i \<mapsto> (h, s)) = m" by auto
  then show ?case by (simp add: path.here)
next
  case (step t u)
  have "spec_step [] (m(i \<mapsto> (h, t))) ((m(i \<mapsto> (h, t)))(i \<mapsto> (h, u)))"
    by (rule advance [where s = t]) (simp_all add: step.hyps)
  from spec_then [OF step.IH [OF step.prems] this] show ?case by (simp only: fun_upd_upd)
qed

lemma pending_reaches: "run_step\<^sup>*\<^sup>* Pending s"
  by (cases s) (auto intro: r_into_rtranclp converse_rtranclp_into_rtranclp run_step.intros)

definition may_become :: "(id \<times> run_status) option \<Rightarrow> id \<times> run_status \<Rightarrow> bool" where
  "may_become x y \<longleftrightarrow> (case x of None \<Rightarrow> True | Some (h, s) \<Rightarrow> fst y = h \<and> run_step\<^sup>*\<^sup>* s (snd y))"

lemma spec_entry:
  assumes "may_become (m i) y"
  shows "path spec_step [] m (m(i \<mapsto> y))"
proof (cases "m i")
  case None
  obtain h t where y: "y = (h, t)" by (cases y)
  have "path spec_step [] (m(i \<mapsto> (h, Pending))) ((m(i \<mapsto> (h, Pending)))(i \<mapsto> (h, t)))" by (rule spec_advances [OF pending_reaches]) simp
  moreover have "path spec_step [] m (m(i \<mapsto> (h, Pending)))" by (rule path_one) (rule create [where m = m and i = i and h = h, OF None])
  ultimately have "path spec_step [] m ((m(i \<mapsto> (h, Pending)))(i \<mapsto> (h, t)))" using spec_both by blast
  then show ?thesis by (simp only: y fun_upd_upd)
next
  case (Some x)
  then show ?thesis using assms spec_advances by (cases x; cases y) (auto simp: may_become_def)
qed

text \<open>A state is reached from another when each run it has was reached.\<close>

lemma spec_pointwise:
  assumes "finite D" and "\<And>i. i \<notin> D \<Longrightarrow> m' i = m i" and "\<And>i. i \<in> D \<Longrightarrow> \<exists>y. m' i = Some y \<and> may_become (m i) y"
  shows "path spec_step [] m m'"
  using assms
proof (induction D arbitrary: m)
  case empty
  then have "m' = m" by auto
  then show ?case by (simp add: path.here)
next
  case (insert i D)
  then obtain y where y: "m' i = Some y" "may_become (m i) y" by blast
  have "path spec_step [] (m(i \<mapsto> y)) m'"
  proof (rule insert.IH)
    show "m' k = (m(i \<mapsto> y)) k" if "k \<notin> D" for k using that insert.prems(1) y(1) by auto
    show "\<exists>z. m' k = Some z \<and> may_become ((m(i \<mapsto> y)) k) z" if "k \<in> D" for k
      using that insert.prems(2) insert.hyps(2) by auto
  qed
  with spec_entry [where m = m and i = i, OF y(2)] show ?case by (rule spec_both)
qed

lemma runs_le_spec:
  assumes "runs_le w w'"
  shows "path spec_step [] (run_states w) (run_states w')"
proof (rule spec_pointwise [of "jr_id ` set (jobRuns w')"])
  show "finite (jr_id ` set (jobRuns w'))" by simp
  show "run_states w' i = run_states w i" if "i \<notin> jr_id ` set (jobRuns w')" for i
  proof -
    have "find_run i w' = None" using that by (simp add: find_run_def findUnique_None)
    moreover from this assms have "find_run i w = None" unfolding runs_le_def by (metis not_Some_eq)
    ultimately show ?thesis by (simp add: run_states_def)
  qed
  show "\<exists>y. run_states w' i = Some y \<and> may_become (run_states w i) y" if "i \<in> jr_id ` set (jobRuns w')" for i
  proof -
    have "find_run i w' \<noteq> None" using that by (simp add: find_run_def findUnique_None)
    then obtain r' where r': "find_run i w' = Some r'" by blast
    show ?thesis
    proof (cases "find_run i w")
      case (Some r)
      with assms r' show ?thesis by (fastforce simp: run_states_def runs_le_def run_le_def may_become_def)
    qed (use r' in \<open>simp add: run_states_def may_become_def\<close>)
  qed
qed

text \<open>A simulation by sequences: every concrete step is a sequence of abstract moves with the same labels.\<close>

locale simulation = transition_system init "\<lambda>s t. \<exists>l. step l s t" inv
  for init :: "'s \<Rightarrow> bool" and step :: "'l list \<Rightarrow> 's \<Rightarrow> 's \<Rightarrow> bool" and inv :: "'s \<Rightarrow> bool" +
  fixes view :: "'s \<Rightarrow> 'a" and move :: "'l list \<Rightarrow> 'a \<Rightarrow> 'a \<Rightarrow> bool"
  assumes simulated: "inv s \<Longrightarrow> step l s t \<Longrightarrow> path move l (view s) (view t)"
begin

lemma path_inv: "path step ls s t \<Longrightarrow> inv s \<Longrightarrow> inv t"
  by (induction rule: path.induct) (auto intro: step_inv)

lemma path_simulated: "path step ls s t \<Longrightarrow> inv s \<Longrightarrow> path move ls (view s) (view t)"
proof (induction rule: path.induct)
  case (on ls s t l u)
  from path_trans [OF simulated [OF path_inv [OF on.hyps(1) on.prems] on.hyps(2)] on.IH [OF on.prems]] show ?case .
qed (rule path.here)

end

interpretation queue_view: simulation sys_init sys_step sys_inv run_states spec_step
proof
  show "sys_inv w" if "sys_init w" for w using that by (rule control_plane.init_inv)
  show "sys_inv w'" if "sys_inv w" "\<exists>ls. sys_step ls w w'" for w w'
    using control_plane.step_inv that by (simp add: any_step_def)
  show "path spec_step ls (run_states w) (run_states w')" if "sys_inv w" "sys_step ls w w'" for ls w w'
    using step_jobs [OF that(2)]
  proof (elim disjE exE conjE)
    assume "ls = []" "sound w w'"
    then show ?thesis using that(1) runs_le_spec by (auto simp: sys_inv_def sound_def)
  next
    fix h assume h: "ls = [h]" "retires h w w'"
    have eq: "run_states w' = (\<lambda>i. case run_states w i of None \<Rightarrow> None | Some (k, s) \<Rightarrow> if k = h then None else Some (k, s))"
      using that(1) retires_find [OF _ h(2)] by (auto simp: fun_eq_iff run_states_def sys_inv_def split: option.split)
    show ?thesis unfolding eq h(1) by (rule path_one) (rule retire)
  qed
qed

end
