(* ===== verification/Log_Facts.thy ===== *)
theory Log_Facts
  imports Log_Frames
begin

text \<open>
  Facts on Logs.thy: lines and keywords do not depend on how the log is cut into chunks; what the moderation may do to a
  player; the form of its settings; and the chat that is dropped as a repetition.
\<close>

section \<open>Lines across chunks\<close>

lemma split_at_last: "split d (s @ c) = butlast (split d s) @ split d (last (split d s) @ c)"
proof (induction s)
  case (Cons x s)
  obtain p ps where p: "split d s = p # ps" by (cases "split d s") auto
  show ?case
  proof (cases "x = d")
    case True
    with Cons p show ?thesis by simp
  next
    case False
    obtain q qs where q: "split d (s @ c) = q # qs" by (cases "split d (s @ c)") auto
    with Cons p False show ?thesis by (cases ps) (auto simp: append_eq_Cons_conv split: list.splits if_splits)
  qed
qed simp

lemma log_lines_append:
  "log_lines (s @ c) = (case log_lines s of (ls, rest) \<Rightarrow> (case log_lines (rest @ c) of (ls', rest') \<Rightarrow> (ls @ ls', rest')))"
  by (subst log_lines_def) (simp add: split_at_last [of _ s c] log_lines_def Let_def butlast_append)

definition short_lines :: "string \<Rightarrow> bool" where
  "short_lines s = list_all (\<lambda>l. length l \<le> 4096) (split CHR 0x0A s)"

lemma split_last_no: "d \<notin> set (last (split d s))"
  using split_no_delim [of "last (split d s)" d s] by simp

lemma split_hd: "d \<notin> set r \<Longrightarrow> hd (split d (r @ c)) = r @ hd (split d c)"
  by (induction r) (auto split: list.split)

lemma short_lines_parts:
  assumes "short_lines (s @ c)"
  shows "length (snd (log_lines s)) \<le> 4096" "short_lines (snd (log_lines s) @ c)"
proof -
  let ?r = "snd (log_lines s)" and ?d = "CHR 0x0A"
  show 2: "short_lines (?r @ c)" using assms by (simp add: short_lines_def split_at_last [of _ s c] log_lines_def Let_def)
  have "hd (split ?d (?r @ c)) = ?r @ hd (split ?d c)"
    by (rule split_hd) (simp add: log_lines_def Let_def split_last_no)
  moreover have "hd (split ?d (?r @ c)) \<in> set (split ?d (?r @ c))" by simp
  ultimately have "length (?r @ hd (split ?d c)) \<le> 4096" using 2 unfolding short_lines_def list_all_iff by metis
  then show "length ?r \<le> 4096" by simp
qed

text \<open>A parser of chunks: it prepends the unfinished line it kept, parses the finished lines one by one at the time of
  the call, and keeps the rest. Between two calls any other work may happen (the function of a call) that leaves the kept
  line alone. \<open>feed\<close> is what the calls do; \<open>read\<close> is the reference: line by line, given the lines and the rest of every call.\<close>

locale chunk_parser =
  fixes parse :: "string \<Rightarrow> ms \<Rightarrow> world \<Rightarrow> world"
    and kept :: "world \<Rightarrow> string"
    and keep :: "string \<Rightarrow> world \<Rightarrow> world"
    and line :: "ms \<Rightarrow> world \<Rightarrow> string \<Rightarrow> world"
    and feed :: "(string \<times> ms \<times> (world \<Rightarrow> world)) list \<Rightarrow> world \<Rightarrow> world"
    and "read" :: "(string list \<times> string \<times> ms \<times> (world \<Rightarrow> world)) list \<Rightarrow> world \<Rightarrow> world"
  assumes parse_lines: "parse c now w = (case log_lines (kept w @ c) of (ls, rest) \<Rightarrow> foldl (line now) (keep (keep_rest rest) w) ls)"
    and kept_keep: "kept (keep s w) = s"
    and line_keeps: "kept (line now w l) = kept w"
    and feed_Nil: "feed [] w = w" and feed_Cons: "feed ((c, now, work) # calls) w = feed calls (work (parse c now w))"
    and read_Nil: "read [] w = w"
    and read_Cons: "read ((ls, rest, now, work) # turns) w = read turns (work (foldl (line now) (keep rest w) ls))"
begin

lemma lines_keep: "kept (foldl (line now) w ls) = kept w"
  by (induction ls arbitrary: w) (simp_all add: line_keeps)

lemma feed_reads:
  assumes "short_lines (kept w @ concat (map fst calls))" and "CHR 0x0A \<notin> set (kept w)"
    and "list_all (\<lambda>(c, now, work). \<forall>v. kept (work v) = kept v) calls"
  shows "\<exists>turns. map (\<lambda>(ls, rest, t). t) turns = map snd calls \<and> feed calls w = read turns w \<and>
    (\<forall>n. log_lines (kept w @ concat (map fst (take n calls))) =
       (concat (map fst (take n turns)), if take n turns = [] then kept w else fst (snd (last (take n turns)))))"
  using assms
proof (induction calls arbitrary: w)
  case Nil
  then show ?case by (simp add: feed_Nil read_Nil log_lines_def split_no)
next
  case (Cons call calls)
  obtain c now work where call: "call = (c, now, work)" by (cases call)
  obtain ls rest where l: "log_lines (kept w @ c) = (ls, rest)" by fastforce
  have "short_lines ((kept w @ c) @ concat (map fst calls))" using Cons.prems(1) by (simp add: call)
  note s = short_lines_parts [OF this, unfolded l snd_conv]
  have rest: "keep_rest rest = rest" using s(1) by (simp add: keep_rest_def last_n_def)
  let ?v = "work (foldl (line now) (keep rest w) ls)"
  have v: "kept ?v = rest" using Cons.prems(3) by (simp add: call lines_keep kept_keep)
  have "CHR 0x0A \<notin> set rest" using l split_last_no by (auto simp: log_lines_def Let_def)
  moreover have "list_all (\<lambda>(c, now, work). \<forall>v. kept (work v) = kept v) calls" using Cons.prems(3) by simp
  ultimately obtain turns where t: "map (\<lambda>(ls, rest, t). t) turns = map snd calls" "feed calls ?v = read turns ?v"
    "\<And>n. log_lines (rest @ concat (map fst (take n calls))) =
       (concat (map fst (take n turns)), if take n turns = [] then rest else fst (snd (last (take n turns))))"
    using Cons.IH [of ?v] s(2) unfolding v by blast
  show ?case
  proof (intro exI [of _ "(ls, rest, now, work) # turns"] conjI)
    show "feed (call # calls) w = read ((ls, rest, now, work) # turns) w"
      using t(2) by (simp add: call feed_Cons read_Cons parse_lines l rest)
    show "\<forall>n. log_lines (kept w @ concat (map fst (take n (call # calls)))) = (concat (map fst (take n ((ls, rest, now, work) # turns))),
        if take n ((ls, rest, now, work) # turns) = [] then kept w else fst (snd (last (take n ((ls, rest, now, work) # turns)))))"
    proof
      fix n
      show "log_lines (kept w @ concat (map fst (take n (call # calls)))) = (concat (map fst (take n ((ls, rest, now, work) # turns))),
        if take n ((ls, rest, now, work) # turns) = [] then kept w else fst (snd (last (take n ((ls, rest, now, work) # turns)))))"
      proof (cases n)
        case (Suc m)
        then show ?thesis using log_lines_append [of "kept w @ c" "concat (map fst (take m calls))"] l t(3) [of m] by (simp add: call)
      qed (use Cons.prems(2) in \<open>simp add: log_lines_def split_no\<close>)
    qed
  qed (use t(1) call in simp)
qed

end

definition chat_kept :: "id \<Rightarrow> world \<Rightarrow> string" where
  "chat_kept sid w = opt_or (map_of (chatLineBuffers w) sid) []"

definition players_kept :: "id \<Rightarrow> world \<Rightarrow> string" where
  "players_kept sid w = opt_or (map_of (lineBuffers w) sid) []"

fun chat_calls :: "env \<Rightarrow> id \<Rightarrow> id \<Rightarrow> string \<Rightarrow> (string \<times> ms \<times> (world \<Rightarrow> world)) list \<Rightarrow> world \<Rightarrow> world" where
  "chat_calls E o' sid sn [] w = w"
| "chat_calls E o' sid sn ((c, now, work) # calls) w = chat_calls E o' sid sn calls (work (parseChat E o' sid sn c now w))"

fun chat_by_lines :: "env \<Rightarrow> id \<Rightarrow> id \<Rightarrow> string \<Rightarrow> (string list \<times> string \<times> ms \<times> (world \<Rightarrow> world)) list \<Rightarrow> world \<Rightarrow> world" where
  "chat_by_lines E o' sid sn [] w = w"
| "chat_by_lines E o' sid sn ((ls, rest, now, work) # turns) w =
     chat_by_lines E o' sid sn turns
       (work (foldl (parse_chat_line E o' sid sn now) (w\<lparr>chatLineBuffers := map_put sid rest (chatLineBuffers w)\<rparr>) ls))"

fun player_calls :: "env \<Rightarrow> id \<Rightarrow> id \<Rightarrow> string \<Rightarrow> (string \<times> ms \<times> (world \<Rightarrow> world)) list \<Rightarrow> world \<Rightarrow> world" where
  "player_calls E o' sid sn [] w = w"
| "player_calls E o' sid sn ((c, now, work) # calls) w = player_calls E o' sid sn calls (work (parsePlayers E o' sid sn c now w))"

fun players_by_lines :: "env \<Rightarrow> id \<Rightarrow> id \<Rightarrow> string \<Rightarrow> (string list \<times> string \<times> ms \<times> (world \<Rightarrow> world)) list \<Rightarrow> world \<Rightarrow> world" where
  "players_by_lines E o' sid sn [] w = w"
| "players_by_lines E o' sid sn ((ls, rest, now, work) # turns) w =
     players_by_lines E o' sid sn turns
       (work (foldl (parse_player_line E o' sid sn now) (w\<lparr>lineBuffers := map_put sid rest (lineBuffers w)\<rparr>) ls))"

interpretation chat: chunk_parser "parseChat E o' sid sn" "chat_kept sid" "\<lambda>s w. w\<lparr>chatLineBuffers := map_put sid s (chatLineBuffers w)\<rparr>"
    "parse_chat_line E o' sid sn" "chat_calls E o' sid sn" "chat_by_lines E o' sid sn" for E o' sid sn
  by unfold_locales
    (use line_buffers.chat_line_R in \<open>auto simp: parseChat_def chat_kept_def map_of_map_put opt_or_def buffers_same_def\<close>)

interpretation players: chunk_parser "parsePlayers E o' sid sn" "players_kept sid" "\<lambda>s w. w\<lparr>lineBuffers := map_put sid s (lineBuffers w)\<rparr>"
    "parse_player_line E o' sid sn" "player_calls E o' sid sn" "players_by_lines E o' sid sn" for E o' sid sn
  by unfold_locales
    (use line_buffers.player_line_R in \<open>auto simp: parsePlayers_def players_kept_def map_of_map_put opt_or_def buffers_same_def\<close>)

text \<open>C33: lines are read as if the log came in one piece. However an agent cuts the log of a server into chunks (in the middle of a
  line or between the two characters of a line end), whenever the chunks come and whatever else happens between them, as long as it
  leaves the unfinished line of that server alone and no line is longer than the 4096 characters that are kept: the calls of
  \<open>parseChat\<close> handle each line of the whole text, after the unfinished line that was kept, once and in order, no
  others, each with what the code does for one line and in the call that completes it, and the same holds for
  \<open>parsePlayers\<close>; what is kept after each call is the unfinished rest of the text so far.\<close>

theorem chunks_keep_lines:
  assumes "list_all (\<lambda>(c, now, work). \<forall>v. chat_kept sid (work v) = chat_kept sid v \<and> players_kept sid (work v) = players_kept sid v) calls"
  shows "(short_lines (chat_kept sid w @ concat (map fst calls)) \<and> CHR 0x0A \<notin> set (chat_kept sid w) \<longrightarrow>
      (\<exists>turns. map (\<lambda>(ls, rest, t). t) turns = map snd calls \<and> chat_calls E o' sid sn calls w = chat_by_lines E o' sid sn turns w \<and>
         (\<forall>n. log_lines (chat_kept sid w @ concat (map fst (take n calls))) =
            (concat (map fst (take n turns)), if take n turns = [] then chat_kept sid w else fst (snd (last (take n turns))))))) \<and>
    (short_lines (players_kept sid w @ concat (map fst calls)) \<and> CHR 0x0A \<notin> set (players_kept sid w) \<longrightarrow>
      (\<exists>turns. map (\<lambda>(ls, rest, t). t) turns = map snd calls \<and> player_calls E o' sid sn calls w = players_by_lines E o' sid sn turns w \<and>
         (\<forall>n. log_lines (players_kept sid w @ concat (map fst (take n calls))) =
            (concat (map fst (take n turns)), if take n turns = [] then players_kept sid w else fst (snd (last (take n turns)))))))"
proof -
  have "list_all (\<lambda>(c, now, work). \<forall>v. chat_kept sid (work v) = chat_kept sid v) calls"
    "list_all (\<lambda>(c, now, work). \<forall>v. players_kept sid (work v) = players_kept sid v) calls"
    using assms by (auto simp: list_all_iff)
  then show ?thesis using chat.feed_reads [of sid w calls E o' sn] players.feed_reads [of sid w calls E o' sn] by blast
qed

theorem chunks_keep_lines_witness:
  "\<exists>turns. chat_calls sample_env ''o'' ''s1'' ''srv'' [(''ab'', 1, \<lambda>w. w), (''c'' @ [CHR 0x0D], 2, \<lambda>w. w), ([CHR 0x0A] @ ''d'', 3, \<lambda>w. w)] sample_world =
     chat_by_lines sample_env ''o'' ''s1'' ''srv'' turns sample_world \<and> concat (map fst turns) = [''abc''] \<and> length turns = 3"
proof -
  let ?calls = "[(''ab'', 1, \<lambda>w. w), (''c'' @ [CHR 0x0D], 2, \<lambda>w. w), ([CHR 0x0A] @ ''d'', 3, \<lambda>w. w)] :: (string \<times> ms \<times> (world \<Rightarrow> world)) list"
  have k: "chat_kept ''s1'' sample_world = []" by (simp add: chat_kept_def sample_world_def empty_world_def opt_or_def)
  have s: "short_lines ([] @ concat (map fst ?calls))" "log_lines ([] @ concat (map fst ?calls)) = ([''abc''], ''d'')" by code_simp+
  obtain calls where c: "calls = ?calls" by blast
  then have "list_all (\<lambda>(c, now, work). \<forall>v. chat_kept ''s1'' (work v) = chat_kept ''s1'' v \<and> players_kept ''s1'' (work v) = players_kept ''s1'' v) calls"
    by simp
  from conjunct1 [OF chunks_keep_lines [OF this, where w = sample_world and E = sample_env and o' = "''o''" and sn = "''srv''"]] s(1)
  obtain turns where t: "map (\<lambda>(ls, rest, t). t) turns = map snd calls"
    "chat_calls sample_env ''o'' ''s1'' ''srv'' calls sample_world = chat_by_lines sample_env ''o'' ''s1'' ''srv'' turns sample_world"
    "\<And>n. log_lines ([] @ concat (map fst (take n calls))) = (concat (map fst (take n turns)), if take n turns = [] then [] else fst (snd (last (take n turns))))"
    unfolding k c [symmetric] by (metis empty_iff list.set(1))
  have 3: "length turns = 3" using arg_cong [OF t(1), of length] by (simp add: c)
  from s(2) t(3) [of 3] 3 have "concat (map fst turns) = [''abc'']" by (simp add: c)
  then show ?thesis using t(2) 3 unfolding c by blast
qed

section \<open>Keywords across chunks\<close>

text \<open>The reference: the keyword occurs in the whole log so far, and the occurrence ends in the new content.\<close>

definition found_in :: "string \<Rightarrow> string \<Rightarrow> alertRule \<Rightarrow> bool" where
  "found_in past content r \<longleftrightarrow> rule_keyword r \<noteq> [] \<and>
     (\<exists>i. startsWith (drop i (rule_text r (past @ content))) (rule_text r (rule_keyword r)) \<and> length past < i + length (rule_keyword r))"

lemma rule_text_simps [simp]:
  "length (rule_text r s) = length s" "rule_text r s = [] \<longleftrightarrow> s = []"
  by (simp_all add: rule_text_def toLowerCase_def)

lemma rule_text_drop: "drop n (rule_text r s) = rule_text r (drop n s)"
  by (simp add: rule_text_def toLowerCase_def drop_map)

lemma lastIndexOf_Some:
  assumes "lastIndexOf s p = Some i" and "p \<noteq> []"
  shows "startsWith (drop i s) p" "startsWith (drop j s) p \<Longrightarrow> j \<le> i"
proof -
  let ?xs = "rev [0..<Suc (length s)]"
  obtain k where k: "k < length ?xs" "startsWith (drop (?xs ! k) s) p" "i = ?xs ! k" "\<And>m. m < k \<Longrightarrow> \<not> startsWith (drop (?xs ! m) s) p"
    using assms(1) unfolding lastIndexOf_def find_Some_iff by blast
  have nth: "?xs ! m = length s - m" if "m \<le> length s" for m using that by (subst rev_nth) (simp_all del: upt_Suc)
  show "startsWith (drop i s) p" using k by simp
  assume j: "startsWith (drop j s) p"
  have "j \<le> length s"
  proof (rule ccontr)
    assume "\<not> j \<le> length s"
    with j assms(2) show False by (simp add: startsWith_iff)
  qed
  then have "\<not> length s - j < k" using k(4) [of "length s - j"] j nth [of "length s - j"] by auto
  then show "j \<le> i" using k(1,3) nth [of k] \<open>j \<le> length s\<close> by simp
qed

lemma lastIndexOf_None: "lastIndexOf s p = None \<Longrightarrow> p \<noteq> [] \<Longrightarrow> \<not> startsWith (drop j s) p"
proof
  assume n: "lastIndexOf s p = None" "p \<noteq> []" and j: "startsWith (drop j s) p"
  then have "j \<le> length s" by (cases "j \<le> length s") (simp_all add: startsWith_iff)
  with n(1) j show False unfolding lastIndexOf_def find_None_iff by (auto simp del: upt_Suc)
qed

lemma keyword_hit_found:
  assumes "length (rule_keyword r) \<le> 200"
  shows "keyword_hit (last_n 256 past) content r \<noteq> None \<longleftrightarrow> found_in past content r"
proof (cases "rule_keyword r = []")
  case True
  then show ?thesis by (simp add: keyword_hit_def found_in_def)
next
  case ne: False
  let ?d = "length past - 256" and ?p = "last_n 256 past" and ?K = "rule_text r (rule_keyword r)"
  have p: "drop ?d (past @ content) = ?p @ content" "length past = ?d + length ?p" by (simp_all add: last_n_def)
  have shift: "startsWith (drop i (rule_text r (?p @ content))) ?K = startsWith (drop (?d + i) (rule_text r (past @ content))) ?K" for i
    by (simp add: rule_text_drop p(1) [symmetric] add.commute)
  have K: "?K \<noteq> []" using ne by simp
  show ?thesis
  proof (cases "lastIndexOf (rule_text r (?p @ content)) ?K")
    case None
    have "\<not> found_in past content r"
    proof
      assume "found_in past content r"
      then obtain j where j: "startsWith (drop j (rule_text r (past @ content))) ?K" "length past < j + length (rule_keyword r)" by (auto simp: found_in_def)
      then have "j = ?d + (j - ?d)" using assms by simp
      with j(1) shift [of "j - ?d"] lastIndexOf_None [OF None K] show False by simp
    qed
    then show ?thesis by (simp add: keyword_hit_def Let_def None)
  next
    case (Some i)
    note last = lastIndexOf_Some [OF Some K]
    show ?thesis
    proof
      assume "keyword_hit ?p content r \<noteq> None"
      then have "length ?p < i + length (rule_keyword r)" by (simp add: keyword_hit_def Let_def Some ne split: if_splits)
      with last(1) shift [of i] ne p(2) show "found_in past content r" by (auto simp: found_in_def intro!: exI [of _ "?d + i"])
    next
      assume "found_in past content r"
      then obtain j where j: "startsWith (drop j (rule_text r (past @ content))) ?K" "length past < j + length (rule_keyword r)" by (auto simp: found_in_def)
      then have "j = ?d + (j - ?d)" using assms by simp
      with j(1) shift [of "j - ?d"] have "j - ?d \<le> i" by (intro last(2)) simp
      then have "length ?p < i + length (rule_keyword r)" using j(2) p(2) by linarith
      then show "keyword_hit ?p content r \<noteq> None" by (simp add: keyword_hit_def Let_def Some ne)
    qed
  qed
qed

lemma quiet_logs:
  assumes "quiet w w'"
  shows "events w' = events w" "scanTails w' = scanTails w" "serverLogs w' = serverLogs w" "idgen w' = idgen w" "idctr w' = idctr w"
    "chatSamples w' = chatSamples w" "moderationCooldown w' = moderationCooldown w" "lastMapPrune w' = lastMapPrune w" "jobs w' = jobs w"
  using assms by (elim quietE; simp)+

lemma keyword_alert_events:
  "map (\<lambda>e. get (ev_payload e) ''ruleId'') (events (keyword_alert E o' sid nm prior content now w r)) =
     map (\<lambda>e. get (ev_payload e) ''ruleId'') (events w) @ (if keyword_hit prior content r \<noteq> None then [Str (ar_id r)] else [])"
  "scanTails (keyword_alert E o' sid nm prior content now w r) = scanTails w"
  by (auto simp: keyword_alert_def Let_def add_event_def draw_def quiet_logs [OF sendMatchingRules_quiet] get_def split: option.split)

lemma keyword_alerts_events:
  "map (\<lambda>e. get (ev_payload e) ''ruleId'') (events (foldl (keyword_alert E o' sid nm prior content now) w rs)) =
     map (\<lambda>e. get (ev_payload e) ''ruleId'') (events w) @ map (\<lambda>r. Str (ar_id r)) (filter (\<lambda>r. keyword_hit prior content r \<noteq> None) rs)"
  "scanTails (foldl (keyword_alert E o' sid nm prior content now) w rs) = scanTails w"
  by (induction rs arbitrary: w) (simp_all add: keyword_alert_events)

text \<open>C35: a keyword is never missed and never reported twice. After any past log of which the last 256 characters are kept, a new chunk
  reports exactly the rules whose keyword (at most 200 characters, as rules are created) occurs in the whole log so far
  with its end in the chunk: a keyword cut in two by the chunks is found, one that lies in the past alone is not. The tail that is kept is
  again the last 256 characters.\<close>

theorem keywords_across_chunks:
  assumes "scan_tail sid w = last_n 256 past" and "list_all (\<lambda>r. length (rule_keyword r) \<le> 200) (filter (keyword_rule orgId sid) (alertRules w))"
    and w': "w' = matchKeywordAlerts E orgId sid content now w"
  shows "map (\<lambda>e. get (ev_payload e) ''ruleId'') (drop (length (events w)) (events w')) =
      map (\<lambda>r. Str (ar_id r)) (filter (found_in past content) (filter (keyword_rule orgId sid) (alertRules w))) \<and>
    scan_tail sid w' = last_n 256 (past @ content)"
proof (rule conjI)
  let ?rs = "filter (keyword_rule orgId sid) (alertRules w)" and ?ids = "map (\<lambda>e. get (ev_payload e) ''ruleId'')"
  have "filter (\<lambda>r. keyword_hit (last_n 256 past) content r \<noteq> None) ?rs = filter (found_in past content) ?rs"
    using assms(2) by (intro filter_cong refl keyword_hit_found) (auto simp: list_all_iff)
  then have e: "?ids (events w') = ?ids (events w) @ map (\<lambda>r. Str (ar_id r)) (filter (found_in past content) ?rs)"
    by (simp add: w' matchKeywordAlerts_def Let_def assms(1) keyword_alerts_events)
  have "?ids (drop (length (events w)) (events w')) = drop (length (events w)) (?ids (events w'))" by (simp add: drop_map)
  then show "?ids (drop (length (events w)) (events w')) = map (\<lambda>r. Str (ar_id r)) (filter (found_in past content) ?rs)" by (simp add: e)
  have "last_n 256 (last_n 256 past @ content) = last_n 256 (past @ content)"
    by (cases "length past \<le> 256") (auto simp: last_n_def intro!: arg_cong [where f = "\<lambda>n. drop n past"])
  then show "scan_tail sid w' = last_n 256 (past @ content)"
    using assms(1) by (simp add: w' matchKeywordAlerts_def Let_def keyword_alerts_events scan_tail_def opt_or_def)
qed

definition sample_watch :: world where
  "sample_watch = (empty_world nat_str)\<lparr>alertRules := [\<lparr>ar_id = ''r'', ar_orgId = ''o'', ar_name = ''Log: lag'',
     ar_condition = Obj [(''type'', Str ''log_keyword''), (''serverInstanceId'', Str ''s''), (''keyword'', Str ''Behind'')], ar_channel = Obj [(''type'', Str ''dashboard'')],
     ar_enabled = True, ar_createdAt = 0\<rparr>], scanTails := [(''s'', ''running be'')]\<rparr>"

theorem keywords_across_chunks_witness:
  "map (\<lambda>e. get (ev_payload e) ''ruleId'') (events (matchKeywordAlerts sample_env ''o'' ''s'' ''hind 40 ticks'' 5 sample_watch)) = [Str ''r'']"
proof -
  have t: "scan_tail ''s'' sample_watch = last_n 256 ''running be''" by code_simp
  have k: "list_all (\<lambda>r. length (rule_keyword r) \<le> 200) (filter (keyword_rule ''o'' ''s'') (alertRules sample_watch))" by code_simp
  have "events sample_watch = []" by (simp add: sample_watch_def empty_world_def)
  moreover have "map (\<lambda>r. Str (ar_id r)) (filter (found_in ''running be'' ''hind 40 ticks'') (filter (keyword_rule ''o'' ''s'') (alertRules sample_watch))) = [Str ''r'']"
  proof -
    have "filter (keyword_rule ''o'' ''s'') (alertRules sample_watch) = alertRules sample_watch" by code_simp
    moreover have "found_in ''running be'' ''hind 40 ticks'' (hd (alertRules sample_watch))"
      unfolding found_in_def by (intro conjI exI [of _ 8]) code_simp+
    ultimately show ?thesis by (simp add: sample_watch_def)
  qed
  ultimately show ?thesis using keywords_across_chunks [OF t k refl, of sample_env "''hind 40 ticks''" 5] by simp
qed

section \<open>Repeated stamps\<close>

definition keeps_events :: "world \<Rightarrow> world \<Rightarrow> bool" where
  "keeps_events w w' \<longleftrightarrow> set (events w) \<subseteq> set (events w')"

interpretation keeps_events: state_preorder keeps_events
  by unfold_locales (auto simp: keeps_events_def)

lemma add_event_keeps: "keeps_events w (snd (add_event o' s ty p now w))"
  by (auto simp: keeps_events_def add_event_def draw_def)

lemma dispatch_logs:
  "events (snd (dispatch o' u s ty p now w)) = events w" "moderationCooldown (snd (dispatch o' u s ty p now w)) = moderationCooldown w"
  "length (jobs (snd (dispatch o' u s ty p now w))) = Suc (length (jobs w))"
  by (simp_all add: dispatch_def create_job_def create_run_def addJob_def enqueue_def draw_def)

lemma punish_events: "events (punish o' s i n r a now w) = events w"
  by (simp add: punish_def Let_def enqueueModerationCommand_def dispatch_logs split: option.split)

lemma sample_chat_events: "sample_chat cfg k now w = (ss, w') \<Longrightarrow> events w' = events w"
  by (auto simp: sample_chat_def Let_def pruneModerationState_def split: if_splits)

lemma moderateChat_keeps:
  assumes "moderateChat o' s i n m now w = (b, w')"
  shows "keeps_events w w'"
proof (cases "truthy (cm_enabled (getChatModeration o' s w))")
  case True
  obtain ss w1 where c: "sample_chat (getChatModeration o' s w) (chat_key s i) now w = (ss, w1)" by fastforce
  have "keeps_events w w1" using sample_chat_events [OF c] by (simp add: keeps_events_def)
  moreover have "keeps_events v (punish o' s i n r a now (snd (add_event o' s ty p now v)))" for v ty p r a
    using add_event_keeps [of v o' s ty p now] by (simp add: keeps_events_def punish_events)
  ultimately show ?thesis using assms True c
    by (auto simp: moderateChat_def Let_def keeps_events.refl_R intro: keeps_events.trans_R split: option.splits)
qed (use assms in \<open>simp add: moderateChat_def Let_def keeps_events.refl_R\<close>)

lemma relay_chat_keeps: "keeps_events w (relay_chat E ctx now w)"
proof -
  obtain c e w1 where r: "relayPlayerChat E ctx now w = ((c, e), w1)" by (metis prod.collapse)
  then have "events w1 = events w" using quiet_logs(1) [OF relayPlayerChat_quiet [of w E ctx now]] by simp
  moreover have "keeps_events w1 (snd (add_event o' s ty p now w1))" for o' s ty p by (rule add_event_keeps)
  ultimately show ?thesis by (simp add: relay_chat_def r keeps_events_def)
qed

lemma chat_recorded:
  assumes "chat_line line = Some x" and "log_stamp line \<noteq> []"
  shows "chat_repeated o' s (log_stamp line) (parse_chat_line E o' s n now w line)"
proof (cases "chat_repeated o' s (log_stamp line) w")
  case True
  obtain i nm m where x: "x = (i, nm, m)" by (cases x)
  show ?thesis using True assms by (simp add: parse_chat_line_def x)
next
  case False
  obtain i nm m where x: "x = (i, nm, m)" by (cases x)
  let ?p = "[(''playerId'', Str i), (''playerName'', Str nm), (''channel'', Str chat_channel), (''message'', Str m),
    (''serverInstanceName'', Str n), (''logTimestamp'', Str (log_stamp line))]"
  obtain e w1 where a: "add_event o' s ''player_chat'' ?p now w = (e, w1)" by fastforce
  have "chat_repeated o' s (log_stamp line) w1" using a by (auto simp: add_event_def chat_repeated_def draw_def get_def)
  moreover obtain b w2 where md: "moderateChat o' s i nm m now w1 = (b, w2)" by fastforce
  moreover have "chat_repeated o' s st v \<Longrightarrow> keeps_events v v' \<Longrightarrow> chat_repeated o' s st v'" for st v v'
    by (auto simp: chat_repeated_def keeps_events_def list_ex_iff)
  ultimately have "chat_repeated o' s (log_stamp line) w2" "chat_repeated o' s (log_stamp line) (relay_chat E ctx now w2)" for ctx
    using moderateChat_keeps [OF md] relay_chat_keeps by blast+
  then show ?thesis using assms False by (simp add: parse_chat_line_def x a md split: bool.split)
qed

text \<open>Most chat of a modded server is lost. A chat line is dropped as a repetition when an earlier one began with the same word, which
  is the time of day to the second on a plain server and the date alone on NeoForge. After one line, any other that begins
  with the same word (of another player, with another text, hours later) leaves no trace: it is not recorded, not moderated and not
  relayed, as long as the first event is kept.\<close>

lemma same_first_word_drops_chat:
  assumes "chat_line first = Some x" and "log_stamp first \<noteq> []" and "log_stamp other = log_stamp first"
    and "set (events (parse_chat_line E orgId sid name now w first)) \<subseteq> set (events v)"
  shows "parse_chat_line E orgId sid name later v other = v"
proof -
  have "chat_repeated orgId sid (log_stamp first) v"
    using chat_recorded [OF assms(1,2), of orgId sid E name now w] assms(4) by (auto simp: chat_repeated_def list_ex_iff)
  with assms(2,3) show ?thesis by (simp add: parse_chat_line_def split: option.split prod.split)
qed

definition neoforge :: "string \<Rightarrow> string \<Rightarrow> string \<Rightarrow> string" where
  "neoforge time player message = ''[12Mar2024 '' @ time @ ''] [Server thread/INFO] [minecraft/MinecraftServer]: <'' @ player @ ''> '' @ message"

section \<open>Moderation\<close>

definition cooldown_until :: "id \<Rightarrow> string \<Rightarrow> world \<Rightarrow> ms" where
  "cooldown_until sid playerId w = opt_or (map_of (moderationCooldown w) (chat_key sid playerId)) 0"

definition cooldowns_ok :: "world \<Rightarrow> bool" where
  "cooldowns_ok w \<longleftrightarrow> distinct (map fst (moderationCooldown w))"

lemma prune_cooldown:
  assumes "cooldowns_ok w"
  shows "cooldowns_ok (pruneModerationState now w)" "now \<le> cooldown_until s i w \<Longrightarrow> cooldown_until s i (pruneModerationState now w) = cooldown_until s i w"
    "jobs (pruneModerationState now w) = jobs w"
proof -
  show "cooldowns_ok (pruneModerationState now w)" using assms by (simp add: pruneModerationState_def cooldowns_ok_def distinct_prune)
  show "jobs (pruneModerationState now w) = jobs w" by (simp add: pruneModerationState_def)
  show "cooldown_until s i (pruneModerationState now w) = cooldown_until s i w" if "now \<le> cooldown_until s i w"
    using that map_of_prune [OF assms [unfolded cooldowns_ok_def], of "\<lambda>until _. now \<le> until" "chat_key s i"]
    by (auto simp: pruneModerationState_def cooldown_until_def opt_or_def split: option.splits)
qed

lemma punish_effect:
  shows "cooldowns_ok w \<Longrightarrow> cooldowns_ok (punish o' s i n r a now w)"
    "length (jobs (punish o' s i n r a now w)) \<le> Suc (length (jobs w))"
    "now \<le> cooldown_until s i w \<Longrightarrow> punish o' s i n r a now w = w"
    "length (jobs (punish o' s i n r a now w)) \<noteq> length (jobs w) \<Longrightarrow> cooldown_until s i (punish o' s i n r a now w) = now + 5000"
  by (auto simp: punish_def Let_def enqueueModerationCommand_def cooldowns_ok_def cooldown_until_def dispatch_logs distinct_map_put opt_or_def
      split: option.split)

lemma moderateChat_cases:
  assumes "moderateChat o' s i n m now w = (b, w')"
  obtains (off) "w' = w" | (on) ss where "w' = (pruneModerationState now w)\<lparr>chatSamples := ss\<rparr>"
  | (acted) ss ev r a where "w' = punish o' s i n r a now (snd (add_event o' s ''chat_moderation_action'' ev now ((pruneModerationState now w)\<lparr>chatSamples := ss\<rparr>)))"
  using assms that
  by (auto simp: moderateChat_def sample_chat_def Let_def split: if_splits option.splits)

lemma add_event_logs:
  "jobs (snd (add_event o' s ty p now w)) = jobs w" "moderationCooldown (snd (add_event o' s ty p now w)) = moderationCooldown w"
  by (simp_all add: add_event_def draw_def)

lemma moderateChat_effect:
  assumes "cooldowns_ok w" and "moderateChat o' s i n m now w = (b, w')"
  shows "cooldowns_ok w' \<and> length (jobs w') \<le> Suc (length (jobs w)) \<and>
    (now \<le> cooldown_until s i w \<longrightarrow> length (jobs w') = length (jobs w) \<and> cooldown_until s i w' = cooldown_until s i w) \<and>
    (length (jobs w') \<noteq> length (jobs w) \<longrightarrow> cooldown_until s i w' = now + 5000)"
  using assms(2)
proof (cases rule: moderateChat_cases)
  case off
  with assms(1) show ?thesis by simp
next
  case (on ss)
  with prune_cooldown [OF assms(1)] show ?thesis by (simp add: cooldowns_ok_def cooldown_until_def)
next
  case (acted ss ev r a)
  let ?v = "snd (add_event o' s ''chat_moderation_action'' ev now ((pruneModerationState now w)\<lparr>chatSamples := ss\<rparr>))"
  have v: "cooldowns_ok ?v" "jobs ?v = jobs w" "now \<le> cooldown_until s i w \<Longrightarrow> cooldown_until s i ?v = cooldown_until s i w"
    using prune_cooldown [OF assms(1)] by (simp_all add: cooldowns_ok_def cooldown_until_def add_event_logs)
  with punish_effect [where w = ?v and o' = o' and s = s and i = i and n = n and r = r and a = a and now = now] show ?thesis
    by (simp add: acted)
qed

lemma moderate_blocked:
  assumes "cooldowns_ok w" and "T + 5000 \<le> cooldown_until s i w" and "list_all (\<lambda>(n, m, t). t \<le> T + 5000) ms"
  shows "length (jobs (foldl (\<lambda>w (n, m, t). snd (moderateChat o' s i n m t w)) w ms)) = length (jobs w)"
  using assms
proof (induction ms arbitrary: w)
  case (Cons x ms)
  obtain n m t b w1 where x: "x = (n, m, t)" "moderateChat o' s i n m t w = (b, w1)" by (metis prod.collapse)
  have "cooldowns_ok w1 \<and> length (jobs w1) = length (jobs w) \<and> T + 5000 \<le> cooldown_until s i w1"
    using moderateChat_effect [OF Cons.prems(1) x(2)] Cons.prems(2,3) by (simp add: x(1))
  with Cons.IH [of w1] Cons.prems(3) x show ?case by simp
qed simp

text \<open>C36: a player is sent at most one moderation command in five seconds. Whatever a player writes within five seconds, under
  whatever names, and whatever the settings forbid, at most one command is queued for the server; the
  clean-up of old entries does not shorten the pause.\<close>

theorem one_command_per_pause:
  assumes "cooldowns_ok w" and "list_all (\<lambda>(n, m, t). T \<le> t \<and> t \<le> T + 5000) messages"
  shows "length (jobs (foldl (\<lambda>w (n, m, t). snd (moderateChat orgId sid playerId n m t w)) w messages)) \<le> Suc (length (jobs w))"
  using assms
proof (induction messages arbitrary: w)
  case (Cons x ms)
  obtain n m t b w1 where x: "x = (n, m, t)" "moderateChat orgId sid playerId n m t w = (b, w1)" by (metis prod.collapse)
  note e = moderateChat_effect [OF Cons.prems(1) x(2)]
  show ?case
  proof (cases "length (jobs w1) = length (jobs w)")
    case True
    with e Cons.IH [of w1] Cons.prems(2) x show ?thesis by simp
  next
    case False
    with e have "T + 5000 \<le> cooldown_until sid playerId w1" using Cons.prems(2) by (simp add: x(1))
    moreover have "list_all (\<lambda>(n, m, t). t \<le> T + 5000) ms" using Cons.prems(2) by (auto simp: list_all_iff)
    ultimately show ?thesis using moderate_blocked [of w1 T sid playerId ms orgId] e x by simp
  qed
qed simp

definition sample_strict :: world where
  "sample_strict = (empty_world nat_str)\<lparr>serverInstances := [sample_server ''s'' ''h''], alertRules := [\<lparr>ar_id = ''r'', ar_orgId = ''o'', ar_name = ''Chat moderation'',
     ar_condition = Obj [(''type'', Str ''chat_moderation''), (''serverInstanceId'', Str ''s''), (''badWordRules'', Arr [Obj [(''word'', Str ''rude''), (''action'', Str ''kick'')]])],
     ar_channel = Obj [(''type'', Str ''dashboard'')], ar_enabled = True, ar_createdAt = 0\<rparr>]\<rparr>"

theorem one_command_per_pause_witness:
  "length (jobs (foldl (\<lambda>w (n, m, t). snd (moderateChat ''o'' ''s'' ''Bob'' n m t w)) sample_strict [(''Bob'', ''so RUDE'', 1000), (''Bob'', ''rude'', 6000)])) = 1"
proof -
  have ok: "cooldowns_ok sample_strict" by (simp add: cooldowns_ok_def sample_strict_def empty_world_def)
  have t: "list_all (\<lambda>(n, m, t). (1000::int) \<le> t \<and> t \<le> 1000 + 5000) [(''Bob'', ''so RUDE'', 1000), (''Bob'', ''rude'', 6000)]" by simp
  have "1 \<le> length (jobs (foldl (\<lambda>w (n, m, t). snd (moderateChat ''o'' ''s'' ''Bob'' n m t w)) sample_strict [(''Bob'', ''so RUDE'', 1000), (''Bob'', ''rude'', 6000)]))"
    by code_simp
  moreover have "length (jobs sample_strict) = 0" by (simp add: sample_strict_def empty_world_def)
  ultimately show ?thesis using one_command_per_pause [OF ok t, of "''o''" "''s''" "''Bob''"] by simp
qed

text \<open>What the settings may hold: at most 200 different words of at most 80 characters, each with an action, and bounded numbers (or
  \<open>NaN\<close>, for an input that is no number).\<close>

definition action_ok :: "js \<Rightarrow> bool" where
  "action_ok v \<longleftrightarrow> js_string v \<in> {''log'', ''warn'', ''kick''}"

definition rules_typed :: "(string \<times> js) list \<Rightarrow> bool" where
  "rules_typed rules \<longleftrightarrow> distinct (map fst rules) \<and> length rules \<le> 200 \<and>
     list_all (\<lambda>(word, action). word \<noteq> [] \<and> length word \<le> 80 \<and> action_ok action) rules"

definition num_within :: "rat \<Rightarrow> rat \<Rightarrow> jsnum \<Rightarrow> bool" where
  "num_within lo hi n = (case n of NaN \<Rightarrow> True | Infinite _ \<Rightarrow> False | Fin q \<Rightarrow> lo \<le> q \<and> q \<le> hi)"

lemma clamp_within: "lo \<le> hi \<Longrightarrow> num_within lo hi (clamp lo hi n)"
  by (simp add: num_within_def clamp_def split: jsnum.split)

lemma moderationAction_ok: "action_ok fallback \<Longrightarrow> action_ok (moderationAction v fallback)"
  by (simp add: action_ok_def moderationAction_def)

lemma clean_rules_typed: "action_ok fallback \<Longrightarrow> rules_typed acc \<Longrightarrow> length acc < 200 \<Longrightarrow> rules_typed (clean_rules fallback items acc)"
proof (induction fallback items acc rule: clean_rules.induct)
  case (2 fallback item items acc)
  let ?word = "bad_word item"
  show ?case
  proof (cases "?word = [] \<or> 80 < length ?word \<or> ?word \<in> fst ` set acc")
    case True
    with "2.IH"(1) [OF refl] 2 show ?thesis by (simp add: Let_def)
  next
    case False
    let ?acc = "acc @ [(?word, moderationAction (bad_action item) fallback)]"
    have t: "rules_typed ?acc" using False "2.prems" moderationAction_ok [OF "2.prems"(1)] by (auto simp: rules_typed_def)
    then show ?thesis using "2.IH"(2) [OF refl False refl] "2.prems" False by (simp add: Let_def)
  qed
qed simp

text \<open>The moderation settings are well formed. Whatever a client sends, the settings that are saved hold at most 200 different
  blocked words of 1 to 80 characters, each with one of the three actions, and a flood limit of 2 to 30 messages in 2 to 300
  seconds (numbers that cannot be read stay \<open>NaN\<close>).\<close>

theorem moderation_settings_typed:
  assumes "updateChatModeration orgId sid input now w = (Inr settings, w')"
  shows "\<exists>rules m n. get settings ''badWordRules'' = word_objs rules \<and> rules_typed rules \<and> action_ok (get settings ''badWordAction'') \<and>
    get settings ''floodMessages'' = Num m \<and> num_within 2 30 m \<and> get settings ''floodWindowSeconds'' = Num n \<and> num_within 2 300 n"
proof -
  have ok: "action_ok (moderationAction v (Str ''warn''))" for v by (rule moderationAction_ok) (simp add: action_ok_def)
  then have "rules_typed (cleanBadWordRules v (moderationAction u (Str ''warn'')))" for u v
    by (auto simp: cleanBadWordRules_def rules_typed_def [of "[]"] intro!: clean_rules_typed split: js.split)
  moreover obtain m where "settings = updated_moderation input m"
    using assms by (auto simp: updateChatModeration_def Let_def split: option.splits js.splits)
  ultimately show ?thesis using ok clamp_within [of 2 30] clamp_within [of 2 300]
    by (auto simp: updated_moderation_def Let_def)
qed

theorem moderation_settings_typed_witness:
  "\<exists>settings w' rules. updateChatModeration ''o'' ''s'' [(''enabled'', Bool True), (''badWords'', Arr [Str '' Rude '', Str ''RUDE''])] 5 sample_strict = (Inr settings, w') \<and>
    get settings ''badWordRules'' = word_objs rules \<and> rules_typed rules"
proof -
  let ?r = "updateChatModeration ''o'' ''s'' [(''enabled'', Bool True), (''badWords'', Arr [Str '' Rude '', Str ''RUDE''])] 5 sample_strict"
  have "case fst ?r of Inl _ \<Rightarrow> False | Inr _ \<Rightarrow> True" by code_simp
  then obtain settings w' where r: "?r = (Inr settings, w')" by (cases ?r; cases "fst ?r") auto
  from moderation_settings_typed [OF this] r show ?thesis by blast
qed

end
