(* ===== verification/Shop_Facts.thy ===== *)
theory Shop_Facts
  imports Shop_Items
begin

text \<open>
  What stays true of the shop: items are well formed, their pictures are on the disk, and what is shown is
  what is granted (Shop_Items has the operations).
\<close>

section \<open>Paths of pictures\<close>

lemma split_at_first:
  "c \<notin> set a \<Longrightarrow> c \<notin> set b \<Longrightarrow> a @ c # x = b @ c # y \<longleftrightarrow> a = b \<and> x = y"
proof (induction a arbitrary: b)
  case Nil
  then show ?case by (cases b) auto
next
  case (Cons d a)
  then show ?case by (cases b) auto
qed

lemma shop_path:
  "shopImagePath dir o' i e t = Inr p \<longleftrightarrow> id_ok o' \<and> id_ok i \<and> e \<in> {''jpg'', ''png'', ''webp''} \<and>
     p = dir @ ''/shop/'' @ o' @ CHR ''/'' # i @ CHR ''.'' # (if t then ''thumb.'' else []) @ e"
  by (auto simp: shopImagePath_def)

lemma id_ok_chars: "id_ok s \<Longrightarrow> CHR ''/'' \<notin> set s \<and> CHR ''.'' \<notin> set s"
  using id_char_not by (auto simp: id_ok_def list_all_iff)

lemma suffix_inj:
  "(if t1 then ''thumb.'' else []) @ e1 = (if t2 then ''thumb.'' else []) @ e2 \<Longrightarrow> e1 \<in> {''jpg'', ''png'', ''webp''} \<Longrightarrow>
   e2 \<in> {''jpg'', ''png'', ''webp''} \<Longrightarrow> e1 = e2 \<and> t1 = t2"
  by (cases t1; cases t2) auto

text \<open>Two items never share a file, and an item has one file per extension and size.\<close>

lemma shop_path_inj:
  assumes "shopImagePath dir o1 i1 e1 t1 = Inr p" and "shopImagePath dir o2 i2 e2 t2 = Inr p"
  shows "i1 = i2 \<and> e1 = e2 \<and> t1 = t2"
proof -
  define x1 x2 where x: "x1 = (if t1 then ''thumb.'' else []) @ e1" "x2 = (if t2 then ''thumb.'' else []) @ e2"
  note p1 = iffD1 [OF shop_path assms(1), folded x(1)] and p2 = iffD1 [OF shop_path assms(2), folded x(2)]
  note free = p1 [THEN conjunct1, THEN id_ok_chars] p2 [THEN conjunct1, THEN id_ok_chars]
    p1 [THEN conjunct2, THEN conjunct1, THEN id_ok_chars] p2 [THEN conjunct2, THEN conjunct1, THEN id_ok_chars]
  have "dir @ ''/shop/'' @ o1 @ CHR ''/'' # i1 @ CHR ''.'' # x1 = dir @ ''/shop/'' @ o2 @ CHR ''/'' # i2 @ CHR ''.'' # x2"
    by (rule trans [OF sym [OF p1 [THEN conjunct2, THEN conjunct2, THEN conjunct2]] p2 [THEN conjunct2, THEN conjunct2, THEN conjunct2]])
  then have "o1 @ CHR ''/'' # i1 @ CHR ''.'' # x1 = o2 @ CHR ''/'' # i2 @ CHR ''.'' # x2" by (simp only: same_append_eq)
  then have "i1 @ CHR ''.'' # x1 = i2 @ CHR ''.'' # x2" using split_at_first [OF conjunct1 [OF free(1)] conjunct1 [OF free(2)]] by simp
  then have "i1 = i2 \<and> x1 = x2" using split_at_first [OF conjunct2 [OF free(3)] conjunct2 [OF free(4)]] by simp
  then show ?thesis
    using suffix_inj [of t1 e1 t2 e2, folded x] p1 [THEN conjunct2, THEN conjunct2, THEN conjunct1] p2 [THEN conjunct2, THEN conjunct2, THEN conjunct1]
    by simp
qed

section \<open>Files\<close>

definition others_same :: "shopEnv \<Rightarrow> id \<Rightarrow> disk \<Rightarrow> disk \<Rightarrow> bool" where
  "others_same V i disk disk' \<longleftrightarrow>
     (\<forall>o' j e t p. j \<noteq> i \<and> shopImagePath (sv_root V) o' j e t = Inr p \<longrightarrow> disk' p = disk p)"

definition stored :: "shopEnv \<Rightarrow> disk \<Rightarrow> id \<Rightarrow> id \<Rightarrow> string \<Rightarrow> bool \<Rightarrow> bool" where
  "stored V disk o' i e t \<longleftrightarrow> (case shopImagePath (sv_root V) o' i e t of Inl _ \<Rightarrow> False | Inr p \<Rightarrow> disk p \<noteq> None)"

lemma stored_id_ok: "stored V disk o' i e t \<Longrightarrow> id_ok o' \<and> id_ok i \<and> e \<in> {''jpg'', ''png'', ''webp''}"
  by (auto simp: stored_def shopImagePath_def split: sum.splits if_splits)

lemma stored_other: "others_same V i disk disk' \<Longrightarrow> j \<noteq> i \<Longrightarrow> stored V disk' o' j e t = stored V disk o' j e t"
  unfolding others_same_def stored_def by (cases "shopImagePath (sv_root V) o' j e t") auto

lemma others_refl [simp]: "others_same V i disk disk"
  by (simp add: others_same_def)

lemma others_trans: "others_same V i d1 d2 \<Longrightarrow> others_same V i d2 d3 \<Longrightarrow> others_same V i d1 d3"
  unfolding others_same_def by metis

lemma others_upd:
  "shopImagePath (sv_root V) o' i e t = Inr p \<Longrightarrow> others_same V i disk (disk(p := b))"
  unfolding others_same_def using shop_path_inj by (metis fun_upd_other)

lemma writeImage_result:
  assumes "id_ok o'" and "id_ok i"
  obtains disk' where "writeImage V o' i m disk = (Inr (), disk')" "others_same V i disk disk'"
    "stored V disk' o' i ''webp'' t" "\<And>e t. stored V disk o' i e t \<Longrightarrow> stored V disk' o' i e t"
proof -
  obtain mp tp where p: "shopImagePath (sv_root V) o' i ''webp'' False = Inr mp" "shopImagePath (sv_root V) o' i ''webp'' True = Inr tp"
    using assms by (auto simp: shop_path)
  let ?d = "disk(mp \<mapsto> pi_master m, tp \<mapsto> pi_thumb m)"
  show ?thesis
  proof (rule that)
    show "writeImage V o' i m disk = (Inr (), ?d)" by (simp add: writeImage_def p)
    show "others_same V i disk ?d" using p by (blast intro: others_trans others_upd)
    show "stored V ?d o' i ''webp'' t" by (cases t) (simp_all add: stored_def p)
    show "stored V ?d o' i e t" if "stored V disk o' i e t" for e t
      using that by (auto simp: stored_def split: sum.splits)
  qed
qed

lemma unlinkImages_others:
  assumes "unlinkImages V o' i ext disk = (r, disk')"
  shows "others_same V i disk disk'"
  using assms others_upd
  by (auto simp: unlinkImages_def split: list.splits sum.splits intro!: others_trans [OF others_upd others_upd])

lemma unlinkImages_result:
  assumes "id_ok o'" and "id_ok i" and "e \<in> {''jpg'', ''png'', ''webp''}"
  obtains disk' where "unlinkImages V o' i (Some e) disk = (Inr (), disk')"
    "\<And>e' t. e' \<noteq> e \<Longrightarrow> stored V disk' o' i e' t = stored V disk o' i e' t"
proof -
  obtain mp tp where p: "shopImagePath (sv_root V) o' i e False = Inr mp" "shopImagePath (sv_root V) o' i e True = Inr tp"
    using assms by (auto simp: shop_path)
  have e: "e \<noteq> []" using assms(3) by auto
  let ?d = "disk(mp := None, tp := None)"
  show ?thesis
  proof (rule that)
    show "unlinkImages V o' i (Some e) disk = (Inr (), ?d)" using e p by (cases e) (simp_all add: unlinkImages_def opt_or_def)
    show "stored V ?d o' i e' t = stored V disk o' i e' t" if "e' \<noteq> e" for e' t
      unfolding stored_def
    proof (cases "shopImagePath (sv_root V) o' i e' t")
      case (Inr q)
      then have "q \<noteq> mp" "q \<noteq> tp" using p that shop_path_inj by blast+
      with Inr show "(case shopImagePath (sv_root V) o' i e' t of Inl _ \<Rightarrow> False | Inr p \<Rightarrow> ?d p \<noteq> None) =
        (case shopImagePath (sv_root V) o' i e' t of Inl _ \<Rightarrow> False | Inr p \<Rightarrow> disk p \<noteq> None)" by simp
    qed simp
  qed
qed

section \<open>Items on sale\<close>

definition grants_ok :: "shopItem \<Rightarrow> grantItemSpec list \<Rightarrow> bool" where
  "grants_ok i gs \<longleftrightarrow> list_all spec_wf gs \<and> length gs \<le> MAX_GRANT_ITEMS \<and> sh_grantItems i = grants_column gs \<and>
     sh_grantItemName i = first_name gs \<and> sh_grantQuantity i = first_quantity gs"

definition item_ok :: "shopItem \<Rightarrow> bool" where
  "item_ok i \<longleftrightarrow> sh_name i \<noteq> [] \<and> length (sh_name i) \<le> MAX_SHOP_NAME \<and>
     MIN_SHOP_PRICE_CENTS \<le> sh_priceCents i \<and> sh_priceCents i \<le> MAX_SHOP_PRICE_CENTS \<and> (\<exists>gs. grants_ok i gs)"

definition pictured :: "shopEnv \<Rightarrow> disk \<Rightarrow> shopItem \<Rightarrow> bool" where
  "pictured V disk i \<longleftrightarrow> (\<exists>e m. sh_imageExt i = Some e \<and> sh_imageMime i = Some m \<and> m \<noteq> [] \<and>
     (\<forall>t. stored V disk (sh_orgId i) (sh_id i) e t))"

definition shop_ok :: "shopEnv \<Rightarrow> world \<times> disk \<Rightarrow> bool" where
  "shop_ok V s \<longleftrightarrow> distinct (map sh_id (shopItems (fst s))) \<and>
     (\<forall>o'. countRows (\<lambda>i. sh_orgId i = o') (shopItems (fst s)) \<le> MAX_SHOP_ITEMS) \<and>
     (\<forall>i \<in> set (shopItems (fst s)). item_ok i \<and> pictured V (snd s) i)"

text \<open>What administrators do to the shop. An organization has an id of the database; so has a new item, and
  it is new.\<close>

inductive shop_step :: "shopEnv \<Rightarrow> world \<times> disk \<Rightarrow> world \<times> disk \<Rightarrow> bool" for V where
  create: "id_ok orgId \<Longrightarrow> id_ok (next_id (fst s)) \<Longrightarrow> next_id (fst s) \<notin> sh_id ` set (shopItems (fst s)) \<Longrightarrow>
    shop_step V s (snd (create_item V orgId userId input file now s))"
| update: "shop_step V s (snd (update_item V orgId userId itemId input file s))"
| remove: "shop_step V s (snd (remove_item V orgId userId itemId s))"
| reprocess: "shop_step V s (snd (reprocessAllImages V s))"

lemma pictured_other: "others_same V i disk disk' \<Longrightarrow> sh_id j \<noteq> i \<Longrightarrow> pictured V disk' j = pictured V disk j"
  by (simp add: pictured_def stored_other)

lemma parseShopName_ok: "parseShopName v = Some n \<Longrightarrow> n \<noteq> [] \<and> length n \<le> MAX_SHOP_NAME"
  by (auto simp: parseShopName_def Let_def split: js.splits if_splits)

lemma parseShopPrice_ok: "parseShopPriceDollars v = Some c \<Longrightarrow> MIN_SHOP_PRICE_CENTS \<le> c \<and> c \<le> MAX_SHOP_PRICE_CENTS"
  by (auto simp: parseShopPriceDollars_def Let_def split: if_splits jsnum.splits)

lemma shop_grant_fields:
  assumes "parseShopGrantFields V input existing = Inr gs"
  shows "list_all spec_wf gs \<and> length gs \<le> MAX_GRANT_ITEMS"
proof -
  have "\<exists>raw. parseGrantItemList (e_parseJson (sv_env V)) raw = Some gs"
    using assms by (auto simp: parseShopGrantFields_def kept_grants_def Let_def split: option.splits if_splits)
  then show ?thesis using parseGrantItemList_wf by blast
qed

lemma processed_image: "requireProcessedImage V file = Inr m \<Longrightarrow> pi_ext m = ''webp'' \<and> pi_mime m = ''image/webp''"
  by (auto simp: requireProcessedImage_def normalizeShopImage_def Let_def split: if_splits option.splits)

lemma grants_okI: "parseShopGrantFields V input existing = Inr gs \<Longrightarrow>
   sh_grantItems i = grants_column gs \<Longrightarrow> sh_grantItemName i = first_name gs \<Longrightarrow> sh_grantQuantity i = first_quantity gs \<Longrightarrow> grants_ok i gs"
  using shop_grant_fields by (simp add: grants_ok_def)

lemma shopItems_audit [simp]: "shopItems (audit_item orgId userId a i d w) = shopItems w"
  by (simp add: audit_item_def audit_row_def)

lemma create_keeps:
  assumes ok: "shop_ok V (w, disk)" and ids: "id_ok orgId" "id_ok (next_id w)" "next_id w \<notin> sh_id ` set (shopItems w)"
  shows "shop_ok V (snd (create_item V orgId userId input file now (w, disk)))"
proof (cases "create_checks V orgId input file w")
  case (Inr r)
  obtain name cents gs m where r: "r = (name, cents, gs, m)" by (cases r)
  note c = Inr [unfolded r]
  have n: "parseShopName (in_name input) = Some name" "parseShopPriceDollars (in_price input) = Some cents"
    "parseShopGrantFields V input None = Inr gs" "requireProcessedImage V file = Inr m"
    "countRows (\<lambda>i. sh_orgId i = orgId) (shopItems w) < MAX_SHOP_ITEMS"
    using c by (auto simp: create_checks_def split: if_splits option.splits sum.splits)
  obtain disk' where d: "writeImage V orgId (next_id w) m disk = (Inr (), disk')" "others_same V (next_id w) disk disk'"
    using writeImage_result [OF ids(1,2)] by metis
  have web: "\<forall>t. stored V disk' orgId (next_id w) ''webp'' t"
    using writeImage_result [OF ids(1,2), of V m disk] d(1) by (metis Pair_inject)
  define item where "item = \<lparr>sh_id = next_id w, sh_orgId = orgId, sh_name = name, sh_description = parseShopDescription (in_description input),
     sh_priceCents = cents, sh_imageExt = Some (pi_ext m), sh_imageMime = Some (pi_mime m), sh_grantItemName = first_name gs,
     sh_grantQuantity = first_quantity gs, sh_grantItems = grants_column gs, sh_active = parseActiveFlag (in_active input) True,
     sh_sortOrder = countRows (\<lambda>i. sh_orgId i = orgId) (shopItems w), sh_createdAt = now\<rparr>"
  have "snd (create_item V orgId userId input file now (w, disk)) =
      (audit_item orgId userId ''shop_item_created'' (next_id w) [(''name'', Str name), (''priceCents'', JInt cents)]
        ((draw w)\<lparr>shopItems := shopItems w @ [item]\<rparr>), disk')"
    using d(1) by (simp add: create_item_def c item_def Let_def)
  moreover have "item_ok item"
    using parseShopName_ok [OF n(1)] parseShopPrice_ok [OF n(2)] grants_okI [OF n(3), of item] by (auto simp: item_ok_def item_def)
  moreover have "pictured V disk' item" using processed_image [OF n(4)] web by (simp add: pictured_def item_def)
  moreover have "pictured V disk' i" if "i \<in> set (shopItems w)" for i
  proof -
    have "sh_id i \<noteq> next_id w" using imageI [OF that, of sh_id] ids(3) by metis
    then show ?thesis using pictured_other [OF d(2)] ok that by (simp add: shop_ok_def)
  qed
  moreover have "sh_id item = next_id w" "sh_orgId item = orgId" by (simp_all add: item_def)
  ultimately show ?thesis using ok ids(3) n(5) by (auto simp: shop_ok_def)
qed (simp add: create_item_def ok)

lemma replaceImage_result:
  assumes p: "pictured V disk i" and m: "case m of None \<Rightarrow> True | Some m \<Rightarrow> pi_ext m = ''webp'' \<and> pi_mime m = ''image/webp''"
  obtains disk' where "replaceImage V (sh_orgId i) i m disk = (Inr (), disk')" "others_same V (sh_id i) disk disk'"
    "pictured V disk' (edited input name cents gs m i)"
proof (cases m)
  case None
  then show ?thesis using p by (intro that [of disk]) (simp_all add: replaceImage_def pictured_def edited_def)
next
  case (Some im)
  obtain e where e: "sh_imageExt i = Some e" "id_ok (sh_orgId i)" "id_ok (sh_id i)" "e \<in> {''jpg'', ''png'', ''webp''}"
    using p stored_id_ok unfolding pictured_def by blast
  obtain d1 where d1: "unlinkImages V (sh_orgId i) (sh_id i) (Some e) disk = (Inr (), d1)"
    using unlinkImages_result [OF e(2,3,4)] by metis
  obtain d2 where d2: "writeImage V (sh_orgId i) (sh_id i) im d1 = (Inr (), d2)" "others_same V (sh_id i) d1 d2"
    using writeImage_result [OF e(2,3)] by metis
  have web: "\<forall>t. stored V d2 (sh_orgId i) (sh_id i) ''webp'' t"
    using writeImage_result [OF e(2,3), of V im d1] d2(1) by (metis Pair_inject)
  show ?thesis
  proof (rule that)
    show "replaceImage V (sh_orgId i) i m disk = (Inr (), d2)" by (simp add: replaceImage_def Some e(1) d1 d2(1))
    show "others_same V (sh_id i) disk d2" by (rule others_trans [OF unlinkImages_others [OF d1] d2(2)])
    show "pictured V d2 (edited input name cents gs m i)" using m web by (simp add: pictured_def edited_def Some)
  qed
qed

text \<open>Changing the one row with an id, the files of that item and nothing else.\<close>

lemma shop_ok_update:
  assumes ok: "shop_ok V (w, disk)" and i: "findUnique sh_id k (shopItems w) = Some i"
    and f: "sh_id (f i) = k" "sh_orgId (f i) = sh_orgId i" "item_ok (f i)" "pictured V disk' (f i)"
    and d: "others_same V k disk disk'" and w': "shopItems w' = updateRow sh_id k f (shopItems w)"
  shows "shop_ok V (w', disk')"
proof -
  have dist: "distinct (map sh_id (shopItems w))" using ok by (simp add: shop_ok_def)
  have rows: "r = f i \<or> r \<in> set (shopItems w) \<and> sh_id r \<noteq> k" if mem: "r \<in> set (shopItems w')" for r
  proof (cases "r \<in> set (shopItems w) \<and> sh_id r \<noteq> k")
    case False
    then obtain r0 where r0: "r0 \<in> set (shopItems w)" "sh_id r0 = k" "r = f r0"
      using in_updateRow [OF mem [unfolded w']] by blast
    then show ?thesis using findUnique_unique [OF dist r0(1)] i by simp
  qed simp
  have ids: "map sh_id (shopItems w') = map sh_id (shopItems w)"
  proof -
    have "sh_id (if sh_id r = k then f r else r) = sh_id r" if "r \<in> set (shopItems w)" for r
      using that findUnique_unique [OF dist] i f(1) by (metis option.inject)
    then show ?thesis by (simp add: w' updateRow_map)
  qed
  have "countRows (\<lambda>i. sh_orgId i = o') (shopItems w') = countRows (\<lambda>i. sh_orgId i = o') (shopItems w)" for o'
    using countRows_updateRow [OF dist i, of "\<lambda>i. sh_orgId i = o'" f] f(2) by (simp add: w')
  moreover have "item_ok r \<and> pictured V disk' r" if "r \<in> set (shopItems w')" for r
    using that rows f(3,4) ok pictured_other [OF d] by (auto simp: shop_ok_def)
  ultimately show ?thesis using ok ids by (simp add: shop_ok_def)
qed

lemma item_found:
  assumes "item_of_org orgId k w = Some i" and "shop_ok V (w, disk)"
  shows "findUnique sh_id k (shopItems w) = Some i \<and> sh_orgId i = orgId \<and> sh_id i = k \<and> item_ok i \<and> pictured V disk i"
proof -
  have "i \<in> set (shopItems w)" "sh_id i = k" "sh_orgId i = orgId" using find_Some_set [OF assms(1) [unfolded item_of_org_def]] by auto
  then show ?thesis using assms(2) findUnique_unique by (fastforce simp: shop_ok_def)
qed

lemma update_keeps:
  assumes ok: "shop_ok V (w, disk)"
  shows "shop_ok V (snd (update_item V orgId userId k input file (w, disk)))"
proof (cases "item_of_org orgId k w")
  case (Some i)
  note i = item_found [OF Some ok]
  show ?thesis
  proof (cases "update_item_checks V input file i")
    case (Inr r)
    obtain name cents gs m where r: "r = (name, cents, gs, m)" by (cases r)
    note c = Inr [unfolded r]
    have n: "name \<noteq> []" "given_or (in_name input) (sh_name i) (parseShopName (in_name input)) = Some name"
      "given_or (in_price input) (sh_priceCents i) (parseShopPriceDollars (in_price input)) = Some cents"
      "parseShopGrantFields V input (Some i) = Inr gs" "case m of None \<Rightarrow> True | Some m \<Rightarrow> requireProcessedImage V file = Inr m"
      using c by (auto simp: update_item_checks_def split: if_splits option.splits sum.splits)
    have m: "case m of None \<Rightarrow> True | Some m \<Rightarrow> pi_ext m = ''webp'' \<and> pi_mime m = ''image/webp''"
      using n(5) processed_image by (auto split: option.splits)
    obtain disk' where d: "replaceImage V (sh_orgId i) i m disk = (Inr (), disk')" "others_same V (sh_id i) disk disk'"
      "pictured V disk' (edited input name cents gs m i)"
      using replaceImage_result [OF i [THEN conjunct2, THEN conjunct2, THEN conjunct2, THEN conjunct2] m] by metis
    have names: "length name \<le> MAX_SHOP_NAME" "MIN_SHOP_PRICE_CENTS \<le> cents" "cents \<le> MAX_SHOP_PRICE_CENTS"
      using n(2,3) i parseShopName_ok parseShopPrice_ok by (auto simp: given_or_def item_ok_def split: if_splits)
    have "item_ok (edited input name cents gs m i)"
      using n(1) names grants_okI [OF n(4), of "edited input name cents gs m i"] by (auto simp: item_ok_def edited_def)
    then have "shop_ok V (w\<lparr>shopItems := updateRow sh_id k (edited input name cents gs m) (shopItems w)\<rparr>, disk')"
      using i d by (intro shop_ok_update [OF ok]) (auto simp: edited_def)
    then show ?thesis using Some c d i by (simp add: update_item_def shop_ok_def)
  qed (simp add: update_item_def Some ok)
qed (simp add: update_item_def ok)

lemma remove_keeps:
  assumes ok: "shop_ok V (w, disk)"
  shows "shop_ok V (snd (remove_item V orgId userId k (w, disk)))"
proof (cases "item_of_org orgId k w")
  case (Some i)
  obtain r disk' where d: "unlinkImages V orgId k (sh_imageExt i) disk = (r, disk')" by (cases "unlinkImages V orgId k (sh_imageExt i) disk")
  have "countRows p (filter q rows) \<le> countRows p rows" for p q and rows :: "shopItem list"
    by (induction rows) auto
  then have "countRows (\<lambda>i. sh_orgId i = o') (shopItems (delete_item k w)) \<le> MAX_SHOP_ITEMS" for o'
    using ok unfolding shop_ok_def delete_item_def deleteMany_def by simp (metis order_trans)
  moreover have "distinct (map sh_id (shopItems (delete_item k w)))"
    using ok by (simp add: shop_ok_def delete_item_def deleteMany_def distinct_map_filter)
  moreover have "item_ok i \<and> pictured V disk' i" if "i \<in> set (shopItems (delete_item k w))" for i
    using that ok pictured_other [OF unlinkImages_others [OF d]] by (auto simp: shop_ok_def delete_item_def deleteMany_def)
  ultimately show ?thesis by (cases r) (simp_all add: remove_item_def Some d shop_ok_def)
qed (simp add: remove_item_def ok)

definition item_keys :: "world \<Rightarrow> (id \<times> id) list" where
  "item_keys w = map (\<lambda>i. (sh_id i, sh_orgId i)) (shopItems w)"

lemma reprocess_row_keeps:
  assumes ok: "shop_ok V (w, disk)" and row: "(sh_id row, sh_orgId row) \<in> set (item_keys w)"
    and run: "reprocess_row V (r, w, disk) row = (r', w', disk')"
  shows "shop_ok V (w', disk') \<and> item_keys w' = item_keys w"
proof (cases "(r', w', disk') = (r', w, disk)")
  case False
  let ?k = "sh_id row"
  obtain i where i: "i \<in> set (shopItems w)" "sh_id i = ?k" "sh_orgId i = sh_orgId row" using row by (auto simp: item_keys_def)
  have u: "findUnique sh_id ?k (shopItems w) = Some i" and io: "item_ok i" "pictured V disk i"
    using ok i findUnique_unique [of sh_id "shopItems w" i] by (auto simp: shop_ok_def)
  obtain e mp n where e: "e = opt_or (sh_imageExt row) []" "e \<noteq> []" "shopImagePath (sv_root V) (sh_orgId row) ?k e False = Inr mp"
    "normalizeShopImage V (the (disk mp)) = Inr n" "disk mp \<noteq> None"
    using run False by (auto simp: reprocess_row_def Let_def split: if_splits sum.splits option.splits)
  have ids: "id_ok (sh_orgId row)" "id_ok ?k" "e \<in> {''jpg'', ''png'', ''webp''}" using e(3) by (simp_all add: shop_path)
  obtain d1 where d1: "writeImage V (sh_orgId row) ?k n disk = (Inr (), d1)" "others_same V ?k disk d1"
    using writeImage_result [OF ids(1,2)] by metis
  have web: "\<forall>t. stored V d1 (sh_orgId row) ?k ''webp'' t" and kept: "\<And>e t. stored V disk (sh_orgId row) ?k e t \<Longrightarrow> stored V d1 (sh_orgId row) ?k e t"
    using writeImage_result [OF ids(1,2), of V n disk] d1(1) by (metis Pair_inject)+
  have n: "pi_ext n = ''webp''" "pi_mime n = ''image/webp''" using e(4) by (auto simp: normalizeShopImage_def split: option.splits)
  show ?thesis
  proof (cases "e = ''webp''")
    case True
    have "w' = w" "disk' = d1" using run e d1(1) n True by (auto simp: reprocess_row_def Let_def split: option.splits)
    moreover have "shop_ok V (w, d1)"
      by (rule shop_ok_update [OF ok u, of "\<lambda>i. i"]) (use i io d1 kept in \<open>auto simp: pictured_def updateRow_map\<close>)
    ultimately show ?thesis by simp
  next
    case False
    obtain d2 where d2: "unlinkImages V (sh_orgId row) ?k (Some e) d1 = (Inr (), d2)"
      "\<And>e' t. e' \<noteq> e \<Longrightarrow> stored V d2 (sh_orgId row) ?k e' t = stored V d1 (sh_orgId row) ?k e' t"
      using unlinkImages_result [OF ids] by metis
    let ?f = "\<lambda>i. i\<lparr>sh_imageExt := Some (pi_ext n), sh_imageMime := Some (pi_mime n)\<rparr>"
    have w': "w' = w\<lparr>shopItems := updateRow sh_id ?k ?f (shopItems w)\<rparr>" "disk' = d2"
      using run e d1(1) d2(1) n False by (auto simp: reprocess_row_def Let_def split: option.splits)
    have web2: "\<forall>t. stored V d2 (sh_orgId row) ?k ''webp'' t" using web d2(2) [of "''webp''"] False by metis
    have "shop_ok V (w', disk')"
    proof (rule shop_ok_update [OF ok u, of ?f])
      show "item_ok (?f i)" using io(1) by (simp add: item_ok_def grants_ok_def)
      show "pictured V disk' (?f i)" using web2 by (simp add: pictured_def n i(2,3) w'(2))
      show "others_same V ?k disk disk'" using others_trans [OF d1(2) unlinkImages_others [OF d2(1)]] by (simp add: w'(2))
    qed (simp_all add: i w')
    moreover have "item_keys w' = item_keys w" by (simp add: item_keys_def w'(1) updateRow_map)
    ultimately show ?thesis by simp
  qed
qed (use ok in simp)

lemma reprocess_keeps:
  assumes "shop_ok V (w, disk)"
  shows "shop_ok V (snd (reprocessAllImages V (w, disk)))"
proof -
  have "shop_ok V (snd (foldl (reprocess_row V) (r, w, disk) rows))"
    if "shop_ok V (w, disk)" "\<forall>row \<in> set rows. (sh_id row, sh_orgId row) \<in> set (item_keys w)" for r w disk rows
    using that
  proof (induction rows arbitrary: r w disk)
    case (Cons row rows)
    obtain r' w' disk' where run: "reprocess_row V (r, w, disk) row = (r', w', disk')" by (metis prod_cases3)
    have "shop_ok V (w', disk') \<and> item_keys w' = item_keys w"
      using reprocess_row_keeps [OF Cons.prems(1) _ run] Cons.prems(2) by simp
    then show ?case using Cons.IH [of w' disk' r'] Cons.prems(2) run by simp
  qed simp
  moreover have "\<forall>row \<in> set (filter (\<lambda>i. sh_imageExt i \<noteq> None) (shopItems w)). (sh_id row, sh_orgId row) \<in> set (item_keys w)"
    by (auto simp: item_keys_def)
  ultimately show ?thesis using assms unfolding reprocessAllImages_def by simp
qed

lemma shop_step_keeps: "shop_step V s s' \<Longrightarrow> shop_ok V s \<Longrightarrow> shop_ok V s'"
proof (induction rule: shop_step.induct)
  case (create orgId s userId input f now)
  then show ?case using create_keeps by (metis prod.collapse)
next
  case (update s orgId userId itemId input f)
  then show ?case using update_keeps by (metis prod.collapse)
next
  case (remove s orgId userId itemId)
  then show ?case using remove_keeps by (metis prod.collapse)
next
  case (reprocess s)
  then show ?case using reprocess_keeps by (metis prod.collapse)
qed

text \<open>A stored list of grants is read back as it was checked.\<close>

lemma name_not_blank: "name_wf s \<Longrightarrow> trim s = s \<and> s \<noteq> []"
  using trim_no_ws [OF item_name_no_ws, of s] by (auto simp: name_wf_def GRANT_ITEM_NAME_def)

lemma parse_rows_specs: "list_all spec_wf gs \<Longrightarrow> parse_rows (map spec_json gs) = Some gs"
proof (induction gs)
  case (Cons g gs)
  then show ?case using name_not_blank [of "g_name g"]
    by (simp add: spec_json_def is_object_def name_raw_def quantity_raw_def field_def get_def coalesce_def nullish_def
        spec_wf_def parseGrantItemName_id parseGrantQuantity_id)
qed simp

lemma parse_grants_column:
  assumes "list_all spec_wf gs" and "length gs \<le> MAX_GRANT_ITEMS"
  shows "parseGrantItemList pj (grants_column gs) = Some gs"
  using assms parse_rows_specs by (simp add: parseGrantItemList_def grants_column_def nullish_def Let_def)

lemma shown_is_granted:
  assumes "grants_ok i gs"
  shows "viewGrantItems V i = gs \<and> shop_grants (sv_env V) (Some i) = snapshotLineGrants gs"
proof -
  have p: "parseGrantItemList (e_parseJson (sv_env V)) (sh_grantItems i) = Some gs"
    using assms parse_grants_column by (simp add: grants_ok_def)
  have nil: "parseGrantItemList pj (Arr []) = Some []" for pj by (simp add: parseGrantItemList_def nullish_def)
  show ?thesis using assms p nil
    by (cases gs) (simp_all add: viewGrantItems_def shop_grants_def grants_ok_def legacy_rows_def first_name_def opt_or_def)
qed

lemma picture_served:
  assumes "pictured V disk i" and "distinct (map sh_id (shopItems w))" and "i \<in> set (shopItems w)"
  shows "\<exists>m b. fst (shop_image V (sh_orgId i) (sh_id i) False sz (w, disk)) = Inr (m, b)"
proof -
  obtain e m where e: "sh_imageExt i = Some e" "sh_imageMime i = Some m" "m \<noteq> []" "\<And>t. stored V disk (sh_orgId i) (sh_id i) e t"
    using assms(1) unfolding pictured_def by blast
  obtain mp tp bm bt where p: "shopImagePath (sv_root V) (sh_orgId i) (sh_id i) e False = Inr mp"
    "shopImagePath (sv_root V) (sh_orgId i) (sh_id i) e True = Inr tp" "disk mp = Some bm" "disk tp = Some bt"
    using e(4) [of False] e(4) [of True] by (auto simp: stored_def split: sum.splits)
  have "e \<noteq> []" using p(1) by (auto simp: shop_path)
  moreover have "List.find (\<lambda>j. sh_id j = sh_id i \<and> sh_orgId j = sh_orgId i) (shopItems w) = Some i"
    by (rule find_distinct [OF assms(2,3)]) auto
  ultimately show ?thesis using e(1-3) p by (cases sz) (simp_all add: shop_image_def thumbOf_def opt_or_def)
qed

text \<open>C25: the shop keeps what it sells in order. Whatever administrators create, change, remove or convert, from a
  shop in order on, every item has a name of 1 to 80 characters and a price of 1 to 500 dollars, its
  organization has at most 50 items, its picture is served in both sizes, the items it grants are valid, and
  what is shown of it is what a purchase of it will deliver.\<close>

theorem shop_stays_servable:
  assumes "shop_ok V s" and "(shop_step V)\<^sup>*\<^sup>* s s'" and "i \<in> set (shopItems (fst s'))"
  shows "sh_name i \<noteq> [] \<and> length (sh_name i) \<le> 80 \<and> 100 \<le> sh_priceCents i \<and> sh_priceCents i \<le> 50000 \<and>
    countRows (\<lambda>j. sh_orgId j = sh_orgId i) (shopItems (fst s')) \<le> 50 \<and>
    (\<exists>m b. fst (shop_image V (sh_orgId i) (sh_id i) False sz s') = Inr (m, b)) \<and>
    list_all spec_wf (viewGrantItems V i) \<and> shop_grants (sv_env V) (Some i) = snapshotLineGrants (viewGrantItems V i)"
proof -
  have ok: "shop_ok V s'" using assms(2,1) shop_step_keeps by (induction rule: rtranclp_induct) blast+
  then have io: "item_ok i" "pictured V (snd s') i" and dist: "distinct (map sh_id (shopItems (fst s')))"
    and few: "countRows (\<lambda>j. sh_orgId j = sh_orgId i) (shopItems (fst s')) \<le> 50"
    using assms(3) by (simp_all add: shop_ok_def MAX_SHOP_ITEMS_def)
  obtain gs where "grants_ok i gs" using io(1) by (auto simp: item_ok_def)
  then show ?thesis
    using shown_is_granted [of i gs V] io(1) few picture_served [OF io(2) dist assms(3)]
    by (simp add: item_ok_def grants_ok_def MAX_SHOP_NAME_def MIN_SHOP_PRICE_CENTS_def MAX_SHOP_PRICE_CENTS_def)
qed

definition sample_gallery :: shopEnv where
  "sample_gallery = \<lparr>sv_env = sample_env, sv_portal = sample_portal, sv_root = ''/up'', sv_sharp = (\<lambda>b n. Some (take n b))\<rparr>"

definition sample_offer :: shopInput where
  "sample_offer = \<lparr>in_name = Str '' Ten  diamonds'', in_description = Undefined, in_price = Str ''4.99'', in_active = Undefined,
     in_grantItemName = Str ''diamond'', in_grantQuantity = Str ''10'', in_grantItems = Undefined\<rparr>"

definition sample_png :: bytes where
  "sample_png = [0x89, 0x50, 0x4e, 0x47, 0x0d, 0x0a, 0x1a, 0x0a]"

definition sample_empty :: world where
  "sample_empty = empty_world (\<lambda>n. ''item-00000'' @ nat_str n)"

definition sample_thumbs :: processedImage where
  "sample_thumbs = \<lparr>pi_master = sample_png, pi_thumb = sample_png, pi_ext = ''webp'', pi_mime = ''image/webp''\<rparr>"

definition sample_market :: "world \<times> disk" where
  "sample_market = snd (create_item sample_gallery ''org-000001'' ''u'' sample_offer
     (Some sample_png) 5 (sample_empty, \<lambda>_. None))"

lemma sample_ids: "id_ok ''org-000001''" "id_ok (next_id sample_empty)"
  by code_simp+

lemma sample_market_step: "shop_step sample_gallery (sample_empty, \<lambda>_. None) sample_market"
  unfolding sample_market_def
proof (rule shop_step.create)
qed (use sample_ids in \<open>simp_all add: sample_empty_def empty_world_def\<close>)

lemma sample_picture: "requireProcessedImage sample_gallery (Some sample_png) = Inr sample_thumbs"
  by (simp add: requireProcessedImage_def opt_or_def MAX_SHOP_IMAGE_BYTES_def detectShopImage_def normalizeShopImage_def sample_gallery_def
      SHOP_IMAGE_MASTER_MAX_PX_def SHOP_IMAGE_THUMB_MAX_PX_def sample_png_def sample_thumbs_def Let_def)

lemma sample_checks:
  "create_checks sample_gallery ''org-000001'' sample_offer (Some sample_png) sample_empty =
     Inr (''Ten diamonds'', 499, [\<lparr>g_name = ''diamond'', g_quantity = 10\<rparr>], sample_thumbs)"
proof -
  have "parseShopName (in_name sample_offer) = Some ''Ten diamonds''" by code_simp
  moreover have "parseShopPriceDollars (in_price sample_offer) = Some 499" by code_simp
  moreover have "parseShopGrantFields sample_gallery sample_offer None = Inr [\<lparr>g_name = ''diamond'', g_quantity = 10\<rparr>]" by code_simp
  ultimately show ?thesis by (simp add: create_checks_def sample_picture sample_empty_def empty_world_def MAX_SHOP_ITEMS_def)
qed

theorem shop_stays_servable_witness:
  "\<exists>i. shopItems (fst sample_market) = [i] \<and> sh_name i = ''Ten diamonds'' \<and> sh_priceCents i = 499 \<and>
     (\<exists>m b. fst (shop_image sample_gallery (sh_orgId i) (sh_id i) False ThumbSize sample_market) = Inr (m, b)) \<and>
     list_all spec_wf (viewGrantItems sample_gallery i)"
proof -
  obtain disk' where "writeImage sample_gallery ''org-000001'' (next_id sample_empty) sample_thumbs (\<lambda>_. None) = (Inr (), disk')"
    using writeImage_result [OF sample_ids] by metis
  then have "map (\<lambda>i. (sh_name i, sh_priceCents i)) (shopItems (fst sample_market)) = [(''Ten diamonds'', 499)]"
    by (simp add: sample_market_def create_item_def sample_checks Let_def) (simp add: sample_empty_def empty_world_def)
  then obtain i where i: "shopItems (fst sample_market) = [i]" "sh_name i = ''Ten diamonds''" "sh_priceCents i = 499" by auto
  have "shop_ok sample_gallery (sample_empty, \<lambda>_. None)"
    by (simp add: shop_ok_def sample_empty_def empty_world_def MAX_SHOP_ITEMS_def)
  from shop_stays_servable [OF this r_into_rtranclp [where r = "shop_step sample_gallery", OF sample_market_step], of i ThumbSize] i show ?thesis by auto
qed

end
