(* ===== verification/Answers.thy ===== *)
theory Answers
  imports Job_Report
begin

text \<open>
  Whether a queued job is ever answered: the path through jobs-queue.service.ts,
  jobs.service.ts and agents.controller.ts that starts with an entry of an organization's queue
  and ends in \<open>waitForJobOutput\<close>. A host that keeps polling is handed the entry, the run is
  started on that host and stays running through the host's other polls, its report is then
  accepted, and whoever waits for the run's output gets exactly what the host reported.
\<close>

section \<open>What a turn of the poll does to a run\<close>

lemma markJobRunStarted_frame:
  "orgQueues (markJobRunStarted h i now w) = orgQueues w"
  by (simp add: markJobRunStarted_def recordJobRunStarted_def emitProgress_def set_run_def set_batch_def Let_def
      split: option.split)

lemma markJobRunStarted_run:
  "find_run k (markJobRunStarted h i now w) =
     (if k = i then map_option (\<lambda>r. if jr_hostId r = h \<and> jr_status r = Pending
        then r\<lparr>jr_status := Running, jr_startedAt := Some now\<rparr> else r) (find_run k w)
      else find_run k w)"
proof -
  have same: "find_run k (recordJobRunStarted o' j v) = find_run k v" for o' j v k
    by (rule find_run_same) simp
  show ?thesis
    by (auto simp: markJobRunStarted_def Let_def same find_run_set_run split: option.split)
qed

lemma poll_once_Some:
  assumes "poll_once E orgId h False now w = (Some e, w')" and "e_removable E = (\<lambda>_. True)"
  obtains w1 where "getNextJobForHost (e_getJobs E) (\<lambda>_. True) orgId h False w = (Some e, w1)"
    and "w' = markJobRunStarted h (q_jobRunId e) now w1"
  using assms by (auto simp: poll_once_def split: prod.splits option.splits)

lemma poll_once_None:
  assumes "poll_once E orgId h False now w = (None, w')" and "e_removable E = (\<lambda>_. True)"
  shows "getNextJobForHost (e_getJobs E) (\<lambda>_. True) orgId h False w = (None, w')"
  using assms by (auto simp: poll_once_def split: prod.splits option.splits)

lemma getNextJobForHost_runs:
  "getNextJobForHost G R orgId h b w = (x, w') \<Longrightarrow> jobRuns w' = jobRuns w"
  by (auto simp: getNextJobForHost_def remove_entry_def split: option.splits)

text \<open>A turn of the poll is a claim on the queue too.\<close>

lemma poll_once_claims:
  assumes fair: "fair_listing (e_getJobs E)" and rem: "e_removable E = (\<lambda>_. True)"
  shows "claim_queue (\<lambda>w. orgQueues w orgId) (small_queue orgId) (\<lambda>e. q_hostId e = h) (poll_once E orgId h False now)"
proof
  note q = poll_claim_queue [OF fair, of orgId h]
  fix w e w'
  assume ok: "small_queue orgId w" and c: "poll_once E orgId h False now w = (Some e, w')"
  from poll_once_Some [OF c rem] obtain w1
    where g: "getNextJobForHost (e_getJobs E) (\<lambda>_. True) orgId h False w = (Some e, w1)"
      and w': "w' = markJobRunStarted h (q_jobRunId e) now w1" .
  have "orgQueues w' = orgQueues w1" by (simp add: w' markJobRunStarted_frame)
  with claim_queue.claim_Some [OF q ok g]
  show "small_queue orgId w' \<and> q_hostId e = h \<and> e \<in> set (orgQueues w orgId) \<and> orgQueues w' orgId = remove1 e (orgQueues w orgId)"
    unfolding small_queue_def queue_wf_def by metis
next
  fix w w'
  assume ok: "small_queue orgId w" and c: "poll_once E orgId h False now w = (None, w')"
  from claim_queue.claim_None [OF poll_claim_queue [OF fair, of orgId h] ok poll_once_None [OF c rem]]
  show "w' = w \<and> filter (\<lambda>e. q_hostId e = h) (orgQueues w orgId) = []" .
qed

interpretation turns: claim_queue "\<lambda>w. orgQueues w orgId" "small_queue orgId" "\<lambda>e. q_hostId e = h"
    "poll_once (E\<lparr>e_getJobs := take 500, e_removable := (\<lambda>_. True)\<rparr>) orgId h False now"
  for orgId h E now
  by (rule poll_once_claims) (simp_all add: fair_take)

section \<open>The run of an entry while its host polls\<close>

text \<open>The run \<open>i\<close> of the host \<open>h\<close> is under way: waiting or started.\<close>

definition under_way :: "id \<Rightarrow> id \<Rightarrow> world \<Rightarrow> bool" where
  "under_way h i w \<longleftrightarrow> (case find_run i w of None \<Rightarrow> False
     | Some r \<Rightarrow> jr_hostId r = h \<and> (jr_status r = Pending \<or> jr_status r = Running))"

definition started :: "id \<Rightarrow> id \<Rightarrow> world \<Rightarrow> bool" where
  "started h i w \<longleftrightarrow> (case find_run i w of None \<Rightarrow> False | Some r \<Rightarrow> jr_hostId r = h \<and> jr_status r = Running)"

lemma started_under_way: "started h i w \<Longrightarrow> under_way h i w"
  by (auto simp: started_def under_way_def split: option.splits)

lemma poll_once_run:
  assumes "poll_once E orgId h False now w = (x, w')"
  shows "under_way h i w \<Longrightarrow> under_way h i w'" and "started h i w \<Longrightarrow> started h i w'"
    and "x = Some e \<Longrightarrow> under_way h (q_jobRunId e) w \<Longrightarrow> started h (q_jobRunId e) w'"
proof -
  obtain w1 where g: "getNextJobForHost (e_getJobs E) (e_removable E) orgId h False w = (x, w1)"
    and w': "w' = (case x of None \<Rightarrow> w1 | Some e \<Rightarrow> markJobRunStarted h (q_jobRunId e) now w1)"
    using assms by (auto simp: poll_once_def split: prod.splits option.splits)
  note same = find_run_same [OF getNextJobForHost_runs [OF g]]
  show "under_way h i w \<Longrightarrow> under_way h i w'" "started h i w \<Longrightarrow> started h i w'"
    "x = Some e \<Longrightarrow> under_way h (q_jobRunId e) w \<Longrightarrow> started h (q_jobRunId e) w'"
    unfolding w' by (auto simp: under_way_def started_def same markJobRunStarted_run split: option.splits)
qed

lemma polls_keep_started:
  "polls (poll_once E orgId h False now) n w = (es, w') \<Longrightarrow> started h i w \<Longrightarrow> started h i w'"
proof (induction n arbitrary: w es)
  case (Suc n)
  obtain x w1 where c: "poll_once E orgId h False now w = (x, w1)" by fastforce
  from poll_once_run(2) [OF c Suc.prems(2)] have "started h i w1" .
  moreover obtain es1 where "polls (poll_once E orgId h False now) n w1 = (es1, w')"
    using Suc.prems(1) c by (auto split: option.splits prod.splits)
  ultimately show ?case using Suc.IH by blast
qed simp

lemma polls_start:
  "polls (poll_once E orgId h False now) n w = (es, w') \<Longrightarrow> e \<in> set es \<Longrightarrow> under_way h (q_jobRunId e) w \<Longrightarrow>
     started h (q_jobRunId e) w'"
proof (induction n arbitrary: w es)
  case (Suc n)
  let ?claim = "poll_once E orgId h False now"
  obtain x w1 where c: "?claim w = (x, w1)" by fastforce
  obtain es1 where r: "polls ?claim n w1 = (es1, w')" and es: "es = (case x of None \<Rightarrow> es1 | Some a \<Rightarrow> a # es1)"
    using Suc.prems(1) c by (auto split: option.splits prod.splits)
  show ?case
  proof (cases "x = Some e")
    case True
    from polls_keep_started [OF r poll_once_run(3) [OF c True Suc.prems(3)]] show ?thesis .
  next
    case False
    with Suc.prems(2) es have "e \<in> set es1" by (auto split: option.splits)
    from Suc.IH [OF r this poll_once_run(1) [OF c Suc.prems(3)]] show ?thesis .
  qed
qed simp

lemma polls_sound: "polls (poll_once E orgId h b now) n w = (es, w') \<Longrightarrow> sound w w'"
proof (induction n arbitrary: w es)
  case (Suc n)
  obtain x w1 where c: "poll_once E orgId h b now w = (x, w1)" by fastforce
  have "sound w w1" using poll_once_sound [of w E orgId h b now] by (simp add: c)
  moreover obtain es1 where "polls (poll_once E orgId h b now) n w1 = (es1, w')"
    using Suc.prems c by (auto split: option.splits prod.splits)
  ultimately show ?case using Suc.IH sound.trans_R by blast
qed (simp add: sound.refl_R)

section \<open>The answer\<close>

lemma report_output:
  "get (report_result E job s dto) ''output'' = js_opt (dto_output dto)"
  by (simp add: report_result_def get_def)

text \<open>A successful report of a started run is accepted and is what the waiting request reads next.\<close>

lemma report_answers:
  assumes wf: "store_wf w" and st: "started h i w" and ok: "dto_status dto = ''success''"
    and rep: "reportJobResult E h i dto now w = (x, w')"
  shows "x = Inr () \<and> waitForJobOutput i (w' # ws) = Inr (opt_or (dto_output dto) [])"
  using wf rep
proof (cases rule: reportJobResult_cases)
  case (refused e)
  with st show ?thesis by (auto simp: started_def split: option.splits)
next
  case (accepted run job s y w2)
  let ?f = "\<lambda>r. r\<lparr>jr_status := s, jr_finishedAt := Some now, jr_result := y\<rparr>"
  obtain rs where "jobRuns w2 = jobRuns (set_run i ?f w) @ rs" using accepted(7) by (auto simp: jobs_ext_def)
  moreover have "jobRuns w' = jobRuns w2" using accepted(8) by simp
  ultimately have "find_run i w' = Some (?f run)"
    using find_run_set_run [of ?f i i w] accepted(2) by (simp add: find_run_def findUnique_append)
  with accepted(1,6,9) ok show ?thesis
    by (simp add: report_output js_opt_def opt_or_def split: option.split)
qed



end
