(* ===== verification/Confined.thy ===== *)
theory Confined
  imports Api Sessions Rewards
begin

text \<open>
  What a request to an organization can change (Api.thy, all controllers of the user interface). Every
  organization has settings (its row with the stored keys, its members, its pairing tokens, its shop) and a fleet
  (hosts, servers and their protection settings, schedules, triggers, alert rules, batches, two numbers of its row).

  Shown: a request changes settings and fleet of no organization but the one it names; the settings change only for its
  administrators, the fleet only for its administrators and operators; everyone else changes neither.
\<close>

section \<open>What an organization has\<close>

definition rows_of :: "('r \<Rightarrow> id) \<Rightarrow> id \<Rightarrow> 'r list \<Rightarrow> 'r list" where
  "rows_of org o' rs = filter (\<lambda>r. org r = o') rs"

definition without_numbers :: "org \<Rightarrow> org" where
  "without_numbers r = r\<lparr>o_healthIntervalSec := 0, o_logRetentionDays := 0\<rparr>"

definition without_host :: "pairingToken \<Rightarrow> pairingToken" where
  \<comment> \<open>the reference to the host it paired is cleared when the host is removed\<close>
  "without_host t = t\<lparr>pt_usedByHostId := None\<rparr>"

definition without_counts :: "trigger \<Rightarrow> trigger" where
  "without_counts t = t\<lparr>t_lastFiredAt := None, t_fireCount := 0\<rparr>"

definition org_settings :: "id \<Rightarrow> world \<Rightarrow> org list \<times> userOrg list \<times> pairingToken list \<times> shopItem list" where
  "org_settings o' w =
     (map without_numbers (rows_of o_id o' (orgs w)), rows_of uo_orgId o' (userOrgs w),
      map without_host (rows_of pt_orgId o' (pairingTokens w)), rows_of sh_orgId o' (shopItems w))"

definition own_server :: "id \<Rightarrow> world \<Rightarrow> id \<Rightarrow> bool" where
  "own_server o' w i \<longleftrightarrow> i \<in> si_id ` set (rows_of si_orgId o' (serverInstances w))"

definition protection_on :: "id \<Rightarrow> world \<Rightarrow> id \<Rightarrow> protection" where
  \<comment> \<open>a server without a row has the defaults\<close>
  "protection_on o' w i = (if own_server o' w i then opt_or (findUnique pr_serverInstanceId i (protections w)) (default_protection i) else default_protection i)"

definition org_fleet :: "id \<Rightarrow> world \<Rightarrow>
    (int \<times> int) list \<times> host list \<times> serverInstance list \<times> schedule list \<times> trigger list \<times> alertRule list \<times> jobBatch list \<times> (id \<Rightarrow> protection)" where
  \<comment> \<open>schedules and triggers that are on a server of the organization\<close>
  "org_fleet o' w =
     (map (\<lambda>r. (o_healthIntervalSec r, o_logRetentionDays r)) (rows_of o_id o' (orgs w)), rows_of h_orgId o' (hosts w), rows_of si_orgId o' (serverInstances w),
      filter (\<lambda>s. own_server o' w (sc_serverInstanceId s)) (rows_of sc_orgId o' (schedules w)),
      filter (\<lambda>t. own_server o' w (t_serverInstanceId t)) (rows_of t_orgId o' (map without_counts (triggers w))),
      rows_of ar_orgId o' (alertRules w), rows_of b_orgId o' (jobBatches w), protection_on o' w)"

definition primary_keys :: "world \<Rightarrow> bool" where
  "primary_keys w \<longleftrightarrow>
     distinct (map h_id (hosts w)) \<and> distinct (map si_id (serverInstances w)) \<and> distinct (map sc_id (schedules w)) \<and>
     distinct (map t_id (triggers w)) \<and> distinct (map ar_id (alertRules w)) \<and> distinct (map b_id (jobBatches w)) \<and> distinct (map sh_id (shopItems w))"

lemma primary_keysD:
  assumes "primary_keys w"
  shows "distinct (map h_id (hosts w))" "distinct (map si_id (serverInstances w))" "distinct (map sc_id (schedules w))"
    "distinct (map t_id (triggers w))" "distinct (map ar_id (alertRules w))" "distinct (map b_id (jobBatches w))" "distinct (map sh_id (shopItems w))"
  using assms by (simp_all add: primary_keys_def)

section \<open>Rows of other organizations\<close>

lemma rows_append [simp]: "rows_of org o' (rs @ [x]) = rows_of org o' rs @ (if org x = o' then [x] else [])"
  by (simp add: rows_of_def)

lemma rows_update:
  assumes "\<And>r. r \<in> set rs \<Longrightarrow> key r = k \<Longrightarrow> org r = X" and "\<And>r. org (f r) = org r" and "o' \<noteq> X"
  shows "rows_of org o' (updateRow key k f rs) = rows_of org o' rs"
  using assms by (induction rs) (auto simp: rows_of_def updateRow_def updateMany_def)

lemma rows_delete:
  assumes "\<And>r. r \<in> set rs \<Longrightarrow> key r = k \<Longrightarrow> org r = X" and "o' \<noteq> X"
  shows "rows_of org o' (deleteMany (\<lambda>r. key r = k) rs) = rows_of org o' rs"
  using assms unfolding rows_of_def deleteMany_def filter_filter by (intro filter_cong) auto

lemma rows_masked:
  assumes "\<And>r. org (f r) = org r" and "\<And>r. m (f r) = m r"
  shows "map m (rows_of org o' (updateMany p f rs)) = map m (rows_of org o' rs)"
  using assms by (induction rs) (auto simp: rows_of_def updateMany_def)

lemma find_ex: "x \<in> set rs \<Longrightarrow> P x \<Longrightarrow> \<exists>y. List.find P rs = Some y"
  by (induction rs) auto

lemma found_one:
  assumes "distinct (map key rs)" and "List.find (\<lambda>r. key r = k \<and> P r) rs = Some x" and "r \<in> set rs" and "key r = k"
  shows "r = x"
proof -
  have "x \<in> set rs \<and> key x = k" using find_in [OF assms(2)] by simp
  then show ?thesis using assms(1,3,4) by (auto simp: distinct_map inj_on_def)
qed

section \<open>Changes that touch nothing of this\<close>

definition plain :: "world \<Rightarrow> world \<Rightarrow> bool" where
  "plain w w' \<longleftrightarrow>
     orgs w' = orgs w \<and> userOrgs w' = userOrgs w \<and> pairingTokens w' = pairingTokens w \<and> shopItems w' = shopItems w \<and> hosts w' = hosts w \<and>
     serverInstances w' = serverInstances w \<and> schedules w' = schedules w \<and> map without_counts (triggers w') = map without_counts (triggers w) \<and>
     alertRules w' = alertRules w \<and> jobBatches w' = jobBatches w \<and> protections w' = protections w"

interpretation plain: state_preorder plain
  by unfold_locales (auto simp: plain_def)

lemma plain_same: "plain w w' \<Longrightarrow> org_settings o' w' = org_settings o' w \<and> org_fleet o' w' = org_fleet o' w"
  by (auto simp: plain_def org_settings_def org_fleet_def protection_on_def own_server_def fun_eq_iff)

lemma plain_audit: "plain w (audit_row o' a n t i d w)"
  by (simp add: plain_def audit_row_def)

lemma plain_dispatch: "dispatch o' u si ty p now w = (ids, w') \<Longrightarrow> plain w w'"
  by (auto simp: dispatch_def create_job_def create_run_def addJob_def enqueue_def draw_def plain_def Let_def split: prod.splits)

lemma plain_quiet: "quiet w w' \<Longrightarrow> plain w w'"
  by (erule quietE) (simp add: plain_def)

lemma plain_internal: "enqueueInternalJob o' u sid jt p now w = (r, w') \<Longrightarrow> plain w w'"
  by (auto simp: enqueueInternalJob_def plain.refl_R split: option.splits prod.splits dest: plain_dispatch)

lemma counts_update: "map without_counts (updateRow t_id i (\<lambda>x. x\<lparr>t_lastFiredAt := a, t_fireCount := t_fireCount x + 1\<rparr>) ts) = map without_counts ts"
  by (induction ts) (auto simp: updateRow_def updateMany_def without_counts_def)

interpretation plain_rewards: rewarding plain
proof
  show "plain w (snd (enqueueInternalJob o' u sid jt p now w))" for w o' u sid jt p now
    by (rule plain_internal [OF surjective_pairing])
qed (simp_all add: set_fire_def record_fire_def draw_def release_stale_def plain_def counts_update)

lemma plain_reconcile: "plain w (reconcileNameFallback sid k n s w)"
  by (auto simp: reconcileNameFallback_def plain_def set_player_def delete_player_def Let_def split: option.split)

lemma plain_list: "plain w (snd (list_players o' sid now w))"
  unfolding list_players_def Let_def snd_conv by (intro plain.foldl_R plain_reconcile)

lemma plain_batch_job: "plain w (create_batch_job o' u b jt p now w si)"
  by (auto simp: create_batch_job_def create_job_def create_run_def enqueue_def draw_def auditJob_def audit_row_def plain_def Let_def)

lemma plain_cancel: "plain (fst s) (fst (cancel_run rm o' now s r))"
  by (auto simp: cancel_run_def set_run_def remove_entry_def plain_def Let_def split: prod.split option.split)

section \<open>Changes confined to one organization\<close>

text \<open>Only the settings of \<open>X\<close> may change, and only if \<open>a\<close>; only its fleet may change, and only if \<open>b\<close>.\<close>

definition conf :: "id \<Rightarrow> bool \<Rightarrow> bool \<Rightarrow> world \<Rightarrow> world \<Rightarrow> bool" where
  "conf X a b w w' \<longleftrightarrow>
     (\<forall>o'. o' \<noteq> X \<or> \<not> a \<longrightarrow> org_settings o' w' = org_settings o' w) \<and> (\<forall>o'. o' \<noteq> X \<or> \<not> b \<longrightarrow> org_fleet o' w' = org_fleet o' w)"

lemma conf_plain: "plain w w' \<Longrightarrow> conf X a b w w'"
  using plain_same by (simp add: conf_def)

lemma conf_refl [simp]: "conf X a b w w"
  by (simp add: conf_def)

lemma conf_then: "conf X a b w w1 \<Longrightarrow> plain w1 w2 \<Longrightarrow> conf X a b w w2"
  using plain_same by (simp add: conf_def)

lemma conf_before: "plain w w1 \<Longrightarrow> conf X a b w1 w2 \<Longrightarrow> conf X a b w w2"
  using plain_same by (simp add: conf_def)

lemma conf_weaken: "conf X a b w w' \<Longrightarrow> (a \<Longrightarrow> a') \<Longrightarrow> (b \<Longrightarrow> b') \<Longrightarrow> conf X a' b' w w'"
  by (auto simp: conf_def)

text \<open>One table at a time.\<close>

lemma rows_org: "(\<And>r. o_id (f r) = o_id r) \<Longrightarrow> o' \<noteq> X \<Longrightarrow> rows_of o_id o' (updateRow o_id X f rs) = rows_of o_id o' rs"
  by (induction rs) (auto simp: rows_of_def updateRow_def updateMany_def)

lemma conf_orgs:
  assumes "\<And>r. o_id (f r) = o_id r" and "a \<or> (\<forall>r. without_numbers (f r) = without_numbers r)"
    and "b \<or> (\<forall>r. (o_healthIntervalSec (f r), o_logRetentionDays (f r)) = (o_healthIntervalSec r, o_logRetentionDays r))"
  shows "conf X a b w (w\<lparr>orgs := updateRow o_id X f (orgs w)\<rparr>)"
proof -
  let ?w = "w\<lparr>orgs := updateRow o_id X f (orgs w)\<rparr>"
  have m: "map m (rows_of o_id o' (updateRow o_id X f (orgs w))) = map m (rows_of o_id o' (orgs w))" if "\<And>r. m (f r) = m r" for m :: "org \<Rightarrow> 'c" and o'
    unfolding updateRow_def using assms(1) that by (intro rows_masked)
  have own: "own_server o' ?w = own_server o' w" for o' by (simp add: own_server_def fun_eq_iff)
  have "org_settings o' ?w = org_settings o' w" if "o' \<noteq> X \<or> \<not> a" for o'
    using that assms(1,2) rows_org [of f o' X "orgs w"] m [of without_numbers o'] by (auto simp: org_settings_def)
  moreover have "org_fleet o' ?w = org_fleet o' w" if "o' \<noteq> X \<or> \<not> b" for o'
    using that assms(1,3) rows_org [of f o' X "orgs w"] m [of "\<lambda>r. (o_healthIntervalSec r, o_logRetentionDays r)" o']
    by (auto simp: org_fleet_def own protection_on_def fun_eq_iff)
  ultimately show ?thesis by (simp add: conf_def)
qed

lemma conf_settings:
  assumes "\<And>o'. o' \<noteq> X \<Longrightarrow> org_settings o' w' = org_settings o' w" and "orgs w' = orgs w" and "hosts w' = hosts w" and "serverInstances w' = serverInstances w"
    and "schedules w' = schedules w" and "map without_counts (triggers w') = map without_counts (triggers w)" and "alertRules w' = alertRules w"
    and "jobBatches w' = jobBatches w" and "protections w' = protections w"
  shows "conf X True b w w'"
  using assms by (auto simp: conf_def org_fleet_def own_server_def protection_on_def fun_eq_iff)

lemma conf_fleet:
  assumes "\<And>o'. o' \<noteq> X \<Longrightarrow> org_fleet o' w' = org_fleet o' w" and "orgs w' = orgs w" and "userOrgs w' = userOrgs w"
    and "map without_host (pairingTokens w') = map without_host (pairingTokens w)" and "shopItems w' = shopItems w"
  shows "conf X a True w w'"
proof -
  have "map without_host (rows_of pt_orgId o' ts) = rows_of pt_orgId o' (map without_host ts)" for o' ts
    by (induction ts) (auto simp: rows_of_def without_host_def)
  then show ?thesis using assms by (simp add: conf_def org_settings_def)
qed

text \<open>The fleet of another organization, when one table of the fleet changes.\<close>

lemma fleet_one:
  assumes "orgs w' = orgs w" and "rows_of h_orgId o' (hosts w') = rows_of h_orgId o' (hosts w)"
    and "rows_of si_orgId o' (serverInstances w') = rows_of si_orgId o' (serverInstances w)"
    and "rows_of sc_orgId o' (schedules w') = rows_of sc_orgId o' (schedules w)"
    and "rows_of t_orgId o' (map without_counts (triggers w')) = rows_of t_orgId o' (map without_counts (triggers w))"
    and "rows_of ar_orgId o' (alertRules w') = rows_of ar_orgId o' (alertRules w)"
    and "rows_of b_orgId o' (jobBatches w') = rows_of b_orgId o' (jobBatches w)"
    and "\<And>i. own_server o' w i \<Longrightarrow> findUnique pr_serverInstanceId i (protections w') = findUnique pr_serverInstanceId i (protections w)"
  shows "org_fleet o' w' = org_fleet o' w"
proof -
  have own: "own_server o' w' = own_server o' w" using assms(3) by (simp add: own_server_def fun_eq_iff)
  have "protection_on o' w' = protection_on o' w" using assms(8) own by (auto simp: protection_on_def fun_eq_iff)
  then show ?thesis using assms(1-7) own by (simp add: org_fleet_def)
qed

section \<open>Settings\<close>

lemma conf_set_org:
  assumes "\<And>r. o_id (f r) = o_id r" and "\<And>r. o_healthIntervalSec (f r) = o_healthIntervalSec r" and "\<And>r. o_logRetentionDays (f r) = o_logRetentionDays r"
  shows "conf X True b w (set_org X f w)"
  unfolding set_org_def using assms by (intro conf_orgs) auto

lemma conf_saved:
  assumes "\<And>r. o_id (f r) = o_id r" and "\<And>r. o_healthIntervalSec (f r) = o_healthIntervalSec r" and "\<And>r. o_logRetentionDays (f r) = o_logRetentionDays r"
  shows "conf X True b w (audit_org o' u n d (set_org X f w))"
  using conf_then [OF conf_set_org [OF assms] plain_audit] by (simp add: audit_org_def)

lemma conf_clear:
  assumes "\<And>r. o_id (f r) = o_id r" and "\<And>r. o_healthIntervalSec (f r) = o_healthIntervalSec r" and "\<And>r. o_logRetentionDays (f r) = o_logRetentionDays r"
    and "\<And>v. plain v (g v)"
  shows "conf X True b w (snd (clear_org X f g w))"
  using conf_then [OF conf_set_org [OF assms(1-3)] assms(4)] by (simp add: clear_org_def split: option.split)

lemma plain_audit_org: "plain v (audit_org o' u n d v)"
  by (simp add: audit_org_def plain_audit)

lemma integration_confined: "conf X True False (fst s) (fst (snd (integration_run A c X u now r s)))"
proof -
  obtain w d' u' where s: "s = (w, d', u')" by (cases s)
  show ?thesis
    by (cases r)
      (auto simp: s integration_run_def on_world_def saveRecaptchaSettings_def clearRecaptchaSettings_def saveOpenAiSettings_def clearOpenAiSettings_def
        selectModAiProvider_def saveKimiSettings_def clearKimiSettings_def saveCloudflareSettings_def clearCloudflareSettings_def
        saveDigitalOceanSettings_def clearDigitalOceanSettings_def saveMailgunSettings_def clearMailgunSettings_def saveStripeSettings_def
        clearStripeSettings_def saveMaintenancePassword_def clearMaintenancePassword_def Let_def case_prod_unfold plain.refl_R
        intro!: conf_saved conf_clear plain_audit_org split: option.split sum.split)
qed

lemma plain_user: "plain w (set_user i f w)"
  by (simp add: set_user_def plain_def)

lemma conf_members:
  assumes "\<And>o'. o' \<noteq> X \<Longrightarrow> rows_of uo_orgId o' ms = rows_of uo_orgId o' (userOrgs w)"
  shows "conf X True b w (w\<lparr>userOrgs := ms\<rparr>)"
  using assms by (intro conf_settings) (auto simp: org_settings_def)

lemma conf_add_user: "conf X True b w (add_user u X role now w)"
proof -
  have "conf X True b w (w\<lparr>userOrgs := userOrgs w @ [\<lparr>uo_userId = u_id u, uo_orgId = X, uo_role = role, uo_createdAt = now\<rparr>]\<rparr>)"
    by (intro conf_members) simp
  then show ?thesis by (rule conf_then) (simp add: plain_def add_user_def draw_def)
qed

lemma conf_leave: "conf X True b w (w\<lparr>userOrgs := deleteMany (\<lambda>m. uo_userId m = i \<and> uo_orgId m = X) (userOrgs w)\<rparr>)"
  unfolding deleteMany_def by (intro conf_members) (auto simp: rows_of_def intro!: filter_cong)

lemma account_confined: "conf X True False (fst s) (fst (snd (account_run A c X u now r s)))"
proof -
  obtain w d' u' where s: "s = (w, d', u')" by (cases s)
  show ?thesis
  proof (cases r)
    case (DeleteAccount i)
    then show ?thesis using conf_leave conf_then [OF conf_leave plain_user]
      by (auto simp: s account_run_def on_world_def deleteAccount_def case_prod_unfold Let_def split: option.split)
  next
    case (UpdateOrg x)
    then show ?thesis
      by (auto simp: s account_run_def on_world_def updateOrg_def case_prod_unfold updated_org_def plain.refl_R intro!: conf_clear split: option.split)
  qed (auto simp: s account_run_def on_world_def createAccount_def setAccountApproval_def resetAccountPassword_def conf_add_user
      case_prod_unfold Let_def intro!: conf_plain plain.trans_R [OF plain_user plain_audit] split: option.split)
qed

lemma shop_other:
  assumes "distinct (map sh_id (shopItems w))" and "item_of_org X i w = Some e"
    and "w' = w\<lparr>shopItems := updateRow sh_id i f (shopItems w)\<rparr> \<and> (\<forall>r. sh_orgId (f r) = sh_orgId r) \<or> w' = delete_item i w"
  shows "conf X True b w w'"
proof -
  have "sh_orgId r = X" if "r \<in> set (shopItems w)" "sh_id r = i" for r
    using found_one [OF assms(1) _ that, of "\<lambda>r. sh_orgId r = X" e] find_in assms(2) unfolding item_of_org_def by fastforce
  then have "rows_of sh_orgId o' (shopItems w') = rows_of sh_orgId o' (shopItems w)" if "o' \<noteq> X" for o'
    using assms(3) that rows_delete [of "shopItems w" sh_id i sh_orgId X o'] by (auto simp: delete_item_def intro!: rows_update)
  moreover have "plain (w\<lparr>shopItems := shopItems w'\<rparr>) w'" using assms(3) by (auto simp: plain_def delete_item_def)
  ultimately show ?thesis
    by (intro conf_settings) (auto simp: plain_def org_settings_def)
qed

lemma conf_item: "sh_orgId x = X \<Longrightarrow> conf X True b w ((draw w)\<lparr>shopItems := shopItems w @ [x]\<rparr>)"
  by (rule conf_settings) (auto simp: org_settings_def draw_def)

section \<open>Servers and jobs\<close>

lemma server_rows:
  assumes "distinct (map si_id (serverInstances w))" and "find_server i X w = Some e" and "o' \<noteq> X"
  shows "(\<And>r. si_orgId (f r) = si_orgId r) \<Longrightarrow> rows_of si_orgId o' (updateRow si_id i f (serverInstances w)) = rows_of si_orgId o' (serverInstances w)"
    and "rows_of si_orgId o' (deleteMany (\<lambda>s. si_id s = i) (serverInstances w)) = rows_of si_orgId o' (serverInstances w)"
    and "\<not> own_server o' w i"
proof -
  have X: "si_orgId r = X" if "r \<in> set (serverInstances w)" "si_id r = i" for r
    using found_one [OF assms(1) assms(2) [unfolded find_server_def] that] find_in [OF assms(2) [unfolded find_server_def]] by simp
  show "(\<And>r. si_orgId (f r) = si_orgId r) \<Longrightarrow> rows_of si_orgId o' (updateRow si_id i f (serverInstances w)) = rows_of si_orgId o' (serverInstances w)"
    using X assms(3) by (intro rows_update)
  show "rows_of si_orgId o' (deleteMany (\<lambda>s. si_id s = i) (serverInstances w)) = rows_of si_orgId o' (serverInstances w)"
    using X assms(3) by (intro rows_delete)
  show "\<not> own_server o' w i" using X assms(3) by (auto simp: own_server_def rows_of_def)
qed

lemma conf_servers:
  assumes "\<And>o'. o' \<noteq> X \<Longrightarrow> rows_of si_orgId o' ss = rows_of si_orgId o' (serverInstances w)"
  shows "conf X a True w (w\<lparr>serverInstances := ss\<rparr>)"
  using assms by (intro conf_fleet fleet_one) simp_all

lemma conf_update_server:
  assumes "distinct (map si_id (serverInstances w))" and "find_server i X w = Some e" and "\<And>r. si_orgId (f r) = si_orgId r"
  shows "conf X a True w (w\<lparr>serverInstances := updateRow si_id i f (serverInstances w)\<rparr>)"
  using server_rows(1) [OF assms(1,2) _ assms(3)] by (intro conf_servers) simp

lemma createJob_confined:
  assumes "primary_keys w"
  shows "conf X False (staff (role_in u X w)) w (snd (createJob E X u sid jt p now w))"
proof (cases "createJob E X u sid jt p now w")
  case (Pair r w')
  then show ?thesis
  proof (cases rule: createJob_cases)
    case (accepted ids si p1 p2 p3 w1)
    have i: "find_server (si_id si) X w = Some si" using find_in accepted(2) unfolding find_server_def by fastforce
    have "conf X False (staff (role_in u X w)) w w1"
    proof (cases "normalizeJobType jt = ''SERVER_MAINTENANCE''")
      case True
      then have "staff (role_in u X w)" using accepted(5) by (auto simp: role_check_def role_in_def split: if_splits)
      moreover have "w1 = w \<or> w1 = w\<lparr>serverInstances := updateRow si_id (si_id si) (\<lambda>s. s\<lparr>si_rebootIfDown := False\<rparr>) (serverInstances w)\<rparr>"
        using accepted(6) by (auto simp: maintenance_payload_def split: if_splits option.splits)
      ultimately show ?thesis using conf_update_server [OF primary_keysD(2) [OF assms] i, of "\<lambda>s. s\<lparr>si_rebootIfDown := False\<rparr>" False] by auto
    next
      case False
      then show ?thesis using accepted(6) by (simp add: maintenance_payload_def)
    qed
    from conf_then [OF this plain_dispatch [OF accepted(7)]] Pair show ?thesis by simp
  qed (simp add: Pair)
qed

lemma shop_confined:
  assumes "primary_keys (fst s)"
  shows "conf X True (staff (role_in u X (fst s))) (fst s) (fst (snd (shop_run A X u now r s)))"
proof -
  obtain w d' u' where s: "s = (w, d', u')" by (cases s)
  note keys = primary_keysD(7) [OF assms [unfolded s fst_conv]]
  have audit: "conf X True b v v' \<Longrightarrow> conf X True b v (audit_item X u n i d v')" for b v v' n i d
    using conf_then plain_audit by (simp add: audit_item_def)
  show ?thesis
  proof (cases r)
    case (CreateItem input pic)
    then show ?thesis by (auto simp: s shop_run_def on_shop_def create_item_def case_prod_unfold Let_def intro!: audit conf_item split: sum.split)
  next
    case (UpdateItem i input pic)
    then show ?thesis
      by (auto simp: s shop_run_def on_shop_def update_item_def case_prod_unfold Let_def edited_def
          intro!: audit shop_other [OF keys] split: option.split sum.split)
  next
    case (RemoveItem i)
    then show ?thesis
      by (auto simp: s shop_run_def on_shop_def remove_item_def case_prod_unfold Let_def intro!: audit shop_other [OF keys] split: option.split sum.split)
  next
    case (GameItems refresh)
    have "conf X True (staff (role_in u X w)) w (snd (createJob E X u sid jt p now w))" for E sid jt p
      using createJob_confined [of w X u E sid jt p now] assms by (auto simp: s intro: conf_weaken)
    then have "conf X True (staff (role_in u X w)) w v" if "createJob E X u sid jt p now w = (x, v)" for E sid jt p x v
      using that by (metis snd_conv)
    then show ?thesis using GameItems
      by (auto simp: s shop_run_def on_world_def gameItemCatalog_def split: sum.split option.split prod.split)
  qed
qed

lemma foldl_triggers: "triggers (foldl (\<lambda>v p. delete_player (p_id p) v) w ps) = triggers w"
  by (induction ps arbitrary: w) (simp_all add: delete_player_def)

lemma delete_server_confined:
  assumes "primary_keys w" and "find_server i X w = Some e"
  shows "conf X False True w (delete_server i w)"
proof (rule conf_fleet)
  let ?v = "foldl (\<lambda>v p. delete_player (p_id p) v) w (filter (\<lambda>p. p_serverInstanceId p = i) (players w))"
  have "plain w ?v" by (rule plain.foldl_R) (simp add: delete_player_def plain_def)
  moreover have "triggers ?v = triggers w"
    by (rule foldl_triggers)
  ultimately have v: "serverInstances ?v = serverInstances w" "protections ?v = protections w" "schedules ?v = schedules w" "triggers ?v = triggers w"
      "orgs ?v = orgs w" "hosts ?v = hosts w" "alertRules ?v = alertRules w" "jobBatches ?v = jobBatches w" "userOrgs ?v = userOrgs w"
      "pairingTokens ?v = pairingTokens w" "shopItems ?v = shopItems w"
    by (simp_all add: plain_def)
  note d = delete_server_def Let_def v
  show "orgs (delete_server i w) = orgs w" "userOrgs (delete_server i w) = userOrgs w" "shopItems (delete_server i w) = shopItems w"
    "map without_host (pairingTokens (delete_server i w)) = map without_host (pairingTokens w)"
    by (simp_all add: d)
  fix o' assume "o' \<noteq> X"
  note rows = server_rows [OF primary_keysD(2) [OF assms(1)] assms(2) this]
  have own: "own_server o' (delete_server i w) = own_server o' w" by (simp add: own_server_def d rows(2) fun_eq_iff)
  have schedules: "filter (\<lambda>s. own_server o' w (sc_serverInstanceId s)) (rows_of sc_orgId o' (deleteMany (\<lambda>s. sc_serverInstanceId s = i) ss)) =
      filter (\<lambda>s. own_server o' w (sc_serverInstanceId s)) (rows_of sc_orgId o' ss)" for ss
    using rows(3) by (induction ss) (auto simp: rows_of_def deleteMany_def)
  have triggers: "filter (\<lambda>s. own_server o' w (t_serverInstanceId s)) (rows_of t_orgId o' (map without_counts (deleteMany (\<lambda>s. t_serverInstanceId s = i) ts))) =
      filter (\<lambda>s. own_server o' w (t_serverInstanceId s)) (rows_of t_orgId o' (map without_counts ts))" for ts
    using rows(3) by (induction ts) (auto simp: rows_of_def deleteMany_def without_counts_def)
  have find: "k \<noteq> i \<Longrightarrow> findUnique pr_serverInstanceId k (deleteMany (\<lambda>p. pr_serverInstanceId p = i) ps) = findUnique pr_serverInstanceId k ps" for k ps
    by (induction ps) (auto simp: deleteMany_def findUnique_Cons)
  have other: "own_server o' w k \<Longrightarrow> findUnique pr_serverInstanceId k (deleteMany (\<lambda>p. pr_serverInstanceId p = i) ps) = findUnique pr_serverInstanceId k ps" for k ps
    using rows(3) by (intro find) auto
  have "protection_on o' (delete_server i w) = protection_on o' w"
    using rows(3) unfolding protection_on_def own by (auto simp: d fun_eq_iff other)
  then show "org_fleet o' (delete_server i w) = org_fleet o' w"
    unfolding org_fleet_def own by (simp add: d rows(2) schedules triggers)
qed

section \<open>The rest of the fleet\<close>

lemma conf_hosts:
  assumes "\<And>o'. o' \<noteq> X \<Longrightarrow> rows_of h_orgId o' hs = rows_of h_orgId o' (hosts w)"
  shows "conf X a True w (w\<lparr>hosts := hs\<rparr>)"
  using assms by (intro conf_fleet fleet_one) simp_all

lemma conf_schedules:
  assumes "\<And>o'. o' \<noteq> X \<Longrightarrow> rows_of sc_orgId o' rs = rows_of sc_orgId o' (schedules w)"
  shows "conf X a True w (w\<lparr>schedules := rs\<rparr>)"
  using assms by (intro conf_fleet fleet_one) simp_all

lemma conf_rules:
  assumes "\<And>o'. o' \<noteq> X \<Longrightarrow> rows_of ar_orgId o' rs = rows_of ar_orgId o' (alertRules w)"
  shows "conf X a True w (w\<lparr>alertRules := rs\<rparr>)"
  using assms by (intro conf_fleet fleet_one) simp_all

lemma conf_triggers:
  assumes "\<And>o'. o' \<noteq> X \<Longrightarrow> rows_of t_orgId o' rs = rows_of t_orgId o' (triggers w)"
  shows "conf X a True w (w\<lparr>triggers := rs\<rparr>)"
proof -
  have "rows_of t_orgId o' (map without_counts ts) = map without_counts (rows_of t_orgId o' ts)" for o' ts
    by (induction ts) (auto simp: rows_of_def without_counts_def)
  then show ?thesis using assms by (intro conf_fleet fleet_one) simp_all
qed

lemma conf_batches:
  assumes "\<And>o'. o' \<noteq> X \<Longrightarrow> rows_of b_orgId o' rs = rows_of b_orgId o' (jobBatches w)"
  shows "conf X a True w (w\<lparr>jobBatches := rs\<rparr>)"
  using assms by (intro conf_fleet fleet_one) simp_all

text \<open>A row of the organization, found by its id, is changed or deleted.\<close>

lemma rows_found:
  assumes "distinct (map key rs)" and "List.find (\<lambda>r. key r = k \<and> org r = X) rs = Some e" and "o' \<noteq> X"
  shows "(\<And>r. org (f r) = org r) \<Longrightarrow> rows_of org o' (updateRow key k f rs) = rows_of org o' rs"
    and "rows_of org o' (deleteMany (\<lambda>r. key r = k) rs) = rows_of org o' rs"
proof -
  have X: "org r = X" if "r \<in> set rs" "key r = k" for r
    using found_one [OF assms(1,2) that] find_in [OF assms(2)] by simp
  show "(\<And>r. org (f r) = org r) \<Longrightarrow> rows_of org o' (updateRow key k f rs) = rows_of org o' rs"
    using X assms(3) by (intro rows_update)
  show "rows_of org o' (deleteMany (\<lambda>r. key r = k) rs) = rows_of org o' rs"
    using X assms(3) by (intro rows_delete)
qed

lemma server_confined:
  assumes "primary_keys (fst s)"
  shows "conf X False True (fst s) (fst (snd (server_run X u now r s)))"
proof -
  obtain w d' u' where s: "s = (w, d', u')" by (cases s)
  note keys = primary_keysD(2) [OF assms [unfolded s fst_conv]]
  have audit: "conf X False True v v' \<Longrightarrow> conf X False True v (audit_row X (Some u) n t i d v')" for v v' n t i d
    using conf_then plain_audit by blast
  show ?thesis
  proof (cases r)
    case (CreateServer dto)
    have "conf X False True w ((draw w)\<lparr>serverInstances := serverInstances w @ [x]\<rparr>)" if "si_orgId x = X" for x
      using that by (intro conf_then [OF conf_servers [of X "serverInstances w @ [x]"]]) (auto simp: plain_def draw_def)
    then show ?thesis using CreateServer
      by (auto simp: s server_run_def on_world_def create_server_def case_prod_unfold Let_def intro!: audit split: sum.split)
  next
    case (UpdateServer i dto)
    have "conf X False True w (w\<lparr>serverInstances := updateRow si_id i (update_row dto g) (serverInstances w)\<rparr>)" if "find_server i X w = Some e" for g e
      using that by (intro conf_update_server [OF keys that]) (simp add: update_row_def)
    then show ?thesis using UpdateServer
      by (auto simp: s server_run_def on_world_def update_server_def case_prod_unfold intro!: audit split: sum.split option.split)
  next
    case (RemoveServer i)
    then show ?thesis using delete_server_confined assms
      by (auto simp: s server_run_def on_world_def remove_server_def case_prod_unfold intro!: audit split: option.split)
  qed
qed

lemma host_row: "map without_host (updateMany (\<lambda>t. pt_usedByHostId t = Some i) (\<lambda>t. t\<lparr>pt_usedByHostId := None\<rparr>) ts) = map without_host ts"
  by (induction ts) (auto simp: updateMany_def without_host_def)

lemma host_confined:
  assumes "primary_keys (fst s)"
  shows "conf X (\<exists>t. r = CreatePairingToken t) (\<forall>t. r \<noteq> CreatePairingToken t) (fst s) (fst (snd (host_run A c X u now r s)))"
proof -
  obtain w d' u' where s: "s = (w, d', u')" by (cases s)
  note keys = primary_keysD(1) [OF assms [unfolded s fst_conv]]
  have update: "conf X False True w (w\<lparr>hosts := updateRow h_id i f (hosts w)\<rparr>)"
    if "List.find (\<lambda>h. h_id h = i \<and> h_orgId h = X) (hosts w) = Some h" and "\<And>r. h_orgId (f r) = h_orgId r" for i h f
    using rows_found(1) [OF keys that(1) _ that(2)] by (intro conf_hosts) simp
  have audit: "conf X False True v v' \<Longrightarrow> conf X False True v (audit_row X (Some u) n t i d v')" for v v' n t i d
    using conf_then plain_audit by blast
  show ?thesis
  proof (cases r)
    case (RenameHost i name)
    then show ?thesis
      by (auto simp: s host_run_def on_world_def rename_host_def find_host_def set_host_def case_prod_unfold Let_def intro!: audit update split: option.split)
  next
    case (RemoveHost i)
    have "conf X False True w (snd (remove_host X i u w))"
    proof (cases "find_host i X w")
      case (Some h)
      show ?thesis
        using rows_found(2) [OF keys Some [unfolded find_host_def]]
        by (intro conf_fleet fleet_one) (auto simp: remove_host_def Some Let_def audit_row_def host_row)
    qed (simp add: remove_host_def)
    then show ?thesis using RemoveHost by (simp add: s host_run_def on_world_def case_prod_unfold)
  next
    case (CreatePairingToken t)
    then show ?thesis
      by (auto simp: s host_run_def on_world_def answered_def createToken_def draw_def Let_def intro!: conf_settings) (simp add: org_settings_def)
  next
    case (RotateKey i)
    then show ?thesis
      by (auto simp: s host_run_def on_world_def rotateAgentKey_def case_prod_unfold Let_def intro!: update split: option.split)
  qed
qed

lemma plain_fires: "plain w (add_fire i n now w)" "plain w (remove_fire j w)"
  by (auto simp: add_fire_def remove_fire_def plain_def split: option.split)

lemma conf_set_schedule:
  assumes "primary_keys w" and "List.find (\<lambda>s. sc_id s = i \<and> sc_orgId s = X) (schedules w) = Some e" and "\<And>r. sc_orgId (f r) = sc_orgId r"
  shows "conf X False True w (set_schedule i f w)"
  using rows_found(1) [OF primary_keysD(3) [OF assms(1)] assms(2) _ assms(3)] unfolding set_schedule_def by (intro conf_schedules) simp

lemma create_schedule_confined: "conf X False True w (snd (createSchedule E X u n sid cr jt p en now w))"
proof -
  have "conf X False True w ((draw w)\<lparr>schedules := schedules w @ [x]\<rparr>)" if "sc_orgId x = X" for x
    using that by (intro conf_then [OF conf_schedules [of X "schedules w @ [x]"]]) (auto simp: plain_def draw_def)
  then show ?thesis
    by (auto simp: createSchedule_def Let_def intro!: conf_then [OF _ plain_fires(1)] split: sum.split)
qed

lemma update_schedule_confined:
  assumes "primary_keys w"
  shows "conf X False True w (snd (updateSchedule E X i en n cr jt p now w))"
  by (auto simp: updateSchedule_def find_org_schedule_def Let_def plain.refl_R
      intro!: conf_then [OF _ plain_fires(1)] conf_then [OF _ plain_fires(2)] conf_set_schedule [OF assms] split: option.split sum.split)

lemma skip_confined:
  assumes "primary_keys w"
  shows "conf X False True w (snd (skipNextAutoRestart X sid reason now w))"
proof -
  have "List.find (\<lambda>s. sc_id s = sc_id e \<and> sc_orgId s = X) (schedules w) = Some e" if e: "e \<in> set (schedules w)" "sc_orgId e = X" for e
  proof -
    obtain y where y: "List.find (\<lambda>s. sc_id s = sc_id e \<and> sc_orgId s = X) (schedules w) = Some y"
      using find_ex [of e "schedules w" "\<lambda>s. sc_id s = sc_id e \<and> sc_orgId s = X"] e by auto
    with found_one [OF primary_keysD(3) [OF assms] y e(1)] y show ?thesis by simp
  qed
  then show ?thesis
    unfolding skipNextAutoRestart_def by (auto dest!: find_in intro!: conf_set_schedule [OF assms] split: option.split)
qed

lemma schedule_confined:
  assumes "primary_keys (fst s)"
  shows "conf X False True (fst s) (fst (snd (schedule_run A X u now r s)))"
proof -
  obtain w d' u' where s: "s = (w, d', u')" by (cases s)
  note keys = assms [unfolded s fst_conv]
  show ?thesis
  proof (cases r)
    case (SkipNext sid)
    then show ?thesis using skip_confined [OF keys] by (simp add: s schedule_run_def on_world_def answered_def case_prod_unfold)
  next
    case (CreateSchedule n sid cr jt p en)
    have "fst (snd (schedule_run A X u now r s)) \<in> {w, snd (createSchedule (ap_env A) X u n sid cr jt p en now w)}"
      using CreateSchedule by (auto simp: s schedule_run_def on_world_def case_prod_unfold split: sum.split)
    then show ?thesis using create_schedule_confined by (auto simp: s)
  next
    case (UpdateSchedule i en n cr jt p)
    then show ?thesis using update_schedule_confined [OF keys] by (simp add: s schedule_run_def on_world_def case_prod_unfold)
  next
    case (DeleteSchedule i)
    have "conf X False True w (snd (deleteSchedule X i w))"
      using rows_found(2) [OF primary_keysD(3) [OF keys]]
      by (auto simp: deleteSchedule_def find_org_schedule_def intro!: conf_schedules split: option.split)
    then show ?thesis using DeleteSchedule by (simp add: s schedule_run_def on_world_def case_prod_unfold)
  qed
qed

lemma conf_new_rule: "ar_orgId x = X \<Longrightarrow> conf X False True w ((draw w)\<lparr>alertRules := alertRules w @ [x]\<rparr>)"
  by (intro conf_then [OF conf_rules [of X "alertRules w @ [x]"]]) (auto simp: plain_def draw_def)

lemma conf_update_rule:
  assumes "primary_keys w" and "e \<in> set (alertRules w)" and "ar_id e = i" and "ar_orgId e = X" and "\<And>r. ar_orgId (f r) = ar_orgId r"
  shows "conf X False True w (w\<lparr>alertRules := updateRow ar_id i f (alertRules w)\<rparr>)" "conf X False True w (w\<lparr>alertRules := deleteMany (\<lambda>r. ar_id r = i) (alertRules w)\<rparr>)"
proof -
  obtain y where y: "List.find (\<lambda>s. ar_id s = i \<and> ar_orgId s = X) (alertRules w) = Some y"
    using find_ex [of e "alertRules w" "\<lambda>s. ar_id s = i \<and> ar_orgId s = X"] assms(2-4) by auto
  note rows = rows_found [OF primary_keysD(5) [OF assms(1)] y]
  show "conf X False True w (w\<lparr>alertRules := updateRow ar_id i f (alertRules w)\<rparr>)"
    using rows(1) [OF _ assms(5)] by (intro conf_rules) simp
  show "conf X False True w (w\<lparr>alertRules := deleteMany (\<lambda>r. ar_id r = i) (alertRules w)\<rparr>)"
    using rows(2) by (intro conf_rules) simp
qed

lemma rule_found: "find_rule i X w = Some e \<Longrightarrow> e \<in> set (alertRules w) \<and> ar_id e = i \<and> ar_orgId e = X"
  unfolding find_rule_def by (drule find_in) simp

lemma alert_confined:
  assumes "primary_keys (fst s)"
  shows "conf X False True (fst s) (fst (snd (alert_run A X u now r s)))"
proof -
  obtain w d' u' where s: "s = (w, d', u')" by (cases s)
  note keys = assms [unfolded s fst_conv]
  show ?thesis
  proof (cases r)
    case (CreateRule n c ch en)
    then show ?thesis by (auto simp: s alert_run_def on_world_def answered_def createRule_def Let_def case_prod_unfold intro!: conf_new_rule)
  next
    case (UpdateRule i n en c ch)
    then show ?thesis
      by (auto simp: s alert_run_def on_world_def updateRule_def Let_def case_prod_unfold dest: rule_found intro!: conf_update_rule(1) [OF keys] split: option.split)
  next
    case (TestRule i)
    have "plain w (snd (testRule (ap_env A) (ap_url A) X i u now w))"
      using plain_quiet [OF discord_send_quiet] by (auto simp: testRule_def Let_def plain_def case_prod_unfold split: option.split)
    then show ?thesis using TestRule conf_plain by (simp add: s alert_run_def on_world_def case_prod_unfold)
  next
    case (DeleteRule i)
    then show ?thesis
      by (auto simp: s alert_run_def on_world_def deleteRule_def case_prod_unfold dest: rule_found intro!: conf_update_rule(2) [OF keys, where f = id] split: option.split)
  qed
qed

lemma conf_put_rule:
  assumes "primary_keys w" and "\<And>e. existing = Some e \<Longrightarrow> e \<in> set (alertRules w) \<and> ar_orgId e = X"
  shows "conf X False True w (put_rule X existing n en c ch now w)"
  using assms conf_update_rule(1) by (auto simp: put_rule_def intro!: conf_new_rule split: option.split)

lemma moderation_confined:
  assumes "primary_keys w"
  shows "conf X False True w (snd (updateChatModeration X sid body now w))"
proof -
  have "moderation_rule X sid w = Some e \<Longrightarrow> e \<in> set (alertRules w) \<and> ar_orgId e = X" for e
    unfolding moderation_rule_def by (drule find_in) simp
  then show ?thesis
    by (auto simp: updateChatModeration_def Let_def intro!: conf_put_rule [OF assms] split: option.split js.split)
qed

lemma chat_settings_confined:
  assumes "primary_keys w"
  shows "conf X False True w (snd (updateChatSettings U X sid en url now w))"
proof -
  have "List.find (chat_relay_of sid) (filter (\<lambda>r. ar_orgId r = X) (alertRules w)) = Some e \<Longrightarrow> e \<in> set (alertRules w) \<and> ar_orgId e = X" for e
    by (drule find_in) simp
  then have "conf X False True w (put_rule X (List.find (chat_relay_of sid) (filter (\<lambda>r. ar_orgId r = X) (alertRules w))) n b c ch now w)" for n b c ch
    by (rule conf_put_rule [OF assms])
  then show ?thesis by (simp add: updateChatSettings_def Let_def split: option.split)
qed

lemma numbers_confined: "(\<And>r. o_id (f r) = o_id r) \<Longrightarrow> (\<And>r. without_numbers (f r) = without_numbers r) \<Longrightarrow>
    conf X False True w (w\<lparr>orgs := updateRow o_id X f (orgs w)\<rparr>)"
  by (intro conf_orgs) auto

lemma log_settings_confined: "conf X False True w (snd (updateSettings X n now w))"
proof -
  have prune: "plain v (prune X now v)" for v by (auto simp: prune_def plain_def Let_def split: option.split)
  have "conf X False True w (w\<lparr>orgs := updateRow o_id X (\<lambda>o'. o'\<lparr>o_logRetentionDays := n\<rparr>) (orgs w)\<rparr>)"
    by (intro numbers_confined) (simp_all add: without_numbers_def)
  then have "conf X False True w (w\<lparr>orgs := updateRow o_id X (\<lambda>o'. o'\<lparr>o_logRetentionDays := n\<rparr>) (orgs w), lastPrune := l\<rparr>)" for l
    by (rule conf_then) (simp add: plain_def)
  then show ?thesis by (auto simp: updateSettings_def intro!: conf_then [OF _ prune])
qed

lemma keyword_found: "find_keyword_rule X i w \<noteq> None \<Longrightarrow> \<exists>e \<in> set (alertRules w). ar_id e = i \<and> ar_orgId e = X"
  using rule_found by (force simp: find_keyword_rule_def split: option.splits)

lemma log_confined:
  assumes "primary_keys (fst s)"
  shows "conf X False True (fst s) (fst (snd (log_run A X now r s)))"
proof -
  obtain w d' u' where s: "s = (w, d', u')" by (cases s)
  note keys = assms [unfolded s fst_conv]
  show ?thesis
  proof (cases r)
    case (LogSettings n)
    then show ?thesis using log_settings_confined by (simp add: s log_run_def on_world_def case_prod_unfold)
  next
    case (CreateKeyword sid k cs)
    then show ?thesis by (auto simp: s log_run_def on_world_def createKeywordRule_def Let_def case_prod_unfold intro!: conf_new_rule)
  next
    case (SetKeyword i en)
    then show ?thesis
      by (auto simp: s log_run_def on_world_def setKeywordRuleEnabled_def case_prod_unfold dest!: keyword_found [of X i w, simplified] intro!: conf_update_rule(1) [OF keys])
  next
    case (DeleteKeyword i)
    then show ?thesis
      by (auto simp: s log_run_def on_world_def deleteKeywordRule_def case_prod_unfold dest!: keyword_found [of X i w, simplified] intro!: conf_update_rule(2) [OF keys, where f = id])
  next
    case (SaveChat sid en url)
    then show ?thesis using chat_settings_confined [OF keys] by (simp add: s log_run_def on_world_def case_prod_unfold)
  next
    case (SaveModeration sid body)
    then show ?thesis using moderation_confined [OF keys] by (simp add: s log_run_def on_world_def case_prod_unfold)
  next
    case (MutePlayer sid pid pn m)
    then show ?thesis using moderation_confined [OF keys]
      by (auto simp: s log_run_def on_world_def setPlayerMuted_def Let_def case_prod_unfold)
  qed
qed

lemma trigger_row:
  assumes "primary_keys w" and "find_trigger i X w = Some t"
  shows "(\<And>r. t_orgId (f r) = t_orgId r) \<Longrightarrow> conf X False True w (w\<lparr>triggers := updateRow t_id i f (triggers w)\<rparr>)"
    and "conf X False True w (w\<lparr>triggers := deleteMany (\<lambda>t. t_id t = i) (triggers w)\<rparr>)"
  using rows_found [OF primary_keysD(4) [OF assms(1)] assms(2) [unfolded find_trigger_def]] by (auto intro!: conf_triggers)

lemma trigger_confined:
  assumes "primary_keys (fst s)"
  shows "conf X False True (fst s) (fst (snd (trigger_run A X u now r s)))"
proof -
  obtain w d' u' where s: "s = (w, d', u')" by (cases s)
  note keys = assms [unfolded s fst_conv]
  show ?thesis
  proof (cases r)
    case (CreateTrigger n sid en et ec at' ac ap)
    have new: "conf X False True w ((draw w)\<lparr>triggers := triggers w @ [x]\<rparr>)" if "t_orgId x = X" for x
      using that by (intro conf_then [OF conf_triggers [of X "triggers w @ [x]"]]) (auto simp: plain_def draw_def)
    have fill: "conf X False True w (backfillTrigger E x now ((draw w)\<lparr>triggers := triggers w @ [x]\<rparr>))" if "t_orgId x = X" for x E
      using new [OF that] plain_rewards.backfill_R by (rule conf_then)
    show ?thesis using CreateTrigger new fill
      by (auto simp: s trigger_run_def on_world_def createTrigger_def Let_def case_prod_unfold split: option.split sum.split)
  next
    case (UpdateTrigger i ot n en)
    then show ?thesis using trigger_row(1) [OF keys]
      by (auto simp: s trigger_run_def on_world_def updateTrigger_def Let_def case_prod_unfold intro!: conf_then [OF _ plain_rewards.backfill_R] split: option.split)
  next
    case (RemoveTrigger i)
    then show ?thesis using conf_then [OF trigger_row(2) [OF keys]]
      by (auto simp: s trigger_run_def on_world_def removeTrigger_def case_prod_unfold plain_def split: option.split)
  qed
qed

lemma upsert_protection_other: "i \<noteq> sid \<Longrightarrow> (\<And>r. pr_serverInstanceId (f r) = pr_serverInstanceId r) \<Longrightarrow> pr_serverInstanceId c = sid \<Longrightarrow>
    findUnique pr_serverInstanceId i (protections (snd (upsert_protection sid c f w))) = findUnique pr_serverInstanceId i (protections w)"
  by (auto simp: upsert_protection_def findUnique_append findUnique_Cons findUnique_updateRow split: option.split)

lemma tools_confined:
  assumes "primary_keys w"
  shows "conf X False False w (snd (getProtectionSettings X sid w))" and "conf X False True w (snd (updateProtectionSettings X sid body w))"
proof -
  show "conf X False False w (snd (getProtectionSettings X sid w))"
  proof (cases "find_server sid X w")
    case (Some e)
    have "protection_on o' (snd (upsert_protection sid (default_protection sid) id w)) = protection_on o' w" for o'
    proof (cases "findUnique pr_serverInstanceId sid (protections w)")
      case None
      then have "opt_or (findUnique pr_serverInstanceId i (protections w @ [default_protection sid])) (default_protection i) =
          opt_or (findUnique pr_serverInstanceId i (protections w)) (default_protection i)" for i
        by (cases "i = sid") (auto simp: findUnique_append findUnique_Cons default_protection_def opt_or_def split: option.split)
      then show ?thesis using None by (simp add: upsert_protection_def protection_on_def own_server_def fun_eq_iff)
    next
      case (Some p)
      have "updateRow pr_serverInstanceId sid id ps = ps" for ps :: "protection list" by (induction ps) (auto simp: updateRow_def updateMany_def)
      then show ?thesis using Some by (simp add: upsert_protection_def protection_on_def own_server_def fun_eq_iff)
    qed
    then show ?thesis using Some
      by (auto simp: getProtectionSettings_def case_prod_unfold conf_def org_settings_def org_fleet_def upsert_protection_def own_server_def split: option.splits)
  qed (simp add: getProtectionSettings_def)
  have put: "conf X False True w (snd (upsert_protection sid row (\<lambda>_. row) w))" if "find_server sid X w = Some e" and "pr_serverInstanceId row = sid" for row e
  proof (rule conf_fleet)
    fix o' assume "o' \<noteq> X"
    have own: "\<not> own_server o' w sid" by (rule server_rows(3) [OF primary_keysD(2) [OF assms] that(1) \<open>o' \<noteq> X\<close>])
    have "updateRow pr_serverInstanceId sid (\<lambda>_. row) ps = updateRow pr_serverInstanceId sid (\<lambda>r. row\<lparr>pr_serverInstanceId := pr_serverInstanceId r\<rparr>) ps" for ps
      using that(2) by (induction ps) (auto simp: updateRow_def updateMany_def)
    then have eq: "upsert_protection sid row (\<lambda>_. row) w = (fst (upsert_protection sid row (\<lambda>_. row) w), snd (upsert_protection sid row (\<lambda>r. row\<lparr>pr_serverInstanceId := pr_serverInstanceId r\<rparr>) w))"
      by (auto simp: upsert_protection_def split: option.split)
    have "findUnique pr_serverInstanceId i (protections (snd (upsert_protection sid row (\<lambda>_. row) w))) = findUnique pr_serverInstanceId i (protections w)"
      if "own_server o' w i" for i
      using that own \<open>pr_serverInstanceId row = sid\<close> by (subst eq) (auto intro!: upsert_protection_other)
    then show "org_fleet o' (snd (upsert_protection sid row (\<lambda>_. row) w)) = org_fleet o' w"
      by (intro fleet_one) (auto simp: upsert_protection_def split: option.splits)
  qed (auto simp: upsert_protection_def split: option.split)
  show "conf X False True w (snd (updateProtectionSettings X sid body w))"
    by (auto simp: updateProtectionSettings_def Let_def case_prod_unfold protection_of_def intro!: put split: option.split)
qed

lemma tool_confined:
  assumes "primary_keys (fst s)"
  shows "conf X False (required_roles (Tool r) = any_staff) (fst s) (fst (snd (tool_run X now r s)))"
proof -
  obtain w d' u' where s: "s = (w, d', u')" by (cases s)
  note keys = assms [unfolded s fst_conv]
  show ?thesis
  proof (cases r)
    case (ListPlayers sid)
    then show ?thesis using conf_plain [OF plain_list] by (simp add: s tool_run_def on_world_def answered_def case_prod_unfold)
  next
    case (GetTools sid)
    then show ?thesis using conf_weaken [OF tools_confined(1) [OF keys]] by (simp add: s tool_run_def on_world_def case_prod_unfold)
  next
    case (UpdateTools sid body)
    then show ?thesis using tools_confined(2) [OF keys] by (simp add: s tool_run_def on_world_def case_prod_unfold required_roles_def)
  next
    case (HealthSettings n)
    have "conf X False True w (snd (updateInterval X m w))" for m
      by (auto simp: updateInterval_def without_numbers_def intro!: numbers_confined split: option.split)
    then show ?thesis using HealthSettings by (simp add: s tool_run_def on_world_def case_prod_unfold required_roles_def)
  qed
qed

lemma batch_confined: "conf X False True w (snd (createBatch X u ty ids p now w))"
proof -
  have new: "conf X False True w ((draw w)\<lparr>jobBatches := jobBatches w @ [x]\<rparr>)" if "b_orgId x = X" for x
    using that by (intro conf_then [OF conf_batches [of X "jobBatches w @ [x]"]]) (auto simp: plain_def draw_def)
  have loop: "plain v (foldl (create_batch_job X u b jt p now) v xs)" for v b jt xs
    by (intro plain.foldl_R plain_batch_job)
  have audit: "plain v (audit X u n i d v)" for v n i d by (simp add: audit_def plain_audit)
  show ?thesis
    by (auto simp: createBatch_def Let_def intro!: conf_then [OF conf_then [OF new loop] audit])
qed

lemma cancel_confined:
  assumes "primary_keys w"
  shows "conf X False True w (snd (cancelBatch rm X i now w))"
proof (cases "find_org_batch i X w")
  case (Some b)
  have emit: "plain v (emitProgress X y e v)" for v y e by (simp add: emitProgress_def plain_def)
  have audit: "plain v (audit X u n i d v)" for v u n i d by (simp add: audit_def plain_audit)
  have loop: "plain w (fst (foldl (cancel_run rm X now) (w, 0) rs))" for rs
    using plain.foldl_via [of rs fst "cancel_run rm X now" "(w, 0)"] plain_cancel by simp
  have set: "conf X False True w (set_batch i f v)" if "plain w v" and "\<And>r. b_orgId (f r) = b_orgId r" for f v
  proof (rule conf_before [OF that(1)])
    have "List.find (\<lambda>b. b_id b = i \<and> b_orgId b = X) (jobBatches v) = Some b" "distinct (map b_id (jobBatches v))"
      using that(1) Some primary_keysD(6) [OF assms] by (simp_all add: plain_def find_org_batch_def)
    then show "conf X False True v (set_batch i f v)"
      unfolding set_batch_def using rows_found(1) [of b_id "jobBatches v" i b_orgId X b _ f] that(2) by (intro conf_batches) simp
  qed
  show ?thesis using Some
    by (auto simp: cancelBatch_def Let_def case_prod_unfold intro!: conf_then [OF conf_then [OF set [OF loop] audit] emit])
qed (simp add: cancelBatch_def)

lemma plain_edit: "plain w (snd (edit_mod C E N X u i w))"
  by (auto simp: edit_mod_def Let_def plain.refl_R plain_audit split: option.split sum.split)

lemma upload_confined:
  assumes "primary_keys w"
  shows "conf X False (staff (role_in u X w)) w (fst (snd (stageModUpload E X u sid f ty oa tc up now (w, disk))))"
proof -
  have "conf X False (staff (role_in u X w)) w v" if "createJob E X u sid ty p now w = (x, v)" for p x v
    using createJob_confined [OF assms, of X u E sid ty p now] that by simp
  then show ?thesis by (auto simp: stageModUpload_def Let_def split: sum.split prod.split)
qed

lemma work_confined:
  assumes "primary_keys (fst s)"
  shows "conf X False (staff (role_in u X (fst s)) \<or> required_roles (Work r) = any_staff) (fst s) (fst (snd (work_run A c X u now r s)))"
proof -
  obtain w d' u' where s: "s = (w, d', u')" by (cases s)
  note keys = assms [unfolded s fst_conv]
  show ?thesis
  proof (cases r)
    case (CreateJob ty sid p)
    then show ?thesis
      by (simp add: s work_run_def on_world_def case_prod_unfold conf_weaken [OF createJob_confined [OF keys]])
  next
    case (RecommendMod sid f)
    then show ?thesis
      by (simp add: s work_run_def on_uploads_def recommendMod_def case_prod_unfold conf_weaken [OF upload_confined [OF keys]])
  next
    case (UploadMod sid oa tc f)
    then show ?thesis
      by (simp add: s work_run_def on_uploads_def uploadMod_def case_prod_unfold Let_def conf_weaken [OF upload_confined [OF keys]])
  next
    case (EditMod i)
    then show ?thesis using conf_plain [OF plain_edit] by (simp add: s work_run_def on_world_def case_prod_unfold)
  next
    case (CreateBatch ty ids p)
    then show ?thesis using batch_confined by (simp add: s work_run_def on_world_def case_prod_unfold required_roles_def)
  next
    case (CancelBatch i)
    then show ?thesis using cancel_confined [OF keys] by (simp add: s work_run_def on_world_def case_prod_unfold required_roles_def)
  qed
qed

section \<open>Every request\<close>

definition caller_role :: "apiEnv \<Rightarrow> string option \<Rightarrow> id \<Rightarrow> world \<Rightarrow> string option" where
  \<comment> \<open>the role in the organization of the user whose valid token comes with the request\<close>
  "caller_role A auth orgId w = (case jwtAuthGuard (ap_keys A) auth w of Inl _ \<Rightarrow> None | Inr userId \<Rightarrow> role_in userId orgId w)"

lemma admitted_role:
  assumes "admitted A auth X r w = Inr (u, role)"
  shows "role_in u X w = Some role" and "caller_role A auth X w = Some role" and "required_roles r = Some rs \<Longrightarrow> role \<in> set rs"
  using assms
  by (auto simp: admitted_def userGuards_def caller_role_def role_in_def orgMemberGuard_def requireOrgRoleGuard_def opt_or_def
      split: option.splits sum.splits if_splits)

lemma roles_simps [simp]:
  "required_roles (Account a) = only_admin" "required_roles (Integration i) = only_admin" "required_roles (Server v) = any_staff"
  "required_roles (Schedule c) = any_staff" "required_roles (Alert l) = any_staff" "required_roles (Log g) = any_staff"
  "required_roles (Trigger t) = any_staff" "required_roles (Shop p) = only_admin"
  "only_admin \<noteq> any_staff" "any_staff \<noteq> only_admin"
  by (simp_all add: required_roles_def only_admin_def any_staff_def)

definition may_staff :: "request \<Rightarrow> string option \<Rightarrow> bool" where
  "may_staff r role \<longleftrightarrow> required_roles r \<in> {only_admin, any_staff} \<or> staff role"

lemma handle_confined:
  assumes "primary_keys (fst s)"
  shows "conf X (required_roles r = only_admin) (may_staff r (role_in u X (fst s))) (fst s) (fst (snd (handle A c X u now r s)))"
proof (cases r)
  case (Account x)
  then show ?thesis by (simp add: handle_def conf_weaken [OF account_confined])
next
  case (Integration x)
  then show ?thesis by (simp add: handle_def conf_weaken [OF integration_confined])
next
  case (Server x)
  then show ?thesis by (simp add: handle_def may_staff_def conf_weaken [OF server_confined [OF assms]])
next
  case (Host x)
  have "conf X (required_roles (Host x) = only_admin) (may_staff (Host x) (role_in u X (fst s))) (fst s) (fst (snd (host_run A c X u now x s)))"
    by (rule conf_weaken [OF host_confined [OF assms]]) (auto simp: required_roles_def may_staff_def split: hostRequest.split)
  then show ?thesis using Host by (simp add: handle_def)
next
  case (Schedule x)
  then show ?thesis by (simp add: handle_def may_staff_def conf_weaken [OF schedule_confined [OF assms]])
next
  case (Alert x)
  then show ?thesis by (simp add: handle_def may_staff_def conf_weaken [OF alert_confined [OF assms]])
next
  case (Log x)
  then show ?thesis by (simp add: handle_def may_staff_def conf_weaken [OF log_confined [OF assms]])
next
  case (Trigger x)
  then show ?thesis by (simp add: handle_def may_staff_def conf_weaken [OF trigger_confined [OF assms]])
next
  case (Tool x)
  then show ?thesis by (simp add: handle_def may_staff_def conf_weaken [OF tool_confined [OF assms]])
next
  case (Shop x)
  then show ?thesis by (simp add: handle_def may_staff_def conf_weaken [OF shop_confined [OF assms]])
next
  case (Work x)
  have "conf X (required_roles (Work x) = only_admin) (may_staff (Work x) (role_in u X (fst s))) (fst s) (fst (snd (work_run A c X u now x s)))"
    by (rule conf_weaken [OF work_confined [OF assms]]) (auto simp: may_staff_def)
  then show ?thesis using Work by (simp add: handle_def)
qed


text \<open>An operator of one organization renames its host; another organization has a host too.\<close>

definition sample_host :: "id \<Rightarrow> id \<Rightarrow> host" where
  "sample_host i o' = \<lparr>h_id = i, h_orgId = o', h_name = ''box'', h_lastHeartbeatAt = None, h_agentVersion = None, h_agentKeyVersion = 1,
     h_status = None, h_lastMetrics = Null, h_createdAt = 0\<rparr>"

definition sample_two :: world where
  "sample_two = (empty_world nat_str)\<lparr>users := [sample_user], userOrgs := [\<lparr>uo_userId = ''u'', uo_orgId = ''o'', uo_role = ''operator'', uo_createdAt = 0\<rparr>],
     hosts := [sample_host ''h'' ''o'', sample_host ''k'' ''p'']\<rparr>"

definition sample_door :: keyring where
  "sample_door = sample_keys\<lparr>kr_verifyUser := (\<lambda>t. if t = ''tok'' then Some (''u'', int_num 1) else None)\<rparr>"

definition sample_api :: "apiEnv \<Rightarrow> apiEnv" where
  "sample_api A = A\<lparr>ap_keys := sample_door\<rparr>"


section \<open>A schedule on a foreign server\<close>

lemma length_orderDesc: "length (orderDesc f rs) = length rs"
  by (simp add: orderDesc_def)

lemma run_fire_job: "jobs (snd (run_fire E ok si s now w)) = jobs w @ [\<lparr>j_id = next_id w, j_orgId = sc_orgId s, j_batchId = None,
    j_serverInstanceId = Some (sc_serverInstanceId s), j_type = effectiveJobType si s, j_payload = scheduled_payload si s, j_createdById = None, j_createdAt = now\<rparr>]"
  by (auto simp: run_fire_def create_job_def create_run_def draw_def Let_def enqueue_def)

lemma created_schedule:
  assumes "createSchedule E X u n sid cr ty p en now w = (Inr x, w1)" and "find_schedule (next_id w) w = None"
  obtains s where "find_schedule (next_id w) w1 = Some s" "sc_id s = next_id w" "sc_orgId s = X" "sc_serverInstanceId s = sid" "sc_jobType s = ty"
    "sc_payload s = p" "sc_enabled s = opt_or en True" "\<not> sc_skipNextRun s" "jobs w1 = jobs w" "jobRuns w1 = jobRuns w" "serverInstances w1 = serverInstances w"
proof -
  obtain t where t: "getNextCronRun (e_tz E) cr now = Inr t" using assms(1) by (auto simp: createSchedule_def split: sum.splits)
  show thesis
    by (rule that [of "\<lparr>sc_id = next_id w, sc_orgId = X, sc_serverInstanceId = sid, sc_name = n, sc_cronExpression = cr, sc_jobType = ty, sc_payload = p,
          sc_enabled = opt_or en True, sc_executionWindowStart = None, sc_executionWindowEnd = None, sc_lastRunAt = None, sc_nextRunAt = Some t,
          sc_lastRunStatus = None, sc_lastRunJobId = None, sc_skipNextRun = False, sc_skipNextRunReason = None, sc_skipNextRunRequestedAt = None,
          sc_runCount = 0, sc_failureCount = 0, sc_retryMax = None, sc_retryBackoffMs = None, sc_createdById = Some u, sc_createdAt = now\<rparr>"])
      (use assms t in \<open>auto simp: createSchedule_def Let_def find_schedule_def findUnique_append findUnique_Cons draw_def add_fire_def next_id_def split: if_splits\<close>)
qed

lemma not_active:
  assumes "\<forall>j \<in> set (jobs w). get (j_payload j) ''schedule_id'' \<noteq> Str i"
  shows "active_run sid ty i w = None"
  using assms by (auto simp: active_run_def find_None_iff find_job_def dest!: findUnique_Some split: option.splits)

text \<open>C40: any operator can read the RCON password of servers of other organizations. The request to create a schedule
  does not check whose server it names; when the schedule fires, the job it creates belongs to the caller's
  organization, carries the password of the foreign server in its payload, and is listed with it to every member.\<close>

theorem foreign_schedule_shows_password:
  assumes "serve A c auth X now (Schedule (CreateSchedule n sid cr ty Undefined None)) (w, d, up) = (Inr (), w1, d, up)"
    and "findUnique si_id sid (serverInstances w) = Some si" and "si_orgId si \<noteq> X" and "si_rconPassword si = Some pw"
    and "find_schedule (next_id w) w = None" and "\<forall>j \<in> set (jobs w). get (j_payload j) ''schedule_id'' \<noteq> Str (next_id w)"
    and "ty \<notin> {''PLAYER_LIST_SYNC'', ''ITEM_CATALOG'', ''TRIGGER_GRANT_ITEMS'', ''RCON''}" and "length (jobs w) < 20"
  shows "\<exists>v \<in> set (list_jobs unknown X None None (snd (processScheduleFire (ap_env A) True (next_id w) t w1))).
    \<exists>p. get v ''payload'' = Obj p \<and> get p ''rcon_password'' = Str pw"
proof -
  have "\<exists>u x. createSchedule (ap_env A) X u n sid cr ty Undefined None now w = (Inr x, w1)"
    using assms(1) by (auto simp: serve_def handle_def schedule_run_def on_world_def outcome_def valid_body_def split: sum.splits prod.splits if_splits)
  then obtain u x where created: "createSchedule (ap_env A) X u n sid cr ty Undefined None now w = (Inr x, w1)" by blast
  obtain s where s: "find_schedule (next_id w) w1 = Some s" "sc_id s = next_id w" "sc_orgId s = X" "sc_serverInstanceId s = sid" "sc_jobType s = ty"
    "sc_payload s = Undefined" "sc_enabled s = opt_or None True" "\<not> sc_skipNextRun s" "jobs w1 = jobs w" "jobRuns w1 = jobRuns w" "serverInstances w1 = serverInstances w"
    using created_schedule [OF created assms(5)] .
  let ?w2 = "snd (processScheduleFire (ap_env A) True (next_id w) t w1)"
  have fired: "?w2 = snd (run_fire (ap_env A) True si s t w1)"
    using s assms(2,6) not_active [of w1 "next_id w"] by (simp add: processScheduleFire_def opt_or_def)
  obtain J where J: "jobs ?w2 = jobs w @ [J]" "j_orgId J = X" "j_type J = effectiveJobType si s" "j_payload J = scheduled_payload si s"
    unfolding fired run_fire_job s(9,3) by auto
  have "get (j_payload J) ''rcon_password'' = Str pw"
    by (simp add: J(4) scheduled_payload_def s(6) server_payload_def assms(4) js_opt_def get_def)
  moreover have "\<not> internal_job unknown J"
    using assms(7) by (auto simp: internal_job_def J(3) effectiveJobType_def s(5))
  moreover have "take 20 (orderDesc j_createdAt (filter (\<lambda>j. j_orgId j = X \<and> \<not> internal_job unknown j) (jobs ?w2))) =
      orderDesc j_createdAt (filter (\<lambda>j. j_orgId j = X \<and> \<not> internal_job unknown j) (jobs ?w2))"
    using le_trans [OF length_filter_le, of "jobs ?w2" 20 "\<lambda>j. j_orgId j = X \<and> \<not> internal_job unknown j"] assms(8)
    by (intro take_all) (simp add: length_orderDesc J(1))
  ultimately have "job_shown ?w2 J \<in> set (list_jobs unknown X None None ?w2)"
    using J(1,2) by (auto simp: list_jobs_def take_of_def prisma_take_def opt_or_def)
  moreover have "get (job_shown ?w2 J) ''payload'' = Obj (j_payload J)" by (simp add: job_shown_def get_def)
  ultimately show ?thesis using \<open>get (j_payload J) ''rcon_password'' = Str pw\<close> by blast
qed

text \<open>The operator of one organization schedules a restart of the server of another.\<close>

definition sample_target :: world where
  "sample_target = sample_two\<lparr>serverInstances := [(sample_server ''s9'' ''k'')\<lparr>si_orgId := ''p'', si_rconPassword := Some ''pw''\<rparr>]\<rparr>"

definition sample_evening :: "apiEnv \<Rightarrow> apiEnv" where
  "sample_evening A = A\<lparr>ap_keys := sample_door, ap_env := sample_env\<rparr>"

definition sample_nightly :: request where
  "sample_nightly = Schedule (CreateSchedule ''n'' ''s9'' ''* * * * *'' ''SERVER_RESTART'' Undefined None)"

lemma every_minute: "\<exists>t. getNextCronRun (e_tz sample_env) ''* * * * *'' 5 = Inr t"
proof -
  obtain c where c: "parseCron ''* * * * *'' = Inr c" "c_minutes c = None" "c_hours c = None" "c_doms c = None" "c_months c = None" "c_dows c = None"
    by (rule that [of "\<lparr>c_minutes = None, c_hours = None, c_doms = None, c_months = None, c_dows = None\<rparr>"]) (code_simp, simp_all)
  then have every: "cron_matches tz c t" for tz t by (simp add: cron_matches_def field_ok_def)
  have "cron_search (e_tz sample_env) c maxIter (first_candidate 5) = Some (first_candidate 5)"
    unfolding cron_search_Some by (intro exI [of _ 0]) (simp add: every maxIter_def)
  then show ?thesis by (simp add: getNextCronRun_def c(1))
qed

theorem foreign_schedule_shows_password_witness:
  "\<forall>A c d up unknown. \<exists>v \<in> set (list_jobs unknown ''o'' None None (snd (processScheduleFire sample_env True (next_id sample_target) 60000
      (fst (snd (serve (sample_evening A) c (bearer_header ''tok'') ''o'' 5 sample_nightly (sample_target, d, up))))))).
    \<exists>p. get v ''payload'' = Obj p \<and> get p ''rcon_password'' = Str ''pw''"
proof (intro allI)
  fix A c d up unknown
  have "u_id sample_user = ''u''" "u_approvedAt sample_user \<noteq> None" "opt_or (u_passwordHash sample_user) [] \<noteq> []" "u_authVersion sample_user = 1"
    by (simp_all add: sample_user_def new_user_def makePasswordHash_def opt_or_def)
  then have guard: "jwtAuthGuard (ap_keys (sample_evening A)) (bearer_header ''tok'') sample_target = Inr ''u''"
    by (simp add: jwtAuthGuard_def bearer_token sample_evening_def sample_door_def sample_target_def sample_two_def isInteger_def num_int_def int_num_def findUnique_Cons)
  have member: "orgMemberGuard ''u'' (Some ''o'') sample_target = Inr ''operator''"
    by (simp add: orgMemberGuard_def opt_or_def find_member_def sample_target_def sample_two_def)
  have server: "findUnique si_id ''s9'' (serverInstances sample_target) = Some ((sample_server ''s9'' ''k'')\<lparr>si_orgId := ''p'', si_rconPassword := Some ''pw''\<rparr>)"
    by (simp add: sample_target_def sample_server_def findUnique_Cons)
  have none: "find_schedule (next_id sample_target) sample_target = None" "jobs sample_target = []"
    by (simp_all add: find_schedule_def sample_target_def sample_two_def empty_world_def findUnique_def)
  obtain x w1 where created: "createSchedule (ap_env (sample_evening A)) ''o'' ''u'' ''n'' ''s9'' ''* * * * *'' ''SERVER_RESTART'' Undefined None 5 sample_target = (Inr x, w1)"
    using every_minute by (auto simp: createSchedule_def sample_evening_def server Let_def)
  have "serve (sample_evening A) c (bearer_header ''tok'') ''o'' 5 sample_nightly (sample_target, d, up) = (Inr (), w1, d, up)"
    by (simp add: serve_def admitted_def required_roles_def any_staff_def userGuards_def guard member requireOrgRoleGuard_def opt_or_def sample_nightly_def
        valid_body_def handle_def schedule_run_def on_world_def created outcome_def)
  note shown = foreign_schedule_shows_password [OF this [unfolded sample_nightly_def] server _ _ none(1), where t = 60000 and unknown = unknown]
  show "\<exists>v \<in> set (list_jobs unknown ''o'' None None (snd (processScheduleFire sample_env True (next_id sample_target) 60000
      (fst (snd (serve (sample_evening A) c (bearer_header ''tok'') ''o'' 5 sample_nightly (sample_target, d, up))))))).
    \<exists>p. get v ''payload'' = Obj p \<and> get p ''rcon_password'' = Str ''pw''"
    using shown \<open>serve (sample_evening A) c (bearer_header ''tok'') ''o'' 5 sample_nightly (sample_target, d, up) = (Inr (), w1, d, up)\<close>
    by (simp add: none(2) sample_evening_def)
qed

end
