(* ===== verification/Dashboard.thy ===== *)
theory Dashboard
  imports Public_Api "HOL-Library.Sublist"
begin

text \<open>
  What the dashboard decides in the browser: whether a page is shown (app/layout.tsx, lib/auth.ts), the page that confirms
  an e-mail address (app/verify-email/page.tsx), the cron expressions of its forms (schedules/page.tsx, saves/page.tsx), the
  comparison of a mod configuration before and after an edit (mods/page.tsx), the search in the item catalogue
  (components/GrantItemPicker.tsx). Rendering and styles are not modelled.

  Shown: the confirmation link of a new account never reaches the server, so where mails are on the account cannot sign in;
  the backup interval a user picks is the interval of the runs; "every 2 days" runs on two days in a row; the comparison
  is a shortest one and shows both texts.
\<close>

section \<open>The session of a browser\<close>

text \<open>The entries of the local storage (None: not there).\<close>

record browser =
  bw_token :: "string option"
  bw_userId :: "string option"
  bw_orgId :: "string option"

definition saveAuth :: "string \<Rightarrow> id \<Rightarrow> id \<Rightarrow> browser \<Rightarrow> browser" where
  "saveAuth token userId orgId b = b\<lparr>bw_token := Some token, bw_userId := Some userId, bw_orgId := Some orgId\<rparr>"

definition clearAuth :: "browser \<Rightarrow> browser" where
  "clearAuth b = b\<lparr>bw_token := None, bw_userId := None, bw_orgId := None\<rparr>"

definition isLoggedIn :: "browser \<Rightarrow> bool" where
  "isLoggedIn b \<longleftrightarrow> opt_or (bw_token b) [] \<noteq> []"

definition isPublicPath :: "string \<Rightarrow> bool" where
  "isPublicPath pathname \<longleftrightarrow> pathname \<in> {''/'', ''/login''} \<or> pathname = ''/player'' \<or> startsWith pathname ''/player/''"

text \<open>The answer to \<open>GET /api/auth/me\<close>: the organizations of the profile, a refusal with a status, or none.\<close>

datatype profileAnswer = ProfileOrgs "id list" | Refused int | NoAnswer

definition open_layout :: "string \<Rightarrow> profileAnswer \<Rightarrow> browser \<Rightarrow> (bool \<times> string option) \<times> browser" where
  \<comment> \<open>whether the page is shown, and where the browser is sent\<close>
  "open_layout pathname answer b =
     (if isPublicPath pathname then ((True, None), b)
      else if \<not> isLoggedIn b then ((False, Some ''/login''), b)
      else (case answer of
         ProfileOrgs orgIds \<Rightarrow>
           let orgId = (case bw_orgId b of
                 Some i \<Rightarrow> if i \<in> set orgIds then i else (case orgIds of [] \<Rightarrow> [] | k # _ \<Rightarrow> k)
               | None \<Rightarrow> (case orgIds of [] \<Rightarrow> [] | k # _ \<Rightarrow> k))
           in if orgId = [] then ((False, Some ''/login''), clearAuth b)
              else ((True, None), b\<lparr>bw_orgId := Some orgId\<rparr>)
       | Refused status \<Rightarrow> if status = 401 then ((False, Some ''/login''), clearAuth b) else ((True, None), b)
       | NoAnswer \<Rightarrow> ((True, None), b)))"

definition verify_page :: "publicEnv \<Rightarrow> caller \<Rightarrow> ms \<Rightarrow> string option \<Rightarrow> world \<Rightarrow> unit res \<times> world" where
  \<comment> \<open>what the page does when it is mounted; \<open>token\<close> is the parameter of its address\<close>
  "verify_page V c now token w =
     (case opt_or token [] of
        [] \<Rightarrow> (Inl (Error ''This confirmation link is missing its token.''), w)
      | t \<Rightarrow> public_serve V c now (Auth (VerifyEmail t)) w)"

definition open_link :: "publicEnv \<Rightarrow> caller \<Rightarrow> ms \<Rightarrow> string option \<Rightarrow> profileAnswer \<Rightarrow> browser \<Rightarrow> world \<Rightarrow> string option \<times> browser \<times> world" where
  \<comment> \<open>a click on the link of the mail: the layout mounts the page when it shows it\<close>
  "open_link V c now token answer b w =
     (case open_layout ''/verify-email'' answer b of
        ((shown, target), b1) \<Rightarrow> (target, b1, if shown then snd (verify_page V c now token w) else w))"

section \<open>Cron expressions of the forms\<close>

definition every_field :: "int \<Rightarrow> string" where
  "every_field n = [CHR ''*'', CHR ''/''] @ int_str n"

definition minutesToCron :: "int \<Rightarrow> string" where
  "minutesToCron minutes =
     (if minutes < 60 then every_field minutes @ '' * * * *''
      else if minutes = 60 then ''0 * * * *''
      else if minutes < 1440 \<and> minutes mod 60 = 0 then ''0 '' @ every_field (minutes div 60) @ '' * * *''
      else ''0 0 * * *'')"

definition step_pattern :: "string \<Rightarrow> string \<Rightarrow> string \<Rightarrow> nat option" where
  \<comment> \<open>\<open>front(\d+)rear\<close>, from the start to the end\<close>
  "step_pattern front rear s =
     (let digits = takeWhile is_digit (drop (length front) s) in
      if startsWith s front \<and> digits \<noteq> [] \<and> drop (length front + length digits) s = rear then Some (radix_val 10 digits) else None)"

definition cronToMinutes :: "string \<Rightarrow> int" where
  "cronToMinutes cron =
     (case step_pattern [CHR ''*'', CHR ''/''] '' * * * *'' cron of
        Some n \<Rightarrow> int n
      | None \<Rightarrow>
          (case step_pattern (''0 '' @ [CHR ''*'', CHR ''/'']) '' * * *'' cron of
             Some n \<Rightarrow> int n * 60
           | None \<Rightarrow> if cron = ''0 * * * *'' then 60 else if cron = ''0 0 * * *'' then 1440 else 60))"

text \<open>The intervals of the form besides "Disabled".\<close>

definition backup_intervals :: "int list" where
  "backup_intervals = [15, 30, 60, 120, 360, 720, 1440]"

record simpleSchedule =
  ss_days :: int
  ss_hour :: int
  ss_minute :: int

definition simpleCron :: "simpleSchedule \<Rightarrow> string" where
  "simpleCron s = int_str (ss_minute s) @ '' '' @ int_str (ss_hour s) @ '' '' @
     (if ss_days s = 1 then [CHR ''*''] else every_field (ss_days s)) @ '' * *''"

definition pad2 :: "int \<Rightarrow> string" where
  \<comment> \<open>\<open>String(n).padStart(2, '0')\<close>\<close>
  "pad2 n = replicate (2 - length (int_str n)) CHR ''0'' @ int_str n"

definition simpleScheduleLabel :: "simpleSchedule \<Rightarrow> string" where
  "simpleScheduleLabel s =
     (let time = pad2 (ss_hour s) @ '':'' @ pad2 (ss_minute s) in
      if ss_days s = 1 then ''Every day at '' @ time else ''Every '' @ int_str (ss_days s) @ '' days at '' @ time)"

section \<open>Comparing two texts\<close>

datatype rowType = SameRow | AddRow | RemoveRow

record diffRow =
  dr_type :: rowType
  dr_line :: nat
  dr_text :: string

text \<open>\<open>matrix[i][j]\<close>: a row is filled from its end, the rows from the last one up.\<close>

fun diff_row :: "string \<Rightarrow> string list \<Rightarrow> nat list \<Rightarrow> nat list" where
  "diff_row x [] below = [0]"
| "diff_row x (y # ys) below =
     (let rest = diff_row x ys (tl below) in
      (if x = y then hd (tl below) + 1 else max (hd below) (hd rest)) # rest)"

fun diff_matrix :: "string list \<Rightarrow> string list \<Rightarrow> nat list list" where
  "diff_matrix [] b = [replicate (length b + 1) 0]"
| "diff_matrix (x # xs) b = (let rows = diff_matrix xs b in diff_row x b (hd rows) # rows)"

function diff_rows :: "string list \<Rightarrow> string list \<Rightarrow> nat list list \<Rightarrow> nat \<Rightarrow> nat \<Rightarrow> diffRow list" where
  "diff_rows a b matrix i j =
     (if \<not> (i < length a \<or> j < length b) then []
      else if i < length a \<and> j < length b \<and> a ! i = b ! j
      then \<lparr>dr_type = SameRow, dr_line = i + 1, dr_text = a ! i\<rparr> # diff_rows a b matrix (i + 1) (j + 1)
      else if j < length b \<and> (length a \<le> i \<or> matrix ! (i + 1) ! j \<le> matrix ! i ! (j + 1))
      then \<lparr>dr_type = AddRow, dr_line = j + 1, dr_text = b ! j\<rparr> # diff_rows a b matrix i (j + 1)
      else \<lparr>dr_type = RemoveRow, dr_line = i + 1, dr_text = a ! i\<rparr> # diff_rows a b matrix (i + 1) j)"
  by pat_completeness auto
termination
  by (relation "measure (\<lambda>(a, b, m, i, j). (length a - i) + (length b - j))") auto

declare diff_rows.simps [simp del]

definition makeDiff :: "string \<Rightarrow> string \<Rightarrow> diffRow list" where
  "makeDiff before after =
     (let a = split CHR 0x0A before; b = split CHR 0x0A after in
      if 250000 < length a * length b
      then [\<lparr>dr_type = RemoveRow, dr_line = 1, dr_text = ''Large file: original content replaced. Compare editor content carefully.''\<rparr>,
            \<lparr>dr_type = AddRow, dr_line = 1, dr_text = ''Large file: proposed content appears in editor below.''\<rparr>]
      else diff_rows a b (diff_matrix a b) 0 0)"

section \<open>Searching the item catalogue\<close>

definition rankCatalogMatches :: "string list \<Rightarrow> string \<Rightarrow> string list" where
  "rankCatalogMatches catalog query =
     (let needle = toLowerCase (trim query) in
      if needle = [] then catalog
      else (case foldl (\<lambda>(first, inside) name.
              let lower = toLowerCase name in
              if startsWith lower needle then (first @ [name], inside)
              else if contains lower needle then (first, inside @ [name]) else (first, inside)) ([], []) catalog of
         (first, inside) \<Rightarrow> first @ inside))"

section \<open>The comparison is a shortest one\<close>

text \<open>The length of a longest common subsequence, as it is defined in books.\<close>

fun lcs :: "'a list \<Rightarrow> 'a list \<Rightarrow> nat" where
  "lcs [] ys = 0"
| "lcs xs [] = 0"
| "lcs (x # xs) (y # ys) = (if x = y then lcs xs ys + 1 else max (lcs xs (y # ys)) (lcs (x # xs) ys))"

lemma lcs_Nil2 [simp]: "lcs xs [] = 0"
  by (cases xs) simp_all

lemma lcs_greatest: "subseq zs xs \<Longrightarrow> subseq zs ys \<Longrightarrow> length zs \<le> lcs xs ys"
proof (induction xs ys arbitrary: zs rule: lcs.induct)
  case (3 x xs y ys)
  show ?case
  proof (cases zs)
    case (Cons z zs')
    show ?thesis
    proof (cases "x = y")
      case True
      show ?thesis
      proof (cases "z = x")
        case True
        with 3(4,5) Cons \<open>x = y\<close> have "subseq zs' xs" "subseq zs' ys" by simp_all
        from 3(1) [OF \<open>x = y\<close> this] show ?thesis using Cons \<open>x = y\<close> by simp
      next
        case False
        with 3(4,5) Cons \<open>x = y\<close> have "subseq zs xs" "subseq zs ys" by simp_all
        from 3(1) [OF \<open>x = y\<close> this] show ?thesis using \<open>x = y\<close> by simp
      qed
    next
      case False
      show ?thesis
      proof (cases "z = x")
        case True
        with 3(5) Cons False have "subseq zs ys" by simp
        from 3(3) [OF False 3(4) this] show ?thesis using False by simp
      next
        case f: False
        with 3(4) Cons have "subseq zs xs" by simp
        from 3(2) [OF False this 3(5)] show ?thesis using False by simp
      qed
    qed
  qed simp
qed simp_all

lemma diff_row_lcs:
  "length below = length b + 1 \<Longrightarrow> (\<forall>j \<le> length b. below ! j = lcs xs (drop j b)) \<Longrightarrow>
   length (diff_row x b below) = length b + 1 \<and> (\<forall>j \<le> length b. diff_row x b below ! j = lcs (x # xs) (drop j b))"
proof (induction b arbitrary: below)
  case (Cons y ys)
  obtain m ms where m: "below = m # ms" using Cons.prems(1) by (cases below) simp_all
  have "length ms = length ys + 1" "\<forall>j \<le> length ys. ms ! j = lcs xs (drop j ys)"
    using Cons.prems m by (auto dest: spec [of _ "Suc _"])
  note IH = Cons.IH [OF this]
  have h: "hd (diff_row x ys ms) = lcs (x # xs) ys" "hd ms = lcs xs ys" "m = lcs xs (y # ys)"
    using IH [THEN conjunct2, rule_format, of 0] IH \<open>length ms = _\<close> \<open>\<forall>j \<le> length ys. ms ! j = _\<close> [rule_format, of 0] Cons.prems(2) [rule_format, of 0] m
    by (cases "diff_row x ys ms"; cases ms; simp)+
  show ?case
  proof (intro conjI allI impI)
    show "length (diff_row x (y # ys) below) = length (y # ys) + 1" using IH m by (simp add: Let_def)
    show "diff_row x (y # ys) below ! j = lcs (x # xs) (drop j (y # ys))" if "j \<le> length (y # ys)" for j
      using that IH m h by (cases j) (simp_all add: Let_def)
  qed
qed simp

lemma diff_matrix_lcs:
  "length (diff_matrix a b) = length a + 1 \<and>
   (\<forall>i \<le> length a. length (diff_matrix a b ! i) = length b + 1 \<and> (\<forall>j \<le> length b. diff_matrix a b ! i ! j = lcs (drop i a) (drop j b)))"
proof (induction a)
  case (Cons x xs)
  let ?M = "diff_matrix xs b"
  obtain r rs where M: "?M = r # rs" using Cons by (cases ?M) simp_all
  have "length r = length b + 1" "\<forall>j \<le> length b. r ! j = lcs xs (drop j b)"
    using Cons [THEN conjunct2, rule_format, of 0] M by simp_all
  note row = diff_row_lcs [OF this, of x]
  show ?case
  proof (intro conjI allI impI)
    show "length (diff_matrix (x # xs) b) = length (x # xs) + 1" using Cons by (simp add: Let_def)
    fix i assume i: "i \<le> length (x # xs)"
    show "length (diff_matrix (x # xs) b ! i) = length b + 1" using i Cons row M by (cases i) (simp_all add: Let_def)
    show "diff_matrix (x # xs) b ! i ! j = lcs (drop i (x # xs)) (drop j b)" if "j \<le> length b" for j
      using that i Cons row M by (cases i) (simp_all add: Let_def)
  qed
qed (simp add: nth_Cons split: nat.split)

definition texts_but :: "rowType \<Rightarrow> diffRow list \<Rightarrow> string list" where
  "texts_but t rows = map dr_text (filter (\<lambda>r. dr_type r \<noteq> t) rows)"

definition same_texts :: "diffRow list \<Rightarrow> string list" where
  "same_texts rows = map dr_text (filter (\<lambda>r. dr_type r = SameRow) rows)"

lemma diff_rows_shortest:
  assumes "\<And>i j. i \<le> length a \<Longrightarrow> j \<le> length b \<Longrightarrow> m ! i ! j = lcs (drop i a) (drop j b)"
  shows "i \<le> length a \<Longrightarrow> j \<le> length b \<Longrightarrow>
    texts_but AddRow (diff_rows a b m i j) = drop i a \<and> texts_but RemoveRow (diff_rows a b m i j) = drop j b \<and>
    length (same_texts (diff_rows a b m i j)) = lcs (drop i a) (drop j b)"
proof (induction "(length a - i) + (length b - j)" arbitrary: i j rule: less_induct)
  case less
  note unfold = diff_rows.simps [of a b m i j]
  consider "i = length a" "j = length b" | (same) "i < length a" "j < length b" "a ! i = b ! j"
    | (add) "\<not> (i < length a \<and> j < length b \<and> a ! i = b ! j)" "j < length b" "length a \<le> i \<or> m ! (i + 1) ! j \<le> m ! i ! (j + 1)"
    | (remove) "\<not> (i < length a \<and> j < length b \<and> a ! i = b ! j)" "\<not> (j < length b \<and> (length a \<le> i \<or> m ! (i + 1) ! j \<le> m ! i ! (j + 1)))" "i < length a"
    using less.prems by linarith
  then show ?case
  proof cases
    case 1
    then have "diff_rows a b m i j = []" by (subst unfold) simp
    then show ?thesis using 1 by (simp add: texts_but_def same_texts_def)
  next
    case same
    have r: "diff_rows a b m i j = \<lparr>dr_type = SameRow, dr_line = i + 1, dr_text = a ! i\<rparr> # diff_rows a b m (i + 1) (j + 1)"
      using same by (subst unfold) simp
    have "drop i a = a ! i # drop (i + 1) a" "drop j b = a ! i # drop (j + 1) b"
      using same by (metis Cons_nth_drop_Suc Suc_eq_plus1)+
    then show ?thesis using less.hyps [of "i + 1" "j + 1"] same by (simp add: r texts_but_def same_texts_def)
  next
    case add
    have r: "diff_rows a b m i j = \<lparr>dr_type = AddRow, dr_line = j + 1, dr_text = b ! j\<rparr> # diff_rows a b m i (j + 1)"
      using add by (subst unfold) auto
    have d: "drop j b = b ! j # drop (j + 1) b" using add by (simp add: Cons_nth_drop_Suc)
    have "lcs (drop i a) (drop j b) = lcs (drop i a) (drop (j + 1) b)"
    proof (cases "i < length a")
      case True
      have "drop i a = a ! i # drop (i + 1) a" using True by (simp add: Cons_nth_drop_Suc)
      then show ?thesis using add True d assms [of "i + 1" j] assms [of i "j + 1"] by (simp add: max_def)
    qed (use less.prems in simp)
    then show ?thesis using less.hyps [of i "j + 1"] less.prems add d by (simp add: r texts_but_def same_texts_def)
  next
    case remove
    have r: "diff_rows a b m i j = \<lparr>dr_type = RemoveRow, dr_line = i + 1, dr_text = a ! i\<rparr> # diff_rows a b m (i + 1) j"
      using remove by (subst unfold) auto
    have d: "drop i a = a ! i # drop (i + 1) a" using remove by (simp add: Cons_nth_drop_Suc)
    have "lcs (drop i a) (drop j b) = lcs (drop (i + 1) a) (drop j b)"
    proof (cases "j < length b")
      case True
      have "drop j b = b ! j # drop (j + 1) b" using True by (simp add: Cons_nth_drop_Suc)
      then show ?thesis using remove True d assms [of "i + 1" j] assms [of i "j + 1"] by (simp add: max_def)
    qed (use less.prems d in simp)
    then show ?thesis using less.hyps [of "i + 1" j] less.prems remove d by (simp add: r texts_but_def same_texts_def)
  qed
qed

text \<open>C34: the comparison shown before a mod configuration is saved is exact and as short as possible, for texts of which the
  numbers of lines have a product of at most 250000 (for larger ones the code shows two placeholder rows): the rows that are not
  additions are the lines of the old text, the rows that are not removals those of the new one, both in order; and no common
  subsequence of the two texts is longer than the rows shown as unchanged.\<close>

theorem makeDiff_shortest:
  assumes "length (split CHR 0x0A before) * length (split CHR 0x0A after) \<le> 250000"
  shows "texts_but AddRow (makeDiff before after) = split CHR 0x0A before \<and>
    texts_but RemoveRow (makeDiff before after) = split CHR 0x0A after \<and>
    (\<forall>zs. subseq zs (split CHR 0x0A before) \<and> subseq zs (split CHR 0x0A after) \<longrightarrow> length zs \<le> length (same_texts (makeDiff before after)))"
proof -
  let ?a = "split CHR 0x0A before" and ?b = "split CHR 0x0A after"
  have "makeDiff before after = diff_rows ?a ?b (diff_matrix ?a ?b) 0 0" using assms by (simp add: makeDiff_def Let_def)
  then show ?thesis using diff_rows_shortest [of ?a ?b "diff_matrix ?a ?b" 0 0] diff_matrix_lcs [of ?a ?b] lcs_greatest [of _ ?a ?b] by simp
qed

theorem makeDiff_shortest_witness:
  "texts_but AddRow (makeDiff (''a'' @ CHR 0x0A # ''b'') (''b'' @ CHR 0x0A # ''c'')) = [''a'', ''b''] \<and>
   length (same_texts (makeDiff (''a'' @ CHR 0x0A # ''b'') (''b'' @ CHR 0x0A # ''c''))) = 1"
proof -
  have s: "split CHR 0x0A (''a'' @ CHR 0x0A # ''b'') = [''a'', ''b'']" "split CHR 0x0A (''b'' @ CHR 0x0A # ''c'') = [''b'', ''c'']" by code_simp+
  then have "length (split CHR 0x0A (''a'' @ CHR 0x0A # ''b'')) * length (split CHR 0x0A (''b'' @ CHR 0x0A # ''c'')) \<le> 250000" by simp
  note facts = makeDiff_shortest [OF this]
  have "same_texts (diff_rows [''a'', ''b''] [''b'', ''c''] (diff_matrix [''a'', ''b''] [''b'', ''c'']) 0 0) = [''b'']" by code_simp
  then have "length (same_texts (makeDiff (''a'' @ CHR 0x0A # ''b'') (''b'' @ CHR 0x0A # ''c''))) = 1" by (simp add: makeDiff_def s Let_def)
  then show ?thesis using facts s by simp
qed

section \<open>Schedules from the forms\<close>

lemma backup_parse:
  assumes "m \<in> set backup_intervals"
  shows "\<exists>c. parseCron (minutesToCron m) = Inr c \<and> c_months c = None \<and> c_doms c = None \<and> c_dows c = None \<and>
    (\<forall>n. 0 \<le> n \<and> n < 1440 \<longrightarrow> (field_ok (c_hours c) (n div 60) \<and> field_ok (c_minutes c) (n mod 60) \<longleftrightarrow> n mod m = 0))"
proof -
  have p: "parseCron (minutesToCron 15) = Inr \<lparr>c_minutes = Some [0, 15, 30, 45], c_hours = None, c_doms = None, c_months = None, c_dows = None\<rparr>"
    "parseCron (minutesToCron 30) = Inr \<lparr>c_minutes = Some [0, 30], c_hours = None, c_doms = None, c_months = None, c_dows = None\<rparr>"
    "parseCron (minutesToCron 60) = Inr \<lparr>c_minutes = Some [0], c_hours = None, c_doms = None, c_months = None, c_dows = None\<rparr>"
    "parseCron (minutesToCron 120) = Inr \<lparr>c_minutes = Some [0], c_hours = Some [0, 2, 4, 6, 8, 10, 12, 14, 16, 18, 20, 22], c_doms = None, c_months = None, c_dows = None\<rparr>"
    "parseCron (minutesToCron 360) = Inr \<lparr>c_minutes = Some [0], c_hours = Some [0, 6, 12, 18], c_doms = None, c_months = None, c_dows = None\<rparr>"
    "parseCron (minutesToCron 720) = Inr \<lparr>c_minutes = Some [0], c_hours = Some [0, 12], c_doms = None, c_months = None, c_dows = None\<rparr>"
    "parseCron (minutesToCron 1440) = Inr \<lparr>c_minutes = Some [0], c_hours = Some [0], c_doms = None, c_months = None, c_dows = None\<rparr>"
    by code_simp+
  have r: "(r = 0 \<or> r = 15 \<or> r = 30 \<or> r = 45) \<longleftrightarrow> r mod 15 = 0" "(r = 0 \<or> r = 30) \<longleftrightarrow> r mod 30 = 0" if "0 \<le> r" "r < 60" for r :: int
    using that by presburger+
  have h: "(n mod 60 = 0 \<or> n mod 60 = 15 \<or> n mod 60 = 30 \<or> n mod 60 = 45) \<longleftrightarrow> n mod 15 = 0"
    "(n mod 60 = 0 \<or> n mod 60 = 30) \<longleftrightarrow> n mod 30 = 0" for n :: int
    using r [of "n mod 60"] by (simp_all add: mod_mod_cancel)
  have k: "(k = 0 \<or> k = 2 \<or> k = 4 \<or> k = 6 \<or> k = 8 \<or> k = 10 \<or> k = 12 \<or> k = 14 \<or> k = 16 \<or> k = 18 \<or> k = 20 \<or> k = 22) \<longleftrightarrow> k mod 2 = 0"
    "(k = 0 \<or> k = 6 \<or> k = 12 \<or> k = 18) \<longleftrightarrow> k mod 6 = 0" "(k = 0 \<or> k = 12) \<longleftrightarrow> k mod 12 = 0" "k = 0 \<longleftrightarrow> k mod 24 = 0"
    if "0 \<le> k" "k < 24" for k :: int using that by presburger+
  have q: "n mod (60 * d) = 60 * (n div 60 mod d) + n mod 60" if "0 < d" for n d :: int using that by (simp add: zmod_zmult2_eq)
  have g: "(n div 60) mod d = 0 \<and> n mod 60 = 0 \<longleftrightarrow> n mod (60 * d) = 0" if "0 < d" for n d :: int
    using pos_mod_sign [OF that, of "n div 60"] pos_mod_sign [of 60 n] by (simp add: q [OF that]) linarith
  note g = g [of 2, simplified] g [of 6, simplified] g [of 12, simplified] g [of 24, simplified]
  have b: "0 \<le> n div 60" "n div 60 < 24" if "0 \<le> n" "n < 1440" for n :: int using that by presburger+
  consider "m = 1440" | "m \<in> {15, 30, 60, 120, 360, 720}" using assms by (auto simp: backup_intervals_def)
  then show ?thesis
  proof cases
    case 1
    have "n div 60 = 0 \<and> n mod 60 = 0 \<longleftrightarrow> n = 0" for n :: int using div_mult_mod_eq [of n 60] by auto
    then show ?thesis using 1 by (simp add: p(7) field_ok_def)
  next
    case 2
    then show ?thesis
      using k(1-3) [OF b] g(1-3) by (elim insertE emptyE) (simp_all add: p field_ok_def h)
  qed
qed

lemma backup_matches:
  assumes "m \<in> set backup_intervals"
  shows "\<exists>c. parseCron (minutesToCron m) = Inr c \<and> (\<forall>t. t mod 60000 = 0 \<longrightarrow> (cron_matches tz c t \<longleftrightarrow> local_ms tz t mod (m * 60000) = 0))"
proof -
  from backup_parse [OF assms] obtain c where c: "parseCron (minutesToCron m) = Inr c" "c_months c = None" "c_doms c = None" "c_dows c = None"
    and n: "\<forall>n. 0 \<le> n \<and> n < 1440 \<longrightarrow> (field_ok (c_hours c) (n div 60) \<and> field_ok (c_minutes c) (n mod 60) \<longleftrightarrow> n mod m = 0)"
    by (elim exE conjE)
  have m: "m dvd 1440" "0 < m" using assms by (auto simp: backup_intervals_def)
  have "cron_matches tz c t \<longleftrightarrow> local_ms tz t mod (m * 60000) = 0" if "t mod 60000 = 0" for t
  proof -
    define j where "j = t div 60000"
    have "t = 60000 * j" using that mult_div_mod_eq [of 60000 t] by (simp add: j_def)
    then have k: "local_ms tz t = 60000 * (j + tz)" by (simp add: local_ms_def ms_min_def)
    have day: "minute_of_day tz t = (j + tz) mod 1440"
      using mult_mod_right [of 60000 "j + tz" 1440] by (simp add: minute_of_day_def k ms_day_def ms_min_def)
    have "cron_matches tz c t \<longleftrightarrow> minute_of_day tz t mod m = 0"
      using n [rule_format, of "minute_of_day tz t"] by (simp add: cron_matches_def c(2-4) field_ok_def [of None] getHours_def getMinutes_def day)
    also have "\<dots> \<longleftrightarrow> (j + tz) mod m = 0" by (simp add: day mod_mod_cancel [OF m(1)])
    also have "\<dots> \<longleftrightarrow> local_ms tz t mod (m * 60000) = 0"
      unfolding k mult.commute [of m 60000] mult_mod_right [symmetric] by simp
    finally show ?thesis .
  qed
  then show ?thesis using c(1) by blast
qed

text \<open>C14: the backup interval a user picks is the interval of the backups. For every interval of the form, the form reads it back from the
  cron expression it stored, and the next run after any time is the first minute after it that is a multiple of the
  interval on the local clock (zones with a fixed offset), so runs follow each other at exactly that distance.\<close>

theorem backup_interval_kept:
  assumes "m \<in> set backup_intervals"
  shows "cronToMinutes (minutesToCron m) = m \<and>
    getNextCronRun tz (minutesToCron m) start = Inr (start + (m * 60000 - local_ms tz start mod (m * 60000)))"
proof
  have "list_all (\<lambda>m. cronToMinutes (minutesToCron m) = m) backup_intervals" by code_simp
  then show "cronToMinutes (minutesToCron m) = m" using assms by (simp add: list_all_iff)
  from backup_matches [OF assms] obtain c where c: "parseCron (minutesToCron m) = Inr c"
    and matches: "\<And>t. t mod 60000 = 0 \<Longrightarrow> cron_matches tz c t \<longleftrightarrow> local_ms tz t mod (m * 60000) = 0" by blast
  define P q f where "P = m * 60000" and "q = start + (P - local_ms tz start mod P)" and "f = first_candidate start"
  have m: "0 < m" "m \<le> 1440" using assms by (auto simp: backup_intervals_def)
  then have P: "0 < P" "P \<le> 86400000" "P mod 60000 = 0" by (simp_all add: P_def)
  note rest = pos_mod_sign [OF P(1), of "local_ms tz start"] pos_mod_bound [OF P(1), of "local_ms tz start"]
  have q: "start < q" "q \<le> start + P" using rest by (simp_all add: q_def)
  have local: "local_ms tz (start + d) = local_ms tz start + d" for d by (simp add: local_ms_def)
  have "local_ms tz q = P * (local_ms tz start div P + 1)"
    by (simp add: q_def local distrib_left minus_mod_eq_mult_div [symmetric])
  then have lq: "local_ms tz q mod P = 0" by simp
  then have q0: "q mod 60000 = 0"
    using mod_mod_cancel [of 60000 P "local_ms tz q"] P(3) by (auto simp: local_ms_def ms_min_def mod_eq_0_iff_dvd dvd_add_left_iff)
  have f: "f = 60000 * (start div 60000 + 1)"
    by (simp add: f_def first_candidate_def ms_min_def minus_mod_eq_mult_div algebra_simps)
  define i where "i = nat (q div 60000 - (start div 60000 + 1))"
  have "60000 * (q div 60000) = q" using q0 mult_div_mod_eq [of 60000 q] by simp
  moreover from this have "start div 60000 < q div 60000" using q(1) by (simp add: div_less_iff_less_mult mult.commute)
  ultimately have i: "q = f + int i * 60000" by (simp add: i_def f)
  have "cron_search tz c maxIter f = Some q"
    unfolding cron_search_Some
  proof (intro exI [of _ i] conjI allI impI)
    show "i < maxIter" using i q(2) P(2) f mult_div_mod_eq [of 60000 start] pos_mod_bound [of 60000 start] by (simp add: maxIter_def)
    show "cron_matches tz c q" using matches [OF q0] lq by (simp add: P_def)
    fix j assume j: "j < i"
    let ?t = "f + int j * 60000"
    have t: "start < ?t" "?t < q" using i j f mult_div_mod_eq [of 60000 start] pos_mod_bound [of 60000 start] by simp_all
    have "local_ms tz ?t mod P \<noteq> 0"
    proof
      assume "local_ms tz ?t mod P = 0"
      then have "P dvd local_ms tz q - local_ms tz ?t" using lq by (simp add: mod_eq_0_iff_dvd)
      moreover have "local_ms tz q - local_ms tz ?t = q - ?t" by (simp add: local_ms_def)
      ultimately show False using t q(2) zdvd_not_zless [of "q - ?t" P] by simp
    qed
    moreover have "?t mod 60000 = 0" by (simp add: f)
    ultimately show "\<not> cron_matches tz c ?t" using matches [of ?t] by (simp add: P_def)
  qed (rule i)
  then show "getNextCronRun tz (minutesToCron m) start = Inr (start + (m * 60000 - local_ms tz start mod (m * 60000)))"
    by (simp add: getNextCronRun_def c f_def q_def P_def)
qed

theorem backup_interval_kept_witness:
  "cronToMinutes (minutesToCron 360) = 360 \<and> getNextCronRun 60 (minutesToCron 360) 1000 = Inr 18000000"
proof -
  have "(360::int) \<in> set backup_intervals" by (simp add: backup_intervals_def)
  from backup_interval_kept [OF this, of 60 1000] show ?thesis by (simp add: local_ms_def ms_min_def)
qed

text \<open>"Every 2 days at 04:00" is a step over the days of a month, so after the 31st of January comes the 1st of February (times of 1970).\<close>

lemma two_days_in_a_row:
  defines "s \<equiv> \<lparr>ss_days = 2, ss_hour = 4, ss_minute = 0\<rparr>" and "jan31 \<equiv> 30 * 86400000 + 4 * 3600000"
  shows "simpleScheduleLabel s = ''Every 2 days at 04:00'' \<and> getNextCronRun 0 (simpleCron s) jan31 = Inr (jan31 + 86400000)"
proof
  show "simpleScheduleLabel s = ''Every 2 days at 04:00''" unfolding s_def by code_simp
  obtain c where c: "parseCron (simpleCron s) = Inr c" "c_hours c = Some [4]" "c_minutes c = Some [0]" "cron_matches 0 c (jan31 + 86400000)"
    by (rule that [of "\<lparr>c_minutes = Some [0], c_hours = Some [4], c_doms = Some [1, 3, 5, 7, 9, 11, 13, 15, 17, 19, 21, 23, 25, 27, 29, 31],
        c_months = None, c_dows = None\<rparr>"]) (unfold s_def jan31_def, code_simp+)
  have f: "first_candidate jan31 = jan31 + 60000" by (simp add: first_candidate_def jan31_def ms_min_def)
  have "cron_search 0 c maxIter (first_candidate jan31) = Some (jan31 + 86400000)"
    unfolding cron_search_Some f
  proof (intro exI [of _ 1439] conjI allI impI)
    fix j :: nat assume j: "j < 1439"
    let ?t = "jan31 + 60000 + int j * 60000"
    have t: "?t = 60000 * (30 * 1440 + 241 + int j)" by (simp add: jan31_def)
    have e: "60000 * k mod 86400000 = 60000 * (k mod 1440)" for k :: int using mult_mod_right [of 60000 k 1440, symmetric] by simp
    have "minute_of_day 0 ?t = (30 * 1440 + 241 + int j) mod 1440"
      using e [of "30 * 1440 + 241 + int j"] by (simp only: minute_of_day_def local_ms_def ms_day_def ms_min_def t mult_zero_left add_0_right)
    moreover have "30 * 1440 + 241 + int j = (241 + int j) + 30 * 1440" by simp
    ultimately have m: "minute_of_day 0 ?t = (241 + int j) mod 1440" by (simp only: mod_mult_self1)
    have "minute_of_day 0 ?t \<noteq> 240"
    proof (cases "j < 1199")
      case False
      then have "(241 + int j) mod 1440 = int j - 1199"
        using j mod_add_self2 [of "int j - 1199" 1440] by (simp add: mod_pos_pos_trivial)
      then show ?thesis using j m by simp
    qed (simp add: m)
    then show "\<not> cron_matches 0 c ?t"
      using mult_div_mod_eq [of 60 "minute_of_day 0 ?t"] by (auto simp: cron_matches_def c field_ok_def getHours_def getMinutes_def)
  qed (simp_all add: maxIter_def c)
  then show "getNextCronRun 0 (simpleCron s) jan31 = Inr (jan31 + 86400000)" by (simp add: getNextCronRun_def c)
qed

section \<open>The confirmation of a new account\<close>

lemma find_new_last: "List.find P xs = None \<Longrightarrow> P x \<Longrightarrow> List.find P (xs @ [x]) = Some x"
  by (induction xs) (auto split: if_splits)

lemma registered_unverified:
  assumes "acct_ok w" and "register A email pw name ip salt now w = (Inr (VerificationRequired e), w1)"
  shows "e = toLowerCase (trim email) \<and> (\<exists>u m. find_email e w1 = Some u \<and> u_emailVerifiedAt u = None \<and>
    membership_of (u_id u) w1 = Some m \<and> mail_configured (uo_orgId m) w1)"
proof -
  define a where "a = toLowerCase (trim email)"
  obtain o' w0 where d: "getOrCreateDefaultOrg now w = (o', w0)" by fastforce
  have new: "find_email a w = None" using assms(2) by (auto simp: register_def Let_def a_def split: if_splits)
  obtain w2 v where q: "take_quota (registrationIpHash (au_hmac A) ip) w0 = Some w2" and mail: "mail_configured o' w0"
    and s: "sendVerification A (next_id w2) o' a now (add_user (new_user (next_id w2) a name (makePasswordHash A pw salt) None now) o' ''viewer'' now w2) = (Inr v, w1)"
    and e: "e = a"
    using assms(2) new by (auto simp: register_def Let_def d a_def new_user_def split: if_splits option.splits prod.splits sum.splits)
  note move = getOrCreateDefaultOrg_move(1) [OF d] and quota = take_quota_move [OF q]
  have ok: "acct_ok w2" using assms(1) acct_move.trans_R [OF move quota(1)] by (simp add: acct_move_def)
  let ?u = "new_user (next_id w2) a name (makePasswordHash A pw salt) None now" and ?i = "next_id w2"
  have w1: "users w1 = updateRow u_id ?i (\<lambda>u. u\<lparr>u_emailVerificationSentAt := Some now\<rparr>) (users w2 @ [?u])"
    "userOrgs w1 = userOrgs w2 @ [\<lparr>uo_userId = ?i, uo_orgId = o', uo_role = ''viewer'', uo_createdAt = now\<rparr>]" "orgs w1 = orgs w0"
    using s quota(2) by (auto simp: sendVerification_def Let_def set_user_def add_user_def draw_def new_user_def split: if_splits sum.splits)
  have "users w0 = users w" using d by (auto simp: getOrCreateDefaultOrg_def draw_def split: list.splits)
  then have "findUnique u_email a (users w2) = None" using new quota(3) by (simp add: find_email_def)
  then have "find_email a w1 = Some (?u\<lparr>u_emailVerificationSentAt := Some now\<rparr>)"
    by (simp add: find_email_def w1(1) updateRow_def findUnique_updateMany findUnique_append findUnique_Cons new_user_def)
  moreover have "\<not> (\<exists>m \<in> set (userOrgs w2). uo_userId m = ?i)"
    using fresh_user [OF ok] ok unfolding acct_ok_def list_all_iff by metis
  then have "membership_of ?i w1 = Some \<lparr>uo_userId = ?i, uo_orgId = o', uo_role = ''viewer'', uo_createdAt = now\<rparr>"
    by (simp add: membership_of_def w1(2) find_new_last find_None_set)
  moreover have "mail_configured o' w1" using mail by (simp add: mail_configured_def w1(3))
  ultimately show ?thesis using e by (simp add: a_def new_user_def)
qed

text \<open>C13: where mails are on, a new account cannot be confirmed from the mail. A browser without a session that opens the link is sent to the
  sign-in page before the page of the link is shown, so no request is made and nothing changes; and until the address is
  confirmed, no password, challenge or address lets the user in. (The page of the link is missing from the pages the layout
  shows without a session.)\<close>

theorem confirmation_link_lost:
  assumes "acct_ok w" and "register A email pw name ip salt now w = (Inr (VerificationRequired e), w1)" and "\<not> isLoggedIn b"
  shows "open_link V c t token me b w1 = (Some ''/login'', b, w1) \<and>
    (\<exists>x. fst (login A email pw' ip' challenge answer recaptcha clean t' w1) = Inl x)"
proof
  show "open_link V c t token me b w1 = (Some ''/login'', b, w1)"
    using assms(3) by (simp add: open_link_def open_layout_def isPublicPath_def startsWith_def)
  from registered_unverified [OF assms(1,2)] obtain u m where u: "e = toLowerCase (trim email)" "find_email e w1 = Some u"
    "u_emailVerifiedAt u = None" "membership_of (u_id u) w1 = Some m" "mail_configured (uo_orgId m) w1" by blast
  have "\<exists>x. fst (admit_user A u e w1) = Inl x" by (simp add: admit_user_def u(3-5))
  then show "\<exists>x. fst (login A email pw' ip' challenge answer recaptcha clean t' w1) = Inl x"
    using u(1,2) by (auto simp: login_def Let_def split: sum.split option.split bool.split prod.split)
qed

definition sample_post :: world where
  "sample_post = sample_office\<lparr>orgs := [(new_org ''o'' ''Org'' ''org'' 1)\<lparr>o_mailgunApiKeyEncrypted := Some ''k'', o_mailgunDomain := Some ''d'', o_mailgunFromEmail := Some ''f''\<rparr>]\<rparr>"

definition sample_browser :: browser where
  "sample_browser = \<lparr>bw_token = None, bw_userId = None, bw_orgId = None\<rparr>"

theorem confirmation_link_lost_witness:
  "\<exists>w1. register sample_auth ''bo@example.org'' ''a long password'' None ''1.2.3.4'' ''5a'' 9 sample_post = (Inr (VerificationRequired ''bo@example.org''), w1) \<and>
     open_link sample_public sample_caller 10 (Some ''link'') NoAnswer sample_browser w1 = (Some ''/login'', sample_browser, w1) \<and>
     (\<exists>x. fst (login sample_auth ''bo@example.org'' ''a long password'' ''1.2.3.4'' ''c'' ''7'' None False 11 w1) = Inl x)"
proof -
  have "acct_ok sample_post" using sample_office_ok by (simp add: acct_ok_def drawn_def sample_post_def sample_office_def new_org_def)
  moreover have "fst (register sample_auth ''bo@example.org'' ''a long password'' None ''1.2.3.4'' ''5a'' 9 sample_post) = Inr (VerificationRequired ''bo@example.org'')"
    by code_simp
  then obtain w1 where "register sample_auth ''bo@example.org'' ''a long password'' None ''1.2.3.4'' ''5a'' 9 sample_post = (Inr (VerificationRequired ''bo@example.org''), w1)"
    by (metis prod.collapse)
  moreover have "\<not> isLoggedIn sample_browser" by (simp add: isLoggedIn_def sample_browser_def opt_or_def)
  ultimately show ?thesis using confirmation_link_lost by metis
qed

end
