(* ===== verification/Spec2Isabelle.thy ===== *)
theory Spec2Isabelle
  imports System Portal Log_Facts Shop_Facts Orgs Answers Views Outbound Uploads Api Confined Agent_Api Public_Api Dashboard
begin

text \<open>
  A model of the control plane of the Mastermind server manager (src/control-plane/src, a NestJS service)
  and what is proved of it.

  \<^bold>\<open>The program.\<close> Organizations own hosts and Minecraft servers on them. An agent on every host polls the
  control plane for jobs and reports their results, its log, its metrics and the servers it finds.
  Users work through a dashboard with the roles admin, operator and viewer; players have a portal with a shop.
  Jobs come from users, from schedules, from bulk batches, from rewards and purchases and from policies; all of
  them go through one queue per organization.

  \<^bold>\<open>Reading the model.\<close> The state is one record, \<open>world\<close> (Db.thy): a list of rows per
  table of prisma/schema.prisma in order of insertion, the queues, the in-memory maps of the services, a log of the
  messages that leave the process (\<open>effects\<close>) and a source of fresh ids. A handler is a function from
  its arguments, the time and the world to a result and a world; it is applied as a whole, so two handlers never
  interleave (where the code is exposed to an interleaving the steps of the handler are definitions of their own, as
  \<open>pair_check\<close> and \<open>pair_commit\<close>). An exception is the left side of a sum (\<open>res\<close>) and carries the
  message of the code. Definitions keep the name of the function they translate; helper definitions are pieces of it.
  Values of JSON columns and request bodies are the datatype \<open>js\<close>, numbers in them are rationals with NaN and the
  infinities, times are integers in milliseconds, strings are lists of 8-bit characters.

  \<^bold>\<open>Theories and sources.\<close>
  \<^item> JS_Base, Tables, Db: the language, the table operations of Prisma, the data model (common/ttl-map.ts, schema.prisma).
    Framework: the locales the components share: a preorder kept by the operations of a component, transition
    systems with an invariant, a window limiter.
  \<^item> Cron, Scheduler: scheduler/cron-next.ts, scheduler.service.ts.
  \<^item> Jobs_Queue, Job_Store, Job_Create, Job_Report, Answers: jobs/constants.ts, jobs-queue.service.ts, jobs.service.ts,
    agent-jobs.controller.ts, agent-stability.controller.ts. Uploads: the archives of jobs.controller.ts and agent-jobs.controller.ts.
  \<^item> Batches: batches/batches.service.ts.
  \<^item> Shop_Grants, Shop_Delivery, Payments, Donations, Shop_Items, Shop_Facts: donations/*.ts and the delivery half of jobs.service.ts.
  \<^item> Triggers: triggers/*.ts. Players: players/player-roster.ts, player-identity.ts.
    Views: players/players.service.ts and the list views of hosts, health, triggers and purchases.
  \<^item> Discord, Alerts, Relay: discord/*.ts, alerts/*.ts. Logs, Log_Frames, Log_Facts: logs/logs.service.ts.
  \<^item> Agents, Hosts, Servers: pairing/*.ts, the guards, hosts/*.ts, server-instances/*.ts.
  \<^item> Rate_Limit, Accounts, Sessions, Orgs: auth/*.ts, orgs/*.ts. Outbound: orgs/mod-ai.service.ts, mailgun/mailgun.service.ts and the
    connection tests. Portal: player-auth/*.ts.
  \<^item> Api: the routes of signed-in users that change state (*.controller.ts, the DTO classes, the validation of main.ts).
    Confined: what a request can change. Agent_Api, Public_Api: the routes of agents and those anyone can call,
    and what they can change. Rewards: what the operations on triggers and grants keep.
  \<^item> Dashboard: decisions of the browser (web/src): the layout and its pages, cron expressions of forms, comparison of texts.
  \<^item> Steps: what every request and timer does to the tables of jobs. System: the control plane as a transition system whose
    steps are served requests and timers, and the abstract queue it implements; this theory: what holds of them.

  \<^bold>\<open>How the parts interact.\<close> Every producer of jobs ends in \<open>dispatch\<close> (a job row, a run row, a queue
  entry); \<open>poll_once\<close> takes an entry out and starts its run; \<open>reportJobResult\<close> ends it and sets off what
  depends on it: the counters of its batch, the roster of players (and through it sessions, rewards, deliveries
  and alerts), the answers of purchases. Payments reach the same queue through \<open>handleWebhook\<close> and
  \<open>enqueueShopGrants\<close>. The lemmas of a component say what its operations leave alone (\<open>same_jobs\<close>, \<open>jobs_ext\<close>,
  \<open>quiet\<close>, \<open>fleet\<close>), and those of the callers build on them.

  \<^bold>\<open>What is shown.\<close>
  \<^item> Invariants of reachable states: the job tables and the counters of batches (what is deleted with a host is kept in a
    tally, since the code does not tell the batches); the ledger of payments; servers on
    hosts of their own organization; an organization keeps its administrator; the shop can always be served.
  \<^item> Refinement: the control plane implements an abstract queue of runs that only move forward and go with their host only.
  \<^item> Security: pairing tokens, agent keys, sessions and portal tokens are accepted only as issued; roles; forged and
    replayed webhooks; one give command per line; views without secrets; stored keys go only to their own service; an uploaded
    archive reaches its host; a request changes settings and fleet of the organization it names only, as the role of its caller allows.
  \<^item> Functional behaviour of cron times, cancellation, the sweep, rosters, discovery; round trips of checkouts, stored
    keys and portal passwords; equivalence of the SQL lockouts with the published policy and of chunked with whole logs (lines of up to 4096 characters).
  \<^item> Liveness: a host that polls undisturbed is handed every entry of its own in a queue of up to 500, and its report reaches whoever waits for it.
  \<^item> Faults, as theorems about the code as it is: see the findings of the manifest.

  \<^bold>\<open>Bounds and termination.\<close> The minute search of \<open>getNextCronRun\<close> recurses on the number of minutes left, 366 days
  of them as in the code, and the theorem on it says exactly when it fails. Loops that wait (the poll of an agent,
  \<open>waitForJobOutput\<close>) take the list of the turns or of the states they see, as long as the deadline allows; that
  they answer is a theorem. The retry loop of Discord recurses on the attempts left. All else is structural.

  \<^bold>\<open>Parameters.\<close> SHA-256, HMAC, scrypt, AES-GCM, the JWT library, random bytes, BullMQ's order of entries, the answers of
  Stripe, Steam, Discord, Mailgun and reCAPTCHA, the image library, the URL class, \<open>JSON.parse\<close>, \<open>gunzip\<close> and the orders of
  strings are arguments of the definitions (\<open>env\<close>, \<open>stripe\<close>, \<open>keyring\<close>, \<open>authEnv\<close>, \<open>portalEnv\<close>, \<open>shopEnv\<close>,
  \<open>orgEnv\<close>). What a theorem needs of them is a hypothesis, and its witness gives functions that satisfy it.

  \<^bold>\<open>Requests.\<close> \<open>serve\<close> (Api.thy) takes a request of any controller through the guards of its route, the validation of its
  body and its handler; \<open>agent_serve\<close> (Agent_Api.thy) and \<open>public_serve\<close> (Public_Api.thy) do so for an agent
  and for a caller without a session. Bodies have the types their handlers declare; what the handlers without DTO classes do with others is not modelled.

  \<^bold>\<open>Not modelled.\<close> The rendering of the web dashboard (React pages; what it decides in the browser is in Dashboard.thy) and the Go agent: what
  they send is an argument of the handlers. Module
  wiring, cross-origin rules and seeding; alert-rules.controller.ts, which no module registers; health.controller.ts, which reports on its process; WebSocket transport (an emitted event is an entry of \<open>effects\<close>).
  Collation of the database, numbers a JSON document cannot hold and characters above 8 bits are outside the model.
\<close>

section \<open>The control plane as a whole\<close>

text \<open>An operator creates a batch for the one server of a host, unregisters the server and deletes the host.\<close>

definition sample_floor :: world where
  "sample_floor = (empty_world nat_str)\<lparr>users := [sample_user], userOrgs := [\<lparr>uo_userId = ''u'', uo_orgId = ''o'', uo_role = ''operator'', uo_createdAt = 0\<rparr>],
     hosts := [sample_box ''h''], serverInstances := [sample_server ''s1'' ''h'']\<rparr>"

definition sample_queued :: world where
  "sample_queued = snd (createBatch ''o'' (Some ''u'') ''restart_wave'' [''s1''] None 5 sample_floor)"

definition sample_bare :: world where
  "sample_bare = snd (remove_server ''o'' ''u'' ''s1'' sample_queued)"

definition sample_gone :: world where
  "sample_gone = snd (remove_host ''o'' ''h'' ''u'' sample_bare)"

lemma sample_session:
  assumes "users w = [sample_user]" and "userOrgs w = [\<lparr>uo_userId = ''u'', uo_orgId = ''o'', uo_role = ''operator'', uo_createdAt = 0\<rparr>]"
    and "required_roles r = any_staff"
  shows "admitted (sample_api A) (bearer_header ''tok'') ''o'' r w = Inr (''u'', ''operator'')"
proof -
  have "u_id sample_user = ''u''" "u_approvedAt sample_user \<noteq> None" "opt_or (u_passwordHash sample_user) [] \<noteq> []" "u_authVersion sample_user = 1"
    by (simp_all add: sample_user_def new_user_def makePasswordHash_def opt_or_def)
  then have "jwtAuthGuard (ap_keys (sample_api A)) (bearer_header ''tok'') w = Inr ''u''"
    by (simp add: jwtAuthGuard_def bearer_token sample_api_def sample_door_def assms(1) isInteger_def num_int_def int_num_def findUnique_Cons)
  moreover have "orgMemberGuard ''u'' (Some ''o'') w = Inr ''operator''"
    by (simp add: orgMemberGuard_def opt_or_def find_member_def assms(2))
  ultimately show ?thesis
    by (simp add: admitted_def assms(3) any_staff_def userGuards_def requireOrgRoleGuard_def opt_or_def)
qed

lemma sample_tables:
  "users sample_floor = [sample_user]" "userOrgs sample_floor = [\<lparr>uo_userId = ''u'', uo_orgId = ''o'', uo_role = ''operator'', uo_createdAt = 0\<rparr>]"
  "users sample_queued = [sample_user]" "userOrgs sample_queued = [\<lparr>uo_userId = ''u'', uo_orgId = ''o'', uo_role = ''operator'', uo_createdAt = 0\<rparr>]"
  "users sample_bare = [sample_user]" "userOrgs sample_bare = [\<lparr>uo_userId = ''u'', uo_orgId = ''o'', uo_role = ''operator'', uo_createdAt = 0\<rparr>]"
  "fst (remove_host ''o'' ''h'' ''u'' sample_bare) = Inr ()"
  "map jr_hostId (jobRuns sample_queued) = [''h'']" "map jr_id (jobRuns sample_queued) = [''2'']"
  "map jr_id (jobRuns sample_bare) = [''2'']" "jobRuns sample_gone = []" "map b_id (jobBatches sample_gone) = [''0'']" "map b_pendingCount (jobBatches sample_gone) = [1]"
  by code_simp+

lemma sample_steps:
  "sys_step [] sample_floor sample_queued" "sys_step [] sample_queued sample_bare" "sys_step [''h''] sample_bare sample_gone"
proof -
  fix A c and d :: disk and u :: uploads
  note run = serve_def sample_session sample_tables(1-6) required_roles_def valid_body_def handle_def on_world_def outcome_def case_prod_unfold
  have "serve (sample_api A) c (bearer_header ''tok'') ''o'' 5 (Work (CreateBatch ''restart_wave'' [''s1''] None)) (sample_floor, d, u) =
      (outcome (fst (createBatch ''o'' (Some ''u'') ''restart_wave'' [''s1''] None 5 sample_floor)), sample_queued, d, u)"
    by (simp add: run work_valid_def BATCH_TYPES_def work_run_def sample_queued_def)
  from user [OF this] show "sys_step [] sample_floor sample_queued" by simp
  have "serve (sample_api A) c (bearer_header ''tok'') ''o'' 6 (Server (RemoveServer ''s1'')) (sample_queued, d, u) =
      (outcome (fst (remove_server ''o'' ''u'' ''s1'' sample_queued)), sample_bare, d, u)"
    by (simp add: run server_valid_def server_run_def sample_bare_def)
  from user [OF this] show "sys_step [] sample_queued sample_bare" by simp
  have "serve (sample_api A) c (bearer_header ''tok'') ''o'' 7 (Host (RemoveHost ''h'')) (sample_bare, d, u) = (Inr (), sample_gone, d, u)"
    using sample_tables(7) by (simp add: run host_valid_def host_run_def sample_gone_def)
  from user [OF this] show "sys_step [''h''] sample_bare sample_gone" by simp
qed

lemma sample_start: "reach sys_init any_step sample_floor"
  by (rule reach.start) (simp add: sys_init_def sample_floor_def empty_world_def inj_nat_str)

lemma sample_paths:
  "path sys_step [''h''] sample_floor sample_gone" "path sys_step [''h''] sample_queued sample_gone" "path sys_step [] sample_queued sample_bare"
proof -
  have 0: "path sys_step [] sample_floor sample_queued" by (rule path_one) (rule sample_steps(1))
  show 1: "path sys_step [] sample_queued sample_bare" by (rule path_one) (rule sample_steps(2))
  have "path sys_step ([] @ [''h'']) sample_queued sample_gone" by (rule path.on [OF 1]) (rule sample_steps(3))
  then show 2: "path sys_step [''h''] sample_queued sample_gone" by simp
  have "path sys_step ([] @ [''h'']) sample_floor sample_gone" by (rule path_trans [OF 2 0])
  then show "path sys_step [''h''] sample_floor sample_gone" by simp
qed

text \<open>C1: whatever sequence of requests of users, agents and anyone else (each through its guards, its validation and its handler)
  and of timers is served from empty tables, the job tables stay well formed (ids are unique, every run belongs to a job and
  every batched job to a batch), and the counters of every batch agree with its runs and with the runs that were deleted
  together with their host: the pending, succeeded and cancelled counters are the number of runs with that status, deleted
  ones included (the status they had), running and failed together are exact too (a silent run that is released counts as
  running still), and the total is the sum. When no run was deleted the counters are exact.\<close>

theorem reachable_accounted:
  assumes "reach tally_init tally_step (w, lost)"
  shows "store_wf w \<and> accounted_with lost w \<and> (lost = none_lost \<longrightarrow> accounted w)"
  using counted.reach_inv [OF assms] by (auto simp: tally_inv_def accounted_none)

theorem reachable_accounted_witness:
  "\<exists>lost. reach tally_init tally_step (sample_gone, lost) \<and> store_wf sample_gone \<and> jobRuns sample_gone = [] \<and> lost ''0'' Pending = 1"
proof -
  have "tally_init (sample_floor, none_lost)"
    by (simp add: tally_init_def sys_init_def sample_floor_def empty_world_def inj_nat_str)
  then have 0: "reach tally_init tally_step (sample_floor, none_lost)" by (rule reach.start)
  obtain lost where r: "reach tally_init tally_step (sample_gone, lost)"
    using reach.move [where step = tally_step, OF _ tally_step.intros] 0 sample_steps by meson
  obtain b where b: "jobBatches sample_gone = [b]" "b_id b = ''0''" "b_pendingCount b = 1"
    using sample_tables(12,13) by (cases "jobBatches sample_gone") auto
  have "lost ''0'' Pending = 1"
    using reachable_accounted [OF r] b sample_tables(11) by (auto simp: accounted_with_def counters_with_def runs_of_def countRows_def)
  then show ?thesis using r reachable_accounted [OF r] sample_tables(11) by blast
qed

text \<open>C2: no sequence of requests and timers moves a job run to another host or takes it backwards in its life cycle, a run that has
  succeeded, failed or been cancelled never changes again, and a run disappears exactly when its host is deleted (by
  the request that does so, which labels the sequence); then it never comes back.\<close>

theorem run_life_cycle:
  assumes "reach sys_init any_step w" and "path sys_step deleted_hosts w w'" and "find_run i w = Some r"
  shows "if jr_hostId r \<in> set deleted_hosts then find_run i w' = None
    else \<exists>r'. find_run i w' = Some r' \<and> run_step\<^sup>*\<^sup>* (jr_status r) (jr_status r') \<and>
      jr_jobId r' = jr_jobId r \<and> jr_hostId r' = jr_hostId r \<and> (terminal (jr_status r) \<longrightarrow> r' = r)"
  using run_fate [OF assms(2) control_plane.reach_inv [OF assms(1)] assms(3)] by (auto simp: run_le_def)

theorem run_life_cycle_witness:
  "(\<exists>r'. find_run ''2'' sample_bare = Some r' \<and> jr_hostId r' = ''h'') \<and> find_run ''2'' sample_gone = None"
proof -
  obtain r where r: "jobRuns sample_queued = [r]" "jr_id r = ''2''" "jr_hostId r = ''h''"
    using sample_tables(8,9) by (cases "jobRuns sample_queued") auto
  then have run: "find_run ''2'' sample_queued = Some r" by (simp add: find_run_def findUnique_Cons)
  have reached: "reach sys_init any_step sample_queued"
    using sample_steps(1) by (intro reach.move [OF sample_start]) (auto simp: any_step_def)
  show ?thesis
    using run_life_cycle [OF reached sample_paths(3) run] run_life_cycle [OF reached sample_paths(2) run] r(3) by auto
qed

text \<open>C3: the control plane implements the abstract job queue: what any sequence of requests and timers does to
  the job runs is a sequence of abstract moves, each creating one pending run on a host, taking one run one step along
  its life cycle, or retiring a host with all its runs; the hosts retired are those whose deletion was requested, in
  that order. No other run is forgotten.\<close>

theorem sys_refines_lifecycle:
  assumes "reach sys_init any_step w" and "path sys_step deleted_hosts w w'"
  shows "path spec_step deleted_hosts (run_states w) (run_states w')"
  by (rule queue_view.path_simulated [OF assms(2) control_plane.reach_inv [OF assms(1)]])

theorem sys_refines_lifecycle_witness:
  "path spec_step [''h''] (run_states sample_floor) (run_states sample_gone)"
  by (rule sys_refines_lifecycle [OF sample_start sample_paths(1)])

end
